(* ===== verification/JSNumber.thy ===== *)
theory JSNumber
  imports Complex_Main "HOL-Library.Log_Nat"
begin

text \<open>
  The \<^verbatim>\<open>number\<close> type of the source language: IEEE-754 binary64 values with
  round-to-nearest-even. A finite value is a rational; \<open>fl\<close> rounds an exact result to
  the nearest double (53-bit significand, gradual underflow at \<open>2 powi (-1074)\<close>), and
  \<open>of_exact\<close> turns an overflow into an infinity. The two zeros are identified: the
  modelled code never divides by a zero nor tests its sign bit. The lemmas show that the
  arithmetic of the code is exact on safe integers and that a rounded quotient of safe
  integers has the same floor as the exact quotient.
\<close>

section \<open>Doubles\<close>

datatype jsnum = Fin rat | PosInf | NegInf | NaN

definition round_half_even :: "rat \<Rightarrow> int" where
  "round_half_even x =
     (let q = \<lfloor>x\<rfloor>; r = x - of_int q
      in if r < 1/2 then q else if 1/2 < r then q + 1 else if even q then q else q + 1)"

text \<open>The exponent of the unit in the last place of a non-zero value.\<close>

definition ulp_exp :: "rat \<Rightarrow> int" where
  "ulp_exp x =
     (case quotient_of \<bar>x\<bar> of (n, d) \<Rightarrow>
        let k = int (floorlog 2 (nat n)) - int (floorlog 2 (nat d))
        in max (-1074) (if \<bar>x\<bar> < 2 powi k then k - 53 else k - 52))"

definition fl :: "rat \<Rightarrow> rat" where
  "fl x = (if x = 0 then 0
           else of_int (round_half_even (x / 2 powi ulp_exp x)) * 2 powi ulp_exp x)"

definition overflow_bound :: rat where
  "overflow_bound = 2 ^ 1024"

definition of_exact :: "rat \<Rightarrow> jsnum" where
  "of_exact x = (let y = fl x in
     if overflow_bound \<le> y then PosInf
     else if y \<le> - overflow_bound then NegInf else Fin y)"

section \<open>Rounding\<close>

lemma round_half_even_of_int [simp]: "round_half_even (of_int n) = n"
  by (simp add: round_half_even_def)

lemma round_half_even_error: "\<bar>of_int (round_half_even x) - x\<bar> \<le> 1/2"
proof -
  have "x < of_int \<lfloor>x\<rfloor> + 1" "of_int \<lfloor>x\<rfloor> \<le> x" by linarith+
  then show ?thesis by (auto simp: round_half_even_def Let_def)
qed

lemma round_half_even_nonneg: "0 \<le> x \<Longrightarrow> 0 \<le> round_half_even x"
  by (auto simp: round_half_even_def Let_def)

lemma powi2_pos [simp]: "0 < (2::rat) powi k"
  by (simp add: zero_less_power_int)

lemma powi2_add: "(2::rat) powi (a + b) = 2 powi a * 2 powi b"
  by (rule power_int_add) simp

lemma powi2_nat: "(2::rat) powi int n = 2 ^ n"
  by (simp add: power_int_def)

lemma powi2_diff_nat: "(2::rat) powi (int a - int b) = 2 ^ a / 2 ^ b"
  by (simp add: power_int_diff)

lemma powi2_mono: "a \<le> b \<Longrightarrow> (2::rat) powi a \<le> 2 powi b"
  by (rule power_int_increasing) auto

lemma powi2_mono_iff: "(2::rat) powi a < 2 powi b \<longleftrightarrow> a < b"
  by (meson linorder_not_le order_less_le powi2_mono power_int_strict_increasing
      one_less_numeral_iff semiring_norm(76))

lemma floorlog2_bounds:
  assumes "0 < n"
  shows "2 ^ (floorlog 2 n - 1) \<le> n" "n < 2 ^ floorlog 2 n" "0 < floorlog 2 n"
  using assms floorlog_bounds [of n 2] by (auto simp: floorlog_def)

text \<open>The exponent is the one of a 53-bit significand, or the least exponent.\<close>

lemma quotient_powi_bounds:
  assumes q: "quotient_of \<bar>x\<bar> = (n, d)" and x: "x \<noteq> 0"
  defines "k \<equiv> int (floorlog 2 (nat n)) - int (floorlog 2 (nat d))"
  shows "2 powi (k - 1) \<le> \<bar>x\<bar>" "\<bar>x\<bar> < 2 powi (k + 1)"
proof -
  have d: "0 < d" using q by (rule quotient_of_denom_pos)
  have xq: "\<bar>x\<bar> = of_int n / of_int d" using q by (rule quotient_of_div)
  with x d have n: "0 < n"
    by (metis abs_of_nonneg abs_zero divide_eq_0_iff linorder_not_le of_int_0_less_iff
        zero_less_abs_iff zero_less_divide_iff of_int_less_0_iff order_le_less)
  let ?a = "floorlog 2 (nat n)" and ?b = "floorlog 2 (nat d)"
  note A = floorlog2_bounds [of "nat n"] and B = floorlog2_bounds [of "nat d"]
  have "(2::int) ^ (?a - 1) \<le> n" using n A(1) by (simp add: le_nat_iff)
  then have nl: "(2::rat) ^ (?a - 1) \<le> of_int n" by (metis of_int_le_iff of_int_numeral of_int_power)
  have "n < (2::int) ^ ?a" using n A(2) by (simp add: nat_less_iff)
  then have nu: "of_int n < (2::rat) ^ ?a" by (metis of_int_less_iff of_int_numeral of_int_power)
  have "(2::int) ^ (?b - 1) \<le> d" using d B(1) by (simp add: le_nat_iff)
  then have dl: "(2::rat) ^ (?b - 1) \<le> of_int d" by (metis of_int_le_iff of_int_numeral of_int_power)
  have "d < (2::int) ^ ?b" using d B(2) by (simp add: nat_less_iff)
  then have du: "of_int d < (2::rat) ^ ?b" by (metis of_int_less_iff of_int_numeral of_int_power)
  have ap: "0 < ?a" and bp: "0 < ?b" using n d A(3) B(3) by auto
  have "k - 1 = int (?a - 1) - int ?b" using ap by (simp add: k_def of_nat_diff)
  then have e1: "(2::rat) powi (k - 1) = 2 ^ (?a - 1) / 2 ^ ?b"
    by (metis powi2_diff_nat)
  have "k + 1 = int ?a - int (?b - 1)" using bp by (simp add: k_def of_nat_diff)
  then have e2: "(2::rat) powi (k + 1) = 2 ^ ?a / 2 ^ (?b - 1)"
    by (metis powi2_diff_nat)
  show "2 powi (k - 1) \<le> \<bar>x\<bar>"
    unfolding e1 xq using nl du d n by (intro frac_le) auto
  show "\<bar>x\<bar> < 2 powi (k + 1)"
    unfolding e2 xq using nu dl n by (intro frac_less) auto
qed

lemma ulp_exp_spec:
  assumes "x \<noteq> 0"
  shows "\<bar>x\<bar> < 2 powi (ulp_exp x + 53)"
    and "ulp_exp x = -1074 \<or> 2 powi (ulp_exp x + 52) \<le> \<bar>x\<bar>"
    and "-1074 \<le> ulp_exp x"
proof -
  obtain n d where q: "quotient_of \<bar>x\<bar> = (n, d)" by fastforce
  define k where "k = int (floorlog 2 (nat n)) - int (floorlog 2 (nat d))"
  note B = quotient_powi_bounds [OF q assms, folded k_def]
  define e where "e = (if \<bar>x\<bar> < 2 powi k then k - 53 else k - 52)"
  have u: "ulp_exp x = max (-1074) e"
    by (simp add: ulp_exp_def q k_def e_def Let_def)
  have l: "2 powi (e + 52) \<le> \<bar>x\<bar>" and h: "\<bar>x\<bar> < 2 powi (e + 53)"
    using B by (auto simp: e_def add.commute)
  have "(2::rat) powi (e + 53) \<le> 2 powi (ulp_exp x + 53)"
    by (rule powi2_mono) (simp add: u)
  with h show "\<bar>x\<bar> < 2 powi (ulp_exp x + 53)" by linarith
  show "ulp_exp x = -1074 \<or> 2 powi (ulp_exp x + 52) \<le> \<bar>x\<bar>"
    using l by (auto simp: u max_def)
  show "-1074 \<le> ulp_exp x" by (simp add: u)
qed

section \<open>Error of one rounding\<close>

lemma fl_0 [simp]: "fl 0 = 0"
  by (simp add: fl_def)

lemma fl_error: "\<bar>fl x - x\<bar> \<le> 2 powi ulp_exp x / 2"
proof (cases "x = 0")
  case False
  let ?p = "(2::rat) powi ulp_exp x"
  have "fl x - x = (of_int (round_half_even (x / ?p)) - x / ?p) * ?p"
    using False by (simp add: fl_def field_simps)
  then have "\<bar>fl x - x\<bar> = \<bar>of_int (round_half_even (x / ?p)) - x / ?p\<bar> * ?p"
    by (simp add: abs_mult)
  also have "\<dots> \<le> (1/2) * ?p"
    by (intro mult_right_mono round_half_even_error) auto
  finally show ?thesis by simp
qed simp

lemma fl_nonneg: "0 \<le> x \<Longrightarrow> 0 \<le> fl x"
  by (simp add: fl_def round_half_even_nonneg)

lemma less_overflow_bound: "x \<le> 2 ^ 64 \<Longrightarrow> x < overflow_bound"
proof -
  assume x: "x \<le> 2 ^ 64"
  have "(2::rat) ^ 64 < 2 ^ 1024" by (rule power_strict_increasing) simp_all
  then show ?thesis unfolding overflow_bound_def using x by (rule le_less_trans [rotated])
qed

lemma of_exact_finite:
  assumes "\<bar>fl x\<bar> \<le> 2 ^ 64"
  shows "of_exact x = Fin (fl x)"
proof -
  have "\<bar>fl x\<bar> < overflow_bound" using assms by (rule less_overflow_bound)
  then show ?thesis unfolding of_exact_def Let_def by (auto simp: abs_less_iff)
qed

text \<open>Evaluation looks at the overflow bound for large numbers only.\<close>

lemma of_exact_code [code]:
  "of_exact x = (let y = fl x in
     if \<bar>y\<bar> \<le> 2 ^ 64 then Fin y
     else if overflow_bound \<le> y then PosInf
     else if y \<le> - overflow_bound then NegInf else Fin y)"
  using of_exact_finite [of x] by (simp add: of_exact_def Let_def)

lemma fl_coarse_error: "\<bar>fl x - x\<bar> \<le> \<bar>x\<bar> / 2 + 1"
proof (cases "x = 0")
  case False
  have "2 powi ulp_exp x \<le> \<bar>x\<bar> \<or> (2::rat) powi ulp_exp x \<le> 1"
    using ulp_exp_spec(2) [OF False]
  proof
    assume "ulp_exp x = -1074"
    then have "2 powi ulp_exp x \<le> (2::rat) powi 0" by (intro powi2_mono) simp
    then show ?thesis by simp
  next
    assume "2 powi (ulp_exp x + 52) \<le> \<bar>x\<bar>"
    moreover have "(2::rat) powi ulp_exp x \<le> 2 powi (ulp_exp x + 52)" by (rule powi2_mono) simp
    ultimately show ?thesis by (intro disjI1) (rule order_trans)
  qed
  then show ?thesis using fl_error [of x] by linarith
qed simp

lemma fl_less_overflow:
  assumes "x \<le> 2 ^ 60"
  shows "fl x < overflow_bound"
proof (rule less_overflow_bound, cases "0 \<le> x")
  case True
  then show "fl x \<le> 2 ^ 64" using fl_coarse_error [of x] assms by (simp add: abs_if split: if_splits)
next
  case False
  then show "fl x \<le> 2 ^ 64" using fl_coarse_error [of x] by (simp add: abs_if split: if_splits)
qed

definition min_normal :: rat where
  "min_normal = 2 powi (-1022)"

text \<open>In the normal range the relative error is at most half a unit in the last place.\<close>

lemma fl_relative_error:
  assumes "min_normal \<le> \<bar>x\<bar>"
  shows "\<bar>fl x - x\<bar> \<le> \<bar>x\<bar> / 2 ^ 53"
proof -
  have nz: "x \<noteq> 0" using assms powi2_pos [of "-1022"] by (auto simp: min_normal_def simp del: powi2_pos)
  have "2 powi (ulp_exp x + 52) \<le> \<bar>x\<bar>"
    using ulp_exp_spec(2) [OF nz]
  proof
    assume e: "ulp_exp x = -1074"
    have "2 powi (ulp_exp x + 52) = min_normal" by (simp only: e min_normal_def) simp
    then show ?thesis using assms by simp
  qed
  then have "2 powi ulp_exp x * 2 ^ 52 \<le> \<bar>x\<bar>"
    by (simp add: powi2_add power_int_def [of _ 52])
  moreover have "\<bar>fl x - x\<bar> \<le> 2 powi ulp_exp x / 2" by (rule fl_error)
  ultimately show ?thesis by (simp add: field_simps)
qed

text \<open>A value with a significand of at most 53 bits is a double: rounding leaves it alone.\<close>

lemma fl_representable:
  assumes "\<bar>m\<bar> < 2 ^ 53" "-1074 \<le> e"
  shows "fl (of_int m * 2 powi e) = of_int m * 2 powi e"
proof (cases "m = 0")
  case False
  let ?x = "of_int m * 2 powi e :: rat"
  have nz: "?x \<noteq> 0" using False by simp
  have "\<bar>?x\<bar> = of_int \<bar>m\<bar> * 2 powi e" by (simp add: abs_mult)
  also have "\<dots> < 2 ^ 53 * 2 powi e"
  proof -
    have "(of_int \<bar>m\<bar> :: rat) < of_int (2 ^ 53)" using assms(1) of_int_less_iff by blast
    then show ?thesis by simp
  qed
  also have "\<dots> = 2 powi (e + 53)" by (simp add: powi2_add power_int_def [of _ 53])
  finally have xu: "\<bar>?x\<bar> < 2 powi (e + 53)" .
  have le: "ulp_exp ?x \<le> e"
  proof (cases "ulp_exp ?x = -1074")
    case False
    then have "2 powi (ulp_exp ?x + 52) < (2::rat) powi (e + 53)"
      using ulp_exp_spec(2) [OF nz] xu by linarith
    then show ?thesis by (simp add: powi2_mono_iff)
  qed (use assms(2) in simp)
  have "?x / 2 powi ulp_exp ?x = of_int m * 2 powi (e - ulp_exp ?x)"
    by (simp add: power_int_diff)
  also have "\<dots> = of_int (m * 2 ^ nat (e - ulp_exp ?x))"
    using le by (simp add: power_int_def)
  finally have r: "of_int (round_half_even (?x / 2 powi ulp_exp ?x)) = ?x / 2 powi ulp_exp ?x"
    by (metis round_half_even_of_int)
  show ?thesis
    unfolding fl_def [of ?x] r using nz by simp
qed simp

lemma fl_of_int:
  assumes "\<bar>n\<bar> \<le> 2 ^ 53"
  shows "fl (of_int n) = of_int n"
proof (cases "\<bar>n\<bar> = 2 ^ 53")
  case False
  then show ?thesis using assms fl_representable [of n 0] by simp
next
  case True
  then consider "n = 2 ^ 52 * 2" | "n = (- (2 ^ 52)) * 2" by fastforce
  then show ?thesis
  proof cases
    case 1
    then show ?thesis using fl_representable [of "2 ^ 52" 1] by simp
  next
    case 2
    then show ?thesis using fl_representable [of "- (2 ^ 52)" 1] by simp
  qed
qed

section \<open>Operators\<close>

fun num_add :: "jsnum \<Rightarrow> jsnum \<Rightarrow> jsnum" where
  "num_add (Fin x) (Fin y) = of_exact (x + y)"
| "num_add NaN _ = NaN"
| "num_add _ NaN = NaN"
| "num_add PosInf NegInf = NaN"
| "num_add NegInf PosInf = NaN"
| "num_add PosInf _ = PosInf"
| "num_add _ PosInf = PosInf"
| "num_add _ _ = NegInf"

fun num_neg :: "jsnum \<Rightarrow> jsnum" where
  "num_neg (Fin x) = Fin (- x)"
| "num_neg PosInf = NegInf"
| "num_neg NegInf = PosInf"
| "num_neg NaN = NaN"

definition num_sub :: "jsnum \<Rightarrow> jsnum \<Rightarrow> jsnum" where
  "num_sub x y = num_add x (num_neg y)"

definition signed_inf :: "rat \<Rightarrow> jsnum" where
  "signed_inf s = (if s = 0 then NaN else if 0 < s then PosInf else NegInf)"

fun num_mul :: "jsnum \<Rightarrow> jsnum \<Rightarrow> jsnum" where
  "num_mul (Fin x) (Fin y) = of_exact (x * y)"
| "num_mul NaN _ = NaN"
| "num_mul _ NaN = NaN"
| "num_mul (Fin x) PosInf = signed_inf x"
| "num_mul (Fin x) NegInf = signed_inf (- x)"
| "num_mul PosInf (Fin y) = signed_inf y"
| "num_mul NegInf (Fin y) = signed_inf (- y)"
| "num_mul PosInf PosInf = PosInf"
| "num_mul NegInf NegInf = PosInf"
| "num_mul _ _ = NegInf"

fun num_div :: "jsnum \<Rightarrow> jsnum \<Rightarrow> jsnum" where
  "num_div (Fin x) (Fin y) = (if y = 0 then signed_inf x else of_exact (x / y))"
| "num_div NaN _ = NaN"
| "num_div _ NaN = NaN"
| "num_div (Fin x) _ = Fin 0"
| "num_div PosInf (Fin y) = (if 0 \<le> y then PosInf else NegInf)"
| "num_div NegInf (Fin y) = (if 0 \<le> y then NegInf else PosInf)"
| "num_div _ _ = NaN"

definition truncate :: "rat \<Rightarrow> int" where
  "truncate x = (if 0 \<le> x then \<lfloor>x\<rfloor> else \<lceil>x\<rceil>)"

text \<open>The remainder \<^verbatim>\<open>x % y\<close> is exact and has the sign of \<open>x\<close>.\<close>

fun num_rem :: "jsnum \<Rightarrow> jsnum \<Rightarrow> jsnum" where
  "num_rem (Fin x) (Fin y) = (if y = 0 then NaN else Fin (x - y * of_int (truncate (x / y))))"
| "num_rem (Fin x) PosInf = Fin x"
| "num_rem (Fin x) NegInf = Fin x"
| "num_rem _ _ = NaN"

fun num_floor :: "jsnum \<Rightarrow> jsnum" where
  "num_floor (Fin x) = Fin (of_int \<lfloor>x\<rfloor>)"
| "num_floor x = x"

text \<open>\<^verbatim>\<open>Math.round\<close>: the nearest integer, ties towards plus infinity.\<close>

fun num_round :: "jsnum \<Rightarrow> jsnum" where
  "num_round (Fin x) = Fin (of_int \<lfloor>x + 1/2\<rfloor>)"
| "num_round x = x"

fun num_less :: "jsnum \<Rightarrow> jsnum \<Rightarrow> bool" where
  "num_less (Fin x) (Fin y) = (x < y)"
| "num_less NegInf y = (y \<noteq> NegInf \<and> y \<noteq> NaN)"
| "num_less (Fin x) y = (y = PosInf)"
| "num_less _ _ = False"

definition num_le :: "jsnum \<Rightarrow> jsnum \<Rightarrow> bool" where
  "num_le x y \<longleftrightarrow> num_less x y \<or> (x = y \<and> x \<noteq> NaN)"

text \<open>\<^verbatim>\<open>Math.abs\<close>\<close>

fun num_abs :: "jsnum \<Rightarrow> jsnum" where
  "num_abs (Fin x) = Fin \<bar>x\<bar>"
| "num_abs NaN = NaN"
| "num_abs _ = PosInf"

fun num_finite :: "jsnum \<Rightarrow> bool" where
  "num_finite (Fin _) = True"
| "num_finite _ = False"

text \<open>\<^verbatim>\<open>Number.isSafeInteger\<close> and \<^verbatim>\<open>Number.EPSILON\<close>.\<close>

fun num_safe_integer :: "jsnum \<Rightarrow> bool" where
  "num_safe_integer (Fin x) = (x = of_int \<lfloor>x\<rfloor> \<and> \<bar>x\<bar> \<le> 2 ^ 53 - 1)"
| "num_safe_integer _ = False"

definition num_epsilon :: jsnum where
  "num_epsilon = Fin (1 / 2 ^ 52)"

abbreviation num_int :: "int \<Rightarrow> jsnum" where
  "num_int n \<equiv> Fin (of_int n)"

section \<open>Exactness on integers\<close>

lemma of_exact_int:
  assumes "\<bar>n\<bar> \<le> 2 ^ 53"
  shows "of_exact (of_int n) = num_int n"
proof -
  have "of_int \<bar>n\<bar> \<le> (of_int (2 ^ 53) :: rat)" using assms by (simp only: of_int_le_iff)
  then show ?thesis using of_exact_finite [of "of_int n"] by (simp add: fl_of_int [OF assms])
qed

lemma num_add_int [simp]:
  "\<bar>a + b\<bar> \<le> 2 ^ 53 \<Longrightarrow> num_add (num_int a) (num_int b) = num_int (a + b)"
  using of_exact_int [of "a + b"] by simp

lemma num_sub_int [simp]:
  "\<bar>a - b\<bar> \<le> 2 ^ 53 \<Longrightarrow> num_sub (num_int a) (num_int b) = num_int (a - b)"
  using of_exact_int [of "a - b"] by (simp add: num_sub_def)

lemma num_mul_int [simp]:
  "\<bar>a * b\<bar> \<le> 2 ^ 53 \<Longrightarrow> num_mul (num_int a) (num_int b) = num_int (a * b)"
  using of_exact_int [of "a * b"] by simp

lemma num_rem_int [simp]:
  assumes "0 \<le> a" "0 < b"
  shows "num_rem (num_int a) (num_int b) = num_int (a mod b)"
proof -
  have "truncate (of_int a / of_int b) = a div b"
    using assms by (simp add: truncate_def floor_divide_of_int_eq)
  moreover have "of_int a - of_int b * of_int (a div b) = (of_int (a mod b) :: rat)"
    by (metis minus_mult_div_eq_mod of_int_diff of_int_mult)
  ultimately show ?thesis using assms by simp
qed

lemma num_le_int [simp]: "num_le (num_int a) (num_int b) \<longleftrightarrow> a \<le> b"
  by (auto simp: num_le_def)

lemma num_floor_int [simp]: "num_floor (num_int n) = num_int n"
  by simp

lemma foldl_num_add_int:
  assumes "0 \<le> s" "\<forall>x \<in> set xs. 0 \<le> x" "s + sum_list xs \<le> 2 ^ 53"
  shows "foldl num_add (num_int s) (map num_int xs) = num_int (s + sum_list xs)"
  using assms
proof (induction xs arbitrary: s)
  case (Cons x xs)
  have "0 \<le> sum_list xs" using Cons.prems(2) by (auto intro: sum_list_nonneg)
  then have "num_add (num_int s) (num_int x) = num_int (s + x)"
    using Cons.prems by (intro num_add_int) auto
  then show ?case using Cons.IH [of "s + x"] Cons.prems by (simp add: add.assoc)
qed simp

lemma num_safe_integer_iff: "num_safe_integer x \<longleftrightarrow> (\<exists>n. x = num_int n \<and> \<bar>n\<bar> \<le> 2 ^ 53 - 1)"
proof (cases x)
  case (Fin r)
  have *: "\<bar>of_int n\<bar> \<le> (2 ^ 53 - 1 :: rat) \<longleftrightarrow> \<bar>n\<bar> \<le> 2 ^ 53 - 1" for n
    using of_int_le_iff [of "\<bar>n\<bar>" "2 ^ 53 - 1", where 'a = rat] by simp
  show ?thesis
  proof
    assume "num_safe_integer x"
    then show "\<exists>n. x = num_int n \<and> \<bar>n\<bar> \<le> 2 ^ 53 - 1"
      using Fin * [of "\<lfloor>r\<rfloor>"] by auto
  next
    assume "\<exists>n. x = num_int n \<and> \<bar>n\<bar> \<le> 2 ^ 53 - 1"
    then show "num_safe_integer x" using * by auto
  qed
qed auto

section \<open>Sums that leave the safe integers\<close>

text \<open>Rounding keeps a value above an integer, or above a double, above it.\<close>

lemma round_half_even_ge: "of_int n \<le> x \<Longrightarrow> n \<le> round_half_even x"
proof -
  assume "of_int n \<le> x"
  then have "n \<le> \<lfloor>x\<rfloor>" by (simp add: le_floor_iff)
  then show ?thesis by (auto simp: round_half_even_def Let_def)
qed

lemma fl_ge_unsafe:
  assumes "2 ^ 53 \<le> x"
  shows "2 ^ 53 \<le> fl x"
proof -
  have nz: "x \<noteq> 0" and abs: "\<bar>x\<bar> = x" using assms by auto
  let ?u = "ulp_exp x"
  have "(2::rat) powi 53 = 2 ^ 53" by (simp add: power_int_def)
  also have "\<dots> < 2 powi (?u + 53)" using ulp_exp_spec(1) [OF nz] assms abs by (simp only:)
  finally have u: "1 \<le> ?u" by (simp only: powi2_mono_iff)
  then have "2 powi (?u + 52) \<le> x" using ulp_exp_spec(2) [OF nz] abs by auto
  then have "of_int (2 ^ 52) \<le> x / 2 powi ?u"
    by (simp add: powi2_add power_int_def [of _ 52] field_simps)
  then have "2 ^ 52 \<le> round_half_even (x / 2 powi ?u)" by (rule round_half_even_ge)
  then have r: "(2::rat) ^ 52 \<le> of_int (round_half_even (x / 2 powi ?u))"
    by (metis of_int_le_iff of_int_numeral of_int_power)
  have "(2::rat) powi 1 \<le> 2 powi ?u" using u by (rule powi2_mono)
  then have "(2::rat) \<le> 2 powi ?u" by simp
  with r have "2 ^ 52 * 2 \<le> (of_int (round_half_even (x / 2 powi ?u)) * 2 powi ?u :: rat)"
    by (intro mult_mono) auto
  then show ?thesis using nz by (simp add: fl_def)
qed

definition num_unsafe :: "jsnum \<Rightarrow> bool" where
  "num_unsafe y \<longleftrightarrow> (case y of Fin r \<Rightarrow> 2 ^ 53 \<le> r | PosInf \<Rightarrow> True | _ \<Rightarrow> False)"

lemma of_exact_unsafe:
  assumes "2 ^ 53 \<le> x"
  shows "num_unsafe (of_exact x)"
proof -
  have f: "2 ^ 53 \<le> fl x" using assms by (rule fl_ge_unsafe)
  have "0 < overflow_bound" by (simp only: overflow_bound_def zero_less_power zero_less_numeral)
  moreover have "0 < fl x" by (rule less_le_trans [OF _ f]) simp
  ultimately have "\<not> fl x \<le> - overflow_bound" by linarith
  then show ?thesis using f by (simp add: num_unsafe_def of_exact_def Let_def)
qed

lemma num_unsafe_add: "num_unsafe y \<Longrightarrow> 0 \<le> x \<Longrightarrow> num_unsafe (num_add y (num_int x))"
  by (cases y) (auto simp: num_unsafe_def [of "Fin _"] num_unsafe_def [of NegInf] num_unsafe_def [of NaN]
      num_unsafe_def [of PosInf] intro!: of_exact_unsafe add_increasing2)

lemma num_unsafe_foldl:
  "num_unsafe y \<Longrightarrow> \<forall>x \<in> set xs. 0 \<le> x \<Longrightarrow> num_unsafe (foldl num_add y (map num_int xs))"
  by (induction xs arbitrary: y) (simp_all add: num_unsafe_add)

lemma foldl_num_add_safe:
  assumes "0 \<le> s" "\<forall>x \<in> set xs. 0 \<le> x"
    "\<not> s + sum_list xs < 2 ^ 53" "s < 2 ^ 53"
  shows "num_unsafe (foldl num_add (num_int s) (map num_int xs))"
  using assms
proof (induction xs arbitrary: s)
  case (Cons x xs)
  show ?case
  proof (cases "s + x < 2 ^ 53")
    case True
    then have "num_add (num_int s) (num_int x) = num_int (s + x)"
      using Cons.prems by (intro num_add_int) auto
    then show ?thesis using Cons.IH [of "s + x"] Cons.prems True by (simp add: add.assoc)
  next
    case False
    then have "(of_int (2 ^ 53) :: rat) \<le> of_int (s + x)" by (simp only: of_int_le_iff)
    then have "num_unsafe (num_add (num_int s) (num_int x))"
      using of_exact_unsafe [of "of_int (s + x)"] by simp
    then show ?thesis using num_unsafe_foldl Cons.prems(2) by (simp del: num_add.simps)
  qed
qed simp

lemma num_unsafe_not_safe: "num_unsafe y \<Longrightarrow> \<not> num_safe_integer y"
  by (cases y) (auto simp: num_unsafe_def)

section \<open>Quotients of safe integers\<close>

lemma min_normal_small:
  assumes "0 < b" "b \<le> 2 ^ 53"
  shows "min_normal \<le> 1 / of_int b"
proof -
  have "of_int b \<le> (of_int (2 ^ 53) :: rat)" using assms by (simp only: of_int_le_iff)
  then have "1 / 2 ^ 53 \<le> 1 / (of_int b :: rat)" using assms by (simp add: frac_le)
  moreover have "min_normal \<le> 2 powi (-53)" unfolding min_normal_def by (rule powi2_mono) simp
  moreover have "(2::rat) powi (-53) = 1 / 2 ^ 53"
    using powi2_diff_nat [of 0 53] by simp
  ultimately show ?thesis by (simp only:)
qed

text \<open>
  The rounding error of \<open>a / b\<close> is below \<open>1 / b\<close>, so it cannot carry a quotient
  across the next integer, nor a non-integral one onto the integer below.
\<close>

lemma fl_quotient_error:
  assumes "0 < a" "a < 2 ^ 53" "0 < b" "b \<le> 2 ^ 53"
  shows "\<bar>fl (of_int a / of_int b) - of_int a / of_int b\<bar> < 1 / of_int b"
proof -
  let ?x = "of_int a / of_int b :: rat"
  have pos: "0 < ?x" using assms by simp
  have "min_normal \<le> 1 / (of_int b :: rat)" by (rule min_normal_small) fact+
  also have "1 / (of_int b :: rat) \<le> ?x" using assms by (simp add: divide_right_mono)
  finally have "\<bar>fl ?x - ?x\<bar> \<le> ?x / 2 ^ 53"
    using fl_relative_error [of ?x] pos by (simp only: abs_of_pos)
  also have "\<dots> = (of_int a / 2 ^ 53) / of_int b" by simp
  also have "\<dots> < 1 / of_int b"
  proof -
    have "of_int a < (of_int (2 ^ 53) :: rat)" using assms(2) by (simp only: of_int_less_iff)
    then have "of_int a / 2 ^ 53 < (1::rat)" by simp
    then show ?thesis using assms(3) by (intro divide_strict_right_mono) simp_all
  qed
  finally show ?thesis .
qed

lemma fl_quotient_cases:
  assumes "0 \<le> a" "a < 2 ^ 53" "0 < b" "b \<le> 2 ^ 53"
  shows "\<lfloor>fl (of_int a / of_int b)\<rfloor> = a div b"
    and "(fl (of_int a / of_int b) = of_int (a div b)) = (b dvd a)"
proof -
  let ?x = "of_int a / of_int b :: rat" and ?q = "a div b" and ?r = "a mod b"
  have r: "0 \<le> ?r" "?r < b" using assms by simp_all
  have xq: "?x = of_int ?q + of_int ?r / of_int b"
  proof -
    have "of_int a = (of_int ?q * of_int b + of_int ?r :: rat)"
      by (metis div_mult_mod_eq of_int_add of_int_mult)
    then show ?thesis using assms(3) by (simp add: field_simps)
  qed
  have q0: "0 \<le> ?q" using assms by (simp add: pos_imp_zdiv_nonneg_iff)
  have qle: "?q \<le> a" using assms by (metis div_by_1 int_one_le_iff_zero_less zdiv_mono2 zero_less_one)
  show "\<lfloor>fl ?x\<rfloor> = ?q" "(fl ?x = of_int ?q) = (b dvd a)"
  proof (atomize (full), cases "?r = 0")
    case True
    then have "?x = of_int ?q" using xq by simp
    moreover have "fl (of_int ?q) = of_int ?q" by (rule fl_of_int) (use q0 qle assms in linarith)
    ultimately show "\<lfloor>fl ?x\<rfloor> = ?q \<and> (fl ?x = of_int ?q) = (b dvd a)"
      using True by (simp add: dvd_eq_mod_eq_0)
  next
    case False
    then have r1: "1 \<le> ?r" "?r + 1 \<le> b" using r by auto
    have a0: "0 < a" using False assms(1) by (cases "a = 0") auto
    have bpos: "(0::rat) < of_int b" using assms(3) by simp
    have "1 / of_int b \<le> (of_int ?r / of_int b :: rat)"
      using r1 bpos by (simp add: divide_right_mono)
    moreover have "of_int ?r / of_int b + 1 / of_int b \<le> (1::rat)"
    proof -
      have "(of_int ?r + 1 :: rat) \<le> of_int b" using r1(2) by (metis of_int_1 of_int_add of_int_le_iff)
      then show ?thesis using bpos by (simp flip: add_divide_distrib)
    qed
    moreover note fl_quotient_error [OF a0 assms(2-4)]
    ultimately have lo: "of_int ?q < fl ?x" and hi: "fl ?x < of_int ?q + 1"
      using xq by linarith+
    then have "\<lfloor>fl ?x\<rfloor> = ?q" by (intro floor_unique) auto
    with lo False show "\<lfloor>fl ?x\<rfloor> = ?q \<and> (fl ?x = of_int ?q) = (b dvd a)"
      by (auto simp: dvd_eq_mod_eq_0)
  qed
qed

lemma of_exact_quotient:
  assumes "0 \<le> a" "a < 2 ^ 53" "0 < b" "b \<le> 2 ^ 53"
  shows "of_exact (of_int a / of_int b) = Fin (fl (of_int a / of_int b))"
proof (rule of_exact_finite)
  let ?y = "fl (of_int a / of_int b) :: rat"
  have "a div b \<le> a" using assms by (metis div_by_1 int_one_le_iff_zero_less zdiv_mono2 zero_less_one)
  then have "\<lfloor>?y\<rfloor> + 1 \<le> 2 ^ 53" using fl_quotient_cases(1) [OF assms] assms(2) by linarith
  then have "(of_int (\<lfloor>?y\<rfloor> + 1) :: rat) \<le> of_int (2 ^ 53)" by (simp only: of_int_le_iff)
  moreover have "?y < of_int (\<lfloor>?y\<rfloor> + 1)" by linarith
  moreover have "0 \<le> ?y" using assms by (intro fl_nonneg) simp
  ultimately show "\<bar>?y\<bar> \<le> 2 ^ 64" by simp
qed

lemma num_div_floor_int:
  assumes "0 \<le> a" "a < 2 ^ 53" "0 < b" "b \<le> 2 ^ 53"
  shows "num_floor (num_div (num_int a) (num_int b)) = num_int (a div b)"
  using assms by (simp add: of_exact_quotient fl_quotient_cases(1))

end
