(* ===== verification/Prelude.thy ===== *)
theory Prelude
  imports JSNumber "HOL-Library.Multiset"
begin

text \<open>
  Shared ground of the development: the collections the component proofs use, the strings
  of the source (ASCII: \<^verbatim>\<open>trim\<close> and \<^verbatim>\<open>toUpperCase\<close> are written out on the ASCII range),
  its truthiness tests, its stable \<^verbatim>\<open>Array.prototype.sort\<close> over a comparator, and the
  interfaces every component instantiates: transition tables and precedence ranks.
\<close>

named_theorems table_simps \<open>unfoldings of the transition and rank tables\<close>
named_theorems decision_defs \<open>unfoldings of decision functions\<close>

lemma find_SomeD: "find P xs = Some x \<Longrightarrow> x \<in> set xs \<and> P x"
  by (induction xs) (auto split: if_splits)

section \<open>Strings\<close>

definition js_space :: "char \<Rightarrow> bool" where
  "js_space c \<longleftrightarrow> of_char c \<in> {9, 10, 11, 12, 13, 32 :: nat}"

definition js_trim :: "string \<Rightarrow> string" where
  "js_trim s = rev (dropWhile js_space (rev (dropWhile js_space s)))"

definition js_upper_char :: "char \<Rightarrow> char" where
  "js_upper_char c = (let n = of_char c :: nat in if 97 \<le> n \<and> n \<le> 122 then char_of (n - 32) else c)"

definition js_upper :: "string \<Rightarrow> string" where
  "js_upper s = map js_upper_char s"

text \<open>The property names of \<^verbatim>\<open>Object.prototype\<close>, which \<^verbatim>\<open>key in object\<close> finds in every object.\<close>

definition inherited_names :: "string list" where
  "inherited_names = [''constructor'', ''__defineGetter__'', ''__defineSetter__'', ''hasOwnProperty'',
     ''__lookupGetter__'', ''__lookupSetter__'', ''isPrototypeOf'', ''propertyIsEnumerable'', ''toString'',
     ''valueOf'', ''__proto__'', ''toLocaleString'']"

text \<open>\<^verbatim>\<open>Boolean(s)\<close> of an optional string: absent and empty are false.\<close>

definition truthy :: "string option \<Rightarrow> bool" where
  "truthy s \<longleftrightarrow> s \<noteq> None \<and> s \<noteq> Some []"

text \<open>\<^verbatim>\<open>s?.trim().toUpperCase() || null\<close>\<close>

definition trim_upper :: "string option \<Rightarrow> string option" where
  "trim_upper s = (case s of None \<Rightarrow> None
     | Some t \<Rightarrow> let u = js_upper (js_trim t) in if u = [] then None else Some u)"

lemma truthy_simps [simp]: "\<not> truthy None" "truthy (Some s) \<longleftrightarrow> s \<noteq> []"
  by (simp_all add: truthy_def)

lemma js_upper_Nil_iff [simp]: "js_upper s = [] \<longleftrightarrow> s = []"
  by (simp add: js_upper_def)

lemma js_upper_char_idem [simp]: "js_upper_char (js_upper_char c) = js_upper_char c"
  by (auto simp: js_upper_char_def Let_def)

lemma js_upper_idem [simp]: "js_upper (js_upper s) = js_upper s"
  by (simp add: js_upper_def o_def)

lemma js_space_upper [simp]: "js_space (js_upper_char c) = js_space c"
  by (auto simp: js_space_def js_upper_char_def Let_def)

lemma js_trim_upper: "js_trim (js_upper s) = js_upper (js_trim s)"
  by (simp add: js_trim_def js_upper_def dropWhile_map rev_map o_def)

lemma dropWhile_rev_dropWhile:
  "dropWhile P (rev (dropWhile P (rev (dropWhile P s)))) = rev (dropWhile P (rev (dropWhile P s)))"
proof -
  define t u where "t = dropWhile P s" and "u = rev (dropWhile P (rev t))"
  have "rev t = takeWhile P (rev t) @ dropWhile P (rev t)" by simp
  then have pre: "t = u @ rev (takeWhile P (rev t))"
    unfolding u_def by (metis rev_append rev_rev_ident)
  have "dropWhile P u = u"
  proof (cases u)
    case (Cons c cs)
    then obtain ds where "t = c # ds" using pre by auto
    then have "hd t = c" "t \<noteq> []" by simp_all
    then have "\<not> P c" unfolding t_def by (metis hd_dropWhile)
    with Cons show ?thesis by simp
  qed simp
  then show ?thesis by (simp add: u_def t_def)
qed

lemma js_trim_idem [simp]: "js_trim (js_trim s) = js_trim s"
  by (simp add: js_trim_def dropWhile_rev_dropWhile)

lemma trim_upper_idem: "trim_upper (trim_upper s) = trim_upper s"
  by (auto simp: trim_upper_def Let_def js_trim_upper split: option.splits)

section \<open>Stable sorting by a comparator\<close>

text \<open>
  \<^verbatim>\<open>sort(cmp)\<close> is stable; the sign of \<open>cmp x y\<close> decides. Elements are inserted from left
  to right, each after the elements it does not precede.
\<close>

fun insert_by :: "('a \<Rightarrow> 'a \<Rightarrow> jsnum) \<Rightarrow> 'a \<Rightarrow> 'a list \<Rightarrow> 'a list" where
  "insert_by cmp x [] = [x]"
| "insert_by cmp x (y # ys) =
     (if num_less (cmp x y) (Fin 0) then x # y # ys else y # insert_by cmp x ys)"

definition sort_by :: "('a \<Rightarrow> 'a \<Rightarrow> jsnum) \<Rightarrow> 'a list \<Rightarrow> 'a list" where
  "sort_by cmp xs = foldl (\<lambda>acc x. insert_by cmp x acc) [] xs"

lemma mset_insert_by [simp]: "mset (insert_by cmp x ys) = add_mset x (mset ys)"
  by (induction ys) auto

lemma mset_foldl_insert_by: "mset (foldl (\<lambda>acc x. insert_by cmp x acc) ys xs) = mset ys + mset xs"
  by (induction xs arbitrary: ys) auto

lemma mset_sort_by [simp]: "mset (sort_by cmp xs) = mset xs"
  by (simp add: sort_by_def mset_foldl_insert_by)

lemma set_sort_by [simp]: "set (sort_by cmp xs) = set xs"
  by (metis mset_sort_by set_mset_mset)

lemma length_sort_by [simp]: "length (sort_by cmp xs) = length xs"
  by (metis mset_sort_by size_mset)

section \<open>Sums\<close>

lemma sum_list_pos:
  fixes xs :: "int list"
  assumes "\<forall>x \<in> set xs. 0 < x" "xs \<noteq> []"
  shows "0 < sum_list xs"
proof (cases xs)
  case (Cons y ys)
  then have "0 \<le> sum_list ys" using assms(1) by (intro sum_list_nonneg) auto
  with Cons assms(1) show ?thesis by auto
qed (use assms(2) in simp)

section \<open>Interface: a precedence of states\<close>

text \<open>
  The contract of a precedence check \<^verbatim>\<open>canProgress(current, next)\<close>: a total preorder. A
  component that replaces its state only by states it may progress to can rely on the
  laws proved here, whatever the ranks are.
\<close>

definition advance :: "('a \<Rightarrow> 'a \<Rightarrow> bool) \<Rightarrow> 'a \<Rightarrow> 'a \<Rightarrow> 'a" where
  "advance progress current next_state = (if progress current next_state then next_state else current)"

locale progression =
  fixes progress :: "'a \<Rightarrow> 'a \<Rightarrow> bool"
  assumes refl: "progress a a"
    and trans: "progress a b \<Longrightarrow> progress b c \<Longrightarrow> progress a c"
    and total: "progress a b \<or> progress b a"
begin

lemma advance_progress: "progress current (advance progress current x)"
  by (simp add: advance_def refl)

lemma advance_covers: "progress x (advance progress current x)"
  using total [of x current] by (auto simp: advance_def refl)

lemma advance_idem: "advance progress (advance progress current x) x = advance progress current x"
  by (simp add: advance_def refl)

lemma foldl_progress: "progress current (foldl (advance progress) current xs)"
  by (induction xs rule: rev_induct) (auto simp: refl intro: trans advance_progress)

lemma foldl_covers: "x \<in> set xs \<Longrightarrow> progress x (foldl (advance progress) current xs)"
  by (induction xs rule: rev_induct) (auto intro: trans advance_progress advance_covers)

lemma foldl_member: "foldl (advance progress) current xs \<in> insert current (set xs)"
  by (induction xs arbitrary: current) (auto simp: advance_def)

end

text \<open>With distinct ranks the order of the updates does not matter.\<close>

locale strict_progression = progression +
  assumes antisym: "progress a b \<Longrightarrow> progress b a \<Longrightarrow> a = b"
begin

lemma foldl_greatest:
  assumes "m \<in> insert current (set xs)" "\<forall>x \<in> insert current (set xs). progress x m"
  shows "foldl (advance progress) current xs = m"
proof (rule antisym)
  show "progress (foldl (advance progress) current xs) m"
    using assms(2) foldl_member by blast
  show "progress m (foldl (advance progress) current xs)"
    using assms(1) foldl_progress foldl_covers by blast
qed

lemma foldl_set:
  assumes "set xs = set ys"
  shows "foldl (advance progress) current xs = foldl (advance progress) current ys"
proof (rule foldl_greatest)
  show "foldl (advance progress) current ys \<in> insert current (set xs)"
    using foldl_member assms by blast
  show "\<forall>x \<in> insert current (set xs). progress x (foldl (advance progress) current ys)"
    using foldl_progress foldl_covers assms by blast
qed

end

text \<open>A check by comparing numeric ranks is a progression, strict where the ranks are distinct.\<close>

lemma progression_rank: "progression (\<lambda>a b. (rank a :: nat) \<le> rank b)"
  by unfold_locales auto

lemma strict_progression_rank: "inj rank \<Longrightarrow> strict_progression (\<lambda>a b. (rank a :: nat) \<le> rank b)"
  by unfold_locales (auto dest: injD)

section \<open>Interface: a table of transitions\<close>

text \<open>
  The contract of a state machine given by a table: the states reachable along the table,
  and the states declared terminal, which are those without a transition.
\<close>

inductive table_reach :: "('a \<Rightarrow> 'a list) \<Rightarrow> 'a \<Rightarrow> 'a \<Rightarrow> bool" for table where
  table_refl: "table_reach table s s"
| table_step: "table_reach table s t \<Longrightarrow> u \<in> set (table t) \<Longrightarrow> table_reach table s u"

inductive_cases table_reachE: "table_reach table s t"

lemma table_reach_trans:
  "table_reach table t u \<Longrightarrow> table_reach table s t \<Longrightarrow> table_reach table s u"
  by (induction rule: table_reach.induct) (auto intro: table_step)

lemma table_reach_closed:
  assumes "table_reach table s t" "s \<in> S" "\<forall>x \<in> S. set (table x) \<subseteq> S"
  shows "t \<in> S"
  using assms by (induction rule: table_reach.induct) auto

locale transition_table =
  fixes table :: "'a \<Rightarrow> 'a list" and terminal :: "'a \<Rightarrow> bool"
  assumes terminal_iff: "terminal s \<longleftrightarrow> table s = []"
begin

lemma terminal_absorbing: "table_reach table s t \<Longrightarrow> terminal s \<Longrightarrow> t = s"
  using table_reach_closed [of table s t "{s}"] by (simp add: terminal_iff)

lemma live_step: "\<not> terminal s \<Longrightarrow> \<exists>t. t \<in> set (table s)"
  using terminal_iff by (cases "table s") auto

end

end
