(* ===== verification/CivilDate.thy ===== *)
theory CivilDate
  imports Prelude
begin

text \<open>
  The \<^verbatim>\<open>Date\<close> object of the source language: a time value in milliseconds since the
  epoch, or \<open>None\<close> for an invalid date, with the UTC field accessors and \<^verbatim>\<open>Date.UTC\<close>
  written out over the proleptic Gregorian calendar (including the rule that maps the
  years 0 to 99 to 1900 to 1999). A parameter of type \<^verbatim>\<open>Date | string\<close> is represented by
  the time value that \<^verbatim>\<open>new Date(value)\<close> gives for it. The lemmas show that the accessors
  and \<^verbatim>\<open>Date.UTC\<close> are inverse to each other.
\<close>

type_synonym date_value = "int option"

definition ms_per_day :: int where "ms_per_day = 86400000"

definition day_of :: "int \<Rightarrow> int" where "day_of t = t div ms_per_day"

text \<open>Number of the first day of a year.\<close>

definition day_from_year :: "int \<Rightarrow> int" where
  "day_from_year y =
     365 * (y - 1970) + (y - 1969) div 4 - (y - 1901) div 100 + (y - 1601) div 400"

definition leap_year :: "int \<Rightarrow> bool" where
  "leap_year y \<longleftrightarrow> (y mod 4 = 0 \<and> y mod 100 \<noteq> 0) \<or> y mod 400 = 0"

definition leap_day :: "int \<Rightarrow> int" where
  "leap_day y = (if leap_year y then 1 else 0)"

definition year_of_day :: "int \<Rightarrow> int" where
  "year_of_day d =
     (let y = 1970 + (d * 400) div 146097
      in if d < day_from_year y then y - 1
         else if day_from_year (y + 1) \<le> d then y + 1 else y)"

text \<open>Days of a year before a month (0 is January).\<close>

definition days_before_month :: "int \<Rightarrow> int \<Rightarrow> int" where
  "days_before_month l m =
     (if m \<le> 0 then 0 else if m = 1 then 31 else
      (if m = 2 then 59 else if m = 3 then 90 else if m = 4 then 120 else if m = 5 then 151
       else if m = 6 then 181 else if m = 7 then 212 else if m = 8 then 243
       else if m = 9 then 273 else if m = 10 then 304 else if m = 11 then 334 else 365) + l)"

definition month_of_yday :: "int \<Rightarrow> int \<Rightarrow> int" where
  "month_of_yday l n =
     (if n < 31 then 0 else if n < 59 + l then 1 else if n < 90 + l then 2
      else if n < 120 + l then 3 else if n < 151 + l then 4 else if n < 181 + l then 5
      else if n < 212 + l then 6 else if n < 243 + l then 7 else if n < 273 + l then 8
      else if n < 304 + l then 9 else if n < 334 + l then 10 else 11)"

text \<open>\<^verbatim>\<open>getUTCFullYear\<close>, \<^verbatim>\<open>getUTCMonth\<close>, \<^verbatim>\<open>getUTCDate\<close>.\<close>

definition utc_year :: "int \<Rightarrow> int" where "utc_year t = year_of_day (day_of t)"

definition utc_month :: "int \<Rightarrow> int" where
  "utc_month t = (let y = utc_year t in month_of_yday (leap_day y) (day_of t - day_from_year y))"

definition utc_date :: "int \<Rightarrow> int" where
  "utc_date t = (let y = utc_year t; n = day_of t - day_from_year y
     in n - days_before_month (leap_day y) (month_of_yday (leap_day y) n) + 1)"

text \<open>\<^verbatim>\<open>Date.UTC(y, m, d)\<close>: months and days overflow into the next unit.\<close>

definition make_day :: "int \<Rightarrow> int \<Rightarrow> int \<Rightarrow> int" where
  "make_day y m d = (let ym = y + m div 12; mn = m mod 12
     in day_from_year ym + days_before_month (leap_day ym) mn + d - 1)"

definition date_utc :: "int \<Rightarrow> int \<Rightarrow> int \<Rightarrow> int" where
  "date_utc y m d = make_day (if 0 \<le> y \<and> y \<le> 99 then 1900 + y else y) m d * ms_per_day"

text \<open>Comparison of two dates; it is false where one of them is invalid.\<close>

definition date_le :: "date_value \<Rightarrow> date_value \<Rightarrow> bool" where
  "date_le a b = (case (a, b) of (Some x, Some y) \<Rightarrow> x \<le> y | _ \<Rightarrow> False)"

definition date_less :: "date_value \<Rightarrow> date_value \<Rightarrow> bool" where
  "date_less a b = (case (a, b) of (Some x, Some y) \<Rightarrow> x < y | _ \<Rightarrow> False)"

section \<open>The calendar\<close>

lemma div_plus_one:
  assumes "0 < (k::int)"
  shows "(z + 1) div k = z div k + (if k dvd z + 1 then 1 else 0)"
proof -
  have z: "z = z div k * k + z mod k" by simp
  have r: "0 \<le> z mod k" "z mod k < k" using assms by simp_all
  show ?thesis
  proof (cases "z mod k = k - 1")
    case True
    then have "z + 1 = (z div k + 1) * k" using z by (simp only: distrib_right)
    then show ?thesis using assms by simp
  next
    case False
    then have d: "(z + 1) div k = z div k"
      using z r by (intro int_div_pos_eq [of _ _ _ "z mod k + 1"]) auto
    moreover have "\<not> k dvd z + 1"
    proof
      assume "k dvd z + 1"
      then have "z + 1 = z div k * k" using d by (metis dvd_div_mult_self)
      then show False using z r by linarith
    qed
    ultimately show ?thesis by simp
  qed
qed

lemma leap_year_dvd: "leap_year y \<longleftrightarrow> (4 dvd y \<and> \<not> 100 dvd y) \<or> 400 dvd y"
  by (simp add: leap_year_def dvd_eq_mod_eq_0)

lemma dvd_shift: "(k::int) dvd c \<Longrightarrow> k dvd y - c \<longleftrightarrow> k dvd y"
  by (metis diff_add_cancel dvd_add dvd_diff)

lemma inclusion_exclusion:
  "(c \<Longrightarrow> b) \<Longrightarrow> (b \<Longrightarrow> a) \<Longrightarrow> (if (a \<and> \<not> b) \<or> c then 1 else (0::int)) =
     (if a then 1 else 0) - (if b then 1 else 0) + (if c then 1 else 0)"
  by (cases a; cases b; cases c) auto

lemma leap_day_dvd:
  "leap_day y = (if 4 dvd y then 1 else 0) - (if 100 dvd y then 1 else 0) + (if 400 dvd y then 1 else 0)"
proof -
  have "400 dvd y \<Longrightarrow> 100 dvd y" by (rule dvd_trans [of 100 400]) simp_all
  moreover have "100 dvd y \<Longrightarrow> 4 dvd y" by (rule dvd_trans [of 4 100]) simp_all
  ultimately show ?thesis
    unfolding leap_day_def leap_year_dvd by (intro inclusion_exclusion)
qed

lemma day_from_year_Suc: "day_from_year (y + 1) = day_from_year y + 365 + leap_day y"
proof -
  let ?i = "\<lambda>k. if k dvd y then 1 else (0::int)"
  have a: "(y + 1 - 1969) div 4 = (y - 1969) div 4 + ?i 4"
    using div_plus_one [of 4 "y - 1969"] dvd_shift [of 4 1968 y] by (simp add: algebra_simps)
  have b: "(y + 1 - 1901) div 100 = (y - 1901) div 100 + ?i 100"
    using div_plus_one [of 100 "y - 1901"] dvd_shift [of 100 1900 y] by (simp add: algebra_simps)
  have c: "(y + 1 - 1601) div 400 = (y - 1601) div 400 + ?i 400"
    using div_plus_one [of 400 "y - 1601"] dvd_shift [of 400 1600 y] by (simp add: algebra_simps)
  have d: "365 * (y + 1 - 1970) = 365 * (y - 1970) + 365" by (simp add: algebra_simps)
  show ?thesis unfolding day_from_year_def a b c d leap_day_dvd by (simp only: ac_simps diff_conv_add_uminus minus_add_distrib minus_minus)
qed

lemma day_from_year_mono: "y \<le> z \<Longrightarrow> day_from_year y \<le> day_from_year z"
proof (induction z rule: int_ge_induct)
  case (step z)
  then show ?case by (simp add: day_from_year_Suc leap_day_def)
qed simp

lemma div_numeral_parts:
  assumes "0 < (k::int)"
  obtains q r where "z div k = q" "z = k * q + r" "0 \<le> r" "r < k"
  using assms by (metis mult_div_mod_eq pos_mod_bound pos_mod_sign)

lemma day_from_year_bounds:
  "146097 * (y - 1970) - 600 \<le> 400 * day_from_year y"
  "400 * day_from_year y \<le> 146097 * (y - 1970) + 700"
proof -
  obtain a ra where a: "(y - 1969) div 4 = a" "y - 1969 = 4 * a + ra" "0 \<le> ra" "ra < 4"
    by (rule div_numeral_parts [of 4 "y - 1969"]) auto
  obtain b rb where b: "(y - 1901) div 100 = b" "y - 1901 = 100 * b + rb" "0 \<le> rb" "rb < 100"
    by (rule div_numeral_parts [of 100 "y - 1901"]) auto
  obtain c rc where c: "(y - 1601) div 400 = c" "y - 1601 = 400 * c + rc" "0 \<le> rc" "rc < 400"
    by (rule div_numeral_parts [of 400 "y - 1601"]) auto
  note parts = a(2-) b(2-) c(2-)
  show "146097 * (y - 1970) - 600 \<le> 400 * day_from_year y"
    unfolding day_from_year_def a(1) b(1) c(1) using parts by (simp add: algebra_simps)
  show "400 * day_from_year y \<le> 146097 * (y - 1970) + 700"
    unfolding day_from_year_def a(1) b(1) c(1) using parts by (simp add: algebra_simps)
qed

lemma leap_day_cases: "leap_day y = 0 \<or> leap_day y = 1"
  by (simp add: leap_day_def)

lemma year_of_day_bounds:
  "day_from_year (year_of_day d) \<le> d" "d < day_from_year (year_of_day d + 1)"
proof -
  define y where "y = 1970 + (d * 400) div 146097"
  have "146097 * (y - 1970) \<le> d * 400" "d * 400 < 146097 * (y - 1970) + 146097"
    using div_numeral_parts [of 146097 "d * 400"] by (auto simp: y_def)
  note q = this
  have "day_from_year (y - 1) \<le> d"
    using q day_from_year_bounds [of "y - 1"] by (simp add: algebra_simps)
  moreover have "d < day_from_year (y + 2)"
    using q day_from_year_bounds [of "y + 2"] by (simp add: algebra_simps)
  ultimately show "day_from_year (year_of_day d) \<le> d" "d < day_from_year (year_of_day d + 1)"
    by (auto simp: year_of_day_def Let_def y_def [symmetric] add.commute)
qed

lemma year_of_day_unique:
  assumes "day_from_year y \<le> d" "d < day_from_year (y + 1)"
  shows "year_of_day d = y"
proof (rule ccontr)
  assume "year_of_day d \<noteq> y"
  then consider "year_of_day d + 1 \<le> y" | "y + 1 \<le> year_of_day d" by linarith
  then show False
    using year_of_day_bounds [of d] assms day_from_year_mono by cases force+
qed

lemma yday_range:
  "0 \<le> d - day_from_year (year_of_day d)"
  "d - day_from_year (year_of_day d) < 365 + leap_day (year_of_day d)"
  using year_of_day_bounds [of d] by (auto simp: day_from_year_Suc)

lemma month_of_yday_range: "0 \<le> month_of_yday l n \<and> month_of_yday l n \<le> 11"
  by (simp add: month_of_yday_def)

text \<open>Rebuilding a day from its fields.\<close>

lemma make_day_utc_fields: "make_day (utc_year t) (utc_month t) (utc_date t) = day_of t"
proof -
  have "0 \<le> utc_month t" "utc_month t \<le> 11"
    using month_of_yday_range by (auto simp: utc_month_def Let_def)
  then have "utc_month t div 12 = 0" "utc_month t mod 12 = utc_month t" by simp_all
  then show ?thesis by (simp add: make_day_def utc_date_def utc_month_def Let_def)
qed

definition days_in_month :: "int \<Rightarrow> int \<Rightarrow> int" where
  "days_in_month y m = days_before_month (leap_day y) (m + 1) - days_before_month (leap_day y) m"

lemma month_of_yday_unique:
  assumes "l = 0 \<or> l = 1" "0 \<le> m" "m \<le> 11"
    "days_before_month l m \<le> n" "n < days_before_month l (m + 1)"
  shows "month_of_yday l n = m"
proof -
  have "m \<in> set [0..11]" using assms(2,3) by simp
  also have "[0..11] = [0, 1, 2, 3, 4, 5, 6, 7, 8, 9, 10, 11::int]" by (simp add: upto_rec1)
  finally consider "m = 0" | "m = 1" | "m = 2" | "m = 3" | "m = 4" | "m = 5" | "m = 6" | "m = 7"
    | "m = 8" | "m = 9" | "m = 10" | "m = 11"
    by (simp only: list.set insert_iff empty_iff) blast
  then show ?thesis
    using assms(1,4,5) by cases (auto simp: days_before_month_def month_of_yday_def)
qed

lemma days_before_month_le_365:
  "l = 0 \<or> l = 1 \<Longrightarrow> 0 \<le> days_before_month l m \<and> days_before_month l m \<le> 365 + l"
  by (auto simp: days_before_month_def)

text \<open>The fields of a day that was built from valid fields.\<close>

lemma utc_fields_make_day:
  assumes "0 \<le> m" "m \<le> 11" "1 \<le> d" "d \<le> days_in_month y m"
    and t: "day_of t = make_day y m d"
  shows "utc_year t = y" "utc_month t = m" "utc_date t = d"
proof -
  let ?l = "leap_day y"
  have l: "?l = 0 \<or> ?l = 1" by (rule leap_day_cases)
  have dm: "day_of t = day_from_year y + (days_before_month ?l m + d - 1)"
    using assms by (simp add: make_day_def)
  have lo: "days_before_month ?l m \<le> days_before_month ?l m + d - 1"
    and hi: "days_before_month ?l m + d - 1 < days_before_month ?l (m + 1)"
    using assms by (auto simp: days_in_month_def)
  have "days_before_month ?l m + d - 1 < 365 + ?l"
    using hi days_before_month_le_365 [OF l, of "m + 1"] by linarith
  then have y: "year_of_day (day_of t) = y"
    using dm lo days_before_month_le_365 [OF l, of m]
    by (intro year_of_day_unique) (simp_all add: day_from_year_Suc)
  show "utc_year t = y" by (simp add: utc_year_def y)
  have m: "month_of_yday ?l (days_before_month ?l m + d - 1) = m"
    by (rule month_of_yday_unique [OF l]) (use assms lo hi in auto)
  show "utc_month t = m" "utc_date t = d"
    by (simp_all add: utc_month_def utc_date_def utc_year_def y Let_def) (simp_all add: dm m)
qed

lemma day_of_date_utc [simp]: "day_of (make_day y m d * ms_per_day) = make_day y m d"
  by (simp add: day_of_def ms_per_day_def)

text \<open>A time value whose UTC year is not one of the two-digit years that \<^verbatim>\<open>Date.UTC\<close> moves.\<close>

definition full_year :: "int \<Rightarrow> bool" where
  "full_year t \<longleftrightarrow> \<not> (0 \<le> utc_year t \<and> utc_year t \<le> 99)"

lemma date_utc_full_year: "full_year t \<Longrightarrow> date_utc (utc_year t) (utc_month t) (utc_date t) = day_of t * ms_per_day"
  by (simp only: full_year_def date_utc_def if_False make_day_utc_fields)

text \<open>Equal days have equal fields, and days are added by adding to the day of the month.\<close>

lemma utc_fields_day: "day_of s = day_of t \<Longrightarrow> utc_year s = utc_year t \<and> utc_month s = utc_month t \<and> utc_date s = utc_date t"
  by (simp add: utc_year_def utc_month_def utc_date_def)

lemma make_day_add: "make_day y m (d + k) = make_day y m d + k"
  by (simp add: make_day_def Let_def)

lemma day_of_midnight [simp]: "day_of (d * ms_per_day) = d"
  by (simp add: day_of_def ms_per_day_def)

lemma midnight_less [simp]: "d * ms_per_day < e * ms_per_day \<longleftrightarrow> d < e"
  by (simp add: ms_per_day_def)

end
