(* ===== verification/BillingMoney.thy ===== *)
theory BillingMoney
  imports CivilDate
begin

text \<open>
  Money of the billing agreements: \<^verbatim>\<open>packages/domain/src/billing-agreement/money.ts\<close> (the
  largest-remainder distribution) and \<^verbatim>\<open>packages/finance/src/billing-agreements/money.ts\<close> (the conversion between cents and the decimal amounts of the provider). Amounts are
  numbers of the source language, so every rounding of the code is in the model.
\<close>

section \<open>money.ts\<close>

definition isMoneyCents :: "jsnum \<Rightarrow> bool" where
  "isMoneyCents v \<longleftrightarrow> num_safe_integer v \<and> num_le (Fin 0) v"

record weighted_item =
  wi_id :: string
  wi_weight :: jsnum

record calculated_item =
  ci_id :: string
  ci_floor :: jsnum
  ci_remainder :: jsnum

datatype distribute_error = INVALID_TOTAL | EMPTY_ITEMS | INVALID_ITEM

text \<open>The \<^verbatim>\<open>some\<close> over the items, which fills \<^verbatim>\<open>ids\<close> as it goes.\<close>

fun some_invalid_item :: "string list \<Rightarrow> weighted_item list \<Rightarrow> bool" where
  "some_invalid_item ids [] = False"
| "some_invalid_item ids (x # xs) =
     (if wi_id x = [] then True
      else if wi_id x \<in> set ids then True
      else if \<not> num_finite (wi_weight x) then True
      else if num_le (wi_weight x) (Fin 0) then True
      else some_invalid_item (wi_id x # ids) xs)"

definition calculated_share :: "jsnum \<Rightarrow> jsnum \<Rightarrow> weighted_item \<Rightarrow> calculated_item" where
  "calculated_share total_cents total_weight x =
     (let exact = num_div (num_mul total_cents (wi_weight x)) total_weight; fl = num_floor exact
      in \<lparr>ci_id = wi_id x, ci_floor = fl, ci_remainder = num_sub exact fl\<rparr>)"

text \<open>
  The comparator of \<^verbatim>\<open>residualOrder\<close>: \<^verbatim>\<open>a || b\<close> yields \<^verbatim>\<open>b\<close> where \<^verbatim>\<open>a\<close> is zero or not a
  number. \<open>locale_compare\<close> is \<^verbatim>\<open>String.prototype.localeCompare\<close>, which depends on the
  collation data of the host.
\<close>

definition residual_cmp ::
    "(string \<Rightarrow> string \<Rightarrow> int) \<Rightarrow> calculated_item \<Rightarrow> calculated_item \<Rightarrow> jsnum" where
  "residual_cmp locale_compare left right =
     (let d = num_sub (ci_remainder right) (ci_remainder left)
      in if d = Fin 0 \<or> d = NaN then num_int (locale_compare (ci_id left) (ci_id right)) else d)"

definition credit_cent :: "string \<Rightarrow> (string \<rightharpoonup> jsnum) \<Rightarrow> (string \<rightharpoonup> jsnum)" where
  "credit_cent i a = (case a i of None \<Rightarrow> a(i \<mapsto> NaN) | Some v \<Rightarrow> a(i \<mapsto> num_add v (Fin 1)))"

text \<open>
  The loop \<^verbatim>\<open>for (index = 0; remaining > 0; index += 1, remaining -= 1)\<close>. \<^verbatim>\<open>remaining\<close> is at
  most the total, a safe integer, so each decrement is exact and the number of
  iterations is \<open>remaining_steps\<close>; \<open>remaining\<close> is never plus infinity
  (\<open>remaining_bounded\<close> below).
\<close>

fun remaining_steps :: "jsnum \<Rightarrow> nat" where
  "remaining_steps (Fin r) = nat \<lceil>r\<rceil>"
| "remaining_steps _ = 0"

fun residual_loop ::
    "calculated_item list \<Rightarrow> nat \<Rightarrow> nat \<Rightarrow> (string \<rightharpoonup> jsnum) \<Rightarrow> (string \<rightharpoonup> jsnum)" where
  "residual_loop order index 0 a = a"
| "residual_loop order index (Suc k) a =
     residual_loop order (Suc index) k
       (credit_cent (ci_id (order ! (index mod length order))) a)"

definition remaining_cents :: "jsnum \<Rightarrow> calculated_item list \<Rightarrow> jsnum" where
  "remaining_cents total_cents cs = num_sub total_cents (foldl num_add (Fin 0) (map ci_floor cs))"

definition distributeMoneyByWeight ::
    "(string \<Rightarrow> string \<Rightarrow> int) \<Rightarrow> jsnum \<Rightarrow> weighted_item list
       \<Rightarrow> distribute_error + (string \<rightharpoonup> jsnum)" where
  "distributeMoneyByWeight locale_compare total_cents items =
     (if \<not> isMoneyCents total_cents then Inl INVALID_TOTAL
      else if items = [] then Inl EMPTY_ITEMS
      else if some_invalid_item [] items then Inl INVALID_ITEM
      else
        let total_weight = foldl num_add (Fin 0) (map wi_weight items)
        in if \<not> num_finite total_weight \<or> num_le total_weight (Fin 0) then Inl INVALID_ITEM
           else
             let calculated = map (calculated_share total_cents total_weight) items;
                 remaining = remaining_cents total_cents calculated;
                 order = sort_by (residual_cmp locale_compare) calculated;
                 allocations = map_of (rev (map (\<lambda>c. (ci_id c, ci_floor c)) calculated))
             in Inr (residual_loop order 0 (remaining_steps remaining) allocations))"

section \<open>Validation\<close>

lemma isMoneyCents_iff: "isMoneyCents v \<longleftrightarrow> (\<exists>n. v = num_int n \<and> 0 \<le> n \<and> n \<le> 2 ^ 53 - 1)"
  by (auto simp: isMoneyCents_def num_safe_integer_iff num_le_def)

lemma isMoneyCents_int [simp]: "isMoneyCents (num_int n) \<longleftrightarrow> 0 \<le> n \<and> n \<le> 2 ^ 53 - 1"
  by (auto simp: isMoneyCents_iff)

definition valid_weight :: "jsnum \<Rightarrow> bool" where
  "valid_weight w \<longleftrightarrow> num_finite w \<and> \<not> num_le w (Fin 0)"

lemma some_invalid_item_iff:
  "some_invalid_item ids xs \<longleftrightarrow>
     \<not> ((\<forall>x \<in> set xs. wi_id x \<noteq> [] \<and> valid_weight (wi_weight x)) \<and>
        distinct (map wi_id xs) \<and> set ids \<inter> wi_id ` set xs = {})"
  by (induction ids xs rule: some_invalid_item.induct) (auto simp: valid_weight_def)

definition nonneg_num :: "jsnum \<Rightarrow> bool" where
  "nonneg_num v \<longleftrightarrow> v = NaN \<or> num_le (Fin 0) v"

lemma nonneg_num_simps [simp]:
  "nonneg_num (Fin x) \<longleftrightarrow> 0 \<le> x" "nonneg_num PosInf" "nonneg_num NaN" "\<not> nonneg_num NegInf"
  by (auto simp: nonneg_num_def num_le_def)

lemma nonneg_of_exact: "0 \<le> x \<Longrightarrow> nonneg_num (of_exact x)"
  using fl_nonneg [of x] by (auto simp: of_exact_def Let_def)

lemma nonneg_num_add: "nonneg_num x \<Longrightarrow> nonneg_num y \<Longrightarrow> nonneg_num (num_add x y)"
  by (cases x; cases y) (auto intro: nonneg_of_exact)

lemma nonneg_num_mul: "nonneg_num x \<Longrightarrow> nonneg_num y \<Longrightarrow> nonneg_num (num_mul x y)"
  by (cases x; cases y) (auto simp: signed_inf_def intro: nonneg_of_exact)

lemma nonneg_num_div: "nonneg_num x \<Longrightarrow> nonneg_num y \<Longrightarrow> nonneg_num (num_div x y)"
  by (cases x; cases y) (auto simp: signed_inf_def intro: nonneg_of_exact)

lemma nonneg_num_floor: "nonneg_num x \<Longrightarrow> nonneg_num (num_floor x)"
  by (cases x) auto

lemma nonneg_foldl_add: "nonneg_num s \<Longrightarrow> \<forall>x \<in> set xs. nonneg_num x \<Longrightarrow> nonneg_num (foldl num_add s xs)"
  by (induction xs arbitrary: s) (auto intro: nonneg_num_add)

text \<open>The remaining amount is never plus infinity, so the loop ends.\<close>

lemma remaining_bounded:
  assumes "isMoneyCents t" "\<forall>c \<in> set cs. nonneg_num (ci_floor c)"
  shows "remaining_cents t cs \<noteq> PosInf"
proof -
  obtain n where t: "t = num_int n" "0 \<le> n" "n \<le> 2 ^ 53 - 1"
    using assms(1) by (auto simp: isMoneyCents_iff)
  let ?v = "foldl num_add (Fin 0) (map ci_floor cs)"
  have "nonneg_num ?v" using assms(2) by (intro nonneg_foldl_add) auto
  then show ?thesis
  proof (cases ?v)
    case (Fin y)
    with \<open>nonneg_num ?v\<close> have y: "0 \<le> y" by simp
    have "of_int n \<le> (of_int (2 ^ 53 - 1) :: rat)" using t(3) by (simp only: of_int_le_iff)
    then have "of_int n - y \<le> 2 ^ 53" using y by simp
    then have "fl (of_int n - y) < overflow_bound"
      by (intro fl_less_overflow) simp
    then show ?thesis
      by (simp add: remaining_cents_def num_sub_def t Fin of_exact_def Let_def)
  qed (auto simp: remaining_cents_def num_sub_def t)
qed

section \<open>The largest-remainder distribution\<close>

abbreviation int_map :: "(string \<rightharpoonup> int) \<Rightarrow> (string \<rightharpoonup> jsnum)" where
  "int_map f \<equiv> \<lambda>i. map_option num_int (f i)"

lemma credit_cent_int_map:
  assumes "f i = Some v" "0 \<le> v" "v < 2 ^ 53"
  shows "credit_cent i (int_map f) = int_map (f(i \<mapsto> v + 1))"
  using assms num_add_int [of v 1] by (auto simp: credit_cent_def fun_eq_iff)

text \<open>A loop of at most one round credits the first recipients of the order with one cent.\<close>

lemma residual_loop_fold:
  "index + k \<le> length order \<Longrightarrow> residual_loop order index k a =
     fold credit_cent (map ci_id (take k (drop index order))) a"
proof (induction k arbitrary: index a)
  case (Suc k)
  then have "index < length order" by simp
  then have "take (Suc k) (drop index order) = order ! index # take k (drop (Suc index) order)"
    by (metis Cons_nth_drop_Suc take_Suc_Cons)
  with Suc show ?case by simp
qed simp

lemma fold_credit_cent:
  assumes "distinct ids" "\<forall>i \<in> set ids. \<exists>v. f i = Some v \<and> 0 \<le> v \<and> v < 2 ^ 53"
  shows "fold credit_cent ids (int_map f) =
    int_map (\<lambda>i. if i \<in> set ids then map_option (\<lambda>v. v + 1) (f i) else f i)"
  using assms
proof (induction ids arbitrary: f)
  case (Cons i ids)
  obtain v where v: "f i = Some v" "0 \<le> v" "v < 2 ^ 53" using Cons.prems(2) by auto
  have "\<forall>j \<in> set ids. \<exists>v. (f(i \<mapsto> v + 1)) j = Some v \<and> 0 \<le> v \<and> v < 2 ^ 53"
    using Cons.prems by (auto split: if_splits)
  then have "fold credit_cent ids (int_map (f(i \<mapsto> v + 1))) =
    int_map (\<lambda>j. if j \<in> set ids then map_option (\<lambda>v. v + 1) ((f(i \<mapsto> v + 1)) j) else (f(i \<mapsto> v + 1)) j)"
    using Cons.prems(1) by (intro Cons.IH) auto
  then show ?case using v Cons.prems(1) by (auto simp: credit_cent_int_map fun_eq_iff)
qed (simp add: fun_eq_iff)

text \<open>Integer shares: the floors of the exact quotients.\<close>

lemma calculated_floor:
  assumes "0 \<le> t * w" "t * w < 2 ^ 53" "0 < W" "W \<le> 2 ^ 53"
  shows "ci_floor (calculated_share (num_int t) (num_int W) \<lparr>wi_id = i, wi_weight = num_int w\<rparr>)
    = num_int (t * w div W)"
proof -
  have "num_mul (num_int t) (num_int w) = num_int (t * w)"
    using assms by (intro num_mul_int) simp
  then show ?thesis using num_div_floor_int [OF assms]
    by (simp add: calculated_share_def Let_def del: num_mul.simps num_div.simps num_floor.simps)
qed

lemma less_div_plus_one: "0 < W \<Longrightarrow> (x::int) < (x div W + 1) * W"
proof -
  assume "0 < W"
  then have "x = x div W * W + x mod W" "x mod W < W" by simp_all
  then show ?thesis by (simp only: distrib_right)
qed

lemma sum_floors_bounds:
  fixes t W :: int
  assumes "W = sum_list ws" "0 < W" "ws \<noteq> []"
  shows "(\<Sum>w\<leftarrow>ws. t * w div W) \<le> t" "t - (\<Sum>w\<leftarrow>ws. t * w div W) < int (length ws)"
proof -
  let ?F = "\<Sum>w\<leftarrow>ws. t * w div W"
  have "(\<Sum>w\<leftarrow>ws. t * w div W * W) \<le> (\<Sum>w\<leftarrow>ws. t * w)"
    using assms(2) by (intro sum_list_mono) (simp add: minus_mod_eq_div_mult [symmetric])
  then have le: "?F * W \<le> t * W" by (simp add: assms(1) sum_list_mult_const sum_list_const_mult)
  then show "?F \<le> t" using assms(2) by simp
  have "(\<Sum>w\<leftarrow>ws. t * w) < (\<Sum>w\<leftarrow>ws. (t * w div W + 1) * W)"
    using assms(2,3)
    by (intro sum_list_strict_mono less_div_plus_one)
  also have "(\<Sum>w\<leftarrow>ws. (t * w div W + 1) * W) = (?F + int (length ws)) * W"
    by (simp add: sum_list_mult_const sum_list_addf sum_list_triv)
  finally have "t * W < (?F + int (length ws)) * W" by (simp add: assms(1) sum_list_const_mult)
  then show "t - ?F < int (length ws)" using assms(2) by simp
qed

text \<open>The distribution over integer weights, computed.\<close>

definition weighted_items :: "(string \<times> int) list \<Rightarrow> weighted_item list" where
  "weighted_items xs = map (\<lambda>(i, w). \<lparr>wi_id = i, wi_weight = num_int w\<rparr>) xs"

text \<open>The integers on which the double arithmetic of the distribution is exact.\<close>

definition exact_weights :: "int \<Rightarrow> (string \<times> int) list \<Rightarrow> bool" where
  "exact_weights t xs \<longleftrightarrow>
     0 \<le> t \<and> t \<le> 2 ^ 53 - 1 \<and> xs \<noteq> [] \<and> distinct (map fst xs) \<and>
     (\<forall>(i, w) \<in> set xs. i \<noteq> [] \<and> 0 < w \<and> t * w < 2 ^ 53) \<and>
     sum_list (map snd xs) \<le> 2 ^ 53"

lemma weighted_items_valid:
  "exact_weights t xs \<Longrightarrow> \<not> some_invalid_item [] (weighted_items xs)"
  by (auto simp: some_invalid_item_iff exact_weights_def weighted_items_def valid_weight_def
      num_le_def o_def case_prod_beta)

lemma exact_weights_pos:
  assumes "exact_weights t xs" shows "0 < sum_list (map snd xs)"
proof -
  have "\<forall>w \<in> set (map snd xs). 0 < w" "map snd xs \<noteq> []"
    using assms by (auto simp: exact_weights_def)
  then show ?thesis by (intro sum_list_pos) auto
qed

definition int_floors :: "int \<Rightarrow> (string \<times> int) list \<Rightarrow> (string \<times> int) list" where
  "int_floors t xs = map (\<lambda>(i, w). (i, t * w div sum_list (map snd xs))) xs"

lemma total_weight_int:
  assumes "exact_weights t xs"
  shows "foldl num_add (Fin 0) (map wi_weight (weighted_items xs)) = num_int (sum_list (map snd xs))"
proof -
  have "map wi_weight (weighted_items xs) = map num_int (map snd xs)"
    by (simp add: weighted_items_def o_def case_prod_beta)
  moreover have "foldl num_add (num_int 0) (map num_int (map snd xs)) = num_int (0 + sum_list (map snd xs))"
    using assms by (intro foldl_num_add_int) (auto simp: exact_weights_def)
  ultimately show ?thesis by simp
qed

lemma calculated_ids_floors:
  assumes "exact_weights t xs"
  defines "cs \<equiv> map (calculated_share (num_int t) (num_int (sum_list (map snd xs)))) (weighted_items xs)"
  shows "map (\<lambda>c. (ci_id c, ci_floor c)) cs = map (\<lambda>(i, v). (i, num_int v)) (int_floors t xs)"
proof -
  have "ci_floor (calculated_share (num_int t) (num_int (sum_list (map snd xs)))
      \<lparr>wi_id = i, wi_weight = num_int w\<rparr>) = num_int (t * w div sum_list (map snd xs))"
    if "(i, w) \<in> set xs" for i w
    using that assms(1) exact_weights_pos [OF assms(1)]
    by (intro calculated_floor) (auto simp: exact_weights_def)
  then show ?thesis
    by (auto simp: cs_def int_floors_def weighted_items_def calculated_share_def Let_def)
qed

lemma int_floors_total:
  assumes "exact_weights t xs"
  shows "0 \<le> t - sum_list (map snd (int_floors t xs))"
    and "t - sum_list (map snd (int_floors t xs)) < int (length xs)"
    and "\<forall>v \<in> set (map snd (int_floors t xs)). 0 \<le> v"
proof -
  let ?W = "sum_list (map snd xs)"
  have W: "0 < ?W" using assms by (rule exact_weights_pos)
  have e: "sum_list (map snd (int_floors t xs)) = (\<Sum>w\<leftarrow>map snd xs. t * w div ?W)"
    by (simp add: int_floors_def o_def case_prod_beta)
  show "0 \<le> t - sum_list (map snd (int_floors t xs))"
    "t - sum_list (map snd (int_floors t xs)) < int (length xs)"
    using sum_floors_bounds [of ?W "map snd xs" t] W assms unfolding e
    by (auto simp: exact_weights_def)
  show "\<forall>v \<in> set (map snd (int_floors t xs)). 0 \<le> v"
    using assms W
    by (fastforce simp: int_floors_def exact_weights_def pos_imp_zdiv_nonneg_iff
        intro: mult_nonneg_nonneg)
qed

lemma sum_credited:
  assumes "distinct (map fst fs)" "set ids \<subseteq> set (map fst fs)" "distinct ids"
  shows "(\<Sum>(i, v)\<leftarrow>fs. if i \<in> set ids then v + 1 else v) = sum_list (map snd fs) + int (length ids)"
proof -
  have "(\<Sum>(i, v)\<leftarrow>fs. if i \<in> set ids then v + 1 else v) =
      (\<Sum>(i, v)\<leftarrow>fs. v) + (\<Sum>(i, v)\<leftarrow>fs. if i \<in> set ids then 1 else 0)"
    by (induction fs) auto
  also have "(\<Sum>(i, v)\<leftarrow>fs. if i \<in> set ids then 1 else (0::int)) =
      int (length (filter (\<lambda>i. i \<in> set ids) (map fst fs)))"
    by (induction fs) auto
  also have "length (filter (\<lambda>i. i \<in> set ids) (map fst fs)) = length ids"
  proof -
    have "distinct (filter (\<lambda>i. i \<in> set ids) (map fst fs))" using assms(1) by simp
    then have "length (filter (\<lambda>i. i \<in> set ids) (map fst fs)) =
        card (set (filter (\<lambda>i. i \<in> set ids) (map fst fs)))"
      by (rule distinct_card [symmetric])
    also have "set (filter (\<lambda>i. i \<in> set ids) (map fst fs)) = set ids" using assms(2) by auto
    also have "card (set ids) = length ids" using assms(3) by (rule distinct_card)
    finally show ?thesis .
  qed
  finally show ?thesis by (simp add: case_prod_unfold)
qed

text \<open>
  The whole distribution on exact weights: it succeeds, and its shares are the floors of
  the exact shares, some of them one cent higher.
\<close>

lemma distribute_exact:
  assumes ex: "exact_weights t xs"
  obtains ids where
    "distributeMoneyByWeight loc (num_int t) (weighted_items xs) =
       Inr (int_map (\<lambda>i. if i \<in> set ids then map_option (\<lambda>v. v + 1) (map_of (int_floors t xs) i)
                        else map_of (int_floors t xs) i))"
    "distinct ids" "set ids \<subseteq> fst ` set xs"
    "int (length ids) = t - sum_list (map snd (int_floors t xs))"
proof -
  let ?W = "sum_list (map snd xs)" and ?fs = "int_floors t xs"
  define cs where "cs = map (calculated_share (num_int t) (num_int ?W)) (weighted_items xs)"
  define order where "order = sort_by (residual_cmp loc) cs"
  define r where "r = t - sum_list (map snd ?fs)"
  define ids where "ids = map ci_id (take (nat r) order)"
  have cf: "map (\<lambda>c. (ci_id c, ci_floor c)) cs = map (\<lambda>(i, v). (i, num_int v)) ?fs"
    unfolding cs_def by (rule calculated_ids_floors [OF ex])
  have fst_fs: "map fst ?fs = map fst xs" by (simp add: int_floors_def o_def case_prod_beta)
  have cids: "map ci_id cs = map fst xs"
    using arg_cong [OF cf, of "map fst"] fst_fs by (simp add: o_def case_prod_beta)
  have cfl: "map ci_floor cs = map num_int (map snd ?fs)"
    using arg_cong [OF cf, of "map snd"] by (simp add: o_def case_prod_beta)
  have dist: "distinct (map fst xs)" using ex by (simp add: exact_weights_def)
  note tot = int_floors_total [OF ex, folded r_def]
  have "foldl num_add (Fin 0) (map ci_floor cs) = num_int (sum_list (map snd ?fs))"
  proof -
    have "foldl num_add (num_int 0) (map num_int (map snd ?fs)) = num_int (0 + sum_list (map snd ?fs))"
      using tot ex by (intro foldl_num_add_int) (auto simp: exact_weights_def r_def)
    then show ?thesis by (simp add: cfl)
  qed
  moreover have "num_sub (num_int t) (num_int (sum_list (map snd ?fs))) = num_int r"
  proof -
    have "0 \<le> sum_list (map snd ?fs)" using tot(3) by (intro sum_list_nonneg) auto
    moreover have "0 \<le> r" "t \<le> 2 ^ 53 - 1" using tot(1) ex by (auto simp: exact_weights_def)
    ultimately show ?thesis unfolding r_def by (intro num_sub_int) auto
  qed
  ultimately have rem: "remaining_steps (remaining_cents (num_int t) cs) = nat r"
    by (simp add: remaining_cents_def)
  have order: "mset order = mset cs" by (simp add: order_def)
  then have dord: "distinct (map ci_id order)" and sord: "ci_id ` set order = fst ` set xs"
    using dist cids by (metis mset_map mset_eq_imp_distinct_iff,
      metis cids image_set mset_eq_setD)
  have len: "length order = length xs" using order cids by (metis length_map size_mset)
  have nr: "0 + nat r \<le> length order" using tot len by linarith
  have alloc: "map_of (rev (map (\<lambda>c. (ci_id c, ci_floor c)) cs)) = int_map (map_of ?fs)"
  proof -
    have "distinct (map fst (map (\<lambda>(i, v). (i, num_int v)) ?fs))"
      using dist fst_fs by (simp add: o_def case_prod_beta)
    moreover from this have "distinct (map fst (rev (map (\<lambda>(i, v). (i, num_int v)) ?fs)))"
      by (simp only: rev_map [symmetric] distinct_rev)
    ultimately have "map_of (rev (map (\<lambda>(i, v). (i, num_int v)) ?fs)) = map_of (map (\<lambda>(i, v). (i, num_int v)) ?fs)"
      by (intro map_of_inject_set [THEN iffD2]) simp_all
    then show ?thesis unfolding cf by (simp add: map_of_map fun_eq_iff)
  qed
  have ids: "distinct ids" "set ids \<subseteq> fst ` set xs" "int (length ids) = r"
  proof -
    show "distinct ids" using dord by (simp add: ids_def distinct_map_filter take_map [symmetric])
    show "set ids \<subseteq> fst ` set xs"
      unfolding ids_def set_map sord [symmetric] by (intro image_mono set_take_subset)
    show "int (length ids) = r" using nr tot by (simp add: ids_def)
  qed
  have small: "\<forall>i \<in> set ids. \<exists>v. map_of ?fs i = Some v \<and> 0 \<le> v \<and> v < 2 ^ 53"
  proof
    fix i assume "i \<in> set ids"
    then have "i \<in> fst ` set ?fs" using ids(2) fst_fs by (metis image_set subsetD)
    then obtain v where v: "map_of ?fs i = Some v" by (metis map_of_eq_None_iff not_None_eq)
    then have m: "v \<in> set (map snd ?fs)" by (metis image_eqI map_of_SomeD set_map snd_conv)
    then have "v \<le> sum_list (map snd ?fs)" using tot(3) by (intro member_le_sum_list) auto
    then show "\<exists>v. map_of ?fs i = Some v \<and> 0 \<le> v \<and> v < 2 ^ 53"
      using v m tot ex by (auto simp: r_def exact_weights_def)
  qed
  have "residual_loop order 0 (nat r) (int_map (map_of ?fs)) = fold credit_cent ids (int_map (map_of ?fs))"
    using residual_loop_fold [OF nr] by (simp add: ids_def)
  also have "\<dots> = int_map (\<lambda>i. if i \<in> set ids then map_option (\<lambda>v. v + 1) (map_of ?fs i) else map_of ?fs i)"
    by (rule fold_credit_cent [OF ids(1) small])
  finally have "distributeMoneyByWeight loc (num_int t) (weighted_items xs) =
    Inr (int_map (\<lambda>i. if i \<in> set ids then map_option (\<lambda>v. v + 1) (map_of ?fs i) else map_of ?fs i))"
    using ex weighted_items_valid [OF ex] exact_weights_pos [OF ex] rem alloc
    by (simp add: distributeMoneyByWeight_def total_weight_int [OF ex] Let_def num_le_def
        flip: cs_def order_def) (auto simp: exact_weights_def weighted_items_def)
  then show thesis using ids by (intro that) (auto simp: r_def)
qed

text \<open>
  C1. The largest-remainder distribution neither creates nor loses a cent: whenever the
  total times each weight and the sum of the weights are safe integers, the allocations
  cover exactly the given ids, add up to the total, and each is the exact proportional
  share rounded down or one cent more, whatever collation resolves the ties.
\<close>

theorem distribute_conserves_total:
  assumes "exact_weights t xs"
  shows "\<exists>a. distributeMoneyByWeight loc (num_int t) (weighted_items xs) = Inr (int_map a) \<and>
    dom a = fst ` set xs \<and>
    (\<Sum>(i, w)\<leftarrow>xs. the (a i)) = t \<and>
    (\<forall>(i, w) \<in> set xs. the (a i) = t * w div sum_list (map snd xs) \<or>
                         the (a i) = t * w div sum_list (map snd xs) + 1)"
proof -
  let ?fs = "int_floors t xs"
  obtain ids where ids:
    "distributeMoneyByWeight loc (num_int t) (weighted_items xs) =
       Inr (int_map (\<lambda>i. if i \<in> set ids then map_option (\<lambda>v. v + 1) (map_of ?fs i) else map_of ?fs i))"
    "distinct ids" "set ids \<subseteq> fst ` set xs" "int (length ids) = t - sum_list (map snd ?fs)"
    by (rule distribute_exact [OF assms])
  let ?a = "\<lambda>i. if i \<in> set ids then map_option (\<lambda>v. v + 1) (map_of ?fs i) else map_of ?fs i"
  have dist: "distinct (map fst xs)" using assms by (simp add: exact_weights_def)
  have keys: "map fst ?fs = map fst xs" by (simp add: int_floors_def o_def case_prod_beta)
  have val: "map_of ?fs i = Some (t * w div sum_list (map snd xs))" if "(i, w) \<in> set xs" for i w
  proof (rule map_of_is_SomeI)
    show "distinct (map fst ?fs)" by (simp only: keys dist)
    show "(i, t * w div sum_list (map snd xs)) \<in> set ?fs" using that by (auto simp: int_floors_def)
  qed
  have "dom ?a = dom (map_of ?fs)" by (auto simp: dom_def)
  also have "\<dots> = set (map fst ?fs)" by (simp add: dom_map_of_conv_image_fst)
  finally have "dom ?a = fst ` set xs" by (simp only: keys set_map)
  moreover have "(\<Sum>(i, w)\<leftarrow>xs. the (?a i)) = t"
  proof -
    let ?q = "\<lambda>w. t * w div sum_list (map snd xs)"
    have "map (\<lambda>(i, w). the (?a i)) xs = map (\<lambda>(i, w). if i \<in> set ids then ?q w + 1 else ?q w) xs"
      by (rule map_cong) (use val in fastforce)+
    also have "\<dots> = map (\<lambda>(i, v). if i \<in> set ids then v + 1 else v) ?fs"
      by (simp add: int_floors_def o_def case_prod_unfold)
    finally have "(\<Sum>(i, w)\<leftarrow>xs. the (?a i)) = (\<Sum>(i, v)\<leftarrow>?fs. if i \<in> set ids then v + 1 else v)"
      by (rule arg_cong)
    also have "\<dots> = sum_list (map snd ?fs) + int (length ids)"
      using ids(2,3) dist by (intro sum_credited) (simp_all only: keys set_map)
    also have "\<dots> = t" using ids(4) by simp
    finally show ?thesis .
  qed
  moreover have "\<forall>(i, w) \<in> set xs. the (?a i) = t * w div sum_list (map snd xs) \<or>
      the (?a i) = t * w div sum_list (map snd xs) + 1"
    by (auto simp: val)
  ultimately show ?thesis using ids(1) by (intro exI [of _ ?a] conjI)
qed

theorem distribute_conserves_total_witness:
  "\<exists>a. distributeMoneyByWeight (\<lambda>x y. 0) (num_int 100) (weighted_items [(''a'', 1), (''b'', 1), (''c'', 1)])
      = Inr (int_map a) \<and> (\<Sum>(i, w)\<leftarrow>[(''a'', 1::int), (''b'', 1), (''c'', 1)]. the (a i)) = 100"
proof -
  have "exact_weights 100 [(''a'', 1), (''b'', 1), (''c'', 1)]" by (simp add: exact_weights_def)
  from distribute_conserves_total [OF this, of "\<lambda>x y. 0"] show ?thesis by blast
qed

section \<open>Cents and decimal amounts\<close>

datatype billing_money_error = MONEY_INVALID_INPUT | REMOTE_STATE_DIVERGED

definition assertMoneyCents :: "jsnum \<Rightarrow> bool \<Rightarrow> billing_money_error + unit" where
  "assertMoneyCents v allow_zero =
     (if \<not> num_safe_integer v \<or> num_less v (Fin 0) \<or> (\<not> allow_zero \<and> v = Fin 0)
      then Inl MONEY_INVALID_INPUT else Inr ())"

definition sumMoneyCents :: "jsnum list \<Rightarrow> billing_money_error + jsnum" where
  "sumMoneyCents vs = (let t = foldl num_add (Fin 0) vs
     in if \<not> num_safe_integer t \<or> num_less t (Fin 0) then Inl MONEY_INVALID_INPUT else Inr t)"

definition centsToDecimal :: "jsnum \<Rightarrow> billing_money_error + jsnum" where
  "centsToDecimal c = (case assertMoneyCents c True of Inl e \<Rightarrow> Inl e
     | Inr _ \<Rightarrow> Inr (num_div c (Fin 100)))"

definition decimalToCents :: "jsnum \<Rightarrow> billing_money_error + jsnum" where
  "decimalToCents v =
     (if \<not> num_finite v \<or> num_less v (Fin 0) then Inl REMOTE_STATE_DIVERGED
      else Inr (num_round (num_mul (num_add v num_epsilon) (Fin 100))))"

lemma assertMoneyCents_int:
  "assertMoneyCents (num_int n) True = (if 0 \<le> n \<and> n \<le> 2 ^ 53 - 1 then Inr () else Inl MONEY_INVALID_INPUT)"
proof -
  have "num_safe_integer (num_int n) \<longleftrightarrow> \<bar>n\<bar> \<le> 2 ^ 53 - 1"
    by (auto simp only: num_safe_integer_iff jsnum.inject of_int_eq_iff)
  then show ?thesis by (auto simp: assertMoneyCents_def simp del: num_safe_integer.simps)
qed

lemma sum_money_exact_if:
  assumes "\<forall>x \<in> set xs. 0 \<le> x"
  shows "sum_list xs < 2 ^ 53 \<Longrightarrow> foldl num_add (Fin 0) (map num_int xs) = num_int (sum_list xs)"
    and "num_safe_integer (foldl num_add (Fin 0) (map num_int xs)) \<longleftrightarrow> sum_list xs < 2 ^ 53"
proof -
  have nn: "0 \<le> sum_list xs" using assms by (auto intro: sum_list_nonneg)
  show eq: "foldl num_add (Fin 0) (map num_int xs) = num_int (sum_list xs)" if "sum_list xs < 2 ^ 53"
    using foldl_num_add_int [of 0 xs] assms that by simp
  show "num_safe_integer (foldl num_add (Fin 0) (map num_int xs)) \<longleftrightarrow> sum_list xs < 2 ^ 53"
  proof (cases "sum_list xs < 2 ^ 53")
    case True
    have "num_safe_integer (num_int (sum_list xs))"
      using True nn by (auto simp only: num_safe_integer_iff jsnum.inject of_int_eq_iff)
    then show ?thesis using True by (simp only: eq)
  next
    case False
    then have "num_unsafe (foldl num_add (num_int 0) (map num_int xs))"
      using assms by (intro foldl_num_add_safe) simp_all
    then show ?thesis using False num_unsafe_not_safe by simp
  qed
qed

text \<open>
  Sums of cents are exact or refused: for amounts in cents, whatever their order,
  \<^verbatim>\<open>sumMoneyCents\<close> returns the exact total while it is a safe integer and an error from
  the first unsafe total on; no rounded total is ever returned.
\<close>

theorem sum_money_exact_or_rejected:
  assumes "\<forall>x \<in> set xs. 0 \<le> x"
  shows "sumMoneyCents (map num_int xs) =
    (if sum_list xs < 2 ^ 53 then Inr (num_int (sum_list xs)) else Inl MONEY_INVALID_INPUT)"
proof (cases "sum_list xs < 2 ^ 53")
  case True
  have "0 \<le> sum_list xs" using assms by (auto intro: sum_list_nonneg)
  then have "\<not> num_less (num_int (sum_list xs)) (Fin 0)" by simp
  then show ?thesis
    using True sum_money_exact_if [OF assms]
    unfolding sumMoneyCents_def Let_def by (simp only: if_True if_False) simp
qed (simp only: sumMoneyCents_def Let_def sum_money_exact_if(2) [OF assms] if_False not_False_eq_True simp_thms if_True)

theorem sum_money_exact_or_rejected_witness:
  "sumMoneyCents (map num_int [9007199254740991, 1, 1]) = Inl MONEY_INVALID_INPUT \<and>
   sumMoneyCents (map num_int [1990, 10, 9007199254738991]) = Inr (num_int 9007199254740991)"
  using sum_money_exact_or_rejected [of "[9007199254740991, 1, 1]"]
    sum_money_exact_or_rejected [of "[1990, 10, 9007199254738991]"]
  by (simp del: num_add.simps)

lemma epsilon_normal: "min_normal \<le> 1 / 2 ^ 52"
  using min_normal_small [of "2 ^ 52"] by simp

text \<open>The three roundings of the conversion move the amount by less than half a cent.\<close>

lemma scaled_error:
  fixes x :: rat
  assumes x: "0 \<le> x" "x \<le> 2 ^ 50 / 100" and v: "\<bar>v - x\<bar> \<le> x / 2 ^ 53"
  defines "s \<equiv> fl (v + 1 / 2 ^ 52)"
  shows "\<bar>fl (s * 100) - 100 * x\<bar> < 1/2" "0 \<le> s" "s \<le> 2 ^ 50"
proof -
  define t where "t = v + 1 / 2 ^ 52"
  have vu: "v \<le> x + x / 2 ^ 53" using abs_le_D1 [OF v] by simp
  have vl: "x - x / 2 ^ 53 \<le> v" using abs_le_D2 [OF v] by simp
  have "0 \<le> v" using vl x(1) by simp
  note v0 = this vu vl
  have tn: "min_normal \<le> t" using v0(1) epsilon_normal unfolding t_def by simp
  have tp: "0 < t" using v0(1) by (simp add: t_def)
  have st: "\<bar>s - t\<bar> \<le> t / 2 ^ 53"
    using fl_relative_error [of t] tn tp by (simp only: s_def t_def abs_of_pos)
  have su: "s \<le> t + t / 2 ^ 53" using abs_le_D1 [OF st] by simp
  have sl: "t - t / 2 ^ 53 \<le> s" using abs_le_D2 [OF st] by simp
  note sb = sl su
  have sv: "v + 1 / 2 ^ 52 - v / 2 ^ 53 - 1 / 2 ^ 105 \<le> s" "s \<le> v + 1 / 2 ^ 52 + v / 2 ^ 53 + 1 / 2 ^ 105"
    using sl su by (simp_all add: t_def add_divide_distrib)
  then show "0 \<le> s" using tp by simp
  have "min_normal \<le> s * 100" using tn sb(1) tp by simp
  then have "min_normal \<le> \<bar>s * 100\<bar>" by simp
  then have "\<bar>fl (s * 100) - s * 100\<bar> \<le> \<bar>s * 100\<bar> / 2 ^ 53" by (rule fl_relative_error)
  moreover have "\<bar>s * 100\<bar> = s * 100" using \<open>0 \<le> s\<close> by simp
  ultimately have p: "\<bar>fl (s * 100) - s * 100\<bar> \<le> s * 100 / 2 ^ 53" by simp
  have "fl (s * 100) - 100 * x < 1/2" using abs_le_D1 [OF p] sv v0 x by simp
  moreover have "- (fl (s * 100) - 100 * x) < 1/2" using abs_le_D2 [OF p] sv v0 x by simp
  ultimately show "\<bar>fl (s * 100) - 100 * x\<bar> < 1/2" by (rule abs_less_iff [THEN iffD2, OF conjI])
  show "s \<le> 2 ^ 50" using sv v0 x by simp
qed

text \<open>
  Cents survive the trip through the provider's decimal amounts: for up to 2^50 cents,
  converting to a decimal number and back, with the three roundings of the code, returns
  the same integer.
\<close>

theorem cents_decimal_roundtrip:
  assumes "0 \<le> c" "c \<le> 2 ^ 50"
  shows "\<exists>d. centsToDecimal (num_int c) = Inr d \<and> decimalToCents d = Inr (num_int c)"
proof -
  define x where "x = of_int c / (100::rat)"
  have "of_int c \<le> (of_int (2 ^ 50) :: rat)" using assms(2) by (simp only: of_int_le_iff)
  then have x: "0 \<le> x" "x \<le> 2 ^ 50 / 100" using assms(1) by (simp_all add: x_def)
  have e: "\<bar>fl x - x\<bar> \<le> x / 2 ^ 53"
  proof (cases "c = 0")
    case False
    then have "1 / of_int 100 \<le> x" using assms(1) by (simp add: x_def divide_right_mono)
    moreover have "min_normal \<le> 1 / of_int 100" by (rule min_normal_small) simp_all
    ultimately have "min_normal \<le> \<bar>x\<bar>" by linarith
    then show ?thesis using fl_relative_error [of x] x(1) by (simp only: abs_of_nonneg)
  qed (simp add: x_def)
  note S = scaled_error [OF x e]
  have f0: "0 \<le> fl x" using x(1) by (rule fl_nonneg)
  have "of_exact x = Fin (fl x)" using abs_le_D1 [OF e] x f0 by (intro of_exact_finite) simp
  then have d: "centsToDecimal (num_int c) = Inr (Fin (fl x))"
    using assms by (simp add: centsToDecimal_def assertMoneyCents_int x_def)
  have "of_exact (fl x + 1 / 2 ^ 52) = Fin (fl (fl x + 1 / 2 ^ 52))"
    using S(2,3) by (intro of_exact_finite) simp
  moreover have "of_exact (fl (fl x + 1 / 2 ^ 52) * 100) = Fin (fl (fl (fl x + 1 / 2 ^ 52) * 100))"
    using abs_less_iff [THEN iffD1, OF S(1)] x
    by (intro of_exact_finite) (simp add: abs_le_iff)
  moreover have "\<lfloor>fl (fl (fl x + 1 / 2 ^ 52) * 100) + 1/2\<rfloor> = c"
    using abs_less_iff [THEN iffD1, OF S(1)] by (intro floor_unique) (simp_all add: x_def)
  ultimately have "decimalToCents (Fin (fl x)) = Inr (num_int c)"
    using f0 by (simp add: decimalToCents_def num_epsilon_def)
  with d show ?thesis by blast
qed

theorem cents_decimal_roundtrip_witness:
  "\<exists>d. centsToDecimal (num_int 12990) = Inr d \<and> decimalToCents d = Inr (num_int 12990)"
  by (rule cents_decimal_roundtrip) simp_all

end
