(* ===== verification/Proration.thy ===== *)
theory Proration
  imports BillingMoney
begin

text \<open>
  Daily proration of an amount over a billing cycle,
  \<^verbatim>\<open>packages/domain/src/billing-agreement/proration.ts\<close>: civil days in UTC, a semiopen
  validity window, and rounding of half a cent upwards.
\<close>

datatype prorate_error = PR_INVALID_AMOUNT | PR_INVALID_DATE | PR_INVALID_CYCLE

record prorated =
  pr_amountCents :: jsnum
  pr_activeDays :: int
  pr_cycleDays :: int

definition toUtcCivilDay :: "date_value \<Rightarrow> int option" where
  "toUtcCivilDay v = (case v of None \<Rightarrow> None
     | Some t \<Rightarrow> Some (date_utc (utc_year t) (utc_month t) (utc_date t)))"

text \<open>
  The computation after validation. Time values are multiples of a day here, below 8.64e15
  in magnitude, so the subtractions and the division by \<^verbatim>\<open>MILLISECONDS_PER_DAY\<close> are exact
  and day counts are integers.
\<close>

definition prorate_window :: "jsnum \<Rightarrow> int \<Rightarrow> int \<Rightarrow> int \<Rightarrow> int option \<Rightarrow> prorated" where
  "prorate_window full cycleStart cycleEnd from until =
     (let activeStart = max cycleStart from;
          activeEnd = min cycleEnd (case until of Some u \<Rightarrow> u | None \<Rightarrow> cycleEnd);
          cycleDays = (cycleEnd - cycleStart) div ms_per_day;
          activeDays = max 0 ((activeEnd - activeStart) div ms_per_day)
      in if activeDays = 0
         then \<lparr>pr_amountCents = Fin 0, pr_activeDays = activeDays, pr_cycleDays = cycleDays\<rparr>
         else
           let numerator = num_mul full (num_int activeDays);
               quotient = num_floor (num_div numerator (num_int cycleDays));
               remainder = num_rem numerator (num_int cycleDays);
               amount = num_add quotient
                 (if num_le (num_int cycleDays) (num_mul remainder (Fin 2)) then Fin 1 else Fin 0)
           in \<lparr>pr_amountCents = amount, pr_activeDays = activeDays, pr_cycleDays = cycleDays\<rparr>)"

text \<open>\<open>validUntil = None\<close> is the absent or null limit, \<open>Some None\<close> an invalid date.\<close>

definition prorateMoneyByDays ::
    "jsnum \<Rightarrow> date_value \<Rightarrow> date_value \<Rightarrow> date_value \<Rightarrow> date_value option
       \<Rightarrow> prorate_error + prorated" where
  "prorateMoneyByDays full startsAt endsAt validFrom validUntil =
     (if \<not> isMoneyCents full then Inl PR_INVALID_AMOUNT
      else case (toUtcCivilDay startsAt, toUtcCivilDay endsAt, toUtcCivilDay validFrom) of
        (Some cycleStart, Some cycleEnd, Some from) \<Rightarrow>
          (case map_option toUtcCivilDay validUntil of
             Some None \<Rightarrow> Inl PR_INVALID_DATE
           | Some (Some u) \<Rightarrow>
               if cycleEnd \<le> cycleStart then Inl PR_INVALID_CYCLE
               else if u \<le> from then Inl PR_INVALID_DATE
               else Inr (prorate_window full cycleStart cycleEnd from (Some u))
           | None \<Rightarrow>
               if cycleEnd \<le> cycleStart then Inl PR_INVALID_CYCLE
               else Inr (prorate_window full cycleStart cycleEnd from None))
      | _ \<Rightarrow> Inl PR_INVALID_DATE)"

section \<open>Civil days\<close>

text \<open>Outside the years 0 to 99 the civil day is the day of the time value.\<close>

lemma toUtcCivilDay_eq:
  assumes "\<not> (0 \<le> utc_year t \<and> utc_year t \<le> 99)"
  shows "toUtcCivilDay (Some t) = Some (day_of t * ms_per_day)"
  using assms by (simp only: toUtcCivilDay_def date_utc_def option.case if_False make_day_utc_fields)

section \<open>Half-up rounding of a share\<close>

definition prorated_cents :: "int \<Rightarrow> int \<Rightarrow> int \<Rightarrow> int" where
  "prorated_cents full active cycle = (2 * (full * active) + cycle) div (2 * cycle)"

lemma half_up_parts:
  assumes "0 \<le> r" "r < (c::int)"
  shows "(2 * (c * q + r) + c) div (2 * c) = q + (if c \<le> r * 2 then 1 else 0)"
proof (cases "c \<le> r * 2")
  case True
  then show ?thesis
    using assms by (intro int_div_pos_eq [of _ _ _ "2 * r - c"]) (auto simp: algebra_simps)
next
  case False
  then show ?thesis
    using assms by (intro int_div_pos_eq [of _ _ _ "2 * r + c"]) (auto simp: algebra_simps)
qed

lemma half_up_div:
  "0 < (c::int) \<Longrightarrow> n div c + (if c \<le> n mod c * 2 then 1 else 0) = (2 * n + c) div (2 * c)"
  using half_up_parts [of "n mod c" c "n div c"] by simp

lemma rounded_share:
  assumes "0 \<le> a" "0 < k" "k \<le> c" "c \<le> 2 ^ 50" "a * c < 2 ^ 53"
  shows "num_add (num_floor (num_div (num_mul (num_int a) (num_int k)) (num_int c)))
      (if num_le (num_int c) (num_mul (num_rem (num_mul (num_int a) (num_int k)) (num_int c)) (Fin 2))
       then Fin 1 else Fin 0) = num_int (prorated_cents a k c)"
proof -
  let ?n = "a * k"
  have n: "0 \<le> ?n" "?n < 2 ^ 53"
    using assms mult_left_mono [of k c a] by auto
  have c: "0 < c" "c \<le> 2 ^ 53" using assms by auto
  have mul: "num_mul (num_int a) (num_int k) = num_int ?n"
    using n by (intro num_mul_int) simp
  have "0 \<le> ?n mod c" "?n mod c < c" using c by simp_all
  then have "num_mul (num_int (?n mod c)) (num_int 2) = num_int (?n mod c * 2)"
    using assms(4) by (intro num_mul_int) auto
  then have rem: "num_mul (num_int (?n mod c)) (Fin 2) = num_int (?n mod c * 2)" by simp
  have "?n div c \<le> ?n" using n c by (metis div_by_1 int_one_le_iff_zero_less zdiv_mono2 zero_less_one)
  moreover have "0 \<le> ?n div c" using n c by (simp add: pos_imp_zdiv_nonneg_iff)
  ultimately have "num_add (num_int (?n div c)) (num_int b) = num_int (?n div c + b)" if "b \<in> {0, 1}" for b
    using n that by (intro num_add_int) auto
  note add = this [of 0] this [of 1]
  show ?thesis
  proof (cases "c \<le> ?n mod c * 2")
    case True
    then have "num_le (num_int c) (num_int (?n mod c * 2))" unfolding num_le_int .
    then show ?thesis
      unfolding mul num_div_floor_int [OF n c] num_rem_int [OF n(1) c(1)] rem prorated_cents_def
        half_up_div [OF c(1), symmetric]
      using True add(2) by (simp only: if_True simp_thms) simp
  next
    case False
    then have "\<not> num_le (num_int c) (num_int (?n mod c * 2))" unfolding num_le_int .
    then show ?thesis
      unfolding mul num_div_floor_int [OF n c] num_rem_int [OF n(1) c(1)] rem prorated_cents_def
        half_up_div [OF c(1), symmetric]
      using False add(1) by (simp only: if_False simp_thms) simp
  qed
qed

lemma prorated_cents_bounds:
  assumes "0 \<le> a" "0 \<le> k" "k \<le> c" "0 < c"
  shows "0 \<le> prorated_cents a k c" "prorated_cents a k c \<le> a"
proof -
  have ak: "0 \<le> a * k" "a * k \<le> a * c" using assms by (auto intro: mult_left_mono)
  then show "0 \<le> prorated_cents a k c"
    using assms by (simp add: prorated_cents_def pos_imp_zdiv_nonneg_iff)
  have "(2 * (a * k) + c) div (2 * c) \<le> (c + a * (2 * c)) div (2 * c)"
    using ak assms by (intro zdiv_mono1) (auto simp: algebra_simps)
  also have "\<dots> = a" using assms by (simp add: div_mult_self1)
  finally show "prorated_cents a k c \<le> a" by (simp add: prorated_cents_def)
qed

text \<open>A window over whole days.\<close>

definition active_days :: "int \<Rightarrow> int \<Rightarrow> int \<Rightarrow> int option \<Rightarrow> int" where
  "active_days cs ce vf vu =
     max 0 (min ce (case vu of None \<Rightarrow> ce | Some d \<Rightarrow> d) - max cs vf)"

lemma prorate_window_days:
  assumes "cs < ce" "ce - cs \<le> 2 ^ 50" "0 \<le> a" "a * (ce - cs) < 2 ^ 53"
  shows "prorate_window (num_int a) (cs * ms_per_day) (ce * ms_per_day) (vf * ms_per_day)
      (map_option (\<lambda>d. d * ms_per_day) vu) =
    \<lparr>pr_amountCents = num_int (prorated_cents a (active_days cs ce vf vu) (ce - cs)),
     pr_activeDays = active_days cs ce vf vu, pr_cycleDays = ce - cs\<rparr>"
proof -
  let ?k = "active_days cs ce vf vu"
  have D: "0 < ms_per_day" by (simp add: ms_per_day_def)
  have max: "max (x * ms_per_day) (y * ms_per_day) = max x y * ms_per_day"
    and min: "min (x * ms_per_day) (y * ms_per_day) = min x y * ms_per_day" for x y
    using D by (auto simp: max_def min_def)
  have sub: "(x * ms_per_day - y * ms_per_day) div ms_per_day = x - y" for x y
    using D by (simp flip: left_diff_distrib)
  have u: "(case map_option (\<lambda>d. d * ms_per_day) vu of Some u \<Rightarrow> u | None \<Rightarrow> ce * ms_per_day)
      = (case vu of None \<Rightarrow> ce | Some d \<Rightarrow> d) * ms_per_day"
    by (cases vu) auto
  have k: "max 0 (min ce (case vu of None \<Rightarrow> ce | Some d \<Rightarrow> d) - max cs vf) = ?k"
    by (simp add: active_days_def)
  have act: "?k = 0 \<or> 0 < ?k \<and> ?k \<le> ce - cs" by (auto simp: active_days_def)
  have z: "prorated_cents a 0 (ce - cs) = 0" using assms(1) by (simp add: prorated_cents_def)
  show ?thesis
    unfolding prorate_window_def u max min sub k Let_def
    using act rounded_share [of a ?k "ce - cs"] assms z by (simp only: if_splits) auto
qed

section \<open>The rounded share\<close>

lemma half_up_error:
  assumes "0 < (c::int)"
  shows "2 * (c * ((2 * n + c) div (2 * c))) \<le> 2 * n + c"
    "2 * n - c < 2 * (c * ((2 * n + c) div (2 * c)))"
proof -
  obtain q r where q: "(2 * n + c) div (2 * c) = q" "2 * n + c = 2 * c * q + r" "0 \<le> r" "r < 2 * c"
    using assms by (metis mult_div_mod_eq pos_mod_bound pos_mod_sign zero_less_mult_iff zero_less_numeral)
  show "2 * (c * ((2 * n + c) div (2 * c))) \<le> 2 * n + c"
    "2 * n - c < 2 * (c * ((2 * n + c) div (2 * c)))"
    using q by (simp_all add: mult.assoc)
qed

lemma prorated_cents_error:
  assumes "0 < c"
  shows "\<bar>2 * (c * prorated_cents a k c) - 2 * (a * k)\<bar> \<le> c"
  using half_up_error [OF assms, of "a * k"] by (simp add: prorated_cents_def abs_le_iff)

text \<open>The rounding is half up: a tie is the upper neighbour.\<close>

lemma prorated_cents_half_up:
  assumes "0 < c"
  shows "2 * c * prorated_cents a k c \<le> 2 * (a * k) + c"
    "2 * (a * k) + c < 2 * c * (prorated_cents a k c + 1)"
  using half_up_error [OF assms, of "a * k"] by (simp_all add: prorated_cents_def algebra_simps)

lemma prorated_cents_0 [simp]: "0 < c \<Longrightarrow> prorated_cents a 0 c = 0"
  by (simp add: prorated_cents_def)

lemma prorated_cents_full:
  assumes "0 < c"
  shows "prorated_cents a c c = a"
proof -
  have "2 * (a * c) + c = c + a * (2 * c)" by (simp add: algebra_simps)
  then have "(2 * (a * c) + c) div (2 * c) = a + c div (2 * c)"
    using assms by (simp only:) simp
  then show ?thesis using assms by (simp add: prorated_cents_def)
qed

text \<open>Rounding the two parts of a window separately moves the sum by at most one cent.\<close>

lemma prorated_cents_split:
  assumes "0 < c"
  shows "\<bar>prorated_cents a j c + prorated_cents a k c - prorated_cents a (j + k) c\<bar> \<le> 1"
proof -
  let ?p = "prorated_cents a j c" and ?q = "prorated_cents a k c" and ?r = "prorated_cents a (j + k) c"
  note U = half_up_error(1) [OF assms] and L = half_up_error(2) [OF assms]
  have "2 * (c * ?p) \<le> 2 * (a * j) + c" "2 * (a * j) - c < 2 * (c * ?p)"
    "2 * (c * ?q) \<le> 2 * (a * k) + c" "2 * (a * k) - c < 2 * (c * ?q)"
    "2 * (c * ?r) \<le> 2 * (a * (j + k)) + c" "2 * (a * (j + k)) - c < 2 * (c * ?r)"
    using U [of "a * j"] L [of "a * j"] U [of "a * k"] L [of "a * k"]
      U [of "a * (j + k)"] L [of "a * (j + k)"] by (simp_all only: prorated_cents_def)
  then have "c * (?p + ?q - ?r) < c * 2" "c * -2 < c * (?p + ?q - ?r)"
    by (simp_all add: algebra_simps)
  then have "?p + ?q - ?r < 2" "-2 < ?p + ?q - ?r"
    using assms by (simp_all only: mult_less_cancel_left_pos)
  then show ?thesis by linarith
qed

lemma prorate_full_years:
  assumes "full_year s" "full_year e" "full_year f" "pred_option full_year u"
    "day_of s < day_of e" "day_of e - day_of s \<le> 2 ^ 50"
    "\<forall>x. u = Some x \<longrightarrow> day_of f < day_of x"
    "0 \<le> a" "a * (day_of e - day_of s) < 2 ^ 53"
  defines "k \<equiv> active_days (day_of s) (day_of e) (day_of f) (map_option day_of u)"
    and "n \<equiv> day_of e - day_of s"
  shows "prorateMoneyByDays (num_int a) (Some s) (Some e) (Some f) (map_option Some u) =
    Inr \<lparr>pr_amountCents = num_int (prorated_cents a k n), pr_activeDays = k, pr_cycleDays = n\<rparr>"
proof -
  have civil: "full_year t \<Longrightarrow> toUtcCivilDay (Some t) = Some (day_of t * ms_per_day)" for t
    unfolding full_year_def by (rule toUtcCivilDay_eq)
  have D: "0 < ms_per_day" by (simp add: ms_per_day_def)
  have "a * 1 \<le> a * (day_of e - day_of s)" using assms by (intro mult_left_mono) auto
  then have "isMoneyCents (num_int a)"
    using assms(8,9) by (auto simp only: isMoneyCents_def num_safe_integer_iff jsnum.inject of_int_eq_iff
      num_le_int [of 0, simplified])
  moreover note prorate_window_days [OF assms(5,6,8,9), of "day_of f" "map_option day_of u",
      folded k_def n_def]
  ultimately show ?thesis
    using assms(1-5,7) D
    by (cases u) (simp_all add: prorateMoneyByDays_def civil not_le del: num_safe_integer.simps)
qed

text \<open>
  C2. Proration is the exact daily share, rounded half up: over valid dates and an amount
  whose product with the cycle length is a safe integer, the result is the one whole number
  of cents \<open>amount\<close> with \<open>amount \<le> full * active / cycle + 1/2 < amount + 1\<close> (a tie goes
  up), so within half a cent of \<open>full * active / cycle\<close>, between zero and the full amount,
  zero when no day is active and the full amount when all are.
\<close>

theorem prorate_exact_share:
  assumes "full_year s" "full_year e" "full_year f" "pred_option full_year u"
    "day_of s < day_of e" "day_of e - day_of s \<le> 2 ^ 50"
    "\<forall>x. u = Some x \<longrightarrow> day_of f < day_of x"
    "0 \<le> a" "a * (day_of e - day_of s) < 2 ^ 53"
  shows "\<exists>amount active.
    prorateMoneyByDays (num_int a) (Some s) (Some e) (Some f) (map_option Some u) =
      Inr \<lparr>pr_amountCents = num_int amount, pr_activeDays = active, pr_cycleDays = day_of e - day_of s\<rparr> \<and>
    active = active_days (day_of s) (day_of e) (day_of f) (map_option day_of u) \<and>
    2 * (day_of e - day_of s) * amount \<le> 2 * (a * active) + (day_of e - day_of s) \<and>
    2 * (a * active) + (day_of e - day_of s) < 2 * (day_of e - day_of s) * (amount + 1) \<and>
    0 \<le> amount \<and> amount \<le> a \<and>
    \<bar>2 * ((day_of e - day_of s) * amount) - 2 * (a * active)\<bar> \<le> day_of e - day_of s \<and>
    (active = 0 \<longrightarrow> amount = 0) \<and> (active = day_of e - day_of s \<longrightarrow> amount = a)"
proof -
  let ?k = "active_days (day_of s) (day_of e) (day_of f) (map_option day_of u)"
  let ?n = "day_of e - day_of s"
  have k: "0 \<le> ?k" "?k \<le> ?n" using assms(5) by (auto simp: active_days_def)
  have n: "0 < ?n" using assms(5) by simp
  show ?thesis
    using prorate_full_years [OF assms] prorated_cents_bounds [OF assms(8) k n]
      prorated_cents_half_up [OF n, of a ?k]
      prorated_cents_error [OF n, of a ?k] prorated_cents_0 [OF n] prorated_cents_full [OF n]
    by (intro exI [of _ "prorated_cents a ?k ?n"] exI [of _ ?k] conjI impI) simp_all
qed

theorem prorate_exact_share_witness:
  "prorateMoneyByDays (num_int 10000) (Some 0) (Some 2592000000) (Some 864000000) None =
      Inr \<lparr>pr_amountCents = num_int 6667, pr_activeDays = 20, pr_cycleDays = 30\<rparr> \<and>
   prorateMoneyByDays (num_int 101) (Some 0) (Some 2592000000) (Some 1296000000) None =
      Inr \<lparr>pr_amountCents = num_int 51, pr_activeDays = 15, pr_cycleDays = 30\<rparr>"
proof -
  have f: "full_year 0" "full_year 2592000000" "full_year 864000000" "full_year 1296000000"
    by code_simp+
  have d: "day_of 0 = 0" "day_of 2592000000 = 30" "day_of 864000000 = 10" "day_of 1296000000 = 15"
    by code_simp+
  obtain x where x: "prorateMoneyByDays (num_int 10000) (Some 0) (Some 2592000000) (Some 864000000) None =
      Inr \<lparr>pr_amountCents = num_int x, pr_activeDays = 20, pr_cycleDays = 30\<rparr>"
      "60 * x \<le> 400030" "400030 < 60 * (x + 1)"
    using prorate_exact_share [of 0 2592000000 864000000 None 10000]
    by (simp add: f d active_days_def del: of_int_numeral) blast
  obtain y where y: "prorateMoneyByDays (num_int 101) (Some 0) (Some 2592000000) (Some 1296000000) None =
      Inr \<lparr>pr_amountCents = num_int y, pr_activeDays = 15, pr_cycleDays = 30\<rparr>"
      "60 * y \<le> 3060" "3060 < 60 * (y + 1)"
    using prorate_exact_share [of 0 2592000000 1296000000 None 101]
    by (simp add: f d active_days_def del: of_int_numeral) blast
  have "x = 6667" using x(2,3) by presburger
  moreover have "y = 51" using y(2,3) by presburger
  moreover note x(1) y(1)
  ultimately show ?thesis by simp
qed

text \<open>
  Splitting a validity window at a day in its middle (the exchange of one version of
  an allocation for the next) charges the same as the whole window, up to one cent.
\<close>

theorem prorate_split_window:
  assumes "full_year s" "full_year e" "full_year f" "full_year m" "full_year u"
    "day_of s < day_of e" "day_of e - day_of s \<le> 2 ^ 50"
    "day_of f < day_of m" "day_of m < day_of u"
    "0 \<le> a" "a * (day_of e - day_of s) < 2 ^ 53"
  shows "\<exists>p q r j k.
    prorateMoneyByDays (num_int a) (Some s) (Some e) (Some f) (Some (Some m)) =
      Inr \<lparr>pr_amountCents = num_int p, pr_activeDays = j, pr_cycleDays = day_of e - day_of s\<rparr> \<and>
    prorateMoneyByDays (num_int a) (Some s) (Some e) (Some m) (Some (Some u)) =
      Inr \<lparr>pr_amountCents = num_int q, pr_activeDays = k, pr_cycleDays = day_of e - day_of s\<rparr> \<and>
    prorateMoneyByDays (num_int a) (Some s) (Some e) (Some f) (Some (Some u)) =
      Inr \<lparr>pr_amountCents = num_int r, pr_activeDays = j + k, pr_cycleDays = day_of e - day_of s\<rparr> \<and>
    \<bar>p + q - r\<bar> \<le> 1"
proof -
  let ?n = "day_of e - day_of s"
  let ?j = "active_days (day_of s) (day_of e) (day_of f) (Some (day_of m))"
  let ?k = "active_days (day_of s) (day_of e) (day_of m) (Some (day_of u))"
  have jk: "active_days (day_of s) (day_of e) (day_of f) (Some (day_of u)) = ?j + ?k"
    using assms(6,8,9) by (auto simp: active_days_def max_def min_def)
  have n: "0 < ?n" using assms(6) by simp
  note P = prorate_full_years [OF assms(1,2) _ _ assms(6,7) _ assms(10,11)]
  show ?thesis
    using P [of f "Some m"] P [of m "Some u"] P [of f "Some u"] prorated_cents_split [OF n, of a ?j ?k]
      assms(3-5,8,9)
    by (intro exI [of _ "prorated_cents a ?j ?n"] exI [of _ "prorated_cents a ?k ?n"]
        exI [of _ "prorated_cents a (?j + ?k) ?n"] exI [of _ ?j] exI [of _ ?k] conjI) (simp_all add: jk)
qed

theorem prorate_split_window_witness:
  "\<exists>p q r j k.
    prorateMoneyByDays (num_int 9999) (Some 0) (Some 2592000000) (Some 0) (Some (Some 864000000)) =
      Inr \<lparr>pr_amountCents = num_int p, pr_activeDays = j, pr_cycleDays = 30\<rparr> \<and>
    prorateMoneyByDays (num_int 9999) (Some 0) (Some 2592000000) (Some 864000000) (Some (Some 1728000000)) =
      Inr \<lparr>pr_amountCents = num_int q, pr_activeDays = k, pr_cycleDays = 30\<rparr> \<and>
    prorateMoneyByDays (num_int 9999) (Some 0) (Some 2592000000) (Some 0) (Some (Some 1728000000)) =
      Inr \<lparr>pr_amountCents = num_int r, pr_activeDays = j + k, pr_cycleDays = 30\<rparr> \<and> \<bar>p + q - r\<bar> \<le> 1"
proof -
  have f: "full_year 0" "full_year 2592000000" "full_year 864000000" "full_year 1728000000" by code_simp+
  have d: "day_of 0 = 0" "day_of 2592000000 = 30" "day_of 864000000 = 10" "day_of 1728000000 = 20" by code_simp+
  show ?thesis
    using prorate_split_window [of 0 2592000000 0 864000000 1728000000 9999] f d by simp
qed

end
