(* ===== verification/BillingEngine.thy ===== *)
theory BillingEngine
  imports Proration "HOL-Library.List_Lexorder" "HOL-Library.Char_ord"
begin

text \<open>
  The billing agreement engine, \<^verbatim>\<open>packages/domain/src/billing-agreement/engine.ts\<close>, over the
  types of \<^verbatim>\<open>packages/domain/src/billing-agreement/types.ts\<close>: from the allocations of an
  agreement, its persisted snapshot and the charge of the current cycle it derives the
  recurring amount, the validity of the remote subscription, the action on the
  subscription and the effect on the current cycle.

  A date is its time value (\<open>None\<close> when invalid); an ISO string that the engine produces
  from a valid date is represented by the time value it denotes, which it determines.
\<close>

section \<open>types.ts\<close>

datatype agreement_status = AG_DRAFT | AG_PENDING_PROVISION | AG_ACTIVE | AG_INACTIVE
  | AG_CANCELLATION_PENDING | AG_CANCELLED | AG_FAILED | AG_REQUIRES_RECONCILIATION

datatype allocation_kind = TUITION | ENROLLMENT_FEE | MATERIAL | ADJUSTMENT

datatype allocation_status = AL_SCHEDULED | AL_ACTIVE | AL_PAUSED | AL_ENDED | AL_CANCELLED

datatype effective_policy = CURRENT_CYCLE_FULL | CURRENT_CYCLE_PRORATED | NEXT_CYCLE | MANUAL_ADJUSTMENT

datatype adjustment_type = AT_NONE | AT_CREDIT | AT_COMPLEMENT | AT_REFUND | AT_MANUAL_REVIEW

datatype paid_decrease = PD_CREDIT | PD_REFUND | PD_MANUAL_REVIEW

datatype charge_state = CH_NOT_GENERATED | CH_PENDING | CH_OVERDUE | CH_PAID | CH_REFUNDED | CH_CANCELLED

datatype subscription_action = SA_NONE | SA_CREATE | SA_UPDATE | SA_PAUSE | SA_RESUME | SA_CANCEL
  | SCHEDULE_UPDATE | SCHEDULE_PAUSE | SCHEDULE_RESUME | SCHEDULE_CANCEL

datatype adjustment_reason = NO_DIFFERENCE | NEXT_CYCLE_ONLY | PENDING_CHARGE_CAN_BE_UPDATED
  | OVERDUE_CHARGE_CAN_BE_UPDATED | PAID_CHARGE_IS_IMMUTABLE | OVERDUE_CHARGE_REQUIRES_REVIEW
  | CANCELLED_OR_REFUNDED_CHARGE | MANUAL_POLICY

datatype engine_error_code = EE_INVALID_DATE | EE_INVALID_CYCLE | EE_INVALID_MONEY | EE_INVALID_VERSION
  | DUPLICATE_ALLOCATION_ID | DUPLICATE_ACTIVE_ENROLLMENT_ALLOCATION | INVALID_ALLOCATION_VALIDITY
  | CURRENT_CYCLE_REQUIRED

text \<open>An optional nullable date property: absent, null, or a value (which may be invalid).\<close>

datatype date_field = DF_undefined | DF_null | DF_value date_value

record agreement_snapshot =
  ag_status :: agreement_status
  ag_desiredAmountCents :: jsnum
  ag_confirmedAmountCents :: jsnum
  ag_version :: jsnum
  ag_remoteSubscriptionExists :: bool
  ag_validFrom :: date_field
  ag_validUntil :: date_field

record allocation =
  al_id :: string
  al_matriculaId :: string
  al_kind :: allocation_kind
  al_status :: allocation_status
  al_recurring :: bool
  al_netAmountCents :: jsnum
  al_validFrom :: date_value
  al_validUntil :: "date_value option"

record current_charge =
  cc_state :: charge_state
  cc_amountCents :: jsnum

record adjustment =
  ad_type :: adjustment_type
  ad_amountCents :: jsnum
  ad_reason :: adjustment_reason

record cycle_effect =
  ce_updatePendingPayments :: bool
  ce_adjustment :: adjustment

record engine_input =
  in_calculatedAt :: date_value
  in_effectiveAt :: date_value
  in_effectivePolicy :: effective_policy
  in_agreement :: "agreement_snapshot option"
  in_allocations :: "allocation list"
  in_currentCharge :: "current_charge option"
  in_currentCycle :: "(date_value \<times> date_value) option"
  in_paidDecreaseHandling :: "paid_decrease option"

record desired_state =
  ds_previousRecurringAmountCents :: jsnum
  ds_desiredRecurringAmountCents :: jsnum
  ds_agreementValidFrom :: "int option"
  ds_agreementValidUntil :: "int option"
  ds_currentCycleTargetAmountCents :: jsnum
  ds_currentCycleDeltaCents :: jsnum
  ds_subscriptionAction :: subscription_action
  ds_effect :: cycle_effect
  ds_activeAllocationIds :: "string list"

type_synonym engine_error = "engine_error_code \<times> string option"

section \<open>engine.ts: validity\<close>

definition isEffectiveAt :: "allocation \<Rightarrow> int \<Rightarrow> bool" where
  "isEffectiveAt al moment =
     (if al_status al = AL_CANCELLED \<or> al_status al = AL_ENDED \<or> al_status al = AL_PAUSED then False
      else let endsAt = (case al_validUntil al of None \<Rightarrow> None | Some d \<Rightarrow> d)
           in (case al_validFrom al of None \<Rightarrow> False | Some s \<Rightarrow> s \<le> moment) \<and>
              (case endsAt of None \<Rightarrow> True | Some e \<Rightarrow> moment < e))"

definition participatesInAggregateValidity :: "allocation \<Rightarrow> int \<Rightarrow> bool" where
  "participatesInAggregateValidity al moment =
     (if \<not> al_recurring al \<or> al_status al = AL_CANCELLED \<or> al_status al = AL_ENDED \<or>
         al_status al = AL_PAUSED then False
      else let endsAt = (case al_validUntil al of None \<Rightarrow> None | Some d \<Rightarrow> d)
           in (case endsAt of None \<Rightarrow> True | Some e \<Rightarrow> moment < e))"

text \<open>
  \<^verbatim>\<open>Math.min(...xs)\<close> and \<^verbatim>\<open>Math.max(...xs)\<close> of a non-empty list of time values. The engine calls
  \<open>calculateAggregateValidity\<close> after its loop has rejected every invalid date.
\<close>

definition math_min :: "int list \<Rightarrow> int" where
  "math_min xs = foldl min (hd xs) (tl xs)"

definition math_max :: "int list \<Rightarrow> int" where
  "math_max xs = foldl max (hd xs) (tl xs)"

definition calculateAggregateValidity :: "allocation list \<Rightarrow> int \<Rightarrow> int option \<times> int option" where
  "calculateAggregateValidity allocations moment =
     (let relevant = filter (\<lambda>al. participatesInAggregateValidity al moment) allocations
      in if relevant = [] then (None, None)
         else
           let startsAt = map (\<lambda>al. the (al_validFrom al)) relevant;
               hasOpenEnd = list_ex (\<lambda>al. al_validUntil al = None) relevant;
               endsAt = (if hasOpenEnd then [] else map (\<lambda>al. the (the (al_validUntil al))) relevant)
           in (Some (math_min startsAt), if hasOpenEnd then None else Some (math_max endsAt)))"

section \<open>engine.ts: decisions\<close>

text \<open>\<^verbatim>\<open>field ? parseDate(field)?.toISOString() ?? null : null\<close>\<close>

definition persisted_validity :: "date_field \<Rightarrow> int option" where
  "persisted_validity f = (case f of DF_undefined \<Rightarrow> None | DF_null \<Rightarrow> None | DF_value d \<Rightarrow> d)"

definition decideSubscriptionAction ::
    "agreement_snapshot option \<Rightarrow> jsnum \<Rightarrow> bool \<Rightarrow> bool \<Rightarrow> int option \<Rightarrow> int option \<Rightarrow> subscription_action" where
  "decideSubscriptionAction agreement desired isFuture hasPaused validFrom validUntil =
     (let create = (if desired = Fin 0 then SA_NONE else if isFuture then SCHEDULE_UPDATE else SA_CREATE)
      in case agreement of
        None \<Rightarrow> create
      | Some ag \<Rightarrow>
         if \<not> ag_remoteSubscriptionExists ag then create
         else if desired = Fin 0 then
           if hasPaused then
             if ag_status ag = AG_INACTIVE then SA_NONE
             else if isFuture then SCHEDULE_PAUSE else SA_PAUSE
           else if isFuture then SCHEDULE_CANCEL else SA_CANCEL
         else if ag_status ag = AG_INACTIVE then if isFuture then SCHEDULE_RESUME else SA_RESUME
         else
           let validityChanged =
                 (ag_validFrom ag \<noteq> DF_undefined \<and> persisted_validity (ag_validFrom ag) \<noteq> validFrom) \<or>
                 (ag_validUntil ag \<noteq> DF_undefined \<and> persisted_validity (ag_validUntil ag) \<noteq> validUntil)
           in if desired = ag_confirmedAmountCents ag \<and> desired \<noteq> NaN \<and> \<not> validityChanged then SA_NONE
              else if isFuture then SCHEDULE_UPDATE else SA_UPDATE)"

definition noAdjustment :: "adjustment_reason \<Rightarrow> adjustment" where
  "noAdjustment reason = \<lparr>ad_type = AT_NONE, ad_amountCents = Fin 0, ad_reason = reason\<rparr>"

definition paid_decrease_type :: "paid_decrease \<Rightarrow> adjustment_type" where
  "paid_decrease_type h =
     (case h of PD_CREDIT \<Rightarrow> AT_CREDIT | PD_REFUND \<Rightarrow> AT_REFUND | PD_MANUAL_REVIEW \<Rightarrow> AT_MANUAL_REVIEW)"

definition decideCurrentCycleEffect ::
    "current_charge option \<Rightarrow> jsnum \<Rightarrow> effective_policy \<Rightarrow> paid_decrease \<Rightarrow> cycle_effect" where
  "decideCurrentCycleEffect charge delta policy handling =
     (if policy = NEXT_CYCLE then
        \<lparr>ce_updatePendingPayments = False, ce_adjustment = noAdjustment NEXT_CYCLE_ONLY\<rparr>
      else if policy = MANUAL_ADJUSTMENT then
        \<lparr>ce_updatePendingPayments = False,
         ce_adjustment = (if delta = Fin 0 then noAdjustment NO_DIFFERENCE
           else \<lparr>ad_type = AT_MANUAL_REVIEW, ad_amountCents = num_abs delta, ad_reason = MANUAL_POLICY\<rparr>)\<rparr>
      else if delta = Fin 0 then
        \<lparr>ce_updatePendingPayments = False, ce_adjustment = noAdjustment NO_DIFFERENCE\<rparr>
      else case map_option cc_state charge of
        None \<Rightarrow> \<lparr>ce_updatePendingPayments = False, ce_adjustment = noAdjustment NO_DIFFERENCE\<rparr>
      | Some CH_NOT_GENERATED \<Rightarrow>
          \<lparr>ce_updatePendingPayments = False, ce_adjustment = noAdjustment NO_DIFFERENCE\<rparr>
      | Some CH_PENDING \<Rightarrow>
          \<lparr>ce_updatePendingPayments = True, ce_adjustment = noAdjustment PENDING_CHARGE_CAN_BE_UPDATED\<rparr>
      | Some CH_OVERDUE \<Rightarrow>
          \<lparr>ce_updatePendingPayments = True, ce_adjustment = noAdjustment OVERDUE_CHARGE_CAN_BE_UPDATED\<rparr>
      | Some CH_PAID \<Rightarrow>
          if num_less (Fin 0) delta then
            \<lparr>ce_updatePendingPayments = False,
             ce_adjustment = \<lparr>ad_type = AT_COMPLEMENT, ad_amountCents = delta,
                              ad_reason = PAID_CHARGE_IS_IMMUTABLE\<rparr>\<rparr>
          else
            \<lparr>ce_updatePendingPayments = False,
             ce_adjustment = \<lparr>ad_type = paid_decrease_type handling, ad_amountCents = num_abs delta,
                              ad_reason = PAID_CHARGE_IS_IMMUTABLE\<rparr>\<rparr>
      | Some _ \<Rightarrow>
          \<lparr>ce_updatePendingPayments = False,
           ce_adjustment = (if num_less (Fin 0) delta
             then \<lparr>ad_type = AT_COMPLEMENT, ad_amountCents = delta, ad_reason = CANCELLED_OR_REFUNDED_CHARGE\<rparr>
             else noAdjustment CANCELLED_OR_REFUNDED_CHARGE)\<rparr>)"

section \<open>engine.ts: the desired state\<close>

definition kind_text :: "allocation_kind \<Rightarrow> string" where
  "kind_text k = (case k of TUITION \<Rightarrow> ''TUITION'' | ENROLLMENT_FEE \<Rightarrow> ''ENROLLMENT_FEE''
     | MATERIAL \<Rightarrow> ''MATERIAL'' | ADJUSTMENT \<Rightarrow> ''ADJUSTMENT'')"

definition enrollment_kind :: "allocation \<Rightarrow> string" where
  "enrollment_kind al = al_matriculaId al @ '':'' @ kind_text (al_kind al)"

definition valid_interval :: "allocation \<Rightarrow> bool" where
  "valid_interval al = (case al_validFrom al of None \<Rightarrow> False
     | Some s \<Rightarrow> (case al_validUntil al of None \<Rightarrow> True | Some None \<Rightarrow> False | Some (Some e) \<Rightarrow> s < e))"

text \<open>The loop over the allocations, with its two sets.\<close>

fun check_allocations ::
    "int \<Rightarrow> string list \<Rightarrow> string list \<Rightarrow> allocation list \<Rightarrow> engine_error option" where
  "check_allocations moment ids kinds [] = None"
| "check_allocations moment ids kinds (al # als) =
     (if al_id al \<in> set ids then Some (DUPLICATE_ALLOCATION_ID, Some (al_id al))
      else if \<not> isMoneyCents (al_netAmountCents al) then Some (EE_INVALID_MONEY, Some (al_id al))
      else if \<not> valid_interval al then Some (INVALID_ALLOCATION_VALIDITY, Some (al_id al))
      else if al_recurring al \<and> isEffectiveAt al moment then
        if enrollment_kind al \<in> set kinds
        then Some (DUPLICATE_ACTIVE_ENROLLMENT_ALLOCATION, Some (al_id al))
        else check_allocations moment (al_id al # ids) (enrollment_kind al # kinds) als
      else check_allocations moment (al_id al # ids) kinds als)"

text \<open>The loop of the prorated policy.\<close>

fun prorated_target ::
    "date_value \<times> date_value \<Rightarrow> jsnum \<Rightarrow> allocation list \<Rightarrow> engine_error + jsnum" where
  "prorated_target cycle acc [] = Inr acc"
| "prorated_target cycle acc (al # als) =
     (if \<not> al_recurring al \<or> al_status al = AL_CANCELLED \<or> al_status al = AL_PAUSED
      then prorated_target cycle acc als
      else case prorateMoneyByDays (al_netAmountCents al) (fst cycle) (snd cycle)
                  (al_validFrom al) (al_validUntil al) of
        Inl e \<Rightarrow> Inl (if e = PR_INVALID_CYCLE then EE_INVALID_CYCLE else EE_INVALID_DATE, Some (al_id al))
      | Inr p \<Rightarrow> prorated_target cycle (num_add acc (pr_amountCents p)) als)"

definition current_amount :: "engine_input \<Rightarrow> jsnum" where
  "current_amount i = (case in_currentCharge i of Some c \<Rightarrow> cc_amountCents c
     | None \<Rightarrow> (case in_agreement i of Some ag \<Rightarrow> ag_confirmedAmountCents ag | None \<Rightarrow> Fin 0))"

definition current_cycle_target :: "engine_input \<Rightarrow> jsnum \<Rightarrow> engine_error + jsnum" where
  "current_cycle_target i desired = (case in_effectivePolicy i of
       NEXT_CYCLE \<Rightarrow> Inr (current_amount i)
     | MANUAL_ADJUSTMENT \<Rightarrow> Inr (current_amount i)
     | CURRENT_CYCLE_PRORATED \<Rightarrow> prorated_target (the (in_currentCycle i)) (Fin 0) (in_allocations i)
     | CURRENT_CYCLE_FULL \<Rightarrow> Inr desired)"

definition invalid_version :: "agreement_snapshot \<Rightarrow> bool" where
  "invalid_version ag \<longleftrightarrow> \<not> num_safe_integer (ag_version ag) \<or> num_less (ag_version ag) (Fin 0)"

definition active_allocations :: "engine_input \<Rightarrow> int \<Rightarrow> allocation list" where
  "active_allocations i moment = filter (\<lambda>al. al_recurring al \<and> isEffectiveAt al moment) (in_allocations i)"

definition desired_recurring :: "allocation list \<Rightarrow> jsnum" where
  "desired_recurring als = foldl (\<lambda>s al. num_add s (al_netAmountCents al)) (Fin 0) als"

definition build_desired_state ::
    "engine_input \<Rightarrow> int \<Rightarrow> int \<Rightarrow> jsnum \<Rightarrow> jsnum \<Rightarrow> desired_state" where
  "build_desired_state i calculatedAt effectiveAt desired target =
     (let validity = calculateAggregateValidity (in_allocations i) effectiveAt;
          delta = num_sub target (current_amount i)
      in \<lparr>ds_previousRecurringAmountCents =
            (case in_agreement i of Some ag \<Rightarrow> ag_desiredAmountCents ag | None \<Rightarrow> Fin 0),
          ds_desiredRecurringAmountCents = desired,
          ds_agreementValidFrom = fst validity,
          ds_agreementValidUntil = snd validity,
          ds_currentCycleTargetAmountCents = target,
          ds_currentCycleDeltaCents = delta,
          ds_subscriptionAction = decideSubscriptionAction (in_agreement i) desired
            (in_effectivePolicy i = NEXT_CYCLE \<and> calculatedAt < effectiveAt)
            (list_ex (\<lambda>al. al_recurring al \<and> al_status al = AL_PAUSED) (in_allocations i))
            (fst validity) (snd validity),
          ds_effect = decideCurrentCycleEffect (in_currentCharge i) delta (in_effectivePolicy i)
            (case in_paidDecreaseHandling i of Some h \<Rightarrow> h | None \<Rightarrow> PD_CREDIT),
          ds_activeAllocationIds = sort (map al_id (active_allocations i effectiveAt))\<rparr>)"

definition calculateBillingAgreementDesiredState :: "engine_input \<Rightarrow> engine_error + desired_state" where
  "calculateBillingAgreementDesiredState i = (case (in_calculatedAt i, in_effectiveAt i) of
     (Some calculatedAt, Some effectiveAt) \<Rightarrow>
       if (case in_agreement i of None \<Rightarrow> False | Some ag \<Rightarrow> invalid_version ag)
       then Inl (EE_INVALID_VERSION, None)
       else if (case in_agreement i of None \<Rightarrow> False | Some ag \<Rightarrow>
           \<not> isMoneyCents (ag_desiredAmountCents ag) \<or> \<not> isMoneyCents (ag_confirmedAmountCents ag))
       then Inl (EE_INVALID_MONEY, None)
       else if (case in_currentCharge i of None \<Rightarrow> False | Some c \<Rightarrow> \<not> isMoneyCents (cc_amountCents c))
       then Inl (EE_INVALID_MONEY, None)
       else if in_effectivePolicy i = CURRENT_CYCLE_PRORATED \<and> in_currentCycle i = None
       then Inl (CURRENT_CYCLE_REQUIRED, None)
       else (case check_allocations effectiveAt [] [] (in_allocations i) of
         Some e \<Rightarrow> Inl e
       | None \<Rightarrow>
          let desired = desired_recurring (active_allocations i effectiveAt)
          in if \<not> num_safe_integer desired then Inl (EE_INVALID_MONEY, None)
             else case current_cycle_target i desired of
               Inl e \<Rightarrow> Inl e
             | Inr target \<Rightarrow> Inr (build_desired_state i calculatedAt effectiveAt desired target))
   | _ \<Rightarrow> Inl (EE_INVALID_DATE, None))"

section \<open>Amounts and intervals of accepted allocations\<close>

fun cents_of :: "jsnum \<Rightarrow> int" where
  "cents_of (Fin x) = \<lfloor>x\<rfloor>"
| "cents_of _ = 0"

lemma isMoneyCents_below: "isMoneyCents v \<longleftrightarrow> (\<exists>n. v = num_int n \<and> 0 \<le> n \<and> n < 2 ^ 53)"
proof -
  have "isMoneyCents v \<longleftrightarrow> (\<exists>n. v = num_int n \<and> \<bar>n\<bar> \<le> 2 ^ 53 - 1) \<and> num_le (num_int 0) v"
    by (simp add: isMoneyCents_def num_safe_integer_iff)
  also have "\<dots> \<longleftrightarrow> (\<exists>n. v = num_int n \<and> 0 \<le> n \<and> n < 2 ^ 53)"
    by (auto simp only: num_le_int)
  finally show ?thesis .
qed

lemma isMoneyCents_cents:
  assumes "isMoneyCents v"
  shows "v = num_int (cents_of v)" "0 \<le> cents_of v" "cents_of v < 2 ^ 53"
  using assms unfolding isMoneyCents_below by auto

text \<open>The recurring allocations in force at a moment, as the engine filters them.\<close>

definition in_force :: "int \<Rightarrow> allocation \<Rightarrow> bool" where
  "in_force t al \<longleftrightarrow> al_recurring al \<and> isEffectiveAt al t"

lemma active_allocations_eq: "active_allocations i t = filter (in_force t) (in_allocations i)"
  by (simp add: active_allocations_def in_force_def [abs_def])

text \<open>The loop accepts exactly the lists without duplicates whose members are valid.\<close>

definition allocations_ok :: "int \<Rightarrow> allocation list \<Rightarrow> bool" where
  "allocations_ok t als \<longleftrightarrow> distinct (map al_id als) \<and>
     (\<forall>al \<in> set als. isMoneyCents (al_netAmountCents al) \<and> valid_interval al) \<and>
     distinct (map (\<lambda>al. (al_matriculaId al, al_kind al)) (filter (in_force t) als))"

lemma check_allocations_None:
  "check_allocations t ids kinds als = None \<longleftrightarrow>
     distinct (map al_id als) \<and> set ids \<inter> al_id ` set als = {} \<and>
     (\<forall>al \<in> set als. isMoneyCents (al_netAmountCents al) \<and> valid_interval al) \<and>
     distinct (map enrollment_kind (filter (in_force t) als)) \<and>
     set kinds \<inter> enrollment_kind ` set (filter (in_force t) als) = {}"
proof (induction als arbitrary: ids kinds)
  case (Cons al als)
  show ?case
    unfolding check_allocations.simps
    by (simp only: Cons.IH split: if_splits) (auto simp: in_force_def)
qed simp

text \<open>The text \<^verbatim>\<open>matricula:kind\<close> determines the pair, since no kind contains a colon.\<close>

lemma kind_text_no_colon: "CHR '':'' \<notin> set (kind_text k)"
  by (cases k) (simp_all add: kind_text_def)

lemma kind_text_inj: "kind_text k = kind_text k' \<longleftrightarrow> k = k'"
  by (cases k; cases k') (simp_all add: kind_text_def)

lemma split_last_separator:
  assumes "c \<notin> set ys" "c \<notin> set ys'" "xs @ c # ys = xs' @ c # ys'"
  shows "xs = xs' \<and> ys = ys'"
proof -
  have "takeWhile (\<lambda>d. d \<noteq> c) (rev (xs @ c # ys)) = rev ys"
    "takeWhile (\<lambda>d. d \<noteq> c) (rev (xs' @ c # ys')) = rev ys'"
    using assms(1,2) by (auto simp: takeWhile_append)
  then have "ys = ys'" using assms(3) by simp
  then show ?thesis using assms(3) by simp
qed

lemma enrollment_kind_inj:
  "enrollment_kind a = enrollment_kind b \<longleftrightarrow> al_matriculaId a = al_matriculaId b \<and> al_kind a = al_kind b"
proof
  assume "enrollment_kind a = enrollment_kind b"
  then have "al_matriculaId a @ CHR '':'' # kind_text (al_kind a) =
      al_matriculaId b @ CHR '':'' # kind_text (al_kind b)" by (simp add: enrollment_kind_def)
  from split_last_separator [OF kind_text_no_colon kind_text_no_colon this]
  show "al_matriculaId a = al_matriculaId b \<and> al_kind a = al_kind b" by (simp add: kind_text_inj)
qed (simp add: enrollment_kind_def)

lemma distinct_enrollment_kinds:
  "distinct (map enrollment_kind xs) \<longleftrightarrow> distinct (map (\<lambda>al. (al_matriculaId al, al_kind al)) xs)"
proof (induction xs)
  case (Cons x xs)
  have "enrollment_kind x \<in> enrollment_kind ` set xs \<longleftrightarrow>
      (al_matriculaId x, al_kind x) \<in> (\<lambda>al. (al_matriculaId al, al_kind al)) ` set xs"
    by (auto simp: image_iff enrollment_kind_inj)
  with Cons show ?case by simp
qed simp

lemma check_allocations_ok: "check_allocations t [] [] als = None \<longleftrightarrow> allocations_ok t als"
  by (auto simp: check_allocations_None allocations_ok_def distinct_enrollment_kinds)

section \<open>The recurring amount\<close>

definition total_cents :: "allocation list \<Rightarrow> int" where
  "total_cents als = sum_list (map (\<lambda>al. cents_of (al_netAmountCents al)) als)"

lemma desired_recurring_cents:
  assumes "\<forall>al \<in> set als. isMoneyCents (al_netAmountCents al)"
  shows "total_cents als < 2 ^ 53 \<Longrightarrow> desired_recurring als = num_int (total_cents als)"
    and "num_safe_integer (desired_recurring als) \<longleftrightarrow> total_cents als < 2 ^ 53"
proof -
  let ?cs = "map (\<lambda>al. cents_of (al_netAmountCents al)) als"
  have "map al_netAmountCents als = map num_int ?cs"
    unfolding map_map o_def using assms isMoneyCents_cents(1) by (intro map_cong) auto
  moreover have "desired_recurring als = foldl num_add (Fin 0) (map al_netAmountCents als)"
    by (simp add: desired_recurring_def foldl_map)
  ultimately have eq: "desired_recurring als = foldl num_add (Fin 0) (map num_int ?cs)" by (simp only:)
  have "\<forall>x \<in> set ?cs. 0 \<le> x" using assms isMoneyCents_cents(2) by auto
  from sum_money_exact_if [OF this]
  show "total_cents als < 2 ^ 53 \<Longrightarrow> desired_recurring als = num_int (total_cents als)"
    "num_safe_integer (desired_recurring als) \<longleftrightarrow> total_cents als < 2 ^ 53"
    unfolding eq total_cents_def by simp_all
qed

section \<open>Acceptance\<close>

text \<open>The inputs the engine accepts, apart from the proration of the prorated policy.\<close>

definition snapshot_ok :: "agreement_snapshot \<Rightarrow> bool" where
  "snapshot_ok ag \<longleftrightarrow> (\<exists>n. ag_version ag = num_int n \<and> 0 \<le> n \<and> n < 2 ^ 53) \<and>
     isMoneyCents (ag_desiredAmountCents ag) \<and> isMoneyCents (ag_confirmedAmountCents ag)"

definition input_ok :: "engine_input \<Rightarrow> int \<Rightarrow> int \<Rightarrow> bool" where
  "input_ok i c e \<longleftrightarrow> in_calculatedAt i = Some c \<and> in_effectiveAt i = Some e \<and>
     pred_option snapshot_ok (in_agreement i) \<and>
     pred_option (\<lambda>ch. isMoneyCents (cc_amountCents ch)) (in_currentCharge i) \<and>
     (in_effectivePolicy i = CURRENT_CYCLE_PRORATED \<longrightarrow> in_currentCycle i \<noteq> None) \<and>
     allocations_ok e (in_allocations i) \<and> total_cents (active_allocations i e) < 2 ^ 53"

lemma snapshot_ok_iff:
  "snapshot_ok ag \<longleftrightarrow> \<not> invalid_version ag \<and>
     isMoneyCents (ag_desiredAmountCents ag) \<and> isMoneyCents (ag_confirmedAmountCents ag)"
proof -
  have "\<not> invalid_version ag \<longleftrightarrow> isMoneyCents (ag_version ag)"
    by (cases "ag_version ag") (auto simp: invalid_version_def isMoneyCents_def num_le_def)
  then show ?thesis by (auto simp: snapshot_ok_def isMoneyCents_below [of "ag_version ag"])
qed

lemma engine_accepts:
  "calculateBillingAgreementDesiredState i = Inr v \<longleftrightarrow>
    (\<exists>c e target. input_ok i c e \<and>
       current_cycle_target i (num_int (total_cents (active_allocations i e))) = Inr target \<and>
       v = build_desired_state i c e (num_int (total_cents (active_allocations i e))) target)"
  (is "?L = ?R")
proof (cases "in_calculatedAt i = None \<or> in_effectiveAt i = None")
  case True
  then show ?thesis
    by (auto simp: calculateBillingAgreementDesiredState_def input_ok_def split: option.splits)
next
  case False
  then obtain c e where ce: "in_calculatedAt i = Some c" "in_effectiveAt i = Some e" by auto
  let ?act = "active_allocations i e"
  show ?thesis
  proof (cases "check_allocations e [] [] (in_allocations i)")
    case (Some err)
    then have "\<not> allocations_ok e (in_allocations i)" by (simp flip: check_allocations_ok)
    with Some ce show ?thesis
      by (simp add: calculateBillingAgreementDesiredState_def input_ok_def split: option.splits)
  next
    case None
    then have ok: "allocations_ok e (in_allocations i)" by (simp only: check_allocations_ok)
    then have "\<forall>al \<in> set ?act. isMoneyCents (al_netAmountCents al)"
      by (auto simp: allocations_ok_def active_allocations_eq)
    note D = desired_recurring_cents [OF this]
    have ag: "(case in_agreement i of None \<Rightarrow> False | Some ag \<Rightarrow> invalid_version ag) \<or>
        (case in_agreement i of None \<Rightarrow> False | Some ag \<Rightarrow>
           \<not> isMoneyCents (ag_desiredAmountCents ag) \<or> \<not> isMoneyCents (ag_confirmedAmountCents ag))
        \<longleftrightarrow> \<not> pred_option snapshot_ok (in_agreement i)"
      by (cases "in_agreement i") (auto simp: snapshot_ok_iff)
    have ch: "(case in_currentCharge i of None \<Rightarrow> False | Some c \<Rightarrow> \<not> isMoneyCents (cc_amountCents c))
        \<longleftrightarrow> \<not> pred_option (\<lambda>ch. isMoneyCents (cc_amountCents ch)) (in_currentCharge i)"
      by (cases "in_currentCharge i") auto
    show ?thesis
    proof (cases "total_cents ?act < 2 ^ 53")
      case True
      have des: "desired_recurring ?act = num_int (total_cents ?act)" using D(1) [OF True] .
      have safe: "num_safe_integer (num_int (total_cents ?act))" using D(2) True des by metis
      show ?thesis
        unfolding calculateBillingAgreementDesiredState_def ce input_ok_def
        using ok ag ch True safe None
        by (auto simp: des Let_def simp del: num_safe_integer.simps split: sum.splits if_splits)
    next
      case False
      then have "\<not> num_safe_integer (desired_recurring ?act)" using D(2) by simp
      then show ?thesis
        unfolding calculateBillingAgreementDesiredState_def ce input_ok_def
        using False None by (auto split: if_splits)
    qed
  qed
qed

text \<open>
  C3. The engine accepts exactly the well-formed inputs: outside the prorated policy it
  returns a state if and only if both dates are valid, the snapshot and the charge carry
  cents and a version, allocation ids are distinct, every allocation has cents and a
  non-empty interval, no enrolment has two allocations of one kind in force, and the
  total in force is a safe integer.
\<close>

theorem engine_accepts_exactly:
  assumes "in_effectivePolicy i \<noteq> CURRENT_CYCLE_PRORATED"
  shows "(\<exists>v. calculateBillingAgreementDesiredState i = Inr v) \<longleftrightarrow> (\<exists>c e. input_ok i c e)"
proof -
  have "\<exists>t. current_cycle_target i d = Inr t" for d
    using assms by (cases "in_effectivePolicy i") (simp_all add: current_cycle_target_def)
  then show ?thesis unfolding engine_accepts by metis
qed

text \<open>A concrete input: a persisted agreement, three allocations, two of them in force.\<close>

definition sample_allocation :: "string \<Rightarrow> allocation_kind \<Rightarrow> allocation_status \<Rightarrow> int \<Rightarrow> allocation" where
  "sample_allocation n k st cents = \<lparr>al_id = n, al_matriculaId = ''m1'', al_kind = k, al_status = st,
     al_recurring = True, al_netAmountCents = num_int cents, al_validFrom = Some 0, al_validUntil = None\<rparr>"

definition sample_input :: engine_input where
  "sample_input = \<lparr>in_calculatedAt = Some 5, in_effectiveAt = Some 10, in_effectivePolicy = CURRENT_CYCLE_FULL,
     in_agreement = Some \<lparr>ag_status = AG_ACTIVE, ag_desiredAmountCents = num_int 100,
       ag_confirmedAmountCents = num_int 100, ag_version = num_int 1, ag_remoteSubscriptionExists = True,
       ag_validFrom = DF_undefined, ag_validUntil = DF_undefined\<rparr>,
     in_allocations = [sample_allocation ''b'' TUITION AL_ACTIVE 100,
       sample_allocation ''a'' MATERIAL AL_ACTIVE 50, sample_allocation ''c'' TUITION AL_ENDED 70],
     in_currentCharge = Some \<lparr>cc_state = CH_PAID, cc_amountCents = num_int 100\<rparr>,
     in_currentCycle = None, in_paidDecreaseHandling = None\<rparr>"

lemma sample_input_ok: "input_ok sample_input 5 10"
proof -
  have m: "isMoneyCents (num_int 100)" "isMoneyCents (num_int 50)" "isMoneyCents (num_int 70)"
    by (simp_all add: isMoneyCents_def num_le_def)
  have v: "\<exists>n. num_int 1 = num_int n \<and> 0 \<le> n \<and> n < 2 ^ 53" by (rule exI [of _ 1]) simp
  show ?thesis
    using m v by (simp add: input_ok_def sample_input_def snapshot_ok_def allocations_ok_def
      sample_allocation_def in_force_def isEffectiveAt_def valid_interval_def active_allocations_def
      total_cents_def)
qed

theorem engine_accepts_exactly_witness:
  "in_effectivePolicy sample_input \<noteq> CURRENT_CYCLE_PRORATED \<and>
   (\<exists>v. calculateBillingAgreementDesiredState sample_input = Inr v)"
proof -
  have p: "in_effectivePolicy sample_input \<noteq> CURRENT_CYCLE_PRORATED" by (simp add: sample_input_def)
  show ?thesis using p engine_accepts_exactly [OF p] sample_input_ok by blast
qed

lemma sample_input_accepted:
  obtains v where "calculateBillingAgreementDesiredState sample_input = Inr v"
proof -
  have "current_cycle_target sample_input d = Inr d" for d
    by (simp add: current_cycle_target_def sample_input_def)
  then show thesis using sample_input_ok by (intro that) (simp only: engine_accepts, blast)
qed

lemma sample_input_amount:
  assumes "calculateBillingAgreementDesiredState sample_input = Inr v"
  shows "ds_desiredRecurringAmountCents v \<noteq> Fin 0"
proof -
  have "calculateBillingAgreementDesiredState sample_input =
    Inr (build_desired_state sample_input 5 10 (num_int (total_cents (active_allocations sample_input 10)))
      (num_int (total_cents (active_allocations sample_input 10))))"
    unfolding engine_accepts using sample_input_ok
    by (intro exI [of _ 5] exI [of _ 10] exI) (simp add: current_cycle_target_def sample_input_def)
  then show ?thesis
    using assms by (simp add: build_desired_state_def Let_def)
      (auto simp: active_allocations_def sample_input_def sample_allocation_def isEffectiveAt_def total_cents_def)
qed

section \<open>The aggregate window\<close>

lemma foldl_min: "foldl min (x::int) xs = Min (insert x (set xs))"
proof -
  have "(\<lambda>a b. min b a) = (min :: int \<Rightarrow> int \<Rightarrow> int)" by (simp add: fun_eq_iff min.commute)
  then show ?thesis using Min.set_eq_fold [of x xs] by (simp add: foldl_conv_fold)
qed

lemma foldl_max: "foldl max (x::int) xs = Max (insert x (set xs))"
proof -
  have "(\<lambda>a b. max b a) = (max :: int \<Rightarrow> int \<Rightarrow> int)" by (simp add: fun_eq_iff max.commute)
  then show ?thesis using Max.set_eq_fold [of x xs] by (simp add: foldl_conv_fold)
qed

lemma math_min_Min: "xs \<noteq> [] \<Longrightarrow> math_min xs = Min (set xs)"
  by (cases xs) (simp_all add: math_min_def foldl_min)

lemma math_max_Max: "xs \<noteq> [] \<Longrightarrow> math_max xs = Max (set xs)"
  by (cases xs) (simp_all add: math_max_def foldl_max)

text \<open>The least window that contains the intervals of a list of allocations.\<close>

definition tight_window :: "allocation list \<Rightarrow> int option \<Rightarrow> int option \<Rightarrow> bool" where
  "tight_window als from until \<longleftrightarrow>
     (if als = [] then from = None \<and> until = None
      else (\<exists>s. from = Some s \<and> (\<exists>al \<in> set als. al_validFrom al = Some s) \<and>
              (\<forall>al \<in> set als. \<exists>t. al_validFrom al = Some t \<and> s \<le> t)) \<and>
           (case until of
              None \<Rightarrow> \<exists>al \<in> set als. al_validUntil al = None
            | Some u \<Rightarrow> (\<exists>al \<in> set als. al_validUntil al = Some (Some u)) \<and>
                (\<forall>al \<in> set als. \<exists>t. al_validUntil al = Some (Some t) \<and> t \<le> u)))"

abbreviation participants :: "int \<Rightarrow> allocation list \<Rightarrow> allocation list" where
  "participants t als \<equiv> filter (\<lambda>al. participatesInAggregateValidity al t) als"

lemma valid_interval_from: "valid_interval al \<Longrightarrow> al_validFrom al = Some (the (al_validFrom al))"
  by (cases "al_validFrom al") (simp_all add: valid_interval_def)

lemma valid_interval_until:
  "valid_interval al \<Longrightarrow> al_validUntil al \<noteq> None \<Longrightarrow> al_validUntil al = Some (Some (the (the (al_validUntil al))))"
  by (auto simp: valid_interval_def split: option.splits)

lemma calculateAggregateValidity_tight:
  assumes "\<forall>al \<in> set als. valid_interval al"
  shows "tight_window (participants t als) (fst (calculateAggregateValidity als t))
           (snd (calculateAggregateValidity als t))"
proof (cases "participants t als = []")
  case True
  then show ?thesis by (simp add: calculateAggregateValidity_def tight_window_def Let_def)
next
  case False
  let ?P = "participants t als"
  let ?F = "(\<lambda>al. the (al_validFrom al)) ` set ?P"
  let ?U = "(\<lambda>al. the (the (al_validUntil al))) ` set ?P"
  have val: "\<forall>al \<in> set ?P. valid_interval al" using assms by simp
  have F: "finite ?F" "?F \<noteq> {}" and U: "finite ?U" "?U \<noteq> {}"
    using False by (simp_all only: finite_imageI finite_set image_is_empty set_empty not_False_eq_True)
  have lower: "fst (calculateAggregateValidity als t) = Some (Min ?F)"
    using False by (simp add: calculateAggregateValidity_def Let_def math_min_Min)
  have upper: "snd (calculateAggregateValidity als t) =
      (if \<exists>al \<in> set ?P. al_validUntil al = None then None else Some (Max ?U))"
    using False unfolding calculateAggregateValidity_def Let_def
    by (cases "\<exists>al \<in> set ?P. al_validUntil al = None") (auto simp: math_max_Max list_ex_iff)
  have s: "(\<exists>al \<in> set ?P. al_validFrom al = Some (Min ?F)) \<and>
      (\<forall>al \<in> set ?P. \<exists>t. al_validFrom al = Some t \<and> Min ?F \<le> t)"
  proof
    obtain al where "al \<in> set ?P" "Min ?F = the (al_validFrom al)" using Min_in [OF F] by auto
    then show "\<exists>al \<in> set ?P. al_validFrom al = Some (Min ?F)" using val valid_interval_from by metis
    show "\<forall>al \<in> set ?P. \<exists>t. al_validFrom al = Some t \<and> Min ?F \<le> t"
      using val valid_interval_from Min_le [OF F(1)] by blast
  qed
  have u: "(\<exists>al \<in> set ?P. al_validUntil al = Some (Some (Max ?U))) \<and>
      (\<forall>al \<in> set ?P. \<exists>t. al_validUntil al = Some (Some t) \<and> t \<le> Max ?U)"
    if "\<not> (\<exists>al \<in> set ?P. al_validUntil al = None)"
  proof
    obtain al where "al \<in> set ?P" "Max ?U = the (the (al_validUntil al))" using Max_in [OF U] by auto
    then show "\<exists>al \<in> set ?P. al_validUntil al = Some (Some (Max ?U))"
      using val valid_interval_until that by metis
    show "\<forall>al \<in> set ?P. \<exists>t. al_validUntil al = Some (Some t) \<and> t \<le> Max ?U"
      using val valid_interval_until Max_ge [OF U(1)] that by blast
  qed
  show ?thesis
    unfolding tight_window_def lower upper using False s u by (simp split: option.splits)
qed

lemma in_force_participates: "in_force t al \<Longrightarrow> participatesInAggregateValidity al t"
  by (auto simp: in_force_def isEffectiveAt_def participatesInAggregateValidity_def Let_def split: if_splits)

lemma in_force_interval:
  "in_force t al \<Longrightarrow> valid_interval al \<Longrightarrow> \<exists>s. al_validFrom al = Some s \<and> s \<le> t \<and>
     (\<forall>u. al_validUntil al = Some (Some u) \<longrightarrow> t < u)"
  by (auto simp: in_force_def isEffectiveAt_def Let_def valid_interval_def split: if_splits option.splits)

section \<open>What an accepted input yields\<close>

lemma engine_acceptsE:
  assumes "calculateBillingAgreementDesiredState i = Inr v"
  obtains c e target where "input_ok i c e"
    "current_cycle_target i (num_int (total_cents (active_allocations i e))) = Inr target"
    "v = build_desired_state i c e (num_int (total_cents (active_allocations i e))) target"
  using assms unfolding engine_accepts by blast

text \<open>
  C4. The recurring part of the state: the amount is the exact sum of the allocations in
  force at the effective date, their ids are reported in order, each once, and the
  window of the remote subscription is the least one around every allocation that is not
  over; while some allocation is in force, the window contains the effective date.
\<close>

theorem engine_recurring_state:
  assumes "calculateBillingAgreementDesiredState i = Inr v"
  shows "\<exists>e. in_effectiveAt i = Some e \<and>
    ds_desiredRecurringAmountCents v = num_int (total_cents (filter (in_force e) (in_allocations i))) \<and>
    sorted (ds_activeAllocationIds v) \<and> distinct (ds_activeAllocationIds v) \<and>
    set (ds_activeAllocationIds v) = al_id ` {al \<in> set (in_allocations i). in_force e al} \<and>
    tight_window (participants e (in_allocations i)) (ds_agreementValidFrom v) (ds_agreementValidUntil v) \<and>
    ((\<exists>al \<in> set (in_allocations i). in_force e al) \<longrightarrow>
       (\<exists>s. ds_agreementValidFrom v = Some s \<and> s \<le> e) \<and>
       (\<forall>u. ds_agreementValidUntil v = Some u \<longrightarrow> e < u))"
proof -
  from assms obtain c e target where ok: "input_ok i c e"
    and v: "v = build_desired_state i c e (num_int (total_cents (active_allocations i e))) target"
    by (rule engine_acceptsE)
  let ?als = "in_allocations i"
  have val: "\<forall>al \<in> set ?als. valid_interval al" and dist: "distinct (map al_id ?als)"
    using ok by (auto simp: input_ok_def allocations_ok_def)
  note W = calculateAggregateValidity_tight [OF val, of e]
  have "distinct (map al_id (filter (in_force e) ?als))" using dist by (rule distinct_map_filter)
  moreover have "(\<exists>s. fst (calculateAggregateValidity ?als e) = Some s \<and> s \<le> e) \<and>
      (\<forall>u. snd (calculateAggregateValidity ?als e) = Some u \<longrightarrow> e < u)"
    if al: "al \<in> set ?als" "in_force e al" for al
  proof -
    have mem: "al \<in> set (participants e ?als)" using al in_force_participates by simp
    then have "participants e ?als \<noteq> []" by (metis empty_iff list.set(1))
    moreover obtain s where "al_validFrom al = Some s" "s \<le> e"
      "\<forall>u. al_validUntil al = Some (Some u) \<longrightarrow> e < u"
      using in_force_interval [OF al(2)] val al(1) by blast
    ultimately show ?thesis using W mem unfolding tight_window_def by (fastforce split: option.splits)
  qed
  ultimately show ?thesis
    using ok W v
    by (intro exI [of _ e]) (auto simp: input_ok_def build_desired_state_def Let_def active_allocations_eq)
qed

theorem engine_recurring_state_witness:
  "\<exists>v. calculateBillingAgreementDesiredState sample_input = Inr v \<and>
    ds_desiredRecurringAmountCents v = num_int 150 \<and> set (ds_activeAllocationIds v) = {''a'', ''b''}"
proof -
  obtain v where v: "calculateBillingAgreementDesiredState sample_input = Inr v"
    by (rule sample_input_accepted)
  from engine_recurring_state [OF v] obtain e where e: "in_effectiveAt sample_input = Some e"
    "ds_desiredRecurringAmountCents v = num_int (total_cents (filter (in_force e) (in_allocations sample_input)))"
    "set (ds_activeAllocationIds v) = al_id ` {al \<in> set (in_allocations sample_input). in_force e al}"
    by blast
  have e10: "e = 10" using e(1) by (simp add: sample_input_def)
  have "filter (in_force 10) (in_allocations sample_input) =
      [sample_allocation ''b'' TUITION AL_ACTIVE 100, sample_allocation ''a'' MATERIAL AL_ACTIVE 50]"
    by (simp add: sample_input_def sample_allocation_def in_force_def isEffectiveAt_def)
  moreover from arg_cong [OF this, of set]
  have "{al \<in> set (in_allocations sample_input). in_force 10 al} =
      {sample_allocation ''b'' TUITION AL_ACTIVE 100, sample_allocation ''a'' MATERIAL AL_ACTIVE 50}"
    by (simp add: insert_commute)
  ultimately show ?thesis
    using v e unfolding e10 by (auto simp: total_cents_def sample_allocation_def)
qed

section \<open>Independence of the order of the allocations\<close>

lemma sort_mset_cong: "mset xs = mset ys \<Longrightarrow> sort xs = sort (ys :: string list)"
  by (rule properties_for_sort) simp_all

lemma calculateAggregateValidity_mset:
  assumes "mset als = mset als'"
  shows "calculateAggregateValidity als t = calculateAggregateValidity als' t"
proof -
  have m: "mset (participants t als) = mset (participants t als')" using assms by simp
  then have set: "set (participants t als) = set (participants t als')" by (rule mset_eq_setD)
  have "participants t als = [] \<longleftrightarrow> participants t als' = []" using m by (metis mset_zero_iff)
  then show ?thesis
    unfolding calculateAggregateValidity_def Let_def
    by (cases "\<exists>al \<in> set (participants t als'). al_validUntil al = None")
      (auto simp add: math_min_Min math_max_Max list_ex_iff set simp del: set_filter)
qed

lemma allocations_ok_mset: "mset als = mset als' \<Longrightarrow> allocations_ok t als \<longleftrightarrow> allocations_ok t als'"
proof -
  assume m: "mset als = mset als'"
  have "distinct (map al_id als) \<longleftrightarrow> distinct (map al_id als')"
    by (rule mset_eq_imp_distinct_iff) (simp add: m)
  moreover have "distinct (map (\<lambda>al. (al_matriculaId al, al_kind al)) (filter (in_force t) als)) \<longleftrightarrow>
      distinct (map (\<lambda>al. (al_matriculaId al, al_kind al)) (filter (in_force t) als'))"
    by (rule mset_eq_imp_distinct_iff) (simp add: m)
  ultimately show ?thesis by (simp add: allocations_ok_def mset_eq_setD [OF m])
qed

lemma total_cents_mset: "mset als = mset als' \<Longrightarrow> total_cents als = total_cents als'"
  by (metis total_cents_def mset_map sum_mset_sum_list)

text \<open>
  The prorated policy charges every recurring allocation that is neither cancelled nor
  paused for its days of the cycle. Its dates and amounts are in range when the civil days
  are the days of the time values and the amounts over the whole cycle stay safe.
\<close>

definition billable :: "allocation \<Rightarrow> bool" where
  "billable al \<longleftrightarrow> al_recurring al \<and> al_status al \<noteq> AL_CANCELLED \<and> al_status al \<noteq> AL_PAUSED"

definition prorates_exactly :: "engine_input \<Rightarrow> bool" where
  "prorates_exactly i \<longleftrightarrow> (case in_currentCycle i of
       Some (Some s, Some e) \<Rightarrow> full_year s \<and> full_year e \<and> day_of e - day_of s \<le> 2 ^ 50 \<and>
         (\<forall>al \<in> set (in_allocations i). pred_option full_year (al_validFrom al) \<and>
            pred_option (pred_option full_year) (al_validUntil al)) \<and>
         total_cents (filter billable (in_allocations i)) * (day_of e - day_of s) < 2 ^ 53
     | _ \<Rightarrow> False)"

definition share_of :: "date_value \<times> date_value \<Rightarrow> allocation \<Rightarrow> prorate_error + prorated" where
  "share_of cycle al = prorateMoneyByDays (al_netAmountCents al) (fst cycle) (snd cycle)
     (al_validFrom al) (al_validUntil al)"

definition share_cents :: "date_value \<times> date_value \<Rightarrow> allocation \<Rightarrow> int" where
  "share_cents cycle al = cents_of (pr_amountCents (projr (share_of cycle al)))"

lemma prorated_target_Inr:
  "prorated_target cycle acc als = Inr t \<longleftrightarrow>
     (\<forall>al \<in> set (filter billable als). \<not> isl (share_of cycle al)) \<and>
     t = foldl num_add acc (map (\<lambda>al. pr_amountCents (projr (share_of cycle al))) (filter billable als))"
  by (induction als arbitrary: acc) (auto simp: share_of_def billable_def split: sum.splits)

lemma prorate_accepted:
  assumes "isMoneyCents a" "prorateMoneyByDays a (Some s) (Some e) (Some f) (map_option Some u) = Inr p"
    "full_year s" "full_year e" "full_year f" "pred_option full_year u"
    "day_of e - day_of s \<le> 2 ^ 50" "cents_of a * (day_of e - day_of s) < 2 ^ 53"
  shows "day_of s < day_of e \<and>
    (\<exists>m. pr_amountCents p = num_int m \<and> 0 \<le> m \<and> m \<le> cents_of a)"
proof -
  have civil: "full_year t \<Longrightarrow> toUtcCivilDay (Some t) = Some (day_of t * ms_per_day)" for t
    unfolding full_year_def by (rule toUtcCivilDay_eq)
  have D: "0 < ms_per_day" by (simp add: ms_per_day_def)
  have se: "day_of s < day_of e" and fu: "\<forall>x. u = Some x \<longrightarrow> day_of f < day_of x"
    using assms(2-6) D
    by (cases u; force simp: prorateMoneyByDays_def civil not_le split: if_splits)+
  note a = isMoneyCents_cents [OF assms(1)]
  let ?k = "active_days (day_of s) (day_of e) (day_of f) (map_option day_of u)"
  have k: "0 \<le> ?k" "?k \<le> day_of e - day_of s" using se by (auto simp: active_days_def)
  have "pr_amountCents p = num_int (prorated_cents (cents_of a) ?k (day_of e - day_of s))"
    using prorate_full_years [OF assms(3-6) se assms(7) fu a(2) assms(8)] assms(2)
    by (simp flip: a(1))
  with se show ?thesis using prorated_cents_bounds [OF a(2) k] by (intro conjI exI) simp_all
qed

lemma cents_le_total:
  assumes "\<forall>al \<in> set als. 0 \<le> cents_of (al_netAmountCents al)" "al \<in> set als"
  shows "cents_of (al_netAmountCents al) \<le> total_cents als"
  unfolding total_cents_def using assms by (intro member_le_sum_list) auto

lemma share_exact:
  assumes "prorates_exactly i" "in_currentCycle i = Some cycle"
    "\<forall>al \<in> set (in_allocations i). isMoneyCents (al_netAmountCents al) \<and> valid_interval al"
    "al \<in> set (filter billable (in_allocations i))" "\<not> isl (share_of cycle al)"
  shows "pr_amountCents (projr (share_of cycle al)) = num_int (share_cents cycle al) \<and>
    0 \<le> share_cents cycle al \<and> share_cents cycle al \<le> cents_of (al_netAmountCents al) \<and>
    total_cents (filter billable (in_allocations i)) < 2 ^ 53"
proof -
  let ?T = "total_cents (filter billable (in_allocations i))"
  obtain s e where cyc: "cycle = (Some s, Some e)" and r: "full_year s" "full_year e"
    "day_of e - day_of s \<le> 2 ^ 50" "?T * (day_of e - day_of s) < 2 ^ 53"
    using assms(1,2) by (auto simp: prorates_exactly_def split: prod.splits option.splits)
  have al: "al \<in> set (in_allocations i)" using assms(4) by simp
  then have money: "isMoneyCents (al_netAmountCents al)" and val: "valid_interval al"
    using assms(3) by auto
  have years: "pred_option full_year (al_validFrom al)" "pred_option (pred_option full_year) (al_validUntil al)"
    using assms(1,2) al by (auto simp: prorates_exactly_def cyc)
  obtain f where f: "al_validFrom al = Some f" "full_year f"
    using years(1) valid_interval_from [OF val] by (cases "al_validFrom al") auto
  obtain u where u: "al_validUntil al = map_option Some u" "pred_option full_year u"
  proof (cases "al_validUntil al")
    case None
    then show ?thesis using that [of None] by simp
  next
    case (Some d)
    then obtain x where x: "al_validUntil al = Some (Some x)" using valid_interval_until [OF val] by auto
    then have "full_year x" using years(2) by simp
    then show ?thesis using that [of "Some x"] x by simp
  qed
  obtain p where p: "share_of cycle al = Inr p" using assms(5) by (cases "share_of cycle al") auto
  have nn: "\<forall>al \<in> set (filter billable (in_allocations i)). 0 \<le> cents_of (al_netAmountCents al)"
    using assms(3) isMoneyCents_cents(2) by auto
  have le: "cents_of (al_netAmountCents al) \<le> ?T" using cents_le_total [OF nn assms(4)] .
  have p': "prorateMoneyByDays (al_netAmountCents al) (Some s) (Some e) (Some f) (map_option Some u) = Inr p"
    using p by (simp add: share_of_def cyc f(1) u(1))
  have c: "cents_of (al_netAmountCents al) * (day_of e - day_of s) < 2 ^ 53"
  proof (cases "0 \<le> day_of e - day_of s")
    case True
    then have "cents_of (al_netAmountCents al) * (day_of e - day_of s) \<le> ?T * (day_of e - day_of s)"
      using le by (intro mult_right_mono)
    then show ?thesis using r(4) by linarith
  next
    case False
    then have "cents_of (al_netAmountCents al) * (day_of e - day_of s) \<le> 0"
      using isMoneyCents_cents(2) [OF money] by (simp add: mult_nonneg_nonpos)
    then show ?thesis by (rule le_less_trans) simp
  qed
  from prorate_accepted [OF money p' r(1,2) f(2) u(2) r(3) c]
  obtain m where m: "day_of s < day_of e" "pr_amountCents p = num_int m" "0 \<le> m"
    "m \<le> cents_of (al_netAmountCents al)" by blast
  have "0 \<le> ?T" using le isMoneyCents_cents(2) [OF money] by linarith
  then have "?T * 1 \<le> ?T * (day_of e - day_of s)" using m(1) by (intro mult_left_mono) auto
  then have "?T < 2 ^ 53" using r(4) by linarith
  with m show ?thesis by (simp add: share_cents_def p)
qed

lemma prorated_target_exact:
  assumes "prorates_exactly i" "in_currentCycle i = Some cycle"
    "\<forall>al \<in> set (in_allocations i). isMoneyCents (al_netAmountCents al) \<and> valid_interval al"
    "prorated_target cycle (Fin 0) (in_allocations i) = Inr t" "mset als = mset (in_allocations i)"
  shows "prorated_target cycle (Fin 0) als = Inr t \<and> isMoneyCents t"
proof -
  let ?B = "filter billable (in_allocations i)" and ?B' = "filter billable als"
  have S: "set ?B' = set ?B" using mset_eq_setD [OF assms(5)] by simp
  have ok: "\<forall>al \<in> set ?B. \<not> isl (share_of cycle al)"
    and t: "t = foldl num_add (Fin 0) (map (\<lambda>al. pr_amountCents (projr (share_of cycle al))) ?B)"
    using assms(4) unfolding prorated_target_Inr by auto
  note E = share_exact [OF assms(1-3)]
  have exact: "\<forall>al \<in> set ?B. pr_amountCents (projr (share_of cycle al)) = num_int (share_cents cycle al)"
    and nn: "\<forall>al \<in> set ?B. 0 \<le> share_cents cycle al"
    and le: "\<forall>al \<in> set ?B. share_cents cycle al \<le> cents_of (al_netAmountCents al)"
    using E ok by blast+
  have sum: "sum_list (map (share_cents cycle) ?B') = sum_list (map (share_cents cycle) ?B)"
    using assms(5) by (metis mset_filter mset_map sum_mset_sum_list)
  have small: "sum_list (map (share_cents cycle) ?B) < 2 ^ 53"
  proof (cases "?B = []")
    case False
    then obtain al where "al \<in> set ?B" by (metis list.set_intros(1) neq_Nil_conv)
    then have "total_cents ?B < 2 ^ 53" using E ok by blast
    moreover have "sum_list (map (share_cents cycle) ?B) \<le> total_cents ?B"
      unfolding total_cents_def using le by (intro sum_list_mono) auto
    ultimately show ?thesis by linarith
  qed simp
  have fold: "foldl num_add (Fin 0) (map (\<lambda>al. pr_amountCents (projr (share_of cycle al))) xs) =
      num_int (sum_list (map (share_cents cycle) xs))"
    if "set xs = set ?B" "sum_list (map (share_cents cycle) xs) < 2 ^ 53" for xs
  proof -
    have "map (\<lambda>al. pr_amountCents (projr (share_of cycle al))) xs = map num_int (map (share_cents cycle) xs)"
      using exact that(1) by auto
    then show ?thesis
      using sum_money_exact_if(1) [of "map (share_cents cycle) xs"] nn that by (simp only:) simp
  qed
  have "prorated_target cycle (Fin 0) als = Inr t"
    unfolding prorated_target_Inr S t using ok fold [of ?B'] fold [of ?B] S small sum by simp
  moreover have "0 \<le> sum_list (map (share_cents cycle) ?B)" using nn by (intro sum_list_nonneg) auto
  then have "isMoneyCents t"
    using small unfolding t fold [OF refl small] isMoneyCents_below by blast
  ultimately show ?thesis ..
qed

text \<open>
  C5. The order in which the allocations are stored does not matter: any permutation of
  them is accepted too and yields the same state, field by field, under every policy; for
  the prorated one the dates and amounts have to be in the range where the shares are exact.
\<close>

theorem engine_order_independent:
  assumes "calculateBillingAgreementDesiredState i = Inr v"
    "in_effectivePolicy i = CURRENT_CYCLE_PRORATED \<longrightarrow> prorates_exactly i"
    "mset als = mset (in_allocations i)"
  shows "calculateBillingAgreementDesiredState (i\<lparr>in_allocations := als\<rparr>) = Inr v"
proof -
  let ?j = "i\<lparr>in_allocations := als\<rparr>"
  from assms(1) obtain c e target where ok: "input_ok i c e"
    and target: "current_cycle_target i (num_int (total_cents (active_allocations i e))) = Inr target"
    and v: "v = build_desired_state i c e (num_int (total_cents (active_allocations i e))) target"
    by (rule engine_acceptsE)
  have act: "mset (active_allocations ?j e) = mset (active_allocations i e)"
    using assms(3) by (simp add: active_allocations_eq)
  have tot: "total_cents (active_allocations ?j e) = total_cents (active_allocations i e)"
    by (rule total_cents_mset [OF act])
  have "sort (map al_id (active_allocations ?j e)) = sort (map al_id (active_allocations i e))"
    by (rule sort_mset_cong) (simp add: act)
  moreover have "list_ex P als = list_ex P (in_allocations i)" for P
    using mset_eq_setD [OF assms(3)] by (simp add: list_ex_iff)
  moreover have cur: "current_amount ?j = current_amount i"
    by (simp add: current_amount_def split: option.split)
  ultimately have "build_desired_state ?j c e d target = build_desired_state i c e d target" for d
    unfolding build_desired_state_def Let_def cur
    by (simp add: calculateAggregateValidity_mset [OF assms(3), of e])
  moreover have "input_ok ?j c e"
    using ok tot allocations_ok_mset [OF assms(3)] by (simp add: input_ok_def)
  moreover have "current_cycle_target ?j (num_int (total_cents (active_allocations i e))) = Inr target"
  proof (cases "in_effectivePolicy i = CURRENT_CYCLE_PRORATED")
    case True
    then obtain cycle where cycle: "in_currentCycle i = Some cycle" using ok by (auto simp: input_ok_def)
    have "\<forall>al \<in> set (in_allocations i). isMoneyCents (al_netAmountCents al) \<and> valid_interval al"
      using ok by (simp add: input_ok_def allocations_ok_def)
    from prorated_target_exact [OF _ cycle this _ assms(3)] show ?thesis
      using True assms(2) target by (simp add: current_cycle_target_def cycle)
  next
    case False
    then show ?thesis
      using target by (cases "in_effectivePolicy i") (simp_all add: current_cycle_target_def cur)
  qed
  ultimately show ?thesis
    unfolding engine_accepts using v by (intro exI [of _ c] exI [of _ e] exI [of _ target]) (simp add: tot)
qed

text \<open>The sample under the prorated policy, for a cycle of thirty days.\<close>

definition sample_prorated :: engine_input where
  "sample_prorated = sample_input\<lparr>in_effectivePolicy := CURRENT_CYCLE_PRORATED,
     in_currentCycle := Some (Some 0, Some 2592000000)\<rparr>"

lemma sample_prorates_exactly: "prorates_exactly sample_prorated"
proof -
  have "full_year 0" "full_year 2592000000" "day_of 0 = 0" "day_of 2592000000 = 30" by code_simp+
  then show ?thesis
    by (simp add: prorates_exactly_def sample_prorated_def sample_input_def sample_allocation_def
        billable_def total_cents_def)
qed

lemma sample_prorated_accepted:
  obtains v where "calculateBillingAgreementDesiredState sample_prorated = Inr v"
proof -
  have f: "full_year 0" "full_year 2592000000" and d: "day_of 0 = 0" "day_of 2592000000 = 30"
    by code_simp+
  have "\<exists>p. prorateMoneyByDays (num_int a) (Some 0) (Some 2592000000) (Some 0) None = Inr p"
    if "a \<in> {50, 70, 100}" for a
    using prorate_full_years [of 0 2592000000 0 None a] f d that by auto
  then have p: "\<exists>p. share_of (Some 0, Some 2592000000) al = Inr p"
    if "al \<in> set (in_allocations sample_prorated)" for al
    using that by (auto simp: share_of_def sample_prorated_def sample_input_def sample_allocation_def
        simp del: of_int_numeral)
  have "\<not> isl (share_of (Some 0, Some 2592000000) al)" if "al \<in> set (in_allocations sample_prorated)" for al
    using p [OF that] by (metis sum.disc(2))
  then have "\<exists>t. prorated_target (Some 0, Some 2592000000) (Fin 0) (in_allocations sample_prorated) = Inr t"
    unfolding prorated_target_Inr by simp
  moreover have "in_effectivePolicy sample_prorated = CURRENT_CYCLE_PRORATED"
    "in_currentCycle sample_prorated = Some (Some 0, Some 2592000000)"
    by (simp_all add: sample_prorated_def)
  ultimately have "\<exists>t. current_cycle_target sample_prorated d = Inr t" for d
    by (simp add: current_cycle_target_def)
  moreover have "input_ok sample_prorated 5 10"
    using sample_input_ok by (simp add: input_ok_def sample_prorated_def active_allocations_def)
  ultimately show thesis using engine_accepts [of sample_prorated] that by metis
qed

theorem engine_order_independent_witness:
  "\<exists>v. calculateBillingAgreementDesiredState sample_prorated = Inr v \<and>
    calculateBillingAgreementDesiredState
      (sample_prorated\<lparr>in_allocations := rev (in_allocations sample_prorated)\<rparr>) = Inr v"
proof -
  obtain v where v: "calculateBillingAgreementDesiredState sample_prorated = Inr v"
    by (rule sample_prorated_accepted)
  from engine_order_independent [OF v, of "rev (in_allocations sample_prorated)"] v
  show ?thesis by (simp add: sample_prorates_exactly)
qed

section \<open>The action on the subscription\<close>

lemma num_int_0_iff [simp]: "num_int n = Fin 0 \<longleftrightarrow> n = 0"
  by simp

definition scheduled :: "subscription_action \<Rightarrow> bool" where
  "scheduled a \<longleftrightarrow> a \<in> {SCHEDULE_UPDATE, SCHEDULE_PAUSE, SCHEDULE_RESUME, SCHEDULE_CANCEL}"

definition ends_billing :: "subscription_action \<Rightarrow> bool" where
  "ends_billing a \<longleftrightarrow> a \<in> {SA_PAUSE, SA_CANCEL, SCHEDULE_PAUSE, SCHEDULE_CANCEL}"

definition remote_subscription :: "agreement_snapshot option \<Rightarrow> bool" where
  "remote_subscription a \<longleftrightarrow> (\<exists>ag. a = Some ag \<and> ag_remoteSubscriptionExists ag)"

definition has_paused :: "engine_input \<Rightarrow> bool" where
  "has_paused i \<longleftrightarrow> (\<exists>al \<in> set (in_allocations i). al_recurring al \<and> al_status al = AL_PAUSED)"

lemmas subscription_defs = decideSubscriptionAction_def scheduled_def ends_billing_def remote_subscription_def

lemma decide_scheduled:
  "scheduled (decideSubscriptionAction a d future paused f u) \<Longrightarrow> future"
  by (auto simp: subscription_defs Let_def split: option.splits if_splits)

lemma decide_ends_billing:
  "ends_billing (decideSubscriptionAction a d future paused f u) \<Longrightarrow> remote_subscription a \<and> d = Fin 0"
  by (auto simp: subscription_defs Let_def split: option.splits if_splits)

lemma decide_create:
  "decideSubscriptionAction a d future paused f u = SA_CREATE \<Longrightarrow> \<not> remote_subscription a \<and> d \<noteq> Fin 0"
  by (auto simp: subscription_defs Let_def split: option.splits if_splits)

lemma decide_no_remote:
  "\<not> remote_subscription a \<Longrightarrow> d \<noteq> Fin 0 \<Longrightarrow> decideSubscriptionAction a d future paused f u \<noteq> SA_NONE"
  by (auto simp: subscription_defs Let_def split: option.splits if_splits)

lemma decide_zero:
  "remote_subscription a \<Longrightarrow> d = Fin 0 \<Longrightarrow>
     ends_billing (decideSubscriptionAction a d future paused f u) \<or>
     paused \<and> (\<exists>ag. a = Some ag \<and> ag_status ag = AG_INACTIVE)"
  by (auto simp: subscription_defs Let_def split: option.splits if_splits)

lemma decide_cancel_paused:
  "paused \<Longrightarrow> decideSubscriptionAction a d future paused f u \<notin> {SA_CANCEL, SCHEDULE_CANCEL}"
  by (auto simp: subscription_defs Let_def split: option.splits if_splits)

text \<open>
  C6. The action on the subscription follows the amount: billing is ended (paused or
  cancelled) only where a remote subscription exists and nothing is due, and then always,
  unless it is paused already; a subscription is created only where none exists and
  something is due; paused enrolments are never cancelled; and an action is scheduled
  only for the next cycle of a future date.
\<close>

theorem engine_subscription_action:
  assumes "calculateBillingAgreementDesiredState i = Inr v"
  defines "a \<equiv> ds_subscriptionAction v" and "due \<equiv> ds_desiredRecurringAmountCents v \<noteq> Fin 0"
  shows "(ends_billing a \<longrightarrow> remote_subscription (in_agreement i) \<and> \<not> due) \<and>
    (remote_subscription (in_agreement i) \<and> \<not> due \<longrightarrow> ends_billing a \<or>
       has_paused i \<and> (\<exists>ag. in_agreement i = Some ag \<and> ag_status ag = AG_INACTIVE)) \<and>
    (a = SA_CREATE \<longrightarrow> \<not> remote_subscription (in_agreement i) \<and> due) \<and>
    (\<not> remote_subscription (in_agreement i) \<and> due \<longrightarrow> a \<noteq> SA_NONE) \<and>
    (has_paused i \<longrightarrow> a \<notin> {SA_CANCEL, SCHEDULE_CANCEL}) \<and>
    (scheduled a \<longrightarrow> in_effectivePolicy i = NEXT_CYCLE \<and>
       (\<exists>c e. in_calculatedAt i = Some c \<and> in_effectiveAt i = Some e \<and> c < e))"
proof -
  from assms(1) obtain c e target where ok: "input_ok i c e"
    and v: "v = build_desired_state i c e (num_int (total_cents (active_allocations i e))) target"
    by (rule engine_acceptsE)
  define d where "d = ds_desiredRecurringAmountCents v"
  define future where "future \<longleftrightarrow> in_effectivePolicy i = NEXT_CYCLE \<and> c < e"
  obtain f u where a: "a = decideSubscriptionAction (in_agreement i) d future (has_paused i) f u"
    by (simp add: a_def v d_def has_paused_def future_def build_desired_state_def Let_def list_ex_iff)
  have due: "due \<longleftrightarrow> d \<noteq> Fin 0" by (simp add: due_def d_def)
  have "future \<longrightarrow> in_effectivePolicy i = NEXT_CYCLE \<and>
      (\<exists>c e. in_calculatedAt i = Some c \<and> in_effectiveAt i = Some e \<and> c < e)"
    using ok by (auto simp: future_def input_ok_def)
  then show ?thesis
    using decide_ends_billing [of "in_agreement i" d future "has_paused i" f u]
      decide_zero [of "in_agreement i" d future "has_paused i" f u]
      decide_create [of "in_agreement i" d future "has_paused i" f u]
      decide_no_remote [of "in_agreement i" d future "has_paused i" f u]
      decide_cancel_paused [of "has_paused i" "in_agreement i" d future f u]
      decide_scheduled [of "in_agreement i" d future "has_paused i" f u]
    unfolding due a [symmetric] by blast
qed

theorem engine_subscription_action_witness:
  "\<exists>v. calculateBillingAgreementDesiredState sample_input = Inr v \<and>
    \<not> ends_billing (ds_subscriptionAction v) \<and> \<not> scheduled (ds_subscriptionAction v)"
proof -
  obtain v where v: "calculateBillingAgreementDesiredState sample_input = Inr v"
    by (rule sample_input_accepted)
  have "in_effectivePolicy sample_input = CURRENT_CYCLE_FULL" by (simp add: sample_input_def)
  moreover have "ds_desiredRecurringAmountCents v \<noteq> Fin 0" using v by (rule sample_input_amount)
  ultimately show ?thesis using v engine_subscription_action [OF v] by auto
qed

section \<open>The effect on the current cycle\<close>

definition charge_in :: "charge_state set \<Rightarrow> current_charge option \<Rightarrow> bool" where
  "charge_in S c \<longleftrightarrow> (\<exists>x. c = Some x \<and> cc_state x \<in> S)"

lemmas effect_defs = decideCurrentCycleEffect_def noAdjustment_def charge_in_def

lemma num_less_asym: "num_less (Fin 0) d \<Longrightarrow> num_abs d = d"
  by (cases d) auto

lemma effect_updates:
  "ce_updatePendingPayments (decideCurrentCycleEffect ch d p h) \<longleftrightarrow>
     p \<in> {CURRENT_CYCLE_FULL, CURRENT_CYCLE_PRORATED} \<and> d \<noteq> Fin 0 \<and> charge_in {CH_PENDING, CH_OVERDUE} ch"
  by (cases p; cases ch) (auto simp: effect_defs split: charge_state.split)

lemma effect_adjusts:
  "ad_type (ce_adjustment (decideCurrentCycleEffect ch d p h)) \<noteq> AT_NONE \<longleftrightarrow>
     d \<noteq> Fin 0 \<and> (p = MANUAL_ADJUSTMENT \<or> p \<noteq> NEXT_CYCLE \<and>
       (charge_in {CH_PAID} ch \<or> charge_in {CH_REFUNDED, CH_CANCELLED} ch \<and> num_less (Fin 0) d))"
  by (cases p; cases ch; cases h) (auto simp: effect_defs paid_decrease_type_def split: charge_state.split)

lemma effect_amount:
  "ad_amountCents (ce_adjustment (decideCurrentCycleEffect ch d p h)) =
     (if ad_type (ce_adjustment (decideCurrentCycleEffect ch d p h)) = AT_NONE then Fin 0 else num_abs d)"
  by (cases p; cases ch; cases h)
    (auto simp: effect_defs paid_decrease_type_def num_less_asym split: charge_state.split)

lemma effect_complement:
  "p \<in> {CURRENT_CYCLE_FULL, CURRENT_CYCLE_PRORATED} \<Longrightarrow>
   ad_type (ce_adjustment (decideCurrentCycleEffect ch d p h)) = AT_COMPLEMENT \<longleftrightarrow>
     num_less (Fin 0) d \<and> charge_in {CH_PAID, CH_REFUNDED, CH_CANCELLED} ch"
  by (cases ch; cases h) (auto simp: effect_defs paid_decrease_type_def split: charge_state.split)

text \<open>
  C7. The current cycle is corrected exactly once: a difference is either applied to the
  open charge (pending or overdue) or settled by an adjustment, never both; a paid charge
  is never rewritten, a larger amount becomes a complement and a smaller one the credit,
  refund or review that was asked for; the adjustment carries the absolute difference and
  is zero where there is none; the next-cycle policy touches neither.
\<close>

theorem engine_current_cycle_effect:
  assumes "calculateBillingAgreementDesiredState i = Inr v"
  defines "upd \<equiv> ce_updatePendingPayments (ds_effect v)" and "adj \<equiv> ce_adjustment (ds_effect v)"
    and "delta \<equiv> ds_currentCycleDeltaCents v" and "ch \<equiv> in_currentCharge i"
  shows "\<not> (upd \<and> ad_type adj \<noteq> AT_NONE) \<and>
    (upd \<longrightarrow> charge_in {CH_PENDING, CH_OVERDUE} ch \<and> delta \<noteq> Fin 0) \<and>
    (ad_amountCents adj = (if ad_type adj = AT_NONE then Fin 0 else num_abs delta)) \<and>
    (in_effectivePolicy i = NEXT_CYCLE \<longrightarrow> \<not> upd \<and> ad_type adj = AT_NONE) \<and>
    (in_effectivePolicy i \<in> {CURRENT_CYCLE_FULL, CURRENT_CYCLE_PRORATED} \<longrightarrow>
      (charge_in {CH_PENDING, CH_OVERDUE, CH_PAID} ch \<and> delta \<noteq> Fin 0 \<longrightarrow> upd \<or> ad_type adj \<noteq> AT_NONE) \<and>
      (ad_type adj = AT_COMPLEMENT \<longleftrightarrow>
         num_less (Fin 0) delta \<and> charge_in {CH_PAID, CH_REFUNDED, CH_CANCELLED} ch))"
proof -
  from assms(1) obtain c e target where
    v: "v = build_desired_state i c e (num_int (total_cents (active_allocations i e))) target"
    by (rule engine_acceptsE)
  obtain h where h: "ds_effect v = decideCurrentCycleEffect ch delta (in_effectivePolicy i) h"
    by (simp add: v ch_def delta_def build_desired_state_def Let_def)
  let ?p = "in_effectivePolicy i"
  have upd: "upd \<longleftrightarrow> ?p \<in> {CURRENT_CYCLE_FULL, CURRENT_CYCLE_PRORATED} \<and> delta \<noteq> Fin 0 \<and>
      charge_in {CH_PENDING, CH_OVERDUE} ch"
    unfolding upd_def h by (rule effect_updates)
  have adj: "ad_type adj \<noteq> AT_NONE \<longleftrightarrow> delta \<noteq> Fin 0 \<and> (?p = MANUAL_ADJUSTMENT \<or> ?p \<noteq> NEXT_CYCLE \<and>
       (charge_in {CH_PAID} ch \<or> charge_in {CH_REFUNDED, CH_CANCELLED} ch \<and> num_less (Fin 0) delta))"
    unfolding adj_def h by (rule effect_adjusts)
  show ?thesis
  proof (intro conjI)
    show "\<not> (upd \<and> ad_type adj \<noteq> AT_NONE)" unfolding upd adj by (auto simp: charge_in_def)
    show "upd \<longrightarrow> charge_in {CH_PENDING, CH_OVERDUE} ch \<and> delta \<noteq> Fin 0" unfolding upd by simp
    show "ad_amountCents adj = (if ad_type adj = AT_NONE then Fin 0 else num_abs delta)"
      unfolding adj_def h by (rule effect_amount)
    show "?p = NEXT_CYCLE \<longrightarrow> \<not> upd \<and> ad_type adj = AT_NONE" using adj unfolding upd by (cases ?p) auto
    have "charge_in {CH_PENDING, CH_OVERDUE, CH_PAID} ch \<Longrightarrow>
        charge_in {CH_PENDING, CH_OVERDUE} ch \<or> charge_in {CH_PAID} ch"
      by (auto simp: charge_in_def)
    then show "?p \<in> {CURRENT_CYCLE_FULL, CURRENT_CYCLE_PRORATED} \<longrightarrow>
      (charge_in {CH_PENDING, CH_OVERDUE, CH_PAID} ch \<and> delta \<noteq> Fin 0 \<longrightarrow> upd \<or> ad_type adj \<noteq> AT_NONE) \<and>
      (ad_type adj = AT_COMPLEMENT \<longleftrightarrow>
         num_less (Fin 0) delta \<and> charge_in {CH_PAID, CH_REFUNDED, CH_CANCELLED} ch)"
      unfolding adj upd using effect_complement [of ?p ch delta h, folded h adj_def]
      by (cases ?p) auto
  qed
qed

theorem engine_current_cycle_effect_witness:
  "\<exists>v. calculateBillingAgreementDesiredState sample_input = Inr v \<and>
    \<not> ce_updatePendingPayments (ds_effect v)"
proof -
  obtain v where v: "calculateBillingAgreementDesiredState sample_input = Inr v"
    by (rule sample_input_accepted)
  have "\<not> charge_in {CH_PENDING, CH_OVERDUE} (in_currentCharge sample_input)"
    by (simp add: charge_in_def sample_input_def)
  then show ?thesis using v engine_current_cycle_effect [OF v] by auto
qed

section \<open>Convergence\<close>

text \<open>The snapshot once the desired state has been applied and confirmed by the provider.\<close>

definition confirm :: "desired_state \<Rightarrow> agreement_snapshot \<Rightarrow> agreement_snapshot" where
  "confirm v ag = ag\<lparr>ag_status := AG_ACTIVE, ag_remoteSubscriptionExists := True,
     ag_desiredAmountCents := ds_desiredRecurringAmountCents v,
     ag_confirmedAmountCents := ds_desiredRecurringAmountCents v,
     ag_validFrom := DF_value (ds_agreementValidFrom v),
     ag_validUntil := (case ds_agreementValidUntil v of None \<Rightarrow> DF_null | Some u \<Rightarrow> DF_value (Some u))\<rparr>"

lemma decide_confirmed:
  assumes "d \<noteq> Fin 0" "d \<noteq> NaN" "ds_desiredRecurringAmountCents v = d"
  shows "decideSubscriptionAction (Some (confirm v ag)) d future paused
    (ds_agreementValidFrom v) (ds_agreementValidUntil v) = SA_NONE"
  using assms
  by (simp add: decideSubscriptionAction_def confirm_def persisted_validity_def Let_def split: option.splits)

lemma isMoneyCents_total:
  assumes "allocations_ok e als" "total_cents (filter (in_force e) als) < 2 ^ 53"
  shows "isMoneyCents (num_int (total_cents (filter (in_force e) als)))"
proof -
  have "0 \<le> total_cents (filter (in_force e) als)"
    unfolding total_cents_def using assms(1)
    by (intro sum_list_nonneg) (auto simp: allocations_ok_def isMoneyCents_cents)
  with assms(2) show ?thesis unfolding isMoneyCents_below by blast
qed

text \<open>The charge of the current cycle once an update that the state asks for is applied to it.\<close>

definition applied_charge :: "desired_state \<Rightarrow> current_charge option \<Rightarrow> current_charge option" where
  "applied_charge v ch = (if ce_updatePendingPayments (ds_effect v)
     then map_option (\<lambda>c. c\<lparr>cc_amountCents := ds_currentCycleTargetAmountCents v\<rparr>) ch else ch)"

definition settled_charge :: "current_charge option \<Rightarrow> bool" where
  "settled_charge ch \<longleftrightarrow> charge_in {CH_PAID, CH_REFUNDED, CH_CANCELLED} ch"

lemma money_difference: "isMoneyCents a \<Longrightarrow> num_sub a a = Fin 0"
  by (auto simp: isMoneyCents_below simp del: num_sub_int intro: num_sub_int [of n n for n, simplified])

lemma desired_money: "input_ok i c e \<Longrightarrow> isMoneyCents (num_int (total_cents (active_allocations i e)))"
  unfolding active_allocations_eq
  by (rule isMoneyCents_total) (simp_all add: input_ok_def active_allocations_eq)

lemma target_money:
  assumes "input_ok i c e" "isMoneyCents d" "current_cycle_target i d = Inr t"
    "in_effectivePolicy i \<in> {CURRENT_CYCLE_FULL, CURRENT_CYCLE_PRORATED}"
    "in_effectivePolicy i = CURRENT_CYCLE_PRORATED \<longrightarrow> prorates_exactly i"
  shows "isMoneyCents t"
proof (cases "in_effectivePolicy i = CURRENT_CYCLE_PRORATED")
  case True
  then obtain cycle where cycle: "in_currentCycle i = Some cycle" using assms(1) by (auto simp: input_ok_def)
  have "\<forall>al \<in> set (in_allocations i). isMoneyCents (al_netAmountCents al) \<and> valid_interval al"
    using assms(1) by (simp add: input_ok_def allocations_ok_def)
  from prorated_target_exact [OF _ cycle this _ refl] show ?thesis
    using True assms(3,5) by (simp add: current_cycle_target_def cycle)
next
  case False
  then show ?thesis using assms(2-4) by (simp add: current_cycle_target_def)
qed

text \<open>
  An effect is empty when no difference is left where one would be acted upon.
\<close>

lemma effect_none:
  assumes "\<not> settled_charge ch" "p = MANUAL_ADJUSTMENT \<longrightarrow> d = Fin 0"
    "p \<in> {CURRENT_CYCLE_FULL, CURRENT_CYCLE_PRORATED} \<and> charge_in {CH_PENDING, CH_OVERDUE} ch \<longrightarrow> d = Fin 0"
  shows "\<not> ce_updatePendingPayments (decideCurrentCycleEffect ch d p h) \<and>
    ad_type (ce_adjustment (decideCurrentCycleEffect ch d p h)) = AT_NONE"
proof -
  have "\<not> charge_in {CH_PAID} ch" "\<not> charge_in {CH_REFUNDED, CH_CANCELLED} ch"
    using assms(1) by (auto simp: settled_charge_def charge_in_def)
  then show ?thesis
    using effect_updates [of ch d p h] effect_adjusts [of ch d p h] assms(2,3) by blast
qed

text \<open>
  The next calculation, for whatever charge the cycle has by then: accepted, the same amount
  and validity, no action on the subscription.
\<close>

lemma confirmed_state:
  assumes ok: "input_ok i c e"
    and target: "current_cycle_target i (num_int (total_cents (active_allocations i e))) = Inr target"
    and v: "v = build_desired_state i c e (num_int (total_cents (active_allocations i e))) target"
    and ag: "in_agreement i = Some ag" and due: "ds_desiredRecurringAmountCents v \<noteq> Fin 0"
    and ch: "pred_option (\<lambda>x. isMoneyCents (cc_amountCents x)) ch"
  defines "j \<equiv> i\<lparr>in_agreement := Some (confirm v ag), in_currentCharge := ch\<rparr>"
  shows "\<exists>w t. calculateBillingAgreementDesiredState j = Inr w \<and>
    ds_subscriptionAction w = SA_NONE \<and>
    ds_desiredRecurringAmountCents w = ds_desiredRecurringAmountCents v \<and>
    ds_agreementValidFrom w = ds_agreementValidFrom v \<and>
    ds_agreementValidUntil w = ds_agreementValidUntil v \<and>
    current_cycle_target j (num_int (total_cents (active_allocations i e))) = Inr t \<and>
    ds_effect w = decideCurrentCycleEffect ch (num_sub t (current_amount j)) (in_effectivePolicy i)
      (case in_paidDecreaseHandling i of Some h \<Rightarrow> h | None \<Rightarrow> PD_CREDIT)"
proof -
  let ?d = "num_int (total_cents (active_allocations i e))"
  have act: "active_allocations j e = active_allocations i e" by (simp add: active_allocations_def j_def)
  have des: "ds_desiredRecurringAmountCents v = ?d"
    and win: "(ds_agreementValidFrom v, ds_agreementValidUntil v) =
      calculateAggregateValidity (in_allocations i) e"
    by (simp_all add: v build_desired_state_def Let_def)
  have "snapshot_ok (confirm v ag)"
    using ok ag desired_money [OF ok] by (simp add: input_ok_def snapshot_ok_def confirm_def des)
  then have "input_ok j c e" using ok ch act by (simp add: input_ok_def j_def)
  moreover obtain t where t: "current_cycle_target j ?d = Inr t"
    using target by (cases "in_effectivePolicy i") (simp_all add: current_cycle_target_def j_def)
  ultimately have w: "calculateBillingAgreementDesiredState j = Inr (build_desired_state j c e ?d t)"
    unfolding engine_accepts by (intro exI [of _ c] exI [of _ e] exI [of _ t]) (simp add: act)
  have "ds_subscriptionAction (build_desired_state j c e ?d t) = SA_NONE"
    using decide_confirmed [of ?d v ag] due des
    by (simp add: build_desired_state_def j_def Let_def flip: win)
  with w t show ?thesis
    by (intro exI conjI) (assumption | simp add: build_desired_state_def j_def Let_def des flip: win)+
qed

text \<open>The current cycle after the update of its charge.\<close>

lemma confirmed_cycle:
  assumes ok: "input_ok i c e"
    and target: "current_cycle_target i (num_int (total_cents (active_allocations i e))) = Inr target"
    and v: "v = build_desired_state i c e (num_int (total_cents (active_allocations i e))) target"
    and ag: "in_agreement i = Some ag"
    and exact: "in_effectivePolicy i = CURRENT_CYCLE_PRORATED \<longrightarrow> prorates_exactly i"
  defines "ch \<equiv> applied_charge v (in_currentCharge i)"
  defines "j \<equiv> i\<lparr>in_agreement := Some (confirm v ag), in_currentCharge := ch\<rparr>"
  shows "pred_option (\<lambda>x. isMoneyCents (cc_amountCents x)) ch"
    and "current_cycle_target j (num_int (total_cents (active_allocations i e))) = Inr t \<Longrightarrow>
      if settled_charge (in_currentCharge i)
      then decideCurrentCycleEffect ch (num_sub t (current_amount j)) (in_effectivePolicy i)
        (case in_paidDecreaseHandling i of Some h \<Rightarrow> h | None \<Rightarrow> PD_CREDIT) = ds_effect v
      else \<not> ce_updatePendingPayments (decideCurrentCycleEffect ch (num_sub t (current_amount j))
          (in_effectivePolicy i) h) \<and>
        ad_type (ce_adjustment (decideCurrentCycleEffect ch (num_sub t (current_amount j))
          (in_effectivePolicy i) h)) = AT_NONE"
proof -
  let ?d = "num_int (total_cents (active_allocations i e))" and ?p = "in_effectivePolicy i"
  have eff: "ds_effect v = decideCurrentCycleEffect (in_currentCharge i)
      (num_sub target (current_amount i)) ?p
      (case in_paidDecreaseHandling i of Some h \<Rightarrow> h | None \<Rightarrow> PD_CREDIT)"
    and tgt: "ds_currentCycleTargetAmountCents v = target"
    by (simp_all add: v build_desired_state_def Let_def)
  have upd: "ce_updatePendingPayments (ds_effect v) \<longleftrightarrow> ?p \<in> {CURRENT_CYCLE_FULL, CURRENT_CYCLE_PRORATED} \<and>
      num_sub target (current_amount i) \<noteq> Fin 0 \<and> charge_in {CH_PENDING, CH_OVERDUE} (in_currentCharge i)"
    unfolding eff by (rule effect_updates)
  have money: "isMoneyCents target" if "?p \<in> {CURRENT_CYCLE_FULL, CURRENT_CYCLE_PRORATED}"
    using target_money [OF ok desired_money [OF ok] target that exact] .
  show charge: "pred_option (\<lambda>x. isMoneyCents (cc_amountCents x)) ch"
    using ok money upd by (cases "in_currentCharge i") (auto simp: ch_def applied_charge_def tgt input_ok_def)
  assume t: "current_cycle_target j ?d = Inr t"
  have cur: "isMoneyCents (current_amount j)"
    using charge ok ag desired_money [OF ok]
    by (cases ch) (simp_all add: current_amount_def j_def confirm_def v build_desired_state_def Let_def)
  have same: "t = target" if "?p \<in> {CURRENT_CYCLE_FULL, CURRENT_CYCLE_PRORATED}"
    using t target that by (auto simp: current_cycle_target_def j_def)
  have kept: "t = current_amount j" if "?p \<in> {NEXT_CYCLE, MANUAL_ADJUSTMENT}"
    using t that by (auto simp: current_cycle_target_def j_def)
  have S: "settled_charge (in_currentCharge i) \<Longrightarrow> ch = in_currentCharge i"
    using upd by (auto simp: ch_def applied_charge_def settled_charge_def charge_in_def)
  show "if settled_charge (in_currentCharge i)
      then decideCurrentCycleEffect ch (num_sub t (current_amount j)) ?p
        (case in_paidDecreaseHandling i of Some h \<Rightarrow> h | None \<Rightarrow> PD_CREDIT) = ds_effect v
      else \<not> ce_updatePendingPayments (decideCurrentCycleEffect ch (num_sub t (current_amount j)) ?p h) \<and>
        ad_type (ce_adjustment (decideCurrentCycleEffect ch (num_sub t (current_amount j)) ?p h)) = AT_NONE"
  proof (cases "settled_charge (in_currentCharge i)")
    case True
    then obtain x where x: "in_currentCharge i = Some x" by (auto simp: settled_charge_def charge_in_def)
    then have "current_amount j = current_amount i" using S [OF True] by (simp add: current_amount_def j_def)
    moreover have "t = target"
      using t target calculation by (cases ?p) (auto simp: current_cycle_target_def j_def)
    ultimately show ?thesis using True S [OF True] by (simp add: eff)
  next
    case False
    have "\<not> settled_charge ch"
      using False by (cases "in_currentCharge i") (auto simp: ch_def applied_charge_def settled_charge_def charge_in_def)
    moreover have "?p = MANUAL_ADJUSTMENT \<longrightarrow> num_sub t (current_amount j) = Fin 0"
      using kept money_difference [OF cur] by simp
    moreover have "num_sub t (current_amount j) = Fin 0"
      if p: "?p \<in> {CURRENT_CYCLE_FULL, CURRENT_CYCLE_PRORATED}" and op: "charge_in {CH_PENDING, CH_OVERDUE} ch"
    proof (cases "ce_updatePendingPayments (ds_effect v)")
      case True
      then have "current_amount j = target"
        using op by (auto simp: current_amount_def j_def ch_def applied_charge_def tgt charge_in_def)
      then show ?thesis using money_difference [OF money [OF p]] same [OF p] by simp
    next
      case False
      then have "ch = in_currentCharge i" by (simp add: ch_def applied_charge_def)
      moreover from this have "current_amount j = current_amount i"
        using op by (auto simp: current_amount_def j_def charge_in_def)
      ultimately show ?thesis using False upd p op same [OF p] by auto
    qed
    ultimately show ?thesis using False effect_none [of ch ?p] by simp
  qed
qed

text \<open>
  C8. Reconciliation converges: once a non-zero desired state has been applied and
  confirmed, the next calculation on the same allocations asks for the same amount and
  validity and takes no further action on the subscription. Once the open charge carries
  the amount it asked for as well, it takes none on the current cycle either, unless the
  charge is settled (paid, refunded or cancelled): then it asks for the very adjustment it
  asked for before. (Under the prorated policy the last part needs exact shares.)
\<close>

theorem engine_converges:
  assumes "calculateBillingAgreementDesiredState i = Inr v" "in_agreement i = Some ag"
    "ds_desiredRecurringAmountCents v \<noteq> Fin 0"
  shows "(\<exists>w. calculateBillingAgreementDesiredState (i\<lparr>in_agreement := Some (confirm v ag)\<rparr>) = Inr w \<and>
      ds_subscriptionAction w = SA_NONE \<and>
      ds_desiredRecurringAmountCents w = ds_desiredRecurringAmountCents v \<and>
      ds_agreementValidFrom w = ds_agreementValidFrom v \<and>
      ds_agreementValidUntil w = ds_agreementValidUntil v) \<and>
    ((in_effectivePolicy i = CURRENT_CYCLE_PRORATED \<longrightarrow> prorates_exactly i) \<longrightarrow>
     (\<exists>w. calculateBillingAgreementDesiredState (i\<lparr>in_agreement := Some (confirm v ag),
          in_currentCharge := applied_charge v (in_currentCharge i)\<rparr>) = Inr w \<and>
      ds_subscriptionAction w = SA_NONE \<and>
      ds_desiredRecurringAmountCents w = ds_desiredRecurringAmountCents v \<and>
      ds_agreementValidFrom w = ds_agreementValidFrom v \<and>
      ds_agreementValidUntil w = ds_agreementValidUntil v \<and>
      (if settled_charge (in_currentCharge i) then ds_effect w = ds_effect v
       else \<not> ce_updatePendingPayments (ds_effect w) \<and>
         ad_type (ce_adjustment (ds_effect w)) = AT_NONE)))"
proof -
  from assms(1) obtain c e target where ok: "input_ok i c e"
    and target: "current_cycle_target i (num_int (total_cents (active_allocations i e))) = Inr target"
    and v: "v = build_desired_state i c e (num_int (total_cents (active_allocations i e))) target"
    by (rule engine_acceptsE)
  have d: "ds_desiredRecurringAmountCents v = num_int (total_cents (active_allocations i e))"
    by (simp add: v build_desired_state_def Let_def)
  note R = confirmed_state [OF ok target v assms(2,3)]
  have "pred_option (\<lambda>x. isMoneyCents (cc_amountCents x)) (in_currentCharge i)"
    using ok by (simp add: input_ok_def)
  from R [OF this] have A: "\<exists>w. calculateBillingAgreementDesiredState (i\<lparr>in_agreement := Some (confirm v ag)\<rparr>) = Inr w \<and>
      ds_subscriptionAction w = SA_NONE \<and>
      ds_desiredRecurringAmountCents w = ds_desiredRecurringAmountCents v \<and>
      ds_agreementValidFrom w = ds_agreementValidFrom v \<and>
      ds_agreementValidUntil w = ds_agreementValidUntil v" by auto
  show ?thesis
  proof (rule conjI [OF A impI])
    assume p: "in_effectivePolicy i = CURRENT_CYCLE_PRORATED \<longrightarrow> prorates_exactly i"
    note C = confirmed_cycle [OF ok target v assms(2) p]
    from R [OF C(1)] C(2) show "\<exists>w. calculateBillingAgreementDesiredState (i\<lparr>in_agreement := Some (confirm v ag),
          in_currentCharge := applied_charge v (in_currentCharge i)\<rparr>) = Inr w \<and>
      ds_subscriptionAction w = SA_NONE \<and>
      ds_desiredRecurringAmountCents w = ds_desiredRecurringAmountCents v \<and>
      ds_agreementValidFrom w = ds_agreementValidFrom v \<and>
      ds_agreementValidUntil w = ds_agreementValidUntil v \<and>
      (if settled_charge (in_currentCharge i) then ds_effect w = ds_effect v
       else \<not> ce_updatePendingPayments (ds_effect w) \<and>
         ad_type (ce_adjustment (ds_effect w)) = AT_NONE)" by (metis (no_types))
  qed
qed

theorem engine_converges_witness:
  "\<exists>v w x. calculateBillingAgreementDesiredState sample_input = Inr v \<and>
    calculateBillingAgreementDesiredState
      (sample_input\<lparr>in_agreement := Some (confirm v (the (in_agreement sample_input)))\<rparr>) = Inr w \<and>
    ds_subscriptionAction w = SA_NONE \<and>
    calculateBillingAgreementDesiredState
      (sample_input\<lparr>in_agreement := Some (confirm v (the (in_agreement sample_input))),
         in_currentCharge := applied_charge v (in_currentCharge sample_input)\<rparr>) = Inr x \<and>
    ds_effect x = ds_effect v"
proof -
  obtain v where v: "calculateBillingAgreementDesiredState sample_input = Inr v"
    by (rule sample_input_accepted)
  have ag: "in_agreement sample_input = Some (the (in_agreement sample_input))"
    and p: "in_effectivePolicy sample_input = CURRENT_CYCLE_PRORATED \<longrightarrow> prorates_exactly sample_input"
    and s: "settled_charge (in_currentCharge sample_input)"
    by (simp_all add: sample_input_def settled_charge_def charge_in_def)
  have "ds_desiredRecurringAmountCents v \<noteq> Fin 0"
    using v by (rule sample_input_amount)
  from engine_converges [OF v ag this] v p s show ?thesis by (simp only: if_True) blast
qed

end
