(* ===== verification/PaymentStatus.thy ===== *)
theory PaymentStatus
  imports CivilDate
begin

text \<open>
  Statuses of a payment: the provider's statuses and events, their mapping to the internal
  status (\<^verbatim>\<open>packages/finance/src/mappers/status-mapper.ts\<close> and its copy in
  \<^verbatim>\<open>packages/finance/src/core/status-mapping.ts\<close>), the precedence tables of
  \<^verbatim>\<open>packages/finance/src/mappers/status-precedence.ts\<close> and the monotone snapshot of the
  provider's status, \<^verbatim>\<open>packages/finance/src/mappers/asaas-snapshot-monotonicity.ts\<close>.

  The code compares normalised strings. A string that is one of the names the code knows
  is a constructor here and every other string is kept under an \<open>Other\<close> constructor;
  \<open>provider_text\<close> and \<open>event_text\<close> show that nothing is lost.
\<close>

section \<open>Enumerations\<close>

datatype provider_status = AS_PENDING | AS_RECEIVED | AS_CONFIRMED | AS_OVERDUE | AS_REFUNDED
  | AS_RECEIVED_IN_CASH | AS_REFUND_REQUESTED | AS_REFUND_IN_PROGRESS | AS_CHARGEBACK_REQUESTED
  | AS_CHARGEBACK_DISPUTE | AS_AWAITING_CHARGEBACK_REVERSAL | AS_DUNNING_REQUESTED
  | AS_DUNNING_RECEIVED | AS_AWAITING_RISK_ANALYSIS | AS_DELETED | AS_Other string

datatype payment_status = PS_PENDING | PS_CONFIRMED | PS_OVERDUE | PS_REFUNDED | PS_CANCELLED
  | PS_CHARGEBACK | PS_RECEIVED_IN_CASH

datatype cobranca_status = A_VENCER | PENDENTE | PROCESSANDO | PAGO | ATRASADO
  | CANCELAMENTO_PENDENTE | CANCELADO | ESTORNADO | ESTORNADO_PARCIAL

datatype charge_status = CS_CREATED | CS_PENDING_SYNC | CS_OPEN | CS_OVERDUE | CS_PAID
  | CS_REFUNDED | CS_CANCELED

datatype payment_event = EV_CREATED | EV_UPDATED | EV_CONFIRMED | EV_RECEIVED | EV_RECEIVED_IN_CASH
  | EV_RECEIVED_IN_CASH_UNDONE | EV_OVERDUE | EV_REFUNDED | EV_REFUND_REQUESTED
  | EV_REFUND_IN_PROGRESS | EV_PARTIALLY_REFUNDED | EV_CHARGEBACK_REQUESTED | EV_CHARGEBACK_DISPUTE
  | EV_AWAITING_CHARGEBACK_REVERSAL | EV_CANCELED | EV_DELETED | EV_RESTORED | EV_DUNNING_REQUESTED
  | EV_DUNNING_RECEIVED | EV_AWAITING_RISK_ANALYSIS | EV_Other string

definition provider_table :: "(string \<times> provider_status) list" where
  "provider_table = [(''PENDING'', AS_PENDING), (''RECEIVED'', AS_RECEIVED), (''CONFIRMED'', AS_CONFIRMED),
     (''OVERDUE'', AS_OVERDUE), (''REFUNDED'', AS_REFUNDED), (''RECEIVED_IN_CASH'', AS_RECEIVED_IN_CASH),
     (''REFUND_REQUESTED'', AS_REFUND_REQUESTED), (''REFUND_IN_PROGRESS'', AS_REFUND_IN_PROGRESS),
     (''CHARGEBACK_REQUESTED'', AS_CHARGEBACK_REQUESTED), (''CHARGEBACK_DISPUTE'', AS_CHARGEBACK_DISPUTE),
     (''AWAITING_CHARGEBACK_REVERSAL'', AS_AWAITING_CHARGEBACK_REVERSAL),
     (''DUNNING_REQUESTED'', AS_DUNNING_REQUESTED), (''DUNNING_RECEIVED'', AS_DUNNING_RECEIVED),
     (''AWAITING_RISK_ANALYSIS'', AS_AWAITING_RISK_ANALYSIS), (''DELETED'', AS_DELETED)]"

definition event_table :: "(string \<times> payment_event) list" where
  "event_table = [(''PAYMENT_CREATED'', EV_CREATED), (''PAYMENT_UPDATED'', EV_UPDATED),
     (''PAYMENT_CONFIRMED'', EV_CONFIRMED), (''PAYMENT_RECEIVED'', EV_RECEIVED),
     (''PAYMENT_RECEIVED_IN_CASH'', EV_RECEIVED_IN_CASH),
     (''PAYMENT_RECEIVED_IN_CASH_UNDONE'', EV_RECEIVED_IN_CASH_UNDONE), (''PAYMENT_OVERDUE'', EV_OVERDUE),
     (''PAYMENT_REFUNDED'', EV_REFUNDED), (''PAYMENT_REFUND_REQUESTED'', EV_REFUND_REQUESTED),
     (''PAYMENT_REFUND_IN_PROGRESS'', EV_REFUND_IN_PROGRESS),
     (''PAYMENT_PARTIALLY_REFUNDED'', EV_PARTIALLY_REFUNDED),
     (''PAYMENT_CHARGEBACK_REQUESTED'', EV_CHARGEBACK_REQUESTED),
     (''PAYMENT_CHARGEBACK_DISPUTE'', EV_CHARGEBACK_DISPUTE),
     (''PAYMENT_AWAITING_CHARGEBACK_REVERSAL'', EV_AWAITING_CHARGEBACK_REVERSAL),
     (''PAYMENT_CANCELED'', EV_CANCELED), (''PAYMENT_DELETED'', EV_DELETED),
     (''PAYMENT_RESTORED'', EV_RESTORED), (''PAYMENT_DUNNING_REQUESTED'', EV_DUNNING_REQUESTED),
     (''PAYMENT_DUNNING_RECEIVED'', EV_DUNNING_RECEIVED),
     (''PAYMENT_AWAITING_RISK_ANALYSIS'', EV_AWAITING_RISK_ANALYSIS)]"

definition provider_of :: "string \<Rightarrow> provider_status" where
  "provider_of s = (case map_of provider_table s of Some p \<Rightarrow> p | None \<Rightarrow> AS_Other s)"

definition event_of :: "string \<Rightarrow> payment_event" where
  "event_of s = (case map_of event_table s of Some e \<Rightarrow> e | None \<Rightarrow> EV_Other s)"

text \<open>\<^verbatim>\<open>value?.trim().toUpperCase()\<close>, absent when empty, read as a status or an event.\<close>

definition normalize_provider :: "string option \<Rightarrow> provider_status option" where
  "normalize_provider s = map_option provider_of (trim_upper s)"

definition normalize_event :: "string option \<Rightarrow> payment_event option" where
  "normalize_event s = map_option event_of (trim_upper s)"

section \<open>status-mapper.ts and core/status-mapping.ts\<close>

fun internal_of :: "provider_status \<Rightarrow> payment_status" where
  "internal_of AS_RECEIVED = PS_CONFIRMED"
| "internal_of AS_CONFIRMED = PS_CONFIRMED"
| "internal_of AS_DUNNING_RECEIVED = PS_OVERDUE"
| "internal_of AS_RECEIVED_IN_CASH = PS_RECEIVED_IN_CASH"
| "internal_of AS_OVERDUE = PS_OVERDUE"
| "internal_of AS_DUNNING_REQUESTED = PS_OVERDUE"
| "internal_of AS_REFUNDED = PS_REFUNDED"
| "internal_of AS_REFUND_IN_PROGRESS = PS_REFUNDED"
| "internal_of AS_REFUND_REQUESTED = PS_REFUNDED"
| "internal_of AS_CHARGEBACK_REQUESTED = PS_CHARGEBACK"
| "internal_of AS_CHARGEBACK_DISPUTE = PS_CHARGEBACK"
| "internal_of AS_AWAITING_CHARGEBACK_REVERSAL = PS_CHARGEBACK"
| "internal_of AS_DELETED = PS_CANCELLED"
| "internal_of AS_PENDING = PS_PENDING"
| "internal_of AS_AWAITING_RISK_ANALYSIS = PS_PENDING"
| "internal_of (AS_Other _) = PS_PENDING"

text \<open>The table literal of \<^verbatim>\<open>mapAsaasStatusToInternal\<close>, in the order of the file.\<close>

definition mapper_table :: "(string \<times> payment_status) list" where
  "mapper_table = [(''PENDING'', PS_PENDING), (''AWAITING_RISK_ANALYSIS'', PS_PENDING),
     (''RECEIVED'', PS_CONFIRMED), (''CONFIRMED'', PS_CONFIRMED), (''DUNNING_RECEIVED'', PS_OVERDUE),
     (''RECEIVED_IN_CASH'', PS_RECEIVED_IN_CASH), (''OVERDUE'', PS_OVERDUE),
     (''DUNNING_REQUESTED'', PS_OVERDUE), (''REFUNDED'', PS_REFUNDED),
     (''REFUND_IN_PROGRESS'', PS_REFUNDED), (''REFUND_REQUESTED'', PS_REFUNDED),
     (''CHARGEBACK_REQUESTED'', PS_CHARGEBACK), (''CHARGEBACK_DISPUTE'', PS_CHARGEBACK),
     (''AWAITING_CHARGEBACK_REVERSAL'', PS_CHARGEBACK), (''DELETED'', PS_CANCELLED)]"

definition mapAsaasStatusToInternal :: "string option \<Rightarrow> payment_status" where
  "mapAsaasStatusToInternal s =
     (let normalized = js_upper (js_trim (case s of None \<Rightarrow> [] | Some t \<Rightarrow> t))
      in if normalized = [] then PS_PENDING
         else case map_of mapper_table normalized of Some p \<Rightarrow> p | None \<Rightarrow> PS_PENDING)"

text \<open>\<^verbatim>\<open>ASAAS_TO_INTERNAL_STATUS\<close> of the core module.\<close>

definition core_table :: "(string \<times> payment_status) list" where
  "core_table = [(''PENDING'', PS_PENDING), (''AWAITING_RISK_ANALYSIS'', PS_PENDING),
     (''RECEIVED'', PS_CONFIRMED), (''CONFIRMED'', PS_CONFIRMED), (''DUNNING_RECEIVED'', PS_OVERDUE),
     (''RECEIVED_IN_CASH'', PS_RECEIVED_IN_CASH), (''OVERDUE'', PS_OVERDUE),
     (''DUNNING_REQUESTED'', PS_OVERDUE), (''REFUNDED'', PS_REFUNDED),
     (''REFUND_IN_PROGRESS'', PS_REFUNDED), (''REFUND_REQUESTED'', PS_REFUNDED),
     (''CHARGEBACK_REQUESTED'', PS_CHARGEBACK), (''CHARGEBACK_DISPUTE'', PS_CHARGEBACK),
     (''AWAITING_CHARGEBACK_REVERSAL'', PS_CHARGEBACK), (''DELETED'', PS_CANCELLED)]"

definition mapAsaasToInternalStatus :: "string option \<Rightarrow> payment_status" where
  "mapAsaasToInternalStatus s =
     (if \<not> truthy s then PS_PENDING
      else case map_of core_table (js_upper (js_trim (the s))) of Some p \<Rightarrow> p | None \<Rightarrow> PS_PENDING)"

fun mapInternalToCobrancaStatus :: "payment_status \<Rightarrow> cobranca_status" where
  "mapInternalToCobrancaStatus PS_PENDING = PENDENTE"
| "mapInternalToCobrancaStatus PS_CONFIRMED = PAGO"
| "mapInternalToCobrancaStatus PS_OVERDUE = ATRASADO"
| "mapInternalToCobrancaStatus PS_REFUNDED = ESTORNADO"
| "mapInternalToCobrancaStatus PS_CANCELLED = CANCELADO"
| "mapInternalToCobrancaStatus PS_CHARGEBACK = ESTORNADO"
| "mapInternalToCobrancaStatus PS_RECEIVED_IN_CASH = PAGO"

fun mapInternalToChargeStatus :: "payment_status \<Rightarrow> charge_status" where
  "mapInternalToChargeStatus PS_PENDING = CS_OPEN"
| "mapInternalToChargeStatus PS_CONFIRMED = CS_PAID"
| "mapInternalToChargeStatus PS_OVERDUE = CS_OVERDUE"
| "mapInternalToChargeStatus PS_REFUNDED = CS_REFUNDED"
| "mapInternalToChargeStatus PS_CANCELLED = CS_CANCELED"
| "mapInternalToChargeStatus PS_CHARGEBACK = CS_REFUNDED"
| "mapInternalToChargeStatus PS_RECEIVED_IN_CASH = CS_PAID"

definition mapAsaasToCobrancaStatus :: "string option \<Rightarrow> cobranca_status" where
  "mapAsaasToCobrancaStatus s = mapInternalToCobrancaStatus (mapAsaasToInternalStatus s)"

definition mapAsaasToChargeStatus :: "string option \<Rightarrow> charge_status" where
  "mapAsaasToChargeStatus s = mapInternalToChargeStatus (mapAsaasToInternalStatus s)"

fun core_internal_rank :: "payment_status \<Rightarrow> nat" where
  "core_internal_rank PS_PENDING = 10"
| "core_internal_rank PS_OVERDUE = 20"
| "core_internal_rank PS_CONFIRMED = 80"
| "core_internal_rank PS_RECEIVED_IN_CASH = 80"
| "core_internal_rank PS_REFUNDED = 90"
| "core_internal_rank PS_CHARGEBACK = 95"
| "core_internal_rank PS_CANCELLED = 100"

fun core_cobranca_rank :: "cobranca_status \<Rightarrow> nat" where
  "core_cobranca_rank A_VENCER = 5"
| "core_cobranca_rank PENDENTE = 10"
| "core_cobranca_rank PROCESSANDO = 15"
| "core_cobranca_rank ATRASADO = 20"
| "core_cobranca_rank PAGO = 80"
| "core_cobranca_rank CANCELAMENTO_PENDENTE = 85"
| "core_cobranca_rank ESTORNADO = 90"
| "core_cobranca_rank ESTORNADO_PARCIAL = 90"
| "core_cobranca_rank CANCELADO = 100"

fun core_charge_rank :: "charge_status \<Rightarrow> nat" where
  "core_charge_rank CS_CREATED = 5"
| "core_charge_rank CS_PENDING_SYNC = 7"
| "core_charge_rank CS_OPEN = 10"
| "core_charge_rank CS_OVERDUE = 20"
| "core_charge_rank CS_PAID = 80"
| "core_charge_rank CS_REFUNDED = 90"
| "core_charge_rank CS_CANCELED = 100"

definition core_canProgressInternalStatus :: "payment_status \<Rightarrow> payment_status \<Rightarrow> bool" where
  "core_canProgressInternalStatus c n \<longleftrightarrow> core_internal_rank c \<le> core_internal_rank n"

definition core_canProgressCobrancaStatus :: "cobranca_status \<Rightarrow> cobranca_status \<Rightarrow> bool" where
  "core_canProgressCobrancaStatus c n \<longleftrightarrow> core_cobranca_rank c \<le> core_cobranca_rank n"

definition core_canProgressChargeStatus :: "charge_status \<Rightarrow> charge_status \<Rightarrow> bool" where
  "core_canProgressChargeStatus c n \<longleftrightarrow> core_charge_rank c \<le> core_charge_rank n"

definition applyCobrancaStatusPrecedence :: "cobranca_status \<Rightarrow> cobranca_status \<Rightarrow> cobranca_status" where
  "applyCobrancaStatusPrecedence c n = (if core_canProgressCobrancaStatus c n then n else c)"

definition core_computeNextChargeStatus :: "charge_status \<Rightarrow> charge_status \<Rightarrow> charge_status" where
  "core_computeNextChargeStatus c n = (if core_canProgressChargeStatus c n then n else c)"

definition isPaidStatus :: "string option \<Rightarrow> bool" where
  "isPaidStatus s \<longleftrightarrow> mapAsaasToInternalStatus s \<in> {PS_CONFIRMED, PS_RECEIVED_IN_CASH}"

definition isActiveStatus :: "string option \<Rightarrow> bool" where
  "isActiveStatus s \<longleftrightarrow> mapAsaasToInternalStatus s \<in> {PS_PENDING, PS_OVERDUE}"

definition isTerminalStatus :: "string option \<Rightarrow> bool" where
  "isTerminalStatus s \<longleftrightarrow> mapAsaasToInternalStatus s \<in> {PS_CANCELLED, PS_REFUNDED, PS_CHARGEBACK}"

definition getAsaasStatusesFor :: "payment_status \<Rightarrow> string list" where
  "getAsaasStatusesFor i = map fst (filter (\<lambda>(k, v). v = i) core_table)"

section \<open>status-precedence.ts: precedence\<close>

fun cobranca_rank :: "cobranca_status \<Rightarrow> nat" where
  "cobranca_rank PENDENTE = 5"
| "cobranca_rank A_VENCER = 10"
| "cobranca_rank PROCESSANDO = 15"
| "cobranca_rank ATRASADO = 30"
| "cobranca_rank PAGO = 40"
| "cobranca_rank CANCELAMENTO_PENDENTE = 80"
| "cobranca_rank ESTORNADO_PARCIAL = 85"
| "cobranca_rank ESTORNADO = 90"
| "cobranca_rank CANCELADO = 95"

definition canProgressCobrancaStatus :: "cobranca_status \<Rightarrow> cobranca_status \<Rightarrow> bool" where
  "canProgressCobrancaStatus c n \<longleftrightarrow> cobranca_rank c \<le> cobranca_rank n"

definition isCobrancaStatusRegression :: "cobranca_status \<Rightarrow> cobranca_status \<Rightarrow> bool" where
  "isCobrancaStatusRegression c n \<longleftrightarrow> \<not> canProgressCobrancaStatus c n"

fun charge_rank :: "charge_status \<Rightarrow> nat" where
  "charge_rank CS_CREATED = 5"
| "charge_rank CS_PENDING_SYNC = 7"
| "charge_rank CS_OPEN = 10"
| "charge_rank CS_OVERDUE = 30"
| "charge_rank CS_PAID = 40"
| "charge_rank CS_REFUNDED = 90"
| "charge_rank CS_CANCELED = 95"

definition canProgressChargeStatus :: "charge_status \<Rightarrow> charge_status \<Rightarrow> bool" where
  "canProgressChargeStatus c n =
     (if c = CS_PAID \<and> (n = CS_OPEN \<or> n = CS_OVERDUE) then False else charge_rank c \<le> charge_rank n)"

definition canApplyChargeStatusTransition ::
    "charge_status \<Rightarrow> charge_status \<Rightarrow> payment_event option \<Rightarrow> bool" where
  "canApplyChargeStatusTransition c n e =
     (if e = Some EV_RECEIVED_IN_CASH_UNDONE \<and> c = CS_PAID \<and> (n = CS_OPEN \<or> n = CS_OVERDUE) then True
      else if e = Some EV_RESTORED \<and> c = CS_CANCELED \<and> n = CS_OPEN then True
      else canProgressChargeStatus c n)"

definition isChargeStatusRegression ::
    "charge_status \<Rightarrow> charge_status \<Rightarrow> payment_event option \<Rightarrow> bool" where
  "isChargeStatusRegression c n e \<longleftrightarrow> \<not> canApplyChargeStatusTransition c n e"

section \<open>asaas-snapshot-monotonicity.ts\<close>

fun provider_rank :: "provider_status \<Rightarrow> nat" where
  "provider_rank AS_PENDING = 10"
| "provider_rank AS_AWAITING_RISK_ANALYSIS = 15"
| "provider_rank AS_OVERDUE = 20"
| "provider_rank AS_CONFIRMED = 40"
| "provider_rank AS_RECEIVED = 45"
| "provider_rank AS_RECEIVED_IN_CASH = 45"
| "provider_rank AS_DUNNING_RECEIVED = 30"
| "provider_rank AS_REFUND_REQUESTED = 80"
| "provider_rank AS_REFUND_IN_PROGRESS = 82"
| "provider_rank AS_CHARGEBACK_REQUESTED = 84"
| "provider_rank AS_CHARGEBACK_DISPUTE = 86"
| "provider_rank AS_AWAITING_CHARGEBACK_REVERSAL = 87"
| "provider_rank AS_DUNNING_REQUESTED = 88"
| "provider_rank AS_REFUNDED = 90"
| "provider_rank AS_DELETED = 95"
| "provider_rank (AS_Other _) = 0"

definition paid_like :: "provider_status set" where
  "paid_like = {AS_CONFIRMED, AS_RECEIVED, AS_RECEIVED_IN_CASH}"

definition open_like :: "provider_status set" where
  "open_like = {AS_PENDING, AS_OVERDUE, AS_AWAITING_RISK_ANALYSIS}"

definition isLocalPaymentSettled :: "string option \<Rightarrow> string option \<Rightarrow> bool" where
  "isLocalPaymentSettled charge cobranca \<longleftrightarrow>
     trim_upper charge = Some ''PAID'' \<or> trim_upper cobranca = Some ''PAGO''"

definition isAsaasPaymentStatus :: "string option \<Rightarrow> bool" where
  "isAsaasPaymentStatus s \<longleftrightarrow> (case trim_upper s of None \<Rightarrow> False | Some t \<Rightarrow> t \<in> fst ` set provider_table)"

definition isStaleAsaasStatusForSettledLocal ::
    "string option \<Rightarrow> string option \<Rightarrow> string option \<Rightarrow> bool \<Rightarrow> bool" where
  "isStaleAsaasStatusForSettledLocal asaas charge cobranca hasLink =
     (if \<not> hasLink then False
      else if \<not> isLocalPaymentSettled charge cobranca then False
      else if \<not> isAsaasPaymentStatus (trim_upper asaas) then False
      else (case normalize_provider asaas of None \<Rightarrow> False | Some p \<Rightarrow> p \<in> open_like))"

definition hasAsaasSnapshotDrift :: "string option \<Rightarrow> string option \<Rightarrow> string option \<Rightarrow> bool" where
  "hasAsaasSnapshotDrift asaas charge cobranca = isStaleAsaasStatusForSettledLocal asaas charge cobranca True"

text \<open>
  The choice between two normalised statuses, given whether the local payment is settled:
  \<^verbatim>\<open>resolveMonotonicAsaasPaymentStatus\<close> after its normalisation.
\<close>

definition monotonic_snapshot ::
    "bool \<Rightarrow> provider_status option \<Rightarrow> provider_status option \<Rightarrow> provider_status option" where
  "monotonic_snapshot settled current incoming = (case (current, incoming) of
       (_, None) \<Rightarrow> current
     | (None, Some i) \<Rightarrow> Some i
     | (Some c, Some i) \<Rightarrow>
         if 80 \<le> provider_rank i then Some (if provider_rank c \<le> provider_rank i then i else c)
         else if settled \<and> c \<in> paid_like \<and> provider_rank i < provider_rank c then Some c
         else if settled \<and> c \<in> paid_like \<and> i \<in> open_like then Some c
         else if \<not> settled \<and> c \<in> paid_like \<and> i \<in> open_like then Some i
         else if 40 \<le> provider_rank c \<and> provider_rank i < provider_rank c then Some c
         else Some (if provider_rank c \<le> provider_rank i then i else c))"

definition resolveMonotonicAsaasPaymentStatus ::
    "string option \<Rightarrow> string option \<Rightarrow> string option \<Rightarrow> string option \<Rightarrow> provider_status option" where
  "resolveMonotonicAsaasPaymentStatus current incoming charge cobranca =
     monotonic_snapshot (isLocalPaymentSettled charge cobranca)
       (normalize_provider current) (normalize_provider incoming)"

definition isPaidLikeAsaasStatus :: "string option \<Rightarrow> bool" where
  "isPaidLikeAsaasStatus s = (case normalize_provider s of None \<Rightarrow> False | Some p \<Rightarrow> p \<in> paid_like)"

section \<open>Reading and printing of statuses and events\<close>

definition text_in :: "(string \<times> 'a) list \<Rightarrow> 'a \<Rightarrow> string option" where
  "text_in table x = map_option fst (find (\<lambda>(k, v). v = x) table)"

definition provider_text :: "provider_status \<Rightarrow> string" where
  "provider_text p = (case p of AS_Other s \<Rightarrow> s | _ \<Rightarrow> the (text_in provider_table p))"

definition event_text :: "payment_event \<Rightarrow> string" where
  "event_text e = (case e of EV_Other s \<Rightarrow> s | _ \<Rightarrow> the (text_in event_table e))"

lemma provider_table_text: "(k, p) \<in> set provider_table \<Longrightarrow> provider_text p = k"
  by (auto simp: provider_table_def provider_text_def text_in_def)

lemma event_table_text: "(k, e) \<in> set event_table \<Longrightarrow> event_text e = k"
  by (auto simp: event_table_def event_text_def text_in_def)

lemma provider_text_of [simp]: "provider_text (provider_of s) = s"
  by (auto simp: provider_of_def provider_text_def [of "AS_Other s"] provider_table_text
      dest: map_of_SomeD split: option.split)

lemma event_text_of [simp]: "event_text (event_of s) = s"
  by (auto simp: event_of_def event_text_def [of "EV_Other s"] event_table_text
      dest: map_of_SomeD split: option.split)

lemma provider_of_inject [simp]: "provider_of s = provider_of t \<longleftrightarrow> s = t"
  by (metis provider_text_of)

lemma event_of_inject [simp]: "event_of s = event_of t \<longleftrightarrow> s = t"
  by (metis event_text_of)

section \<open>Agreement of the two status mappings\<close>

lemma core_table_eq: "core_table = mapper_table"
  by (simp add: core_table_def mapper_table_def)

lemma mapper_table_internal:
  "map_of mapper_table s = (if s \<in> fst ` set provider_table then Some (internal_of (provider_of s)) else None)"
proof (cases "s \<in> fst ` set provider_table")
  case True
  then show ?thesis
    by (auto simp: provider_table_def mapper_table_def provider_of_def)
next
  case False
  moreover have "fst ` set mapper_table = fst ` set provider_table"
    by (auto simp: provider_table_def mapper_table_def)
  ultimately show ?thesis by (simp only: map_of_eq_None_iff if_False not_False_eq_True)
qed

lemma internal_of_unknown:
  "s \<notin> fst ` set provider_table \<Longrightarrow> internal_of (provider_of s) = PS_PENDING"
  by (simp add: provider_of_def map_of_eq_None_iff [THEN iffD2])

lemma mapAsaasStatusToInternal_eq:
  "mapAsaasStatusToInternal s = (case normalize_provider s of None \<Rightarrow> PS_PENDING | Some p \<Rightarrow> internal_of p)"
proof (cases "trim_upper s")
  case None
  then have "js_upper (js_trim (case s of None \<Rightarrow> [] | Some t \<Rightarrow> t)) = []"
    by (auto simp: trim_upper_def js_trim_def Let_def split: option.splits if_splits)
  then show ?thesis using None by (simp add: mapAsaasStatusToInternal_def normalize_provider_def)
next
  case (Some u)
  then have u: "js_upper (js_trim (case s of None \<Rightarrow> [] | Some t \<Rightarrow> t)) = u" "u \<noteq> []"
    by (auto simp: trim_upper_def Let_def split: option.splits if_splits)
  show ?thesis
    unfolding mapAsaasStatusToInternal_def u(1) Let_def mapper_table_internal
    using u(2) Some by (simp add: normalize_provider_def internal_of_unknown)
qed

lemma mapper_table_Nil: "map_of mapper_table [] = None" "map_of mapper_table (js_upper []) = None"
  by (simp_all add: mapper_table_def js_upper_def)

lemma mapAsaasToInternalStatus_eq: "mapAsaasToInternalStatus s = mapAsaasStatusToInternal s"
proof (cases s)
  case None
  then show ?thesis
    by (simp add: mapAsaasToInternalStatus_def mapAsaasStatusToInternal_def js_trim_def)
next
  case (Some t)
  have "js_trim [] = []" by (simp add: js_trim_def)
  then show ?thesis
    using Some by (cases "t = []"; cases "js_upper (js_trim t) = []")
      (simp_all add: mapAsaasToInternalStatus_def mapAsaasStatusToInternal_def core_table_eq
        mapper_table_Nil)
qed

lemma getAsaasStatusesFor_mem:
  "t \<in> set (getAsaasStatusesFor i) \<longleftrightarrow> map_of core_table t = Some i"
proof -
  have "distinct (map fst core_table)" by (simp add: core_table_def)
  then show ?thesis by (force simp: getAsaasStatusesFor_def map_of_eq_Some_iff)
qed

text \<open>
  The two copies of the provider status mapping agree on every string, trimming and
  case included, and \<^verbatim>\<open>getAsaasStatusesFor\<close> is the exact inverse image of the mapping over the
  documented provider statuses.
\<close>

theorem status_mappings_agree:
  "mapAsaasToInternalStatus s = mapAsaasStatusToInternal s \<and>
   (t \<in> set (getAsaasStatusesFor i) \<longleftrightarrow>
      t \<in> fst ` set provider_table \<and> mapAsaasStatusToInternal (Some t) = i)"
proof
  show "mapAsaasToInternalStatus s = mapAsaasStatusToInternal s" by (rule mapAsaasToInternalStatus_eq)
  have norm: "js_upper (js_trim t) = t \<and> t \<noteq> []" if "t \<in> fst ` set provider_table"
    using that unfolding provider_table_def
    by (auto simp: js_trim_def js_space_def js_upper_def js_upper_char_def)
  show "t \<in> set (getAsaasStatusesFor i) \<longleftrightarrow>
      t \<in> fst ` set provider_table \<and> mapAsaasStatusToInternal (Some t) = i"
  proof (cases "t \<in> fst ` set provider_table")
    case True
    then show ?thesis
      using norm mapper_table_internal [of t]
      by (simp add: getAsaasStatusesFor_mem core_table_eq mapAsaasStatusToInternal_def)
  next
    case False
    then show ?thesis by (simp add: getAsaasStatusesFor_mem core_table_eq mapper_table_internal)
  qed
qed

section \<open>Precedences\<close>

lemma inj_cobranca_rank: "inj cobranca_rank"
proof (rule injI)
  fix a b assume "cobranca_rank a = cobranca_rank b"
  then show "a = b" by (cases a; cases b) simp_all
qed

lemma inj_charge_rank: "inj charge_rank"
proof (rule injI)
  fix a b assume "charge_rank a = charge_rank b"
  then show "a = b" by (cases a; cases b) simp_all
qed

text \<open>The special case of \<^verbatim>\<open>canProgressChargeStatus\<close> is implied by the ranks.\<close>

lemma canProgressChargeStatus_rank: "canProgressChargeStatus c n \<longleftrightarrow> charge_rank c \<le> charge_rank n"
  by (auto simp: canProgressChargeStatus_def)

interpretation cobranca: strict_progression canProgressCobrancaStatus
  using strict_progression_rank [OF inj_cobranca_rank] by (simp add: canProgressCobrancaStatus_def [abs_def])

interpretation charge: strict_progression canProgressChargeStatus
  using strict_progression_rank [OF inj_charge_rank] by (simp add: canProgressChargeStatus_rank [abs_def])

interpretation core_cobranca: progression core_canProgressCobrancaStatus
  using progression_rank [of core_cobranca_rank] by (simp add: core_canProgressCobrancaStatus_def [abs_def])

interpretation core_charge: progression core_canProgressChargeStatus
  using progression_rank [of core_charge_rank] by (simp add: core_canProgressChargeStatus_def [abs_def])

interpretation core_internal: progression core_canProgressInternalStatus
  using progression_rank [of core_internal_rank] by (simp add: core_canProgressInternalStatus_def [abs_def])

lemma applyCobrancaStatusPrecedence_advance:
  "applyCobrancaStatusPrecedence = advance core_canProgressCobrancaStatus"
  by (simp add: fun_eq_iff applyCobrancaStatusPrecedence_def advance_def)

text \<open>
  The two precedence tables of the charge status do not describe the same order: they
  agree on every pair of statuses except three. The core module lets a charge go from
  due-in-the-future to due and from refunded to partially refunded, the mapper module
  forbids both, and only the mapper lets a due charge become due in the future again.
\<close>

theorem cobranca_precedences_differ:
  "(canProgressCobrancaStatus c n \<longleftrightarrow> core_canProgressCobrancaStatus c n) \<longleftrightarrow>
     (c, n) \<notin> {(PENDENTE, A_VENCER), (A_VENCER, PENDENTE), (ESTORNADO, ESTORNADO_PARCIAL)}"
  by (cases c; cases n) (simp_all add: canProgressCobrancaStatus_def core_canProgressCobrancaStatus_def)

section \<open>The provider snapshot\<close>

lemma paid_not_open: "c \<in> paid_like \<Longrightarrow> c \<notin> open_like"
  by (auto simp: paid_like_def open_like_def)

lemma snapshot_source: "monotonic_snapshot settled c i = c \<or> monotonic_snapshot settled c i = i"
  by (auto simp: monotonic_snapshot_def split: option.split)

definition snapshot_rank :: "provider_status option \<Rightarrow> nat" where
  "snapshot_rank p = (case p of None \<Rightarrow> 0 | Some q \<Rightarrow> provider_rank q)"

lemma snapshot_monotone:
  assumes "settled \<or> (\<forall>p. c = Some p \<longrightarrow> p \<notin> paid_like)"
  shows "snapshot_rank c \<le> snapshot_rank (monotonic_snapshot settled c i)"
  using assms by (cases c; cases i) (auto simp: snapshot_rank_def monotonic_snapshot_def)

lemma snapshot_idem:
  "monotonic_snapshot settled (monotonic_snapshot settled c i) i = monotonic_snapshot settled c i"
  by (cases c; cases i) (auto simp: monotonic_snapshot_def paid_not_open)

text \<open>
  The snapshot of the provider's status is monotone: whatever statuses arrive, in any
  order, while the local charge is settled it never falls below the rank it had; it is
  always the old status or one that arrived; and processing a status twice changes nothing.
  The one permitted fall is a paid snapshot of an unsettled charge that is open again.
\<close>

theorem provider_snapshot_monotone:
  "snapshot_rank c \<le> snapshot_rank (foldl (monotonic_snapshot True) c incoming) \<and>
   foldl (monotonic_snapshot True) c incoming \<in> insert c (set incoming) \<and>
   monotonic_snapshot settled (monotonic_snapshot settled c i) i = monotonic_snapshot settled c i \<and>
   (snapshot_rank (monotonic_snapshot settled c i) < snapshot_rank c \<longleftrightarrow>
      \<not> settled \<and> (\<exists>p q. c = Some p \<and> i = Some q \<and> p \<in> paid_like \<and> q \<in> open_like))"
proof (intro conjI)
  show "snapshot_rank c \<le> snapshot_rank (foldl (monotonic_snapshot True) c incoming)"
  proof (induction incoming arbitrary: c)
    case (Cons j js)
    show ?case using snapshot_monotone [of True c j] Cons.IH [of "monotonic_snapshot True c j"] by simp
  qed simp
  show "foldl (monotonic_snapshot True) c incoming \<in> insert c (set incoming)"
  proof (induction incoming arbitrary: c)
    case (Cons j js)
    show ?case using snapshot_source [of True c j] Cons.IH [of "monotonic_snapshot True c j"] by auto
  qed simp
  show "monotonic_snapshot settled (monotonic_snapshot settled c i) i = monotonic_snapshot settled c i"
    by (rule snapshot_idem)
  show "snapshot_rank (monotonic_snapshot settled c i) < snapshot_rank c \<longleftrightarrow>
      \<not> settled \<and> (\<exists>p q. c = Some p \<and> i = Some q \<and> p \<in> paid_like \<and> q \<in> open_like)"
    by (cases c; cases i)
      (auto simp: snapshot_rank_def monotonic_snapshot_def paid_like_def open_like_def split: if_splits)
qed

end
