(* ===== verification/PaymentMachine.thy ===== *)
theory PaymentMachine
  imports PaymentStatus
begin

text \<open>
  The payment state machine: the next status of a charge from a provider event
  (\<^verbatim>\<open>computeNextCobrancaStatus\<close>, \<^verbatim>\<open>computeNextChargeStatus\<close> and
  \<^verbatim>\<open>resolveInternalPaymentStatus\<close> of \<^verbatim>\<open>packages/finance/src/mappers/status-precedence.ts\<close>), the
  explicit transition matrix over it
  (\<^verbatim>\<open>packages/finance/src/state-machine/payment-state-machine.ts\<close>). The lemmas reduce a
  decision to the pure function \<open>settle\<close> over normalised inputs; runs over webhook deliveries
  are folds of it, and \<open>reaches\<close> is the step relation of those runs.

  Dates are time values (\<open>None\<close> when invalid); a comparison with an invalid date is false.
\<close>

datatype decision_reason = ASAAS_STATUS_APPLIED | EVENT_FALLBACK_APPLIED | OUT_OF_ORDER_EVENT_IGNORED
  | REGRESSION_BLOCKED | STATUS_ALREADY_APPLIED | EVENT_NOT_ALLOWED_FROM_STATE | TERMINAL_STATE
  | PROVIDER_SNAPSHOT_ONLY | UNKNOWN_EVENT_REQUIRES_RECONCILIATION

datatype decision_kind = APPLY | NOOP | RECONCILE | MANUAL_REVIEW

datatype state_source = WEBHOOK | RECONCILIATION | MANUAL_VERIFY

section \<open>computeNextCobrancaStatus\<close>

text \<open>\<^verbatim>\<open>if (eventName)\<close>: present and not empty.\<close>

definition event_truthy :: "payment_event option \<Rightarrow> bool" where
  "event_truthy e \<longleftrightarrow> e \<noteq> None \<and> e \<noteq> Some (EV_Other [])"

definition is_cash_billing :: "string option \<Rightarrow> bool" where
  "is_cash_billing billingType \<longleftrightarrow> trim_upper billingType = Some ''RECEIVED_IN_CASH''"

text \<open>The status an event stands for while the payload still says \<^verbatim>\<open>PENDING\<close>.\<close>

fun pending_event_status :: "payment_event \<Rightarrow> payment_status" where
  "pending_event_status EV_CONFIRMED = PS_CONFIRMED"
| "pending_event_status EV_RECEIVED = PS_CONFIRMED"
| "pending_event_status EV_RECEIVED_IN_CASH = PS_RECEIVED_IN_CASH"
| "pending_event_status EV_REFUNDED = PS_REFUNDED"
| "pending_event_status EV_REFUND_REQUESTED = PS_REFUNDED"
| "pending_event_status EV_REFUND_IN_PROGRESS = PS_REFUNDED"
| "pending_event_status EV_CHARGEBACK_REQUESTED = PS_CHARGEBACK"
| "pending_event_status EV_CHARGEBACK_DISPUTE = PS_CHARGEBACK"
| "pending_event_status EV_AWAITING_CHARGEBACK_REVERSAL = PS_CHARGEBACK"
| "pending_event_status EV_CANCELED = PS_CANCELLED"
| "pending_event_status EV_DELETED = PS_CANCELLED"
| "pending_event_status EV_OVERDUE = PS_OVERDUE"
| "pending_event_status EV_DUNNING_REQUESTED = PS_OVERDUE"
| "pending_event_status EV_DUNNING_RECEIVED = PS_OVERDUE"
| "pending_event_status _ = PS_PENDING"

definition compute_internal ::
    "payment_event option \<Rightarrow> payment_status option \<Rightarrow> bool \<Rightarrow> payment_status option" where
  "compute_internal e mapped cash =
     (let internal = (if cash \<and> (mapped = None \<or> mapped = Some PS_PENDING) \<and>
            e \<in> {Some EV_RECEIVED, Some EV_CONFIRMED, Some EV_RECEIVED_IN_CASH}
          then Some PS_RECEIVED_IN_CASH else mapped)
      in if internal = Some PS_PENDING \<and> event_truthy e
         then Some (pending_event_status (the e)) else internal)"

definition open_status :: "date_value option \<Rightarrow> date_value \<Rightarrow> cobranca_status" where
  "open_status due now_date = (case (due, now_date) of
       (Some (Some d), Some n) \<Rightarrow> if n < d then A_VENCER else PENDENTE
     | _ \<Rightarrow> A_VENCER)"

definition compute_candidate ::
    "cobranca_status \<Rightarrow> payment_event option \<Rightarrow> payment_status option \<Rightarrow> date_value option \<Rightarrow> date_value
       \<Rightarrow> cobranca_status \<times> decision_reason" where
  "compute_candidate current e internal due now_date = (case internal of
       Some PS_CONFIRMED \<Rightarrow> (PAGO, ASAAS_STATUS_APPLIED)
     | Some PS_RECEIVED_IN_CASH \<Rightarrow> (PAGO, ASAAS_STATUS_APPLIED)
     | Some PS_OVERDUE \<Rightarrow> (ATRASADO, ASAAS_STATUS_APPLIED)
     | Some PS_REFUNDED \<Rightarrow> (ESTORNADO, ASAAS_STATUS_APPLIED)
     | Some PS_CHARGEBACK \<Rightarrow> (ESTORNADO, ASAAS_STATUS_APPLIED)
     | Some PS_CANCELLED \<Rightarrow> (CANCELADO, ASAAS_STATUS_APPLIED)
     | Some PS_PENDING \<Rightarrow> (open_status due now_date, ASAAS_STATUS_APPLIED)
     | None \<Rightarrow>
         if \<not> event_truthy e then (current, STATUS_ALREADY_APPLIED)
         else (case the e of
             EV_CONFIRMED \<Rightarrow> (PAGO, EVENT_FALLBACK_APPLIED)
           | EV_RECEIVED \<Rightarrow> (PAGO, EVENT_FALLBACK_APPLIED)
           | EV_RECEIVED_IN_CASH \<Rightarrow> (PAGO, EVENT_FALLBACK_APPLIED)
           | EV_OVERDUE \<Rightarrow> (ATRASADO, EVENT_FALLBACK_APPLIED)
           | EV_DELETED \<Rightarrow> (CANCELADO, EVENT_FALLBACK_APPLIED)
           | EV_CANCELED \<Rightarrow> (CANCELADO, EVENT_FALLBACK_APPLIED)
           | _ \<Rightarrow> (open_status due now_date, EVENT_FALLBACK_APPLIED)))"

text \<open>The final check of a candidate against the current status.\<close>

definition compute_gate ::
    "cobranca_status \<Rightarrow> payment_event option \<Rightarrow> payment_status option \<Rightarrow> cobranca_status \<Rightarrow> decision_reason
       \<Rightarrow> cobranca_status \<times> decision_reason" where
  "compute_gate current e internal candidate reason =
     (if canProgressCobrancaStatus current candidate then
        if candidate = current then (current, STATUS_ALREADY_APPLIED) else (candidate, reason)
      else if e = Some EV_RECEIVED_IN_CASH_UNDONE \<and> current = PAGO \<and>
          candidate \<in> {PENDENTE, A_VENCER, ATRASADO} then (candidate, reason)
      else if e = Some EV_RESTORED \<and> current \<in> {CANCELADO, CANCELAMENTO_PENDENTE} \<and>
          candidate \<in> {PENDENTE, A_VENCER} then (candidate, reason)
      else if internal \<in> {Some PS_CANCELLED, Some PS_REFUNDED, Some PS_CHARGEBACK} \<or>
          e \<in> {Some EV_DELETED, Some EV_REFUNDED} then (candidate, ASAAS_STATUS_APPLIED)
      else (current, if internal = Some PS_PENDING \<or> e = Some EV_CREATED
                     then OUT_OF_ORDER_EVENT_IGNORED else REGRESSION_BLOCKED))"

definition computeNextCobrancaStatus ::
    "cobranca_status \<Rightarrow> payment_event option \<Rightarrow> string option \<Rightarrow> string option \<Rightarrow> date_value option \<Rightarrow> date_value
       \<Rightarrow> cobranca_status \<times> decision_reason" where
  "computeNextCobrancaStatus current e asaasStatus billingType due now_date =
     (if e = Some EV_PARTIALLY_REFUNDED then
        if current = ESTORNADO_PARCIAL then (current, STATUS_ALREADY_APPLIED)
        else if canProgressCobrancaStatus current ESTORNADO_PARCIAL
        then (ESTORNADO_PARCIAL, EVENT_FALLBACK_APPLIED)
        else (current, REGRESSION_BLOCKED)
      else if asaasStatus = Some ''AWAITING_RISK_ANALYSIS'' then
        if canProgressCobrancaStatus current PROCESSANDO then
          if PROCESSANDO = current then (current, STATUS_ALREADY_APPLIED)
          else (PROCESSANDO, ASAAS_STATUS_APPLIED)
        else (current, REGRESSION_BLOCKED)
      else
        let internal = compute_internal e (map_option (\<lambda>s. mapAsaasStatusToInternal (Some s)) asaasStatus)
              (is_cash_billing billingType)
        in if e = Some EV_DELETED \<or> asaasStatus = Some ''DELETED'' then
             if current \<in> {CANCELADO, ESTORNADO, ESTORNADO_PARCIAL}
             then (current, STATUS_ALREADY_APPLIED) else (CANCELADO, ASAAS_STATUS_APPLIED)
           else case compute_candidate current e internal due now_date of
             (candidate, reason) \<Rightarrow> compute_gate current e internal candidate reason)"

section \<open>computeNextChargeStatus and resolveInternalPaymentStatus\<close>

definition computeNextChargeStatus ::
    "charge_status \<Rightarrow> payment_status \<Rightarrow> payment_event option \<Rightarrow> charge_status" where
  "computeNextChargeStatus current internal e =
     (if current \<in> {CS_CANCELED, CS_REFUNDED} then
        if current = CS_CANCELED \<and> e = Some EV_RESTORED then CS_OPEN else current
      else case internal of
        PS_CONFIRMED \<Rightarrow> CS_PAID
      | PS_RECEIVED_IN_CASH \<Rightarrow> CS_PAID
      | PS_OVERDUE \<Rightarrow> CS_OVERDUE
      | PS_REFUNDED \<Rightarrow> CS_REFUNDED
      | PS_CHARGEBACK \<Rightarrow> CS_REFUNDED
      | PS_CANCELLED \<Rightarrow> CS_CANCELED
      | PS_PENDING \<Rightarrow>
          if e = Some EV_RECEIVED_IN_CASH_UNDONE \<and> current = CS_PAID then CS_OPEN
          else if charge_rank CS_OPEN \<le> charge_rank current then current else CS_OPEN)"

definition resolveInternalPaymentStatus ::
    "payment_event option \<Rightarrow> string option \<Rightarrow> string option \<Rightarrow> bool option \<Rightarrow> payment_status" where
  "resolveInternalPaymentStatus e asaasStatus billingType deleted =
     (if deleted = Some True then PS_CANCELLED
      else
        let normalized = trim_upper asaasStatus;
            internal = mapAsaasStatusToInternal (case normalized of None \<Rightarrow> Some ''PENDING'' | Some s \<Rightarrow> Some s)
        in if is_cash_billing billingType \<and> normalized \<in> {None, Some ''PENDING''} \<and>
              e \<in> {Some EV_RECEIVED_IN_CASH, Some EV_RECEIVED, Some EV_CONFIRMED}
           then PS_RECEIVED_IN_CASH
           else if normalized \<in> {None, Some ''PENDING''}
           then (case e of None \<Rightarrow> PS_PENDING | Some ev \<Rightarrow> pending_event_status ev)
           else internal)"

section \<open>payment-state-machine.ts\<close>

definition terminal_cobranca :: "cobranca_status set" where
  "terminal_cobranca = {ESTORNADO, CANCELADO}"

definition refund_events :: "payment_event set" where
  "refund_events = {EV_REFUNDED, EV_REFUND_REQUESTED, EV_REFUND_IN_PROGRESS, EV_CHARGEBACK_REQUESTED,
     EV_CHARGEBACK_DISPUTE, EV_AWAITING_CHARGEBACK_REVERSAL}"

definition confirmation_events :: "payment_event set" where
  "confirmation_events = {EV_CONFIRMED, EV_RECEIVED, EV_RECEIVED_IN_CASH}"

definition open_events :: "payment_event set" where
  "open_events = {EV_CREATED, EV_UPDATED, EV_OVERDUE, EV_DUNNING_REQUESTED}"

definition isRegularActiveStatus :: "cobranca_status \<Rightarrow> bool" where
  "isRegularActiveStatus s \<longleftrightarrow> s \<in> {PENDENTE, A_VENCER, PROCESSANDO, ATRASADO}"

definition isAllowedCobrancaTransition ::
    "cobranca_status \<Rightarrow> cobranca_status \<Rightarrow> payment_event option \<Rightarrow> provider_status option \<Rightarrow> bool" where
  "isAllowedCobrancaTransition current next_status e previous =
     (if current = next_status then True
      else case e of None \<Rightarrow> False
      | Some ev \<Rightarrow>
          if ev = EV_RECEIVED_IN_CASH_UNDONE
          then current = PAGO \<and> next_status \<in> {PENDENTE, A_VENCER, ATRASADO}
          else if ev = EV_RESTORED
          then current \<in> {CANCELADO, CANCELAMENTO_PENDENTE} \<and> next_status \<in> {PENDENTE, A_VENCER}
          else if ev = EV_PARTIALLY_REFUNDED then current = PAGO \<and> next_status = ESTORNADO_PARCIAL
          else if ev \<in> refund_events
          then current \<notin> terminal_cobranca \<and> next_status \<in> {ESTORNADO, ESTORNADO_PARCIAL}
          else if ev = EV_DELETED \<or> ev = EV_CANCELED
          then current \<notin> terminal_cobranca \<and> next_status = CANCELADO
          else if ev \<in> confirmation_events
          then (isRegularActiveStatus current \<or>
                current = ESTORNADO \<and> previous = Some AS_AWAITING_CHARGEBACK_REVERSAL) \<and> next_status = PAGO
          else if ev = EV_AWAITING_RISK_ANALYSIS
          then isRegularActiveStatus current \<and> next_status = PROCESSANDO
          else if ev \<in> {EV_OVERDUE, EV_DUNNING_REQUESTED, EV_DUNNING_RECEIVED}
          then isRegularActiveStatus current \<and> next_status = ATRASADO
          else if ev \<in> open_events
          then isRegularActiveStatus current \<and> next_status \<in> {PENDENTE, A_VENCER, PROCESSANDO, ATRASADO}
          else False)"

fun cobranca_text :: "cobranca_status \<Rightarrow> string" where
  "cobranca_text A_VENCER = ''A_VENCER''"
| "cobranca_text PENDENTE = ''PENDENTE''"
| "cobranca_text PROCESSANDO = ''PROCESSANDO''"
| "cobranca_text PAGO = ''PAGO''"
| "cobranca_text ATRASADO = ''ATRASADO''"
| "cobranca_text CANCELAMENTO_PENDENTE = ''CANCELAMENTO_PENDENTE''"
| "cobranca_text CANCELADO = ''CANCELADO''"
| "cobranca_text ESTORNADO = ''ESTORNADO''"
| "cobranca_text ESTORNADO_PARCIAL = ''ESTORNADO_PARCIAL''"

fun charge_text :: "charge_status \<Rightarrow> string" where
  "charge_text CS_CREATED = ''CREATED''"
| "charge_text CS_PENDING_SYNC = ''PENDING_SYNC''"
| "charge_text CS_OPEN = ''OPEN''"
| "charge_text CS_OVERDUE = ''OVERDUE''"
| "charge_text CS_PAID = ''PAID''"
| "charge_text CS_REFUNDED = ''REFUNDED''"
| "charge_text CS_CANCELED = ''CANCELED''"

record 'a state_decision =
  sd_kind :: decision_kind
  sd_previousLocalStatus :: 'a
  sd_nextLocalStatus :: 'a
  sd_previousProviderStatus :: "provider_status option"
  sd_nextProviderStatus :: "provider_status option"
  sd_reason :: decision_reason
  sd_eventName :: "payment_event option"

record cobranca_transition_input =
  ti_currentLocalStatus :: cobranca_status
  ti_currentProviderStatus :: "string option"
  ti_incomingProviderStatus :: "string option"
  ti_eventName :: "string option"
  ti_billingType :: "string option"
  ti_dueDate :: "date_value option"
  ti_now :: date_value
  ti_source :: state_source

definition decideCobrancaPaymentTransition ::
    "cobranca_transition_input \<Rightarrow> cobranca_status state_decision" where
  "decideCobrancaPaymentTransition i =
     (let current = ti_currentLocalStatus i;
          e = normalize_event (ti_eventName i);
          previous = normalize_provider (ti_currentProviderStatus i);
          incoming = normalize_provider (ti_incomingProviderStatus i);
          next_provider = resolveMonotonicAsaasPaymentStatus (trim_upper (ti_currentProviderStatus i))
            (trim_upper (ti_incomingProviderStatus i)) None (Some (cobranca_text current));
          computed = computeNextCobrancaStatus current e (trim_upper (ti_incomingProviderStatus i))
            (ti_billingType i) (ti_dueDate i) (ti_now i);
          reversal = (e \<in> Some ` confirmation_events \<and> current = ESTORNADO \<and>
            previous = Some AS_AWAITING_CHARGEBACK_REVERSAL \<and> incoming \<in> Some ` paid_like);
          candidate = (if reversal then PAGO else fst computed)
      in if candidate = current then
           \<lparr>sd_kind = (if e \<in> Some ` open_events \<and> current \<in> terminal_cobranca then RECONCILE else NOOP),
            sd_previousLocalStatus = current, sd_nextLocalStatus = current,
            sd_previousProviderStatus = previous, sd_nextProviderStatus = next_provider,
            sd_reason = (if reversal then ASAAS_STATUS_APPLIED else snd computed), sd_eventName = e\<rparr>
         else if isAllowedCobrancaTransition current candidate e previous then
           \<lparr>sd_kind = APPLY,
            sd_previousLocalStatus = current, sd_nextLocalStatus = candidate,
            sd_previousProviderStatus = previous, sd_nextProviderStatus = next_provider,
            sd_reason = (if reversal then ASAAS_STATUS_APPLIED else snd computed), sd_eventName = e\<rparr>
         else
           \<lparr>sd_kind = (if ti_source i = WEBHOOK then NOOP else RECONCILE),
            sd_previousLocalStatus = current, sd_nextLocalStatus = current,
            sd_previousProviderStatus = previous, sd_nextProviderStatus = next_provider,
            sd_reason = (if e \<noteq> None \<and> e \<notin> Some ` open_events then EVENT_NOT_ALLOWED_FROM_STATE
              else if snd computed = OUT_OF_ORDER_EVENT_IGNORED then OUT_OF_ORDER_EVENT_IGNORED
              else UNKNOWN_EVENT_REQUIRES_RECONCILIATION),
            sd_eventName = e\<rparr>)"

record charge_transition_input =
  hi_currentLocalStatus :: charge_status
  hi_currentProviderStatus :: "string option"
  hi_incomingProviderStatus :: "string option"
  hi_internalStatus :: payment_status
  hi_eventName :: "string option"
  hi_source :: state_source

definition decideChargePaymentTransition :: "charge_transition_input \<Rightarrow> charge_status state_decision" where
  "decideChargePaymentTransition i =
     (let current = hi_currentLocalStatus i;
          e = normalize_event (hi_eventName i);
          previous = normalize_provider (hi_currentProviderStatus i);
          next_provider = resolveMonotonicAsaasPaymentStatus (trim_upper (hi_currentProviderStatus i))
            (trim_upper (hi_incomingProviderStatus i)) (Some (charge_text current)) None;
          reversal = (current = CS_REFUNDED \<and> previous = Some AS_AWAITING_CHARGEBACK_REVERSAL \<and>
            hi_internalStatus i \<in> {PS_CONFIRMED, PS_RECEIVED_IN_CASH});
          next_status = (if reversal then CS_PAID else computeNextChargeStatus current (hi_internalStatus i) e);
          decision = (\<lambda>kind final reason. \<lparr>sd_kind = kind, sd_previousLocalStatus = current,
            sd_nextLocalStatus = final, sd_previousProviderStatus = previous,
            sd_nextProviderStatus = next_provider, sd_reason = reason, sd_eventName = e\<rparr>)
      in if next_status = current then decision NOOP next_status STATUS_ALREADY_APPLIED
         else if (reversal \<and> next_status = CS_PAID) \<or> canApplyChargeStatusTransition current next_status e
         then decision APPLY next_status ASAAS_STATUS_APPLIED
         else decision (if hi_source i = WEBHOOK then NOOP else RECONCILE) current OUT_OF_ORDER_EVENT_IGNORED)"

section \<open>The machine over normalised inputs\<close>

lemma normalize_provider_Some: "trim_upper s = Some t \<longleftrightarrow> normalize_provider s = Some (provider_of t)"
  by (simp add: normalize_provider_def)

lemma provider_of_names:
  "provider_of ''DELETED'' = AS_DELETED" "provider_of ''AWAITING_RISK_ANALYSIS'' = AS_AWAITING_RISK_ANALYSIS"
  by (simp_all add: provider_of_def provider_table_def)

lemma normalize_provider_eq [simp]:
  "trim_upper s = Some ''DELETED'' \<longleftrightarrow> normalize_provider s = Some AS_DELETED"
  "trim_upper s = Some ''AWAITING_RISK_ANALYSIS'' \<longleftrightarrow> normalize_provider s = Some AS_AWAITING_RISK_ANALYSIS"
  by (simp_all only: normalize_provider_Some provider_of_names)

lemma normalize_provider_trim [simp]: "normalize_provider (trim_upper s) = normalize_provider s"
  by (simp add: normalize_provider_def trim_upper_idem)

lemma normalize_provider_None [simp]: "normalize_provider None = None"
  by (simp add: normalize_provider_def trim_upper_def)

lemma trim_upper_not_Nil: "trim_upper s \<noteq> Some []"
  by (auto simp: trim_upper_def Let_def split: option.splits)

lemma event_of_Other: "event_of u = EV_Other v \<Longrightarrow> u = v"
  using event_text_of [of u] by (simp add: event_text_def)

lemma normalize_event_truthy [simp]: "event_truthy (normalize_event s) \<longleftrightarrow> normalize_event s \<noteq> None"
  using trim_upper_not_Nil [of s]
  by (auto simp: normalize_event_def event_truthy_def dest: event_of_Other)

lemma mapAsaasStatusToInternal_Some:
  "trim_upper s = Some t \<Longrightarrow> mapAsaasStatusToInternal (Some t) = internal_of (provider_of t)"
  using normalize_provider_trim [of s]
  by (simp add: mapAsaasStatusToInternal_eq normalize_provider_def)

lemma mapped_internal:
  "map_option (\<lambda>t. mapAsaasStatusToInternal (Some t)) (trim_upper s) = map_option internal_of (normalize_provider s)"
  by (cases "trim_upper s") (simp_all add: normalize_provider_def mapAsaasStatusToInternal_Some)

lemma settled_cobranca: "isLocalPaymentSettled None (Some (cobranca_text c)) \<longleftrightarrow> c = PAGO"
  by (cases c) (simp_all add: isLocalPaymentSettled_def trim_upper_def js_trim_def js_space_def
    js_upper_def js_upper_char_def)

lemma settled_charge: "isLocalPaymentSettled (Some (charge_text c)) None \<longleftrightarrow> c = CS_PAID"
  by (cases c) (simp_all add: isLocalPaymentSettled_def trim_upper_def js_trim_def js_space_def
    js_upper_def js_upper_char_def)

text \<open>The status of \<open>computeNextCobrancaStatus\<close>, without its reason.\<close>

definition gate_status ::
    "cobranca_status \<Rightarrow> payment_event option \<Rightarrow> payment_status option \<Rightarrow> cobranca_status \<Rightarrow> cobranca_status" where
  "gate_status c e internal n =
     (if canProgressCobrancaStatus c n then n
      else if e = Some EV_RECEIVED_IN_CASH_UNDONE \<and> c = PAGO \<and> n \<in> {PENDENTE, A_VENCER, ATRASADO} then n
      else if e = Some EV_RESTORED \<and> c \<in> {CANCELADO, CANCELAMENTO_PENDENTE} \<and> n \<in> {PENDENTE, A_VENCER} then n
      else if internal \<in> {Some PS_CANCELLED, Some PS_REFUNDED, Some PS_CHARGEBACK} \<or>
        e \<in> {Some EV_DELETED, Some EV_REFUNDED} then n
      else c)"

lemma fst_compute_gate: "fst (compute_gate c e internal n r) = gate_status c e internal n"
  by (auto simp: compute_gate_def gate_status_def)

definition compute_status ::
    "cobranca_status \<Rightarrow> payment_event option \<Rightarrow> provider_status option \<Rightarrow> bool \<Rightarrow> date_value option \<Rightarrow> date_value
       \<Rightarrow> cobranca_status" where
  "compute_status c e p cash due now_date =
     (if e = Some EV_PARTIALLY_REFUNDED
      then if canProgressCobrancaStatus c ESTORNADO_PARCIAL then ESTORNADO_PARCIAL else c
      else if p = Some AS_AWAITING_RISK_ANALYSIS
      then if canProgressCobrancaStatus c PROCESSANDO then PROCESSANDO else c
      else if e = Some EV_DELETED \<or> p = Some AS_DELETED
      then if c \<in> {CANCELADO, ESTORNADO, ESTORNADO_PARCIAL} then c else CANCELADO
      else let internal = compute_internal e (map_option internal_of p) cash
           in gate_status c e internal (fst (compute_candidate c e internal due now_date)))"

lemma computeNextCobrancaStatus_status:
  "fst (computeNextCobrancaStatus c e (trim_upper s) b due now_date) =
     compute_status c e (normalize_provider s) (is_cash_billing b) due now_date"
  by (simp add: computeNextCobrancaStatus_def compute_status_def mapped_internal Let_def
      fst_compute_gate case_prod_unfold)

text \<open>The status the transition matrix settles on.\<close>

definition reversal ::
    "cobranca_status \<Rightarrow> payment_event option \<Rightarrow> provider_status option \<Rightarrow> provider_status option \<Rightarrow> bool" where
  "reversal c e previous incoming \<longleftrightarrow> e \<in> Some ` confirmation_events \<and> c = ESTORNADO \<and>
     previous = Some AS_AWAITING_CHARGEBACK_REVERSAL \<and> incoming \<in> Some ` paid_like"

definition settle ::
    "cobranca_status \<Rightarrow> payment_event option \<Rightarrow> provider_status option \<Rightarrow> provider_status option \<Rightarrow> bool
       \<Rightarrow> date_value option \<Rightarrow> date_value \<Rightarrow> cobranca_status" where
  "settle c e previous incoming cash due now_date =
     (let n = (if reversal c e previous incoming then PAGO else compute_status c e incoming cash due now_date)
      in if isAllowedCobrancaTransition c n e previous then n else c)"

abbreviation settle_input :: "cobranca_transition_input \<Rightarrow> cobranca_status" where
  "settle_input i \<equiv> settle (ti_currentLocalStatus i) (normalize_event (ti_eventName i))
     (normalize_provider (ti_currentProviderStatus i)) (normalize_provider (ti_incomingProviderStatus i))
     (is_cash_billing (ti_billingType i)) (ti_dueDate i) (ti_now i)"

lemma decide_next: "sd_nextLocalStatus (decideCobrancaPaymentTransition i) = settle_input i"
  by (simp add: decideCobrancaPaymentTransition_def settle_def reversal_def
      computeNextCobrancaStatus_status Let_def)

lemma decide_kind: "sd_kind (decideCobrancaPaymentTransition i) = APPLY \<longleftrightarrow> settle_input i \<noteq> ti_currentLocalStatus i"
  by (auto simp: decideCobrancaPaymentTransition_def settle_def reversal_def
      computeNextCobrancaStatus_status Let_def)

lemma decide_provider:
  "sd_nextProviderStatus (decideCobrancaPaymentTransition i) =
     monotonic_snapshot (ti_currentLocalStatus i = PAGO) (normalize_provider (ti_currentProviderStatus i))
       (normalize_provider (ti_incomingProviderStatus i))"
  by (simp add: decideCobrancaPaymentTransition_def resolveMonotonicAsaasPaymentStatus_def
      settled_cobranca Let_def)

lemmas progress_defs = canProgressCobrancaStatus_def isRegularActiveStatus_def terminal_cobranca_def

lemma open_status_cases: "open_status due n = A_VENCER \<or> open_status due n = PENDENTE"
  by (auto simp: open_status_def split: option.splits)

text \<open>A candidate below the current status comes from one of the documented exceptions.\<close>

lemma gate_regression:
  assumes "gate_status c e internal n \<noteq> c" "cobranca_rank (gate_status c e internal n) < cobranca_rank c"
  shows "e = Some EV_RECEIVED_IN_CASH_UNDONE \<and> c = PAGO \<or>
    e = Some EV_RESTORED \<and> c \<in> {CANCELADO, CANCELAMENTO_PENDENTE} \<or>
    internal \<in> {Some PS_CANCELLED, Some PS_REFUNDED, Some PS_CHARGEBACK} \<or>
    e \<in> {Some EV_DELETED, Some EV_REFUNDED}"
  using assms by (auto simp: gate_status_def canProgressCobrancaStatus_def split: if_splits)

lemma candidate_terminal:
  "internal \<in> {Some PS_CANCELLED, Some PS_REFUNDED, Some PS_CHARGEBACK} \<Longrightarrow>
     fst (compute_candidate c e internal due n) \<in> {CANCELADO, ESTORNADO}"
  by (auto simp: compute_candidate_def)

lemma compute_status_open_progress:
  assumes "compute_status c e p cash due n = m" "m \<in> {PENDENTE, A_VENCER, PROCESSANDO, ATRASADO}"
    "e \<notin> {Some EV_RECEIVED_IN_CASH_UNDONE, Some EV_RESTORED, Some EV_REFUNDED}"
  shows "cobranca_rank c \<le> cobranca_rank m"
proof (rule ccontr)
  assume lt: "\<not> cobranca_rank c \<le> cobranca_rank m"
  then have ne: "m \<noteq> c" by auto
  let ?i = "compute_internal e (map_option internal_of p) cash"
  have "m = gate_status c e ?i (fst (compute_candidate c e ?i due n))" "e \<noteq> Some EV_DELETED"
    using assms(1,2) ne lt
    by (auto simp: compute_status_def Let_def canProgressCobrancaStatus_def split: if_splits)
  then have "?i \<in> {Some PS_CANCELLED, Some PS_REFUNDED, Some PS_CHARGEBACK}"
    using gate_regression [of c e ?i] ne lt assms(3) by auto
  from candidate_terminal [OF this, of c e due n] \<open>m = _\<close> assms(2) ne
  show False by (auto simp: gate_status_def split: if_splits)
qed

text \<open>The permitted falls.\<close>

definition permitted_fall ::
    "cobranca_status \<Rightarrow> cobranca_status \<Rightarrow> payment_event option \<Rightarrow> provider_status option \<Rightarrow> bool" where
  "permitted_fall c n e previous \<longleftrightarrow>
     (e = Some EV_RECEIVED_IN_CASH_UNDONE \<and> c = PAGO \<and> n \<in> {PENDENTE, A_VENCER, ATRASADO}) \<or>
     (e = Some EV_RESTORED \<and> c \<in> {CANCELADO, CANCELAMENTO_PENDENTE} \<and> n \<in> {PENDENTE, A_VENCER}) \<or>
     (e \<in> Some ` confirmation_events \<and> c = ESTORNADO \<and> n = PAGO \<and>
      previous = Some AS_AWAITING_CHARGEBACK_REVERSAL)"

lemma settle_monotone:
  "cobranca_rank c \<le> cobranca_rank (settle c e previous incoming cash due n) \<or>
   permitted_fall c (settle c e previous incoming cash due n) e previous"
proof -
  define m where "m = (if reversal c e previous incoming then PAGO else compute_status c e incoming cash due n)"
  show ?thesis
  proof (cases "isAllowedCobrancaTransition c m e previous \<and> m \<noteq> c")
    case False
    then have "settle c e previous incoming cash due n = c" by (auto simp: settle_def m_def [symmetric] Let_def)
    then show ?thesis by simp
  next
    case True
    then have s: "settle c e previous incoming cash due n = m" by (simp add: settle_def m_def [symmetric] Let_def)
    show ?thesis
    proof (cases "m \<in> {PENDENTE, A_VENCER, PROCESSANDO, ATRASADO} \<and>
        e \<notin> {Some EV_RECEIVED_IN_CASH_UNDONE, Some EV_RESTORED, Some EV_REFUNDED}")
      case open_state: True
      then have "compute_status c e incoming cash due n = m" by (auto simp: m_def split: if_splits)
      then have "cobranca_rank c \<le> cobranca_rank m"
        using open_state by (intro compute_status_open_progress) auto
      then show ?thesis by (simp add: s)
    next
      case False
      then show ?thesis
        using True unfolding s isAllowedCobrancaTransition_def
        by (cases c) (auto simp: permitted_fall_def terminal_cobranca_def isRegularActiveStatus_def
            refund_events_def split: option.splits if_splits)
    qed
  qed
qed

section \<open>Progress of one decision\<close>

text \<open>
  C25. A decision of the machine never moves a charge backwards: the status either stays,
  or moves to one of at least the same precedence, or makes one of the three documented
  returns (cash receipt undone, cancelled charge restored, chargeback reversed); and only
  a decision of kind \<open>APPLY\<close> moves it.
\<close>

theorem cobranca_decision_monotone:
  "(canProgressCobrancaStatus (ti_currentLocalStatus i) (sd_nextLocalStatus (decideCobrancaPaymentTransition i)) \<or>
    permitted_fall (ti_currentLocalStatus i) (sd_nextLocalStatus (decideCobrancaPaymentTransition i))
      (normalize_event (ti_eventName i)) (normalize_provider (ti_currentProviderStatus i))) \<and>
   (sd_kind (decideCobrancaPaymentTransition i) = APPLY \<longleftrightarrow>
    sd_nextLocalStatus (decideCobrancaPaymentTransition i) \<noteq> ti_currentLocalStatus i)"
  using settle_monotone [of "ti_currentLocalStatus i" "normalize_event (ti_eventName i)"
      "normalize_provider (ti_currentProviderStatus i)" "normalize_provider (ti_incomingProviderStatus i)"
      "is_cash_billing (ti_billingType i)" "ti_dueDate i" "ti_now i"]
  unfolding decide_next decide_kind canProgressCobrancaStatus_def by simp

section \<open>Redelivery\<close>

lemma gate_status_cases: "gate_status c e internal n = c \<or> gate_status c e internal n = n"
  by (simp add: gate_status_def)

lemma gate_status_same [simp]: "gate_status n e internal n = n"
  by (simp add: gate_status_def canProgressCobrancaStatus_def)

lemma candidate_current:
  "internal \<noteq> None \<or> event_truthy e \<Longrightarrow>
     fst (compute_candidate c e internal due n) = fst (compute_candidate c' e internal due n)"
  by (auto simp: compute_candidate_def split: option.split payment_status.split payment_event.split)

lemma compute_status_idem:
  "compute_status (compute_status c e p cash due n) e p cash due n = compute_status c e p cash due n"
proof -
  let ?i = "compute_internal e (map_option internal_of p) cash"
  let ?n = "\<lambda>c. fst (compute_candidate c e ?i due n)"
  show ?thesis
  proof (cases "?i \<noteq> None \<or> event_truthy e")
    case True
    have "gate_status (gate_status c e ?i (?n c)) e ?i (?n (gate_status c e ?i (?n c))) = gate_status c e ?i (?n c)"
      using gate_status_cases [of c e ?i "?n c"] candidate_current [OF True, of "?n c" due n c] by auto
    then show ?thesis by (auto simp: compute_status_def Let_def canProgressCobrancaStatus_def)
  next
    case False
    then have "?n c = c" for c by (simp add: compute_candidate_def)
    then have "gate_status c e ?i (?n c) = c" for c by simp
    then show ?thesis by (auto simp: compute_status_def Let_def canProgressCobrancaStatus_def)
  qed
qed

lemma settle_cases:
  "settle c e previous incoming cash due n = c \<or>
   reversal c e previous incoming \<and> settle c e previous incoming cash due n = PAGO \<or>
   settle c e previous incoming cash due n = compute_status c e incoming cash due n"
  by (auto simp: settle_def Let_def)

lemma snapshot_keeps_reversal:
  "monotonic_snapshot False (Some AS_AWAITING_CHARGEBACK_REVERSAL) (Some p) = Some AS_AWAITING_CHARGEBACK_REVERSAL"
  if "p \<in> paid_like"
  using that by (auto simp: monotonic_snapshot_def paid_like_def)

lemma compute_internal_paid:
  "p \<in> Some ` paid_like \<Longrightarrow>
     compute_internal e (map_option internal_of p) cash \<in> {Some PS_CONFIRMED, Some PS_RECEIVED_IN_CASH}"
  by (auto simp: paid_like_def compute_internal_def)

lemma candidate_paid:
  "internal \<in> {Some PS_CONFIRMED, Some PS_RECEIVED_IN_CASH} \<Longrightarrow> fst (compute_candidate c e internal due n) = PAGO"
  by (auto simp: compute_candidate_def)

lemma compute_status_paid_cases:
  assumes "e \<in> Some ` confirmation_events" "p \<in> Some ` paid_like"
  shows "compute_status c e p cash due n = c \<or> compute_status c e p cash due n = PAGO"
proof -
  have "e \<noteq> Some EV_PARTIALLY_REFUNDED" "e \<noteq> Some EV_DELETED" "p \<noteq> Some AS_AWAITING_RISK_ANALYSIS" "p \<noteq> Some AS_DELETED"
    using assms by (auto simp: confirmation_events_def paid_like_def)
  then show ?thesis
    using gate_status_cases [of c e "compute_internal e (map_option internal_of p) cash" PAGO]
    by (simp add: compute_status_def Let_def candidate_paid [OF compute_internal_paid [OF assms(2)]])
qed

text \<open>After a confirmation the internal status is paid, so a paid charge stays paid.\<close>

lemma compute_status_paid:
  assumes "e \<in> Some ` confirmation_events" "p \<in> Some ` paid_like"
  shows "compute_status PAGO e p cash due n = PAGO"
  using compute_status_paid_cases [OF assms, of PAGO cash due n] by simp

lemma compute_status_reversal_pending:
  assumes "e \<in> Some ` confirmation_events"
  shows "compute_status ESTORNADO e (Some AS_AWAITING_CHARGEBACK_REVERSAL) cash due n = ESTORNADO"
  using assms by (auto simp: confirmation_events_def compute_status_def compute_internal_def
      compute_candidate_def Let_def)

lemma isAllowed_refl [simp]: "isAllowedCobrancaTransition c c e previous"
  by (simp add: isAllowedCobrancaTransition_def)

lemma isAllowed_provider:
  assumes "isAllowedCobrancaTransition c n e q" "\<not> isAllowedCobrancaTransition c n e p"
  shows "e \<in> Some ` confirmation_events \<and> c = ESTORNADO \<and> n = PAGO \<and> q = Some AS_AWAITING_CHARGEBACK_REVERSAL"
  using assms by (auto simp: isAllowedCobrancaTransition_def split: option.splits if_splits)

lemma settle_idem:
  assumes "q = p \<or> q = i"
  shows "settle (settle c e p i cash due n) e q i cash due n = settle c e p i cash due n"
proof -
  define m where "m = settle c e p i cash due n"
  have awaiting: "AS_AWAITING_CHARGEBACK_REVERSAL \<notin> paid_like" by (simp add: paid_like_def)
  consider "m = c" | "reversal c e p i" "m = PAGO" "m \<noteq> c"
    | "\<not> reversal c e p i" "m = compute_status c e i cash due n" "m \<noteq> c"
    using settle_cases [of c e p i cash due n] by (auto simp: m_def settle_def Let_def split: if_splits)
  then have "settle m e q i cash due n = m"
  proof cases
    case 1
    then have notrev: "\<not> reversal c e p i"
      by (auto simp: m_def settle_def Let_def reversal_def isAllowedCobrancaTransition_def
          confirmation_events_def refund_events_def)
    then have notrev': "\<not> reversal c e q i" using assms(1) awaiting by (auto simp: reversal_def)
    let ?k = "compute_status c e i cash due n"
    have "\<not> isAllowedCobrancaTransition c ?k e q \<or> ?k = c"
    proof (rule ccontr)
      assume a: "\<not> (\<not> isAllowedCobrancaTransition c ?k e q \<or> ?k = c)"
      then have "\<not> isAllowedCobrancaTransition c ?k e p"
        using 1 notrev by (auto simp: m_def settle_def Let_def)
      with isAllowed_provider [of c ?k e q p] a have
        b: "e \<in> Some ` confirmation_events" "c = ESTORNADO" "?k = PAGO" "q = Some AS_AWAITING_CHARGEBACK_REVERSAL"
        by auto
      moreover have "q \<noteq> p" using \<open>\<not> isAllowedCobrancaTransition c ?k e p\<close> a by auto
      ultimately have "i = Some AS_AWAITING_CHARGEBACK_REVERSAL" using assms(1) by auto
      then show False using compute_status_reversal_pending [OF b(1), of cash due n] b(2,3) by simp
    qed
    then show ?thesis using 1 notrev' by (auto simp: settle_def Let_def)
  next
    case 2
    then have "compute_status PAGO e i cash due n = PAGO"
      by (intro compute_status_paid) (auto simp: reversal_def)
    then show ?thesis using 2 by (simp add: settle_def Let_def reversal_def)
  next
    case 3
    have "\<not> reversal m e q i"
    proof
      assume r: "reversal m e q i"
      then have "e \<in> Some ` confirmation_events" "i \<in> Some ` paid_like" "m = ESTORNADO"
        by (simp_all add: reversal_def)
      with compute_status_paid_cases [OF this(1,2), of c cash due n] 3(2,3) show False by simp
    qed
    then show ?thesis using compute_status_idem [of c e i cash due n] 3(2) by (simp add: settle_def Let_def)
  qed
  then show ?thesis by (simp only: m_def)
qed

text \<open>The input of the same delivery after its decision has been stored.\<close>

definition after_decision :: "cobranca_transition_input \<Rightarrow> cobranca_transition_input" where
  "after_decision i = (let d = decideCobrancaPaymentTransition i
     in i\<lparr>ti_currentLocalStatus := sd_nextLocalStatus d,
          ti_currentProviderStatus := map_option provider_text (sd_nextProviderStatus d)\<rparr>)"

lemma normalize_provider_stored:
  assumes "p = normalize_provider s \<or> p = normalize_provider t"
  shows "normalize_provider (map_option provider_text p) = p"
proof -
  obtain u where u: "p = map_option provider_of (trim_upper u)"
    using assms by (auto simp: normalize_provider_def)
  then have "map_option provider_text p = trim_upper u"
    by (simp add: option.map_comp o_def option.map_ident)
  then show ?thesis unfolding normalize_provider_def by (simp add: trim_upper_idem u)
qed

text \<open>
  Redelivery is harmless: once a decision has been stored, processing the same
  delivery again (same event, payload and clock) leaves the local status as it is and is
  never an \<open>APPLY\<close>.
\<close>

theorem cobranca_redelivery_noop:
  "sd_nextLocalStatus (decideCobrancaPaymentTransition (after_decision i)) =
     sd_nextLocalStatus (decideCobrancaPaymentTransition i) \<and>
   sd_kind (decideCobrancaPaymentTransition (after_decision i)) \<noteq> APPLY"
proof -
  let ?p = "normalize_provider (ti_currentProviderStatus i)" and ?q = "normalize_provider (ti_incomingProviderStatus i)"
  define s where "s = sd_nextProviderStatus (decideCobrancaPaymentTransition i)"
  have src: "s = ?p \<or> s = ?q" unfolding s_def decide_provider by (rule snapshot_source)
  then have stored: "normalize_provider (map_option provider_text s) = s" by (rule normalize_provider_stored)
  have "settle_input (after_decision i) = settle_input i"
    unfolding after_decision_def Let_def s_def [symmetric]
    using settle_idem [OF src, of "ti_currentLocalStatus i" "normalize_event (ti_eventName i)"
        "is_cash_billing (ti_billingType i)" "ti_dueDate i" "ti_now i"]
    by (simp add: decide_next stored)
  moreover have "ti_currentLocalStatus (after_decision i) = settle_input i"
    by (simp add: after_decision_def Let_def decide_next)
  ultimately show ?thesis unfolding decide_kind by (simp only: decide_next) simp
qed

section \<open>Deliveries out of order\<close>

text \<open>A webhook delivery, and its effect on the stored status and provider snapshot.\<close>

record delivery =
  dl_eventName :: "string option"
  dl_status :: "string option"
  dl_billingType :: "string option"
  dl_dueDate :: "date_value option"
  dl_now :: date_value

type_synonym stored_charge = "cobranca_status \<times> string option"

definition delivery_input :: "stored_charge \<Rightarrow> delivery \<Rightarrow> cobranca_transition_input" where
  "delivery_input st d = \<lparr>ti_currentLocalStatus = fst st, ti_currentProviderStatus = snd st,
     ti_incomingProviderStatus = dl_status d, ti_eventName = dl_eventName d,
     ti_billingType = dl_billingType d, ti_dueDate = dl_dueDate d, ti_now = dl_now d, ti_source = WEBHOOK\<rparr>"

definition deliver :: "stored_charge \<Rightarrow> delivery \<Rightarrow> stored_charge" where
  "deliver st d = (let r = decideCobrancaPaymentTransition (delivery_input st d)
     in (sd_nextLocalStatus r, map_option provider_text (sd_nextProviderStatus r)))"

text \<open>
  The regular life of a charge: created or updated while pending, overdue, confirmed,
  refunded, each with the status the provider reports for it; \<open>target\<close> is the status it
  stands for.
\<close>

definition lifecycle :: "payment_event option \<Rightarrow> provider_status option \<Rightarrow> bool" where
  "lifecycle e i \<longleftrightarrow>
     (e \<in> {Some EV_CREATED, Some EV_UPDATED} \<and> i = Some AS_PENDING) \<or>
     (e = Some EV_OVERDUE \<and> i = Some AS_OVERDUE) \<or>
     (e \<in> {Some EV_CONFIRMED, Some EV_RECEIVED, Some EV_RECEIVED_IN_CASH} \<and>
      i \<in> {Some AS_CONFIRMED, Some AS_RECEIVED, Some AS_RECEIVED_IN_CASH}) \<or>
     (e = Some EV_REFUNDED \<and> i = Some AS_REFUNDED)"

definition target :: "payment_event option \<Rightarrow> date_value option \<Rightarrow> date_value \<Rightarrow> cobranca_status" where
  "target e due n = (if e \<in> {Some EV_CREATED, Some EV_UPDATED} then open_status due n
     else if e = Some EV_OVERDUE then ATRASADO else if e = Some EV_REFUNDED then ESTORNADO else PAGO)"

definition lifecycle_state :: "cobranca_status \<Rightarrow> bool" where
  "lifecycle_state c \<longleftrightarrow> c \<in> {PENDENTE, A_VENCER, PROCESSANDO, ATRASADO, PAGO, ESTORNADO}"

lemma lifecycle_not_reversal: "lifecycle e i \<Longrightarrow> i \<noteq> Some AS_AWAITING_CHARGEBACK_REVERSAL"
  by (auto simp: lifecycle_def)

lemma lifecycle_internal:
  "lifecycle e i \<Longrightarrow> fst (compute_candidate c e (compute_internal e (map_option internal_of i) cash) due n) = target e due n"
  unfolding lifecycle_def
  by (elim disjE conjE insertE emptyE; simp add: target_def compute_internal_def compute_candidate_def event_truthy_def)

lemma lifecycle_no_exception:
  "lifecycle e i \<Longrightarrow> e \<noteq> Some EV_PARTIALLY_REFUNDED \<and> e \<noteq> Some EV_DELETED \<and>
     e \<noteq> Some EV_RECEIVED_IN_CASH_UNDONE \<and> e \<noteq> Some EV_RESTORED \<and>
     i \<noteq> Some AS_AWAITING_RISK_ANALYSIS \<and> i \<noteq> Some AS_DELETED"
  by (auto simp: lifecycle_def)

lemma lifecycle_terminal_internal:
  "lifecycle e i \<Longrightarrow>
     compute_internal e (map_option internal_of i) cash \<in> {Some PS_CANCELLED, Some PS_REFUNDED, Some PS_CHARGEBACK} \<or>
     e \<in> {Some EV_DELETED, Some EV_REFUNDED} \<Longrightarrow> target e due n = ESTORNADO"
  unfolding lifecycle_def
  by (elim disjE conjE insertE emptyE; simp add: target_def compute_internal_def event_truthy_def)

lemma lifecycle_state_refunded: "lifecycle_state c \<Longrightarrow> canProgressCobrancaStatus c ESTORNADO"
  by (auto simp: lifecycle_state_def canProgressCobrancaStatus_def)

lemma compute_status_lifecycle:
  assumes "lifecycle e i" "lifecycle_state c"
  shows "compute_status c e i cash due n = advance canProgressCobrancaStatus c (target e due n)"
  using lifecycle_no_exception [OF assms(1)] lifecycle_terminal_internal [OF assms(1), of cash due n]
    lifecycle_state_refunded [OF assms(2)]
  by (auto simp: compute_status_def gate_status_def advance_def Let_def lifecycle_internal [OF assms(1)])

lemma allowed_events [table_simps]:
  "e \<in> refund_events \<Longrightarrow> isAllowedCobrancaTransition c n (Some e) p \<longleftrightarrow> c = n \<or>
     c \<notin> terminal_cobranca \<and> n \<in> {ESTORNADO, ESTORNADO_PARCIAL}"
  "e \<in> confirmation_events \<Longrightarrow> isAllowedCobrancaTransition c n (Some e) p \<longleftrightarrow> c = n \<or>
     (isRegularActiveStatus c \<or> c = ESTORNADO \<and> p = Some AS_AWAITING_CHARGEBACK_REVERSAL) \<and> n = PAGO"
  "isAllowedCobrancaTransition c n (Some EV_OVERDUE) p \<longleftrightarrow> c = n \<or> isRegularActiveStatus c \<and> n = ATRASADO"
  "e \<in> {EV_CREATED, EV_UPDATED} \<Longrightarrow> isAllowedCobrancaTransition c n (Some e) p \<longleftrightarrow> c = n \<or>
     isRegularActiveStatus c \<and> isRegularActiveStatus n"
proof -
  show "e \<in> refund_events \<Longrightarrow> isAllowedCobrancaTransition c n (Some e) p \<longleftrightarrow> c = n \<or>
     c \<notin> terminal_cobranca \<and> n \<in> {ESTORNADO, ESTORNADO_PARCIAL}"
    by (simp add: isAllowedCobrancaTransition_def) (auto simp: refund_events_def)
  show "e \<in> confirmation_events \<Longrightarrow> isAllowedCobrancaTransition c n (Some e) p \<longleftrightarrow> c = n \<or>
     (isRegularActiveStatus c \<or> c = ESTORNADO \<and> p = Some AS_AWAITING_CHARGEBACK_REVERSAL) \<and> n = PAGO"
    by (simp add: isAllowedCobrancaTransition_def) (auto simp: refund_events_def confirmation_events_def)
  show "isAllowedCobrancaTransition c n (Some EV_OVERDUE) p \<longleftrightarrow> c = n \<or> isRegularActiveStatus c \<and> n = ATRASADO"
    by (simp add: isAllowedCobrancaTransition_def refund_events_def confirmation_events_def)
  show "e \<in> {EV_CREATED, EV_UPDATED} \<Longrightarrow> isAllowedCobrancaTransition c n (Some e) p \<longleftrightarrow> c = n \<or>
     isRegularActiveStatus c \<and> isRegularActiveStatus n"
    by (auto simp: isAllowedCobrancaTransition_def refund_events_def confirmation_events_def open_events_def
        isRegularActiveStatus_def [of n])
qed

lemma lifecycle_cases:
  assumes "lifecycle e i"
  obtains ev where "e = Some ev" "ev \<in> {EV_CREATED, EV_UPDATED}" "target e due n = open_status due n"
  | "e = Some EV_OVERDUE" "target e due n = ATRASADO"
  | ev where "e = Some ev" "ev \<in> confirmation_events" "target e due n = PAGO"
  | "e = Some EV_REFUNDED" "target e due n = ESTORNADO"
  using assms by (auto simp: lifecycle_def target_def confirmation_events_def)

lemma lifecycle_state_regular:
  "lifecycle_state c \<longleftrightarrow> isRegularActiveStatus c \<or> c = PAGO \<or> c = ESTORNADO"
  by (auto simp: lifecycle_state_def isRegularActiveStatus_def)

lemma open_status_regular [simp]: "isRegularActiveStatus (open_status due n)"
  using open_status_cases [of due n] by (auto simp: isRegularActiveStatus_def)

lemma regular_progress:
  "canProgressCobrancaStatus c n \<Longrightarrow> isRegularActiveStatus n \<Longrightarrow> isRegularActiveStatus c"
  by (cases c; cases n) (simp_all add: canProgressCobrancaStatus_def isRegularActiveStatus_def)

lemma allowed_lifecycle:
  assumes "lifecycle e i" "lifecycle_state c" "canProgressCobrancaStatus c (target e due n)"
  shows "isAllowedCobrancaTransition c (target e due n) e previous"
  using assms(1)
proof (cases rule: lifecycle_cases [of e i due n])
  case (1 ev)
  then show ?thesis using assms(3) regular_progress by (simp add: table_simps)
next
  case 2
  moreover have "isRegularActiveStatus ATRASADO" by (simp add: isRegularActiveStatus_def)
  ultimately show ?thesis using assms(3) regular_progress by (simp add: table_simps)
next
  case (3 ev)
  then show ?thesis using assms(2,3)
    by (auto simp: table_simps lifecycle_state_regular canProgressCobrancaStatus_def)
next
  case 4
  moreover have "EV_REFUNDED \<in> refund_events" by (simp add: refund_events_def)
  ultimately show ?thesis using assms(2)
    by (auto simp: table_simps lifecycle_state_regular terminal_cobranca_def isRegularActiveStatus_def)
qed

lemma settle_lifecycle:
  assumes "lifecycle e i" "lifecycle_state c" "p \<noteq> Some AS_AWAITING_CHARGEBACK_REVERSAL"
  shows "settle c e p i cash due n = advance canProgressCobrancaStatus c (target e due n)"
proof -
  have "\<not> reversal c e p i" using assms(3) by (simp add: reversal_def)
  then show ?thesis
    using allowed_lifecycle [OF assms(1,2), of due n p]
    by (simp add: settle_def compute_status_lifecycle [OF assms(1,2)] advance_def Let_def)
qed

lemma lifecycle_state_target: "lifecycle e i \<Longrightarrow> lifecycle_state c \<Longrightarrow>
    lifecycle_state (advance canProgressCobrancaStatus c (target e due n))"
  using open_status_cases [of due n]
  by (auto simp: advance_def lifecycle_def target_def lifecycle_state_def)

definition lifecycle_delivery :: "delivery \<Rightarrow> bool" where
  "lifecycle_delivery d \<longleftrightarrow> lifecycle (normalize_event (dl_eventName d)) (normalize_provider (dl_status d))"

definition delivery_target :: "delivery \<Rightarrow> cobranca_status" where
  "delivery_target d = target (normalize_event (dl_eventName d)) (dl_dueDate d) (dl_now d)"

lemma deliver_lifecycle:
  assumes "lifecycle_delivery d" "lifecycle_state c" "normalize_provider p \<noteq> Some AS_AWAITING_CHARGEBACK_REVERSAL"
  obtains q where "deliver (c, p) d = (advance canProgressCobrancaStatus c (delivery_target d), q)"
    "normalize_provider q \<noteq> Some AS_AWAITING_CHARGEBACK_REVERSAL"
proof -
  let ?r = "decideCobrancaPaymentTransition (delivery_input (c, p) d)"
  have "sd_nextLocalStatus ?r = advance canProgressCobrancaStatus c (delivery_target d)"
    using settle_lifecycle [OF assms(1) [unfolded lifecycle_delivery_def] assms(2,3)]
    by (simp add: decide_next delivery_input_def delivery_target_def)
  moreover have src: "sd_nextProviderStatus ?r = normalize_provider p \<or>
      sd_nextProviderStatus ?r = normalize_provider (dl_status d)"
    using snapshot_source by (simp add: decide_provider delivery_input_def)
  then have "normalize_provider (map_option provider_text (sd_nextProviderStatus ?r)) = sd_nextProviderStatus ?r"
    by (rule normalize_provider_stored)
  moreover have "sd_nextProviderStatus ?r \<noteq> Some AS_AWAITING_CHARGEBACK_REVERSAL"
    using src assms(1,3) lifecycle_not_reversal by (auto simp: lifecycle_delivery_def)
  ultimately show thesis
    by (intro that [of "map_option provider_text (sd_nextProviderStatus ?r)"])
      (simp add: deliver_def Let_def, metis)
qed

lemma foldl_deliver:
  assumes "\<forall>d \<in> set ds. lifecycle_delivery d" "lifecycle_state c"
    "normalize_provider p \<noteq> Some AS_AWAITING_CHARGEBACK_REVERSAL"
  shows "fst (foldl deliver (c, p) ds) = foldl (advance canProgressCobrancaStatus) c (map delivery_target ds)"
  using assms
proof (induction ds arbitrary: c p)
  case (Cons d ds)
  obtain q where q: "deliver (c, p) d = (advance canProgressCobrancaStatus c (delivery_target d), q)"
    "normalize_provider q \<noteq> Some AS_AWAITING_CHARGEBACK_REVERSAL"
    using deliver_lifecycle [of d c p] Cons.prems by auto
  have "lifecycle_state (advance canProgressCobrancaStatus c (delivery_target d))"
    unfolding delivery_target_def
    by (rule lifecycle_state_target) (use Cons.prems in \<open>auto simp: lifecycle_delivery_def\<close>)
  then show ?case using Cons.IH q Cons.prems(1) by simp
qed simp

text \<open>
  C26. Webhooks may arrive in any order and any number of times: two streams with the same
  deliveries from the regular life of a charge leave it in the same status, which is the
  most advanced status that was reported (or the initial one).
\<close>

theorem cobranca_delivery_order_irrelevant:
  assumes "\<forall>d \<in> set ds. lifecycle_delivery d" "set ds' = set ds" "lifecycle_state c"
    "normalize_provider p \<noteq> Some AS_AWAITING_CHARGEBACK_REVERSAL"
  shows "fst (foldl deliver (c, p) ds') = fst (foldl deliver (c, p) ds) \<and>
    fst (foldl deliver (c, p) ds) \<in> insert c (delivery_target ` set ds) \<and>
    (\<forall>d \<in> set ds. canProgressCobrancaStatus (delivery_target d) (fst (foldl deliver (c, p) ds)))"
proof -
  have eq: "fst (foldl deliver (c, p) ds) = foldl (advance canProgressCobrancaStatus) c (map delivery_target ds)"
    by (rule foldl_deliver [OF assms(1,3,4)])
  have "fst (foldl deliver (c, p) ds') = foldl (advance canProgressCobrancaStatus) c (map delivery_target ds')"
    by (rule foldl_deliver) (use assms in auto)
  also have "\<dots> = foldl (advance canProgressCobrancaStatus) c (map delivery_target ds)"
    by (rule cobranca.foldl_set) (simp add: assms(2))
  finally show ?thesis
    using cobranca.foldl_member [of c "map delivery_target ds"] cobranca.foldl_covers [of _ "map delivery_target ds" c]
    by (simp add: eq)
qed

definition sample_delivery :: "string \<Rightarrow> string \<Rightarrow> delivery" where
  "sample_delivery e st = \<lparr>dl_eventName = Some e, dl_status = Some st, dl_billingType = None,
     dl_dueDate = Some (Some 10), dl_now = Some 5\<rparr>"

lemma sample_normalize:
  "normalize_event (dl_eventName (sample_delivery ''PAYMENT_CONFIRMED'' st)) = Some EV_CONFIRMED"
  "normalize_event (dl_eventName (sample_delivery ''PAYMENT_OVERDUE'' st)) = Some EV_OVERDUE"
  "normalize_provider (dl_status (sample_delivery e ''CONFIRMED'')) = Some AS_CONFIRMED"
  "normalize_provider (dl_status (sample_delivery e ''OVERDUE'')) = Some AS_OVERDUE"
  by (simp_all add: sample_delivery_def normalize_event_def normalize_provider_def trim_upper_def js_trim_def
      js_space_def js_upper_def js_upper_char_def event_of_def event_table_def provider_of_def provider_table_def)

theorem cobranca_delivery_order_irrelevant_witness:
  "fst (foldl deliver (A_VENCER, None) [sample_delivery ''PAYMENT_CONFIRMED'' ''CONFIRMED'',
      sample_delivery ''PAYMENT_OVERDUE'' ''OVERDUE'', sample_delivery ''PAYMENT_CONFIRMED'' ''CONFIRMED'']) =
   fst (foldl deliver (A_VENCER, None) [sample_delivery ''PAYMENT_OVERDUE'' ''OVERDUE'',
      sample_delivery ''PAYMENT_CONFIRMED'' ''CONFIRMED''])"
  by (rule cobranca_delivery_order_irrelevant [THEN conjunct1])
    (auto simp: lifecycle_delivery_def sample_normalize lifecycle_def lifecycle_state_def normalize_provider_None)

section \<open>Closed charges\<close>

text \<open>Runs of the machine over deliveries whose events lie in a given set.\<close>

inductive reaches :: "payment_event option set \<Rightarrow> stored_charge \<Rightarrow> stored_charge \<Rightarrow> bool" for E where
  reaches_refl: "reaches E st st"
| reaches_step: "reaches E st st' \<Longrightarrow> normalize_event (dl_eventName d) \<in> E \<Longrightarrow> reaches E st (deliver st' d)"

inductive_cases reachesE: "reaches E st st'"

definition closing_events :: "payment_event set" where
  "closing_events = refund_events \<union>
     {EV_RECEIVED_IN_CASH_UNDONE, EV_PARTIALLY_REFUNDED, EV_DELETED, EV_CANCELED}"

lemma settle_allowed: "isAllowedCobrancaTransition c (settle c e p i cash due n) e p"
  by (simp add: settle_def Let_def)

lemma allowed_from_cancelled:
  "isAllowedCobrancaTransition CANCELADO n e p \<Longrightarrow> n \<noteq> CANCELADO \<Longrightarrow> e = Some EV_RESTORED"
  by (auto simp: isAllowedCobrancaTransition_def terminal_cobranca_def isRegularActiveStatus_def
      split: option.splits if_splits)

lemma allowed_from_refunded:
  "isAllowedCobrancaTransition ESTORNADO n e p \<Longrightarrow> n \<noteq> ESTORNADO \<Longrightarrow>
     e \<in> Some ` confirmation_events \<and> p = Some AS_AWAITING_CHARGEBACK_REVERSAL \<and> n = PAGO"
  by (auto simp: isAllowedCobrancaTransition_def terminal_cobranca_def isRegularActiveStatus_def
      split: option.splits if_splits)

lemma allowed_from_paid:
  "isAllowedCobrancaTransition PAGO n e p \<Longrightarrow> n \<noteq> PAGO \<Longrightarrow> e \<in> Some ` closing_events"
  by (auto simp: isAllowedCobrancaTransition_def closing_events_def isRegularActiveStatus_def
      split: option.splits if_splits)

lemma fst_deliver:
  "fst (deliver st d) = settle (fst st) (normalize_event (dl_eventName d)) (normalize_provider (snd st))
     (normalize_provider (dl_status d)) (is_cash_billing (dl_billingType d)) (dl_dueDate d) (dl_now d)"
  by (simp add: deliver_def Let_def decide_next delivery_input_def)

lemma reaches_stays:
  assumes "reaches E st st'"
    and "\<And>n e p. isAllowedCobrancaTransition (fst st) n e p \<Longrightarrow> e \<in> E \<Longrightarrow> n = fst st"
  shows "fst st' = fst st"
  using assms
proof induction
  case (reaches_step s t d)
  then show ?case using reaches_step.prems [OF settle_allowed] by (simp add: fst_deliver)
qed simp

text \<open>
  C27. What is closed stays closed, over every run of deliveries: a cancelled charge is
  reopened by a restoration only, a refunded one by a confirmation only, and a paid one
  stays paid until a refund, a chargeback, a cancellation or the undoing of the receipt.
\<close>

theorem closed_charges_stay_closed:
  "(reaches (- {Some EV_RESTORED}) (CANCELADO, p) st \<longrightarrow> fst st = CANCELADO) \<and>
   (reaches (- (Some ` confirmation_events)) (ESTORNADO, p) st \<longrightarrow> fst st = ESTORNADO) \<and>
   (reaches (- (Some ` closing_events)) (PAGO, p) st \<longrightarrow> fst st = PAGO)"
  using reaches_stays [of "- {Some EV_RESTORED}" "(CANCELADO, p)" st]
    reaches_stays [of "- (Some ` confirmation_events)" "(ESTORNADO, p)" st]
    reaches_stays [of "- (Some ` closing_events)" "(PAGO, p)" st]
    allowed_from_cancelled allowed_from_refunded allowed_from_paid
  by fastforce

theorem closed_charges_stay_closed_witness:
  "fst (deliver (PAGO, Some ''RECEIVED'') (sample_delivery ''PAYMENT_OVERDUE'' ''OVERDUE'')) = PAGO"
proof -
  have "Some EV_OVERDUE \<notin> Some ` closing_events" by (auto simp: closing_events_def refund_events_def)
  then have "reaches (- (Some ` closing_events)) (PAGO, Some ''RECEIVED'')
      (deliver (PAGO, Some ''RECEIVED'') (sample_delivery ''PAYMENT_OVERDUE'' ''OVERDUE''))"
    by (intro reaches_step reaches_refl) (simp add: sample_normalize)
  then show ?thesis using closed_charges_stay_closed by blast
qed

section \<open>A regression of the candidate\<close>

text \<open>
  \<^verbatim>\<open>computeNextCobrancaStatus\<close> alone is not monotone, although its header says that it never
  demotes a status: a refund event whose payload still reports a received payment turns a
  refunded charge back into a paid one, and the event is reported as applied. The
  transition matrix stops it: the decision keeps the refunded status.
\<close>

theorem compute_demotes_refunded:
  "computeNextCobrancaStatus ESTORNADO (Some EV_REFUNDED) (Some ''RECEIVED'') b due n = (PAGO, ASAAS_STATUS_APPLIED) \<and>
   \<not> canProgressCobrancaStatus ESTORNADO PAGO \<and>
   settle ESTORNADO (Some EV_REFUNDED) p (Some AS_RECEIVED) cash due n = ESTORNADO"
proof -
  have m: "mapAsaasStatusToInternal (Some ''RECEIVED'') = PS_CONFIRMED"
    by (simp add: mapAsaasStatusToInternal_def mapper_table_def js_trim_def js_space_def js_upper_def js_upper_char_def)
  have "computeNextCobrancaStatus ESTORNADO (Some EV_REFUNDED) (Some ''RECEIVED'') b due n = (PAGO, ASAAS_STATUS_APPLIED)"
    by (simp add: computeNextCobrancaStatus_def m compute_internal_def compute_candidate_def compute_gate_def
        canProgressCobrancaStatus_def)
  moreover have "EV_REFUNDED \<in> refund_events" by (simp add: refund_events_def)
  then have "\<not> isAllowedCobrancaTransition ESTORNADO n (Some EV_REFUNDED) p" if "n \<noteq> ESTORNADO" for n
    using that by (auto simp: table_simps terminal_cobranca_def)
  then have "settle ESTORNADO (Some EV_REFUNDED) p (Some AS_RECEIVED) cash due n = ESTORNADO"
    using settle_allowed by metis
  ultimately show ?thesis by (simp add: canProgressCobrancaStatus_def)
qed

end
