(* ===== verification/ChargeMachine.thy ===== *)
theory ChargeMachine
  imports PaymentMachine
begin

text \<open>
  The machine of the provider charge, \<open>decideChargePaymentTransition\<close> of
  \<^verbatim>\<open>packages/finance/src/state-machine/payment-state-machine.ts\<close>: its progress, and its lockstep
  with the machine of the academic charge on the regular life of a payment.
\<close>

section \<open>The charge machine\<close>

definition permitted_charge_fall ::
    "charge_status \<Rightarrow> charge_status \<Rightarrow> payment_event option \<Rightarrow> provider_status option \<Rightarrow> payment_status \<Rightarrow> bool" where
  "permitted_charge_fall c n e previous internal \<longleftrightarrow>
     (e = Some EV_RECEIVED_IN_CASH_UNDONE \<and> c = CS_PAID \<and> n \<in> {CS_OPEN, CS_OVERDUE}) \<or>
     (e = Some EV_RESTORED \<and> c = CS_CANCELED \<and> n = CS_OPEN) \<or>
     (c = CS_REFUNDED \<and> n = CS_PAID \<and> previous = Some AS_AWAITING_CHARGEBACK_REVERSAL \<and>
      internal \<in> {PS_CONFIRMED, PS_RECEIVED_IN_CASH})"

definition charge_reversal :: "charge_status \<Rightarrow> provider_status option \<Rightarrow> payment_status \<Rightarrow> bool" where
  "charge_reversal c previous internal \<longleftrightarrow> c = CS_REFUNDED \<and>
     previous = Some AS_AWAITING_CHARGEBACK_REVERSAL \<and> internal \<in> {PS_CONFIRMED, PS_RECEIVED_IN_CASH}"

definition settle_charge ::
    "charge_status \<Rightarrow> payment_event option \<Rightarrow> provider_status option \<Rightarrow> payment_status \<Rightarrow> charge_status" where
  "settle_charge c e previous internal =
     (if charge_reversal c previous internal then CS_PAID
      else let n = computeNextChargeStatus c internal e
           in if canApplyChargeStatusTransition c n e then n else c)"

lemma decide_charge_next:
  "sd_nextLocalStatus (decideChargePaymentTransition i) =
     settle_charge (hi_currentLocalStatus i) (normalize_event (hi_eventName i))
       (normalize_provider (hi_currentProviderStatus i)) (hi_internalStatus i)"
  by (auto simp: decideChargePaymentTransition_def settle_charge_def charge_reversal_def Let_def)

lemma decide_charge_kind:
  "sd_kind (decideChargePaymentTransition i) = APPLY \<longleftrightarrow>
     sd_nextLocalStatus (decideChargePaymentTransition i) \<noteq> hi_currentLocalStatus i"
  by (auto simp: decideChargePaymentTransition_def Let_def)

lemma settle_charge_monotone:
  "charge_rank c \<le> charge_rank (settle_charge c e p internal) \<or>
   permitted_charge_fall c (settle_charge c e p internal) e p internal"
  by (auto simp: settle_charge_def charge_reversal_def permitted_charge_fall_def Let_def
      canApplyChargeStatusTransition_def canProgressChargeStatus_rank split: if_splits)

text \<open>
  The charge machine is monotone in the same sense: a decision keeps the charge, moves
  it forward, or makes one of the three documented returns, and only \<open>APPLY\<close> moves it.
\<close>

theorem charge_decision_monotone:
  "(canProgressChargeStatus (hi_currentLocalStatus i) (sd_nextLocalStatus (decideChargePaymentTransition i)) \<or>
    permitted_charge_fall (hi_currentLocalStatus i) (sd_nextLocalStatus (decideChargePaymentTransition i))
      (normalize_event (hi_eventName i)) (normalize_provider (hi_currentProviderStatus i)) (hi_internalStatus i)) \<and>
   (sd_kind (decideChargePaymentTransition i) = APPLY \<longleftrightarrow>
    sd_nextLocalStatus (decideChargePaymentTransition i) \<noteq> hi_currentLocalStatus i)"
  unfolding decide_charge_kind unfolding decide_charge_next canProgressChargeStatus_rank
  using settle_charge_monotone by blast

section \<open>The two machines in lockstep\<close>

fun charge_of :: "cobranca_status \<Rightarrow> charge_status" where
  "charge_of A_VENCER = CS_OPEN"
| "charge_of PENDENTE = CS_OPEN"
| "charge_of PROCESSANDO = CS_OPEN"
| "charge_of ATRASADO = CS_OVERDUE"
| "charge_of PAGO = CS_PAID"
| "charge_of CANCELAMENTO_PENDENTE = CS_CANCELED"
| "charge_of CANCELADO = CS_CANCELED"
| "charge_of ESTORNADO = CS_REFUNDED"
| "charge_of ESTORNADO_PARCIAL = CS_REFUNDED"

text \<open>The internal status the charge path derives from a delivery.\<close>

definition delivery_internal :: "delivery \<Rightarrow> payment_status" where
  "delivery_internal d = resolveInternalPaymentStatus (normalize_event (dl_eventName d)) (dl_status d)
     (dl_billingType d) None"

lemma trim_upper_pending: "trim_upper s = Some ''PENDING'' \<longleftrightarrow> normalize_provider s = Some AS_PENDING"
proof -
  have "provider_of ''PENDING'' = AS_PENDING" by (simp add: provider_of_def provider_table_def)
  then show ?thesis by (simp only: normalize_provider_Some)
qed

lemma resolve_internal_known:
  assumes "normalize_provider s = Some p"
  shows "resolveInternalPaymentStatus e s b None =
    (if p \<noteq> AS_PENDING then internal_of p
     else if is_cash_billing b \<and> e \<in> {Some EV_RECEIVED_IN_CASH, Some EV_RECEIVED, Some EV_CONFIRMED}
     then PS_RECEIVED_IN_CASH
     else case e of None \<Rightarrow> PS_PENDING | Some ev \<Rightarrow> pending_event_status ev)"
proof -
  obtain u where u: "trim_upper s = Some u" "p = provider_of u"
    using assms by (auto simp: normalize_provider_def)
  have "u = ''PENDING'' \<longleftrightarrow> p = AS_PENDING" using trim_upper_pending [of s] u assms by simp
  then show ?thesis
    using u mapAsaasStatusToInternal_Some [OF u(1)] by (auto simp: resolveInternalPaymentStatus_def Let_def)
qed

definition lifecycle_internal_of :: "cobranca_status \<Rightarrow> payment_status \<Rightarrow> bool" where
  "lifecycle_internal_of t internal \<longleftrightarrow>
     (t \<in> {A_VENCER, PENDENTE} \<and> internal = PS_PENDING) \<or> (t = ATRASADO \<and> internal = PS_OVERDUE) \<or>
     (t = PAGO \<and> internal \<in> {PS_CONFIRMED, PS_RECEIVED_IN_CASH}) \<or> (t = ESTORNADO \<and> internal = PS_REFUNDED)"

lemma lifecycle_resolved:
  assumes "lifecycle e (normalize_provider s)"
  shows "lifecycle_internal_of (target e due n) (resolveInternalPaymentStatus e s b None)"
proof -
  obtain p where p: "normalize_provider s = Some p" using assms by (cases "normalize_provider s") (auto simp: lifecycle_def)
  show ?thesis
    using assms open_status_cases [of due n] unfolding resolve_internal_known [OF p] p lifecycle_def
    by (elim disjE conjE insertE emptyE; simp add: target_def lifecycle_internal_of_def)
qed

lemma settle_charge_lifecycle:
  assumes "lifecycle_internal_of t internal" "lifecycle_state c" "q \<noteq> Some AS_AWAITING_CHARGEBACK_REVERSAL"
    "e \<noteq> Some EV_RECEIVED_IN_CASH_UNDONE" "e \<noteq> Some EV_RESTORED"
  shows "settle_charge (charge_of c) e q internal = charge_of (advance canProgressCobrancaStatus c t)"
proof -
  have "settle_charge (charge_of c) e q internal =
      (let n = computeNextChargeStatus (charge_of c) internal e
       in if charge_rank (charge_of c) \<le> charge_rank n then n else charge_of c)"
    using assms(3-5) by (simp add: settle_charge_def charge_reversal_def canApplyChargeStatusTransition_def
        canProgressChargeStatus_rank)
  also have "\<dots> = charge_of (advance canProgressCobrancaStatus c t)"
    using assms(2) unfolding lifecycle_state_def
    by (elim insertE emptyE; use assms(1,4,5) in \<open>auto simp: lifecycle_internal_of_def computeNextChargeStatus_def
        advance_def canProgressCobrancaStatus_def\<close>)
  finally show ?thesis .
qed

text \<open>A delivery processed by the charge path.\<close>

definition deliver_charge :: "charge_status \<times> string option \<Rightarrow> delivery \<Rightarrow> charge_status \<times> string option" where
  "deliver_charge st d = (let r = decideChargePaymentTransition
       \<lparr>hi_currentLocalStatus = fst st, hi_currentProviderStatus = snd st, hi_incomingProviderStatus = dl_status d,
        hi_internalStatus = delivery_internal d, hi_eventName = dl_eventName d, hi_source = WEBHOOK\<rparr>
     in (sd_nextLocalStatus r, map_option provider_text (sd_nextProviderStatus r)))"

lemma deliver_charge_provider:
  assumes "lifecycle_delivery d" "normalize_provider q \<noteq> Some AS_AWAITING_CHARGEBACK_REVERSAL"
  shows "normalize_provider (snd (deliver_charge (h, q) d)) \<noteq> Some AS_AWAITING_CHARGEBACK_REVERSAL"
proof -
  define s where "s = monotonic_snapshot (h = CS_PAID) (normalize_provider q) (normalize_provider (dl_status d))"
  have "snd (deliver_charge (h, q) d) = map_option provider_text s"
    by (auto simp: deliver_charge_def decideChargePaymentTransition_def Let_def s_def
        resolveMonotonicAsaasPaymentStatus_def settled_charge)
  moreover have src: "s = normalize_provider q \<or> s = normalize_provider (dl_status d)"
    unfolding s_def by (rule snapshot_source)
  ultimately have "normalize_provider (snd (deliver_charge (h, q) d)) = s"
    using normalize_provider_stored by simp
  then show ?thesis using src assms lifecycle_not_reversal by (auto simp: lifecycle_delivery_def)
qed

lemma deliver_charge_status:
  assumes "lifecycle_delivery d" "lifecycle_state c" "normalize_provider q \<noteq> Some AS_AWAITING_CHARGEBACK_REVERSAL"
  shows "fst (deliver_charge (charge_of c, q) d) = charge_of (advance canProgressCobrancaStatus c (delivery_target d))"
proof -
  have l: "lifecycle (normalize_event (dl_eventName d)) (normalize_provider (dl_status d))"
    using assms(1) by (simp add: lifecycle_delivery_def)
  then have "lifecycle_internal_of (delivery_target d) (delivery_internal d)"
    unfolding delivery_target_def delivery_internal_def by (rule lifecycle_resolved)
  then show ?thesis
    using settle_charge_lifecycle [OF _ assms(2,3)] lifecycle_no_exception [OF l]
    by (simp add: deliver_charge_def Let_def decide_charge_next)
qed

lemma lockstep:
  assumes "\<forall>d \<in> set ds. lifecycle_delivery d" "lifecycle_state c"
    "normalize_provider p \<noteq> Some AS_AWAITING_CHARGEBACK_REVERSAL"
    "normalize_provider q \<noteq> Some AS_AWAITING_CHARGEBACK_REVERSAL"
  shows "fst (foldl deliver_charge (charge_of c, q) ds) = charge_of (fst (foldl deliver (c, p) ds))"
  using assms
proof (induction ds arbitrary: c p q)
  case (Cons d ds)
  obtain p' where p': "deliver (c, p) d = (advance canProgressCobrancaStatus c (delivery_target d), p')"
    "normalize_provider p' \<noteq> Some AS_AWAITING_CHARGEBACK_REVERSAL"
    using deliver_lifecycle [of d c p] Cons.prems by auto
  have st: "lifecycle_state (advance canProgressCobrancaStatus c (delivery_target d))"
    unfolding delivery_target_def
    by (rule lifecycle_state_target) (use Cons.prems in \<open>auto simp: lifecycle_delivery_def\<close>)
  obtain q' where q': "deliver_charge (charge_of c, q) d =
      (charge_of (advance canProgressCobrancaStatus c (delivery_target d)), q')"
    "normalize_provider q' \<noteq> Some AS_AWAITING_CHARGEBACK_REVERSAL"
    using deliver_charge_status [of d c q] deliver_charge_provider [of d q "charge_of c"] Cons.prems
    by (metis list.set_intros(1) prod.collapse)
  show ?case using Cons.IH [OF _ st p'(2) q'(2)] Cons.prems(1) by (simp add: p'(1) q'(1))
qed simp

text \<open>
  The academic charge and the provider charge stay in step: fed with the same stream of
  deliveries from the regular life of a charge, the machine of the charge always holds the
  image of the status of the machine of the cobranca, so the two tables cannot disagree.
\<close>

theorem machines_in_lockstep:
  assumes "\<forall>d \<in> set ds. lifecycle_delivery d" "lifecycle_state c"
    "normalize_provider p \<noteq> Some AS_AWAITING_CHARGEBACK_REVERSAL"
  shows "fst (foldl deliver_charge (charge_of c, p) ds) = charge_of (fst (foldl deliver (c, p) ds))"
  by (rule lockstep [OF assms assms(3)])

theorem machines_in_lockstep_witness:
  "fst (foldl deliver_charge (CS_OPEN, None) [sample_delivery ''PAYMENT_CONFIRMED'' ''CONFIRMED'',
      sample_delivery ''PAYMENT_OVERDUE'' ''OVERDUE'']) =
   charge_of (fst (foldl deliver (A_VENCER, None) [sample_delivery ''PAYMENT_CONFIRMED'' ''CONFIRMED'',
      sample_delivery ''PAYMENT_OVERDUE'' ''OVERDUE'']))"
  using machines_in_lockstep [of "[sample_delivery ''PAYMENT_CONFIRMED'' ''CONFIRMED'',
      sample_delivery ''PAYMENT_OVERDUE'' ''OVERDUE'']" A_VENCER None]
  by (simp add: lifecycle_delivery_def sample_normalize lifecycle_def lifecycle_state_def)

end
