(* ===== verification/PaymentTrail.thy ===== *)
theory PaymentTrail
  imports PaymentMachine
begin

text \<open>
  The trail of the decisions, \<^verbatim>\<open>packages/finance/src/state-machine/payment-state-transition.service.ts\<close>:
  rows under a key that is unique per account, so that a replay is a logical success that
  adds no row.
\<close>

section \<open>The trail of decisions\<close>

datatype entity_type = ET_COBRANCA | ET_CHARGE

definition entity_text :: "entity_type \<Rightarrow> string" where
  "entity_text t = (case t of ET_COBRANCA \<Rightarrow> ''COBRANCA'' | ET_CHARGE \<Rightarrow> ''CHARGE'')"

definition source_text :: "state_source \<Rightarrow> string" where
  "source_text s = (case s of WEBHOOK \<Rightarrow> ''WEBHOOK'' | RECONCILIATION \<Rightarrow> ''RECONCILIATION''
     | MANUAL_VERIFY \<Rightarrow> ''MANUAL_VERIFY'')"

definition buildPaymentStateTransitionDedupeKey ::
    "string \<Rightarrow> entity_type \<Rightarrow> string \<Rightarrow> state_source \<Rightarrow> string \<Rightarrow> string" where
  "buildPaymentStateTransitionDedupeKey conta t entity src source_id =
     conta @ '':'' @ entity_text t @ '':'' @ entity @ '':'' @ source_text src @ '':'' @ source_id"

record transition_request =
  rq_contaId :: string
  rq_entityType :: entity_type
  rq_entityId :: string
  rq_source :: state_source
  rq_sourceId :: string
  rq_eventName :: "string option"
  rq_providerBefore :: "string option"
  rq_providerAfter :: "string option"
  rq_localBefore :: string
  rq_localAfter :: string
  rq_kind :: decision_kind
  rq_reason :: string
  rq_providerOccurredAt :: "int option"
  rq_localVersion :: "int option"
  rq_correlationId :: "string option"

record transition_row =
  rw_id :: string
  rw_dedupeKey :: string
  rw_data :: transition_request

definition dedupe_key :: "transition_request \<Rightarrow> string" where
  "dedupe_key r = buildPaymentStateTransitionDedupeKey (rq_contaId r) (rq_entityType r) (rq_entityId r)
     (rq_source r) (rq_sourceId r)"

text \<open>
  The unique index over the account and the key rejects a second row; the handler then
  returns the stored one. \<open>fresh_id\<close> is the id the database would generate.
\<close>

definition recordPaymentStateTransition ::
    "string \<Rightarrow> transition_request \<Rightarrow> transition_row list \<Rightarrow> (bool \<times> string option) \<times> transition_row list" where
  "recordPaymentStateTransition fresh_id r trail =
     (case find (\<lambda>row. rq_contaId (rw_data row) = rq_contaId r \<and> rw_dedupeKey row = dedupe_key r) trail of
        None \<Rightarrow> ((True, Some fresh_id), trail @ [\<lparr>rw_id = fresh_id, rw_dedupeKey = dedupe_key r, rw_data = r\<rparr>])
      | Some row \<Rightarrow> ((False, Some (rw_id row)), trail))"

definition trail_keys :: "transition_row list \<Rightarrow> (string \<times> string) list" where
  "trail_keys trail = map (\<lambda>row. (rq_contaId (rw_data row), rw_dedupeKey row)) trail"

definition record_all :: "(string \<times> transition_request) list \<Rightarrow> transition_row list \<Rightarrow> transition_row list" where
  "record_all rs trail = foldl (\<lambda>t (i, r). snd (recordPaymentStateTransition i r t)) trail rs"

abbreviation same_key :: "transition_request \<Rightarrow> transition_row \<Rightarrow> bool" where
  "same_key r row \<equiv> rq_contaId (rw_data row) = rq_contaId r \<and> rw_dedupeKey row = dedupe_key r"

lemma trail_keys_iff: "(rq_contaId r, dedupe_key r) \<in> set (trail_keys trail) \<longleftrightarrow> (\<exists>row \<in> set trail. same_key r row)"
  unfolding trail_keys_def set_map image_iff by (rule bex_cong) auto

lemma record_found:
  assumes "(rq_contaId r, dedupe_key r) \<in> set (trail_keys trail)"
  shows "\<exists>row \<in> set trail. recordPaymentStateTransition i r trail = ((False, Some (rw_id row)), trail)"
proof -
  have "find (same_key r) trail \<noteq> None" using assms by (auto simp: find_None_iff trail_keys_iff)
  then obtain row where "find (same_key r) trail = Some row" by blast
  then show ?thesis using find_SomeD by (fastforce simp: recordPaymentStateTransition_def)
qed

lemma record_new:
  assumes "(rq_contaId r, dedupe_key r) \<notin> set (trail_keys trail)"
  shows "recordPaymentStateTransition i r trail =
       ((True, Some i), trail @ [\<lparr>rw_id = i, rw_dedupeKey = dedupe_key r, rw_data = r\<rparr>])"
proof -
  have "find (same_key r) trail = None" using assms by (simp add: find_None_iff trail_keys_iff)
  then show ?thesis by (simp add: recordPaymentStateTransition_def)
qed

lemma record_keys:
  "trail_keys (snd (recordPaymentStateTransition i r trail)) =
     (if (rq_contaId r, dedupe_key r) \<in> set (trail_keys trail) then trail_keys trail
      else trail_keys trail @ [(rq_contaId r, dedupe_key r)])"
  using record_found [of r trail i] record_new [of r trail i] by (auto simp: trail_keys_def)

lemma record_prefix: "\<exists>rows. snd (recordPaymentStateTransition i r trail) = trail @ rows"
  using record_found [of r trail i] record_new [of r trail i] by force

lemma record_all_keys:
  assumes "distinct (trail_keys trail)"
  shows "(\<exists>rows. record_all rs trail = trail @ rows) \<and> distinct (trail_keys (record_all rs trail)) \<and>
    set (trail_keys (record_all rs trail)) =
      set (trail_keys trail) \<union> (\<lambda>(i, r). (rq_contaId r, dedupe_key r)) ` set rs \<and>
    (\<forall>(i, r) \<in> set rs. \<forall>j. snd (recordPaymentStateTransition j r (record_all rs trail)) = record_all rs trail)"
proof -
  have base: "(\<exists>rows. record_all rs trail = trail @ rows) \<and> distinct (trail_keys (record_all rs trail)) \<and>
    set (trail_keys (record_all rs trail)) =
      set (trail_keys trail) \<union> (\<lambda>(i, r). (rq_contaId r, dedupe_key r)) ` set rs"
    using assms
  proof (induction rs rule: rev_induct)
    case (snoc x rs)
    obtain i r where x: "x = (i, r)" by fastforce
    have step: "record_all (rs @ [x]) trail = snd (recordPaymentStateTransition i r (record_all rs trail))"
      by (simp add: record_all_def x)
    obtain rows where "record_all rs trail = trail @ rows" using snoc by blast
    then have "\<exists>rows. record_all (rs @ [x]) trail = trail @ rows"
      using record_prefix [of i r "record_all rs trail"] step by auto
    moreover have "distinct (trail_keys (record_all (rs @ [x]) trail))"
      using snoc by (simp add: step record_keys)
    moreover have "set (trail_keys (record_all (rs @ [x]) trail)) =
      set (trail_keys trail) \<union> (\<lambda>(i, r). (rq_contaId r, dedupe_key r)) ` set (rs @ [x])"
      unfolding step record_keys using snoc x by auto
    ultimately show ?case by blast
  qed (simp add: record_all_def)
  have "(rq_contaId r, dedupe_key r) \<in> set (trail_keys (record_all rs trail))" if "(i, r) \<in> set rs" for i r
    using that base by force
  note mem = this
  have "\<forall>(i, r) \<in> set rs. \<forall>j. snd (recordPaymentStateTransition j r (record_all rs trail)) = record_all rs trail"
  proof clarify
    fix i r j assume "(i, r) \<in> set rs"
    from record_found [OF mem [OF this], of j]
    show "snd (recordPaymentStateTransition j r (record_all rs trail)) = record_all rs trail" by auto
  qed
  with base show ?thesis by blast
qed

text \<open>
  What a request reports: an entity of an account, from a source. The key of the row tells all of it, as
  long as the id of the entity has no colon; that of the source may have some.
\<close>

definition reported :: "transition_request \<Rightarrow> string \<times> entity_type \<times> string \<times> state_source \<times> string" where
  "reported r = (rq_contaId r, rq_entityType r, rq_entityId r, rq_source r, rq_sourceId r)"

definition plain_entity :: "transition_request \<Rightarrow> bool" where
  "plain_entity r \<longleftrightarrow> CHR '':'' \<notin> set (rq_entityId r)"

lemma split_first_separator:
  assumes "c \<notin> set xs" "c \<notin> set xs'" "xs @ c # ys = xs' @ c # ys'"
  shows "xs = xs' \<and> ys = ys'"
proof -
  have "takeWhile (\<lambda>d. d \<noteq> c) (xs @ c # ys) = xs" "takeWhile (\<lambda>d. d \<noteq> c) (xs' @ c # ys') = xs'"
    using assms(1,2) by (auto simp: takeWhile_append)
  then have "xs = xs'" using assms(3) by simp
  then show ?thesis using assms(3) by simp
qed

lemma text_no_colon: "CHR '':'' \<notin> set (entity_text t)" "CHR '':'' \<notin> set (source_text x)"
  by (cases t; simp add: entity_text_def) (cases x; simp add: source_text_def)

lemma text_inj: "entity_text t = entity_text t' \<longleftrightarrow> t = t'" "source_text x = source_text x' \<longleftrightarrow> x = x'"
  by (cases t; cases t'; simp add: entity_text_def) (cases x; cases x'; simp add: source_text_def)

lemma dedupe_key_reports:
  assumes "plain_entity r" "plain_entity r'"
  shows "(rq_contaId r, dedupe_key r) = (rq_contaId r', dedupe_key r') \<longleftrightarrow> reported r = reported r'"
proof
  assume eq: "(rq_contaId r, dedupe_key r) = (rq_contaId r', dedupe_key r')"
  then have conta: "rq_contaId r = rq_contaId r'" by simp
  have "entity_text (rq_entityType r) @ CHR '':'' # rq_entityId r @ CHR '':'' # source_text (rq_source r) @ CHR '':'' # rq_sourceId r =
      entity_text (rq_entityType r') @ CHR '':'' # rq_entityId r' @ CHR '':'' # source_text (rq_source r') @ CHR '':'' # rq_sourceId r'"
    using eq unfolding prod.inject dedupe_key_def buildPaymentStateTransitionDedupeKey_def conta by simp
  from split_first_separator [OF text_no_colon(1) text_no_colon(1) this]
  have t: "rq_entityType r = rq_entityType r'" and
    "rq_entityId r @ CHR '':'' # source_text (rq_source r) @ CHR '':'' # rq_sourceId r =
      rq_entityId r' @ CHR '':'' # source_text (rq_source r') @ CHR '':'' # rq_sourceId r'"
    by (simp_all add: text_inj)
  from split_first_separator [OF _ _ this(2)] assms
  have e: "rq_entityId r = rq_entityId r'" and
    "source_text (rq_source r) @ CHR '':'' # rq_sourceId r = source_text (rq_source r') @ CHR '':'' # rq_sourceId r'"
    by (simp_all add: plain_entity_def)
  from split_first_separator [OF text_no_colon(2) text_no_colon(2) this(2)]
  show "reported r = reported r'" using conta t e by (simp add: reported_def text_inj)
qed (simp add: reported_def dedupe_key_def)

text \<open>A trail whose rows carry the keys of their data, and the rows that recording adds.\<close>

definition true_keys :: "transition_row list \<Rightarrow> bool" where
  "true_keys trail \<longleftrightarrow> (\<forall>row \<in> set trail. rw_dedupeKey row = dedupe_key (rw_data row) \<and> plain_entity (rw_data row))"

lemma record_all_rows:
  "\<exists>rows. record_all rs trail = trail @ rows \<and>
     (\<forall>row \<in> set rows. rw_dedupeKey row = dedupe_key (rw_data row) \<and> rw_data row \<in> snd ` set rs)"
proof (induction rs rule: rev_induct)
  case (snoc x rs)
  obtain i r where x: "x = (i, r)" by fastforce
  obtain rows where rows: "record_all rs trail = trail @ rows"
    "\<forall>row \<in> set rows. rw_dedupeKey row = dedupe_key (rw_data row) \<and> rw_data row \<in> snd ` set rs" using snoc by blast
  have step: "record_all (rs @ [x]) trail = snd (recordPaymentStateTransition i r (record_all rs trail))"
    by (simp add: record_all_def x)
  show ?case
  proof (cases "(rq_contaId r, dedupe_key r) \<in> set (trail_keys (record_all rs trail))")
    case True
    from record_found [OF this, of i] have "record_all (rs @ [x]) trail = trail @ rows" using rows(1) step by auto
    then show ?thesis using rows(2) by (intro exI [of _ rows]) auto
  next
    case False
    have "record_all (rs @ [x]) trail = trail @ rows @ [\<lparr>rw_id = i, rw_dedupeKey = dedupe_key r, rw_data = r\<rparr>]"
      using record_new [OF False, of i] rows(1) step by simp
    moreover have "\<forall>row \<in> set (rows @ [\<lparr>rw_id = i, rw_dedupeKey = dedupe_key r, rw_data = r\<rparr>]).
        rw_dedupeKey row = dedupe_key (rw_data row) \<and> rw_data row \<in> snd ` set (rs @ [x])"
      using rows(2) by (simp add: x)
    ultimately show ?thesis by blast
  qed
qed (simp add: record_all_def)

lemma distinct_map_coarser:
  "distinct (map f xs) \<Longrightarrow> (\<And>x y. x \<in> set xs \<Longrightarrow> y \<in> set xs \<Longrightarrow> g x = g y \<Longrightarrow> f x = f y) \<Longrightarrow> distinct (map g xs)"
  unfolding distinct_map by (metis inj_onD inj_onI)

text \<open>
  C28. The trail is append-only and has exactly one row for everything that was reported - an
  entity of an account from a source with its id - whatever requests are recorded and however
  often: the old trail is a prefix of the new one, the rows added carry the data of requests,
  no two rows report the same, everything reported by the old trail or by a request has its
  row, and recording a request again creates nothing. The ids of the entities are taken to
  have no colon, which the keys rely on; those of the sources may have some.
\<close>

theorem trail_append_only_deduplicated:
  assumes "distinct (trail_keys trail)" "true_keys trail" "\<forall>(i, r) \<in> set rs. plain_entity r"
  shows "(\<exists>rows. record_all rs trail = trail @ rows \<and> rw_data ` set rows \<subseteq> snd ` set rs) \<and>
    distinct (map (\<lambda>row. reported (rw_data row)) (record_all rs trail)) \<and>
    (\<lambda>row. reported (rw_data row)) ` set (record_all rs trail) =
      (\<lambda>row. reported (rw_data row)) ` set trail \<union> (\<lambda>(i, r). reported r) ` set rs \<and>
    (\<forall>(i, r) \<in> set rs. \<forall>j. snd (recordPaymentStateTransition j r (record_all rs trail)) = record_all rs trail)"
proof -
  note keys = record_all_keys [OF assms(1), of rs]
  obtain rows where rows: "record_all rs trail = trail @ rows"
    "\<forall>row \<in> set rows. rw_dedupeKey row = dedupe_key (rw_data row) \<and> rw_data row \<in> snd ` set rs"
    using record_all_rows by blast
  have all: "rw_dedupeKey row = dedupe_key (rw_data row) \<and> plain_entity (rw_data row)"
    if "row \<in> set (record_all rs trail)" for row
    using that assms(2,3) rows unfolding true_keys_def by fastforce
  have "distinct (map (\<lambda>row. reported (rw_data row)) (record_all rs trail))"
  proof (rule distinct_map_coarser)
    show "distinct (map (\<lambda>row. (rq_contaId (rw_data row), rw_dedupeKey row)) (record_all rs trail))"
      using keys by (simp add: trail_keys_def)
    show "(rq_contaId (rw_data x), rw_dedupeKey x) = (rq_contaId (rw_data y), rw_dedupeKey y)"
      if "x \<in> set (record_all rs trail)" "y \<in> set (record_all rs trail)" "reported (rw_data x) = reported (rw_data y)" for x y
      using all [OF that(1)] all [OF that(2)] that(3) dedupe_key_reports by metis
  qed
  moreover have "reported r \<in> (\<lambda>row. reported (rw_data row)) ` set (record_all rs trail)" if r: "(i, r) \<in> set rs" for i r
  proof -
    have "(rq_contaId r, dedupe_key r) \<in> set (trail_keys (record_all rs trail))" using keys r by force
    then obtain row where row: "row \<in> set (record_all rs trail)" "same_key r row" unfolding trail_keys_iff by blast
    have "plain_entity r" using assms(3) r by auto
    moreover have "(rq_contaId (rw_data row), dedupe_key (rw_data row)) = (rq_contaId r, dedupe_key r)"
      using row all [OF row(1)] by simp
    ultimately have "reported (rw_data row) = reported r" using all [OF row(1)] dedupe_key_reports by blast
    then show ?thesis using row(1) by (metis image_eqI)
  qed
  then have "(\<lambda>row. reported (rw_data row)) ` set (record_all rs trail) =
      (\<lambda>row. reported (rw_data row)) ` set trail \<union> (\<lambda>(i, r). reported r) ` set rs"
    using rows by fastforce
  moreover have "\<exists>rows. record_all rs trail = trail @ rows \<and> rw_data ` set rows \<subseteq> snd ` set rs"
    using rows by blast
  ultimately show ?thesis using keys by blast
qed

definition sample_request :: transition_request where
  "sample_request = \<lparr>rq_contaId = ''c1'', rq_entityType = ET_CHARGE, rq_entityId = ''h1'', rq_source = WEBHOOK,
     rq_sourceId = ''evt:1'', rq_eventName = None, rq_providerBefore = None, rq_providerAfter = None,
     rq_localBefore = ''OPEN'', rq_localAfter = ''PAID'', rq_kind = APPLY, rq_reason = ''R'',
     rq_providerOccurredAt = None, rq_localVersion = None, rq_correlationId = None\<rparr>"

text \<open>The same report twice and another of the same entity, whose source has another id: two rows.\<close>

theorem trail_append_only_deduplicated_witness:
  "length (record_all [(''1'', sample_request), (''2'', sample_request), (''3'', sample_request\<lparr>rq_sourceId := ''evt:2''\<rparr>)] []) = 2"
proof -
  let ?rs = "[(''1'', sample_request), (''2'', sample_request), (''3'', sample_request\<lparr>rq_sourceId := ''evt:2''\<rparr>)]"
  let ?f = "\<lambda>row. reported (rw_data row)"
  have p: "\<forall>(i, r) \<in> set ?rs. plain_entity r" by (simp add: plain_entity_def sample_request_def)
  have t: "distinct (trail_keys [])" "true_keys []" by (simp_all add: trail_keys_def true_keys_def)
  note all = trail_append_only_deduplicated [OF t p]
  have "length (record_all ?rs []) = card (?f ` set (record_all ?rs []))"
    using all distinct_card [of "map ?f (record_all ?rs [])"] by simp
  also have "?f ` set (record_all ?rs []) = {reported sample_request, reported (sample_request\<lparr>rq_sourceId := ''evt:2''\<rparr>)}"
    using all by auto
  also have "card \<dots> = 2" by (simp add: reported_def sample_request_def)
  finally show ?thesis .
qed

end
