(* ===== verification/WebhookRegistry.thy ===== *)
theory WebhookRegistry
  imports Prelude "HOL-Library.List_Lexorder" "HOL-Library.Char_ord"
begin

text \<open>
  The registry of the provider's webhook events and the policy derived from it,
  \<^verbatim>\<open>packages/finance/src/webhooks/asaas-event-registry.ts\<close>. The registry is an object literal: an
  association list in the order of the file, one definition per category; the
  descriptions, which no function reads, are left out. A lookup \<^verbatim>\<open>REGISTRY[event]\<close> also sees the
  names that every object inherits, and \<open>inherited_names\<close> keeps that behaviour.
\<close>

section \<open>Types\<close>

datatype impact_level = IL_CRITICAL | IL_HIGH | IL_MEDIUM | IL_LOW | IL_INFO

datatype event_category = EC_PAYMENT | EC_SUBSCRIPTION | EC_TRANSFER | EC_ACCOUNT_STATUS | EC_INVOICE
  | EC_BILL | EC_ANTICIPATION | EC_PHONE_RECHARGE | EC_CHECKOUT | EC_BALANCE | EC_INTERNAL_TRANSFER
  | EC_ACCESS_TOKEN | EC_PIX_AUTOMATIC

record event_definition =
  ed_category :: event_category
  ed_handled :: bool
  ed_handler :: "string option"
  ed_impactLevel :: impact_level
  ed_requiresSync :: bool

datatype policy_category = PC_PAYMENT | PC_SUBSCRIPTION | PC_TRANSFER | PC_ACCOUNT_STATUS | PC_INVOICE
  | PC_BALANCE | PC_ACCESS_TOKEN | PC_ANTICIPATION | PC_AUDIT_ONLY | PC_UNUSED | PC_PIX_AUTOMATIC

datatype handling_mode = STATE_CHANGE | AUDIT_ONLY | NOT_USED | UNKNOWN_ALERT

datatype criticality = CR_CRITICAL | CR_HIGH | CR_MEDIUM | CR_LOW | CR_INFO

record event_policy =
  ep_event :: string
  ep_category :: policy_category
  ep_handlingMode :: handling_mode
  ep_criticality :: "criticality option"
  ep_mustProvision :: bool
  ep_requiresReconciliation :: bool

definition event_def ::
    "event_category \<Rightarrow> bool \<Rightarrow> string option \<Rightarrow> impact_level \<Rightarrow> bool \<Rightarrow> event_definition" where
  "event_def c handled handler impact sync = \<lparr>ed_category = c, ed_handled = handled, ed_handler = handler,
     ed_impactLevel = impact, ed_requiresSync = sync\<rparr>"

section \<open>The registry\<close>

definition payment_events :: "(string \<times> event_definition) list" where
  "payment_events = [
     (''PAYMENT_CREATED'', event_def EC_PAYMENT True (Some ''handlePaymentWebhook'') IL_HIGH True),
     (''PAYMENT_AWAITING_RISK_ANALYSIS'', event_def EC_PAYMENT True (Some ''handlePaymentWebhook'') IL_MEDIUM True),
     (''PAYMENT_APPROVED_BY_RISK_ANALYSIS'', event_def EC_PAYMENT True (Some ''handlePaymentWebhook'') IL_HIGH True),
     (''PAYMENT_REPROVED_BY_RISK_ANALYSIS'', event_def EC_PAYMENT True (Some ''handlePaymentWebhook'') IL_CRITICAL True),
     (''PAYMENT_AUTHORIZED'', event_def EC_PAYMENT True (Some ''handlePaymentWebhook'') IL_HIGH True),
     (''PAYMENT_UPDATED'', event_def EC_PAYMENT True (Some ''handlePaymentWebhook'') IL_MEDIUM True),
     (''PAYMENT_CONFIRMED'', event_def EC_PAYMENT True (Some ''handlePaymentWebhook'') IL_CRITICAL True),
     (''PAYMENT_RECEIVED'', event_def EC_PAYMENT True (Some ''handlePaymentWebhook'') IL_CRITICAL True),
     (''PAYMENT_CREDIT_CARD_CAPTURE_REFUSED'', event_def EC_PAYMENT True (Some ''handlePaymentWebhook'') IL_CRITICAL True),
     (''PAYMENT_ANTICIPATED'', event_def EC_PAYMENT True (Some ''handlePaymentWebhook'') IL_MEDIUM True),
     (''PAYMENT_OVERDUE'', event_def EC_PAYMENT True (Some ''handlePaymentWebhook'') IL_CRITICAL True),
     (''PAYMENT_DELETED'', event_def EC_PAYMENT True (Some ''handlePaymentWebhook'') IL_HIGH True),
     (''PAYMENT_RESTORED'', event_def EC_PAYMENT True (Some ''handlePaymentWebhook'') IL_HIGH True),
     (''PAYMENT_REFUNDED'', event_def EC_PAYMENT True (Some ''handlePaymentWebhook'') IL_CRITICAL True),
     (''PAYMENT_PARTIALLY_REFUNDED'', event_def EC_PAYMENT True (Some ''handlePaymentWebhook'') IL_CRITICAL True),
     (''PAYMENT_REFUND_IN_PROGRESS'', event_def EC_PAYMENT True (Some ''handlePaymentWebhook'') IL_HIGH True),
     (''PAYMENT_RECEIVED_IN_CASH_UNDONE'', event_def EC_PAYMENT True (Some ''handlePaymentWebhook'') IL_HIGH True),
     (''PAYMENT_CHARGEBACK_REQUESTED'', event_def EC_PAYMENT True (Some ''handlePaymentWebhook'') IL_CRITICAL True)]"

definition payment_events2 :: "(string \<times> event_definition) list" where
  "payment_events2 = [
     (''PAYMENT_CHARGEBACK_DISPUTE'', event_def EC_PAYMENT True (Some ''handlePaymentWebhook'') IL_CRITICAL True),
     (''PAYMENT_AWAITING_CHARGEBACK_REVERSAL'', event_def EC_PAYMENT True (Some ''handlePaymentWebhook'') IL_HIGH True),
     (''PAYMENT_DUNNING_RECEIVED'', event_def EC_PAYMENT True (Some ''handlePaymentWebhook'') IL_CRITICAL True),
     (''PAYMENT_DUNNING_REQUESTED'', event_def EC_PAYMENT True (Some ''handlePaymentWebhook'') IL_HIGH True),
     (''PAYMENT_BANK_SLIP_VIEWED'', event_def EC_PAYMENT True (Some ''handlePaymentWebhook'') IL_INFO False),
     (''PAYMENT_CHECKOUT_VIEWED'', event_def EC_PAYMENT True (Some ''handlePaymentWebhook'') IL_INFO False),
     (''PAYMENT_SPLIT_DIVERGENCE_BLOCK'', event_def EC_PAYMENT True (Some ''handlePaymentWebhook'') IL_HIGH True),
     (''PAYMENT_SPLIT_DIVERGENCE_BLOCK_FINISHED'', event_def EC_PAYMENT True (Some ''handlePaymentWebhook'') IL_MEDIUM True),
     (''PAYMENT_REFUND_DENIED'', event_def EC_PAYMENT True (Some ''handlePaymentWebhook'') IL_CRITICAL True),
     (''PAYMENT_BANK_SLIP_CANCELLED'', event_def EC_PAYMENT True (Some ''handlePaymentWebhook'') IL_HIGH True),
     (''PAYMENT_SPLIT_CANCELLED'', event_def EC_PAYMENT True (Some ''handlePaymentWebhook'') IL_HIGH True)]"

definition subscription_events :: "(string \<times> event_definition) list" where
  "subscription_events = [
     (''SUBSCRIPTION_CREATED'', event_def EC_SUBSCRIPTION True (Some ''handleSubscriptionWebhook'') IL_HIGH True),
     (''SUBSCRIPTION_UPDATED'', event_def EC_SUBSCRIPTION True (Some ''handleSubscriptionWebhook'') IL_MEDIUM True),
     (''SUBSCRIPTION_INACTIVATED'', event_def EC_SUBSCRIPTION True (Some ''handleSubscriptionWebhook'') IL_CRITICAL True),
     (''SUBSCRIPTION_DELETED'', event_def EC_SUBSCRIPTION True (Some ''handleSubscriptionWebhook'') IL_CRITICAL True),
     (''SUBSCRIPTION_SPLIT_DIVERGENCE_BLOCK'', event_def EC_SUBSCRIPTION True (Some ''handleSubscriptionWebhook'') IL_HIGH True),
     (''SUBSCRIPTION_SPLIT_DIVERGENCE_BLOCK_FINISHED'', event_def EC_SUBSCRIPTION True (Some ''handleSubscriptionWebhook'') IL_MEDIUM True),
     (''SUBSCRIPTION_SPLIT_DISABLED'', event_def EC_SUBSCRIPTION True (Some ''handleSubscriptionWebhook'') IL_HIGH True)]"

definition transfer_events :: "(string \<times> event_definition) list" where
  "transfer_events = [
     (''TRANSFER_CREATED'', event_def EC_TRANSFER True (Some ''handleTransferWebhook'') IL_MEDIUM True),
     (''TRANSFER_PENDING'', event_def EC_TRANSFER True (Some ''handleTransferWebhook'') IL_LOW True),
     (''TRANSFER_IN_BANK_PROCESSING'', event_def EC_TRANSFER True (Some ''handleTransferWebhook'') IL_LOW True),
     (''TRANSFER_BLOCKED'', event_def EC_TRANSFER True (Some ''handleTransferWebhook'') IL_HIGH True),
     (''TRANSFER_DONE'', event_def EC_TRANSFER True (Some ''handleTransferWebhook'') IL_MEDIUM True),
     (''TRANSFER_FAILED'', event_def EC_TRANSFER True (Some ''handleTransferWebhook'') IL_CRITICAL True),
     (''TRANSFER_CANCELLED'', event_def EC_TRANSFER True (Some ''handleTransferWebhook'') IL_HIGH True)]"

definition account_status_events :: "(string \<times> event_definition) list" where
  "account_status_events = [
     (''ACCOUNT_STATUS_BANK_ACCOUNT_INFO_APPROVED'', event_def EC_ACCOUNT_STATUS True (Some ''handleAccountWebhook'') IL_HIGH True),
     (''ACCOUNT_STATUS_BANK_ACCOUNT_INFO_AWAITING_APPROVAL'', event_def EC_ACCOUNT_STATUS True (Some ''handleAccountWebhook'') IL_MEDIUM True),
     (''ACCOUNT_STATUS_BANK_ACCOUNT_INFO_PENDING'', event_def EC_ACCOUNT_STATUS True (Some ''handleAccountWebhook'') IL_MEDIUM True),
     (''ACCOUNT_STATUS_BANK_ACCOUNT_INFO_REJECTED'', event_def EC_ACCOUNT_STATUS True (Some ''handleAccountWebhook'') IL_CRITICAL True),
     (''ACCOUNT_STATUS_COMMERCIAL_INFO_APPROVED'', event_def EC_ACCOUNT_STATUS True (Some ''handleAccountWebhook'') IL_HIGH True),
     (''ACCOUNT_STATUS_COMMERCIAL_INFO_AWAITING_APPROVAL'', event_def EC_ACCOUNT_STATUS True (Some ''handleAccountWebhook'') IL_MEDIUM True),
     (''ACCOUNT_STATUS_COMMERCIAL_INFO_PENDING'', event_def EC_ACCOUNT_STATUS True (Some ''handleAccountWebhook'') IL_MEDIUM True),
     (''ACCOUNT_STATUS_COMMERCIAL_INFO_REJECTED'', event_def EC_ACCOUNT_STATUS True (Some ''handleAccountWebhook'') IL_CRITICAL True),
     (''ACCOUNT_STATUS_COMMERCIAL_INFO_EXPIRING_SOON'', event_def EC_ACCOUNT_STATUS True (Some ''handleAccountWebhook'') IL_MEDIUM True),
     (''ACCOUNT_STATUS_COMMERCIAL_INFO_EXPIRED'', event_def EC_ACCOUNT_STATUS True (Some ''handleAccountWebhook'') IL_CRITICAL True),
     (''ACCOUNT_STATUS_DOCUMENT_APPROVED'', event_def EC_ACCOUNT_STATUS True (Some ''handleAccountWebhook'') IL_HIGH True),
     (''ACCOUNT_STATUS_DOCUMENT_AWAITING_APPROVAL'', event_def EC_ACCOUNT_STATUS True (Some ''handleAccountWebhook'') IL_MEDIUM True),
     (''ACCOUNT_STATUS_DOCUMENT_PENDING'', event_def EC_ACCOUNT_STATUS True (Some ''handleAccountWebhook'') IL_MEDIUM True),
     (''ACCOUNT_STATUS_DOCUMENT_REJECTED'', event_def EC_ACCOUNT_STATUS True (Some ''handleAccountWebhook'') IL_CRITICAL True),
     (''ACCOUNT_STATUS_GENERAL_APPROVAL_APPROVED'', event_def EC_ACCOUNT_STATUS True (Some ''handleAccountWebhook'') IL_CRITICAL True),
     (''ACCOUNT_STATUS_GENERAL_APPROVAL_AWAITING_APPROVAL'', event_def EC_ACCOUNT_STATUS True (Some ''handleAccountWebhook'') IL_MEDIUM True),
     (''ACCOUNT_STATUS_GENERAL_APPROVAL_PENDING'', event_def EC_ACCOUNT_STATUS True (Some ''handleAccountWebhook'') IL_MEDIUM True),
     (''ACCOUNT_STATUS_GENERAL_APPROVAL_REJECTED'', event_def EC_ACCOUNT_STATUS True (Some ''handleAccountWebhook'') IL_CRITICAL True)]"

definition internal_transfer_events :: "(string \<times> event_definition) list" where
  "internal_transfer_events = [
     (''INTERNAL_TRANSFER_CREDIT'', event_def EC_INTERNAL_TRANSFER True (Some ''handleInternalTransferWebhook'') IL_LOW False),
     (''INTERNAL_TRANSFER_DEBIT'', event_def EC_INTERNAL_TRANSFER True (Some ''handleInternalTransferWebhook'') IL_LOW False)]"

definition invoice_events :: "(string \<times> event_definition) list" where
  "invoice_events = [
     (''INVOICE_CREATED'', event_def EC_INVOICE True (Some ''handleInvoiceWebhook'') IL_INFO False),
     (''INVOICE_UPDATED'', event_def EC_INVOICE True (Some ''handleInvoiceWebhook'') IL_INFO False),
     (''INVOICE_SYNCHRONIZED'', event_def EC_INVOICE True (Some ''handleInvoiceWebhook'') IL_INFO False),
     (''INVOICE_AUTHORIZED'', event_def EC_INVOICE True (Some ''handleInvoiceWebhook'') IL_INFO False),
     (''INVOICE_PROCESSING_CANCELLATION'', event_def EC_INVOICE True (Some ''handleInvoiceWebhook'') IL_INFO False),
     (''INVOICE_CANCELED'', event_def EC_INVOICE True (Some ''handleInvoiceWebhook'') IL_INFO False),
     (''INVOICE_CANCELLATION_DENIED'', event_def EC_INVOICE True (Some ''handleInvoiceWebhook'') IL_INFO False),
     (''INVOICE_ERROR'', event_def EC_INVOICE True (Some ''handleInvoiceWebhook'') IL_INFO False)]"

definition bill_events :: "(string \<times> event_definition) list" where
  "bill_events = [
     (''BILL_CREATED'', event_def EC_BILL False None IL_INFO False),
     (''BILL_PENDING'', event_def EC_BILL False None IL_INFO False),
     (''BILL_BANK_PROCESSING'', event_def EC_BILL False None IL_INFO False),
     (''BILL_PAID'', event_def EC_BILL False None IL_INFO False),
     (''BILL_CANCELLED'', event_def EC_BILL False None IL_INFO False),
     (''BILL_FAILED'', event_def EC_BILL False None IL_INFO False),
     (''BILL_REFUNDED'', event_def EC_BILL False None IL_INFO False)]"

definition anticipation_events :: "(string \<times> event_definition) list" where
  "anticipation_events = [
     (''RECEIVABLE_ANTICIPATION_CANCELLED'', event_def EC_ANTICIPATION True (Some ''handleAnticipationWebhook'') IL_INFO False),
     (''RECEIVABLE_ANTICIPATION_PENDING'', event_def EC_ANTICIPATION True (Some ''handleAnticipationWebhook'') IL_INFO False),
     (''RECEIVABLE_ANTICIPATION_DENIED'', event_def EC_ANTICIPATION True (Some ''handleAnticipationWebhook'') IL_INFO False),
     (''RECEIVABLE_ANTICIPATION_SCHEDULED'', event_def EC_ANTICIPATION True (Some ''handleAnticipationWebhook'') IL_INFO False),
     (''RECEIVABLE_ANTICIPATION_CREDITED'', event_def EC_ANTICIPATION True (Some ''handleAnticipationWebhook'') IL_INFO False),
     (''RECEIVABLE_ANTICIPATION_DEBITED'', event_def EC_ANTICIPATION True (Some ''handleAnticipationWebhook'') IL_INFO False),
     (''RECEIVABLE_ANTICIPATION_OVERDUE'', event_def EC_ANTICIPATION True (Some ''handleAnticipationWebhook'') IL_INFO False)]"

definition phone_recharge_events :: "(string \<times> event_definition) list" where
  "phone_recharge_events = [
     (''MOBILE_PHONE_RECHARGE_PENDING'', event_def EC_PHONE_RECHARGE False None IL_INFO False),
     (''MOBILE_PHONE_RECHARGE_CONFIRMED'', event_def EC_PHONE_RECHARGE False None IL_INFO False),
     (''MOBILE_PHONE_RECHARGE_CANCELLED'', event_def EC_PHONE_RECHARGE False None IL_INFO False),
     (''MOBILE_PHONE_RECHARGE_REFUNDED'', event_def EC_PHONE_RECHARGE False None IL_INFO False)]"

definition checkout_events :: "(string \<times> event_definition) list" where
  "checkout_events = [
     (''CHECKOUT_CREATED'', event_def EC_CHECKOUT False None IL_INFO False),
     (''CHECKOUT_CANCELED'', event_def EC_CHECKOUT False None IL_INFO False),
     (''CHECKOUT_EXPIRED'', event_def EC_CHECKOUT False None IL_INFO False),
     (''CHECKOUT_PAID'', event_def EC_CHECKOUT False None IL_INFO False)]"

definition balance_events :: "(string \<times> event_definition) list" where
  "balance_events = [
     (''BALANCE_VALUE_BLOCKED'', event_def EC_BALANCE True (Some ''handleBalanceWebhook'') IL_CRITICAL False),
     (''BALANCE_VALUE_UNBLOCKED'', event_def EC_BALANCE True (Some ''handleBalanceWebhook'') IL_HIGH False)]"

definition access_token_events :: "(string \<times> event_definition) list" where
  "access_token_events = [
     (''ACCESS_TOKEN_CREATED'', event_def EC_ACCESS_TOKEN False None IL_INFO False),
     (''ACCESS_TOKEN_DELETED'', event_def EC_ACCESS_TOKEN False None IL_INFO False),
     (''ACCESS_TOKEN_DISABLED'', event_def EC_ACCESS_TOKEN False None IL_INFO False),
     (''ACCESS_TOKEN_ENABLED'', event_def EC_ACCESS_TOKEN False None IL_INFO False),
     (''ACCESS_TOKEN_EXPIRED'', event_def EC_ACCESS_TOKEN True (Some ''handleAccessTokenWebhook'') IL_CRITICAL False),
     (''ACCESS_TOKEN_EXPIRING_SOON'', event_def EC_ACCESS_TOKEN True (Some ''handleAccessTokenWebhook'') IL_HIGH False)]"

definition pix_automatic_events :: "(string \<times> event_definition) list" where
  "pix_automatic_events = [
     (''PIX_AUTOMATIC_RECURRING_AUTHORIZATION_CREATED'', event_def EC_PIX_AUTOMATIC False None IL_INFO False),
     (''PIX_AUTOMATIC_RECURRING_AUTHORIZATION_ACTIVATED'', event_def EC_PIX_AUTOMATIC False None IL_INFO False),
     (''PIX_AUTOMATIC_RECURRING_AUTHORIZATION_CANCELLED'', event_def EC_PIX_AUTOMATIC False None IL_INFO False),
     (''PIX_AUTOMATIC_RECURRING_AUTHORIZATION_EXPIRED'', event_def EC_PIX_AUTOMATIC False None IL_INFO False),
     (''PIX_AUTOMATIC_RECURRING_AUTHORIZATION_REFUSED'', event_def EC_PIX_AUTOMATIC False None IL_INFO False),
     (''PIX_AUTOMATIC_RECURRING_PAYMENT_INSTRUCTION_CREATED'', event_def EC_PIX_AUTOMATIC False None IL_INFO False),
     (''PIX_AUTOMATIC_RECURRING_PAYMENT_INSTRUCTION_SCHEDULED'', event_def EC_PIX_AUTOMATIC False None IL_INFO False),
     (''PIX_AUTOMATIC_RECURRING_PAYMENT_INSTRUCTION_REFUSED'', event_def EC_PIX_AUTOMATIC False None IL_INFO False),
     (''PIX_AUTOMATIC_RECURRING_PAYMENT_INSTRUCTION_CANCELLED'', event_def EC_PIX_AUTOMATIC False None IL_INFO False),
     (''PIX_AUTOMATIC_RECURRING_ELIGIBILITY_UPDATED'', event_def EC_PIX_AUTOMATIC False None IL_INFO False)]"

definition event_registry :: "(string \<times> event_definition) list" where
  "event_registry = payment_events @ payment_events2 @ subscription_events @ transfer_events @ account_status_events @ internal_transfer_events @ invoice_events @ bill_events @ anticipation_events @ phone_recharge_events @ checkout_events @ balance_events @ access_token_events @ pix_automatic_events"

section \<open>Helpers\<close>

definition isKnownEvent :: "string \<Rightarrow> bool" where
  "isKnownEvent e \<longleftrightarrow> e \<in> set (map fst event_registry) \<or> e \<in> set inherited_names"

definition isHandledEvent :: "string \<Rightarrow> bool" where
  "isHandledEvent e = (case map_of event_registry e of Some d \<Rightarrow> ed_handled d | None \<Rightarrow> False)"

definition events_where :: "(event_definition \<Rightarrow> bool) \<Rightarrow> string list" where
  "events_where P = map fst (filter (\<lambda>(_, d). P d) event_registry)"

definition getEventsByCategory :: "event_category \<Rightarrow> string list" where
  "getEventsByCategory c = events_where (\<lambda>d. ed_category d = c)"

definition getHandledEvents :: "string list" where
  "getHandledEvents = events_where ed_handled"

definition getUnhandledEvents :: "string list" where
  "getUnhandledEvents = events_where (\<lambda>d. \<not> ed_handled d)"

definition getCriticalEvents :: "string list" where
  "getCriticalEvents = events_where (\<lambda>d. ed_impactLevel d = IL_CRITICAL)"

fun toPolicyCategory :: "event_category \<Rightarrow> policy_category" where
  "toPolicyCategory EC_PAYMENT = PC_PAYMENT"
| "toPolicyCategory EC_SUBSCRIPTION = PC_SUBSCRIPTION"
| "toPolicyCategory EC_TRANSFER = PC_TRANSFER"
| "toPolicyCategory EC_ACCOUNT_STATUS = PC_ACCOUNT_STATUS"
| "toPolicyCategory EC_BALANCE = PC_BALANCE"
| "toPolicyCategory EC_ACCESS_TOKEN = PC_ACCESS_TOKEN"
| "toPolicyCategory EC_ANTICIPATION = PC_ANTICIPATION"
| "toPolicyCategory EC_INVOICE = PC_INVOICE"
| "toPolicyCategory EC_INTERNAL_TRANSFER = PC_AUDIT_ONLY"
| "toPolicyCategory EC_BILL = PC_AUDIT_ONLY"
| "toPolicyCategory EC_PIX_AUTOMATIC = PC_PIX_AUTOMATIC"
| "toPolicyCategory _ = PC_UNUSED"

fun toCriticality :: "impact_level \<Rightarrow> criticality" where
  "toCriticality IL_CRITICAL = CR_CRITICAL"
| "toCriticality IL_HIGH = CR_HIGH"
| "toCriticality IL_MEDIUM = CR_MEDIUM"
| "toCriticality IL_LOW = CR_LOW"
| "toCriticality IL_INFO = CR_INFO"

text \<open>
  For an inherited name the definition found is a function object, whose fields are all
  undefined; a criticality of \<open>None\<close> is the undefined value.
\<close>

definition getWebhookEventPolicy :: "string \<Rightarrow> event_policy" where
  "getWebhookEventPolicy e = (case map_of event_registry e of
       None \<Rightarrow>
         if e \<in> set inherited_names
         then \<lparr>ep_event = e, ep_category = PC_UNUSED, ep_handlingMode = NOT_USED, ep_criticality = None,
               ep_mustProvision = False, ep_requiresReconciliation = False\<rparr>
         else \<lparr>ep_event = e, ep_category = PC_AUDIT_ONLY, ep_handlingMode = UNKNOWN_ALERT,
               ep_criticality = Some CR_HIGH, ep_mustProvision = False, ep_requiresReconciliation = True\<rparr>
     | Some d \<Rightarrow>
         let isAuditOnly = (ed_category d \<noteq> EC_INVOICE \<and> ed_handled d \<and> \<not> ed_requiresSync d \<and>
               ed_impactLevel d = IL_INFO)
         in \<lparr>ep_event = e, ep_category = toPolicyCategory (ed_category d),
             ep_handlingMode = (if ed_handled d then if isAuditOnly then AUDIT_ONLY else STATE_CHANGE else NOT_USED),
             ep_criticality = Some (toCriticality (ed_impactLevel d)),
             ep_mustProvision = ed_handled d,
             ep_requiresReconciliation = (ed_requiresSync d \<or> ed_impactLevel d \<in> {IL_CRITICAL, IL_HIGH})\<rparr>)"

definition getWebhookEventPolicies :: "event_policy list" where
  "getWebhookEventPolicies = map getWebhookEventPolicy (sort (map fst event_registry))"

definition shouldAlertUnknownWebhookEvent :: "string \<Rightarrow> bool" where
  "shouldAlertUnknownWebhookEvent e = (let p = getWebhookEventPolicy e
     in ep_handlingMode p = UNKNOWN_ALERT \<or> ep_criticality p = Some CR_CRITICAL \<or> ep_criticality p = Some CR_HIGH)"

record registry_stats =
  rs_total :: nat
  rs_handled :: nat
  rs_unhandled :: nat
  rs_critical :: nat
  rs_byCategory :: "event_category \<rightharpoonup> nat"

definition count_category :: "(event_category \<rightharpoonup> nat) \<Rightarrow> event_definition \<Rightarrow> (event_category \<rightharpoonup> nat)" where
  "count_category m d = m(ed_category d \<mapsto> (case m (ed_category d) of Some n \<Rightarrow> n | None \<Rightarrow> 0) + 1)"

definition getRegistryStats :: registry_stats where
  "getRegistryStats = (let entries = map snd event_registry
     in \<lparr>rs_total = length entries, rs_handled = length (filter ed_handled entries),
         rs_unhandled = length (filter (\<lambda>d. \<not> ed_handled d) entries),
         rs_critical = length (filter (\<lambda>d. ed_impactLevel d = IL_CRITICAL) entries),
         rs_byCategory = foldl count_category Map.empty entries\<rparr>)"

section \<open>The registry is a function\<close>

lemmas registry_defs = event_registry_def payment_events_def payment_events2_def subscription_events_def transfer_events_def account_status_events_def internal_transfer_events_def invoice_events_def bill_events_def anticipation_events_def phone_recharge_events_def checkout_events_def balance_events_def access_token_events_def pix_automatic_events_def

lemma distinct_registry: "distinct (map fst event_registry)"
  by (simp add: registry_defs)

lemma registry_not_inherited: "list_all (\<lambda>e. e \<notin> set (map fst event_registry)) inherited_names"
  by code_simp

lemma inherited_unregistered: "e \<in> set inherited_names \<Longrightarrow> map_of event_registry e = None"
  using registry_not_inherited unfolding list_all_iff map_of_eq_None_iff by auto

lemma known_iff: "isKnownEvent e \<longleftrightarrow> map_of event_registry e \<noteq> None \<or> e \<in> set inherited_names"
  by (auto simp: isKnownEvent_def map_of_eq_None_iff)

lemma events_where_mem: "e \<in> set (events_where P) \<longleftrightarrow> (\<exists>d. map_of event_registry e = Some d \<and> P d)"
  using distinct_registry by (force simp: events_where_def map_of_eq_Some_iff)

lemma length_events_where: "length (events_where P) = length (filter P (map snd event_registry))"
proof -
  have "length (filter (\<lambda>(_, d). P d) xs) = length (filter P (map snd xs))" for xs :: "(string \<times> event_definition) list"
    by (induction xs) auto
  then show ?thesis by (simp add: events_where_def)
qed

text \<open>The counting loop counts each category.\<close>

lemma foldl_count_category:
  "foldl count_category m ds c =
     (let n = length (filter (\<lambda>d. ed_category d = c) ds)
      in if n = 0 then m c else Some ((case m c of Some k \<Rightarrow> k | None \<Rightarrow> 0) + n))"
  by (induction ds arbitrary: m) (auto simp: count_category_def Let_def)

text \<open>
  The policy of every event name: it raises an alert exactly when the event is not
  registered (and is not a name every object inherits) or its impact is high or critical;
  it must be provisioned exactly when it is handled; and an event changes state, is
  audited, is unused or is unknown according to its definition alone.
\<close>

theorem webhook_policy_classifies:
  "shouldAlertUnknownWebhookEvent e =
     (case map_of event_registry e of Some d \<Rightarrow> ed_impactLevel d \<in> {IL_CRITICAL, IL_HIGH}
      | None \<Rightarrow> \<not> isKnownEvent e) \<and>
   ep_mustProvision (getWebhookEventPolicy e) = isHandledEvent e \<and>
   (ep_handlingMode (getWebhookEventPolicy e) = UNKNOWN_ALERT \<longleftrightarrow> \<not> isKnownEvent e) \<and>
   (ep_handlingMode (getWebhookEventPolicy e) \<in> {STATE_CHANGE, AUDIT_ONLY} \<longleftrightarrow> e \<in> set getHandledEvents)"
proof (cases "map_of event_registry e")
  case None
  then show ?thesis
    by (auto simp: getWebhookEventPolicy_def shouldAlertUnknownWebhookEvent_def isHandledEvent_def known_iff
        getHandledEvents_def events_where_mem)
next
  case (Some d)
  then show ?thesis
    by (cases "ed_impactLevel d")
      (auto simp: getWebhookEventPolicy_def shouldAlertUnknownWebhookEvent_def isHandledEvent_def known_iff
        getHandledEvents_def events_where_mem Let_def)
qed

text \<open>
  The statistics agree with the queries: handled and unhandled events partition the
  registry, the count of a category is the number of its events, and the categories
  partition the registry too.
\<close>

lemma registry_stats_consistent:
  "rs_total getRegistryStats = length (getHandledEvents @ getUnhandledEvents) \<and>
   rs_critical getRegistryStats = length getCriticalEvents \<and>
   rs_byCategory getRegistryStats c =
     (if getEventsByCategory c = [] then None else Some (length (getEventsByCategory c))) \<and>
   set getHandledEvents \<inter> set getUnhandledEvents = {} \<and>
   set (getEventsByCategory c) \<inter> set (getEventsByCategory c') =
     (if c = c' then set (getEventsByCategory c) else {})"
proof (intro conjI)
  show "rs_total getRegistryStats = length (getHandledEvents @ getUnhandledEvents)"
    unfolding getRegistryStats_def getHandledEvents_def getUnhandledEvents_def length_append
      length_events_where Let_def by (simp only: registry_stats.simps sum_length_filter_compl)
  show "rs_critical getRegistryStats = length getCriticalEvents"
    by (simp add: getRegistryStats_def getCriticalEvents_def length_events_where)
  have "getEventsByCategory c = [] \<longleftrightarrow> length (filter (\<lambda>d. ed_category d = c) (map snd event_registry)) = 0"
    unfolding length_events_where [symmetric] getEventsByCategory_def by simp
  then show "rs_byCategory getRegistryStats c =
     (if getEventsByCategory c = [] then None else Some (length (getEventsByCategory c)))"
    by (simp add: getRegistryStats_def foldl_count_category Let_def)
      (simp add: getEventsByCategory_def length_events_where)
  show "set getHandledEvents \<inter> set getUnhandledEvents = {}"
    by (auto simp: getHandledEvents_def getUnhandledEvents_def events_where_mem)
  show "set (getEventsByCategory c) \<inter> set (getEventsByCategory c') =
     (if c = c' then set (getEventsByCategory c) else {})"
    by (auto simp: getEventsByCategory_def events_where_mem)
qed

end
