(* ===== verification/JSString.thy ===== *)
theory JSString
  imports Prelude
begin

text \<open>
  Strings of the source language beyond trimming and case: \<^verbatim>\<open>split\<close> and \<^verbatim>\<open>join\<close> over a
  one-character separator, \<^verbatim>\<open>startsWith\<close>, character classes of the regular expressions the
  code uses, decimal digits, and \<^verbatim>\<open>Number(text)\<close>. Strings are ASCII.
\<close>

section \<open>Splitting and joining\<close>

fun split_on :: "char \<Rightarrow> string \<Rightarrow> string list" where
  "split_on c [] = [[]]"
| "split_on c (x # xs) =
     (if x = c then [] # split_on c xs
      else case split_on c xs of [] \<Rightarrow> [[x]] | w # ws \<Rightarrow> (x # w) # ws)"

fun join_with :: "string \<Rightarrow> string list \<Rightarrow> string" where
  "join_with sep [] = []"
| "join_with sep [w] = w"
| "join_with sep (w # ws) = w @ sep @ join_with sep ws"

lemma split_on_not_Nil [simp]: "split_on c s \<noteq> []"
  by (induction s) (auto split: list.split)

lemma join_split [simp]: "join_with [c] (split_on c s) = s"
proof (induction s)
  case (Cons x xs)
  obtain w ws where "split_on c xs = w # ws" using split_on_not_Nil by (cases "split_on c xs") auto
  then show ?case using Cons by (cases ws) auto
qed simp

lemma split_on_no_separator: "c \<notin> set s \<Longrightarrow> split_on c s = [s]"
  by (induction s) auto

lemma split_on_append: "c \<notin> set w \<Longrightarrow> split_on c (w @ c # s) = w # split_on c s"
  by (induction w) auto

lemma split_join:
  assumes "ws \<noteq> []" "\<forall>w \<in> set ws. c \<notin> set w"
  shows "split_on c (join_with [c] ws) = ws"
  using assms
proof (induction ws rule: induct_list012)
  case (3 w v ws)
  then show ?case by (simp add: split_on_append)
qed (simp_all add: split_on_no_separator)

lemma split_on_append_split: "split_on c (u @ c # v) = split_on c u @ split_on c v"
proof (induction u)
  case (Cons x u)
  obtain w ws where "split_on c u = w # ws" using split_on_not_Nil by (cases "split_on c u") auto
  then show ?case using Cons by simp
qed simp

lemma join_with_append:
  "xs \<noteq> [] \<Longrightarrow> ys \<noteq> [] \<Longrightarrow> join_with sep (xs @ ys) = join_with sep xs @ sep @ join_with sep ys"
proof (induction xs rule: induct_list012)
  case (2 x)
  then show ?case by (cases ys) simp_all
qed simp_all

lemma split_on_inject: "split_on c s = split_on c t \<longleftrightarrow> s = t"
  by (metis join_split)

lemma marker_inject:
  "xs @ a # us = ys @ a # vs \<Longrightarrow> a \<notin> set xs \<Longrightarrow> a \<notin> set ys \<Longrightarrow> xs = ys"
proof (induction xs arbitrary: ys)
  case (Cons x xs)
  then show ?case by (cases ys) auto
next
  case Nil
  then show ?case by (cases ys) auto
qed

definition starts_with :: "string \<Rightarrow> string \<Rightarrow> bool" where
  "starts_with pre s \<longleftrightarrow> take (length pre) s = pre"

lemma starts_with_append [simp]: "starts_with pre (pre @ s)"
  by (simp add: starts_with_def)

lemma starts_with_simps [simp]:
  "starts_with [] s" "\<not> starts_with (c # cs) []" "starts_with (c # cs) (d # ds) \<longleftrightarrow> c = d \<and> starts_with cs ds"
  by (auto simp: starts_with_def)

lemma starts_with_iff: "starts_with pre s \<longleftrightarrow> (\<exists>t. s = pre @ t)"
  by (metis append_take_drop_id starts_with_append starts_with_def)

section \<open>Digits\<close>

definition is_digit :: "char \<Rightarrow> bool" where
  "is_digit c \<longleftrightarrow> of_char c \<in> {48 .. 57 :: nat}"

definition digit_value :: "char \<Rightarrow> int" where
  "digit_value c = int (of_char c) - 48"

definition decimal_value :: "string \<Rightarrow> int" where
  "decimal_value s = foldl (\<lambda>n c. 10 * n + digit_value c) 0 s"

definition only_digits :: "string \<Rightarrow> string" where
  "only_digits s = filter is_digit s"

lemma decimal_value_snoc: "decimal_value (s @ [c]) = 10 * decimal_value s + digit_value c"
  by (simp add: decimal_value_def)

lemma digit_value_bounds: "is_digit c \<Longrightarrow> 0 \<le> digit_value c \<and> digit_value c \<le> 9"
  by (simp add: is_digit_def digit_value_def)

lemma decimal_value_nonneg: "\<forall>c \<in> set s. is_digit c \<Longrightarrow> 0 \<le> decimal_value s"
proof (induction s rule: rev_induct)
  case (snoc c s)
  then show ?case using digit_value_bounds [of c] by (simp add: decimal_value_snoc)
qed (simp add: decimal_value_def)

lemma decimal_value_bound: "\<forall>c \<in> set s. is_digit c \<Longrightarrow> decimal_value s < 10 ^ length s"
proof (induction s rule: rev_induct)
  case (snoc c s)
  then show ?case using digit_value_bounds [of c] by (simp add: decimal_value_snoc)
qed (simp add: decimal_value_def)

section \<open>Number(text)\<close>

text \<open>
  The numeric value of a string: surrounding space is ignored, the empty string is zero,
  \<^verbatim>\<open>Infinity\<close> with an optional sign, a decimal literal with optional sign, fraction and
  exponent, or a hexadecimal, octal or binary literal without a sign; anything else is not
  a number.
\<close>

definition radix_digit :: "char \<Rightarrow> int option" where
  "radix_digit c = (let n = of_char c :: int in
     if 48 \<le> n \<and> n \<le> 57 then Some (n - 48) else if 97 \<le> n \<and> n \<le> 102 then Some (n - 87)
     else if 65 \<le> n \<and> n \<le> 70 then Some (n - 55) else None)"

fun radix_value :: "int \<Rightarrow> int \<Rightarrow> string \<Rightarrow> int option" where
  "radix_value r acc [] = Some acc"
| "radix_value r acc (c # cs) = (case radix_digit c of None \<Rightarrow> None
     | Some d \<Rightarrow> if d < r then radix_value r (acc * r + d) cs else None)"

definition radix_literal :: "string \<Rightarrow> int option" where
  "radix_literal s = (case s of
       z # x # cs \<Rightarrow>
         if z \<noteq> CHR ''0'' \<or> cs = [] then None
         else if x \<in> {CHR ''x'', CHR ''X''} then radix_value 16 0 cs
         else if x \<in> {CHR ''o'', CHR ''O''} then radix_value 8 0 cs
         else if x \<in> {CHR ''b'', CHR ''B''} then radix_value 2 0 cs else None
     | _ \<Rightarrow> None)"

text \<open>An unsigned decimal literal: mantissa digits, and the power of ten they are scaled by.\<close>

definition exponent_part :: "string \<Rightarrow> int option" where
  "exponent_part s = (case s of
       [] \<Rightarrow> Some 0
     | e # cs \<Rightarrow>
         if e \<notin> {CHR ''e'', CHR ''E''} then None
         else let neg = (cs \<noteq> [] \<and> hd cs = CHR ''-'');
                  ds = (if cs \<noteq> [] \<and> hd cs \<in> {CHR ''-'', CHR ''+''} then tl cs else cs)
              in if ds = [] \<or> \<not> list_all is_digit ds then None
                 else Some (if neg then - decimal_value ds else decimal_value ds))"

definition decimal_literal :: "string \<Rightarrow> (int \<times> int) option" where
  "decimal_literal s =
     (let whole = takeWhile is_digit s; rest = dropWhile is_digit s;
          dot = (rest \<noteq> [] \<and> hd rest = CHR ''.'');
          frac = (if dot then takeWhile is_digit (tl rest) else []);
          rest' = (if dot then dropWhile is_digit (tl rest) else rest)
      in if whole = [] \<and> frac = [] then None
         else map_option (\<lambda>e. (decimal_value (whole @ frac), e - int (length frac))) (exponent_part rest'))"

definition js_number :: "string \<Rightarrow> jsnum" where
  "js_number text =
     (let s = js_trim text;
          neg = (s \<noteq> [] \<and> hd s = CHR ''-'');
          u = (if s \<noteq> [] \<and> hd s \<in> {CHR ''-'', CHR ''+''} then tl s else s)
      in if s = [] then Fin 0
         else case radix_literal s of Some n \<Rightarrow> of_exact (of_int n)
         | None \<Rightarrow>
             if u = ''Infinity'' then if neg then NegInf else PosInf
             else case decimal_literal u of None \<Rightarrow> NaN
             | Some (m, e) \<Rightarrow> (let v = of_exact (of_int m * 10 powi e) in if neg then num_neg v else v))"

lemma digit_facts:
  assumes "is_digit c"
  shows "\<not> js_space c" "c \<noteq> CHR ''-''" "c \<noteq> CHR ''+''" "c \<noteq> CHR ''.''" "c \<notin> {CHR ''x'', CHR ''X'', CHR ''o'', CHR ''O'', CHR ''b'', CHR ''B''}"
    "c \<noteq> CHR '':''"
  using assms by (auto simp: is_digit_def js_space_def)

lemma js_trim_no_space:
  assumes "\<forall>c \<in> set s. \<not> js_space c"
  shows "js_trim s = s"
proof -
  have "dropWhile js_space t = t" if "set t \<subseteq> set s" for t
    using assms that by (cases t) auto
  then show ?thesis by (simp add: js_trim_def)
qed

text \<open>A string of decimal digits denotes its value.\<close>

lemma js_number_digits:
  assumes "s \<noteq> []" "\<forall>c \<in> set s. is_digit c" "decimal_value s \<le> 2 ^ 53"
  shows "js_number s = num_int (decimal_value s)"
proof -
  have trim: "js_trim s = s" using assms(2) digit_facts(1) by (intro js_trim_no_space) blast
  have hd: "is_digit (hd s)" using assms by simp
  then have sign: "hd s \<noteq> CHR ''-''" "hd s \<notin> {CHR ''-'', CHR ''+''}" using digit_facts(2,3) by auto
  have radix: "radix_literal s = None"
    using assms(2) digit_facts(5) by (auto simp: radix_literal_def split: list.split)
  have "s \<noteq> ''Infinity''" using hd by (auto simp: is_digit_def)
  moreover have digits: "takeWhile is_digit s = s" "dropWhile is_digit s = []" using assms(2) by simp_all
  have "decimal_literal s = Some (decimal_value s, 0)"
    using assms(1) by (simp add: decimal_literal_def exponent_part_def Let_def digits)
  moreover have "of_exact (of_int (decimal_value s)) = num_int (decimal_value s)"
    using decimal_value_nonneg [OF assms(2)] assms(3) by (intro of_exact_int) simp
  ultimately show ?thesis using assms(1) sign by (simp add: js_number_def trim radix)
qed

end
