(* ===== verification/Enrollment.thy ===== *)
theory Enrollment
  imports JSString CivilDate
begin

text \<open>
  Enrolment rules of \<^verbatim>\<open>packages/domain/src/rules\<close>: the state machine of an enrolment
  (\<^verbatim>\<open>matricula-state-machine.ts\<close>), its activation policy (\<^verbatim>\<open>enrollment-activation-policy.ts\<close>), the
  generic validations (\<^verbatim>\<open>validation-engine.ts\<close>) with their copies for re-enrolment
  (\<^verbatim>\<open>rematricula-rules.ts\<close>), the payer (\<^verbatim>\<open>matricula-rules.ts\<close>) and the status of an instalment plan
  (\<^verbatim>\<open>installment-plan-status.ts\<close>).

  The offset of local time and the instant of a local midnight belong to the host: they are
  the parameters \<open>tz\<close> and \<open>midnight\<close>.
\<close>

section \<open>matricula-state-machine.ts\<close>

datatype status_matricula = PENDENTE_TAXA | AGUARDANDO_CONFIRMACAO | ATIVA | PAUSADA | ENCERRADA
  | RECUSADA | CANCELADA

definition terminal_statuses :: "status_matricula list" where
  "terminal_statuses = [ENCERRADA, CANCELADA, RECUSADA]"

fun valid_transitions :: "status_matricula \<Rightarrow> status_matricula list" where
  "valid_transitions PENDENTE_TAXA = [ATIVA, ENCERRADA, CANCELADA, RECUSADA]"
| "valid_transitions AGUARDANDO_CONFIRMACAO = [PENDENTE_TAXA, ATIVA, ENCERRADA, CANCELADA, RECUSADA]"
| "valid_transitions ATIVA = [PAUSADA, ENCERRADA, CANCELADA]"
| "valid_transitions PAUSADA = [ATIVA, ENCERRADA, CANCELADA]"
| "valid_transitions ENCERRADA = []"
| "valid_transitions RECUSADA = []"
| "valid_transitions CANCELADA = []"

definition seat_occupying :: "status_matricula list" where
  "seat_occupying = [PENDENTE_TAXA, AGUARDANDO_CONFIRMACAO, ATIVA]"

definition isTerminalMatricula :: "status_matricula \<Rightarrow> bool" where
  "isTerminalMatricula s \<longleftrightarrow> s \<in> set terminal_statuses"

definition canTransition :: "status_matricula \<Rightarrow> status_matricula \<Rightarrow> bool" where
  "canTransition a b \<longleftrightarrow> b \<in> set (valid_transitions a)"

datatype transition_error = STATUS_TERMINAL status_matricula
  | TRANSICAO_INVALIDA status_matricula status_matricula

definition validateTransition :: "status_matricula \<Rightarrow> status_matricula \<Rightarrow> transition_error + unit" where
  "validateTransition a b =
     (if isTerminalMatricula a then Inl (STATUS_TERMINAL a)
      else if \<not> canTransition a b then Inl (TRANSICAO_INVALIDA a b) else Inr ())"

definition occupiesSeat :: "status_matricula \<Rightarrow> bool" where
  "occupiesSeat s \<longleftrightarrow> s \<in> set seat_occupying"

definition occupiesSeatWithPause :: "status_matricula \<Rightarrow> bool \<Rightarrow> bool" where
  "occupiesSeatWithPause s manterVaga = (if s = PAUSADA then manterVaga else occupiesSeat s)"

definition isElegivelRematricula :: "status_matricula \<Rightarrow> bool" where
  "isElegivelRematricula s \<longleftrightarrow> s \<in> {ATIVA, PAUSADA}"

definition canEditStructural :: "status_matricula \<Rightarrow> bool" where
  "canEditStructural s \<longleftrightarrow> s \<notin> {ENCERRADA, CANCELADA, RECUSADA}"

datatype pausa_error = MATRICULA_NAO_ATIVA | MATRICULA_JA_PAUSADA

definition validatePausa :: "status_matricula \<Rightarrow> bool \<Rightarrow> pausa_error + unit" where
  "validatePausa s pausaAtiva = (if pausaAtiva then Inl MATRICULA_JA_PAUSADA
     else if s \<noteq> ATIVA then Inl MATRICULA_NAO_ATIVA else Inr ())"

datatype reativacao_error = MATRICULA_NAO_PAUSADA | SEM_VAGA_PARA_REATIVACAO

definition validateReativacao :: "status_matricula \<Rightarrow> bool \<Rightarrow> bool option \<Rightarrow> reativacao_error + unit" where
  "validateReativacao s manterVaga disponivel = (if s \<noteq> PAUSADA then Inl MATRICULA_NAO_PAUSADA
     else if \<not> manterVaga \<and> disponivel = Some False then Inl SEM_VAGA_PARA_REATIVACAO else Inr ())"

section \<open>enrollment-activation-policy.ts\<close>

datatype activation_policy = POLICY_IMMEDIATE | POLICY_REQUIRES_PAYMENT

datatype fee_status = FEE_PENDENTE | FEE_PAGO | FEE_EXPIRADO | FEE_ISENTO

datatype start_decision = START_TRANSITION status_matricula | START_KEEP_NOT_WAITING | START_KEEP_FEE_NOT_PAID

datatype activation_decision = ACTIVATE | KEEP_POLICY_IMMEDIATE | KEEP_FEE_NOT_PAID | KEEP_STATUS_NOT_PENDING_FEE

definition decideEnrollmentStatusAtContractStart ::
    "status_matricula \<Rightarrow> activation_policy \<Rightarrow> bool \<Rightarrow> fee_status \<Rightarrow> start_decision" where
  "decideEnrollmentStatusAtContractStart s policy feeRequired fee =
     (let feeIsPending = (feeRequired \<and> fee \<noteq> FEE_PAGO)
      in if s = AGUARDANDO_CONFIRMACAO then
           if policy = POLICY_REQUIRES_PAYMENT \<and> feeIsPending then START_TRANSITION PENDENTE_TAXA
           else START_TRANSITION ATIVA
         else if s = PENDENTE_TAXA then
           if policy = POLICY_REQUIRES_PAYMENT \<and> feeIsPending then START_KEEP_FEE_NOT_PAID
           else START_TRANSITION ATIVA
         else START_KEEP_NOT_WAITING)"

definition decideEnrollmentActivationAfterFee ::
    "activation_policy \<Rightarrow> status_matricula \<Rightarrow> fee_status \<Rightarrow> activation_decision" where
  "decideEnrollmentActivationAfterFee policy s fee =
     (if policy \<noteq> POLICY_REQUIRES_PAYMENT then KEEP_POLICY_IMMEDIATE
      else if s \<noteq> PENDENTE_TAXA then KEEP_STATUS_NOT_PENDING_FEE
      else if fee \<noteq> FEE_PAGO then KEEP_FEE_NOT_PAID else ACTIVATE)"

section \<open>validation-engine.ts\<close>

record turma_capacidade =
  tc_id :: string
  tc_nome :: string
  tc_capacidade :: jsnum
  tc_ocupantes :: jsnum

datatype capacidade_error = TURMA_SEM_VAGAS string string | COMBO_SEM_VAGAS

fun turma_cheia :: "turma_capacidade list \<Rightarrow> capacidade_error option" where
  "turma_cheia [] = None"
| "turma_cheia (t # ts) = (if num_le (tc_capacidade t) (tc_ocupantes t)
     then Some (TURMA_SEM_VAGAS (tc_id t) (tc_nome t)) else turma_cheia ts)"

text \<open>The combo argument: absent, or its two optional fields.\<close>

definition validarCapacidade ::
    "turma_capacidade list \<Rightarrow> (jsnum option \<times> jsnum option) option \<Rightarrow> capacidade_error + unit" where
  "validarCapacidade turmas combo = (case turma_cheia turmas of Some e \<Rightarrow> Inl e
     | None \<Rightarrow> (case combo of Some (Some limite, Some ocupantes) \<Rightarrow>
           if num_le limite ocupantes then Inl COMBO_SEM_VAGAS else Inr ()
         | _ \<Rightarrow> Inr ()))"

record horario_turma =
  ht_id :: string
  ht_nome :: string
  ht_diasSemana :: "string list"
  ht_horaInicio :: string
  ht_horaFim :: string

text \<open>\<^verbatim>\<open>Number(v || 0)\<close>; a missing component is \<^verbatim>\<open>undefined\<close>, which is not a number in arithmetic.\<close>

definition time_component :: "string list \<Rightarrow> nat \<Rightarrow> jsnum" where
  "time_component parts i = (if i < length parts
     then (if parts ! i = [] then Fin 0 else js_number (parts ! i)) else NaN)"

definition parseTimeToMinutes :: "string \<Rightarrow> jsnum" where
  "parseTimeToMinutes v = (let parts = split_on (CHR '':'') v
     in num_add (num_mul (time_component parts 0) (Fin 60)) (time_component parts 1))"

definition turmasOverlap :: "horario_turma \<Rightarrow> horario_turma \<Rightarrow> bool" where
  "turmasOverlap a b =
     (if \<not> list_ex (\<lambda>dia. dia \<in> set (ht_diasSemana b)) (ht_diasSemana a) then False
      else num_less (parseTimeToMinutes (ht_horaInicio a)) (parseTimeToMinutes (ht_horaFim b)) \<and>
           num_less (parseTimeToMinutes (ht_horaInicio b)) (parseTimeToMinutes (ht_horaFim a)))"

fun primeiro_conflito :: "horario_turma \<Rightarrow> horario_turma list \<Rightarrow> (string \<times> string) option" where
  "primeiro_conflito nova [] = None"
| "primeiro_conflito nova (e # es) =
     (if ht_id nova = ht_id e then primeiro_conflito nova es
      else if turmasOverlap nova e then Some (ht_nome nova, ht_nome e) else primeiro_conflito nova es)"

fun validarConflitosHorario :: "horario_turma list \<Rightarrow> horario_turma list \<Rightarrow> (string \<times> string) option" where
  "validarConflitosHorario [] es = None"
| "validarConflitosHorario (n # ns) es = (case primeiro_conflito n es of
     Some c \<Rightarrow> Some c | None \<Rightarrow> validarConflitosHorario ns es)"

datatype datas_error = DATA_FIM_ANTES_INICIO | DATA_INICIO_PASSADO | DATA_INICIO_INVALIDA

definition validarDatasContrato ::
    "(int \<Rightarrow> int) \<Rightarrow> int \<Rightarrow> date_value \<Rightarrow> date_value \<Rightarrow> bool \<Rightarrow> datas_error + unit" where
  "validarDatasContrato midnight now_time inicio fim permitirPassado =
     (if date_le fim inicio then Inl DATA_FIM_ANTES_INICIO
      else if \<not> permitirPassado \<and> date_less (map_option midnight inicio) (Some (midnight now_time))
      then Inl DATA_INICIO_PASSADO else Inr ())"

section \<open>rematricula-rules.ts\<close>

definition validarCapacidadeRematricula ::
    "turma_capacidade list \<Rightarrow> jsnum option \<Rightarrow> jsnum option \<Rightarrow> capacidade_error + unit" where
  "validarCapacidadeRematricula turmas limite ocupantes = (case turma_cheia turmas of Some e \<Rightarrow> Inl e
     | None \<Rightarrow> (case (limite, ocupantes) of (Some l, Some n) \<Rightarrow>
           if num_le l n then Inl COMBO_SEM_VAGAS else Inr ()
         | _ \<Rightarrow> Inr ()))"

text \<open>The loops of \<^verbatim>\<open>validarConflitosRematricula\<close>, whose helpers repeat those of the engine.\<close>

definition first_of :: "'a list \<Rightarrow> 'a option" where
  "first_of xs = (case xs of [] \<Rightarrow> None | x # _ \<Rightarrow> Some x)"

definition validarConflitosRematricula :: "horario_turma list \<Rightarrow> horario_turma list \<Rightarrow> (string \<times> string) option" where
  "validarConflitosRematricula novas existentes =
     first_of [(ht_nome n, ht_nome e). n \<leftarrow> novas, e \<leftarrow> existentes, ht_id n \<noteq> ht_id e \<and> turmasOverlap n e]"

text \<open>\<^verbatim>\<open>normalizeToUtcDateOnly\<close>; the fields of an invalid date are not numbers, and neither is the result.\<close>

definition normalizeToUtcDateOnly :: "date_value \<Rightarrow> date_value" where
  "normalizeToUtcDateOnly d = map_option (\<lambda>t. date_utc (utc_year t) (utc_month t) (utc_date t)) d"

definition validarDatasRematricula :: "date_value \<Rightarrow> date_value \<Rightarrow> date_value \<Rightarrow> datas_error + unit" where
  "validarDatasRematricula fimOrigem novoInicio novoFim =
     (let f = normalizeToUtcDateOnly fimOrigem; i = normalizeToUtcDateOnly novoInicio;
          n = normalizeToUtcDateOnly novoFim
      in if date_less i f then Inl DATA_INICIO_INVALIDA
         else if date_le n i then Inl DATA_FIM_ANTES_INICIO else Inr ())"

definition dias_maximos_expirado :: jsnum where
  "dias_maximos_expirado = Fin 90"

datatype elegibilidade_error = STATUS_INVALIDO | CONTRATO_EXPIRADO

definition validarElegibilidadeRematricula ::
    "status_matricula \<Rightarrow> bool \<Rightarrow> jsnum option \<Rightarrow> elegibilidade_error + unit" where
  "validarElegibilidadeRematricula s expirado dias =
     (if s \<notin> {ATIVA, PAUSADA} then Inl STATUS_INVALIDO
      else if \<not> expirado then Inr ()
      else case dias of None \<Rightarrow> Inl CONTRATO_EXPIRADO
        | Some d \<Rightarrow> if \<not> num_finite d then Inl CONTRATO_EXPIRADO
                    else if num_less dias_maximos_expirado d then Inl CONTRATO_EXPIRADO else Inr ())"

section \<open>matricula-rules.ts\<close>

text \<open>The age, from the local calendar fields of today and of the date of birth (months from 0).\<close>

definition calcularIdade :: "(int \<Rightarrow> int) \<Rightarrow> int \<Rightarrow> int \<Rightarrow> int" where
  "calcularIdade tz hoje nasc =
     (let h = hoje + tz hoje; n = nasc + tz nasc;
          idade = utc_year h - utc_year n; m = utc_month h - utc_month n
      in if m < 0 \<or> (m = 0 \<and> utc_date h < utc_date n) then idade - 1 else idade)"

definition isMenorDeIdade :: "(int \<Rightarrow> int) \<Rightarrow> int \<Rightarrow> date_value \<Rightarrow> bool" where
  "isMenorDeIdade tz hoje nasc = (case nasc of None \<Rightarrow> False | Some n \<Rightarrow> calcularIdade tz hoje n < 18)"

datatype payer = PAYER_ALUNO string | PAYER_RESPONSAVEL string

datatype payer_error = RESPONSAVEL_OBRIGATORIO_MENOR | ALUNO_SEM_ID

definition resolvePayer ::
    "(int \<Rightarrow> int) \<Rightarrow> int \<Rightarrow> string \<Rightarrow> date_value \<Rightarrow> string option \<Rightarrow> payer_error + payer" where
  "resolvePayer tz hoje alunoId nasc responsavel =
     (if isMenorDeIdade tz hoje nasc then
        if \<not> truthy responsavel then Inl RESPONSAVEL_OBRIGATORIO_MENOR
        else Inr (PAYER_RESPONSAVEL (the responsavel))
      else if truthy responsavel then Inr (PAYER_RESPONSAVEL (the responsavel))
      else if alunoId = [] then Inl ALUNO_SEM_ID else Inr (PAYER_ALUNO alunoId))"

section \<open>installment-plan-status.ts\<close>

datatype plan_status = PLAN_ACTIVE | PLAN_COMPLETED | PLAN_CANCELED

datatype plan_charge = PLAN_CHARGE_PAID | PLAN_CHARGE_CANCELED | PLAN_CHARGE_OPEN

definition deriveInstallmentPlanLifecycleStatus :: "plan_status \<Rightarrow> plan_charge list \<Rightarrow> plan_status" where
  "deriveInstallmentPlanLifecycleStatus current charges =
     (if charges = [] then current
      else if list_all (\<lambda>c. c = PLAN_CHARGE_CANCELED) charges then PLAN_CANCELED
      else if list_all (\<lambda>c. c = PLAN_CHARGE_PAID \<or> c = PLAN_CHARGE_CANCELED) charges \<and>
              list_ex (\<lambda>c. c = PLAN_CHARGE_PAID) charges then PLAN_COMPLETED
      else PLAN_ACTIVE)"

section \<open>The enrolment machine keeps the contract of a transition table\<close>

interpretation matricula: transition_table valid_transitions isTerminalMatricula
proof
  show "isTerminalMatricula s \<longleftrightarrow> valid_transitions s = []" for s
    by (cases s) (simp_all add: isTerminalMatricula_def terminal_statuses_def)
qed

lemma validateTransition_ok: "validateTransition a b = Inr () \<longleftrightarrow> b \<in> set (valid_transitions a)"
  using matricula.terminal_iff [of a] by (auto simp: validateTransition_def canTransition_def)

lemma live_states_closed: "\<forall>x \<in> {ATIVA, PAUSADA, ENCERRADA, CANCELADA}. set (valid_transitions x) \<subseteq> {ATIVA, PAUSADA, ENCERRADA, CANCELADA}"
  by simp

lemma waiting_not_entered: "AGUARDANDO_CONFIRMACAO \<notin> set (valid_transitions s)"
  by (cases s) simp_all

lemma waiting_only_initial: "table_reach valid_transitions s t \<Longrightarrow> t = AGUARDANDO_CONFIRMACAO \<Longrightarrow> s = t"
  by (induction rule: table_reach.induct) (auto simp: waiting_not_entered)

lemma reach_one: "t \<in> set (valid_transitions s) \<Longrightarrow> table_reach valid_transitions s t"
  by (rule table_step [OF table_refl])

text \<open>
  C29. The life of an enrolment. A transition is validated exactly along the table and refused as
  terminal exactly from the terminal states, which no history leaves; every other state can
  still be ended, which is terminal. Once active an enrolment never waits for a fee or a
  confirmation again, and confirmation is only ever an initial state. A seat is taken by a
  transition only when a paused enrolment is reactivated; with the seat held during the pause
  none of the transitions between active and paused changes the occupation.
\<close>

theorem matricula_lifecycle:
  "(validateTransition a b = Inr () \<longleftrightarrow> b \<in> set (valid_transitions a)) \<and>
   (validateTransition a b = Inl (STATUS_TERMINAL a) \<longleftrightarrow> isTerminalMatricula a) \<and>
   (isTerminalMatricula a \<and> table_reach valid_transitions a b \<longrightarrow> b = a) \<and>
   (\<not> isTerminalMatricula a \<longrightarrow> validateTransition a ENCERRADA = Inr () \<and> isTerminalMatricula ENCERRADA) \<and>
   (table_reach valid_transitions ATIVA b \<longrightarrow> b \<in> {ATIVA, PAUSADA, ENCERRADA, CANCELADA}) \<and>
   (table_reach valid_transitions a AGUARDANDO_CONFIRMACAO \<longrightarrow> a = AGUARDANDO_CONFIRMACAO) \<and>
   (validateTransition a b = Inr () \<and> \<not> occupiesSeat a \<and> occupiesSeat b \<longrightarrow>
      a = PAUSADA \<and> b = ATIVA \<and> occupiesSeatWithPause a True)"
proof (intro conjI impI)
  show "validateTransition a b = Inr () \<longleftrightarrow> b \<in> set (valid_transitions a)"
    by (rule validateTransition_ok)
  show "validateTransition a b = Inl (STATUS_TERMINAL a) \<longleftrightarrow> isTerminalMatricula a"
    by (simp add: validateTransition_def)
  show "b = a" if "isTerminalMatricula a \<and> table_reach valid_transitions a b"
    using that matricula.terminal_absorbing by blast
  show "validateTransition a ENCERRADA = Inr ()" if "\<not> isTerminalMatricula a"
    using that by (cases a) (simp_all add: validateTransition_ok isTerminalMatricula_def terminal_statuses_def)
  show "isTerminalMatricula ENCERRADA" if "\<not> isTerminalMatricula a"
    by (simp add: isTerminalMatricula_def terminal_statuses_def)
  show "b \<in> {ATIVA, PAUSADA, ENCERRADA, CANCELADA}" if "table_reach valid_transitions ATIVA b"
    using table_reach_closed [OF that _ live_states_closed] by blast
  show "a = AGUARDANDO_CONFIRMACAO" if "table_reach valid_transitions a AGUARDANDO_CONFIRMACAO"
    using waiting_only_initial [OF that] by blast
next
  assume asm: "validateTransition a b = Inr () \<and> \<not> occupiesSeat a \<and> occupiesSeat b"
  then have edge: "b \<in> set (valid_transitions a)" by (simp add: validateTransition_ok)
  from asm edge show "a = PAUSADA" by (cases a) (auto simp: occupiesSeat_def seat_occupying_def)
  from asm edge show "b = ATIVA" by (cases a) (auto simp: occupiesSeat_def seat_occupying_def)
  from asm edge show "occupiesSeatWithPause a True"
    by (cases a) (auto simp: occupiesSeat_def seat_occupying_def occupiesSeatWithPause_def)
qed

lemma matricula_lifecycle_witness:
  "table_reach valid_transitions ATIVA PAUSADA \<and> PAUSADA \<in> {ATIVA, PAUSADA, ENCERRADA, CANCELADA} \<and>
   occupiesSeatWithPause PAUSADA True \<and> validateTransition CANCELADA ATIVA = Inl (STATUS_TERMINAL CANCELADA)"
proof -
  have "table_reach valid_transitions ATIVA PAUSADA" by (rule reach_one) simp
  moreover have "occupiesSeatWithPause PAUSADA True"
    using matricula_lifecycle [of PAUSADA ATIVA]
    by (simp add: validateTransition_ok occupiesSeat_def seat_occupying_def)
  moreover have "validateTransition CANCELADA ATIVA = Inl (STATUS_TERMINAL CANCELADA)"
    using matricula_lifecycle [of CANCELADA ATIVA] by (simp add: isTerminalMatricula_def terminal_statuses_def)
  ultimately show ?thesis by simp
qed

section \<open>Activation\<close>

text \<open>The activation of an enrolment over its life: the start decision, then the fee decision.\<close>

definition start_status :: "activation_policy \<Rightarrow> bool \<Rightarrow> fee_status \<Rightarrow> status_matricula \<Rightarrow> status_matricula" where
  "start_status policy feeRequired fee s =
     (case decideEnrollmentStatusAtContractStart s policy feeRequired fee of
        START_TRANSITION t \<Rightarrow> t | _ \<Rightarrow> s)"

definition fee_applied :: "activation_policy \<Rightarrow> fee_status \<Rightarrow> status_matricula \<Rightarrow> status_matricula" where
  "fee_applied policy fee s =
     (if decideEnrollmentActivationAfterFee policy s fee = ACTIVATE then ATIVA else s)"

lemmas activation_defs = start_status_def fee_applied_def decideEnrollmentStatusAtContractStart_def
  decideEnrollmentActivationAfterFee_def Let_def

text \<open>
  C30. The activation decisions respect the machine: each change either decision asks for is a
  transition the machine validates. A required fee is enforced (under the paying policy an
  enrolment that starts with its fee open is not activated, also when the fee is exempt or
  expired), applying the start decision twice is applying it once, and the start with an open fee
  followed by its payment activates, exactly as a start after the payment does.
\<close>

theorem activation_follows_machine:
  "(start_status policy req fee s \<noteq> s \<longrightarrow> validateTransition s (start_status policy req fee s) = Inr ()) \<and>
   (fee_applied policy fee s \<noteq> s \<longrightarrow> validateTransition s (fee_applied policy fee s) = Inr ()) \<and>
   start_status policy req fee (start_status policy req fee s) = start_status policy req fee s \<and>
   (s \<noteq> ATIVA \<and> start_status policy req fee s = ATIVA \<longrightarrow>
      policy = POLICY_IMMEDIATE \<or> \<not> req \<or> fee = FEE_PAGO) \<and>
   (s \<in> {AGUARDANDO_CONFIRMACAO, PENDENTE_TAXA} \<longrightarrow>
      fee_applied policy FEE_PAGO (start_status policy req fee s) = ATIVA \<and>
      start_status policy req FEE_PAGO s = ATIVA)"
proof (intro conjI impI)
  show "validateTransition s (start_status policy req fee s) = Inr ()" if "start_status policy req fee s \<noteq> s"
    using that by (auto simp: validateTransition_ok activation_defs split: if_splits)
  show "validateTransition s (fee_applied policy fee s) = Inr ()" if "fee_applied policy fee s \<noteq> s"
    using that by (auto simp: validateTransition_ok activation_defs split: if_splits)
  show "start_status policy req fee (start_status policy req fee s) = start_status policy req fee s"
    by (simp add: activation_defs)
  show "policy = POLICY_IMMEDIATE \<or> \<not> req \<or> fee = FEE_PAGO" if "s \<noteq> ATIVA \<and> start_status policy req fee s = ATIVA"
    using that by (cases policy) (auto simp: activation_defs split: if_splits)
next
  assume asm: "s \<in> {AGUARDANDO_CONFIRMACAO, PENDENTE_TAXA}"
  show "fee_applied policy FEE_PAGO (start_status policy req fee s) = ATIVA"
    using asm by (auto simp: activation_defs)
  show "start_status policy req FEE_PAGO s = ATIVA"
    using asm by (auto simp: activation_defs)
qed

lemma activation_follows_machine_witness:
  "start_status POLICY_REQUIRES_PAYMENT True FEE_PENDENTE AGUARDANDO_CONFIRMACAO = PENDENTE_TAXA \<and>
   validateTransition AGUARDANDO_CONFIRMACAO PENDENTE_TAXA = Inr () \<and>
   fee_applied POLICY_REQUIRES_PAYMENT FEE_PAGO PENDENTE_TAXA = ATIVA"
proof -
  have start: "start_status POLICY_REQUIRES_PAYMENT True FEE_PENDENTE AGUARDANDO_CONFIRMACAO = PENDENTE_TAXA"
    by (simp add: activation_defs)
  then show ?thesis
    using activation_follows_machine [of POLICY_REQUIRES_PAYMENT True FEE_PENDENTE AGUARDANDO_CONFIRMACAO] by simp
qed

section \<open>Schedules\<close>

text \<open>A clock text: one or two digits, a colon, one or two digits; and its minutes.\<close>

definition clock_text :: "string \<Rightarrow> string \<Rightarrow> string" where
  "clock_text hh mm = hh @ CHR '':'' # mm"

definition clock_digits :: "string \<Rightarrow> bool" where
  "clock_digits d \<longleftrightarrow> d \<noteq> [] \<and> length d \<le> 2 \<and> (\<forall>c \<in> set d. is_digit c)"

lemma clock_component:
  assumes "clock_digits d"
  shows "js_number d = num_int (decimal_value d)" "0 \<le> decimal_value d" "decimal_value d < 100"
proof -
  have ds: "\<forall>c \<in> set d. is_digit c" "d \<noteq> []" "length d \<le> 2" using assms by (simp_all add: clock_digits_def)
  have "(10::int) ^ length d \<le> 10 ^ 2" using ds(3) by (intro power_increasing) simp_all
  then show less: "decimal_value d < 100" using decimal_value_bound [OF ds(1)] by simp
  show "0 \<le> decimal_value d" by (rule decimal_value_nonneg [OF ds(1)])
  show "js_number d = num_int (decimal_value d)"
    using less by (intro js_number_digits ds) simp
qed

lemma parse_clock:
  assumes "clock_digits hh" "clock_digits mm"
  shows "parseTimeToMinutes (clock_text hh mm) = num_int (60 * decimal_value hh + decimal_value mm)"
proof -
  note h = clock_component [OF assms(1)] and m = clock_component [OF assms(2)]
  have no_colon: "CHR '':'' \<notin> set d" if "clock_digits d" for d
    using that digit_facts(6) by (auto simp: clock_digits_def)
  have "split_on (CHR '':'') (clock_text hh mm) = [hh, mm]"
    using assms by (simp add: clock_text_def split_on_append split_on_no_separator no_colon)
  moreover have "num_mul (num_int (decimal_value hh)) (Fin 60) = num_int (decimal_value hh * 60)"
    using h num_mul_int [of "decimal_value hh" 60] by simp
  moreover have "num_add (num_int (decimal_value hh * 60)) (num_int (decimal_value mm)) = num_int (decimal_value hh * 60 + decimal_value mm)"
    using h m by (intro num_add_int) simp
  ultimately show ?thesis
    using assms h(1) m(1) by (simp add: parseTimeToMinutes_def time_component_def clock_digits_def mult.commute)
qed

text \<open>The schedule of a class as intervals of minutes.\<close>

record clock_schedule =
  cs_class :: horario_turma
  cs_start :: "string \<times> string"
  cs_end :: "string \<times> string"

definition clock_minutes :: "string \<times> string \<Rightarrow> int" where
  "clock_minutes c = 60 * decimal_value (fst c) + decimal_value (snd c)"

definition clock_class :: "clock_schedule \<Rightarrow> bool" where
  "clock_class s \<longleftrightarrow> clock_digits (fst (cs_start s)) \<and> clock_digits (snd (cs_start s)) \<and>
     clock_digits (fst (cs_end s)) \<and> clock_digits (snd (cs_end s)) \<and>
     ht_horaInicio (cs_class s) = clock_text (fst (cs_start s)) (snd (cs_start s)) \<and>
     ht_horaFim (cs_class s) = clock_text (fst (cs_end s)) (snd (cs_end s))"

text \<open>Two classes clash when they share a day and a minute of the day lies in both intervals.\<close>

definition clash :: "clock_schedule \<Rightarrow> clock_schedule \<Rightarrow> bool" where
  "clash a b \<longleftrightarrow> set (ht_diasSemana (cs_class a)) \<inter> set (ht_diasSemana (cs_class b)) \<noteq> {} \<and>
     clock_minutes (cs_start a) < clock_minutes (cs_end b) \<and> clock_minutes (cs_start b) < clock_minutes (cs_end a)"

lemma turmasOverlap_clock:
  assumes "clock_class a" "clock_class b"
  shows "turmasOverlap (cs_class a) (cs_class b) \<longleftrightarrow> clash a b"
  using assms by (auto simp: turmasOverlap_def clash_def clock_class_def clock_minutes_def parse_clock list_ex_iff)

lemma first_of_simps [simp]:
  "first_of [] = None" "first_of (x # xs) = Some x"
  "first_of (xs @ ys) = (case first_of xs of None \<Rightarrow> first_of ys | Some x \<Rightarrow> Some x)"
  by (simp_all add: first_of_def split: list.split)

lemma first_of_None: "first_of xs = None \<longleftrightarrow> (\<forall>x. x \<notin> set xs)"
  by (cases xs) auto

lemma primeiro_conflito_first_of:
  "primeiro_conflito n es = first_of [(ht_nome n, ht_nome e). e \<leftarrow> es, ht_id n \<noteq> ht_id e \<and> turmasOverlap n e]"
  by (induction es) simp_all

lemma conflitos_same_routine: "validarConflitosHorario novas es = validarConflitosRematricula novas es"
proof (induction novas)
  case (Cons n ns)
  then show ?case
    by (simp add: validarConflitosRematricula_def primeiro_conflito_first_of option.case_eq_if)
qed (simp add: validarConflitosRematricula_def)

lemma clash_comprehension:
  assumes "\<forall>a \<in> set A. clock_class a" "\<forall>b \<in> set B. clock_class b"
  shows "validarConflitosRematricula (map cs_class A) (map cs_class B) =
     first_of [(ht_nome (cs_class a), ht_nome (cs_class b)). a \<leftarrow> A, b \<leftarrow> B,
       ht_id (cs_class a) \<noteq> ht_id (cs_class b) \<and> clash a b]"
proof -
  have "[(ht_nome (cs_class a), ht_nome e). e \<leftarrow> map cs_class B, ht_id (cs_class a) \<noteq> ht_id e \<and> turmasOverlap (cs_class a) e] =
        [(ht_nome (cs_class a), ht_nome (cs_class b)). b \<leftarrow> B, ht_id (cs_class a) \<noteq> ht_id (cs_class b) \<and> clash a b]"
    if "a \<in> set A" for a
    using assms that by (intro arg_cong [where f = concat]) (auto simp: turmasOverlap_clock)
  then show ?thesis
    by (simp add: validarConflitosRematricula_def o_def cong: map_cong)
qed

lemma clash_sym: "clash a b \<longleftrightarrow> clash b a"
  by (auto simp: clash_def)

text \<open>
  Schedule conflicts. On classes whose times are clock texts, the validation of an enrolment
  reports the first pair (in the order of the new, then of the existing classes) of distinct
  classes that share a day and overlap in minutes of the day, and nothing when there is none; the
  copy of the routine for re-enrolments answers the same on all inputs, and whether there is a
  conflict does not depend on which of the two lists is the new one.
\<close>

theorem schedule_conflict_detection:
  assumes "\<forall>a \<in> set A. clock_class a" "\<forall>b \<in> set B. clock_class b"
  shows "validarConflitosHorario (map cs_class A) (map cs_class B) =
       first_of [(ht_nome (cs_class a), ht_nome (cs_class b)). a \<leftarrow> A, b \<leftarrow> B,
         ht_id (cs_class a) \<noteq> ht_id (cs_class b) \<and> clash a b] \<and>
     validarConflitosHorario novas es = validarConflitosRematricula novas es \<and>
     (validarConflitosHorario (map cs_class A) (map cs_class B) = None \<longleftrightarrow>
        validarConflitosHorario (map cs_class B) (map cs_class A) = None)"
proof -
  have none: "validarConflitosHorario (map cs_class A) (map cs_class B) = None \<longleftrightarrow>
     (\<forall>a \<in> set A. \<forall>b \<in> set B. ht_id (cs_class a) \<noteq> ht_id (cs_class b) \<longrightarrow> \<not> clash a b)"
    if "\<forall>a \<in> set A. clock_class a" "\<forall>b \<in> set B. clock_class b" for A B
    using that by (simp add: conflitos_same_routine clash_comprehension first_of_None) blast
  have "validarConflitosHorario (map cs_class A) (map cs_class B) = None \<longleftrightarrow>
        validarConflitosHorario (map cs_class B) (map cs_class A) = None"
    unfolding none [OF assms] none [OF assms(2) assms(1)] using clash_sym by metis
  then show ?thesis
    using clash_comprehension [OF assms] by (simp add: conflitos_same_routine)
qed

definition ballet :: horario_turma where
  "ballet = \<lparr>ht_id = ''t1'', ht_nome = ''Ballet'', ht_diasSemana = [''SEG''], ht_horaInicio = ''8:00'', ht_horaFim = ''09:30''\<rparr>"

definition jazz :: horario_turma where
  "jazz = \<lparr>ht_id = ''t2'', ht_nome = ''Jazz'', ht_diasSemana = [''TER'', ''SEG''], ht_horaInicio = ''09:00'', ht_horaFim = ''10:00''\<rparr>"

lemma schedule_conflict_detection_witness:
  "validarConflitosHorario [ballet] [jazz] = Some (''Ballet'', ''Jazz'')"
proof -
  define b j where "b = \<lparr>cs_class = ballet, cs_start = (''8'', ''00''), cs_end = (''09'', ''30'')\<rparr>"
    and "j = \<lparr>cs_class = jazz, cs_start = (''09'', ''00''), cs_end = (''10'', ''00'')\<rparr>"
  have cls: "cs_class b = ballet" "cs_class j = jazz" "ht_id ballet \<noteq> ht_id jazz"
    "ht_nome ballet = ''Ballet''" "ht_nome jazz = ''Jazz''"
    by (simp_all add: b_def j_def ballet_def jazz_def)
  have "clock_class b" "clock_class j" "clash b j"
    by (simp_all add: b_def j_def clock_class_def clash_def ballet_def jazz_def clock_digits_def is_digit_def
      clock_text_def clock_minutes_def decimal_value_def digit_value_def)
  then show ?thesis
    using schedule_conflict_detection [of "[b]" "[j]" "[]" "[]"] by (simp del: validarConflitosHorario.simps add: cls)
qed

section \<open>The payer\<close>

text \<open>
  The payer. A minor never pays and needs a guardian; a guardian that is given always pays,
  also for an adult student (the comment of the function promises that an adult pays by
  himself); an adult, or a student whose date of birth is not a valid date, pays by himself
  exactly when there is no guardian. The failures are a minor without a guardian, and a
  non-minor without guardian and without id.
\<close>

theorem resolvePayer_cases:
  "(\<forall>g. g \<noteq> [] \<longrightarrow> resolvePayer tz hoje alunoId nasc (Some g) = Inr (PAYER_RESPONSAVEL g)) \<and>
   (\<not> truthy resp \<longrightarrow> resolvePayer tz hoje alunoId nasc resp =
      (if isMenorDeIdade tz hoje nasc then Inl RESPONSAVEL_OBRIGATORIO_MENOR
       else if alunoId = [] then Inl ALUNO_SEM_ID else Inr (PAYER_ALUNO alunoId))) \<and>
   (resolvePayer tz hoje alunoId nasc resp = Inr (PAYER_ALUNO a) \<longrightarrow>
      \<not> isMenorDeIdade tz hoje nasc \<and> a = alunoId \<and> a \<noteq> []) \<and>
   (nasc = Some n \<longrightarrow> isMenorDeIdade tz hoje nasc = (calcularIdade tz hoje n < 18))"
  by (auto simp: resolvePayer_def isMenorDeIdade_def)

text \<open>An adult of thirty with a guardian on file, in UTC on 1 January 2024: the guardian pays.\<close>

lemma resolvePayer_cases_witness:
  "\<not> isMenorDeIdade (\<lambda>_. 0) (date_utc 2024 0 1) (Some (date_utc 1994 0 1)) \<and>
   resolvePayer (\<lambda>_. 0) (date_utc 2024 0 1) ''a1'' (Some (date_utc 1994 0 1)) (Some ''r1'') = Inr (PAYER_RESPONSAVEL ''r1'') \<and>
   resolvePayer (\<lambda>_. 0) (date_utc 2024 0 1) ''a1'' (Some (date_utc 1994 0 1)) None = Inr (PAYER_ALUNO ''a1'')"
proof -
  have adult: "\<not> isMenorDeIdade (\<lambda>_. 0) (date_utc 2024 0 1) (Some (date_utc 1994 0 1))"
    by code_simp
  show ?thesis
    using adult resolvePayer_cases [of "\<lambda>_. 0" "date_utc 2024 0 1" "''a1''" "Some (date_utc 1994 0 1)" None] by simp
qed

section \<open>Instalment plans\<close>

text \<open>
  The status of an instalment plan is a function of the set of the statuses of its charges:
  neither their order nor repetitions matter. It is completed exactly when nothing is open and
  something was paid, cancelled exactly when all charges are, active exactly when one is open;
  only a plan without charges keeps its status.
\<close>

lemma plan_status_of_charge_set:
  "(set cs = set ds \<longrightarrow> deriveInstallmentPlanLifecycleStatus p cs = deriveInstallmentPlanLifecycleStatus p ds) \<and>
   (cs \<noteq> [] \<longrightarrow>
      (deriveInstallmentPlanLifecycleStatus p cs = PLAN_ACTIVE \<longleftrightarrow> PLAN_CHARGE_OPEN \<in> set cs) \<and>
      (deriveInstallmentPlanLifecycleStatus p cs = PLAN_CANCELED \<longleftrightarrow> set cs = {PLAN_CHARGE_CANCELED}) \<and>
      (deriveInstallmentPlanLifecycleStatus p cs = PLAN_COMPLETED \<longleftrightarrow>
         PLAN_CHARGE_PAID \<in> set cs \<and> PLAN_CHARGE_OPEN \<notin> set cs)) \<and>
   (cs = [] \<longrightarrow> deriveInstallmentPlanLifecycleStatus p cs = p)"
proof -
  have settled: "list_all (\<lambda>c. c = PLAN_CHARGE_PAID \<or> c = PLAN_CHARGE_CANCELED) cs \<longleftrightarrow> PLAN_CHARGE_OPEN \<notin> set cs" for cs
    unfolding list_all_iff by (metis plan_charge.exhaust plan_charge.distinct)
  have plan: "deriveInstallmentPlanLifecycleStatus p cs =
     (if cs = [] then p else if set cs \<subseteq> {PLAN_CHARGE_CANCELED} then PLAN_CANCELED
      else if PLAN_CHARGE_OPEN \<notin> set cs \<and> PLAN_CHARGE_PAID \<in> set cs then PLAN_COMPLETED else PLAN_ACTIVE)" for p cs
    unfolding deriveInstallmentPlanLifecycleStatus_def settled by (simp add: list_all_iff list_ex_iff subset_iff) blast
  have canceled: "set cs \<subseteq> {PLAN_CHARGE_CANCELED} \<longleftrightarrow> PLAN_CHARGE_OPEN \<notin> set cs \<and> PLAN_CHARGE_PAID \<notin> set cs" for cs
  proof
    show "PLAN_CHARGE_OPEN \<notin> set cs \<and> PLAN_CHARGE_PAID \<notin> set cs" if "set cs \<subseteq> {PLAN_CHARGE_CANCELED}"
      using that by auto
    show "set cs \<subseteq> {PLAN_CHARGE_CANCELED}" if "PLAN_CHARGE_OPEN \<notin> set cs \<and> PLAN_CHARGE_PAID \<notin> set cs"
    proof
      fix c assume "c \<in> set cs"
      then show "c \<in> {PLAN_CHARGE_CANCELED}" using that by (metis plan_charge.exhaust singletonI)
    qed
  qed
  have single: "cs \<noteq> [] \<Longrightarrow> set cs = {PLAN_CHARGE_CANCELED} \<longleftrightarrow> set cs \<subseteq> {PLAN_CHARGE_CANCELED}"
    by (simp add: subset_singleton_iff)
  have same: "set cs = set ds \<Longrightarrow> (cs = []) = (ds = [])" by auto
  show ?thesis
    using same by (simp add: plan single canceled)
qed

lemma plan_status_of_charge_set_witness:
  "deriveInstallmentPlanLifecycleStatus PLAN_ACTIVE [PLAN_CHARGE_PAID, PLAN_CHARGE_CANCELED] = PLAN_COMPLETED"
  using plan_status_of_charge_set [of "[PLAN_CHARGE_PAID, PLAN_CHARGE_CANCELED]" "[]" PLAN_ACTIVE] by simp

end
