(* ===== verification/JSText.thy ===== *)
theory JSText
  imports JSString CivilDate "HOL-Library.Char_ord" "HOL-Library.List_Lexorder"
begin

text \<open>
  Texts the source language makes of its values: decimal numerals, \<^verbatim>\<open>String(number)\<close> (the shortest
  numeral that reads back as the number), \<^verbatim>\<open>toISOString\<close>, and \<^verbatim>\<open>JSON.stringify\<close> with the key-sorted
  variant the code builds on it. Sorting strings without a comparator is sorting by character codes.
\<close>

section \<open>Numerals\<close>

fun digits_of :: "nat \<Rightarrow> string" where
  "digits_of n = (if n < 10 then [char_of (48 + n)] else digits_of (n div 10) @ [char_of (48 + n mod 10)])"

declare digits_of.simps [simp del]

definition int_text :: "int \<Rightarrow> string" where
  "int_text n = (if n < 0 then CHR ''-'' # digits_of (nat (- n)) else digits_of (nat n))"

definition pad_zeros :: "nat \<Rightarrow> string \<Rightarrow> string" where
  "pad_zeros k s = replicate (k - length s) (CHR ''0'') @ s"

lemma is_digit_char [simp]: "d < 10 \<Longrightarrow> is_digit (char_of (48 + d :: nat))"
  by (simp add: is_digit_def)

lemma digit_value_char [simp]: "d < 10 \<Longrightarrow> digit_value (char_of (48 + d :: nat)) = int d"
  by (simp add: digit_value_def)

lemma digits_of_digits: "\<forall>c \<in> set (digits_of n). is_digit c"
proof (induction n rule: digits_of.induct)
  case (1 n)
  then show ?case by (cases "n < 10") (simp_all add: digits_of.simps [of n])
qed

lemma digits_of_not_Nil [simp]: "digits_of n \<noteq> []"
  by (simp add: digits_of.simps [of n])

lemma decimal_value_digits_of [simp]: "decimal_value (digits_of n) = int n"
proof (induction n rule: digits_of.induct)
  case (1 n)
  show ?case
  proof (cases "n < 10")
    case True
    then show ?thesis by (simp add: digits_of.simps [of n] decimal_value_def)
  next
    case False
    then have "decimal_value (digits_of n) = 10 * int (n div 10) + int (n mod 10)"
      using 1 by (simp add: digits_of.simps [of n] decimal_value_snoc)
    then show ?thesis by presburger
  qed
qed

lemma digits_of_inject: "digits_of m = digits_of n \<longleftrightarrow> m = n"
  by (metis decimal_value_digits_of of_nat_eq_iff)

lemma js_number_digits_of: "n \<le> 2 ^ 53 \<Longrightarrow> js_number (digits_of n) = num_int (int n)"
  using js_number_digits [of "digits_of n"] digits_of_digits [of n] by simp

lemma decimal_value_zeros: "decimal_value (replicate k (CHR ''0'') @ s) = decimal_value s"
proof -
  have "foldl (\<lambda>n c. 10 * n + digit_value c) 0 (replicate k (CHR ''0'')) = 0"
    by (induction k) (simp_all add: digit_value_def)
  then show ?thesis by (simp add: decimal_value_def)
qed

lemma decimal_value_pad [simp]: "decimal_value (pad_zeros k s) = decimal_value s"
  by (simp add: pad_zeros_def decimal_value_zeros)

section \<open>String(number)\<close>

text \<open>
  The position of the leading digit of a positive number: \<open>10 powi (n - 1) \<le> x < 10 powi n\<close>.
  Doubles lie between \<open>10 powi (-324)\<close> and \<open>10 powi 309\<close>, so 400 steps are enough.
\<close>

fun decimal_exponent :: "nat \<Rightarrow> rat \<Rightarrow> int" where
  "decimal_exponent 0 x = 1"
| "decimal_exponent (Suc f) x =
     (if x < 1 then decimal_exponent f (x * 10) - 1
      else if 10 \<le> x then decimal_exponent f (x / 10) + 1 else 1)"

text \<open>
  The shortest significand: the least number of digits for which the nearest numeral of that
  length reads back as the number. Seventeen digits always do.
\<close>

fun shortest_significand :: "nat \<Rightarrow> nat \<Rightarrow> rat \<Rightarrow> int \<Rightarrow> int \<times> nat" where
  "shortest_significand 0 k x n = (\<lfloor>x / 10 powi (n - int k) + 1/2\<rfloor>, k)"
| "shortest_significand (Suc f) k x n = (let s = \<lfloor>x / 10 powi (n - int k) + 1/2\<rfloor>
     in if of_exact (of_int s * 10 powi (n - int k)) = Fin x then (s, k)
        else shortest_significand f (Suc k) x n)"

definition positive_text :: "rat \<Rightarrow> string" where
  "positive_text x =
     (let n = decimal_exponent 400 x; (s, k) = shortest_significand 16 1 x n; ds = digits_of (nat s);
          e = n - 1; etext = (if e < 0 then CHR ''-'' else CHR ''+'') # digits_of (nat \<bar>e\<bar>)
      in if int k \<le> n \<and> n \<le> 21 then ds @ replicate (nat n - k) (CHR ''0'')
         else if 0 < n \<and> n \<le> 21 then take (nat n) ds @ CHR ''.'' # drop (nat n) ds
         else if - 6 < n \<and> n \<le> 0 then ''0.'' @ replicate (nat (- n)) (CHR ''0'') @ ds
         else if k = 1 then ds @ CHR ''e'' # etext
         else take 1 ds @ CHR ''.'' # drop 1 ds @ CHR ''e'' # etext)"

fun num_text :: "jsnum \<Rightarrow> string" where
  "num_text NaN = ''NaN''"
| "num_text PosInf = ''Infinity''"
| "num_text NegInf = ''-Infinity''"
| "num_text (Fin x) = (if x = 0 then ''0'' else if x < 0 then CHR ''-'' # positive_text (- x) else positive_text x)"

section \<open>toISOString\<close>

definition iso_year :: "int \<Rightarrow> string" where
  "iso_year y = (if 0 \<le> y \<and> y \<le> 9999 then pad_zeros 4 (digits_of (nat y))
     else (if y < 0 then CHR ''-'' else CHR ''+'') # pad_zeros 6 (digits_of (nat \<bar>y\<bar>)))"

definition two_digits :: "int \<Rightarrow> string" where
  "two_digits n = pad_zeros 2 (digits_of (nat n))"

definition iso_date_text :: "int \<Rightarrow> string" where
  "iso_date_text t = iso_year (utc_year t) @ ''-'' @ two_digits (utc_month t + 1) @ ''-'' @ two_digits (utc_date t)"

definition iso_string :: "int \<Rightarrow> string" where
  "iso_string t = (let ms = t mod ms_per_day in iso_date_text t @ ''T'' @ two_digits (ms div 3600000) @ '':'' @
     two_digits (ms div 60000 mod 60) @ '':'' @ two_digits (ms div 1000 mod 60) @ ''.'' @
     pad_zeros 3 (digits_of (nat (ms mod 1000))) @ ''Z'')"

section \<open>JSON.stringify\<close>

datatype json = JNull | JBool bool | JNum jsnum | JStr string | JArr "json list" | JObj "(string \<times> json) list"

definition hex_digit :: "nat \<Rightarrow> char" where
  "hex_digit n = (if n < 10 then char_of (48 + n) else char_of (87 + n))"

definition json_char :: "char \<Rightarrow> string" where
  "json_char c = (let n = of_char c :: nat in
     if n = 34 then [char_of (92 :: nat), char_of (34 :: nat)]
     else if n = 92 then [char_of (92 :: nat), char_of (92 :: nat)]
     else if n = 8 then [char_of (92 :: nat), CHR ''b''] else if n = 9 then [char_of (92 :: nat), CHR ''t'']
     else if n = 10 then [char_of (92 :: nat), CHR ''n''] else if n = 12 then [char_of (92 :: nat), CHR ''f'']
     else if n = 13 then [char_of (92 :: nat), CHR ''r'']
     else if n < 32 then char_of (92 :: nat) # ''u00'' @ [hex_digit (n div 16), hex_digit (n mod 16)]
     else [c])"

definition json_quote :: "string \<Rightarrow> string" where
  "json_quote s = char_of (34 :: nat) # concat (map json_char s) @ [char_of (34 :: nat)]"

definition json_number :: "jsnum \<Rightarrow> string" where
  "json_number x = (if num_finite x then num_text x else ''null'')"

fun stable_json :: "json \<Rightarrow> string" where
  "stable_json JNull = ''null''"
| "stable_json (JBool b) = (if b then ''true'' else ''false'')"
| "stable_json (JNum x) = json_number x"
| "stable_json (JStr s) = json_quote s"
| "stable_json (JArr xs) = ''['' @ join_with '','' (map stable_json xs) @ '']''"
| "stable_json (JObj kvs) = CHR ''{'' #
     join_with '','' (map (\<lambda>(k, t). json_quote k @ '':'' @ t) (sort_key fst (map (\<lambda>(k, v). (k, stable_json v)) kvs))) @ ''}''"

text \<open>Sorting by distinct keys forgets the order of the entries.\<close>

lemma sort_key_perm:
  assumes "mset xs = mset ys" "distinct (map f xs)"
  shows "sort_key f xs = sort_key f ys"
  using assms sort_key_inj_key_eq [of xs "sort_key f ys" f] by (simp add: distinct_map)

text \<open>So the key-sorted text of an object is a function of its entries as a set.\<close>

lemma stable_json_perm:
  assumes "mset xs = mset ys" "distinct (map fst xs)"
  shows "stable_json (JObj xs) = stable_json (JObj ys)"
proof -
  have "distinct (map fst (map (\<lambda>(k, v). (k, stable_json v)) xs))"
    using assms(2) by (simp add: o_def split_def)
  then have "sort_key fst (map (\<lambda>(k, v). (k, stable_json v)) xs) = sort_key fst (map (\<lambda>(k, v). (k, stable_json v)) ys)"
    by (intro sort_key_perm) (simp_all add: assms(1))
  then show ?thesis by simp
qed

end
