(* ===== verification/Renewal.thy ===== *)
theory Renewal
  imports JSText
begin

text \<open>
  The renewal of enrolments: \<^verbatim>\<open>packages/domain/src/rules/renewal-process.ts\<close> (effective date, preview
  with its blockers, totals and hashes, process states) and \<^verbatim>\<open>renewal-activation.ts\<close> (what a renewal
  waits for). The hash function is a package, \<^verbatim>\<open>@noble/hashes\<close>: it is the parameter \<open>sha256\<close>; the
  current time is the parameter \<open>now_time\<close>. Exceptions of the language are the values of
  \<open>js_error\<close>. Texts of blockers and warnings are left out.
\<close>

section \<open>Types\<close>

datatype js_error = TypeError | RangeError

datatype renewal_origin = ORIGIN_CAMPAIGN | ORIGIN_STANDALONE_RENEWAL

datatype renewal_holder = HOLDER_STUDENT | HOLDER_RESPONSIBLE

datatype renewal_target_type = TARGET_CLASS | TARGET_COMBO

datatype renewal_decision = RENEW | DECIDE_LATER | DO_NOT_CONTINUE

datatype renewal_status = DRAFT | PREVIEWED | PARTIALLY_CONFIRMED | CONFIRMED | WAITING_FOR_START
  | REQUIRES_ATTENTION | EFFECTIVE | CANCELLED | COMPLETED

datatype fee_unit = NO_FEE | PER_STUDENT | PER_FAMILY

record renewal_target =
  rt_type :: renewal_target_type
  rt_targetId :: string
  rt_planId :: string

text \<open>An item as it arrives at run time: the target may be missing whatever the decision.\<close>

record renewal_item =
  ri_decision :: renewal_decision
  ri_source :: string
  ri_target :: "renewal_target option"
  ri_separateBilling :: "bool option"

record renewal_source =
  rs_id :: string
  rs_endsAt :: date_value
  rs_updatedAt :: date_value
  rs_monthlyAmount :: jsnum
  rs_feeAmount :: "jsnum option"

record preview_input =
  rp_contaId :: string
  rp_origin :: renewal_origin
  rp_campaignId :: "string option"
  rp_targetPeriodId :: string
  rp_periodStartsAt :: "date_value option"
  rp_holderType :: renewal_holder
  rp_holderId :: string
  rp_sourceHolderId :: "string option"
  rp_items :: "renewal_item list"
  rp_sources :: "renewal_source list"
  rp_requestedEffectiveAt :: "date_value option"
  rp_requestedFirstDueDate :: "date_value option"
  rp_feeAmount :: "jsnum option"
  rp_feeUnit :: "fee_unit option"
  rp_dependencyVersion :: "string option"
  rp_dependencySnapshot :: "json option"

datatype blocker_code = SOURCE_NOT_FOUND | TARGET_REQUIRED | TARGET_MUST_BE_NULL | DUPLICATE_SOURCE
  | INVALID_EFFECTIVE_AT | NO_ITEMS

datatype renewal_warning = EFFECTIVE_DATE_ADJUSTED | NOTHING_RENEWED

record target_enrollment =
  te_source :: string
  te_targetType :: renewal_target_type
  te_targetId :: string
  te_planId :: string
  te_monthlyAmount :: jsnum
  te_separateBilling :: bool
  te_effectiveAt :: string

record financial_agreement =
  fa_monthlyTotal :: jsnum
  fa_feeTotal :: jsnum
  fa_firstDueDate :: "string option"

record renewal_preview =
  pv_previewHash :: string
  pv_sourceVersion :: string
  pv_renewCount :: nat
  pv_pendingCount :: nat
  pv_nonRenewalCount :: nat
  pv_targets :: "target_enrollment list"
  pv_reservations :: "(string \<times> string) list"
  pv_agreement :: "financial_agreement option"
  pv_monthlyTotal :: jsnum
  pv_feeTotal :: jsnum
  pv_effectiveAt :: string
  pv_firstDueDate :: "string option"
  pv_blockers :: "(string \<times> blocker_code) list"
  pv_warnings :: "renewal_warning list"
  pv_snapshot :: json

section \<open>Dates and money\<close>

definition toDateOnly :: "date_value \<Rightarrow> date_value" where
  "toDateOnly d = map_option (\<lambda>t. date_utc (utc_year t) (utc_month t) (utc_date t)) d"

text \<open>\<^verbatim>\<open>setUTCDate\<close> keeps the time of day, which is midnight here.\<close>

definition addDays :: "date_value \<Rightarrow> int \<Rightarrow> date_value" where
  "addDays d days = map_option (\<lambda>t. make_day (utc_year t) (utc_month t) (utc_date t + days) * ms_per_day) (toDateOnly d)"

definition isoDate :: "date_value \<Rightarrow> js_error + string" where
  "isoDate d = (case toDateOnly d of None \<Rightarrow> Inl RangeError | Some t \<Rightarrow> Inr (take 10 (iso_string t)))"

definition roundMoney :: "jsnum \<Rightarrow> jsnum" where
  "roundMoney v = num_div (num_round (num_mul (num_add v num_epsilon) (Fin 100))) (Fin 100)"

definition calculateRenewalEffectiveAt :: "date_value \<Rightarrow> date_value option \<Rightarrow> date_value option \<Rightarrow> date_value" where
  "calculateRenewalEffectiveAt endsAt periodStartsAt requestedAt =
     (let naturalStart = addDays endsAt 1; periodStart = map_option toDateOnly periodStartsAt;
          minimum = (case periodStart of None \<Rightarrow> naturalStart
                     | Some p \<Rightarrow> if date_less naturalStart p then p else naturalStart)
      in case requestedAt of None \<Rightarrow> minimum
         | Some r \<Rightarrow> (let requested = toDateOnly r in if date_less minimum requested then requested else minimum))"

section \<open>The preview\<close>

text \<open>\<^verbatim>\<open>new Map(entries)\<close>: the last entry of a key wins.\<close>

definition sourcesById :: "renewal_source list \<Rightarrow> string \<Rightarrow> renewal_source option" where
  "sourcesById sources = map_of (rev (map (\<lambda>s. (rs_id s, s)) sources))"

definition item_blockers :: "renewal_source list \<Rightarrow> string list \<Rightarrow> renewal_item \<Rightarrow> (string \<times> blocker_code) list" where
  "item_blockers sources seen i =
     (if ri_source i \<in> set seen then [(ri_source i, DUPLICATE_SOURCE)] else []) @
     (if sourcesById sources (ri_source i) = None then [(ri_source i, SOURCE_NOT_FOUND)] else []) @
     (if ri_decision i = RENEW \<and> ri_target i = None then [(ri_source i, TARGET_REQUIRED)] else []) @
     (if ri_decision i \<noteq> RENEW \<and> ri_target i \<noteq> None then [(ri_source i, TARGET_MUST_BE_NULL)] else [])"

fun blockers_loop :: "renewal_source list \<Rightarrow> string list \<Rightarrow> renewal_item list \<Rightarrow> (string \<times> blocker_code) list" where
  "blockers_loop sources seen [] = []"
| "blockers_loop sources seen (i # is) =
     item_blockers sources seen i @ blockers_loop sources (ri_source i # seen) is"

definition preview_blockers :: "preview_input \<Rightarrow> (string \<times> blocker_code) list" where
  "preview_blockers x = (if rp_items x = [] then [(''process'', NO_ITEMS)] else []) @
     blockers_loop (rp_sources x) [] (rp_items x)"

definition renew_items :: "preview_input \<Rightarrow> renewal_item list" where
  "renew_items x = filter (\<lambda>i. ri_decision i = RENEW) (rp_items x)"

definition source_dates :: "preview_input \<Rightarrow> date_value list" where
  "source_dates x = map rs_endsAt (List.map_filter (\<lambda>i. sourcesById (rp_sources x) (ri_source i)) (rp_items x))"

text \<open>\<^verbatim>\<open>Math.max(...times)\<close> of at least one time; an invalid date makes the maximum invalid.\<close>

fun max_time :: "date_value list \<Rightarrow> date_value" where
  "max_time [] = None"
| "max_time [d] = d"
| "max_time (d # ds) = (case (d, max_time ds) of (Some a, Some b) \<Rightarrow> Some (max a b) | _ \<Rightarrow> None)"

definition preview_effectiveAt :: "int \<Rightarrow> preview_input \<Rightarrow> date_value" where
  "preview_effectiveAt now_time x =
     calculateRenewalEffectiveAt (if source_dates x = [] then Some now_time else max_time (source_dates x))
       (rp_periodStartsAt x) (rp_requestedEffectiveAt x)"

definition preview_warnings :: "preview_input \<Rightarrow> date_value \<Rightarrow> renewal_warning list" where
  "preview_warnings x effectiveAt =
     (case rp_requestedEffectiveAt x of None \<Rightarrow> []
      | Some r \<Rightarrow> if date_less (toDateOnly r) effectiveAt then [EFFECTIVE_DATE_ADJUSTED] else []) @
     (if renew_items x = [] \<and> rp_items x \<noteq> [] then [NOTHING_RENEWED] else [])"

definition source_amount :: "preview_input \<Rightarrow> renewal_item \<Rightarrow> jsnum" where
  "source_amount x i = (case sourcesById (rp_sources x) (ri_source i) of None \<Rightarrow> Fin 0 | Some s \<Rightarrow> rs_monthlyAmount s)"

definition preview_monthlyTotal :: "preview_input \<Rightarrow> jsnum" where
  "preview_monthlyTotal x = roundMoney (foldl (\<lambda>sum i. num_add sum (source_amount x i)) (Fin 0) (renew_items x))"

definition preview_feeTotal :: "preview_input \<Rightarrow> jsnum" where
  "preview_feeTotal x = (let unit = roundMoney (case rp_feeAmount x of None \<Rightarrow> Fin 0 | Some v \<Rightarrow> v)
     in case rp_feeUnit x of Some NO_FEE \<Rightarrow> Fin 0 | Some PER_FAMILY \<Rightarrow> unit
        | _ \<Rightarrow> roundMoney (num_mul unit (num_int (int (length (renew_items x))))))"

text \<open>One renewed item: reading the fields of a missing target raises.\<close>

definition target_entry :: "preview_input \<Rightarrow> date_value \<Rightarrow> renewal_item \<Rightarrow> js_error + target_enrollment" where
  "target_entry x effectiveAt i = (case ri_target i of None \<Rightarrow> Inl TypeError
     | Some t \<Rightarrow> (case isoDate effectiveAt of Inl e \<Rightarrow> Inl e
         | Inr day \<Rightarrow> Inr \<lparr>te_source = ri_source i, te_targetType = rt_type t, te_targetId = rt_targetId t,
             te_planId = rt_planId t, te_monthlyAmount = roundMoney (source_amount x i),
             te_separateBilling = (ri_separateBilling i = Some True), te_effectiveAt = day\<rparr>))"

fun map_result :: "('a \<Rightarrow> js_error + 'b) \<Rightarrow> 'a list \<Rightarrow> js_error + 'b list" where
  "map_result f [] = Inr []"
| "map_result f (x # xs) = (case f x of Inl e \<Rightarrow> Inl e
     | Inr y \<Rightarrow> (case map_result f xs of Inl e \<Rightarrow> Inl e | Inr ys \<Rightarrow> Inr (y # ys)))"

text \<open>\<^verbatim>\<open>buildRenewalSourceVersion\<close>: the sorted list of the sources with their times of update.\<close>

definition source_stamp :: "renewal_source \<Rightarrow> js_error + string" where
  "source_stamp s = (case rs_updatedAt s of None \<Rightarrow> Inl RangeError
     | Some t \<Rightarrow> Inr (rs_id s @ '':'' @ iso_string t))"

definition buildRenewalSourceVersion :: "(string \<Rightarrow> string) \<Rightarrow> renewal_source list \<Rightarrow> js_error + string" where
  "buildRenewalSourceVersion sha256 sources = (case map_result source_stamp sources of Inl e \<Rightarrow> Inl e
     | Inr stamps \<Rightarrow> Inr (sha256 (join_with ''|'' (sort stamps))))"

section \<open>The snapshot\<close>

definition json_opt :: "string option \<Rightarrow> json" where
  "json_opt v = (case v of None \<Rightarrow> JNull | Some t \<Rightarrow> JStr t)"

fun origin_text :: "renewal_origin \<Rightarrow> string" where
  "origin_text ORIGIN_CAMPAIGN = ''CAMPAIGN''"
| "origin_text ORIGIN_STANDALONE_RENEWAL = ''STANDALONE''"

fun holder_text :: "renewal_holder \<Rightarrow> string" where
  "holder_text HOLDER_STUDENT = ''STUDENT''"
| "holder_text HOLDER_RESPONSIBLE = ''RESPONSIBLE''"

fun target_type_text :: "renewal_target_type \<Rightarrow> string" where
  "target_type_text TARGET_CLASS = ''CLASS''"
| "target_type_text TARGET_COMBO = ''COMBO''"

fun renewal_decision_text :: "renewal_decision \<Rightarrow> string" where
  "renewal_decision_text RENEW = ''RENEW''"
| "renewal_decision_text DECIDE_LATER = ''DECIDE_LATER''"
| "renewal_decision_text DO_NOT_CONTINUE = ''DO_NOT_CONTINUE''"

definition snapshot_item :: "renewal_item \<Rightarrow> json" where
  "snapshot_item i = JObj
     [(''sourceEnrollmentId'', JStr (ri_source i)),
      (''decision'', JStr (renewal_decision_text (ri_decision i))),
      (''target'', (case ri_target i of None \<Rightarrow> JNull
         | Some t \<Rightarrow> JObj [(''type'', JStr (target_type_text (rt_type t))), (''targetId'', JStr (rt_targetId t)),
                          (''planId'', JStr (rt_planId t))])),
      (''separateBilling'', JBool (ri_decision i = RENEW \<and> ri_separateBilling i = Some True))]"

definition preview_snapshot :: "preview_input \<Rightarrow> string \<Rightarrow> string \<Rightarrow> string option \<Rightarrow> json" where
  "preview_snapshot x sourceVersion effective firstDue = JObj
     [(''version'', JNum (Fin 1)),
      (''contaId'', JStr (rp_contaId x)),
      (''origin'', JStr (origin_text (rp_origin x))),
      (''campaignId'', json_opt (rp_campaignId x)),
      (''targetPeriodId'', JStr (rp_targetPeriodId x)),
      (''holderType'', JStr (holder_text (rp_holderType x))),
      (''holderId'', JStr (rp_holderId x)),
      (''sourceHolderId'', json_opt (rp_sourceHolderId x)),
      (''sourceVersion'', JStr sourceVersion),
      (''dependencyVersion'', json_opt (rp_dependencyVersion x)),
      (''dependencySnapshot'', (case rp_dependencySnapshot x of None \<Rightarrow> JNull | Some j \<Rightarrow> j)),
      (''effectiveAt'', JStr effective),
      (''firstDueDate'', json_opt firstDue),
      (''items'', JArr (map snapshot_item (rp_items x))),
      (''monthlyTotal'', JNum (preview_monthlyTotal x)),
      (''enrollmentFeeTotal'', JNum (preview_feeTotal x))]"

definition hashSnapshot :: "(string \<Rightarrow> string) \<Rightarrow> json \<Rightarrow> string" where
  "hashSnapshot sha256 snapshot = sha256 (stable_json snapshot)"

text \<open>\<^verbatim>\<open>input.requestedFirstDueDate ? isoDate(...) : null\<close>\<close>

definition preview_firstDueDate :: "preview_input \<Rightarrow> js_error + string option" where
  "preview_firstDueDate x = (case rp_requestedFirstDueDate x of None \<Rightarrow> Inr None
     | Some d \<Rightarrow> (case isoDate d of Inl e \<Rightarrow> Inl e | Inr t \<Rightarrow> Inr (Some t)))"

definition buildRenewalPreview :: "(string \<Rightarrow> string) \<Rightarrow> int \<Rightarrow> preview_input \<Rightarrow> js_error + renewal_preview" where
  "buildRenewalPreview sha256 now_time x =
     (let effectiveAt = preview_effectiveAt now_time x in
      case map_result (target_entry x effectiveAt) (renew_items x) of Inl e \<Rightarrow> Inl e | Inr targets \<Rightarrow>
      case map_result (\<lambda>i. case isoDate effectiveAt of Inl e \<Rightarrow> Inl e | Inr day \<Rightarrow> Inr (ri_source i, day)) (renew_items x) of
        Inl e \<Rightarrow> Inl e | Inr reservations \<Rightarrow>
      case preview_firstDueDate x of Inl e \<Rightarrow> Inl e | Inr firstDue \<Rightarrow>
      case buildRenewalSourceVersion sha256
          (filter (\<lambda>s. rs_id s \<in> set (map ri_source (rp_items x))) (rp_sources x)) of Inl e \<Rightarrow> Inl e | Inr version \<Rightarrow>
      case isoDate effectiveAt of Inl e \<Rightarrow> Inl e | Inr effective \<Rightarrow>
        (let snapshot = preview_snapshot x version effective firstDue in
         Inr \<lparr>pv_previewHash = hashSnapshot sha256 snapshot, pv_sourceVersion = version,
           pv_renewCount = length (renew_items x),
           pv_pendingCount = length (filter (\<lambda>i. ri_decision i = DECIDE_LATER) (rp_items x)),
           pv_nonRenewalCount = length (filter (\<lambda>i. ri_decision i = DO_NOT_CONTINUE) (rp_items x)),
           pv_targets = targets, pv_reservations = reservations,
           pv_agreement = (if renew_items x = [] then None
             else Some \<lparr>fa_monthlyTotal = preview_monthlyTotal x, fa_feeTotal = preview_feeTotal x, fa_firstDueDate = firstDue\<rparr>),
           pv_monthlyTotal = preview_monthlyTotal x, pv_feeTotal = preview_feeTotal x,
           pv_effectiveAt = effective, pv_firstDueDate = firstDue, pv_blockers = preview_blockers x,
           pv_warnings = preview_warnings x effectiveAt, pv_snapshot = snapshot\<rparr>))"

section \<open>The process\<close>

fun renewal_transitions :: "renewal_status \<Rightarrow> renewal_status list" where
  "renewal_transitions DRAFT = [PREVIEWED, CANCELLED]"
| "renewal_transitions PREVIEWED = [CONFIRMED, PARTIALLY_CONFIRMED, CANCELLED, REQUIRES_ATTENTION]"
| "renewal_transitions PARTIALLY_CONFIRMED = [CONFIRMED, CANCELLED, REQUIRES_ATTENTION]"
| "renewal_transitions CONFIRMED = [WAITING_FOR_START, CANCELLED, REQUIRES_ATTENTION, EFFECTIVE]"
| "renewal_transitions WAITING_FOR_START = [EFFECTIVE, CANCELLED, REQUIRES_ATTENTION]"
| "renewal_transitions REQUIRES_ATTENTION = [CONFIRMED, WAITING_FOR_START, CANCELLED]"
| "renewal_transitions EFFECTIVE = [COMPLETED]"
| "renewal_transitions CANCELLED = []"
| "renewal_transitions COMPLETED = []"

definition canTransitionRenewalProcess :: "renewal_status \<Rightarrow> renewal_status \<Rightarrow> bool" where
  "canTransitionRenewalProcess a b \<longleftrightarrow> b \<in> set (renewal_transitions a)"

section \<open>renewal-activation.ts\<close>

datatype activation_blocker = EFFECTIVE_DATE_NOT_REACHED | SOURCE_ENROLLMENT_OVERLAP | RESERVATION_MISSING
  | FUTURE_ENROLLMENT_MISSING | CONTRACT_NOT_SIGNED | FINANCE_NOT_PROVISIONED | FINANCIAL_PROVISION_FAILED
  | OPEN_BLOCKING_PENDING

datatype renewal_contract = CONTRACT_DRAFT | CONTRACT_WAITING_SIGNATURE | CONTRACT_SIGNED_SCHEDULED | CONTRACT_ACTIVE
  | CONTRACT_EXPIRED | CONTRACT_CANCELLED

datatype renewal_finance = FINANCE_NOT_PREPARED | FINANCE_SCHEDULED | FINANCE_READY_TO_PROVISION | FINANCE_PROVISIONING
  | FINANCE_ACTIVE | FINANCE_FAILED | FINANCE_CANCELLED

record activation_input =
  ra_now :: date_value
  ra_effectiveAt :: date_value
  ra_effectiveDateReached :: "bool option"
  ra_sourceOverlaps :: bool
  ra_hasFutureEnrollment :: bool
  ra_hasReservation :: bool
  ra_contractRequired :: bool
  ra_contractStatus :: "renewal_contract option"
  ra_financeRequired :: bool
  ra_financeStatus :: "renewal_finance option"
  ra_hasOpenBlockingPending :: bool

definition activation_blockers :: "activation_input \<Rightarrow> activation_blocker list" where
  "activation_blockers x =
     (let reached = (case ra_effectiveDateReached x of Some b \<Rightarrow> b | None \<Rightarrow> date_le (ra_effectiveAt x) (ra_now x))
      in (if \<not> reached then [EFFECTIVE_DATE_NOT_REACHED] else []) @
         (if ra_sourceOverlaps x then [SOURCE_ENROLLMENT_OVERLAP] else []) @
         (if \<not> ra_hasFutureEnrollment x then [FUTURE_ENROLLMENT_MISSING] else []) @
         (if \<not> ra_hasReservation x then [RESERVATION_MISSING] else []) @
         (if ra_contractRequired x \<and> ra_contractStatus x \<noteq> Some CONTRACT_SIGNED_SCHEDULED \<and>
             ra_contractStatus x \<noteq> Some CONTRACT_ACTIVE then [CONTRACT_NOT_SIGNED] else []) @
         (if ra_financeRequired x \<and> ra_financeStatus x = Some FINANCE_FAILED then [FINANCIAL_PROVISION_FAILED]
          else if ra_financeRequired x \<and> ra_financeStatus x \<noteq> Some FINANCE_ACTIVE then [FINANCE_NOT_PROVISIONED] else []) @
         (if ra_hasOpenBlockingPending x then [OPEN_BLOCKING_PENDING] else []))"

definition evaluateRenewalActivation :: "activation_input \<Rightarrow> bool \<times> activation_blocker list" where
  "evaluateRenewalActivation x = (let blockers = activation_blockers x in (blockers = [], blockers))"

section \<open>The effective date\<close>

lemma toDateOnly_full: "full_year t \<Longrightarrow> toDateOnly (Some t) = Some (day_of t * ms_per_day)"
  by (simp add: toDateOnly_def date_utc_full_year)

lemma addDays_full:
  assumes "full_year t"
  shows "addDays (Some t) n = Some ((day_of t + n) * ms_per_day)"
proof -
  have "make_day (utc_year (day_of t * ms_per_day)) (utc_month (day_of t * ms_per_day)) (utc_date (day_of t * ms_per_day)) = day_of t"
    using make_day_utc_fields [of "day_of t * ms_per_day"] by simp
  then show ?thesis by (simp add: addDays_def toDateOnly_full assms make_day_add)
qed

definition later_day :: "int \<Rightarrow> int option \<Rightarrow> int" where
  "later_day d t = (case t of None \<Rightarrow> d | Some u \<Rightarrow> max d (day_of u))"

lemma effectiveAt_later_day:
  assumes "full_year e" "pred_option full_year p" "pred_option full_year r"
  shows "calculateRenewalEffectiveAt (Some e) (map_option Some p) (map_option Some r) =
     Some (later_day (later_day (day_of e + 1) p) r * ms_per_day)"
  using assms by (cases p; cases r)
    (simp_all add: calculateRenewalEffectiveAt_def Let_def addDays_full toDateOnly_full later_day_def date_less_def max_def)

lemma max_time_Some: "ts \<noteq> [] \<Longrightarrow> max_time (map Some ts) = Some (Max (set ts))"
proof (induction ts)
  case (Cons t ts)
  then show ?case by (cases ts) simp_all
qed simp

lemma day_of_mono: "s \<le> t \<Longrightarrow> day_of s \<le> day_of t"
  by (simp add: day_of_def ms_per_day_def zdiv_mono1)

text \<open>
  A renewal never overlaps what it renews. When the dates are valid, the effective date of a
  preview is a midnight, at least one day after the end of the current contract of every item
  whose source is known, not before the start of the target period and not before the requested
  date; and it is the earliest such day: it is the day after the latest end (after today, when no
  source is known), the period start or the requested date.
\<close>

theorem renewal_effective_date:
  assumes dates: "source_dates x = map Some ends" "\<forall>t \<in> set ends. full_year t" "full_year now_time"
    and period: "rp_periodStartsAt x = map_option Some p" "pred_option full_year p"
    and requested: "rp_requestedEffectiveAt x = map_option Some r" "pred_option full_year r"
  shows "\<exists>d. preview_effectiveAt now_time x = Some (d * ms_per_day) \<and>
     (\<forall>i \<in> set (rp_items x). \<forall>s t. sourcesById (rp_sources x) (ri_source i) = Some s \<and> rs_endsAt s = Some t \<longrightarrow> day_of t < d) \<and>
     (\<forall>t. p = Some t \<or> r = Some t \<longrightarrow> day_of t \<le> d) \<and>
     (d = day_of (if ends = [] then now_time else Max (set ends)) + 1 \<or> (\<exists>t. (p = Some t \<or> r = Some t) \<and> d = day_of t))"
proof -
  define e where "e = (if ends = [] then now_time else Max (set ends))"
  define d where "d = later_day (later_day (day_of e + 1) p) r"
  have "full_year e" using dates(2,3) by (simp add: e_def)
  moreover have "(if source_dates x = [] then Some now_time else max_time (source_dates x)) = Some e"
    by (simp add: dates(1) e_def max_time_Some)
  ultimately have eff: "preview_effectiveAt now_time x = Some (d * ms_per_day)"
    using effectiveAt_later_day [OF _ period(2) requested(2)] by (simp add: preview_effectiveAt_def period(1) requested(1) d_def)
  have after: "day_of e + 1 \<le> d" "\<forall>t. p = Some t \<or> r = Some t \<longrightarrow> day_of t \<le> d"
    "d = day_of e + 1 \<or> (\<exists>t. (p = Some t \<or> r = Some t) \<and> d = day_of t)"
    by (auto simp: d_def later_day_def max_def split: option.splits)
  have "day_of t < d" if "i \<in> set (rp_items x)" "sourcesById (rp_sources x) (ri_source i) = Some s" "rs_endsAt s = Some t" for i s t
  proof -
    have "Some t \<in> set (source_dates x)"
      using that by (force simp: source_dates_def List.map_filter_def)
    then have "t \<in> set ends" by (auto simp: dates(1))
    then have "t \<le> e" "ends \<noteq> []" by (auto simp: e_def)
    then show ?thesis using day_of_mono [of t e] after(1) by linarith
  qed
  then show ?thesis using eff after(2,3) by (intro exI [of _ d]) (auto simp: e_def)
qed

definition sample_source :: renewal_source where
  "sample_source = \<lparr>rs_id = ''m1'', rs_endsAt = Some (date_utc 2024 11 31), rs_updatedAt = Some 0,
     rs_monthlyAmount = Fin 100, rs_feeAmount = None\<rparr>"

definition sample_item :: renewal_item where
  "sample_item = \<lparr>ri_decision = RENEW, ri_source = ''m1'', ri_target = Some \<lparr>rt_type = TARGET_CLASS,
     rt_targetId = ''t1'', rt_planId = ''p1''\<rparr>, ri_separateBilling = None\<rparr>"

definition sample_preview :: preview_input where
  "sample_preview = \<lparr>rp_contaId = ''c1'', rp_origin = ORIGIN_CAMPAIGN, rp_campaignId = None, rp_targetPeriodId = ''2025'',
     rp_periodStartsAt = Some (Some (date_utc 2025 1 3)), rp_holderType = HOLDER_STUDENT, rp_holderId = ''a1'',
     rp_sourceHolderId = None, rp_items = [sample_item], rp_sources = [sample_source],
     rp_requestedEffectiveAt = None, rp_requestedFirstDueDate = None, rp_feeAmount = None, rp_feeUnit = None,
     rp_dependencyVersion = None, rp_dependencySnapshot = None\<rparr>"

lemma renewal_effective_date_witness:
  "\<exists>d. preview_effectiveAt 0 sample_preview = Some (d * ms_per_day) \<and> day_of (date_utc 2024 11 31) < d"
proof -
  have years: "full_year (date_utc 2024 11 31)" "full_year (date_utc 2025 1 3)" "full_year 0" by code_simp+
  have found: "sourcesById (rp_sources sample_preview) (ri_source sample_item) = Some sample_source"
    by (simp add: sourcesById_def sample_preview_def sample_item_def sample_source_def)
  have "source_dates sample_preview = map Some [date_utc 2024 11 31]"
    using found by (simp add: source_dates_def List.map_filter_def sample_preview_def) (simp add: sample_source_def)
  from renewal_effective_date [OF this _ years(3), of "Some (date_utc 2025 1 3)" None]
  show ?thesis using years found
    by (simp add: sample_preview_def) (auto simp: sample_source_def)
qed

section \<open>The result of a preview\<close>

lemma blockers_loop_Nil:
  "blockers_loop sources seen is = [] \<longleftrightarrow> distinct (map ri_source is) \<and> set (map ri_source is) \<inter> set seen = {} \<and>
     (\<forall>i \<in> set is. sourcesById sources (ri_source i) \<noteq> None \<and> (ri_decision i = RENEW \<longleftrightarrow> ri_target i \<noteq> None))"
  by (induction "is" arbitrary: seen) (auto simp: item_blockers_def split: if_splits)

lemma blockers_loop_target:
  "(s, TARGET_REQUIRED) \<in> set (blockers_loop sources seen is) \<Longrightarrow> \<exists>i \<in> set is. ri_decision i = RENEW \<and> ri_target i = None"
  by (induction "is" arbitrary: seen) (auto simp: item_blockers_def split: if_splits)

lemma map_result_Inr: "map_result f xs = Inr ys \<longleftrightarrow> list_all2 (\<lambda>x y. f x = Inr y) xs ys"
proof
  show "map_result f xs = Inr ys \<Longrightarrow> list_all2 (\<lambda>x y. f x = Inr y) xs ys"
    by (induction xs arbitrary: ys) (auto split: sum.splits)
  show "list_all2 (\<lambda>x y. f x = Inr y) xs ys \<Longrightarrow> map_result f xs = Inr ys"
    by (induction rule: list_all2_induct) simp_all
qed

lemma list_all2_rows:
  assumes "list_all2 (\<lambda>x y. P x \<and> f y = g x) xs ys"
  shows "(\<forall>x \<in> set xs. P x) \<and> map f ys = map g xs"
  using assms by (induction rule: list_all2_induct) simp_all

lemma map_result_map: "\<forall>x \<in> set xs. f x = Inr (g x) \<Longrightarrow> map_result f xs = Inr (map g xs)"
  by (induction xs) simp_all

lemma map_result_fails:
  assumes "x \<in> set xs" "f x = Inl e" "\<forall>y \<in> set xs. \<forall>e'. f y = Inl e' \<longrightarrow> e' = e"
  shows "map_result f xs = Inl e"
  using assms
proof (induction xs)
  case (Cons y ys)
  show ?case
  proof (cases "f y")
    case (Inl e')
    then show ?thesis using Cons.prems(3) by simp
  next
    case (Inr z)
    then have "x \<in> set ys" using Cons.prems(1,2) by (metis set_ConsD sum.distinct(1))
    then have "map_result f ys = Inl e" by (rule Cons.IH) (meson Cons.prems(2,3) list.set_intros(2))+
    with Inr show ?thesis by simp
  qed
qed simp

lemma target_entry_simps:
  "target_entry x d i = Inr t \<Longrightarrow> ri_target i \<noteq> None \<and> te_source t = ri_source i \<and> isoDate d = Inr (te_effectiveAt t)"
  by (auto simp: target_entry_def split: option.splits sum.splits)

lemma preview_parts:
  assumes "buildRenewalPreview sha256 now_time x = Inr pv"
  defines "d \<equiv> preview_effectiveAt now_time x"
  shows "list_all2 (\<lambda>i t. target_entry x d i = Inr t) (renew_items x) (pv_targets pv)"
    and "pv_reservations pv = map (\<lambda>i. (ri_source i, pv_effectiveAt pv)) (renew_items x)"
    and "isoDate d = Inr (pv_effectiveAt pv)"
    and "pv_blockers pv = preview_blockers x \<and> pv_renewCount pv = length (renew_items x) \<and>
      (pv_agreement pv = None \<longleftrightarrow> renew_items x = []) \<and>
      pv_pendingCount pv = length (filter (\<lambda>i. ri_decision i = DECIDE_LATER) (rp_items x)) \<and>
      pv_nonRenewalCount pv = length (filter (\<lambda>i. ri_decision i = DO_NOT_CONTINUE) (rp_items x))"
proof -
  from assms obtain targets reservations firstDue version effective where
    targets: "map_result (target_entry x d) (renew_items x) = Inr targets" and
    reservations: "map_result (\<lambda>i. case isoDate d of Inl e \<Rightarrow> Inl e | Inr day \<Rightarrow> Inr (ri_source i, day)) (renew_items x) = Inr reservations" and
    effective: "isoDate d = Inr effective" and
    pv: "pv_targets pv = targets" "pv_reservations pv = reservations" "pv_effectiveAt pv = effective"
      "pv_blockers pv = preview_blockers x" "pv_renewCount pv = length (renew_items x)"
      "pv_agreement pv = None \<longleftrightarrow> renew_items x = []"
      "pv_pendingCount pv = length (filter (\<lambda>i. ri_decision i = DECIDE_LATER) (rp_items x))"
      "pv_nonRenewalCount pv = length (filter (\<lambda>i. ri_decision i = DO_NOT_CONTINUE) (rp_items x))"
    by (auto simp: buildRenewalPreview_def Let_def split: sum.splits if_splits)
  show "list_all2 (\<lambda>i t. target_entry x d i = Inr t) (renew_items x) (pv_targets pv)"
    using targets by (simp add: map_result_Inr pv)
  have "reservations = map (\<lambda>i. (ri_source i, effective)) (renew_items x)"
    using reservations by (simp add: map_result_Inr effective list_all2_conv_all_nth list_eq_iff_nth_eq)
  then show "pv_reservations pv = map (\<lambda>i. (ri_source i, pv_effectiveAt pv)) (renew_items x)" by (simp add: pv)
  show "isoDate d = Inr (pv_effectiveAt pv)" by (simp add: pv effective)
  show "pv_blockers pv = preview_blockers x \<and> pv_renewCount pv = length (renew_items x) \<and>
      (pv_agreement pv = None \<longleftrightarrow> renew_items x = []) \<and>
      pv_pendingCount pv = length (filter (\<lambda>i. ri_decision i = DECIDE_LATER) (rp_items x)) \<and>
      pv_nonRenewalCount pv = length (filter (\<lambda>i. ri_decision i = DO_NOT_CONTINUE) (rp_items x))"
    by (simp add: pv)
qed

lemma decisions_partition:
  "length (filter (\<lambda>i. ri_decision i = RENEW) is) + length (filter (\<lambda>i. ri_decision i = DECIDE_LATER) is) +
   length (filter (\<lambda>i. ri_decision i = DO_NOT_CONTINUE) is) = length is"
proof (induction "is")
  case (Cons i "is")
  then show ?case by (cases "ri_decision i") simp_all
qed simp

text \<open>
  What a preview returns. It counts every item once; it has one future enrolment and one
  reservation for each renewed item, in their order and on its effective date, and an agreement
  exactly when something is renewed. It has no blockers exactly when there are items, all from
  distinct known sources, those not renewed without a target. The blocker for a missing
  target never reaches a caller: with a valid effective date a renewed item without a target
  makes the preview raise instead.
\<close>

theorem renewal_preview_result:
  "((\<exists>i \<in> set (rp_items x). ri_decision i = RENEW \<and> ri_target i = None) \<and> preview_effectiveAt now_time x \<noteq> None \<longrightarrow>
      buildRenewalPreview sha256 now_time x = Inl TypeError) \<and>
   (buildRenewalPreview sha256 now_time x = Inr pv \<longrightarrow>
      (s, TARGET_REQUIRED) \<notin> set (pv_blockers pv) \<and>
      (pv_blockers pv = [] \<longleftrightarrow> rp_items x \<noteq> [] \<and> distinct (map ri_source (rp_items x)) \<and>
         (\<forall>i \<in> set (rp_items x). sourcesById (rp_sources x) (ri_source i) \<noteq> None \<and>
            (ri_decision i \<noteq> RENEW \<longrightarrow> ri_target i = None))) \<and>
      pv_renewCount pv + pv_pendingCount pv + pv_nonRenewalCount pv = length (rp_items x) \<and>
      map (\<lambda>t. (te_source t, te_effectiveAt t)) (pv_targets pv) =
        map (\<lambda>i. (ri_source i, pv_effectiveAt pv)) (renew_items x) \<and>
      pv_reservations pv = map (\<lambda>i. (ri_source i, pv_effectiveAt pv)) (renew_items x) \<and>
      (pv_agreement pv = None \<longleftrightarrow> pv_renewCount pv = 0))"
proof (intro conjI impI)
  let ?d = "preview_effectiveAt now_time x"
  assume asm: "(\<exists>i \<in> set (rp_items x). ri_decision i = RENEW \<and> ri_target i = None) \<and> ?d \<noteq> None"
  then obtain i where i: "i \<in> set (renew_items x)" "ri_target i = None" by (auto simp: renew_items_def)
  have "map_result (target_entry x ?d) (renew_items x) = Inl TypeError"
    using i asm by (intro map_result_fails [of i])
      (auto simp: target_entry_def isoDate_def toDateOnly_def split: option.splits)
  then show "buildRenewalPreview sha256 now_time x = Inl TypeError" by (simp add: buildRenewalPreview_def Let_def)
next
  assume pv: "buildRenewalPreview sha256 now_time x = Inr pv"
  note parts = preview_parts [OF pv]
  have "list_all2 (\<lambda>i t. ri_target i \<noteq> None \<and> (te_source t, te_effectiveAt t) = (ri_source i, pv_effectiveAt pv))
      (renew_items x) (pv_targets pv)"
    by (rule list_all2_mono [OF parts(1)]) (use parts(3) in \<open>auto dest!: target_entry_simps\<close>)
  note rows = list_all2_rows [OF this]
  have target: "\<forall>i \<in> set (rp_items x). ri_decision i = RENEW \<longrightarrow> ri_target i \<noteq> None"
    using rows by (auto simp: renew_items_def)
  show "(s, TARGET_REQUIRED) \<notin> set (pv_blockers pv)"
    using target blockers_loop_target by (fastforce simp: parts(4) preview_blockers_def)
  show "pv_blockers pv = [] \<longleftrightarrow> rp_items x \<noteq> [] \<and> distinct (map ri_source (rp_items x)) \<and>
      (\<forall>i \<in> set (rp_items x). sourcesById (rp_sources x) (ri_source i) \<noteq> None \<and> (ri_decision i \<noteq> RENEW \<longrightarrow> ri_target i = None))"
    using target by (auto simp: parts(4) preview_blockers_def blockers_loop_Nil)
  show "pv_renewCount pv + pv_pendingCount pv + pv_nonRenewalCount pv = length (rp_items x)"
    using decisions_partition by (simp add: parts renew_items_def)
  show "map (\<lambda>t. (te_source t, te_effectiveAt t)) (pv_targets pv) = map (\<lambda>i. (ri_source i, pv_effectiveAt pv)) (renew_items x)"
    using rows by blast
  show "pv_reservations pv = map (\<lambda>i. (ri_source i, pv_effectiveAt pv)) (renew_items x)" by (rule parts(2))
  show "pv_agreement pv = None \<longleftrightarrow> pv_renewCount pv = 0" by (simp add: parts)
qed

lemma renewal_preview_result_witness:
  "buildRenewalPreview (take 64) 0 (sample_preview\<lparr>rp_items := [sample_item\<lparr>ri_target := None\<rparr>]\<rparr>) = Inl TypeError"
proof -
  let ?x = "sample_preview\<lparr>rp_items := [sample_item\<lparr>ri_target := None\<rparr>]\<rparr>"
  have "preview_effectiveAt 0 ?x \<noteq> None"
    by (simp add: preview_effectiveAt_def source_dates_def List.map_filter_def sourcesById_def sample_preview_def
        sample_item_def sample_source_def calculateRenewalEffectiveAt_def Let_def addDays_def toDateOnly_def)
  then have "(\<exists>i \<in> set (rp_items ?x). ri_decision i = RENEW \<and> ri_target i = None) \<and> preview_effectiveAt 0 ?x \<noteq> None"
    by (simp add: sample_item_def)
  then show ?thesis by (rule renewal_preview_result [THEN conjunct1, THEN mp])
qed

text \<open>The list of the sources is used as a set.\<close>

lemma sourcesById_perm:
  assumes "mset xs = mset ys" "distinct (map rs_id xs)"
  shows "sourcesById xs = sourcesById ys"
proof -
  have "distinct (map rs_id ys)" using assms by (metis distinct_map mset_eq_imp_distinct_iff mset_eq_setD)
  moreover have "set xs = set ys" using assms(1) by (rule mset_eq_setD)
  ultimately show ?thesis unfolding sourcesById_def
    using assms(2) by (intro map_of_inject_set [THEN iffD2]) (simp_all add: rev_map [symmetric] o_def)
qed

lemma sourceVersion_perm:
  assumes "mset xs = mset ys"
  shows "buildRenewalSourceVersion sha256 xs = buildRenewalSourceVersion sha256 ys"
proof (cases "\<exists>s \<in> set xs. rs_updatedAt s = None")
  case True
  then obtain s where s: "s \<in> set xs" "s \<in> set ys" "source_stamp s = Inl RangeError"
    using mset_eq_setD [OF assms] by (auto simp: source_stamp_def)
  have "\<forall>y e'. source_stamp y = Inl e' \<longrightarrow> e' = RangeError" by (auto simp: source_stamp_def split: option.splits)
  then show ?thesis
    using s map_result_fails [of s _ source_stamp RangeError] by (simp add: buildRenewalSourceVersion_def)
next
  case False
  let ?stamp = "\<lambda>s. rs_id s @ '':'' @ iso_string (the (rs_updatedAt s))"
  have stamps: "map_result source_stamp zs = Inr (map ?stamp zs)" if "set zs = set xs" for zs
    using False that by (intro map_result_map) (auto simp: source_stamp_def)
  have "sort (map ?stamp xs) = sort (map ?stamp ys)"
    by (rule properties_for_sort) (simp_all add: assms)
  then show ?thesis
    using stamps [of xs] stamps [of ys] mset_eq_setD [OF assms] by (simp add: buildRenewalSourceVersion_def)
qed

text \<open>
  The preview, hashes and errors included, does not depend on the order in which the
  source enrolments were loaded.
\<close>

theorem renewal_preview_source_order:
  assumes "mset (rp_sources x) = mset sources" "distinct (map rs_id (rp_sources x))"
  shows "buildRenewalPreview sha256 now_time (x\<lparr>rp_sources := sources\<rparr>) = buildRenewalPreview sha256 now_time x"
proof -
  let ?y = "x\<lparr>rp_sources := sources\<rparr>"
  have byId: "sourcesById sources = sourcesById (rp_sources x)"
    using sourcesById_perm [OF assms] by simp
  have version: "buildRenewalSourceVersion sha256 (filter P sources) = buildRenewalSourceVersion sha256 (filter P (rp_sources x))" for P
    using assms(1) by (intro sourceVersion_perm) simp
  have loop: "blockers_loop sources seen is = blockers_loop (rp_sources x) seen is" for seen "is"
    by (induction "is" arbitrary: seen) (simp_all add: item_blockers_def byId)
  have same: "renew_items ?y = renew_items x" "source_dates ?y = source_dates x" "source_amount ?y = source_amount x"
    by (simp_all add: renew_items_def source_dates_def source_amount_def byId fun_eq_iff)
  have eff: "preview_effectiveAt now_time ?y = preview_effectiveAt now_time x"
    by (simp add: preview_effectiveAt_def same)
  have entry: "target_entry ?y = target_entry x"
    by (intro ext) (unfold target_entry_def same, rule refl)
  have totals: "preview_monthlyTotal ?y = preview_monthlyTotal x" "preview_feeTotal ?y = preview_feeTotal x"
    "preview_firstDueDate ?y = preview_firstDueDate x" "preview_blockers ?y = preview_blockers x"
    "preview_warnings ?y = preview_warnings x"
    by (unfold preview_monthlyTotal_def preview_feeTotal_def preview_firstDueDate_def preview_blockers_def
        preview_warnings_def same; simp add: loop)+
  have snapshot: "preview_snapshot ?y = preview_snapshot x"
    by (intro ext) (unfold preview_snapshot_def totals, simp)
  have fields: "rp_items ?y = rp_items x" "rp_sources ?y = sources" by simp_all
  show ?thesis
    by (unfold buildRenewalPreview_def Let_def eff totals entry snapshot same fields version) (rule refl)
qed

text \<open>Two sources, in both orders.\<close>

lemma renewal_preview_source_order_witness:
  "buildRenewalPreview (take 64) 0
     (sample_preview\<lparr>rp_sources := [sample_source\<lparr>rs_id := ''m2''\<rparr>, sample_source]\<rparr>) =
   buildRenewalPreview (take 64) 0
     (sample_preview\<lparr>rp_sources := [sample_source, sample_source\<lparr>rs_id := ''m2''\<rparr>]\<rparr>)"
  using renewal_preview_source_order [of "sample_preview\<lparr>rp_sources := [sample_source, sample_source\<lparr>rs_id := ''m2''\<rparr>]\<rparr>"
      "[sample_source\<lparr>rs_id := ''m2''\<rparr>, sample_source]" "take 64" 0]
  by (simp add: sample_source_def)

section \<open>The process keeps the contract of a transition table\<close>

interpretation renewal: transition_table renewal_transitions "\<lambda>s. s \<in> {CANCELLED, COMPLETED}"
proof
  show "(s \<in> {CANCELLED, COMPLETED}) = (renewal_transitions s = [])" for s by (cases s) simp_all
qed

lemma renewal_machine:
  "s \<in> {CANCELLED, COMPLETED} \<Longrightarrow> table_reach renewal_transitions s t \<Longrightarrow> t = s"
  "table_reach renewal_transitions EFFECTIVE t \<Longrightarrow> t \<in> {EFFECTIVE, COMPLETED}"
  "canTransitionRenewalProcess s EFFECTIVE \<Longrightarrow> s \<in> {CONFIRMED, WAITING_FOR_START}"
  "canTransitionRenewalProcess s CANCELLED \<longleftrightarrow> s \<notin> {EFFECTIVE, CANCELLED, COMPLETED}"
proof -
  show "s \<in> {CANCELLED, COMPLETED} \<Longrightarrow> table_reach renewal_transitions s t \<Longrightarrow> t = s"
    by (rule renewal.terminal_absorbing)
  show "table_reach renewal_transitions EFFECTIVE t \<Longrightarrow> t \<in> {EFFECTIVE, COMPLETED}"
    using table_reach_closed [of renewal_transitions EFFECTIVE t "{EFFECTIVE, COMPLETED}"] by simp
  show "canTransitionRenewalProcess s EFFECTIVE \<Longrightarrow> s \<in> {CONFIRMED, WAITING_FOR_START}"
    by (cases s) (simp_all add: canTransitionRenewalProcess_def)
  show "canTransitionRenewalProcess s CANCELLED \<longleftrightarrow> s \<notin> {EFFECTIVE, CANCELLED, COMPLETED}"
    by (cases s) (simp_all add: canTransitionRenewalProcess_def)
qed

text \<open>A renewal is activated exactly when nothing holds it back, and reports one financial reason at most.\<close>

lemma renewal_activation:
  "fst (evaluateRenewalActivation x) \<longleftrightarrow>
     (case ra_effectiveDateReached x of Some b \<Rightarrow> b | None \<Rightarrow> date_le (ra_effectiveAt x) (ra_now x)) \<and>
     \<not> ra_sourceOverlaps x \<and> ra_hasFutureEnrollment x \<and> ra_hasReservation x \<and>
     (ra_contractRequired x \<longrightarrow> ra_contractStatus x \<in> {Some CONTRACT_SIGNED_SCHEDULED, Some CONTRACT_ACTIVE}) \<and>
     (ra_financeRequired x \<longrightarrow> ra_financeStatus x = Some FINANCE_ACTIVE) \<and> \<not> ra_hasOpenBlockingPending x"
  "\<not> (FINANCE_NOT_PROVISIONED \<in> set (snd (evaluateRenewalActivation x)) \<and>
      FINANCIAL_PROVISION_FAILED \<in> set (snd (evaluateRenewalActivation x)))"
  by (simp_all add: evaluateRenewalActivation_def activation_blockers_def Let_def)

end
