(* ===== verification/ExternalReference.thy ===== *)
theory ExternalReference
  imports JSString
begin

text \<open>
  \<^verbatim>\<open>packages/finance/src/core/external-reference.ts\<close>: the canonical references the provider stores
  for a charge, subscription, instalment plan, standalone charge or one of their payments; their
  builders, the parser with its legacy formats, and the ownership test of a payment.
\<close>

section \<open>Types\<close>

definition ASAAS_MAX_EXTERNAL_REF_LENGTH :: nat where
  "ASAAS_MAX_EXTERNAL_REF_LENGTH = 100"

datatype ref_type = REF_CHARGE | REF_SUBSCRIPTION | REF_INSTALLMENT | REF_STANDALONE | REF_PAYMENT | REF_UNKNOWN

record ref_ids =
  rid_chargeId :: "string option"
  rid_matriculaId :: "string option"
  rid_planoId :: "string option"
  rid_periodo :: "string option"
  rid_subscriptionId :: "string option"
  rid_installmentPlanId :: "string option"
  rid_asaasPaymentId :: "string option"
  rid_subcontaId :: "string option"

definition no_ids :: ref_ids where
  "no_ids = \<lparr>rid_chargeId = None, rid_matriculaId = None, rid_planoId = None, rid_periodo = None,
     rid_subscriptionId = None, rid_installmentPlanId = None, rid_asaasPaymentId = None, rid_subcontaId = None\<rparr>"

record parsed_ref =
  pr_type :: ref_type
  pr_ids :: ref_ids
  pr_raw :: string
  pr_isV2 :: bool

section \<open>Prefixes and builders\<close>

definition prefix_CHARGE :: string where "prefix_CHARGE = ''alusa:charge:''"
definition prefix_SUBSCRIPTION :: string where "prefix_SUBSCRIPTION = ''alusa:subscription:''"
definition prefix_INSTALLMENT :: string where "prefix_INSTALLMENT = ''alusa:installment:''"
definition prefix_STANDALONE :: string where "prefix_STANDALONE = ''alusa:standalone:''"
definition prefix_LEGACY_SUBSCRIPTION :: string where "prefix_LEGACY_SUBSCRIPTION = ''subscription:''"
definition prefix_LEGACY_INSTALLMENT_PLAN :: string where "prefix_LEGACY_INSTALLMENT_PLAN = ''installmentPlan:''"
definition prefix_LEGACY_STANDALONE_CHARGE :: string where "prefix_LEGACY_STANDALONE_CHARGE = ''standaloneCharge:''"
definition prefix_LEGACY_CHARGE :: string where "prefix_LEGACY_CHARGE = ''charge:''"
definition prefix_LEGACY_STANDALONE :: string where "prefix_LEGACY_STANDALONE = ''standalone:''"

lemmas prefix_defs = prefix_CHARGE_def prefix_SUBSCRIPTION_def prefix_INSTALLMENT_def prefix_STANDALONE_def
  prefix_LEGACY_SUBSCRIPTION_def prefix_LEGACY_INSTALLMENT_PLAN_def prefix_LEGACY_STANDALONE_CHARGE_def
  prefix_LEGACY_CHARGE_def prefix_LEGACY_STANDALONE_def

definition buildChargeExternalReference :: "string \<Rightarrow> string \<Rightarrow> string \<Rightarrow> string" where
  "buildChargeExternalReference matriculaId planoId periodo =
     prefix_CHARGE @ matriculaId @ '':'' @ planoId @ '':'' @ periodo"

definition buildSubscriptionExternalReference :: "string \<Rightarrow> string \<Rightarrow> string" where
  "buildSubscriptionExternalReference matriculaId planoId = prefix_SUBSCRIPTION @ matriculaId @ '':'' @ planoId"

definition buildInstallmentExternalReference :: "string \<Rightarrow> string" where
  "buildInstallmentExternalReference installmentPlanId = prefix_INSTALLMENT @ installmentPlanId"

definition buildStandaloneExternalReference :: "string \<Rightarrow> string" where
  "buildStandaloneExternalReference chargeId = prefix_STANDALONE @ chargeId"

definition buildPaymentExternalReference :: "string \<Rightarrow> string \<Rightarrow> string" where
  "buildPaymentExternalReference parent asaasPaymentId = parent @ '':payment:'' @ asaasPaymentId"

definition buildPaymentReferencePrefix :: "string \<Rightarrow> string" where
  "buildPaymentReferencePrefix parent = parent @ '':payment:''"

definition isPaymentReferenceForParent :: "string option \<Rightarrow> string option \<Rightarrow> bool" where
  "isPaymentReferenceForParent payment parent =
     (if \<not> truthy payment \<or> \<not> truthy parent then False
      else if payment = parent then True
      else starts_with (buildPaymentReferencePrefix (the parent)) (the payment))"

section \<open>The parser\<close>

text \<open>\<^verbatim>\<open>parts[i]\<close> and \<^verbatim>\<open>parts.indexOf('payment')\<close>; the payment id counts only when it is not empty.\<close>

definition part :: "nat \<Rightarrow> string list \<Rightarrow> string option" where
  "part i parts = (if i < length parts then Some (parts ! i) else None)"

fun index_of :: "'a \<Rightarrow> 'a list \<Rightarrow> nat option" where
  "index_of x [] = None"
| "index_of x (y # ys) = (if y = x then Some 0 else map_option Suc (index_of x ys))"

definition payment_suffix :: "string list \<Rightarrow> string option" where
  "payment_suffix parts = (case index_of ''payment'' parts of None \<Rightarrow> None
     | Some i \<Rightarrow> if truthy (part (Suc i) parts) then part (Suc i) parts else None)"

text \<open>\<^verbatim>\<open>parts[i] !== 'payment' ? parts[i] : undefined\<close>\<close>

definition not_payment :: "string option \<Rightarrow> string option" where
  "not_payment p = (if p \<noteq> Some ''payment'' then p else None)"

definition parse_v2_charge :: "string \<Rightarrow> parsed_ref option" where
  "parse_v2_charge raw = (let parts = split_on (CHR '':'') (drop (length prefix_CHARGE) raw) in
     if \<not> starts_with prefix_CHARGE raw \<or> length parts < 3 then None
     else case payment_suffix parts of
         Some pay \<Rightarrow> Some \<lparr>pr_type = REF_PAYMENT, pr_ids = no_ids\<lparr>rid_matriculaId := part 0 parts, rid_planoId := part 1 parts,
           rid_periodo := part 2 parts, rid_subcontaId := not_payment (part 3 parts), rid_asaasPaymentId := Some pay\<rparr>,
           pr_raw = raw, pr_isV2 = True\<rparr>
       | None \<Rightarrow> Some \<lparr>pr_type = REF_CHARGE, pr_ids = no_ids\<lparr>rid_matriculaId := part 0 parts, rid_planoId := part 1 parts,
           rid_periodo := part 2 parts, rid_subcontaId := part 3 parts\<rparr>, pr_raw = raw, pr_isV2 = True\<rparr>)"

definition parse_v2_subscription :: "string \<Rightarrow> parsed_ref option" where
  "parse_v2_subscription raw = (let parts = split_on (CHR '':'') (drop (length prefix_SUBSCRIPTION) raw) in
     if \<not> starts_with prefix_SUBSCRIPTION raw \<or> length parts < 2 then None
     else case payment_suffix parts of
         Some pay \<Rightarrow> Some \<lparr>pr_type = REF_PAYMENT, pr_ids = no_ids\<lparr>rid_matriculaId := part 0 parts, rid_planoId := part 1 parts,
           rid_subcontaId := not_payment (part 2 parts), rid_asaasPaymentId := Some pay\<rparr>, pr_raw = raw, pr_isV2 = True\<rparr>
       | None \<Rightarrow> Some \<lparr>pr_type = REF_SUBSCRIPTION, pr_ids = no_ids\<lparr>rid_matriculaId := part 0 parts, rid_planoId := part 1 parts,
           rid_subcontaId := part 2 parts\<rparr>, pr_raw = raw, pr_isV2 = True\<rparr>)"

definition parse_v2_installment :: "string \<Rightarrow> parsed_ref option" where
  "parse_v2_installment raw = (let parts = split_on (CHR '':'') (drop (length prefix_INSTALLMENT) raw) in
     if \<not> starts_with prefix_INSTALLMENT raw \<or> length parts < 1 then None
     else case payment_suffix parts of
         Some pay \<Rightarrow> Some \<lparr>pr_type = REF_PAYMENT, pr_ids = no_ids\<lparr>rid_installmentPlanId := part 0 parts,
           rid_subcontaId := not_payment (part 1 parts), rid_asaasPaymentId := Some pay\<rparr>, pr_raw = raw, pr_isV2 = True\<rparr>
       | None \<Rightarrow> Some \<lparr>pr_type = REF_INSTALLMENT, pr_ids = no_ids\<lparr>rid_installmentPlanId := part 0 parts,
           rid_subcontaId := part 1 parts\<rparr>, pr_raw = raw, pr_isV2 = True\<rparr>)"

definition parse_v2_standalone :: "string \<Rightarrow> parsed_ref option" where
  "parse_v2_standalone raw = (let parts = split_on (CHR '':'') (drop (length prefix_STANDALONE) raw) in
     if \<not> starts_with prefix_STANDALONE raw \<or> length parts < 1 then None
     else Some \<lparr>pr_type = REF_STANDALONE, pr_ids = no_ids\<lparr>rid_chargeId := part 0 parts, rid_subcontaId := part 1 parts\<rparr>,
       pr_raw = raw, pr_isV2 = True\<rparr>)"

definition parse_v1_subscription :: "string \<Rightarrow> parsed_ref option" where
  "parse_v1_subscription raw = (let parts = split_on (CHR '':'') (drop (length prefix_LEGACY_SUBSCRIPTION) raw) in
     if \<not> starts_with prefix_LEGACY_SUBSCRIPTION raw then None
     else case payment_suffix parts of
         Some pay \<Rightarrow> Some \<lparr>pr_type = REF_PAYMENT, pr_ids = no_ids\<lparr>rid_subscriptionId := part 0 parts,
           rid_asaasPaymentId := Some pay\<rparr>, pr_raw = raw, pr_isV2 = False\<rparr>
       | None \<Rightarrow> Some \<lparr>pr_type = REF_SUBSCRIPTION, pr_ids = no_ids\<lparr>rid_subscriptionId := part 0 parts\<rparr>,
           pr_raw = raw, pr_isV2 = False\<rparr>)"

definition parse_v1_installment :: "string \<Rightarrow> parsed_ref option" where
  "parse_v1_installment raw = (let parts = split_on (CHR '':'') (drop (length prefix_LEGACY_INSTALLMENT_PLAN) raw) in
     if \<not> starts_with prefix_LEGACY_INSTALLMENT_PLAN raw then None
     else case payment_suffix parts of
         Some pay \<Rightarrow> Some \<lparr>pr_type = REF_PAYMENT, pr_ids = no_ids\<lparr>rid_installmentPlanId := part 0 parts,
           rid_asaasPaymentId := Some pay\<rparr>, pr_raw = raw, pr_isV2 = False\<rparr>
       | None \<Rightarrow> Some \<lparr>pr_type = REF_INSTALLMENT, pr_ids = no_ids\<lparr>rid_installmentPlanId := part 0 parts\<rparr>,
           pr_raw = raw, pr_isV2 = False\<rparr>)"

definition parse_v1_whole :: "string \<Rightarrow> ref_type \<Rightarrow> string \<Rightarrow> parsed_ref option" where
  "parse_v1_whole pre type raw = (if \<not> starts_with pre raw then None
     else Some \<lparr>pr_type = type, pr_ids = no_ids\<lparr>rid_chargeId := Some (drop (length pre) raw)\<rparr>,
       pr_raw = raw, pr_isV2 = False\<rparr>)"

text \<open>The first branch of the parser that returns, in the order of the code.\<close>

fun first_match :: "('a \<Rightarrow> 'b option) list \<Rightarrow> 'a \<Rightarrow> 'b option" where
  "first_match [] x = None"
| "first_match (f # fs) x = (case f x of None \<Rightarrow> first_match fs x | Some y \<Rightarrow> Some y)"

definition parseExternalReference :: "string option \<Rightarrow> parsed_ref option" where
  "parseExternalReference ref =
     (if \<not> truthy ref then None
      else let raw = js_trim (the ref) in
        if raw = [] then None
        else case first_match [parse_v2_charge, parse_v2_subscription, parse_v2_installment, parse_v2_standalone,
               parse_v1_subscription, parse_v1_installment,
               parse_v1_whole prefix_LEGACY_STANDALONE_CHARGE REF_STANDALONE,
               parse_v1_whole prefix_LEGACY_CHARGE REF_CHARGE,
               parse_v1_whole prefix_LEGACY_STANDALONE REF_STANDALONE] raw of
            Some p \<Rightarrow> Some p
          | None \<Rightarrow> Some \<lparr>pr_type = REF_UNKNOWN, pr_ids = no_ids, pr_raw = raw, pr_isV2 = False\<rparr>)"

definition isExternalReferenceOfType :: "string option \<Rightarrow> ref_type \<Rightarrow> bool" where
  "isExternalReferenceOfType ref type = (map_option pr_type (parseExternalReference ref) = Some type)"

text \<open>\<^verbatim>\<open>a ?? b\<close>\<close>

definition coalesce :: "'a option \<Rightarrow> 'a option \<Rightarrow> 'a option" where
  "coalesce a b = (case a of None \<Rightarrow> b | Some _ \<Rightarrow> a)"

definition extractPrimaryId :: "string option \<Rightarrow> string option" where
  "extractPrimaryId ref = (case parseExternalReference ref of None \<Rightarrow> None
     | Some p \<Rightarrow> (let ids = pr_ids p in case pr_type p of
           REF_CHARGE \<Rightarrow> coalesce (rid_matriculaId ids) (rid_chargeId ids)
         | REF_SUBSCRIPTION \<Rightarrow> coalesce (rid_subscriptionId ids) (rid_matriculaId ids)
         | REF_INSTALLMENT \<Rightarrow> rid_installmentPlanId ids
         | REF_STANDALONE \<Rightarrow> rid_chargeId ids
         | REF_PAYMENT \<Rightarrow> rid_asaasPaymentId ids
         | REF_UNKNOWN \<Rightarrow> None))"

definition isV2ExternalReference :: "string option \<Rightarrow> bool" where
  "isV2ExternalReference ref = (case parseExternalReference ref of None \<Rightarrow> False | Some p \<Rightarrow> pr_isV2 p)"

section \<open>Round trips\<close>

text \<open>An identifier that fits in a reference: not empty, without colons or space, not the marker.\<close>

definition ref_token :: "string \<Rightarrow> bool" where
  "ref_token s \<longleftrightarrow> s \<noteq> [] \<and> s \<noteq> ''payment'' \<and> (\<forall>c \<in> set s. c \<noteq> CHR '':'' \<and> \<not> js_space c)"

lemma ref_token_simps:
  assumes "ref_token s"
  shows "s \<noteq> []" "s \<noteq> ''payment''" "CHR '':'' \<notin> set s" "\<forall>c \<in> set s. \<not> js_space c"
  using assms by (auto simp: ref_token_def)

lemma prefix_no_space:
  "\<forall>c \<in> set prefix_CHARGE. \<not> js_space c" "\<forall>c \<in> set prefix_SUBSCRIPTION. \<not> js_space c"
  "\<forall>c \<in> set prefix_INSTALLMENT. \<not> js_space c" "\<forall>c \<in> set prefix_STANDALONE. \<not> js_space c"
  "\<forall>c \<in> set '':''. \<not> js_space c" "\<forall>c \<in> set '':payment:''. \<not> js_space c"
  by (simp_all add: prefix_defs js_space_def)

lemma starts_with_prefixes:
  "\<not> starts_with prefix_CHARGE (prefix_SUBSCRIPTION @ s)" "\<not> starts_with prefix_CHARGE (prefix_INSTALLMENT @ s)"
  "\<not> starts_with prefix_CHARGE (prefix_STANDALONE @ s)" "\<not> starts_with prefix_SUBSCRIPTION (prefix_INSTALLMENT @ s)"
  "\<not> starts_with prefix_SUBSCRIPTION (prefix_STANDALONE @ s)" "\<not> starts_with prefix_INSTALLMENT (prefix_STANDALONE @ s)"
  by (simp_all add: prefix_defs)

lemma prefix_not_Nil [simp]:
  "prefix_CHARGE \<noteq> []" "prefix_SUBSCRIPTION \<noteq> []" "prefix_INSTALLMENT \<noteq> []" "prefix_STANDALONE \<noteq> []"
  by (simp_all add: prefix_defs)

lemmas parse_branches = parse_v2_charge_def parse_v2_subscription_def parse_v2_installment_def parse_v2_standalone_def
lemmas builders = buildChargeExternalReference_def buildSubscriptionExternalReference_def
  buildInstallmentExternalReference_def buildStandaloneExternalReference_def buildPaymentExternalReference_def
lemmas part_simps = payment_suffix_def part_def not_payment_def

lemma parse_trimmed:
  assumes "raw \<noteq> []" "\<forall>c \<in> set raw. \<not> js_space c"
    and "first_match [parse_v2_charge, parse_v2_subscription, parse_v2_installment, parse_v2_standalone] raw = Some p"
  shows "parseExternalReference (Some raw) = Some p"
proof -
  have "first_match (fs @ gs) x = Some y" if "first_match fs x = Some y" for fs gs :: "('a \<Rightarrow> 'b option) list" and x y
    using that by (induction fs) (auto split: option.splits)
  from this [OF assms(3)] have "first_match ([parse_v2_charge, parse_v2_subscription, parse_v2_installment, parse_v2_standalone] @ gs) raw = Some p" for gs .
  then show ?thesis
    using assms(1) by (simp add: parseExternalReference_def js_trim_no_space [OF assms(2)] del: first_match.simps)
qed

abbreviation v2_ref :: "ref_type \<Rightarrow> ref_ids \<Rightarrow> string \<Rightarrow> parsed_ref" where
  "v2_ref type ids raw \<equiv> \<lparr>pr_type = type, pr_ids = ids, pr_raw = raw, pr_isV2 = True\<rparr>"

lemmas parse_facts = parse_branches builders part_simps starts_with_prefixes split_on_append split_on_no_separator
  Let_def no_ids_def

lemma parse_built:
  assumes "ref_token m" "ref_token p" "ref_token q"
  shows "parseExternalReference (Some (buildChargeExternalReference m p q)) =
      Some (v2_ref REF_CHARGE (no_ids\<lparr>rid_matriculaId := Some m, rid_planoId := Some p, rid_periodo := Some q\<rparr>) (buildChargeExternalReference m p q))"
    and "parseExternalReference (Some (buildSubscriptionExternalReference m p)) =
      Some (v2_ref REF_SUBSCRIPTION (no_ids\<lparr>rid_matriculaId := Some m, rid_planoId := Some p\<rparr>) (buildSubscriptionExternalReference m p))"
    and "parseExternalReference (Some (buildInstallmentExternalReference m)) =
      Some (v2_ref REF_INSTALLMENT (no_ids\<lparr>rid_installmentPlanId := Some m\<rparr>) (buildInstallmentExternalReference m))"
    and "parseExternalReference (Some (buildStandaloneExternalReference m)) =
      Some (v2_ref REF_STANDALONE (no_ids\<lparr>rid_chargeId := Some m\<rparr>) (buildStandaloneExternalReference m))"
  using ref_token_simps [OF assms(1)] ref_token_simps [OF assms(2)] ref_token_simps [OF assms(3)] prefix_no_space
  by (intro parse_trimmed; simp add: parse_facts ball_Un)+

lemma parse_payment:
  assumes "ref_token m" "ref_token p" "ref_token q" "ref_token pay"
  shows "parseExternalReference (Some (buildPaymentExternalReference (buildChargeExternalReference m p q) pay)) =
      Some (v2_ref REF_PAYMENT (no_ids\<lparr>rid_matriculaId := Some m, rid_planoId := Some p, rid_periodo := Some q, rid_asaasPaymentId := Some pay\<rparr>) (buildPaymentExternalReference (buildChargeExternalReference m p q) pay))"
    and "parseExternalReference (Some (buildPaymentExternalReference (buildSubscriptionExternalReference m p) pay)) =
      Some (v2_ref REF_PAYMENT (no_ids\<lparr>rid_matriculaId := Some m, rid_planoId := Some p, rid_asaasPaymentId := Some pay\<rparr>) (buildPaymentExternalReference (buildSubscriptionExternalReference m p) pay))"
    and "parseExternalReference (Some (buildPaymentExternalReference (buildInstallmentExternalReference m) pay)) =
      Some (v2_ref REF_PAYMENT (no_ids\<lparr>rid_installmentPlanId := Some m, rid_asaasPaymentId := Some pay\<rparr>) (buildPaymentExternalReference (buildInstallmentExternalReference m) pay))"
    and "parseExternalReference (Some (buildPaymentExternalReference (buildStandaloneExternalReference m) pay)) =
      Some (v2_ref REF_STANDALONE (no_ids\<lparr>rid_chargeId := Some m, rid_subcontaId := Some ''payment''\<rparr>) (buildPaymentExternalReference (buildStandaloneExternalReference m) pay))"
  using ref_token_simps [OF assms(1)] ref_token_simps [OF assms(2)] ref_token_simps [OF assms(3)]
    ref_token_simps [OF assms(4)] prefix_no_space
  by (intro parse_trimmed; simp add: parse_facts ball_Un)+

text \<open>
  C31. Round trip of the canonical references. For identifiers without colons and spaces the
  parser recovers from every built reference its type and exactly the identifiers it was built
  from, and from the reference of a payment of a charge, a subscription or an instalment plan
  the payment and its parent. The payments of a standalone charge are the exception: they
  parse as the standalone charge, with the word payment in place of the sub-account, and their
  primary id is the charge. A charge reference fits the limit of the provider exactly while its
  three identifiers have at most 85 characters together; no builder checks it.
\<close>

theorem external_reference_roundtrip:
  assumes "ref_token m" "ref_token p" "ref_token q" "ref_token pay"
  shows "parseExternalReference (Some (buildChargeExternalReference m p q)) =
       Some (v2_ref REF_CHARGE (no_ids\<lparr>rid_matriculaId := Some m, rid_planoId := Some p, rid_periodo := Some q\<rparr>)
         (buildChargeExternalReference m p q)) \<and>
     parseExternalReference (Some (buildSubscriptionExternalReference m p)) =
       Some (v2_ref REF_SUBSCRIPTION (no_ids\<lparr>rid_matriculaId := Some m, rid_planoId := Some p\<rparr>)
         (buildSubscriptionExternalReference m p)) \<and>
     parseExternalReference (Some (buildInstallmentExternalReference m)) =
       Some (v2_ref REF_INSTALLMENT (no_ids\<lparr>rid_installmentPlanId := Some m\<rparr>) (buildInstallmentExternalReference m)) \<and>
     parseExternalReference (Some (buildStandaloneExternalReference m)) =
       Some (v2_ref REF_STANDALONE (no_ids\<lparr>rid_chargeId := Some m\<rparr>) (buildStandaloneExternalReference m)) \<and>
     extractPrimaryId (Some (buildInstallmentExternalReference m)) = Some m \<and>
     extractPrimaryId (Some (buildStandaloneExternalReference m)) = Some m \<and>
     parseExternalReference (Some (buildPaymentExternalReference (buildChargeExternalReference m p q) pay)) =
       Some (v2_ref REF_PAYMENT (no_ids\<lparr>rid_matriculaId := Some m, rid_planoId := Some p, rid_periodo := Some q,
         rid_asaasPaymentId := Some pay\<rparr>) (buildPaymentExternalReference (buildChargeExternalReference m p q) pay)) \<and>
     parseExternalReference (Some (buildPaymentExternalReference (buildSubscriptionExternalReference m p) pay)) =
       Some (v2_ref REF_PAYMENT (no_ids\<lparr>rid_matriculaId := Some m, rid_planoId := Some p, rid_asaasPaymentId := Some pay\<rparr>)
         (buildPaymentExternalReference (buildSubscriptionExternalReference m p) pay)) \<and>
     parseExternalReference (Some (buildPaymentExternalReference (buildInstallmentExternalReference m) pay)) =
       Some (v2_ref REF_PAYMENT (no_ids\<lparr>rid_installmentPlanId := Some m, rid_asaasPaymentId := Some pay\<rparr>)
         (buildPaymentExternalReference (buildInstallmentExternalReference m) pay)) \<and>
     parseExternalReference (Some (buildPaymentExternalReference (buildStandaloneExternalReference m) pay)) =
       Some (v2_ref REF_STANDALONE (no_ids\<lparr>rid_chargeId := Some m, rid_subcontaId := Some ''payment''\<rparr>)
         (buildPaymentExternalReference (buildStandaloneExternalReference m) pay)) \<and>
     extractPrimaryId (Some (buildPaymentExternalReference (buildSubscriptionExternalReference m p) pay)) = Some pay \<and>
     extractPrimaryId (Some (buildPaymentExternalReference (buildInstallmentExternalReference m) pay)) = Some pay \<and>
     isExternalReferenceOfType (Some (buildPaymentExternalReference (buildStandaloneExternalReference m) pay)) REF_STANDALONE \<and>
     extractPrimaryId (Some (buildPaymentExternalReference (buildStandaloneExternalReference m) pay)) = Some m \<and>
     (length (buildChargeExternalReference m p q) \<le> ASAAS_MAX_EXTERNAL_REF_LENGTH \<longleftrightarrow> length m + length p + length q \<le> 85)"
proof -
  have "length (buildChargeExternalReference m p q) \<le> ASAAS_MAX_EXTERNAL_REF_LENGTH \<longleftrightarrow> length m + length p + length q \<le> 85"
    by (auto simp: buildChargeExternalReference_def ASAAS_MAX_EXTERNAL_REF_LENGTH_def prefix_CHARGE_def)
  then show ?thesis
    using parse_built [OF assms(1-3)] parse_payment [OF assms]
    by (simp add: extractPrimaryId_def isExternalReferenceOfType_def no_ids_def)
qed

lemma external_reference_roundtrip_witness:
  "extractPrimaryId (Some ''alusa:installment:ip1:payment:pay9'') = Some ''pay9'' \<and>
   extractPrimaryId (Some ''alusa:standalone:ip1:payment:pay9'') = Some ''ip1''"
proof -
  have "ref_token ''ip1''" "ref_token ''pay9''" by (simp_all add: ref_token_def js_space_def)
  from external_reference_roundtrip [OF this(1) this(1) this(1) this(2)] show ?thesis
    by (simp add: builders prefix_defs)
qed

section \<open>Ownership of a payment\<close>

lemma payment_prefix_split:
  "starts_with (buildPaymentReferencePrefix parent) r \<longleftrightarrow>
     (\<exists>rest. rest \<noteq> [] \<and> split_on (CHR '':'') r = split_on (CHR '':'') parent @ ''payment'' # rest)" (is "?l = ?r")
proof
  assume ?l
  then obtain t where "r = parent @ CHR '':'' # (''payment'' @ CHR '':'' # t)"
    by (auto simp: starts_with_iff buildPaymentReferencePrefix_def)
  then have "split_on (CHR '':'') r = split_on (CHR '':'') parent @ ''payment'' # split_on (CHR '':'') t"
    using split_on_append_split [of "CHR '':''" parent "''payment:'' @ t"] by simp
  then show ?r by (intro exI [of _ "split_on (CHR '':'') t"]) simp
next
  assume ?r
  then obtain rest where rest: "rest \<noteq> []" "split_on (CHR '':'') r = split_on (CHR '':'') parent @ ''payment'' # rest"
    by blast
  then have "r = join_with '':'' (split_on (CHR '':'') parent @ [''payment''] @ rest)"
    using join_split [of "CHR '':''" r] by simp
  also have "\<dots> = parent @ '':'' @ ''payment'' @ '':'' @ join_with '':'' rest"
    using rest(1) by (simp add: join_with_append del: append_Cons append_Nil)
  finally show ?l by (auto simp: starts_with_iff buildPaymentReferencePrefix_def)
qed

text \<open>
  The ownership test of a payment is a test of whole segments: a reference belongs to a parent
  exactly when its segments are those of the parent, or those of the parent followed by the
  marker and something more. So a payment built for a parent belongs to it, and of two different
  parents without the marker (such as all the canonical ones) it belongs to one only, also when
  the one is a prefix of the other.
\<close>

theorem payment_ownership_by_segments:
  assumes "r \<noteq> []" "p \<noteq> []"
  shows "(isPaymentReferenceForParent (Some r) (Some p) \<longleftrightarrow>
       split_on (CHR '':'') r = split_on (CHR '':'') p \<or>
       (\<exists>rest. rest \<noteq> [] \<and> split_on (CHR '':'') r = split_on (CHR '':'') p @ ''payment'' # rest)) \<and>
     isPaymentReferenceForParent (Some (buildPaymentExternalReference p pay)) (Some p) \<and>
     (''payment'' \<notin> set (split_on (CHR '':'') p) \<and> ''payment'' \<notin> set (split_on (CHR '':'') p') \<and>
        isPaymentReferenceForParent (Some (buildPaymentExternalReference p pay)) (Some p') \<longrightarrow> p = p')"
proof (intro conjI impI)
  have owns: "isPaymentReferenceForParent (Some s) (Some p) \<longleftrightarrow> split_on (CHR '':'') s = split_on (CHR '':'') p \<or>
       (\<exists>rest. rest \<noteq> [] \<and> split_on (CHR '':'') s = split_on (CHR '':'') p @ ''payment'' # rest)"
    if "s \<noteq> []" "p \<noteq> []" for s p
    using that by (simp add: isPaymentReferenceForParent_def payment_prefix_split split_on_inject)
  then show "isPaymentReferenceForParent (Some r) (Some p) \<longleftrightarrow>
       split_on (CHR '':'') r = split_on (CHR '':'') p \<or>
       (\<exists>rest. rest \<noteq> [] \<and> split_on (CHR '':'') r = split_on (CHR '':'') p @ ''payment'' # rest)"
    using assms by blast
  have split_pay: "split_on (CHR '':'') (buildPaymentExternalReference p pay) =
      split_on (CHR '':'') p @ ''payment'' # split_on (CHR '':'') pay"
    using split_on_append_split [of "CHR '':''" p "''payment:'' @ pay"]
    by (simp add: buildPaymentExternalReference_def)
  have nonempty: "buildPaymentExternalReference p pay \<noteq> []" by (simp add: buildPaymentExternalReference_def)
  show "isPaymentReferenceForParent (Some (buildPaymentExternalReference p pay)) (Some p)"
    unfolding owns [OF nonempty assms(2)] split_pay by simp
  assume asm: "''payment'' \<notin> set (split_on (CHR '':'') p) \<and> ''payment'' \<notin> set (split_on (CHR '':'') p') \<and>
        isPaymentReferenceForParent (Some (buildPaymentExternalReference p pay)) (Some p')"
  then have "p' \<noteq> []" by (auto simp: isPaymentReferenceForParent_def)
  from asm owns [OF nonempty this] obtain rest where
    "split_on (CHR '':'') p @ ''payment'' # split_on (CHR '':'') pay = split_on (CHR '':'') p' @ ''payment'' # rest"
    unfolding split_pay by (metis in_set_conv_decomp)
  from marker_inject [OF this] asm have "split_on (CHR '':'') p = split_on (CHR '':'') p'" by blast
  then show "p = p'" by (simp add: split_on_inject)
qed

lemma payment_ownership_by_segments_witness:
  "isPaymentReferenceForParent (Some ''alusa:installment:A:payment:p1'') (Some ''alusa:installment:A'') \<and>
   \<not> isPaymentReferenceForParent (Some ''alusa:installment:AB:payment:p1'') (Some ''alusa:installment:A'')"
  using payment_ownership_by_segments [of "''x''" "''alusa:installment:A''" "''p1''" "''x''"]
    payment_ownership_by_segments [of "''alusa:installment:AB:payment:p1''" "''alusa:installment:A''" "[]" "''x''"]
  by (simp add: buildPaymentExternalReference_def)

end
