(* ===== verification/PaymentPolicy.thy ===== *)
theory PaymentPolicy
  imports Prelude
begin

text \<open>
  \<^verbatim>\<open>packages/finance/src/policies/payment-action-policy.ts\<close>: which actions the user may take on a
  charge, from its local status, the status of the provider, and the provider's availability.
  The texts of the reasons are left out; codes are kept, and each hint is named by a constructor.
\<close>

section \<open>Types\<close>

datatype policy_entity = POLICY_COBRANCA | POLICY_CHARGE

datatype payment_origin = ORIGIN_ACADEMIC | ORIGIN_STANDALONE | ORIGIN_INSTALLMENT | ORIGIN_SUBSCRIPTION
  | ORIGIN_EVENT | ORIGIN_STORE | ORIGIN_ENROLLMENT_FEE

datatype policy_action = VIEW_INVOICE | EDIT | CANCEL | REFUND | PARTIAL_REFUND | UNDO_CASH_PAYMENT
  | RESEND_NOTIFICATION | SYNC_WITH_ASAAS | CHANGE_PAYER | CHANGE_PAYMENT_METHOD

datatype policy_code = ASAAS_DISABLED | MISSING_ASAAS_PAYMENT_ID
  | EDIT_NOT_ALLOWED_FOR_TERMINAL_CHARGE | EDIT_NOT_ALLOWED_FOR_ASAAS_STATUS | EDIT_NOT_ALLOWED_FOR_LOCAL_STATUS
  | CANCEL_NOT_ALLOWED_FOR_PAID_CHARGE | CANCEL_NOT_ALLOWED_FOR_TERMINAL_CHARGE
  | CANCEL_NOT_ALLOWED_FOR_ASAAS_STATUS | CANCEL_NOT_ALLOWED_FOR_LOCAL_STATUS
  | REFUND_NOT_ALLOWED_FOR_CASH_PAYMENT | REFUND_NOT_ALLOWED_FOR_ASAAS_STATUS
  | REFUND_NOT_ALLOWED_FOR_LOCAL_STATUS | REFUND_NOT_ALLOWED_FOR_TERMINAL_ASAAS_STATUS
  | NO_REFUNDABLE_BALANCE | UNDO_CASH_PAYMENT_NOT_ALLOWED | MISSING_INVOICE_ACCESS
  | RESEND_NOTIFICATION_NOT_ALLOWED | SYNC_NOT_AVAILABLE_WITHOUT_ASAAS_PAYMENT | CHANGE_PAYER_NOT_ALLOWED

datatype policy_hint = HINT_ONLY_THIS_INSTALLMENT | HINT_ONLY_THIS_CHARGE | HINT_OPEN_CHARGES_ONLY
  | HINT_CANCEL_OPEN_ONLY | HINT_CASH_NOT_IN_BALANCE | HINT_PIX_REFUNDS | HINT_CHECK_BALANCE | HINT_NEW_CHARGE

datatype policy_decision = Allowed "policy_hint option" | Blocked policy_code "policy_hint option"

definition decision_allowed :: "policy_decision \<Rightarrow> bool" where
  "decision_allowed d = (case d of Allowed _ \<Rightarrow> True | Blocked _ _ \<Rightarrow> False)"

record policy_input =
  pi_entityType :: policy_entity
  pi_origin :: payment_origin
  pi_localStatus :: "string option"
  pi_asaasStatus :: "string option"
  pi_billingType :: "string option"
  pi_hasAsaasPaymentId :: "bool option"
  pi_hasInvoiceUrl :: "bool option"
  pi_wasReceivedInCash :: "bool option"
  pi_isInstallmentPayment :: "bool option"
  pi_isSubscriptionPayment :: "bool option"
  pi_isFirstInstallment :: "bool option"
  pi_isLastInstallment :: "bool option"
  pi_refundedValue :: "jsnum option"
  pi_paymentValue :: "jsnum option"
  pi_isAsaasEnabled :: "bool option"

section \<open>Status sets\<close>

definition LOCAL_EDITABLE_STATUSES :: "string set" where
  "LOCAL_EDITABLE_STATUSES = {''PENDENTE'', ''A_VENCER'', ''ATRASADO'', ''CREATED'', ''OPEN'', ''OVERDUE''}"

definition LOCAL_CANCELABLE_STATUSES :: "string set" where
  "LOCAL_CANCELABLE_STATUSES = LOCAL_EDITABLE_STATUSES"

definition LOCAL_PAID_STATUSES :: "string set" where
  "LOCAL_PAID_STATUSES = {''PAGO'', ''PAID''}"

definition LOCAL_TERMINAL_STATUSES :: "string set" where
  "LOCAL_TERMINAL_STATUSES = {''CANCELADO'', ''CANCELED'', ''ESTORNADO'', ''REFUNDED'', ''ESTORNADO_PARCIAL''}"

definition ASAAS_EDITABLE_STATUSES :: "string set" where
  "ASAAS_EDITABLE_STATUSES = {''PENDING'', ''OVERDUE''}"

definition ASAAS_REFUNDABLE_STATUSES :: "string set" where
  "ASAAS_REFUNDABLE_STATUSES = {''RECEIVED'', ''CONFIRMED''}"

definition ASAAS_CASH_STATUS :: string where
  "ASAAS_CASH_STATUS = ''RECEIVED_IN_CASH''"

definition ASAAS_TERMINAL_STATUSES :: "string set" where
  "ASAAS_TERMINAL_STATUSES = {''DELETED'', ''REFUNDED'', ''REFUND_IN_PROGRESS'', ''REFUND_REQUESTED'',
     ''CHARGEBACK_REQUESTED'', ''CHARGEBACK_DISPUTE'', ''AWAITING_CHARGEBACK_REVERSAL''}"

lemmas policy_sets = LOCAL_EDITABLE_STATUSES_def LOCAL_CANCELABLE_STATUSES_def LOCAL_PAID_STATUSES_def
  LOCAL_TERMINAL_STATUSES_def ASAAS_EDITABLE_STATUSES_def ASAAS_REFUNDABLE_STATUSES_def ASAAS_CASH_STATUS_def
  ASAAS_TERMINAL_STATUSES_def

section \<open>Decisions\<close>

text \<open>\<^verbatim>\<open>input.flag\<close> in a condition: absent is false. \<^verbatim>\<open>status ?? ''\<close> for a normalized status.\<close>

definition flag :: "bool option \<Rightarrow> bool" where
  "flag b = (b = Some True)"

definition or_empty :: "string option \<Rightarrow> string" where
  "or_empty s = (case s of None \<Rightarrow> [] | Some t \<Rightarrow> t)"

definition add_hint :: "policy_hint \<Rightarrow> policy_decision \<Rightarrow> policy_decision" where
  "add_hint h d = (case d of Allowed None \<Rightarrow> Allowed (Some h) | _ \<Rightarrow> d)"

definition withInstallmentHint :: "policy_input \<Rightarrow> policy_decision \<Rightarrow> policy_decision" where
  "withInstallmentHint i d =
     (if \<not> decision_allowed d \<or> \<not> flag (pi_isInstallmentPayment i) then d else add_hint HINT_ONLY_THIS_INSTALLMENT d)"

definition withSubscriptionHint :: "policy_input \<Rightarrow> policy_decision \<Rightarrow> policy_decision" where
  "withSubscriptionHint i d =
     (if \<not> decision_allowed d \<or> \<not> flag (pi_isSubscriptionPayment i) then d else add_hint HINT_ONLY_THIS_CHARGE d)"

definition canUseAsaas :: "policy_input \<Rightarrow> policy_decision" where
  "canUseAsaas i =
     (if pi_isAsaasEnabled i = Some False then Blocked ASAAS_DISABLED None
      else if \<not> flag (pi_hasAsaasPaymentId i) then Blocked MISSING_ASAAS_PAYMENT_ID None else Allowed None)"

definition resolveEdit :: "policy_input \<Rightarrow> string option \<Rightarrow> string option \<Rightarrow> policy_decision" where
  "resolveEdit i localStatus asaas =
     (if or_empty localStatus \<in> LOCAL_TERMINAL_STATUSES then Blocked EDIT_NOT_ALLOWED_FOR_TERMINAL_CHARGE None
      else if truthy asaas \<and> the asaas \<notin> ASAAS_EDITABLE_STATUSES
      then Blocked EDIT_NOT_ALLOWED_FOR_ASAAS_STATUS (Some HINT_OPEN_CHARGES_ONLY)
      else if \<not> truthy asaas \<and> truthy localStatus \<and> the localStatus \<notin> LOCAL_EDITABLE_STATUSES
      then Blocked EDIT_NOT_ALLOWED_FOR_LOCAL_STATUS None
      else let available = canUseAsaas i in
        if \<not> decision_allowed available \<and> flag (pi_hasAsaasPaymentId i) then available
        else withSubscriptionHint i (withInstallmentHint i (Allowed None)))"

definition resolveCancel :: "policy_input \<Rightarrow> string option \<Rightarrow> string option \<Rightarrow> policy_decision" where
  "resolveCancel i localStatus asaas =
     (if or_empty localStatus \<in> LOCAL_PAID_STATUSES then Blocked CANCEL_NOT_ALLOWED_FOR_PAID_CHARGE None
      else if or_empty localStatus \<in> LOCAL_TERMINAL_STATUSES then Blocked CANCEL_NOT_ALLOWED_FOR_TERMINAL_CHARGE None
      else if truthy asaas \<and> the asaas \<notin> ASAAS_EDITABLE_STATUSES
      then Blocked CANCEL_NOT_ALLOWED_FOR_ASAAS_STATUS (Some HINT_CANCEL_OPEN_ONLY)
      else if \<not> truthy asaas \<and> truthy localStatus \<and> the localStatus \<notin> LOCAL_CANCELABLE_STATUSES
      then Blocked CANCEL_NOT_ALLOWED_FOR_LOCAL_STATUS None
      else let available = canUseAsaas i in
        if \<not> decision_allowed available then available
        else withSubscriptionHint i (withInstallmentHint i (Allowed None)))"

definition resolveRefund :: "policy_input \<Rightarrow> string option \<Rightarrow> string option \<Rightarrow> policy_decision" where
  "resolveRefund i localStatus asaas = (let available = canUseAsaas i in
     if \<not> decision_allowed available then available
     else if flag (pi_wasReceivedInCash i) \<or> asaas = Some ASAAS_CASH_STATUS
     then Blocked REFUND_NOT_ALLOWED_FOR_CASH_PAYMENT (Some HINT_CASH_NOT_IN_BALANCE)
     else if truthy asaas \<and> the asaas \<notin> ASAAS_REFUNDABLE_STATUSES then Blocked REFUND_NOT_ALLOWED_FOR_ASAAS_STATUS None
     else if \<not> truthy asaas \<and> or_empty localStatus \<notin> LOCAL_PAID_STATUSES
     then Blocked REFUND_NOT_ALLOWED_FOR_LOCAL_STATUS None
     else if truthy asaas \<and> the asaas \<in> ASAAS_TERMINAL_STATUSES
     then Blocked REFUND_NOT_ALLOWED_FOR_TERMINAL_ASAAS_STATUS None
     else Allowed None)"

definition resolvePartialRefund :: "policy_input \<Rightarrow> policy_decision \<Rightarrow> policy_decision" where
  "resolvePartialRefund i refund =
     (if \<not> decision_allowed refund then refund
      else let refunded = (case pi_refundedValue i of None \<Rightarrow> Fin 0 | Some v \<Rightarrow> v) in
        if pi_paymentValue i \<noteq> None \<and> num_le (the (pi_paymentValue i)) refunded then Blocked NO_REFUNDABLE_BALANCE None
        else if trim_upper (pi_billingType i) = Some ''PIX'' then Allowed (Some HINT_PIX_REFUNDS)
        else Allowed (Some HINT_CHECK_BALANCE))"

definition resolveUndoCash :: "policy_input \<Rightarrow> string option \<Rightarrow> policy_decision" where
  "resolveUndoCash i asaas = (let available = canUseAsaas i in
     if \<not> decision_allowed available then available
     else if flag (pi_wasReceivedInCash i) \<or> asaas = Some ASAAS_CASH_STATUS then Allowed None
     else Blocked UNDO_CASH_PAYMENT_NOT_ALLOWED None)"

section \<open>The policy\<close>

text \<open>\<^verbatim>\<open>Object.keys(actions)\<close>, in the order of the literal.\<close>

definition policy_actions :: "policy_action list" where
  "policy_actions = [VIEW_INVOICE, EDIT, CANCEL, REFUND, PARTIAL_REFUND, UNDO_CASH_PAYMENT, RESEND_NOTIFICATION,
     SYNC_WITH_ASAAS, CHANGE_PAYER, CHANGE_PAYMENT_METHOD]"

text \<open>The decision of each action; \<^verbatim>\<open>hasAsaasPaymentId\<close> is defaulted to false before the checks.\<close>

definition policy_decisions :: "policy_input \<Rightarrow> policy_action \<Rightarrow> policy_decision" where
  "policy_decisions i action =
     (let localStatus = trim_upper (pi_localStatus i); asaas = trim_upper (pi_asaasStatus i);
          hasId = (case pi_hasAsaasPaymentId i of None \<Rightarrow> False | Some b \<Rightarrow> b);
          hasUrl = (case pi_hasInvoiceUrl i of None \<Rightarrow> False | Some b \<Rightarrow> b);
          j = i\<lparr>pi_hasAsaasPaymentId := Some hasId\<rparr>;
          edit = resolveEdit j localStatus asaas;
          refund = resolveRefund j localStatus asaas
      in case action of
           VIEW_INVOICE \<Rightarrow> if hasId \<or> hasUrl then Allowed None else Blocked MISSING_INVOICE_ACCESS None
         | EDIT \<Rightarrow> edit
         | CANCEL \<Rightarrow> resolveCancel j localStatus asaas
         | REFUND \<Rightarrow> refund
         | PARTIAL_REFUND \<Rightarrow> resolvePartialRefund i refund
         | UNDO_CASH_PAYMENT \<Rightarrow> resolveUndoCash j asaas
         | RESEND_NOTIFICATION \<Rightarrow>
             if hasId \<and> (if truthy asaas then the asaas \<in> ASAAS_EDITABLE_STATUSES
                         else or_empty localStatus \<in> LOCAL_EDITABLE_STATUSES)
             then Allowed None else Blocked RESEND_NOTIFICATION_NOT_ALLOWED None
         | SYNC_WITH_ASAAS \<Rightarrow> if hasId then Allowed None else Blocked SYNC_NOT_AVAILABLE_WITHOUT_ASAAS_PAYMENT None
         | CHANGE_PAYER \<Rightarrow> Blocked CHANGE_PAYER_NOT_ALLOWED (Some HINT_NEW_CHARGE)
         | CHANGE_PAYMENT_METHOD \<Rightarrow>
             if decision_allowed edit then withSubscriptionHint i (withInstallmentHint i (Allowed None)) else edit)"

record action_policy =
  ap_actions :: "policy_action \<Rightarrow> policy_decision"
  ap_allowedActions :: "policy_action list"
  ap_canViewInvoice :: bool
  ap_canEdit :: bool
  ap_canCancel :: bool
  ap_canRefund :: bool
  ap_canPartialRefund :: bool
  ap_canUndoCashPayment :: bool
  ap_canResendNotification :: bool
  ap_canSyncWithAsaas :: bool
  ap_canChangePayer :: bool
  ap_canChangePaymentMethod :: bool

definition evaluatePaymentActionPolicy :: "policy_input \<Rightarrow> action_policy" where
  "evaluatePaymentActionPolicy i = (let actions = policy_decisions i; ok = (\<lambda>a. decision_allowed (actions a)) in
     \<lparr>ap_actions = actions, ap_allowedActions = filter ok policy_actions,
      ap_canViewInvoice = ok VIEW_INVOICE, ap_canEdit = ok EDIT, ap_canCancel = ok CANCEL, ap_canRefund = ok REFUND,
      ap_canPartialRefund = ok PARTIAL_REFUND, ap_canUndoCashPayment = ok UNDO_CASH_PAYMENT,
      ap_canResendNotification = ok RESEND_NOTIFICATION, ap_canSyncWithAsaas = ok SYNC_WITH_ASAAS,
      ap_canChangePayer = ok CHANGE_PAYER, ap_canChangePaymentMethod = ok CHANGE_PAYMENT_METHOD\<rparr>)"

definition toLegacyChargeActions :: "action_policy \<Rightarrow> policy_action list" where
  "toLegacyChargeActions p = filter (\<lambda>a. a = VIEW_INVOICE \<or> a = EDIT \<or> a = CANCEL \<or> a = REFUND \<or>
     a = UNDO_CASH_PAYMENT \<or> a = RESEND_NOTIFICATION) (ap_allowedActions p)"

section \<open>What each action needs\<close>

text \<open>The declarative conditions, on the normalized statuses.\<close>

abbreviation provider_open :: "policy_input \<Rightarrow> bool" where
  "provider_open i \<equiv> (case trim_upper (pi_asaasStatus i) of Some s \<Rightarrow> s \<in> ASAAS_EDITABLE_STATUSES
     | None \<Rightarrow> (case trim_upper (pi_localStatus i) of None \<Rightarrow> True | Some s \<Rightarrow> s \<in> LOCAL_EDITABLE_STATUSES))"

abbreviation provider_paid :: "policy_input \<Rightarrow> bool" where
  "provider_paid i \<equiv> (case trim_upper (pi_asaasStatus i) of Some s \<Rightarrow> s \<in> ASAAS_REFUNDABLE_STATUSES
     | None \<Rightarrow> or_empty (trim_upper (pi_localStatus i)) \<in> LOCAL_PAID_STATUSES)"

definition remote :: "policy_input \<Rightarrow> bool" where
  "remote i \<longleftrightarrow> flag (pi_hasAsaasPaymentId i) \<and> pi_isAsaasEnabled i \<noteq> Some False"

definition cash :: "policy_input \<Rightarrow> bool" where
  "cash i \<longleftrightarrow> flag (pi_wasReceivedInCash i) \<or> trim_upper (pi_asaasStatus i) = Some ASAAS_CASH_STATUS"

definition local_in :: "string set \<Rightarrow> policy_input \<Rightarrow> bool" where
  "local_in S i \<longleftrightarrow> (\<exists>s \<in> S. trim_upper (pi_localStatus i) = Some s)"

lemma trim_upper_truthy [simp]: "truthy (trim_upper s) \<longleftrightarrow> trim_upper s \<noteq> None"
  by (auto simp: trim_upper_def Let_def split: option.splits)

lemma or_empty_in: "[] \<notin> S \<Longrightarrow> or_empty (trim_upper (pi_localStatus i)) \<in> S \<longleftrightarrow> local_in S i"
  by (auto simp: or_empty_def local_in_def split: option.splits)

lemma hints_allowed [simp]:
  "decision_allowed (Allowed h)" "\<not> decision_allowed (Blocked c h)"
  "decision_allowed (withInstallmentHint i d) = decision_allowed d"
  "decision_allowed (withSubscriptionHint i d) = decision_allowed d"
  by (auto simp: decision_allowed_def withInstallmentHint_def withSubscriptionHint_def add_hint_def
    split: policy_decision.splits option.splits)

lemma canUse_allowed: "decision_allowed (canUseAsaas i) \<longleftrightarrow> remote i"
  by (auto simp: canUseAsaas_def remote_def)

lemma flag_Some [simp]: "flag (Some b) = b"
  by (simp add: flag_def)

lemma has_id_default [simp]:
  "(case b of None \<Rightarrow> False | Some c \<Rightarrow> c) = flag b"
  by (auto simp: flag_def split: option.splits)

lemma remote_default [simp]: "remote (i\<lparr>pi_hasAsaasPaymentId := Some (flag b)\<rparr>) \<longleftrightarrow> flag b \<and> pi_isAsaasEnabled i \<noteq> Some False"
  by (auto simp: remote_def flag_def)

lemma empty_not_status [simp]: "[] \<notin> LOCAL_PAID_STATUSES" "[] \<notin> LOCAL_TERMINAL_STATUSES" "[] \<notin> LOCAL_EDITABLE_STATUSES"
  by (simp_all add: policy_sets)

lemma local_sets_disjoint:
  "local_in LOCAL_PAID_STATUSES i \<Longrightarrow> \<not> local_in LOCAL_TERMINAL_STATUSES i"
  "local_in LOCAL_PAID_STATUSES i \<Longrightarrow> \<not> local_in LOCAL_EDITABLE_STATUSES i"
  "local_in LOCAL_TERMINAL_STATUSES i \<Longrightarrow> \<not> local_in LOCAL_EDITABLE_STATUSES i"
  by (auto simp: local_in_def policy_sets)

lemma asaas_sets_disjoint:
  "s \<in> ASAAS_REFUNDABLE_STATUSES \<Longrightarrow> s \<notin> ASAAS_TERMINAL_STATUSES \<and> s \<notin> ASAAS_EDITABLE_STATUSES \<and> s \<noteq> ASAAS_CASH_STATUS"
  "s \<in> ASAAS_EDITABLE_STATUSES \<Longrightarrow> s \<noteq> ASAAS_CASH_STATUS"
  by (auto simp: policy_sets)

lemma edit_iff:
  "decision_allowed (policy_decisions i EDIT) \<longleftrightarrow>
     \<not> local_in LOCAL_TERMINAL_STATUSES i \<and> provider_open i \<and> (flag (pi_hasAsaasPaymentId i) \<longrightarrow> remote i)"
  by (auto simp: policy_decisions_def Let_def resolveEdit_def or_empty_in canUse_allowed remote_def
      split: option.splits if_splits)

lemma cancel_iff:
  "decision_allowed (policy_decisions i CANCEL) \<longleftrightarrow>
     \<not> local_in LOCAL_PAID_STATUSES i \<and> \<not> local_in LOCAL_TERMINAL_STATUSES i \<and> provider_open i \<and> remote i"
  by (auto simp: policy_decisions_def Let_def resolveCancel_def or_empty_in canUse_allowed remote_def
      LOCAL_CANCELABLE_STATUSES_def split: option.splits if_splits)

lemma refund_iff:
  "decision_allowed (policy_decisions i REFUND) \<longleftrightarrow> remote i \<and> \<not> cash i \<and> provider_paid i"
  using asaas_sets_disjoint(1)
  by (auto simp: policy_decisions_def Let_def resolveRefund_def canUse_allowed remote_def cash_def
      split: option.splits if_splits)

lemma partial_iff:
  "decision_allowed (policy_decisions i PARTIAL_REFUND) \<longleftrightarrow> decision_allowed (policy_decisions i REFUND) \<and>
     (\<forall>v. pi_paymentValue i = Some v \<longrightarrow> \<not> num_le v (case pi_refundedValue i of None \<Rightarrow> Fin 0 | Some r \<Rightarrow> r))"
  by (auto simp: policy_decisions_def Let_def resolvePartialRefund_def split: option.splits if_splits)

lemma undo_iff: "decision_allowed (policy_decisions i UNDO_CASH_PAYMENT) \<longleftrightarrow> remote i \<and> cash i"
  by (auto simp: policy_decisions_def Let_def resolveUndoCash_def canUse_allowed remote_def cash_def split: if_splits)

lemmas policy_iffs = edit_iff cancel_iff refund_iff partial_iff undo_iff

lemma method_iff: "decision_allowed (policy_decisions i CHANGE_PAYMENT_METHOD) \<longleftrightarrow> decision_allowed (policy_decisions i EDIT)"
  by (simp add: policy_decisions_def Let_def)

lemma simple_iffs:
  "decision_allowed (policy_decisions i VIEW_INVOICE) \<longleftrightarrow> flag (pi_hasAsaasPaymentId i) \<or> flag (pi_hasInvoiceUrl i)"
  "decision_allowed (policy_decisions i SYNC_WITH_ASAAS) \<longleftrightarrow> flag (pi_hasAsaasPaymentId i)"
  "\<not> decision_allowed (policy_decisions i CHANGE_PAYER)"
  by (simp_all add: policy_decisions_def Let_def)

lemma resend_iff:
  "decision_allowed (policy_decisions i RESEND_NOTIFICATION) \<longleftrightarrow> flag (pi_hasAsaasPaymentId i) \<and>
     (case trim_upper (pi_asaasStatus i) of Some s \<Rightarrow> s \<in> ASAAS_EDITABLE_STATUSES | None \<Rightarrow> local_in LOCAL_EDITABLE_STATUSES i)"
  by (auto simp: policy_decisions_def Let_def or_empty_in split: option.splits if_splits)

lemma allowed_actions_iff:
  "a \<in> set (ap_allowedActions (evaluatePaymentActionPolicy i)) \<longleftrightarrow> decision_allowed (policy_decisions i a)"
  by (cases a) (simp_all add: evaluatePaymentActionPolicy_def Let_def policy_actions_def)

text \<open>
  C32. The policy never offers contradictory actions. Cancelling and refunding exclude each other, so
  do editing and refunding, and refunding and undoing a receipt in cash; the payer never changes.
  A partial refund needs a refundable charge, cancelling needs an editable one. Nothing that moves
  money is offered without a payment at the provider and an enabled integration, nor is a charge
  that is locally cancelled or refunded edited or cancelled.
\<close>

theorem payment_policy_exclusions:
  fixes i defines "offered \<equiv> \<lambda>a. a \<in> set (ap_allowedActions (evaluatePaymentActionPolicy i))"
  shows "\<not> (offered CANCEL \<and> offered REFUND) \<and> \<not> (offered EDIT \<and> offered REFUND) \<and>
     \<not> (offered REFUND \<and> offered UNDO_CASH_PAYMENT) \<and> \<not> offered CHANGE_PAYER \<and>
     (offered PARTIAL_REFUND \<longrightarrow> offered REFUND) \<and> (offered CANCEL \<longrightarrow> offered EDIT \<and> offered SYNC_WITH_ASAAS) \<and>
     (offered CHANGE_PAYMENT_METHOD \<longleftrightarrow> offered EDIT) \<and>
     (offered CANCEL \<or> offered REFUND \<or> offered UNDO_CASH_PAYMENT \<longrightarrow> remote i) \<and>
     (local_in LOCAL_TERMINAL_STATUSES i \<longrightarrow> \<not> offered EDIT \<and> \<not> offered CANCEL)"
proof -
  have open_not_paid: "provider_open i \<Longrightarrow> \<not> local_in LOCAL_PAID_STATUSES i \<or> trim_upper (pi_asaasStatus i) \<noteq> None"
    by (auto simp: local_in_def policy_sets split: option.splits)
  have exclusive: "\<not> (provider_open i \<and> provider_paid i)"
    using asaas_sets_disjoint(1) open_not_paid by (auto simp: or_empty_in split: option.splits)
  show ?thesis
    unfolding offered_def allowed_actions_iff
    using exclusive by (auto simp: policy_iffs method_iff simple_iffs remote_def)
qed

definition open_charge :: policy_input where
  "open_charge = \<lparr>pi_entityType = POLICY_COBRANCA, pi_origin = ORIGIN_ACADEMIC, pi_localStatus = Some ''PENDENTE'',
     pi_asaasStatus = Some '' pending'', pi_billingType = Some ''PIX'', pi_hasAsaasPaymentId = Some True,
     pi_hasInvoiceUrl = None, pi_wasReceivedInCash = None, pi_isInstallmentPayment = None,
     pi_isSubscriptionPayment = None, pi_isFirstInstallment = None, pi_isLastInstallment = None,
     pi_refundedValue = None, pi_paymentValue = None, pi_isAsaasEnabled = None\<rparr>"

lemma open_charge_statuses:
  "trim_upper (pi_localStatus open_charge) = Some ''PENDENTE''" "trim_upper (pi_asaasStatus open_charge) = Some ''PENDING''"
  by code_simp+

lemma payment_policy_exclusions_witness:
  "CANCEL \<in> set (ap_allowedActions (evaluatePaymentActionPolicy open_charge)) \<and>
   EDIT \<in> set (ap_allowedActions (evaluatePaymentActionPolicy open_charge)) \<and>
   REFUND \<notin> set (ap_allowedActions (evaluatePaymentActionPolicy open_charge))"
proof -
  have "CANCEL \<in> set (ap_allowedActions (evaluatePaymentActionPolicy open_charge))"
    unfolding allowed_actions_iff cancel_iff
    using open_charge_statuses by (simp add: local_in_def policy_sets remote_def flag_def) (simp add: open_charge_def)
  then show ?thesis using payment_policy_exclusions [of open_charge] by blast
qed

text \<open>The flags of the result are the decisions.\<close>

lemma policy_flags:
  "ap_canViewInvoice (evaluatePaymentActionPolicy i) = decision_allowed (policy_decisions i VIEW_INVOICE)"
  "ap_canEdit (evaluatePaymentActionPolicy i) = decision_allowed (policy_decisions i EDIT)"
  "ap_canCancel (evaluatePaymentActionPolicy i) = decision_allowed (policy_decisions i CANCEL)"
  "ap_canRefund (evaluatePaymentActionPolicy i) = decision_allowed (policy_decisions i REFUND)"
  "ap_canPartialRefund (evaluatePaymentActionPolicy i) = decision_allowed (policy_decisions i PARTIAL_REFUND)"
  "ap_canUndoCashPayment (evaluatePaymentActionPolicy i) = decision_allowed (policy_decisions i UNDO_CASH_PAYMENT)"
  "ap_canResendNotification (evaluatePaymentActionPolicy i) = decision_allowed (policy_decisions i RESEND_NOTIFICATION)"
  "ap_canSyncWithAsaas (evaluatePaymentActionPolicy i) = decision_allowed (policy_decisions i SYNC_WITH_ASAAS)"
  "ap_canChangePayer (evaluatePaymentActionPolicy i) = decision_allowed (policy_decisions i CHANGE_PAYER)"
  "ap_canChangePaymentMethod (evaluatePaymentActionPolicy i) = decision_allowed (policy_decisions i CHANGE_PAYMENT_METHOD)"
  "ap_actions (evaluatePaymentActionPolicy i) = policy_decisions i"
  by (simp_all add: evaluatePaymentActionPolicy_def Let_def)

text \<open>
  C33. When exactly each of the ten actions is offered, in terms of the normalized statuses: editing, and
  changing the payment method, need an open provider status (without one, an open local status or
  none) and no terminal local status, and when the charge has a payment at the provider, an
  enabled integration; cancelling needs in addition that the charge is not locally paid and has
  such a payment; a refund needs a provider status of a received payment (without one, a local
  one) that was not received in cash, so the last branch of the refund check, for terminal
  provider statuses, is never taken; a partial refund needs in addition that the value of the
  payment, when it is known, exceeds what was refunded; undoing a receipt needs cash; notifying
  needs a payment at the provider and an open status, viewing the invoice such a payment or a
  link, synchronizing such a payment; the payer is never changed. The list of allowed actions, the
  flags and the legacy list of the result agree with the decisions.
\<close>

theorem payment_policy_exact:
  "(ap_canViewInvoice (evaluatePaymentActionPolicy i) \<longleftrightarrow>
      flag (pi_hasAsaasPaymentId i) \<or> flag (pi_hasInvoiceUrl i)) \<and>
   (ap_canEdit (evaluatePaymentActionPolicy i) \<longleftrightarrow>
      \<not> local_in LOCAL_TERMINAL_STATUSES i \<and> provider_open i \<and> (flag (pi_hasAsaasPaymentId i) \<longrightarrow> remote i)) \<and>
   (ap_canCancel (evaluatePaymentActionPolicy i) \<longleftrightarrow>
      \<not> local_in LOCAL_PAID_STATUSES i \<and> \<not> local_in LOCAL_TERMINAL_STATUSES i \<and> provider_open i \<and> remote i) \<and>
   (ap_canRefund (evaluatePaymentActionPolicy i) \<longleftrightarrow> remote i \<and> \<not> cash i \<and> provider_paid i) \<and>
   (ap_canPartialRefund (evaluatePaymentActionPolicy i) \<longleftrightarrow> (remote i \<and> \<not> cash i \<and> provider_paid i) \<and>
      (\<forall>v. pi_paymentValue i = Some v \<longrightarrow> \<not> num_le v (case pi_refundedValue i of None \<Rightarrow> Fin 0 | Some r \<Rightarrow> r))) \<and>
   (ap_canUndoCashPayment (evaluatePaymentActionPolicy i) \<longleftrightarrow> remote i \<and> cash i) \<and>
   (ap_canResendNotification (evaluatePaymentActionPolicy i) \<longleftrightarrow> flag (pi_hasAsaasPaymentId i) \<and>
      (case trim_upper (pi_asaasStatus i) of Some s \<Rightarrow> s \<in> ASAAS_EDITABLE_STATUSES
       | None \<Rightarrow> local_in LOCAL_EDITABLE_STATUSES i)) \<and>
   (ap_canSyncWithAsaas (evaluatePaymentActionPolicy i) \<longleftrightarrow> flag (pi_hasAsaasPaymentId i)) \<and>
   \<not> ap_canChangePayer (evaluatePaymentActionPolicy i) \<and>
   (ap_canChangePaymentMethod (evaluatePaymentActionPolicy i) \<longleftrightarrow>
      \<not> local_in LOCAL_TERMINAL_STATUSES i \<and> provider_open i \<and> (flag (pi_hasAsaasPaymentId i) \<longrightarrow> remote i)) \<and>
   (a \<in> set (ap_allowedActions (evaluatePaymentActionPolicy i)) \<longleftrightarrow>
      decision_allowed (ap_actions (evaluatePaymentActionPolicy i) a)) \<and>
   ap_actions (evaluatePaymentActionPolicy i) REFUND \<noteq> Blocked REFUND_NOT_ALLOWED_FOR_TERMINAL_ASAAS_STATUS h \<and>
   toLegacyChargeActions (evaluatePaymentActionPolicy i) =
     filter (\<lambda>a. decision_allowed (ap_actions (evaluatePaymentActionPolicy i) a))
       [VIEW_INVOICE, EDIT, CANCEL, REFUND, UNDO_CASH_PAYMENT, RESEND_NOTIFICATION]"
proof -
  have no_terminal: "policy_decisions i REFUND \<noteq> Blocked REFUND_NOT_ALLOWED_FOR_TERMINAL_ASAAS_STATUS h"
    using asaas_sets_disjoint(1)
    by (auto simp: policy_decisions_def Let_def resolveRefund_def canUseAsaas_def split: option.splits)
  have legacy: "toLegacyChargeActions (evaluatePaymentActionPolicy i) =
     filter (\<lambda>a. decision_allowed (policy_decisions i a)) [VIEW_INVOICE, EDIT, CANCEL, REFUND, UNDO_CASH_PAYMENT, RESEND_NOTIFICATION]"
    by (simp add: toLegacyChargeActions_def evaluatePaymentActionPolicy_def Let_def policy_actions_def)
  show ?thesis
    unfolding legacy policy_flags allowed_actions_iff method_iff edit_iff cancel_iff partial_iff refund_iff undo_iff
      resend_iff simple_iffs
    using no_terminal simple_iffs(3) by (intro conjI) (rule refl | assumption)+
qed

lemma payment_policy_exact_witness:
  "ap_canCancel (evaluatePaymentActionPolicy open_charge) \<and> \<not> ap_canRefund (evaluatePaymentActionPolicy open_charge)"
  using payment_policy_exact [of open_charge] open_charge_statuses
  by (simp add: local_in_def policy_sets remote_def flag_def) (simp add: open_charge_def)

end
