(* ===== verification/DecimalMoney.thy ===== *)
theory DecimalMoney
  imports JSNumber
begin

text \<open>
  Amounts in decimal currency units, as most of the code keeps them: the double nearest to a
  whole number of cents. The rounding the code applies after every operation
  (\<^verbatim>\<open>Math.round((v + Number.EPSILON) * 100) / 100\<close>, repeated in several files) recovers the exact
  cents from sums and differences of such doubles, for amounts up to \<open>2 ^ 45\<close> cents. These
  lemmas turn the floating-point code into arithmetic on integers.
\<close>

section \<open>Operations\<close>

fun num_trunc :: "jsnum \<Rightarrow> jsnum" where
  "num_trunc (Fin x) = Fin (of_int (truncate x))"
| "num_trunc x = x"

lemma truncate_of_int [simp]: "truncate (of_int n) = n"
  by (simp add: truncate_def)

definition num_max :: "jsnum \<Rightarrow> jsnum \<Rightarrow> jsnum" where
  "num_max x y = (if x = NaN \<or> y = NaN then NaN else if num_less x y then y else x)"

definition num_min :: "jsnum \<Rightarrow> jsnum \<Rightarrow> jsnum" where
  "num_min x y = (if x = NaN \<or> y = NaN then NaN else if num_less y x then y else x)"

definition round_money :: "jsnum \<Rightarrow> jsnum" where
  "round_money v = num_div (num_round (num_mul (num_add v num_epsilon) (Fin 100))) (Fin 100)"

text \<open>The double of a number of cents.\<close>

definition dec :: "int \<Rightarrow> rat" where
  "dec n = fl (of_int n / 100)"

abbreviation cents :: "int \<Rightarrow> jsnum" where
  "cents n \<equiv> Fin (dec n)"

definition max_cents :: int where
  "max_cents = 2 ^ 45"

section \<open>Absolute rounding errors\<close>

lemma fl_bounded_error:
  assumes "\<bar>x\<bar> \<le> m" "min_normal \<le> m"
  shows "\<bar>fl x - x\<bar> \<le> m / 2 ^ 53"
proof (cases "min_normal \<le> \<bar>x\<bar>")
  case True
  then have "\<bar>fl x - x\<bar> \<le> \<bar>x\<bar> / 2 ^ 53" by (rule fl_relative_error)
  also have "\<dots> \<le> m / 2 ^ 53" using assms(1) by (simp add: divide_right_mono)
  finally show ?thesis .
next
  case False
  show ?thesis
  proof (cases "x = 0")
    case nz: False
    have "ulp_exp x = -1074"
    proof (rule ccontr)
      assume "ulp_exp x \<noteq> -1074"
      then have "2 powi (ulp_exp x + 52) \<le> \<bar>x\<bar>" "-1074 \<le> ulp_exp x"
        using ulp_exp_spec [OF nz] by auto
      moreover from this \<open>ulp_exp x \<noteq> -1074\<close> have "(2::rat) powi (-1022) \<le> 2 powi (ulp_exp x + 52)"
        by (intro powi2_mono) simp
      ultimately show False using False by (simp add: min_normal_def)
    qed
    then have "\<bar>fl x - x\<bar> \<le> 2 powi (-1074) / 2" using fl_error [of x] by simp
    also have "\<dots> = min_normal / 2 ^ 53"
      using powi2_add [of "-1075" 53] powi2_add [of "-1075" 1]
      by (simp add: min_normal_def power_int_def [of _ 53])
    also have "\<dots> \<le> m / 2 ^ 53" using assms(2) by (simp add: divide_right_mono)
    finally show ?thesis .
  qed (use assms in simp)
qed

lemma min_normal_le_1: "min_normal \<le> 1"
  using min_normal_small [of 1] by simp

lemmas intervals = abs_diff_le_iff abs_le_iff abs_less_iff

lemma fl_error_at:
  assumes "\<bar>x\<bar> \<le> 2 ^ k"
  shows "\<bar>fl x - x\<bar> \<le> 2 ^ k / 2 ^ 53"
proof (rule fl_bounded_error [OF assms])
  have "(1::rat) \<le> 2 ^ k" by simp
  then show "min_normal \<le> 2 ^ k" using min_normal_le_1 by linarith
qed

lemma of_exact_at:
  assumes "\<bar>x\<bar> \<le> 2 ^ 60"
  shows "of_exact x = Fin (fl x)"
proof (rule of_exact_finite)
  have "\<bar>fl x - x\<bar> \<le> 2 ^ 7" using fl_error_at [OF assms] by simp
  then show "\<bar>fl x\<bar> \<le> 2 ^ 64" using assms unfolding intervals by (intro conjI; simp)
qed

lemma dec_error:
  assumes "\<bar>n\<bar> \<le> 100 * 2 ^ k"
  shows "\<bar>dec n - of_int n / 100\<bar> \<le> 2 ^ k / 2 ^ 53"
proof -
  have "(of_int \<bar>n\<bar> :: rat) \<le> of_int (100 * 2 ^ k)" using assms by (simp only: of_int_le_iff)
  then have "\<bar>of_int n / 100 :: rat\<bar> \<le> 2 ^ k" by simp
  then show ?thesis unfolding dec_def by (rule fl_error_at)
qed

lemma max_cents_bounds:
  assumes "\<bar>n\<bar> \<le> max_cents"
  shows "\<bar>dec n - of_int n / 100\<bar> \<le> 1 / 2 ^ 14" "\<bar>of_int n :: rat\<bar> \<le> 2 ^ 45"
proof -
  show "\<bar>dec n - of_int n / 100\<bar> \<le> 1 / 2 ^ 14"
    using dec_error [of n 39] assms by (simp add: max_cents_def)
  have "(of_int \<bar>n\<bar> :: rat) \<le> of_int (2 ^ 45)" using assms by (simp only: of_int_le_iff max_cents_def)
  then show "\<bar>of_int n :: rat\<bar> \<le> 2 ^ 45" by simp
qed

section \<open>Rounding to cents\<close>

text \<open>A double within a quarter of a cent of an amount is rounded to it.\<close>

lemma round_money_near:
  assumes near: "\<bar>v - of_int n / 100\<bar> \<le> 1 / 400" and n: "\<bar>n\<bar> \<le> max_cents"
  shows "round_money (Fin v) = cents n"
proof -
  have nb: "\<bar>of_int n :: rat\<bar> \<le> 2 ^ 45" by (rule max_cents_bounds(2) [OF n])
  define t s where "t = v + 1 / 2 ^ 52" and "s = fl t"
  have tb: "\<bar>t\<bar> \<le> 2 ^ 39" using near nb unfolding intervals t_def by (intro conjI; simp; linarith)
  have se: "\<bar>s - t\<bar> \<le> 1 / 2 ^ 14" unfolding s_def using fl_error_at [OF tb] by simp
  have add: "num_add (Fin v) num_epsilon = Fin s"
    unfolding num_epsilon_def num_add.simps s_def t_def [symmetric] using tb by (intro of_exact_at) simp
  have sb: "\<bar>s * 100\<bar> \<le> 2 ^ 46" using tb se unfolding intervals by (intro conjI; simp; linarith)
  have pe: "\<bar>fl (s * 100) - s * 100\<bar> \<le> 1 / 2 ^ 7" using fl_error_at [OF sb] by simp
  have mul: "num_mul (Fin s) (Fin 100) = Fin (fl (s * 100))"
    unfolding num_mul.simps using sb by (intro of_exact_at) simp
  have "\<bar>fl (s * 100) - of_int n\<bar> < 1 / 2"
    using near se pe unfolding intervals t_def by (intro conjI; simp; linarith)
  then have "\<lfloor>fl (s * 100) + 1 / 2\<rfloor> = n" by (intro floor_unique) linarith+
  then have round: "num_round (Fin (fl (s * 100))) = num_int n" by simp
  have "\<bar>of_int n / 100 :: rat\<bar> \<le> 2 ^ 60" using nb by simp
  then have "num_div (num_int n) (Fin 100) = cents n"
    unfolding num_div.simps dec_def by (simp add: of_exact_at)
  then show ?thesis by (simp only: round_money_def add mul round)
qed

lemma round_money_cents: "\<bar>n\<bar> \<le> max_cents \<Longrightarrow> round_money (cents n) = cents n"
  using max_cents_bounds(1) [of n] by (intro round_money_near) simp_all

text \<open>Differences and sums of two amounts.\<close>

lemma cents_add_near:
  assumes "\<bar>a\<bar> \<le> max_cents" "\<bar>b\<bar> \<le> max_cents"
  shows "\<exists>v. num_add (cents a) (cents b) = Fin v \<and> \<bar>v - of_int (a + b) / 100\<bar> \<le> 1 / 400"
proof -
  note A = max_cents_bounds [OF assms(1)] and B = max_cents_bounds [OF assms(2)]
  have b: "\<bar>dec a + dec b\<bar> \<le> 2 ^ 41" using A B unfolding intervals by (intro conjI; simp; linarith)
  have "\<bar>fl (dec a + dec b) - (dec a + dec b)\<bar> \<le> 1 / 2 ^ 12" using fl_error_at [OF b] by simp
  then have "\<bar>fl (dec a + dec b) - of_int (a + b) / 100\<bar> \<le> 1 / 400"
    using A(1) B(1) unfolding intervals by (intro conjI; simp add: add_divide_distrib; linarith)
  moreover have "num_add (cents a) (cents b) = Fin (fl (dec a + dec b))"
    unfolding num_add.simps using b by (intro of_exact_at) simp
  ultimately show ?thesis by blast
qed

lemma cents_sub_near:
  assumes "\<bar>a\<bar> \<le> max_cents" "\<bar>b\<bar> \<le> max_cents"
  shows "\<exists>v. num_sub (cents a) (cents b) = Fin v \<and> \<bar>v - of_int (a - b) / 100\<bar> \<le> 1 / 400"
proof -
  note A = max_cents_bounds [OF assms(1)] and B = max_cents_bounds [OF assms(2)]
  have b: "\<bar>dec a - dec b\<bar> \<le> 2 ^ 41" using A B unfolding intervals by (intro conjI; simp; linarith)
  have "\<bar>fl (dec a - dec b) - (dec a - dec b)\<bar> \<le> 1 / 2 ^ 12" using fl_error_at [OF b] by simp
  then have "\<bar>fl (dec a - dec b) - of_int (a - b) / 100\<bar> \<le> 1 / 400"
    using A(1) B(1) unfolding intervals by (intro conjI; simp add: diff_divide_distrib; linarith)
  moreover have "num_sub (cents a) (cents b) = Fin (fl (dec a - dec b))"
    unfolding num_sub_def num_neg.simps num_add.simps using b by (simp add: of_exact_at)
  ultimately show ?thesis by blast
qed

lemma round_money_add:
  assumes "\<bar>a\<bar> \<le> max_cents" "\<bar>b\<bar> \<le> max_cents" "\<bar>a + b\<bar> \<le> max_cents"
  shows "round_money (num_add (cents a) (cents b)) = cents (a + b)"
  using cents_add_near [OF assms(1,2)] round_money_near assms(3) by metis

lemma round_money_sub:
  assumes "\<bar>a\<bar> \<le> max_cents" "\<bar>b\<bar> \<le> max_cents" "\<bar>a - b\<bar> \<le> max_cents"
  shows "round_money (num_sub (cents a) (cents b)) = cents (a - b)"
  using cents_sub_near [OF assms(1,2)] round_money_near assms(3) by metis

text \<open>Comparisons of amounts are comparisons of cents.\<close>

lemma dec_less:
  assumes "\<bar>a\<bar> \<le> max_cents" "\<bar>b\<bar> \<le> max_cents" "a < b"
  shows "dec a < dec b"
proof -
  have "(of_int (a + 1) :: rat) \<le> of_int b" using assms(3) by (simp only: of_int_le_iff)
  then have "of_int a / 100 + 1 / 100 \<le> (of_int b / 100 :: rat)" by simp
  then show ?thesis
    using max_cents_bounds(1) [OF assms(1)] max_cents_bounds(1) [OF assms(2)]
    unfolding intervals by simp
qed

lemma dec_less_iff:
  assumes "\<bar>a\<bar> \<le> max_cents" "\<bar>b\<bar> \<le> max_cents"
  shows "dec a < dec b \<longleftrightarrow> a < b"
  using dec_less [OF assms] dec_less [OF assms(2,1)] by (cases a b rule: linorder_cases) auto

lemma dec_eq_iff:
  assumes "\<bar>a\<bar> \<le> max_cents" "\<bar>b\<bar> \<le> max_cents"
  shows "dec a = dec b \<longleftrightarrow> a = b"
  using dec_less [OF assms] dec_less [OF assms(2,1)] by (cases a b rule: linorder_cases) auto

lemma dec_0 [simp]: "dec 0 = 0"
  by (simp add: dec_def)

lemma max_cents_0 [simp]: "0 \<le> max_cents" "0 < max_cents"
  by (simp_all add: max_cents_def)

lemma num_less_cents:
  assumes "\<bar>a\<bar> \<le> max_cents" "\<bar>b\<bar> \<le> max_cents"
  shows "num_less (cents a) (cents b) \<longleftrightarrow> a < b" "num_le (cents a) (cents b) \<longleftrightarrow> a \<le> b"
  using dec_less_iff [OF assms] dec_eq_iff [OF assms] by (auto simp: num_le_def)

lemma num_less_cents_0:
  assumes "\<bar>a\<bar> \<le> max_cents"
  shows "num_less (cents a) (Fin 0) \<longleftrightarrow> a < 0" "num_less (Fin 0) (cents a) \<longleftrightarrow> 0 < a"
    "num_le (cents a) (Fin 0) \<longleftrightarrow> a \<le> 0"
  using num_less_cents [OF assms, of 0] num_less_cents [OF _ assms, of 0] by simp_all

lemma num_max_cents:
  assumes "\<bar>a\<bar> \<le> max_cents" "\<bar>b\<bar> \<le> max_cents"
  shows "num_max (cents a) (cents b) = cents (max a b)" "num_min (cents a) (cents b) = cents (min a b)"
  using num_less_cents(1) [OF assms] num_less_cents(1) [OF assms(2,1)]
  by (auto simp: num_max_def num_min_def max_def min_def)

lemma num_max_cents_0:
  assumes "\<bar>a\<bar> \<le> max_cents"
  shows "num_max (cents a) (Fin 0) = cents (max a 0)"
  using num_max_cents(1) [OF assms, of 0] by simp

lemma round_money_0 [simp]: "round_money (Fin 0) = Fin 0"
  using round_money_cents [of 0] by simp

section \<open>Sums of many amounts\<close>

text \<open>
  Adding up to 5,000 amounts of together at most a billion currency units loses less than a
  quarter of a cent, so rounding the total once gives the exact sum.
\<close>

definition near :: "jsnum \<Rightarrow> int \<Rightarrow> nat \<Rightarrow> bool" where
  "near x m j \<longleftrightarrow> (\<exists>v. x = Fin v \<and> \<bar>v - of_int m / 100\<bar> \<le> 3 * of_nat j / 2 ^ 23)"

lemma near_0 [simp]: "near (Fin 0) 0 j"
  by (simp add: near_def)

lemma near_mono: "near x m j \<Longrightarrow> j \<le> k \<Longrightarrow> near x m k"
  by (fastforce simp: near_def intro: order_trans)

lemma near_cents: "\<bar>n\<bar> \<le> 10 ^ 11 \<Longrightarrow> near (cents n) n 1"
  using dec_error [of n 30] by (simp add: near_def)

lemma near_add:
  assumes "near x m j" "\<bar>m\<bar> + \<bar>n\<bar> \<le> 10 ^ 11" "j \<le> 5000"
  shows "near (num_add x (cents n)) (m + n) (Suc j)"
proof -
  obtain s where s: "x = Fin s" "\<bar>s - of_int m / 100\<bar> \<le> 3 * of_nat j / 2 ^ 23" using assms(1) by (auto simp: near_def)
  have ne: "\<bar>dec n - of_int n / 100\<bar> \<le> 1 / 2 ^ 23"
    using dec_error [of n 30] assms(2) by simp
  have jb: "(of_nat j :: rat) \<le> 5000" using assms(3) by simp
  have "(of_int \<bar>n\<bar> :: rat) \<le> of_int (10 ^ 11)" "(of_int \<bar>m\<bar> :: rat) \<le> of_int (10 ^ 11)"
    using assms(2) by (simp_all only: of_int_le_iff)
  then have nb: "\<bar>of_int n :: rat\<bar> \<le> 10 ^ 11" and mb: "\<bar>of_int m :: rat\<bar> \<le> 10 ^ 11" by simp_all
  have b: "\<bar>s + dec n\<bar> \<le> 2 ^ 31" using s(2) ne jb nb mb unfolding intervals by (intro conjI; simp; linarith)
  have fe: "\<bar>fl (s + dec n) - (s + dec n)\<bar> \<le> 1 / 2 ^ 22" using fl_error_at [OF b] by simp
  have add: "num_add x (cents n) = Fin (fl (s + dec n))"
    using b by (simp add: s(1) of_exact_at)
  have "\<bar>fl (s + dec n) - of_int (m + n) / 100\<bar> \<le> 3 * of_nat (Suc j) / 2 ^ 23"
    using s(2) ne fe unfolding intervals by (intro conjI; simp add: add_divide_distrib; linarith)
  then show ?thesis by (simp add: near_def add)
qed

lemma sum_near:
  assumes "near x m j" "sum_list (map abs ns) + \<bar>m\<bar> \<le> 10 ^ 11" "j + length ns \<le> 5000"
  shows "near (foldl num_add x (map cents ns)) (m + sum_list ns) (j + length ns)"
  using assms
proof (induction ns arbitrary: m x j)
  case (Cons n ns)
  have "0 \<le> sum_list (map abs ns)" by (rule sum_list_nonneg) auto
  then have "\<bar>m\<bar> + \<bar>n\<bar> \<le> 10 ^ 11" "sum_list (map abs ns) + \<bar>m + n\<bar> \<le> 10 ^ 11" using Cons.prems(2) by simp_all
  with Cons.IH [OF near_add, of x m j n] Cons.prems show ?case by (simp add: add.assoc)
qed simp

text \<open>A total, or the difference of two totals, of up to 2,500 amounts each is rounded to its cents.\<close>

lemma round_money_total:
  assumes "near x m j" "\<bar>m\<bar> \<le> 10 ^ 11" "j \<le> 5000"
  shows "round_money x = cents m"
proof -
  obtain s where s: "x = Fin s" "\<bar>s - of_int m / 100\<bar> \<le> 3 * of_nat j / 2 ^ 23" using assms(1) by (auto simp: near_def)
  have "(of_nat j :: rat) \<le> 5000" using assms(3) by simp
  then have "\<bar>s - of_int m / 100\<bar> \<le> 1 / 400" using s(2) unfolding intervals by (intro conjI; simp)
  then show ?thesis unfolding s(1) using assms(2) by (intro round_money_near) (simp_all add: max_cents_def)
qed

lemma near_diff:
  assumes "near x m j" "near y n k" "\<bar>m\<bar> + \<bar>n\<bar> \<le> 10 ^ 11" "j + k \<le> 5000"
  shows "near (num_sub x y) (m - n) (Suc (j + k))"
proof -
  obtain s where s: "x = Fin s" "\<bar>s - of_int m / 100\<bar> \<le> 3 * of_nat j / 2 ^ 23" using assms(1) by (auto simp: near_def)
  obtain t where t: "y = Fin t" "\<bar>t - of_int n / 100\<bar> \<le> 3 * of_nat k / 2 ^ 23" using assms(2) by (auto simp: near_def)
  have "(of_nat j + of_nat k :: rat) \<le> 5000" using assms(4) by (metis of_nat_add of_nat_le_iff of_nat_numeral)
  then have jk: "(of_nat j :: rat) \<le> 5000" "(of_nat k :: rat) \<le> 5000" "(0::rat) \<le> of_nat j" "(0::rat) \<le> of_nat k"
    by (simp_all add: add_increasing2 order_trans [rotated])
  have "(of_int \<bar>n\<bar> :: rat) \<le> of_int (10 ^ 11)" "(of_int \<bar>m\<bar> :: rat) \<le> of_int (10 ^ 11)"
    using assms(3) by (simp_all only: of_int_le_iff)
  then have nb: "\<bar>of_int n :: rat\<bar> \<le> 10 ^ 11" and mb: "\<bar>of_int m :: rat\<bar> \<le> 10 ^ 11" by simp_all
  have b: "\<bar>s - t\<bar> \<le> 2 ^ 31" using s(2) t(2) jk nb mb unfolding intervals by (intro conjI; simp; linarith)
  have fe: "\<bar>fl (s - t) - (s - t)\<bar> \<le> 1 / 2 ^ 22" using fl_error_at [OF b] by simp
  have "num_sub x y = Fin (fl (s - t))"
    using b by (simp add: s(1) t(1) num_sub_def of_exact_at)
  moreover have "\<bar>fl (s - t) - of_int (m - n) / 100\<bar> \<le> 3 * of_nat (Suc (j + k)) / 2 ^ 23"
    using s(2) t(2) fe unfolding intervals by (intro conjI; simp add: diff_divide_distrib; linarith)
  ultimately show ?thesis by (simp add: near_def)
qed

lemma near_max:
  assumes "near x m j" "near y n j"
  shows "near (num_max x y) (max m n) j"
proof -
  obtain s where s: "x = Fin s" "\<bar>s - of_int m / 100\<bar> \<le> 3 * of_nat j / 2 ^ 23" using assms(1) by (auto simp: near_def)
  obtain t where t: "y = Fin t" "\<bar>t - of_int n / 100\<bar> \<le> 3 * of_nat j / 2 ^ 23" using assms(2) by (auto simp: near_def)
  have "num_max x y = Fin (max s t)" by (simp add: s(1) t(1) num_max_def max_def)
  moreover have "\<bar>max s t - max u w\<bar> \<le> d" if "\<bar>s - u\<bar> \<le> d" "\<bar>t - w\<bar> \<le> d" for u w d :: rat
    using that unfolding intervals by (auto simp: max_def)
  from this [OF s(2) t(2)] have "\<bar>max s t - of_int (max m n) / 100\<bar> \<le> 3 * of_nat j / 2 ^ 23"
    by (simp only: of_int_max max_divide_distrib_right) simp
  ultimately show ?thesis by (simp add: near_def)
qed

lemma near_keep: "near x m j \<Longrightarrow> near x m (Suc j)"
  by (erule near_mono) simp

lemma near_cents_exact: "\<bar>n\<bar> \<le> 10 ^ 11 \<Longrightarrow> near (cents n) n (Suc j)"
  by (rule near_mono [OF near_cents]) simp_all

lemma round_money_sum:
  assumes "sum_list (map abs ns) \<le> 10 ^ 11" "length ns \<le> 5000"
  shows "round_money (foldl num_add (Fin 0) (map cents ns)) = cents (sum_list ns)"
proof (rule round_money_total)
  show "near (foldl num_add (Fin 0) (map cents ns)) (sum_list ns) (length ns)"
    using sum_near [OF near_0, of ns 0] assms by simp
  show "\<bar>sum_list ns\<bar> \<le> 10 ^ 11" using sum_list_abs [of ns] assms(1) by simp
qed (rule assms(2))

text \<open>Sums of two totals, and an amount times a quantity.\<close>

lemma near_plus:
  assumes "near x m j" "near y n k" "\<bar>m\<bar> + \<bar>n\<bar> \<le> 10 ^ 11" "j + k \<le> 5000"
  shows "near (num_add x y) (m + n) (Suc (j + k))"
proof -
  have neg: "near (num_neg y) (- n) k"
    using assms(2) by (auto simp: near_def abs_minus_commute abs_le_iff)
  obtain t where "y = Fin t" using assms(2) by (auto simp: near_def)
  then have "num_add x y = num_sub x (num_neg y)" by (simp add: num_sub_def)
  then show ?thesis using near_diff [OF assms(1) neg] assms(3,4) by simp
qed

lemma near_mul:
  assumes "0 \<le> a" "0 \<le> q" "a * q \<le> 10 ^ 11"
  shows "near (num_mul (cents a) (num_int q)) (a * q) 1"
proof (cases "a = 0 \<or> q = 0")
  case True
  then have "num_mul (cents a) (num_int q) = Fin 0" by (auto simp: of_exact_at)
  then show ?thesis using True by (auto simp: near_def)
next
  case False
  then have pos: "1 \<le> a" "1 \<le> q" using assms by simp_all
  have "(of_int (a * q) :: rat) \<le> of_int (10 ^ 11)" using assms(3) by (simp only: of_int_le_iff)
  then have p: "of_int a * of_int q / 100 \<le> (10 ^ 9 :: rat)" by simp
  have "(1 :: rat) \<le> of_int a" using pos by simp
  moreover have "min_normal \<le> 1 / 100" using min_normal_small [of 100] by simp
  ultimately have "min_normal \<le> \<bar>of_int a / 100 :: rat\<bar>" by simp
  then have d: "\<bar>dec a - of_int a / 100\<bar> \<le> of_int a / 100 / 2 ^ 53"
    unfolding dec_def using fl_relative_error [of "of_int a / 100"] pos by simp
  have "\<bar>dec a * of_int q - of_int a * of_int q / 100\<bar> = \<bar>(dec a - of_int a / 100) * of_int q\<bar>"
    by (simp add: left_diff_distrib)
  also have "\<dots> = \<bar>dec a - of_int a / 100\<bar> * of_int q" using pos by (simp add: abs_mult)
  also have "\<dots> \<le> of_int a / 100 / 2 ^ 53 * of_int q" using d pos by (intro mult_right_mono) simp_all
  also have "\<dots> = of_int a * of_int q / 100 / 2 ^ 53" by simp
  also have "\<dots> \<le> 1 / 2 ^ 23" using p by simp
  finally have e1: "\<bar>dec a * of_int q - of_int a * of_int q / 100\<bar> \<le> 1 / 2 ^ 23" .
  have "0 \<le> of_int a * (of_int q :: rat) / 100" using pos by simp
  then have b: "\<bar>dec a * of_int q\<bar> \<le> 2 ^ 30" using e1 p unfolding intervals by (intro conjI; simp)
  have "\<bar>fl (dec a * of_int q) - dec a * of_int q\<bar> \<le> 1 / 2 ^ 23" using fl_error_at [OF b] by simp
  then have "\<bar>fl (dec a * of_int q) - of_int (a * q) / 100\<bar> \<le> 3 * of_nat 1 / 2 ^ 23"
    using e1 unfolding intervals by (intro conjI; simp; linarith)
  moreover have "num_mul (cents a) (num_int q) = Fin (fl (dec a * of_int q))"
    unfolding num_mul.simps using b by (intro of_exact_at) simp
  ultimately show ?thesis unfolding near_def by blast
qed

section \<open>Rounding is monotone\<close>

lemma round_half_even_mono: "x \<le> y \<Longrightarrow> round_half_even x \<le> round_half_even y"
proof -
  assume le: "x \<le> y"
  show ?thesis
  proof (cases "\<lfloor>x\<rfloor> = \<lfloor>y\<rfloor>")
    case True
    then show ?thesis using le by (auto simp: round_half_even_def Let_def)
  next
    case False
    then have "\<lfloor>x\<rfloor> + 1 \<le> \<lfloor>y\<rfloor>" using floor_mono [OF le] by linarith
    moreover have "round_half_even x \<le> \<lfloor>x\<rfloor> + 1" "\<lfloor>y\<rfloor> \<le> round_half_even y"
      by (auto simp: round_half_even_def Let_def)
    ultimately show ?thesis by linarith
  qed
qed

lemma fl_mono:
  assumes "0 \<le> x" "x \<le> y"
  shows "fl x \<le> fl y"
proof (cases "x = 0")
  case True
  then show ?thesis using assms fl_nonneg by simp
next
  case False
  then have pos: "0 < x" "0 < y" "x \<noteq> 0" "y \<noteq> 0" "\<bar>x\<bar> = x" "\<bar>y\<bar> = y" using assms by auto
  note X = ulp_exp_spec [OF pos(3), unfolded pos(5)] and Y = ulp_exp_spec [OF pos(4), unfolded pos(6)]
  let ?a = "ulp_exp x" and ?b = "ulp_exp y"
  show ?thesis
  proof (cases "?a = ?b")
    case True
    have "x / 2 powi ?a \<le> y / 2 powi ?a" using assms(2) by (simp add: divide_right_mono)
    then have "(of_int (round_half_even (x / 2 powi ?a)) :: rat) \<le> of_int (round_half_even (y / 2 powi ?a))"
      using round_half_even_mono by (simp only: of_int_le_iff)
    then show ?thesis using pos True by (simp add: fl_def mult_right_mono)
  next
    case False
    have lt: "?a < ?b"
    proof (rule ccontr)
      assume "\<not> ?a < ?b"
      then have ba: "?b + 1 \<le> ?a" using False by simp
      then have "2 powi (?a + 52) \<le> x" using X(2) Y(3) by auto
      moreover have "(2::rat) powi (?b + 53) \<le> 2 powi (?a + 52)" using ba by (intro powi2_mono) simp
      ultimately show False using Y(1) assms(2) by linarith
    qed
    have "2 powi (?b + 52) \<le> y" using Y(2) X(3) lt by auto
    then have "of_int (2 ^ 52) \<le> y / 2 powi ?b" by (simp add: powi2_add power_int_def [of _ 52] pos_le_divide_eq mult.commute)
    then have "2 ^ 52 \<le> round_half_even (y / 2 powi ?b)" by (rule round_half_even_ge)
    then have "(of_int (2 ^ 52) :: rat) \<le> of_int (round_half_even (y / 2 powi ?b))" by (simp only: of_int_le_iff)
    then have "2 ^ 52 * 2 powi ?b \<le> fl y" using pos by (simp add: fl_def mult_right_mono)
    moreover have "x / 2 powi ?a \<le> of_int (2 ^ 53)" using X(1)
      by (simp add: powi2_add power_int_def [of _ 53] pos_divide_le_eq mult.commute)
    then have "round_half_even (x / 2 powi ?a) \<le> 2 ^ 53" using round_half_even_mono round_half_even_of_int by metis
    then have "(of_int (round_half_even (x / 2 powi ?a)) :: rat) \<le> of_int (2 ^ 53)" by (simp only: of_int_le_iff)
    then have "fl x \<le> 2 ^ 53 * 2 powi ?a" using pos by (simp add: fl_def mult_right_mono)
    moreover have "(2::rat) powi (?a + 1) \<le> 2 powi ?b" using lt by (intro powi2_mono) simp
    then have "2 ^ 53 * 2 powi ?a \<le> (2 ^ 52 * 2 powi ?b :: rat)" by (simp add: powi2_add)
    ultimately show ?thesis by linarith
  qed
qed

end
