(* ===== verification/EventFinance.thy ===== *)
theory EventFinance
  imports DecimalMoney JSString CivilDate
begin

text \<open>
  Money of school events: \<^verbatim>\<open>packages/domain/src/events/financial.ts\<close> (financial lines, discounts and
  payments) and the participant's payment position of \<^verbatim>\<open>events/index.ts\<close>. Amounts are numbers,
  texts or absent. Thrown messages are named constructors. The instant of a local midnight is
  the parameter \<open>midnight\<close>.
\<close>

section \<open>financial.ts\<close>

datatype discount_type = DISCOUNT_FIXED | DISCOUNT_PERCENTAGE

record financial_line =
  fl_gross :: jsnum
  fl_discount :: jsnum
  fl_net :: jsnum

text \<open>\<^verbatim>\<open>number | string\<close>\<close>

datatype amount = ANum jsnum | AText string

fun amount_number :: "amount \<Rightarrow> jsnum" where
  "amount_number (ANum x) = x"
| "amount_number (AText s) = js_number s"

definition line_money :: "amount option \<Rightarrow> jsnum" where
  "line_money v = (case v of None \<Rightarrow> Fin 0
     | Some a \<Rightarrow> (let parsed = amount_number a in
         if \<not> num_finite parsed then Fin 0 else round_money (num_max parsed (Fin 0))))"

abbreviation num_money :: "jsnum \<Rightarrow> jsnum" where
  "num_money x \<equiv> line_money (Some (ANum x))"

definition roundEventMoney :: "jsnum \<Rightarrow> jsnum" where
  "roundEventMoney v = round_money v"

definition supportsEventCostPaymentOrigin :: "string \<Rightarrow> string option \<Rightarrow> bool" where
  "supportsEventCostPaymentOrigin originType originId \<longleftrightarrow> originType = ''MANUAL'' \<or>
     (originType = ''COSTUME'' \<and> truthy originId \<and> \<not> starts_with ''loss:'' (the originId))"

definition calculateEventParticipantDiscount ::
    "jsnum \<Rightarrow> discount_type option \<Rightarrow> jsnum option \<Rightarrow> jsnum option \<Rightarrow> financial_line" where
  "calculateEventParticipantDiscount original type value q =
     (let quantity = num_max (Fin 1) (num_trunc (case q of None \<Rightarrow> Fin 1 | Some n \<Rightarrow> n));
          gross = num_money (num_mul original quantity);
          discountValue = num_money (case value of None \<Rightarrow> Fin 0 | Some v \<Rightarrow> v);
          requested = (if type = Some DISCOUNT_PERCENTAGE
                       then num_money (num_mul gross (num_div discountValue (Fin 100))) else discountValue);
          discount = num_money (num_min requested gross)
      in \<lparr>fl_gross = gross, fl_discount = discount, fl_net = num_money (num_sub gross discount)\<rparr>)"

datatype event_money_error = DISCOUNT_ABOVE_GROSS | EXPECTED_NOT_NET | RECEIVED_ABOVE_EXPECTED
  | REFUND_WITHOUT_RECEIPT | REFUND_ABOVE_RECEIPT | PAYMENT_NOT_POSITIVE | PAYMENT_ABOVE_BALANCE

definition coalesce_amount :: "amount option \<Rightarrow> jsnum \<Rightarrow> amount option" where
  "coalesce_amount v d = (case v of None \<Rightarrow> Some (ANum d) | Some a \<Rightarrow> Some a)"

text \<open>The tolerance of one cent is the double nearest to 0.01.\<close>

definition normalizeEventFinancialLine ::
    "amount option \<Rightarrow> amount option \<Rightarrow> amount option \<Rightarrow> event_money_error + financial_line" where
  "normalizeEventFinancialLine expected gross discount =
     (let expectedAmount = line_money expected;
          grossAmount = line_money (coalesce_amount gross expectedAmount);
          discountAmount = line_money (coalesce_amount discount (num_max (num_sub grossAmount expectedAmount) (Fin 0)));
          netAmount = num_money (num_sub grossAmount discountAmount)
      in if num_less grossAmount discountAmount then Inl DISCOUNT_ABOVE_GROSS
         else if (gross \<noteq> None \<or> discount \<noteq> None) \<and>
                 num_less (of_exact (1 / 100)) (num_abs (num_sub netAmount expectedAmount)) then Inl EXPECTED_NOT_NET
         else Inr \<lparr>fl_gross = grossAmount, fl_discount = discountAmount, fl_net = netAmount\<rparr>)"

record financial_payment =
  fp_actual :: "jsnum option"
  fp_refunded :: jsnum
  fp_net :: "jsnum option"

definition normalizeEventFinancialPayment ::
    "amount option \<Rightarrow> amount option \<Rightarrow> amount option \<Rightarrow> bool \<Rightarrow> event_money_error + financial_payment" where
  "normalizeEventFinancialPayment actual refunded expected enforceLimit =
     (let actualAmount = (case actual of None \<Rightarrow> None | Some a \<Rightarrow> Some (line_money actual));
          refundedAmount = line_money refunded
      in if enforceLimit \<and> actualAmount \<noteq> None \<and> expected \<noteq> None \<and> num_less (line_money expected) (the actualAmount)
         then Inl RECEIVED_ABOVE_EXPECTED
         else if actualAmount = None \<and> num_less (Fin 0) refundedAmount then Inl REFUND_WITHOUT_RECEIPT
         else if actualAmount \<noteq> None \<and> num_less (the actualAmount) refundedAmount then Inl REFUND_ABOVE_RECEIPT
         else Inr \<lparr>fp_actual = actualAmount, fp_refunded = refundedAmount,
           fp_net = map_option (\<lambda>a. num_money (num_sub a refundedAmount)) actualAmount\<rparr>)"

datatype cost_status = COST_PAID | COST_PARTIALLY_PAID

record cost_payment =
  cp_balance :: jsnum
  cp_totalPaid :: jsnum
  cp_remaining :: jsnum
  cp_status :: cost_status

definition calculateEventCostPayment :: "amount \<Rightarrow> amount option \<Rightarrow> amount \<Rightarrow> event_money_error + cost_payment" where
  "calculateEventCostPayment expected paid payment =
     (let expectedAmount = line_money (Some expected); paidAmount = line_money paid;
          paymentAmount = line_money (Some payment)
      in if num_le paymentAmount (Fin 0) then Inl PAYMENT_NOT_POSITIVE
         else let balance = num_money (num_max (num_sub expectedAmount paidAmount) (Fin 0)) in
           if num_less balance paymentAmount then Inl PAYMENT_ABOVE_BALANCE
           else let totalPaid = num_money (num_add paidAmount paymentAmount) in
             Inr \<lparr>cp_balance = balance, cp_totalPaid = totalPaid,
               cp_remaining = num_money (num_sub balance paymentAmount),
               cp_status = (if num_le expectedAmount totalPaid then COST_PAID else COST_PARTIALLY_PAID)\<rparr>)"

section \<open>Exactness on cents\<close>

lemma num_money_cents: "\<bar>n\<bar> \<le> max_cents \<Longrightarrow> num_money (cents n) = cents (max n 0)"
  by (simp add: line_money_def Let_def num_max_cents_0 round_money_cents max_def)

lemma num_money_near:
  assumes "\<bar>v - of_int n / 100\<bar> \<le> 1 / 400" "0 < n" "n \<le> max_cents"
  shows "num_money (Fin v) = cents n"
proof -
  have "0 < (of_int n :: rat)" using assms(2) by simp
  then have "1 \<le> (of_int n :: rat)" by (metis assms(2) of_int_1_le_iff int_one_le_iff_zero_less)
  then have "0 < v" using assms(1) unfolding intervals by simp
  then show ?thesis using assms round_money_near [of v n] by (simp add: line_money_def Let_def num_max_def)
qed

lemma num_money_near_zero:
  assumes "\<bar>v\<bar> \<le> 1 / 400"
  shows "num_money (Fin v) = cents 0"
proof -
  have "num_max (Fin v) (Fin 0) = Fin (max v 0)" by (simp add: num_max_def max_def)
  moreover have "round_money (Fin (max v 0)) = cents 0"
    using assms by (intro round_money_near) (auto simp: max_def)
  ultimately show ?thesis by (simp add: line_money_def Let_def)
qed

lemma num_money_sub:
  assumes "0 \<le> b" "b \<le> a" "a \<le> max_cents"
  shows "num_money (num_sub (cents a) (cents b)) = cents (a - b)"
proof -
  obtain v where v: "num_sub (cents a) (cents b) = Fin v" "\<bar>v - of_int (a - b) / 100\<bar> \<le> 1 / 400"
    using cents_sub_near [of a b] assms by auto
  show ?thesis
  proof (cases "a = b")
    case True
    then show ?thesis unfolding v(1) using num_money_near_zero [of v] v(2) by simp
  next
    case False
    then show ?thesis unfolding v(1) using num_money_near [OF v(2)] assms by simp
  qed
qed

lemma num_money_add:
  assumes "0 \<le> a" "0 \<le> b" "0 < a + b" "a + b \<le> max_cents"
  shows "num_money (num_add (cents a) (cents b)) = cents (a + b)"
  using cents_add_near [of a b] num_money_near [of _ "a + b"] assms by fastforce

lemma num_money_balance:
  assumes "0 \<le> b" "0 \<le> a" "a \<le> max_cents" "b \<le> max_cents"
  shows "num_money (num_max (num_sub (cents a) (cents b)) (Fin 0)) = cents (max (a - b) 0)"
proof -
  obtain v where v: "num_sub (cents a) (cents b) = Fin v" "\<bar>v - of_int (a - b) / 100\<bar> \<le> 1 / 400"
    using cents_sub_near [of a b] assms by auto
  have twice: "num_money (num_max (Fin v) (Fin 0)) = num_money (Fin v)"
    by (simp add: line_money_def Let_def num_max_def)
  show ?thesis
  proof (cases "a < b")
    case False
    then show ?thesis using num_money_sub [of b a] assms by (simp add: v(1) twice)
  next
    case True
    then have "(of_int (a + 1) :: rat) \<le> of_int b" by (simp only: of_int_le_iff)
    then have "v < 0" using v(2) unfolding intervals by (simp add: diff_divide_distrib)
    then have "num_money (Fin v) = cents 0"
      using round_money_cents [of 0] by (simp add: line_money_def Let_def num_max_def)
    with True show ?thesis by (simp only: v(1) twice) simp
  qed
qed

section \<open>The ledger of a cost\<close>

lemma cost_payment_cents:
  assumes "0 \<le> e" "e \<le> max_cents" "0 \<le> p" "p \<le> e" "\<bar>q\<bar> \<le> max_cents"
  shows "calculateEventCostPayment (ANum (cents e)) (Some (ANum (cents p))) (ANum (cents q)) =
     (if q \<le> 0 then Inl PAYMENT_NOT_POSITIVE else if e - p < q then Inl PAYMENT_ABOVE_BALANCE
      else Inr \<lparr>cp_balance = cents (e - p), cp_totalPaid = cents (p + q), cp_remaining = cents (e - p - q),
        cp_status = (if p + q = e then COST_PAID else COST_PARTIALLY_PAID)\<rparr>)"
proof -
  have e: "num_money (cents e) = cents e" and p: "num_money (cents p) = cents p"
    using assms by (simp_all add: num_money_cents)
  have q: "num_money (cents q) = cents (max q 0)" using assms(5) by (rule num_money_cents)
  have balance: "num_money (num_max (num_sub (cents e) (cents p)) (Fin 0)) = cents (e - p)"
    using num_money_balance [of p e] assms by simp
  show ?thesis
  proof (cases "q \<le> 0")
    case True
    then show ?thesis by (simp add: calculateEventCostPayment_def e p q num_le_def)
  next
    case False
    then have pos: "\<not> num_le (cents q) (Fin 0)" using num_less_cents_0 [OF assms(5)] by simp
    have above: "num_less (cents (e - p)) (cents q) \<longleftrightarrow> e - p < q" using assms by (intro num_less_cents) simp_all
    show ?thesis
    proof (cases "e - p < q")
      case True
      then show ?thesis using False pos above by (simp add: calculateEventCostPayment_def Let_def e p q balance)
    next
      case fits: False
      have total: "num_money (num_add (cents p) (cents q)) = cents (p + q)"
        using assms False fits by (intro num_money_add) simp_all
      have remaining: "num_money (num_sub (cents (e - p)) (cents q)) = cents (e - p - q)"
        using assms False fits by (intro num_money_sub) simp_all
      have paid: "num_le (cents e) (cents (p + q)) \<longleftrightarrow> p + q = e"
        using num_less_cents(2) [of e "p + q"] assms False fits by auto
      show ?thesis
        using False fits pos above
        by (simp add: calculateEventCostPayment_def Let_def e p q balance total remaining paid
          del: num_add.simps num_less.simps)
    qed
  qed
qed

text \<open>The caller stores the total of an accepted payment and keeps the old one otherwise.\<close>

definition pay_cost :: "jsnum \<Rightarrow> jsnum \<Rightarrow> jsnum \<Rightarrow> jsnum" where
  "pay_cost expected paid payment =
     (case calculateEventCostPayment (ANum expected) (Some (ANum paid)) (ANum payment) of
        Inl _ \<Rightarrow> paid | Inr r \<Rightarrow> cp_totalPaid r)"

definition ledger_step :: "int \<Rightarrow> int \<Rightarrow> int \<Rightarrow> int" where
  "ledger_step e p q = (if 0 < q \<and> q \<le> e - p then p + q else p)"

lemma pay_cost_step:
  assumes "0 \<le> e" "e \<le> max_cents" "0 \<le> p" "p \<le> e" "\<bar>q\<bar> \<le> max_cents"
  shows "pay_cost (cents e) (cents p) (cents q) = cents (ledger_step e p q)" "0 \<le> ledger_step e p q" "ledger_step e p q \<le> e"
  using cost_payment_cents [OF assms] assms by (auto simp: pay_cost_def ledger_step_def)

lemma ledger_run:
  assumes "0 \<le> e" "e \<le> max_cents" "0 \<le> p" "p \<le> e" "\<forall>q \<in> set qs. \<bar>q\<bar> \<le> max_cents"
  shows "foldl (pay_cost (cents e)) (cents p) (map cents qs) = cents (foldl (ledger_step e) p qs) \<and>
     0 \<le> foldl (ledger_step e) p qs \<and> foldl (ledger_step e) p qs \<le> e"
  using assms
proof (induction qs arbitrary: p)
  case (Cons q qs)
  then show ?case using pay_cost_step [of e p q] Cons.IH [of "ledger_step e p q"] by simp
qed simp

text \<open>
  C34. The payments of an event cost keep an exact ledger. Whatever amounts are presented, in cents,
  the floating-point total is that of the integer ledger that accepts a payment exactly when it is
  positive and fits in the balance: it never exceeds the cost and loses no cent. On every ledger
  reached, a payment is refused with the right reason or reports the exact balance, total and
  remainder, and the cost is settled exactly by the payment that completes it.
\<close>

theorem event_cost_ledger:
  assumes "0 \<le> e" "e \<le> max_cents" "\<forall>r \<in> set qs. \<bar>r\<bar> \<le> max_cents" "\<bar>q\<bar> \<le> max_cents"
  shows "\<exists>p. foldl (pay_cost (cents e)) (cents 0) (map cents qs) = cents p \<and> p = foldl (ledger_step e) 0 qs \<and>
     0 \<le> p \<and> p \<le> e \<and>
     calculateEventCostPayment (ANum (cents e)) (Some (ANum (cents p))) (ANum (cents q)) =
       (if q \<le> 0 then Inl PAYMENT_NOT_POSITIVE else if e - p < q then Inl PAYMENT_ABOVE_BALANCE
        else Inr \<lparr>cp_balance = cents (e - p), cp_totalPaid = cents (p + q), cp_remaining = cents (e - p - q),
          cp_status = (if p + q = e then COST_PAID else COST_PARTIALLY_PAID)\<rparr>)"
  using ledger_run [OF assms(1,2) _ assms(1,3)] cost_payment_cents [OF assms(1,2) _ _ assms(4)]
  by (intro exI [of _ "foldl (ledger_step e) 0 qs"]) simp

lemma event_cost_ledger_witness:
  "calculateEventCostPayment (ANum (cents 10010)) (Some (ANum (cents 7007))) (ANum (cents 3003)) =
     Inr \<lparr>cp_balance = cents 3003, cp_totalPaid = cents 10010, cp_remaining = cents 0, cp_status = COST_PAID\<rparr>"
proof -
  have "foldl (ledger_step 10010) 0 [3003, 20000, 4004] = 7007" by (simp add: ledger_step_def)
  moreover have "\<forall>r \<in> set [3003, 20000, 4004 :: int]. \<bar>r\<bar> \<le> max_cents" by (simp add: max_cents_def)
  ultimately show ?thesis
    using event_cost_ledger [of 10010 "[3003, 20000, 4004]" 3003] by (simp add: max_cents_def)
qed

section \<open>Lines balance to the cent\<close>

lemma num_money_ex:
  assumes "x \<le> 2 ^ 37"
  shows "\<exists>k. 0 \<le> k \<and> k \<le> max_cents \<and> num_money (Fin x) = cents k \<and> of_int k \<le> max (100 * x) 0 + 1"
proof (cases "0 < x")
  case False
  then have "num_money (Fin x) = cents 0" by (simp add: line_money_def Let_def num_max_def)
  then show ?thesis by (intro exI [of _ 0]) (simp del: dec_0)
next
  case True
  note x0 = True
  define t s p where "t = x + 1 / 2 ^ 52" and "s = fl t" and "p = fl (s * 100)"
  have t: "0 \<le> t" "t \<le> 2 ^ 38" using assms True by (simp_all add: t_def)
  then have tb: "\<bar>t\<bar> \<le> 2 ^ 38" by simp
  have s: "0 \<le> s" "\<bar>s - t\<bar> \<le> 1 / 2 ^ 15"
    using fl_nonneg [OF t(1)] fl_error_at [OF tb] by (simp_all add: s_def)
  have sb: "\<bar>s * 100\<bar> \<le> 2 ^ 46" using t s unfolding intervals by (intro conjI; simp; linarith)
  have p: "0 \<le> p" "\<bar>p - s * 100\<bar> \<le> 1 / 2 ^ 7"
    using fl_nonneg [of "s * 100"] s(1) fl_error_at [OF sb] by (simp_all add: p_def)
  have pb: "p + 1 / 2 \<le> 2 ^ 45"
    using p(2) s(2) assms unfolding intervals t_def by simp
  define k where "k = \<lfloor>p + 1 / 2\<rfloor>"
  have k: "0 \<le> k" "k \<le> 2 ^ 45"
  proof -
    show "0 \<le> k" using p(1) by (simp add: k_def)
    have "(of_int k :: rat) \<le> of_int (2 ^ 45)" using pb of_int_floor_le [of "p + 1 / 2"] unfolding k_def by simp
    then show "k \<le> 2 ^ 45" by (simp only: of_int_le_iff)
  qed
  have "num_add (Fin x) num_epsilon = Fin s"
    unfolding num_epsilon_def num_add.simps s_def t_def [symmetric] using tb by (intro of_exact_at) simp
  moreover have "num_mul (Fin s) (Fin 100) = Fin p"
    unfolding num_mul.simps p_def using sb by (intro of_exact_at) simp
  moreover have "num_div (num_int k) (Fin 100) = cents k"
  proof -
    have "(of_int k :: rat) \<le> of_int (2 ^ 45)" using k(2) by (simp only: of_int_le_iff)
    then have "\<bar>of_int k / 100 :: rat\<bar> \<le> 2 ^ 60" using k(1) by simp
    then show ?thesis unfolding num_div.simps dec_def by (simp add: of_exact_at)
  qed
  moreover have "of_int k \<le> 100 * x + 1"
  proof -
    have "p + 1 / 2 \<le> 100 * x + 1" using p(2) s(2) unfolding intervals t_def by simp
    then show ?thesis using of_int_floor_le [of "p + 1 / 2"] unfolding k_def by (rule order_trans [rotated])
  qed
  ultimately have "round_money (Fin x) = cents k" "of_int k \<le> max (100 * x) 0 + 1"
    by (simp_all only: round_money_def num_round.simps k_def)
  moreover from this(1) have "num_money (Fin x) = cents k" using True by (simp add: line_money_def Let_def num_max_def)
  ultimately show ?thesis using k by (auto simp: max_cents_def)
qed

text \<open>
  A discounted line balances to the cent. For a unit price, quantity and fixed discount or
  percentage within the bounds, the gross amount, the discount and the net amount are whole cents,
  the discount is at most the gross amount and the net is exactly their difference, whatever the
  roundings in between. Likewise a recorded payment in cents is refused exactly when its refund
  exceeds it, and otherwise its net is the exact difference.
\<close>

theorem event_lines_balance:
  assumes "0 \<le> x" "1 \<le> n" "x * of_int n \<le> 2 ^ 36" "v \<le> 2 ^ 36" "type = Some DISCOUNT_PERCENTAGE \<longrightarrow> v \<le> 100"
    and "0 \<le> a" "a \<le> max_cents" "0 \<le> r" "r \<le> max_cents"
  shows "(\<exists>g d. 0 \<le> d \<and> d \<le> g \<and>
       calculateEventParticipantDiscount (Fin x) type (Some (Fin v)) (Some (num_int n)) =
         \<lparr>fl_gross = cents g, fl_discount = cents d, fl_net = cents (g - d)\<rparr>) \<and>
     normalizeEventFinancialPayment (Some (ANum (cents a))) (Some (ANum (cents r))) None limit =
       (if a < r then Inl REFUND_ABOVE_RECEIPT
        else Inr \<lparr>fp_actual = Some (cents a), fp_refunded = cents r, fp_net = Some (cents (a - r))\<rparr>)"
proof
  have nr: "(1::rat) \<le> of_int n" using assms(2) by simp
  have quantity: "num_max (Fin 1) (num_trunc (num_int n)) = num_int n"
    using nr by (simp add: num_max_def)
  have pb: "\<bar>x * of_int n\<bar> \<le> 2 ^ 36" using assms(1,3) nr by simp
  have product: "num_mul (Fin x) (num_int n) = Fin (fl (x * of_int n))"
    unfolding num_mul.simps using pb by (intro of_exact_at) simp
  have "\<bar>fl (x * of_int n) - x * of_int n\<bar> \<le> 1 / 2 ^ 17" using fl_error_at [OF pb] by simp
  then have f36: "fl (x * of_int n) \<le> 2 ^ 36 + 1" using assms(3) unfolding intervals by simp
  then have "fl (x * of_int n) \<le> 2 ^ 37" by simp
  then obtain g where g: "0 \<le> g" "g \<le> max_cents" "num_money (Fin (fl (x * of_int n))) = cents g"
    "of_int g \<le> max (100 * fl (x * of_int n)) 0 + 1"
    using num_money_ex by blast
  obtain k where k: "0 \<le> k" "k \<le> max_cents" "num_money (Fin v) = cents k" "of_int k \<le> max (100 * v) 0 + 1"
    using num_money_ex [of v] assms(4) by auto
  have requested: "\<exists>w. 0 \<le> w \<and> w \<le> max_cents \<and> (if type = Some DISCOUNT_PERCENTAGE
      then num_money (num_mul (cents g) (num_div (num_money (Fin v)) (Fin 100))) else num_money (Fin v)) = cents w"
  proof (cases "type = Some DISCOUNT_PERCENTAGE")
    case True
    have kb: "\<bar>dec k / 100\<bar> \<le> 2 ^ 1" "0 \<le> dec k" "dec k \<le> 101"
    proof -
      have "of_int k \<le> (10001 :: rat)" using k(4) assms(5) True by (auto simp: max_def split: if_splits)
      then show "0 \<le> dec k" "dec k \<le> 101" "\<bar>dec k / 100\<bar> \<le> 2 ^ 1"
        using max_cents_bounds(1) [of k] k(1,2) fl_nonneg [of "of_int k / 100"] unfolding intervals
        by (simp_all add: dec_def)
    qed
    have "num_div (cents k) (Fin 100) = Fin (fl (dec k / 100))"
      unfolding num_div.simps using kb(1) by (simp add: of_exact_at)
    moreover have fe: "\<bar>fl (dec k / 100) - dec k / 100\<bar> \<le> 1 / 2 ^ 52" using fl_error_at [OF kb(1)] by simp
    moreover have f0: "0 \<le> fl (dec k / 100)" using kb(2) by (intro fl_nonneg) simp
    moreover have f2: "fl (dec k / 100) \<le> 5 / 4" using fe kb(3) unfolding intervals by simp
    moreover have g0: "0 \<le> dec g" using g(1) by (simp add: dec_def fl_nonneg)
    moreover have g1: "dec g \<le> 2 ^ 36 + 2"
      using g(4) max_cents_bounds(1) [of g] g(1,2) f36 unfolding intervals by (simp add: max_def split: if_splits)
    moreover have "dec g * fl (dec k / 100) \<le> (2 ^ 36 + 2) * (5 / 4)"
      by (rule mult_mono) (use g0 g1 f0 f2 in simp_all)
    ultimately have "\<bar>dec g * fl (dec k / 100)\<bar> \<le> 2 ^ 36 * (3/2)" "num_div (cents k) (Fin 100) = Fin (fl (dec k / 100))"
      by simp_all
    then have "num_mul (cents g) (num_div (num_money (Fin v)) (Fin 100)) = Fin (fl (dec g * fl (dec k / 100)))"
      "fl (dec g * fl (dec k / 100)) \<le> 2 ^ 37"
      using fl_error_at [of "dec g * fl (dec k / 100)" 37] of_exact_at [of "dec g * fl (dec k / 100)"]
      unfolding k(3) intervals by simp_all
    then show ?thesis using True num_money_ex [of "fl (dec g * fl (dec k / 100))"] by auto
  qed (use k in auto)
  then obtain w where w: "0 \<le> w" "w \<le> max_cents" "(if type = Some DISCOUNT_PERCENTAGE
      then num_money (num_mul (cents g) (num_div (num_money (Fin v)) (Fin 100))) else num_money (Fin v)) = cents w"
    by blast
  have min: "num_min (cents w) (cents g) = cents (min w g)" using w g by (intro num_max_cents(2)) simp_all
  have discount: "num_money (cents (min w g)) = cents (min w g)" using w g num_money_cents [of "min w g"] by simp
  have net: "num_money (num_sub (cents g) (cents (min w g))) = cents (g - min w g)"
    using w g by (intro num_money_sub) simp_all
  have "calculateEventParticipantDiscount (Fin x) type (Some (Fin v)) (Some (num_int n)) =
      \<lparr>fl_gross = cents g, fl_discount = cents (min w g), fl_net = cents (g - min w g)\<rparr>"
    unfolding calculateEventParticipantDiscount_def Let_def option.case quantity product g(3) w(3) min discount net ..
  then show "\<exists>g d. 0 \<le> d \<and> d \<le> g \<and> calculateEventParticipantDiscount (Fin x) type (Some (Fin v)) (Some (num_int n)) =
         \<lparr>fl_gross = cents g, fl_discount = cents d, fl_net = cents (g - d)\<rparr>"
    using w g by (intro exI [of _ g] exI [of _ "min w g"]) simp
  have "num_less (cents a) (cents r) \<longleftrightarrow> a < r" "\<not> a < r \<Longrightarrow> num_money (num_sub (cents a) (cents r)) = cents (a - r)"
    "num_money (cents a) = cents a" "num_money (cents r) = cents r"
    using assms num_money_cents [of a] num_money_cents [of r] num_less_cents(1) [of a r] by (simp_all add: num_money_sub del: num_less.simps)
  then show "normalizeEventFinancialPayment (Some (ANum (cents a))) (Some (ANum (cents r))) None limit =
       (if a < r then Inl REFUND_ABOVE_RECEIPT
        else Inr \<lparr>fp_actual = Some (cents a), fp_refunded = cents r, fp_net = Some (cents (a - r))\<rparr>)"
    by (simp add: normalizeEventFinancialPayment_def Let_def del: num_less.simps)
qed

lemma event_lines_balance_witness:
  "\<exists>g d. 0 \<le> d \<and> d \<le> g \<and>
     calculateEventParticipantDiscount (Fin (dec 4990)) (Some DISCOUNT_PERCENTAGE) (Some (Fin 15)) (Some (num_int 3)) =
       \<lparr>fl_gross = cents g, fl_discount = cents d, fl_net = cents (g - d)\<rparr>"
proof -
  have "\<bar>dec 4990 - 4990 / 100\<bar> \<le> 1 / 2 ^ 14" using max_cents_bounds(1) [of 4990] by (simp add: max_cents_def)
  then have "0 \<le> dec 4990" "dec 4990 * of_int 3 \<le> 2 ^ 36" unfolding intervals by simp_all
  then show ?thesis
    using event_lines_balance [of "dec 4990" 3 15 "Some DISCOUNT_PERCENTAGE" 0 0] by simp
qed

end
