(* ===== verification/EventPayments.thy ===== *)
theory EventPayments
  imports EventFinance
begin

text \<open>
  The payment position of a participant of a school event, \<^verbatim>\<open>resolveEventParticipantPayment\<close> of
  \<^verbatim>\<open>packages/domain/src/events/index.ts\<close>, and its refinement to a position in whole cents. The start
  of the local day of an instant is the parameter \<open>midnight\<close>.
\<close>

section \<open>Charges\<close>

datatype participant_status = ISENTO | PARCIAL | PENDENTE_EV | EM_DIA | ATRASADO_EV | QUITADO | CANCELADO_EV
  | ESTORNADO_EV | ESTORNADO_PARCIAL_EV

record charge_like =
  cl_status :: "string option"
  cl_value :: "amount option"
  cl_amount :: "amount option"
  cl_paidValue :: "amount option"
  cl_refundedValue :: "amount option"
  cl_dueDate :: "date_value option"

record payment_resolution =
  pr_status :: participant_status
  pr_expectedAmount :: jsnum
  pr_paidAmount :: jsnum
  pr_refundedAmount :: jsnum
  pr_netPaidAmount :: jsnum
  pr_openAmount :: jsnum
  pr_overdueAmount :: jsnum
  pr_percentPaid :: jsnum
  pr_isFullyPaid :: bool
  pr_hasOverdue :: bool

definition event_money :: "amount option \<Rightarrow> jsnum" where
  "event_money v = (case v of None \<Rightarrow> Fin 0
     | Some a \<Rightarrow> (let parsed = amount_number a in if num_finite parsed then parsed else Fin 0))"

definition getEventNetRealizedAmount :: "amount option \<Rightarrow> amount option \<Rightarrow> jsnum" where
  "getEventNetRealizedAmount actual refunded = num_max (num_sub (event_money actual) (event_money refunded)) (Fin 0)"

definition PAID_CHARGE_STATUSES :: "string set" where
  "PAID_CHARGE_STATUSES = {''PAID'', ''PAGO'', ''RECEIVED'', ''CONFIRMED'', ''RECEIVED_IN_CASH'', ''DUNNING_RECEIVED''}"

definition OVERDUE_CHARGE_STATUSES :: "string set" where
  "OVERDUE_CHARGE_STATUSES = {''OVERDUE'', ''ATRASADO'', ''VENCIDO''}"

definition CANCELLED_CHARGE_STATUSES :: "string set" where
  "CANCELLED_CHARGE_STATUSES = {''CANCELLED'', ''CANCELED'', ''CANCELADO'', ''DELETED''}"

definition REFUNDED_CHARGE_STATUSES :: "string set" where
  "REFUNDED_CHARGE_STATUSES = {''REFUNDED'', ''ESTORNADO'', ''CHARGEBACK_REQUESTED'', ''CHARGEBACK_DISPUTE'',
     ''CHARGEBACK_DEPOSITED''}"

definition normalizeStatus :: "string option \<Rightarrow> string" where
  "normalizeStatus s = js_upper (js_trim (case s of None \<Rightarrow> [] | Some t \<Rightarrow> t))"

definition or_amount :: "amount option \<Rightarrow> amount option \<Rightarrow> amount option" where
  "or_amount a b = (case a of None \<Rightarrow> b | Some _ \<Rightarrow> a)"

definition chargeValue :: "charge_like \<Rightarrow> jsnum" where
  "chargeValue c = event_money (or_amount (cl_paidValue c) (or_amount (cl_value c) (cl_amount c)))"

definition isPastDue :: "(int \<Rightarrow> int) \<Rightarrow> charge_like \<Rightarrow> date_value \<Rightarrow> bool" where
  "isPastDue midnight c today = (case cl_dueDate c of Some (Some due) \<Rightarrow>
       date_less (Some (midnight due)) (map_option midnight today)
     | _ \<Rightarrow> False)"

section \<open>The loop over the charges\<close>

record position =
  po_paid :: jsnum
  po_refunded :: jsnum
  po_open :: jsnum
  po_overdue :: jsnum
  po_hasOverdue :: bool
  po_hasCancelled :: bool
  po_hasRefunded :: bool

definition charge_step :: "(int \<Rightarrow> int) \<Rightarrow> date_value \<Rightarrow> position \<Rightarrow> charge_like \<Rightarrow> position" where
  "charge_step midnight today p c =
     (let status = normalizeStatus (cl_status c); value = chargeValue c; refunded = event_money (cl_refundedValue c)
      in if status \<in> PAID_CHARGE_STATUSES then
           (let q = p\<lparr>po_paid := num_add (po_paid p) value\<rparr> in
            if num_less (Fin 0) refunded
            then q\<lparr>po_refunded := num_add (po_refunded p) (num_min refunded value), po_hasRefunded := True\<rparr> else q)
         else if status \<in> REFUNDED_CHARGE_STATUSES then
           p\<lparr>po_paid := num_add (po_paid p) value,
             po_refunded := num_add (po_refunded p) (if num_less (Fin 0) refunded then refunded else value),
             po_hasRefunded := True\<rparr>
         else if status \<in> CANCELLED_CHARGE_STATUSES then p\<lparr>po_hasCancelled := True\<rparr>
         else (let q = p\<lparr>po_open := num_add (po_open p) value\<rparr> in
           if status \<in> OVERDUE_CHARGE_STATUSES \<or> isPastDue midnight c today
           then q\<lparr>po_hasOverdue := True, po_overdue := num_add (po_overdue p) value\<rparr> else q))"

record payment_input =
  pi_expectedAmount :: "amount option"
  pi_charges :: "charge_like list"
  pi_paidFallback :: "bool option"
  pi_cancelled :: "bool option"
  pi_refunded :: "bool option"
  pi_isExempt :: "bool option"

definition is_true :: "bool option \<Rightarrow> bool" where
  "is_true b \<longleftrightarrow> b = Some True"

text \<open>The starting position: without charges it comes from the fallback flags.\<close>

definition start_position :: "payment_input \<Rightarrow> jsnum \<Rightarrow> position" where
  "start_position x expected =
     (let paid = (if is_true (pi_paidFallback x) then expected else Fin 0) in
      if pi_charges x = []
      then \<lparr>po_paid = paid, po_refunded = (if is_true (pi_refunded x) then paid else Fin 0),
        po_open = (if is_true (pi_paidFallback x) then Fin 0 else expected), po_overdue = Fin 0,
        po_hasOverdue = False, po_hasCancelled = False, po_hasRefunded = is_true (pi_refunded x)\<rparr>
      else \<lparr>po_paid = Fin 0, po_refunded = Fin 0, po_open = Fin 0, po_overdue = Fin 0,
        po_hasOverdue = False, po_hasCancelled = False, po_hasRefunded = is_true (pi_refunded x)\<rparr>)"

definition participant_status_of :: "position \<Rightarrow> bool \<Rightarrow> jsnum \<Rightarrow> bool \<Rightarrow> participant_status" where
  "participant_status_of p full net cancelled =
     (if po_hasOverdue p then ATRASADO_EV
      else if full then QUITADO
      else if po_hasRefunded p \<and> num_le net (Fin 0) then ESTORNADO_EV
      else if num_less (Fin 0) net then EM_DIA
      else if po_hasCancelled p \<or> cancelled then CANCELADO_EV else PENDENTE_EV)"

definition resolveEventParticipantPayment :: "(int \<Rightarrow> int) \<Rightarrow> date_value \<Rightarrow> payment_input \<Rightarrow> payment_resolution" where
  "resolveEventParticipantPayment midnight today x =
     (let expected = round_money (event_money (pi_expectedAmount x)) in
      if is_true (pi_cancelled x) \<and> pi_charges x = [] then
        \<lparr>pr_status = CANCELADO_EV, pr_expectedAmount = expected, pr_paidAmount = Fin 0, pr_refundedAmount = Fin 0,
          pr_netPaidAmount = Fin 0, pr_openAmount = expected, pr_overdueAmount = Fin 0, pr_percentPaid = Fin 0,
          pr_isFullyPaid = False, pr_hasOverdue = False\<rparr>
      else if num_le expected (Fin 0) \<and> is_true (pi_isExempt x) then
        \<lparr>pr_status = ISENTO, pr_expectedAmount = Fin 0, pr_paidAmount = Fin 0, pr_refundedAmount = Fin 0,
          pr_netPaidAmount = Fin 0, pr_openAmount = Fin 0, pr_overdueAmount = Fin 0, pr_percentPaid = Fin 100,
          pr_isFullyPaid = True, pr_hasOverdue = False\<rparr>
      else if num_le expected (Fin 0) then
        \<lparr>pr_status = PARCIAL, pr_expectedAmount = Fin 0, pr_paidAmount = Fin 0, pr_refundedAmount = Fin 0,
          pr_netPaidAmount = Fin 0, pr_openAmount = Fin 0, pr_overdueAmount = Fin 0, pr_percentPaid = Fin 0,
          pr_isFullyPaid = False, pr_hasOverdue = False\<rparr>
      else
        let p = foldl (charge_step midnight today) (start_position x expected) (pi_charges x);
            net = round_money (num_max (num_sub (po_paid p) (po_refunded p)) (Fin 0));
            full = num_le expected net;
            percent = (if num_less (Fin 0) expected
              then num_min (Fin 100) (round_money (num_mul (num_div net expected) (Fin 100))) else Fin 100)
        in \<lparr>pr_status = participant_status_of p full net (is_true (pi_cancelled x)), pr_expectedAmount = expected,
          pr_paidAmount = round_money (po_paid p), pr_refundedAmount = round_money (po_refunded p), pr_netPaidAmount = net,
          pr_openAmount = round_money (num_max (po_open p) (num_sub expected net)),
          pr_overdueAmount = round_money (po_overdue p), pr_percentPaid = percent, pr_isFullyPaid = full,
          pr_hasOverdue = po_hasOverdue p\<rparr>)"

section \<open>Positions in cents\<close>

text \<open>What a charge of \<open>v\<close> cents with \<open>r\<close> cents refunded contributes.\<close>

definition is_paid :: "charge_like \<Rightarrow> bool" where
  "is_paid c \<longleftrightarrow> normalizeStatus (cl_status c) \<in> PAID_CHARGE_STATUSES"

definition is_refunded :: "charge_like \<Rightarrow> bool" where
  "is_refunded c \<longleftrightarrow> normalizeStatus (cl_status c) \<in> REFUNDED_CHARGE_STATUSES"

definition is_cancelled :: "charge_like \<Rightarrow> bool" where
  "is_cancelled c \<longleftrightarrow> normalizeStatus (cl_status c) \<in> CANCELLED_CHARGE_STATUSES"

definition is_open :: "charge_like \<Rightarrow> bool" where
  "is_open c \<longleftrightarrow> \<not> is_paid c \<and> \<not> is_refunded c \<and> \<not> is_cancelled c"

definition is_late :: "(int \<Rightarrow> int) \<Rightarrow> date_value \<Rightarrow> charge_like \<Rightarrow> bool" where
  "is_late midnight today c \<longleftrightarrow> is_open c \<and>
     (normalizeStatus (cl_status c) \<in> OVERDUE_CHARGE_STATUSES \<or> isPastDue midnight c today)"

definition paid_part :: "charge_like \<times> int \<times> int \<Rightarrow> int" where
  "paid_part = (\<lambda>(c, v, r). if is_paid c \<or> is_refunded c then v else 0)"

definition refund_part :: "charge_like \<times> int \<times> int \<Rightarrow> int" where
  "refund_part = (\<lambda>(c, v, r). if is_paid c then min r v else if is_refunded c then (if 0 < r then r else v) else 0)"

definition open_part :: "charge_like \<times> int \<times> int \<Rightarrow> int" where
  "open_part = (\<lambda>(c, v, r). if is_open c then v else 0)"

definition late_part :: "(int \<Rightarrow> int) \<Rightarrow> date_value \<Rightarrow> charge_like \<times> int \<times> int \<Rightarrow> int" where
  "late_part midnight today = (\<lambda>(c, v, r). if is_late midnight today c then v else 0)"

lemmas parts = paid_part_def refund_part_def open_part_def late_part_def

definition in_cents :: "charge_like \<times> int \<times> int \<Rightarrow> bool" where
  "in_cents = (\<lambda>(c, v, r). 0 \<le> v \<and> 0 \<le> r \<and> chargeValue c = cents v \<and> event_money (cl_refundedValue c) = cents r)"

lemma status_sets_disjoint:
  "s \<in> PAID_CHARGE_STATUSES \<Longrightarrow> s \<notin> REFUNDED_CHARGE_STATUSES \<and> s \<notin> CANCELLED_CHARGE_STATUSES"
  "s \<in> REFUNDED_CHARGE_STATUSES \<Longrightarrow> s \<notin> CANCELLED_CHARGE_STATUSES"
  by (auto simp: PAID_CHARGE_STATUSES_def REFUNDED_CHARGE_STATUSES_def CANCELLED_CHARGE_STATUSES_def)

text \<open>The position is near four totals of cents, and its flags are known.\<close>

definition near_position :: "position \<Rightarrow> int \<Rightarrow> int \<Rightarrow> int \<Rightarrow> int \<Rightarrow> nat \<Rightarrow> bool" where
  "near_position p P R O' D j \<longleftrightarrow> near (po_paid p) P j \<and> near (po_refunded p) R j \<and> near (po_open p) O' j \<and> near (po_overdue p) D j"

lemma charge_step_near:
  fixes midnight today
  assumes "in_cents (c, v, r)" "near_position p P R O' D j" "j \<le> 4000"
    and "\<bar>P\<bar> + v \<le> 10 ^ 11" "\<bar>R\<bar> + (v + r) \<le> 10 ^ 11" "\<bar>O'\<bar> + v \<le> 10 ^ 11" "\<bar>D\<bar> + v \<le> 10 ^ 11"
  defines "q \<equiv> charge_step midnight today p c"
  shows "near_position q (P + paid_part (c, v, r)) (R + refund_part (c, v, r)) (O' + open_part (c, v, r))
           (D + late_part midnight today (c, v, r)) (Suc j)"
    and "po_hasOverdue q \<longleftrightarrow> po_hasOverdue p \<or> is_late midnight today c"
    and "po_hasCancelled q \<longleftrightarrow> po_hasCancelled p \<or> is_cancelled c"
    and "po_hasRefunded q \<longleftrightarrow> po_hasRefunded p \<or> is_refunded c \<or> is_paid c \<and> 0 < r"
proof -
  have c: "0 \<le> v" "0 \<le> r" "chargeValue c = cents v" "event_money (cl_refundedValue c) = cents r"
    using assms(1) by (simp_all add: in_cents_def)
  have small: "v \<le> max_cents" "r \<le> max_cents" using assms(5) c(1,2) by (simp_all add: max_cents_def)
  have pos: "num_less (Fin 0) (cents r) \<longleftrightarrow> 0 < r" using num_less_cents_0(2) [of r] small c(2) by simp
  have min: "num_min (cents r) (cents v) = cents (min r v)" using num_max_cents(2) [of r v] small c by simp
  have near: "near (po_paid p) P j" "near (po_refunded p) R j" "near (po_open p) O' j" "near (po_overdue p) D j"
    using assms(2) by (simp_all add: near_position_def)
  have add: "near (num_add (po_paid p) (cents v)) (P + v) (Suc j)" "near (num_add (po_open p) (cents v)) (O' + v) (Suc j)"
    "near (num_add (po_overdue p) (cents v)) (D + v) (Suc j)"
    using assms(3,4,6,7) c(1) by (simp_all add: near_add near)
  have refund: "near (num_add (po_refunded p) (cents n)) (R + n) (Suc j)" if "n \<in> {v, r, min r v}" for n
    using assms(3,5) c(1,2) that by (intro near_add near) auto
  have excl: "is_paid c \<Longrightarrow> \<not> is_refunded c \<and> \<not> is_cancelled c" "is_refunded c \<Longrightarrow> \<not> is_cancelled c"
    using status_sets_disjoint by (simp_all add: is_paid_def is_refunded_def is_cancelled_def)
  have q: "q = (if is_paid c then
           (let q = p\<lparr>po_paid := num_add (po_paid p) (cents v)\<rparr> in
            if 0 < r then q\<lparr>po_refunded := num_add (po_refunded p) (cents (min r v)), po_hasRefunded := True\<rparr> else q)
         else if is_refunded c then
           p\<lparr>po_paid := num_add (po_paid p) (cents v),
             po_refunded := num_add (po_refunded p) (cents (if 0 < r then r else v)), po_hasRefunded := True\<rparr>
         else if is_cancelled c then p\<lparr>po_hasCancelled := True\<rparr>
         else (let q = p\<lparr>po_open := num_add (po_open p) (cents v)\<rparr> in
           if is_late midnight today c
           then q\<lparr>po_hasOverdue := True, po_overdue := num_add (po_overdue p) (cents v)\<rparr> else q))"
    unfolding q_def charge_step_def Let_def c(3,4) pos min is_late_def is_open_def
    by (simp add: is_paid_def is_refunded_def is_cancelled_def del: num_add.simps)
  have keep: "near (po_paid p) P (Suc j)" "near (po_refunded p) R (Suc j)" "near (po_open p) O' (Suc j)" "near (po_overdue p) D (Suc j)"
    using near near_keep by blast+
  have late: "is_late midnight today c \<Longrightarrow> is_open c" by (simp add: is_late_def)
  show "near_position q (P + paid_part (c, v, r)) (R + refund_part (c, v, r)) (O' + open_part (c, v, r))
           (D + late_part midnight today (c, v, r)) (Suc j)"
    using add refund keep excl late c
    by (simp add: q near_position_def parts Let_def is_open_def del: num_add.simps)
  show "po_hasOverdue q \<longleftrightarrow> po_hasOverdue p \<or> is_late midnight today c"
    "po_hasCancelled q \<longleftrightarrow> po_hasCancelled p \<or> is_cancelled c"
    "po_hasRefunded q \<longleftrightarrow> po_hasRefunded p \<or> is_refunded c \<or> is_paid c \<and> 0 < r"
    using excl late by (auto simp: q Let_def is_open_def)
qed

definition charge_total :: "(charge_like \<times> int \<times> int) list \<Rightarrow> int" where
  "charge_total cs = (\<Sum>(c, v, r) \<leftarrow> cs. v + r)"

definition total :: "(charge_like \<times> int \<times> int \<Rightarrow> int) \<Rightarrow> (charge_like \<times> int \<times> int) list \<Rightarrow> int" where
  "total part cs = (\<Sum>x \<leftarrow> cs. part x)"

lemma totals_simps [simp]:
  "charge_total [] = 0" "charge_total ((c, v, r) # cs) = v + r + charge_total cs"
  "total part [] = 0" "total part (x # cs) = part x + total part cs"
  by (simp_all add: charge_total_def total_def)

lemma charge_total_nonneg: "\<forall>x \<in> set cs. in_cents x \<Longrightarrow> 0 \<le> charge_total cs"
  by (induction cs) (auto simp: in_cents_def)

lemma part_bounds:
  assumes "in_cents x"
  shows "0 \<le> paid_part x \<and> paid_part x \<le> charge_total [x]" "0 \<le> refund_part x \<and> refund_part x \<le> charge_total [x]"
    "0 \<le> open_part x \<and> open_part x \<le> charge_total [x]"
    "0 \<le> late_part midnight today x \<and> late_part midnight today x \<le> charge_total [x]"
  using assms by (cases x; auto simp: parts in_cents_def)+

lemma total_bounds:
  assumes "\<forall>x \<in> set cs. in_cents x"
  shows "0 \<le> total paid_part cs \<and> total paid_part cs \<le> charge_total cs"
    "0 \<le> total refund_part cs \<and> total refund_part cs \<le> charge_total cs"
    "0 \<le> total open_part cs \<and> total open_part cs \<le> charge_total cs"
  using assms
proof (induction cs)
  case (Cons x cs)
  have total: "charge_total (x # cs) = charge_total [x] + charge_total cs" by (simp add: charge_total_def)
  { case 1 then show ?case using Cons part_bounds(1) [of x] unfolding total by fastforce }
  { case 2 then show ?case using Cons part_bounds(2) [of x] unfolding total by fastforce }
  { case 3 then show ?case using Cons part_bounds(3) [of x] unfolding total by fastforce }
qed simp_all

lemma charges_near:
  fixes midnight today
  defines "run \<equiv> foldl (charge_step midnight today)"
  assumes "\<forall>x \<in> set cs. in_cents x" "near_position p P R O' D j" "j + length cs \<le> 4000"
    and "0 \<le> P" "0 \<le> R" "0 \<le> O'" "0 \<le> D" "P + charge_total cs \<le> 10 ^ 11" "R + charge_total cs \<le> 10 ^ 11"
      "O' + charge_total cs \<le> 10 ^ 11" "D + charge_total cs \<le> 10 ^ 11"
  shows "near_position (run p (map fst cs)) (P + total paid_part cs) (R + total refund_part cs)
           (O' + total open_part cs) (D + total (late_part midnight today) cs) (j + length cs) \<and>
     (po_hasOverdue (run p (map fst cs)) \<longleftrightarrow> po_hasOverdue p \<or> (\<exists>y \<in> set cs. is_late midnight today (fst y))) \<and>
     (po_hasCancelled (run p (map fst cs)) \<longleftrightarrow> po_hasCancelled p \<or> (\<exists>y \<in> set cs. is_cancelled (fst y))) \<and>
     (po_hasRefunded (run p (map fst cs)) \<longleftrightarrow> po_hasRefunded p \<or>
        (\<exists>y \<in> set cs. is_refunded (fst y) \<or> is_paid (fst y) \<and> 0 < snd (snd y)))"
  using assms(2-)
proof (induction cs arbitrary: p P R O' D j)
  case Nil
  then show ?case by (simp add: run_def)
next
  case (Cons x cs)
  obtain c v r where x: "x = (c, v, r)" by (cases x)
  have nn: "0 \<le> v" "0 \<le> r" "0 \<le> charge_total cs"
    using Cons.prems(1) charge_total_nonneg [of cs] by (simp_all add: x in_cents_def)
  let ?p = "charge_step midnight today p c"
  note bounds = part_bounds [of x, unfolded x, simplified]
  have inc: "in_cents (c, v, r)" using Cons.prems(1) x by simp
  note step = charge_step_near [OF inc Cons.prems(2), of midnight today]
  have near: "near_position ?p (P + paid_part x) (R + refund_part x) (O' + open_part x) (D + late_part midnight today x) (Suc j)"
    unfolding x by (rule step(1)) (use Cons.prems nn x in auto)
  have flags: "po_hasOverdue ?p \<longleftrightarrow> po_hasOverdue p \<or> is_late midnight today c"
    "po_hasCancelled ?p \<longleftrightarrow> po_hasCancelled p \<or> is_cancelled c"
    "po_hasRefunded ?p \<longleftrightarrow> po_hasRefunded p \<or> is_refunded c \<or> is_paid c \<and> 0 < r"
    by (rule step; use Cons.prems nn x in auto)+
  have run: "run p (map fst (x # cs)) = run ?p (map fst cs)" by (simp add: run_def x)
  have b: "0 \<le> paid_part x \<and> paid_part x \<le> v + r" "0 \<le> refund_part x \<and> refund_part x \<le> v + r"
    "0 \<le> open_part x \<and> open_part x \<le> v + r" "0 \<le> late_part midnight today x \<and> late_part midnight today x \<le> v + r"
    using part_bounds [OF inc] by (simp_all add: x)
  have next_run: "near_position (run ?p (map fst cs)) (P + paid_part x + total paid_part cs) (R + refund_part x + total refund_part cs)
           (O' + open_part x + total open_part cs) (D + late_part midnight today x + total (late_part midnight today) cs) (Suc j + length cs) \<and>
     (po_hasOverdue (run ?p (map fst cs)) \<longleftrightarrow> po_hasOverdue ?p \<or> (\<exists>y \<in> set cs. is_late midnight today (fst y))) \<and>
     (po_hasCancelled (run ?p (map fst cs)) \<longleftrightarrow> po_hasCancelled ?p \<or> (\<exists>y \<in> set cs. is_cancelled (fst y))) \<and>
     (po_hasRefunded (run ?p (map fst cs)) \<longleftrightarrow> po_hasRefunded ?p \<or> (\<exists>y \<in> set cs. is_refunded (fst y) \<or> is_paid (fst y) \<and> 0 < snd (snd y)))"
    by (rule Cons.IH [OF _ near]) (use Cons.prems b nn x in auto)
  then show ?case unfolding run flags by (simp add: x add.assoc)
qed

text \<open>
  The payment position of a participant is exact to the cent. For charges in cents (up to 2,000
  of together at most 100 million) the amounts the floating-point loop reports are those of the
  integers: what was paid, what was refunded, the net amount that is never negative, what is open
  (at least what the charges leave of the expected amount) and what is overdue. The participant is
  late exactly when an open charge is, otherwise settled exactly when the net amount covers the
  expected one, and no percentage exceeds 100.
\<close>

theorem participant_position_exact:
  fixes midnight today x cs
  assumes cs: "pi_charges x = map fst cs" "cs \<noteq> []" "\<forall>y \<in> set cs. in_cents y" "length cs \<le> 2000" "charge_total cs \<le> 10 ^ 10"
    and e: "event_money (pi_expectedAmount x) = cents e" "0 < e" "e \<le> 10 ^ 10"
  defines "res \<equiv> resolveEventParticipantPayment midnight today x"
    and "net \<equiv> max (total paid_part cs - total refund_part cs) 0"
    and "late \<equiv> \<exists>y \<in> set cs. is_late midnight today (fst y)"
  shows "pr_expectedAmount res = cents e \<and> pr_paidAmount res = cents (total paid_part cs) \<and>
     pr_refundedAmount res = cents (total refund_part cs) \<and> pr_netPaidAmount res = cents net \<and>
     pr_openAmount res = cents (max (total open_part cs) (e - net)) \<and>
     pr_overdueAmount res = cents (total (late_part midnight today) cs) \<and>
     (pr_isFullyPaid res \<longleftrightarrow> e \<le> net) \<and> (pr_hasOverdue res \<longleftrightarrow> late) \<and> \<not> num_less (Fin 100) (pr_percentPaid res) \<and>
     pr_status res = (if late then ATRASADO_EV else if e \<le> net then QUITADO else if 0 < net then EM_DIA
       else if is_true (pi_refunded x) \<or> (\<exists>y \<in> set cs. is_refunded (fst y) \<or> is_paid (fst y) \<and> 0 < snd (snd y)) then ESTORNADO_EV
       else if is_true (pi_cancelled x) \<or> (\<exists>y \<in> set cs. is_cancelled (fst y)) then CANCELADO_EV else PENDENTE_EV)"
proof -
  let ?P = "total paid_part cs" and ?R = "total refund_part cs" and ?O = "total open_part cs"
  let ?D = "total (late_part midnight today) cs"
  define start where "start = start_position x (cents e)"
  define p where "p = foldl (charge_step midnight today) start (map fst cs)"
  have start: "start = \<lparr>po_paid = Fin 0, po_refunded = Fin 0, po_open = Fin 0, po_overdue = Fin 0,
        po_hasOverdue = False, po_hasCancelled = False, po_hasRefunded = is_true (pi_refunded x)\<rparr>"
    using cs(1,2) by (simp add: start_def start_position_def Let_def)
  have run: "near_position p ?P ?R ?O ?D (length cs)"
    and flags: "po_hasOverdue p \<longleftrightarrow> late" "po_hasCancelled p \<longleftrightarrow> (\<exists>y \<in> set cs. is_cancelled (fst y))"
      "po_hasRefunded p \<longleftrightarrow> is_true (pi_refunded x) \<or> (\<exists>y \<in> set cs. is_refunded (fst y) \<or> is_paid (fst y) \<and> 0 < snd (snd y))"
    using charges_near [OF cs(3), of start 0 0 0 0 0 midnight today] cs(4,5)
    by (simp_all add: start near_position_def p_def late_def)
  note tb = total_bounds [OF cs(3)]
  have D: "0 \<le> ?D" "?D \<le> charge_total cs"
  proof -
    have "\<forall>y \<in> set cs. 0 \<le> late_part midnight today y \<and> late_part midnight today y \<le> open_part y"
      using cs(3) by (auto simp: parts in_cents_def is_late_def)
    then have "0 \<le> ?D \<and> ?D \<le> ?O" by (induction cs) auto
    then show "0 \<le> ?D" "?D \<le> charge_total cs" using tb(3) by simp_all
  qed
  have nb: "0 \<le> net" "net \<le> 10 ^ 10" using tb(1,2) cs(5) by (auto simp: net_def)
  have expected: "round_money (cents e) = cents e" using e by (intro round_money_cents) (simp add: max_cents_def)
  have some_expected: "\<not> num_le (cents e) (Fin 0)"
    using num_less_cents_0(3) [of e] e by (simp add: max_cents_def)
  have paid: "round_money (po_paid p) = cents ?P" "round_money (po_refunded p) = cents ?R" "round_money (po_overdue p) = cents ?D"
    using run cs(4,5) tb D unfolding near_position_def
    by (auto intro: round_money_total [where j = "length cs"])
  have "near (num_sub (po_paid p) (po_refunded p)) (?P - ?R) (Suc (length cs + length cs))"
    using run cs(4,5) tb by (intro near_diff) (simp_all add: near_position_def)
  from near_max [OF this near_0] have "round_money (num_max (num_sub (po_paid p) (po_refunded p)) (Fin 0)) = cents net"
    unfolding net_def by (rule round_money_total) (use nb cs(4) in \<open>simp_all add: net_def\<close>)
  note net = this
  have "near (num_sub (cents e) (cents net)) (e - net) (Suc (1 + 1))"
    using e nb by (intro near_diff near_cents) simp_all
  then have "near (num_sub (cents e) (cents net)) (e - net) (length cs + 3)" by (rule near_mono) simp
  moreover have "near (po_open p) ?O (length cs + 3)"
    using run near_mono unfolding near_position_def by fastforce
  ultimately have "near (num_max (po_open p) (num_sub (cents e) (cents net))) (max ?O (e - net)) (length cs + 3)"
    by (intro near_max)
  then have open_amount: "round_money (num_max (po_open p) (num_sub (cents e) (cents net))) = cents (max ?O (e - net))"
    by (rule round_money_total) (use tb(3) cs(4,5) e nb in auto)
  have full: "num_le (cents e) (cents net) \<longleftrightarrow> e \<le> net"
    using e nb by (intro num_less_cents) (simp_all add: max_cents_def)
  have net_pos: "num_less (Fin 0) (cents net) \<longleftrightarrow> 0 < net" "num_le (cents net) (Fin 0) \<longleftrightarrow> net \<le> 0"
    using num_less_cents_0(2,3) [of net] nb by (simp_all add: max_cents_def)
  have percent: "\<not> num_less (Fin 100) (num_min (Fin 100) y)" for y
    by (cases y) (auto simp: num_min_def)
  have charges: "map fst cs \<noteq> []" using cs(2) by simp
  have res: "res = \<lparr>pr_status = participant_status_of p (e \<le> net) (cents net) (is_true (pi_cancelled x)), pr_expectedAmount = cents e,
          pr_paidAmount = cents ?P, pr_refundedAmount = cents ?R, pr_netPaidAmount = cents net,
          pr_openAmount = cents (max ?O (e - net)), pr_overdueAmount = cents ?D,
          pr_percentPaid = (if num_less (Fin 0) (cents e)
            then num_min (Fin 100) (round_money (num_mul (num_div (cents net) (cents e)) (Fin 100))) else Fin 100),
          pr_isFullyPaid = (e \<le> net), pr_hasOverdue = po_hasOverdue p\<rparr>"
    unfolding res_def resolveEventParticipantPayment_def Let_def e(1) expected cs(1) start_def [symmetric] p_def [symmetric]
      net full open_amount paid
    using some_expected charges by simp
  have status: "participant_status_of p (e \<le> net) (cents net) b =
      (if late then ATRASADO_EV else if e \<le> net then QUITADO else if 0 < net then EM_DIA
       else if is_true (pi_refunded x) \<or> (\<exists>y \<in> set cs. is_refunded (fst y) \<or> is_paid (fst y) \<and> 0 < snd (snd y)) then ESTORNADO_EV
       else if b \<or> (\<exists>y \<in> set cs. is_cancelled (fst y)) then CANCELADO_EV else PENDENTE_EV)" for b
    unfolding participant_status_of_def flags net_pos by auto
  show ?thesis unfolding res using flags(1) percent by (simp add: status)
qed

text \<open>Two charges, one paid with a partial refund, the other open.\<close>

definition paid_charge :: charge_like where
  "paid_charge = \<lparr>cl_status = Some ''pago'', cl_value = Some (ANum (cents 5010)), cl_amount = None, cl_paidValue = None,
     cl_refundedValue = Some (ANum (cents 1003)), cl_dueDate = None\<rparr>"

definition open_charge_like :: charge_like where
  "open_charge_like = \<lparr>cl_status = None, cl_value = None, cl_amount = Some (ANum (cents 2005)), cl_paidValue = None,
     cl_refundedValue = None, cl_dueDate = None\<rparr>"

definition sample_payment :: payment_input where
  "sample_payment = \<lparr>pi_expectedAmount = Some (ANum (cents 7015)), pi_charges = [paid_charge, open_charge_like],
     pi_paidFallback = None, pi_cancelled = None, pi_refunded = None, pi_isExempt = None\<rparr>"

lemma participant_position_exact_witness:
  "pr_netPaidAmount (resolveEventParticipantPayment (\<lambda>t. t) (Some 0) sample_payment) = cents 4007 \<and>
   pr_openAmount (resolveEventParticipantPayment (\<lambda>t. t) (Some 0) sample_payment) = cents 3008 \<and>
   pr_status (resolveEventParticipantPayment (\<lambda>t. t) (Some 0) sample_payment) = EM_DIA"
proof -
  let ?cs = "[(paid_charge, 5010, 1003), (open_charge_like, 2005, 0)]"
  have "normalizeStatus (Some ''pago'') = ''PAGO''" "normalizeStatus None = []" by code_simp+
  then have kinds: "is_paid paid_charge" "\<not> is_paid open_charge_like" "\<not> is_refunded open_charge_like" "\<not> is_cancelled open_charge_like"
    "\<not> is_late (\<lambda>t. t) (Some 0) open_charge_like" "\<not> is_refunded paid_charge" "\<not> is_late (\<lambda>t. t) (Some 0) paid_charge"
    by (simp_all add: is_paid_def is_refunded_def is_cancelled_def is_late_def is_open_def isPastDue_def paid_charge_def
        open_charge_like_def PAID_CHARGE_STATUSES_def REFUNDED_CHARGE_STATUSES_def CANCELLED_CHARGE_STATUSES_def
        OVERDUE_CHARGE_STATUSES_def)
  have cents: "\<forall>y \<in> set ?cs. in_cents y"
    by (simp add: in_cents_def chargeValue_def or_amount_def event_money_def paid_charge_def open_charge_like_def)
  have e: "event_money (pi_expectedAmount sample_payment) = cents 7015" "pi_charges sample_payment = map fst ?cs"
    by (simp_all add: sample_payment_def event_money_def)
  have "is_open open_charge_like" using kinds by (simp add: is_open_def)
  then have "paid_part (paid_charge, 5010, 1003) = 5010" "refund_part (paid_charge, 5010, 1003) = 1003"
    "open_part (paid_charge, 5010, 1003) = 0" "paid_part (open_charge_like, 2005, 0) = 0"
    "refund_part (open_charge_like, 2005, 0) = 0" "open_part (open_charge_like, 2005, 0) = 2005"
    using kinds by (simp_all add: parts is_open_def)
  note parts_of = this
  have late: "\<not> (\<exists>y \<in> set ?cs. is_late (\<lambda>t. t) (Some 0) (fst y))" using kinds by simp
  show ?thesis
    using participant_position_exact [of sample_payment ?cs 7015 "\<lambda>t. t" "Some 0", OF e(2) _ cents _ _ e(1)] late
    by (simp add: parts_of)
qed

end
