(* ===== verification/EventLifecycle.thy ===== *)
theory EventLifecycle
  imports JSString CivilDate
begin

text \<open>
  School events beside their money: the status machines of \<^verbatim>\<open>packages/domain/src/events/index.ts\<close>
  (events, ticket lots, ticket sales, costume assignments), the sale window of a lot, the rules of
  event maps and seats of \<^verbatim>\<open>events/map/map-rules.ts\<close>, and the entry checks of
  \<^verbatim>\<open>ticket-payment-eligibility.ts\<close> and \<^verbatim>\<open>map/ticket-sale-access.ts\<close>. Messages are named
  constructors or left out.
\<close>

section \<open>Status machines\<close>

datatype school_event_status = EVENT_DRAFT | EVENT_PLANNING | EVENT_ACTIVE | EVENT_FINISHED | EVENT_CANCELLED | EVENT_ARCHIVED

datatype lot_status = LOT_DRAFT | LOT_ACTIVE | LOT_SOLD_OUT | LOT_CLOSED | LOT_CANCELLED | LOT_ARCHIVED

datatype sale_status = SALE_PENDING | SALE_PAID | SALE_CANCELLED | SALE_REFUNDED | SALE_COMPLIMENTARY

datatype costume_status = COSTUME_PENDING | COSTUME_ORDERED | COSTUME_RECEIVED | COSTUME_DELIVERED | COSTUME_RETURNED
  | COSTUME_DAMAGED | COSTUME_LOST | COSTUME_CANCELLED

datatype map_status = MAP_DRAFT | MAP_PUBLISHED | MAP_ARCHIVED

fun event_transitions :: "school_event_status \<Rightarrow> school_event_status list" where
  "event_transitions EVENT_DRAFT = [EVENT_PLANNING]"
| "event_transitions EVENT_PLANNING = [EVENT_ACTIVE, EVENT_CANCELLED]"
| "event_transitions EVENT_ACTIVE = [EVENT_FINISHED, EVENT_CANCELLED]"
| "event_transitions EVENT_FINISHED = [EVENT_ARCHIVED, EVENT_ACTIVE]"
| "event_transitions EVENT_CANCELLED = [EVENT_ARCHIVED]"
| "event_transitions EVENT_ARCHIVED = [EVENT_FINISHED]"

fun lot_transitions :: "lot_status \<Rightarrow> lot_status list" where
  "lot_transitions LOT_DRAFT = [LOT_ACTIVE]"
| "lot_transitions LOT_ACTIVE = [LOT_SOLD_OUT, LOT_CLOSED, LOT_CANCELLED]"
| "lot_transitions LOT_SOLD_OUT = [LOT_CLOSED]"
| "lot_transitions LOT_CLOSED = [LOT_ARCHIVED]"
| "lot_transitions LOT_CANCELLED = []"
| "lot_transitions LOT_ARCHIVED = []"

fun sale_transitions :: "sale_status \<Rightarrow> sale_status list" where
  "sale_transitions SALE_PENDING = [SALE_PAID, SALE_CANCELLED]"
| "sale_transitions SALE_PAID = [SALE_REFUNDED]"
| "sale_transitions SALE_CANCELLED = []"
| "sale_transitions SALE_REFUNDED = []"
| "sale_transitions SALE_COMPLIMENTARY = [SALE_CANCELLED]"

fun costume_transitions :: "costume_status \<Rightarrow> costume_status list" where
  "costume_transitions COSTUME_PENDING = [COSTUME_ORDERED, COSTUME_CANCELLED]"
| "costume_transitions COSTUME_ORDERED = [COSTUME_PENDING, COSTUME_RECEIVED, COSTUME_CANCELLED]"
| "costume_transitions COSTUME_RECEIVED = [COSTUME_DELIVERED, COSTUME_CANCELLED]"
| "costume_transitions COSTUME_DELIVERED = [COSTUME_RETURNED, COSTUME_DAMAGED, COSTUME_LOST, COSTUME_CANCELLED]"
| "costume_transitions COSTUME_RETURNED = [COSTUME_PENDING, COSTUME_ORDERED, COSTUME_RECEIVED, COSTUME_DELIVERED]"
| "costume_transitions COSTUME_DAMAGED = []"
| "costume_transitions COSTUME_LOST = []"
| "costume_transitions COSTUME_CANCELLED = []"

fun map_transitions :: "map_status \<Rightarrow> map_status list" where
  "map_transitions MAP_DRAFT = [MAP_PUBLISHED, MAP_ARCHIVED]"
| "map_transitions MAP_PUBLISHED = [MAP_PUBLISHED, MAP_ARCHIVED, MAP_DRAFT]"
| "map_transitions MAP_ARCHIVED = []"

text \<open>A transition is accepted when nothing changes or the table has it.\<close>

definition transitionResult :: "('a \<Rightarrow> 'a list) \<Rightarrow> 'a \<Rightarrow> 'a \<Rightarrow> bool" where
  "transitionResult transitions current next_status \<longleftrightarrow>
     (if current = next_status then True else next_status \<in> set (transitions current))"

definition validateSchoolEventStatusTransition :: "school_event_status \<Rightarrow> school_event_status \<Rightarrow> bool" where
  "validateSchoolEventStatusTransition = transitionResult event_transitions"

definition validateTicketLotStatusTransition :: "lot_status \<Rightarrow> lot_status \<Rightarrow> bool" where
  "validateTicketLotStatusTransition = transitionResult lot_transitions"

definition validateTicketSaleStatusTransition :: "sale_status \<Rightarrow> sale_status \<Rightarrow> bool" where
  "validateTicketSaleStatusTransition = transitionResult sale_transitions"

definition validateCostumeAssignmentStatusTransition :: "costume_status \<Rightarrow> costume_status \<Rightarrow> bool" where
  "validateCostumeAssignmentStatusTransition = transitionResult costume_transitions"

definition validateEventMapStatusTransition :: "map_status \<Rightarrow> map_status \<Rightarrow> bool" where
  "validateEventMapStatusTransition = transitionResult map_transitions"

record sale_window =
  sw_status :: string
  sw_saleStartsAt :: "date_value option"
  sw_saleEndsAt :: "date_value option"

definition isEventTicketLotOpenForSale :: "sale_window \<Rightarrow> date_value \<Rightarrow> bool" where
  "isEventTicketLotOpenForSale lot now_time \<longleftrightarrow> sw_status lot = ''ACTIVE'' \<and>
     (case sw_saleStartsAt lot of None \<Rightarrow> True | Some s \<Rightarrow> date_le s now_time) \<and>
     (case sw_saleEndsAt lot of None \<Rightarrow> True | Some e \<Rightarrow> date_le now_time e)"

definition isEventRevenueExpectedStatus :: "string \<Rightarrow> bool" where
  "isEventRevenueExpectedStatus s \<longleftrightarrow>
     s \<in> {''EXPECTED'', ''PENDING'', ''RECEIVED'', ''PARTIALLY_PAID'', ''PARTIALLY_REFUNDED''}"

definition isEventRevenueRealizedStatus :: "string \<Rightarrow> bool" where
  "isEventRevenueRealizedStatus s \<longleftrightarrow>
     s \<in> {''RECEIVED'', ''PENDING'', ''PARTIALLY_PAID'', ''PARTIALLY_REFUNDED'', ''REFUNDED''}"

definition isEventCostExpectedStatus :: "string \<Rightarrow> bool" where
  "isEventCostExpectedStatus s \<longleftrightarrow> s \<in> {''EXPECTED'', ''PENDING'', ''PAID'', ''PARTIALLY_PAID''}"

definition isEventCostRealizedStatus :: "string \<Rightarrow> bool" where
  "isEventCostRealizedStatus s \<longleftrightarrow> s \<in> {''PAID'', ''PARTIALLY_PAID'', ''PARTIALLY_REFUNDED''}"

section \<open>ticket-payment-eligibility.ts and ticket-sale-access.ts\<close>

definition BLOCKED_TICKET_PAYMENT_STATUSES :: "string set" where
  "BLOCKED_TICKET_PAYMENT_STATUSES = {''REFUND_REQUESTED'', ''REFUND_IN_PROGRESS'', ''PAYMENT_REFUND_IN_PROGRESS'',
     ''REFUNDED'', ''PAYMENT_REFUNDED'', ''CHARGEBACK_REQUESTED'', ''CHARGEBACK_DISPUTE'', ''IN_DISPUTE'',
     ''AWAITING_CHARGEBACK_REVERSAL'', ''DISPUTE_LOST'', ''CHARGEBACK'', ''REQUESTED'', ''DONE'', ''CHARGEBACK_UNKNOWN''}"

definition CHARGEBACK_PAYMENT_HOLD_STATUSES :: "string set" where
  "CHARGEBACK_PAYMENT_HOLD_STATUSES = {''REQUESTED'', ''CHARGEBACK_REQUESTED'', ''IN_DISPUTE'', ''CHARGEBACK_DISPUTE'',
     ''AWAITING_CHARGEBACK_REVERSAL'', ''DISPUTE_LOST'', ''CHARGEBACK'', ''DONE'', ''CHARGEBACK_UNKNOWN''}"

definition upper_status :: "string option \<Rightarrow> string" where
  "upper_status s = js_upper (js_trim (case s of None \<Rightarrow> [] | Some t \<Rightarrow> t))"

definition isTicketPaymentBlocked :: "string option \<Rightarrow> bool" where
  "isTicketPaymentBlocked s \<longleftrightarrow> upper_status s \<in> BLOCKED_TICKET_PAYMENT_STATUSES"

definition isEventMapOrderRefundFinalized :: "string option \<Rightarrow> string option \<Rightarrow> bool" where
  "isEventMapOrderRefundFinalized orderStatus paymentStatus \<longleftrightarrow>
     (orderStatus \<noteq> None \<and> upper_status orderStatus = ''REFUNDED'') \<or>
     upper_status paymentStatus \<in> {''REFUNDED'', ''PAYMENT_REFUNDED''}"

definition mayResolveChargebackPaymentHold :: "string option \<Rightarrow> string option \<Rightarrow> bool" where
  "mayResolveChargebackPaymentHold paymentStatus chargebackStatus \<longleftrightarrow>
     (chargebackStatus \<noteq> None \<and> upper_status chargebackStatus = ''REVERSED'') \<and>
     upper_status paymentStatus \<in> CHARGEBACK_PAYMENT_HOLD_STATUSES"

definition canPrintStaffSaleTickets :: "string \<Rightarrow> bool" where
  "canPrintStaffSaleTickets status \<longleftrightarrow> status \<in> {''PAID'', ''COMPLIMENTARY''}"

definition buildStaffSaleTicketsUrl :: "string \<Rightarrow> string \<Rightarrow> int \<Rightarrow> string option" where
  "buildStaffSaleTicketsUrl saleId status seatedCount =
     (if seatedCount = 0 \<or> \<not> canPrintStaffSaleTickets status then None
      else Some (''/api/events/ticket-sales/'' @ saleId @ ''/tickets''))"

section \<open>map-rules.ts\<close>

datatype ticket_mode = TICKETS_NONE | TICKETS_SIMPLE | TICKETS_NUMBERED_SEATS

datatype seat_status = SEAT_AVAILABLE | SEAT_HELD | SEAT_SOLD | SEAT_BLOCKED | SEAT_COMPLIMENTARY | SEAT_UNAVAILABLE

definition MAX_EVENT_MAPS_PER_EVENT :: int where
  "MAX_EVENT_MAPS_PER_EVENT = 5"

fun map_panel_order :: "map_status \<Rightarrow> jsnum" where
  "map_panel_order MAP_PUBLISHED = Fin 0"
| "map_panel_order MAP_DRAFT = Fin 1"
| "map_panel_order MAP_ARCHIVED = Fin 2"

record map_section =
  ms_id :: string
  ms_name :: string
  ms_lotId :: "string option"

record map_seat =
  st_id :: string
  st_sectionId :: "string option"
  st_status :: seat_status
  st_publicVisible :: "bool option"

record publishable_map =
  pm_ticketMode :: ticket_mode
  pm_levelsCount :: nat
  pm_sections :: "map_section list"
  pm_seats :: "map_seat list"

datatype publish_error = NOT_NUMBERED_SEATS | NO_LEVEL | NO_SECTION | SECTION_WITHOUT_LOT | NO_SEAT | SEAT_WITHOUT_SECTION
  | NO_AVAILABLE_SEAT

definition validatePublishableEventMap :: "publishable_map \<Rightarrow> publish_error list + unit" where
  "validatePublishableEventMap m =
     (let errors =
        (if pm_ticketMode m \<noteq> TICKETS_NUMBERED_SEATS then [NOT_NUMBERED_SEATS] else []) @
        (if pm_levelsCount m = 0 then [NO_LEVEL] else []) @
        (if pm_sections m = [] then [NO_SECTION] else []) @
        (if filter (\<lambda>s. \<not> truthy (ms_lotId s)) (pm_sections m) \<noteq> [] then [SECTION_WITHOUT_LOT] else []) @
        (if pm_seats m = [] then [NO_SEAT] else []) @
        (if filter (\<lambda>s. \<not> truthy (st_sectionId s)) (pm_seats m) \<noteq> [] then [SEAT_WITHOUT_SECTION] else []) @
        (if filter (\<lambda>s. st_status s = SEAT_AVAILABLE \<and> st_publicVisible s \<noteq> Some False) (pm_seats m) = []
         then [NO_AVAILABLE_SEAT] else [])
      in if errors \<noteq> [] then Inl errors else Inr ())"

definition canEditEventMapDraft :: "map_status \<Rightarrow> bool" where
  "canEditEventMapDraft s \<longleftrightarrow> s = MAP_DRAFT \<or> s = MAP_PUBLISHED"

definition canCreateEventMap :: "int \<Rightarrow> bool" where
  "canCreateEventMap mapCount \<longleftrightarrow> mapCount < MAX_EVENT_MAPS_PER_EVENT"

definition isOperationalEventMapStatus :: "map_status \<Rightarrow> bool" where
  "isOperationalEventMapStatus s \<longleftrightarrow> s \<noteq> MAP_ARCHIVED"

datatype deletion_action = MAP_DELETE | MAP_ARCHIVE | MAP_DEMOTE_TO_DRAFT | MAP_BLOCK

definition resolvePublishedMapReplacement :: "int \<Rightarrow> deletion_action" where
  "resolvePublishedMapReplacement ordersCount = (if 0 < ordersCount then MAP_ARCHIVE else MAP_DEMOTE_TO_DRAFT)"

record event_map =
  em_id :: string
  em_status :: map_status
  em_updatedAt :: date_value

text \<open>The difference of two times is not a number when one of the dates is invalid.\<close>

definition time_diff :: "date_value \<Rightarrow> date_value \<Rightarrow> jsnum" where
  "time_diff a b = (case (a, b) of (Some s, Some t) \<Rightarrow> num_sub (num_int s) (num_int t) | _ \<Rightarrow> NaN)"

definition map_display_cmp :: "event_map \<Rightarrow> event_map \<Rightarrow> jsnum" where
  "map_display_cmp l r = (let statusDiff = num_sub (map_panel_order (em_status l)) (map_panel_order (em_status r))
     in if statusDiff \<noteq> Fin 0 then statusDiff else time_diff (em_updatedAt r) (em_updatedAt l))"

definition sortEventMapsForDisplay :: "event_map list \<Rightarrow> event_map list" where
  "sortEventMapsForDisplay maps = sort_by map_display_cmp maps"

definition resolveActivePublishedEventMap :: "event_map list \<Rightarrow> event_map option" where
  "resolveActivePublishedEventMap maps =
     (let published = filter (\<lambda>m. em_status m = MAP_PUBLISHED) maps in
      if published = [] then None
      else (case sortEventMapsForDisplay published of [] \<Rightarrow> None | m # _ \<Rightarrow> Some m))"

definition trim_or_null :: "string option \<Rightarrow> string option" where
  "trim_or_null s = (case s of None \<Rightarrow> None | Some t \<Rightarrow> if js_trim t = [] then None else Some (js_trim t))"

definition lotBySectionId :: "map_section list \<Rightarrow> string \<Rightarrow> string option option" where
  "lotBySectionId sections = map_of (rev (map (\<lambda>s. (ms_id s, trim_or_null (ms_lotId s))) sections))"

text \<open>The lot a seat counts for: none when it is hidden, its section unknown or without a lot.\<close>

definition seat_lot :: "map_section list \<Rightarrow> map_seat \<Rightarrow> string option" where
  "seat_lot sections s =
     (if st_publicVisible s = Some False then None
      else case st_sectionId s of None \<Rightarrow> None
        | Some sec \<Rightarrow> (case lotBySectionId sections sec of Some (Some lot) \<Rightarrow> Some lot | _ \<Rightarrow> None))"

definition count_seat :: "map_section list \<Rightarrow> (string \<rightharpoonup> int) \<Rightarrow> map_seat \<Rightarrow> (string \<rightharpoonup> int)" where
  "count_seat sections capacity s = (case seat_lot sections s of None \<Rightarrow> capacity
     | Some lot \<Rightarrow> capacity(lot \<mapsto> (case capacity lot of None \<Rightarrow> 0 | Some n \<Rightarrow> n) + 1))"

definition countTicketLotCapacitiesFromMap :: "map_section list \<Rightarrow> map_seat list \<Rightarrow> (string \<rightharpoonup> int)" where
  "countTicketLotCapacitiesFromMap sections seats = foldl (count_seat sections) Map.empty seats"

definition decideEventMapDeletion :: "map_status \<Rightarrow> int \<Rightarrow> int \<Rightarrow> deletion_action" where
  "decideEventMapDeletion status versionsCount ordersCount =
     (if status = MAP_ARCHIVED then MAP_BLOCK
      else if 0 < ordersCount \<or> 0 < versionsCount then MAP_ARCHIVE
      else if status = MAP_PUBLISHED then MAP_DEMOTE_TO_DRAFT else MAP_DELETE)"

datatype selection_error = NO_SEAT_SELECTED | TOO_MANY_SEATS | SEAT_NOT_FOUND | SEAT_NOT_AVAILABLE

text \<open>\<^verbatim>\<open>[...new Set(ids.map(trim).filter(Boolean))]\<close>: the first occurrence of each id.\<close>

definition unique_ids :: "string list \<Rightarrow> string list" where
  "unique_ids ids = rev (remdups (rev (filter (\<lambda>s. s \<noteq> []) (map js_trim ids))))"

definition seatsById :: "map_seat list \<Rightarrow> string \<Rightarrow> map_seat option" where
  "seatsById seats = map_of (rev (map (\<lambda>s. (st_id s, s)) seats))"

text \<open>The two selections differ in which found seat counts as available.\<close>

definition select_seats ::
    "(map_seat \<Rightarrow> bool) \<Rightarrow> string list \<Rightarrow> map_seat list \<Rightarrow> int option \<Rightarrow> selection_error + string list" where
  "select_seats available requested seats maxSeats =
     (let ids = unique_ids requested in
      if ids = [] then Inl NO_SEAT_SELECTED
      else if maxSeats \<noteq> None \<and> the maxSeats < int (length ids) then Inl TOO_MANY_SEATS
      else if filter (\<lambda>i. seatsById seats i = None) ids \<noteq> [] then Inl SEAT_NOT_FOUND
      else if filter (\<lambda>i. case seatsById seats i of None \<Rightarrow> True | Some s \<Rightarrow> \<not> available s) ids \<noteq> []
      then Inl SEAT_NOT_AVAILABLE else Inr ids)"

definition validatePublicSeatSelection :: "string list \<Rightarrow> map_seat list \<Rightarrow> int option \<Rightarrow> selection_error + string list" where
  "validatePublicSeatSelection = select_seats (\<lambda>s. \<not> (st_publicVisible s = Some False \<or> st_status s \<noteq> SEAT_AVAILABLE))"

definition STAFF_SEAT_RESERVATION_TTL_MINUTES :: int where
  "STAFF_SEAT_RESERVATION_TTL_MINUTES = 15"

text \<open>A seat found under an id carries that id, so the held seats are tested on the id of the seat.\<close>

definition validateStaffSeatSelection ::
    "string list \<Rightarrow> map_seat list \<Rightarrow> string list \<Rightarrow> int option \<Rightarrow> selection_error + string list" where
  "validateStaffSeatSelection requested seats ownHeld =
     select_seats (\<lambda>s. st_status s = SEAT_AVAILABLE \<or> (st_status s = SEAT_HELD \<and> st_id s \<in> set ownHeld)) requested seats"

definition isPublicEventMapVisible :: "map_status \<Rightarrow> bool \<Rightarrow> string option \<Rightarrow> bool" where
  "isPublicEventMapVisible status publicEnabled publishedVersionId \<longleftrightarrow>
     status = MAP_PUBLISHED \<and> publicEnabled \<and> truthy publishedVersionId"

definition groupStaffSeatsByLot :: "('a \<Rightarrow> string option) \<Rightarrow> 'a list \<Rightarrow> (string \<rightharpoonup> 'a list)" where
  "groupStaffSeatsByLot lotId seats = foldl (\<lambda>groups s. case trim_or_null (lotId s) of None \<Rightarrow> groups
     | Some lot \<Rightarrow> groups(lot \<mapsto> (case groups lot of None \<Rightarrow> [] | Some g \<Rightarrow> g) @ [s])) Map.empty seats"

section \<open>The machines keep the contract of a transition table\<close>

interpretation lot: transition_table lot_transitions "\<lambda>s. s \<in> {LOT_CANCELLED, LOT_ARCHIVED}"
proof
  show "(s \<in> {LOT_CANCELLED, LOT_ARCHIVED}) = (lot_transitions s = [])" for s by (cases s) simp_all
qed

interpretation sale: transition_table sale_transitions "\<lambda>s. s \<in> {SALE_CANCELLED, SALE_REFUNDED}"
proof
  show "(s \<in> {SALE_CANCELLED, SALE_REFUNDED}) = (sale_transitions s = [])" for s by (cases s) simp_all
qed

interpretation costume: transition_table costume_transitions "\<lambda>s. s \<in> {COSTUME_DAMAGED, COSTUME_LOST, COSTUME_CANCELLED}"
proof
  show "(s \<in> {COSTUME_DAMAGED, COSTUME_LOST, COSTUME_CANCELLED}) = (costume_transitions s = [])" for s by (cases s) simp_all
qed

interpretation event_map: transition_table map_transitions "\<lambda>s. \<not> isOperationalEventMapStatus s"
proof
  show "(\<not> isOperationalEventMapStatus s) = (map_transitions s = [])" for s
    by (cases s) (simp_all add: isOperationalEventMapStatus_def)
qed

text \<open>An event is the exception: no status of it is final, and archiving a cancelled event lets it be resumed.\<close>

lemma cancelled_event_resumes: "table_reach event_transitions EVENT_CANCELLED EVENT_ACTIVE"
proof -
  have "table_reach event_transitions EVENT_CANCELLED EVENT_ARCHIVED" by (rule table_step [OF table_refl]) simp
  then have "table_reach event_transitions EVENT_CANCELLED EVENT_FINISHED" by (rule table_step) simp
  then show ?thesis by (rule table_step) simp
qed

lemma archived_map_stays: "table_reach map_transitions MAP_ARCHIVED s \<Longrightarrow> s = MAP_ARCHIVED"
  by (rule event_map.terminal_absorbing) (simp_all add: isOperationalEventMapStatus_def)

lemma refunded_sale_stays: "table_reach sale_transitions SALE_REFUNDED s \<Longrightarrow> s = SALE_REFUNDED"
  by (rule sale.terminal_absorbing) simp_all

section \<open>Capacities of lots\<close>

lemma count_seats_fold:
  "foldl (count_seat sections) capacity seats lot =
     (let n = int (length (filter (\<lambda>s. seat_lot sections s = Some lot) seats))
      in if n = 0 then capacity lot else Some ((case capacity lot of None \<Rightarrow> 0 | Some k \<Rightarrow> k) + n))"
proof (induction seats arbitrary: capacity)
  case (Cons s seats)
  show ?case
  proof (cases "seat_lot sections s = Some lot")
    case True
    then have "count_seat sections capacity s = capacity(lot \<mapsto> (case capacity lot of None \<Rightarrow> 0 | Some n \<Rightarrow> n) + 1)"
      by (simp add: count_seat_def)
    with True show ?thesis by (simp add: Cons Let_def)
  next
    case False
    then have "count_seat sections capacity s lot = capacity lot"
      by (auto simp: count_seat_def split: option.splits)
    with False show ?thesis by (simp add: Cons Let_def)
  qed
qed (simp add: Let_def)

text \<open>The capacity of a lot is the number of visible seats in its sections, in whatever order they are stored.\<close>

lemma lot_capacity_counts_seats:
  "countTicketLotCapacitiesFromMap sections seats lot =
     (let n = int (length (filter (\<lambda>s. seat_lot sections s = Some lot) seats)) in if n = 0 then None else Some n)"
  by (simp add: countTicketLotCapacitiesFromMap_def count_seats_fold Let_def)

section \<open>Selecting seats\<close>

lemma unique_ids_props: "distinct (unique_ids ids)" "set (unique_ids ids) = js_trim ` set ids - {[]}"
  by (auto simp: unique_ids_def)

lemma seatsById_Some: "seatsById seats i = Some s \<Longrightarrow> s \<in> set seats \<and> st_id s = i"
  unfolding seatsById_def by (auto dest: map_of_SomeD)

lemma map_of_map_values:
  assumes "\<And>s. st_id (f s) = st_id s"
  shows "seatsById (map f seats) i = map_option f (seatsById seats i)"
proof -
  have "rev (map (\<lambda>s. (st_id s, s)) (map f seats)) = map (\<lambda>(k, s). (k, f s)) (rev (map (\<lambda>s. (st_id s, s)) seats))"
    by (simp add: rev_map o_def assms)
  then show ?thesis by (simp add: seatsById_def map_of_map)
qed

lemma select_seats_ok:
  "select_seats available requested seats maxSeats = Inr ids \<longleftrightarrow>
     ids = unique_ids requested \<and> ids \<noteq> [] \<and> (\<forall>m. maxSeats = Some m \<longrightarrow> int (length ids) \<le> m) \<and>
     (\<forall>i \<in> set ids. \<exists>s. seatsById seats i = Some s \<and> available s)"
  by (auto simp: select_seats_def Let_def filter_empty_conv split: option.splits if_splits)

lemma select_seats_mono:
  assumes "select_seats available requested seats maxSeats = Inr ids" "\<And>s. available s \<Longrightarrow> available' s"
  shows "select_seats available' requested seats maxSeats = Inr ids"
  using assms unfolding select_seats_ok by blast

text \<open>Holding the selected seats, as the sale does next.\<close>

definition hold_seats :: "string list \<Rightarrow> map_seat list \<Rightarrow> map_seat list" where
  "hold_seats ids seats = map (\<lambda>s. if st_id s \<in> set ids then s\<lparr>st_status := SEAT_HELD\<rparr> else s) seats"

lemma seatsById_hold:
  "seatsById (hold_seats ids seats) i =
     map_option (\<lambda>s. if st_id s \<in> set ids then s\<lparr>st_status := SEAT_HELD\<rparr> else s) (seatsById seats i)"
  unfolding hold_seats_def by (rule map_of_map_values) simp

lemma seatsById_held:
  assumes hit: "seatsById (hold_seats ids seats) i = Some s" and mem: "i \<in> set ids"
  shows "st_status s = SEAT_HELD" "st_id s = i"
proof -
  obtain t where t: "seatsById seats i = Some t" "s = (if st_id t \<in> set ids then t\<lparr>st_status := SEAT_HELD\<rparr> else t)"
    using hit unfolding seatsById_hold map_option_eq_Some by blast
  have "st_id t = i" using seatsById_Some [OF t(1)] by simp
  with t(2) mem show "st_status s = SEAT_HELD" "st_id s = i" by simp_all
qed

text \<open>
  C36. Selecting seats. An accepted public selection consists of the requested seats, each once, at
  most as many as allowed, all known, visible and available. Once they are held, no accepted public
  selection contains one of them, so no seat goes to two buyers, and a staff sale may take it only
  when it holds the seat itself. Staff accepts whatever the public may select.
\<close>

theorem seat_selection_exclusive:
  "(validatePublicSeatSelection requested seats maxSeats = Inr ids \<longrightarrow>
      distinct ids \<and> ids \<noteq> [] \<and> set ids = js_trim ` set requested - {[]} \<and>
      (\<forall>m. maxSeats = Some m \<longrightarrow> int (length ids) \<le> m) \<and>
      (\<forall>i \<in> set ids. \<exists>s \<in> set seats. st_id s = i \<and> st_status s = SEAT_AVAILABLE \<and> st_publicVisible s \<noteq> Some False) \<and>
      validateStaffSeatSelection requested seats own maxSeats = Inr ids) \<and>
   (validatePublicSeatSelection requested' (hold_seats ids seats) maxSeats' = Inr ids' \<longrightarrow> set ids \<inter> set ids' = {}) \<and>
   (validateStaffSeatSelection requested' (hold_seats ids seats) own maxSeats' = Inr ids' \<longrightarrow>
      set ids \<inter> set ids' \<subseteq> set own)"
proof (intro conjI impI)
  assume ok: "validatePublicSeatSelection requested seats maxSeats = Inr ids"
  then have sel: "ids = unique_ids requested" "ids \<noteq> []" "\<forall>m. maxSeats = Some m \<longrightarrow> int (length ids) \<le> m"
    "\<forall>i \<in> set ids. \<exists>s. seatsById seats i = Some s \<and> \<not> (st_publicVisible s = Some False \<or> st_status s \<noteq> SEAT_AVAILABLE)"
    unfolding validatePublicSeatSelection_def select_seats_ok by blast+
  show "distinct ids" "set ids = js_trim ` set requested - {[]}" using unique_ids_props sel(1) by blast+
  show "ids \<noteq> []" "\<forall>m. maxSeats = Some m \<longrightarrow> int (length ids) \<le> m" by (fact sel)+
  show "\<forall>i \<in> set ids. \<exists>s \<in> set seats. st_id s = i \<and> st_status s = SEAT_AVAILABLE \<and> st_publicVisible s \<noteq> Some False"
    using sel(4) seatsById_Some by blast
  show "validateStaffSeatSelection requested seats own maxSeats = Inr ids"
    using ok unfolding validatePublicSeatSelection_def validateStaffSeatSelection_def
    by (rule select_seats_mono) simp
next
  assume "validatePublicSeatSelection requested' (hold_seats ids seats) maxSeats' = Inr ids'"
  then have "\<forall>i \<in> set ids'. \<exists>s. seatsById (hold_seats ids seats) i = Some s \<and> st_status s = SEAT_AVAILABLE"
    unfolding validatePublicSeatSelection_def select_seats_ok by blast
  then show "set ids \<inter> set ids' = {}" using seatsById_held by (metis seat_status.distinct(1) disjoint_iff)
next
  assume "validateStaffSeatSelection requested' (hold_seats ids seats) own maxSeats' = Inr ids'"
  then have staff: "\<forall>i \<in> set ids'. \<exists>s. seatsById (hold_seats ids seats) i = Some s \<and>
      (st_status s = SEAT_AVAILABLE \<or> st_status s = SEAT_HELD \<and> st_id s \<in> set own)"
    unfolding validateStaffSeatSelection_def select_seats_ok by blast
  show "set ids \<inter> set ids' \<subseteq> set own"
  proof
    fix i assume i: "i \<in> set ids \<inter> set ids'"
    with staff obtain s where s: "seatsById (hold_seats ids seats) i = Some s"
      "st_status s = SEAT_AVAILABLE \<or> st_status s = SEAT_HELD \<and> st_id s \<in> set own" by blast
    then show "i \<in> set own" using seatsById_held [OF s(1)] i by simp
  qed
qed

definition seat_a1 :: map_seat where
  "seat_a1 = \<lparr>st_id = ''A1'', st_sectionId = Some ''A'', st_status = SEAT_AVAILABLE, st_publicVisible = None\<rparr>"

lemma seat_selection_exclusive_witness:
  "validatePublicSeatSelection ['' A1'', ''A1''] [seat_a1] (Some 1) = Inr [''A1''] \<and>
   validateStaffSeatSelection ['' A1'', ''A1''] [seat_a1] [] (Some 1) = Inr [''A1'']"
proof -
  have "validatePublicSeatSelection ['' A1'', ''A1''] [seat_a1] (Some 1) = Inr [''A1'']" by code_simp
  then show ?thesis
    using seat_selection_exclusive [of "['' A1'', ''A1'']" "[seat_a1]" "Some 1" "[''A1'']" "[]"] by blast
qed

end
