(* ===== verification/EventMetrics.thy ===== *)
theory EventMetrics
  imports EventPayments EventLifecycle
begin

text \<open>
  The financial metrics of a school event, \<^verbatim>\<open>calculateEventMetrics\<close> of
  \<^verbatim>\<open>packages/domain/src/events/index.ts\<close>: forecast and realized revenue and cost from the ticket
  sales, financial entries, costumes and participant obligations, with the queue of
  inconsistencies. Unicode decomposition with the removal of the marks, which the comparison of a
  category uses, is the parameter \<open>unmark\<close>.
\<close>

section \<open>Input\<close>

datatype entry_type = ENTRY_COST | ENTRY_REVENUE

datatype entry_origin = ORIGIN_MANUAL | ORIGIN_EVENT_REGISTRATION | ORIGIN_TICKET_SALE | ORIGIN_COSTUME
  | ORIGIN_COSTUME_ASSIGNMENT

datatype cost_class = CLASS_DIRECT | CLASS_INDIRECT | CLASS_FINANCIAL | CLASS_TAX

datatype costume_billing = INCLUDED_IN_REGISTRATION_FEE | SEPARATE_CHARGE | FREE_COSTUME

record metric_sale =
  sl_status :: sale_status
  sl_quantity :: jsnum
  sl_totalAmount :: "amount option"
  sl_refundedAmount :: "amount option"

record metric_lot =
  lt_status :: lot_status
  lt_quantityTotal :: jsnum
  lt_quantitySold :: jsnum

record metric_entry =
  fe_id :: "string option"
  fe_type :: entry_type
  fe_status :: string
  fe_expectedAmount :: "amount option"
  fe_actualAmount :: "amount option"
  fe_grossAmount :: "amount option"
  fe_discountAmount :: "amount option"
  fe_refundedAmount :: "amount option"
  fe_originType :: "entry_origin option"
  fe_originId :: "string option"
  fe_costClass :: "cost_class option"
  fe_category :: "string option"

record metric_assignment =
  as_revenueEntryId :: "string option"
  as_status :: costume_status
  as_billingMode :: "costume_billing option"
  as_chargedValue :: "amount option"
  as_isPaid :: "bool option"

record metric_costume =
  co_id :: "string option"
  co_schoolCost :: "amount option"
  co_quantity :: jsnum

record metric_obligation =
  ob_id :: string
  ob_revenueEntryId :: "string option"
  ob_grossAmount :: "amount option"
  ob_discountAmount :: "amount option"
  ob_expectedAmount :: "amount option"
  ob_actualAmount :: "amount option"
  ob_refundedAmount :: "amount option"
  ob_isExempt :: "bool option"
  ob_cancelled :: "bool option"

record metrics_input =
  mi_sales :: "metric_sale list"
  mi_lots :: "metric_lot list"
  mi_entries :: "metric_entry list"
  mi_assignments :: "metric_assignment list"
  mi_costumes :: "metric_costume list"
  mi_obligations :: "metric_obligation list"

section \<open>Helpers\<close>

definition js_lower_char :: "char \<Rightarrow> char" where
  "js_lower_char c = (let n = of_char c :: nat in if 65 \<le> n \<and> n \<le> 90 then char_of (n + 32) else c)"

definition isAutomaticEventFinance :: "metric_entry \<Rightarrow> bool" where
  "isAutomaticEventFinance e \<longleftrightarrow> fe_type e = ENTRY_REVENUE \<and>
     fe_originType e \<in> {Some ORIGIN_TICKET_SALE, Some ORIGIN_COSTUME_ASSIGNMENT, Some ORIGIN_COSTUME}"

definition isUnlinkedEventParticipantFeeEntry :: "(string \<Rightarrow> string) \<Rightarrow> metric_entry \<Rightarrow> bool" where
  "isUnlinkedEventParticipantFeeEntry unmark e \<longleftrightarrow>
     (if fe_type e \<noteq> ENTRY_REVENUE \<or> fe_originType e \<noteq> Some ORIGIN_MANUAL \<or> truthy (fe_originId e) then False
      else map js_lower_char (js_trim (unmark (case fe_category e of None \<Rightarrow> [] | Some c \<Rightarrow> c))) = ''taxa de inscricao'')"

definition net_realized :: "jsnum \<Rightarrow> jsnum \<Rightarrow> jsnum" where
  "net_realized actual refunded = getEventNetRealizedAmount (Some (ANum actual)) (Some (ANum refunded))"

text \<open>More than a cent apart.\<close>

definition mismatch :: "jsnum \<Rightarrow> jsnum \<Rightarrow> jsnum \<Rightarrow> bool" where
  "mismatch gross discount expected \<longleftrightarrow>
     num_less (of_exact (1 / 100)) (num_abs (num_sub (num_sub gross discount) expected))"

definition or_unknown :: "string option \<Rightarrow> string" where
  "or_unknown s = (case s of None \<Rightarrow> ''unknown'' | Some t \<Rightarrow> t)"

section \<open>The running totals\<close>

record totals =
  receitaPrevista :: jsnum
  receitaBrutaPrevista :: jsnum
  descontosPrevistos :: jsnum
  receitaRealizada :: jsnum
  receitaRecebidaBruta :: jsnum
  receitaEstornada :: jsnum
  receitaLiquidaIngressos :: jsnum
  custoPrevisto :: jsnum
  custoRealizado :: jsnum
  custoDiretoPrevisto :: jsnum
  custoDiretoRealizado :: jsnum
  custoIndiretoPrevisto :: jsnum
  custoIndiretoRealizado :: jsnum
  taxasFinanceirasPrevistas :: jsnum
  taxasFinanceirasRealizadas :: jsnum
  impostosPrevistos :: jsnum
  impostosRealizados :: jsnum
  ingressosVendidos :: jsnum
  ingressosPagos :: jsnum
  cortesias :: jsnum
  issues :: "string list"

definition no_totals :: totals where
  "no_totals = \<lparr>receitaPrevista = Fin 0, receitaBrutaPrevista = Fin 0, descontosPrevistos = Fin 0, receitaRealizada = Fin 0,
     receitaRecebidaBruta = Fin 0, receitaEstornada = Fin 0, receitaLiquidaIngressos = Fin 0, custoPrevisto = Fin 0,
     custoRealizado = Fin 0, custoDiretoPrevisto = Fin 0, custoDiretoRealizado = Fin 0, custoIndiretoPrevisto = Fin 0,
     custoIndiretoRealizado = Fin 0, taxasFinanceirasPrevistas = Fin 0, taxasFinanceirasRealizadas = Fin 0,
     impostosPrevistos = Fin 0, impostosRealizados = Fin 0, ingressosVendidos = Fin 0, ingressosPagos = Fin 0,
     cortesias = Fin 0, issues = []\<rparr>"

definition add_issue :: "bool \<Rightarrow> string \<Rightarrow> totals \<Rightarrow> totals" where
  "add_issue b text t = (if b then t\<lparr>issues := issues t @ [text]\<rparr> else t)"

section \<open>Links between entries, obligations and costumes\<close>

text \<open>The realized cost of each costume, from its linked cost entries.\<close>

definition costume_cost_step :: "(string \<rightharpoonup> jsnum) \<Rightarrow> metric_entry \<Rightarrow> (string \<rightharpoonup> jsnum)" where
  "costume_cost_step m e =
     (if fe_type e \<noteq> ENTRY_COST \<or> fe_originType e \<noteq> Some ORIGIN_COSTUME \<or> \<not> truthy (fe_originId e) then m
      else if isEventCostRealizedStatus (fe_status e) then
        (let k = the (fe_originId e);
             netPaid = event_money (Some (ANum (num_max (num_sub (event_money (fe_actualAmount e)) (event_money (fe_refundedAmount e))) (Fin 0))))
         in m(k \<mapsto> event_money (Some (ANum (num_add (case m k of None \<Rightarrow> Fin 0 | Some v \<Rightarrow> v) netPaid)))))
      else m)"

definition costumeCostRealizedById :: "metric_entry list \<Rightarrow> (string \<rightharpoonup> jsnum)" where
  "costumeCostRealizedById entries = foldl costume_cost_step Map.empty entries"

definition unresolved_entries :: "(string \<Rightarrow> string) \<Rightarrow> metrics_input \<Rightarrow> metric_entry list" where
  "unresolved_entries unmark x = (if mi_obligations x = [] then []
     else filter (\<lambda>e. isUnlinkedEventParticipantFeeEntry unmark e \<and>
       (case fe_id e of None \<Rightarrow> [] | Some i \<Rightarrow> i) \<notin> {i. i \<noteq> [] \<and> Some i \<in> set (map ob_revenueEntryId (mi_obligations x))}) (mi_entries x))"

definition unresolved_ids :: "(string \<Rightarrow> string) \<Rightarrow> metrics_input \<Rightarrow> string list" where
  "unresolved_ids unmark x = filter (\<lambda>i. i \<noteq> []) (List.map_filter fe_id (unresolved_entries unmark x))"

section \<open>The loops\<close>

definition obligation_step :: "metric_entry list \<Rightarrow> totals \<Rightarrow> metric_obligation \<Rightarrow> totals" where
  "obligation_step entries t b =
     (if ob_cancelled b = Some True \<or> ob_isExempt b = Some True \<or>
         (truthy (ob_revenueEntryId b) \<and> ob_revenueEntryId b \<in> set (map fe_id entries)) then t
      else let expected = event_money (ob_expectedAmount b);
               gross = event_money (coalesce_amount (ob_grossAmount b) expected);
               discount = event_money (coalesce_amount (ob_discountAmount b) (num_max (num_sub gross expected) (Fin 0)));
               actual = event_money (ob_actualAmount b); refunded = event_money (ob_refundedAmount b);
               t1 = t\<lparr>receitaPrevista := num_add (receitaPrevista t) expected,
                      receitaBrutaPrevista := num_add (receitaBrutaPrevista t) gross,
                      descontosPrevistos := num_add (descontosPrevistos t) discount\<rparr>;
               t2 = (if num_less (Fin 0) actual
                     then t1\<lparr>receitaRecebidaBruta := num_add (receitaRecebidaBruta t1) actual,
                             receitaEstornada := num_add (receitaEstornada t1) refunded,
                             receitaRealizada := num_add (receitaRealizada t1) (net_realized actual refunded)\<rparr> else t1)
           in add_issue (mismatch gross discount expected) (''PARTICIPANT:'' @ ob_id b @ '':gross_discount_mismatch'') t2)"

text \<open>Costumes add to the cost and the direct cost, forecast and realized.\<close>

definition costume_amount :: "metric_costume \<Rightarrow> jsnum" where
  "costume_amount c = num_mul (event_money (co_schoolCost c)) (co_quantity c)"

definition costume_realized :: "metric_entry list \<Rightarrow> metric_costume \<Rightarrow> jsnum" where
  "costume_realized entries c =
     (if truthy (co_id c) \<and> list_ex (\<lambda>e. fe_originType e = Some ORIGIN_COSTUME \<and> fe_originId e = co_id c) entries
      then (case costumeCostRealizedById entries (the (co_id c)) of None \<Rightarrow> Fin 0 | Some v \<Rightarrow> v) else costume_amount c)"

definition add_costumes :: "metric_entry list \<Rightarrow> metric_costume list \<Rightarrow> totals \<Rightarrow> totals" where
  "add_costumes entries costumes t =
     (let cost = foldl (\<lambda>s c. num_add s (costume_amount c)) (Fin 0) costumes;
          realized = foldl (\<lambda>s c. num_add s (costume_realized entries c)) (Fin 0) costumes
      in t\<lparr>custoPrevisto := num_add (custoPrevisto t) cost, custoRealizado := num_add (custoRealizado t) realized,
           custoDiretoPrevisto := num_add (custoDiretoPrevisto t) cost,
           custoDiretoRealizado := num_add (custoDiretoRealizado t) realized\<rparr>)"

definition sale_step :: "totals \<Rightarrow> metric_sale \<Rightarrow> totals" where
  "sale_step t s = (let total = event_money (sl_totalAmount s) in case sl_status s of
       SALE_PENDING \<Rightarrow> t\<lparr>receitaPrevista := num_add (receitaPrevista t) total,
         receitaBrutaPrevista := num_add (receitaBrutaPrevista t) total,
         ingressosVendidos := num_add (ingressosVendidos t) (sl_quantity s)\<rparr>
     | SALE_PAID \<Rightarrow> (let refunded = event_money (sl_refundedAmount s); netPaid = net_realized total refunded in
         t\<lparr>receitaPrevista := num_add (receitaPrevista t) total,
           receitaBrutaPrevista := num_add (receitaBrutaPrevista t) total,
           receitaRealizada := num_add (receitaRealizada t) netPaid,
           receitaRecebidaBruta := num_add (receitaRecebidaBruta t) total,
           receitaEstornada := num_add (receitaEstornada t) refunded,
           receitaLiquidaIngressos := num_add (receitaLiquidaIngressos t) netPaid,
           ingressosVendidos := num_add (ingressosVendidos t) (sl_quantity s),
           ingressosPagos := num_add (ingressosPagos t) (sl_quantity s)\<rparr>)
     | SALE_REFUNDED \<Rightarrow> t\<lparr>receitaRecebidaBruta := num_add (receitaRecebidaBruta t) total,
         receitaEstornada := num_add (receitaEstornada t) (num_max (event_money (sl_refundedAmount s)) total)\<rparr>
     | SALE_COMPLIMENTARY \<Rightarrow> t\<lparr>cortesias := num_add (cortesias t) (sl_quantity s),
         ingressosVendidos := num_add (ingressosVendidos t) (sl_quantity s)\<rparr>
     | SALE_CANCELLED \<Rightarrow> t)"


definition add_revenue_issues :: "metric_entry \<Rightarrow> jsnum \<Rightarrow> jsnum \<Rightarrow> jsnum \<Rightarrow> jsnum \<Rightarrow> jsnum \<Rightarrow> totals \<Rightarrow> totals" where
  "add_revenue_issues e gross discount expected actual refunded t =
     (let origin = ''REVENUE:'' @ or_unknown (fe_originId e) in
      add_issue (num_less actual refunded) (origin @ '':refund_above_actual'')
       (add_issue (num_less expected actual \<and> fe_status e \<noteq> ''REFUNDED'') (origin @ '':actual_above_expected'')
         (add_issue (mismatch gross discount expected) (origin @ '':gross_discount_mismatch'') t)))"

definition revenue_step :: "totals \<Rightarrow> metric_entry \<Rightarrow> totals" where
  "revenue_step t e =
     (let expected = event_money (fe_expectedAmount e); actual = event_money (fe_actualAmount e);
          refunded = event_money (fe_refundedAmount e);
          gross = event_money (coalesce_amount (fe_grossAmount e) expected);
          discount = event_money (coalesce_amount (fe_discountAmount e) (num_max (num_sub gross expected) (Fin 0)));
          t1 = add_revenue_issues e gross discount expected actual refunded t;
          t2 = (if isEventRevenueExpectedStatus (fe_status e)
                then t1\<lparr>receitaBrutaPrevista := num_add (receitaBrutaPrevista t1) gross,
                        descontosPrevistos := num_add (descontosPrevistos t1) discount,
                        receitaPrevista := num_add (receitaPrevista t1) expected\<rparr> else t1)
      in if isEventRevenueRealizedStatus (fe_status e) \<and> fe_actualAmount e \<noteq> None
         then (let effective = (if fe_status e = ''REFUNDED'' then num_max refunded actual else refunded) in
           t2\<lparr>receitaRecebidaBruta := num_add (receitaRecebidaBruta t2) actual,
              receitaEstornada := num_add (receitaEstornada t2) effective,
              receitaRealizada := num_add (receitaRealizada t2) (net_realized actual effective)\<rparr>)
         else t2)"

definition add_cost_forecast :: "cost_class \<Rightarrow> jsnum \<Rightarrow> totals \<Rightarrow> totals" where
  "add_cost_forecast cls v t = (let t1 = t\<lparr>custoPrevisto := num_add (custoPrevisto t) v\<rparr> in case cls of
       CLASS_DIRECT \<Rightarrow> t1\<lparr>custoDiretoPrevisto := num_add (custoDiretoPrevisto t1) v\<rparr>
     | CLASS_INDIRECT \<Rightarrow> t1\<lparr>custoIndiretoPrevisto := num_add (custoIndiretoPrevisto t1) v\<rparr>
     | CLASS_FINANCIAL \<Rightarrow> t1\<lparr>taxasFinanceirasPrevistas := num_add (taxasFinanceirasPrevistas t1) v\<rparr>
     | CLASS_TAX \<Rightarrow> t1\<lparr>impostosPrevistos := num_add (impostosPrevistos t1) v\<rparr>)"

definition add_cost_realized :: "cost_class \<Rightarrow> jsnum \<Rightarrow> totals \<Rightarrow> totals" where
  "add_cost_realized cls v t = (let t1 = t\<lparr>custoRealizado := num_add (custoRealizado t) v\<rparr> in case cls of
       CLASS_DIRECT \<Rightarrow> t1\<lparr>custoDiretoRealizado := num_add (custoDiretoRealizado t1) v\<rparr>
     | CLASS_INDIRECT \<Rightarrow> t1\<lparr>custoIndiretoRealizado := num_add (custoIndiretoRealizado t1) v\<rparr>
     | CLASS_FINANCIAL \<Rightarrow> t1\<lparr>taxasFinanceirasRealizadas := num_add (taxasFinanceirasRealizadas t1) v\<rparr>
     | CLASS_TAX \<Rightarrow> t1\<lparr>impostosRealizados := num_add (impostosRealizados t1) v\<rparr>)"

definition cost_class_of :: "metric_entry \<Rightarrow> cost_class" where
  "cost_class_of e = (case fe_costClass e of None \<Rightarrow> CLASS_DIRECT | Some c \<Rightarrow> c)"

definition cost_step :: "totals \<Rightarrow> metric_entry \<Rightarrow> totals" where
  "cost_step t e =
     (let expected = event_money (fe_expectedAmount e); actual = event_money (fe_actualAmount e);
          refunded = event_money (fe_refundedAmount e);
          t1 = (if isEventCostExpectedStatus (fe_status e) then add_cost_forecast (cost_class_of e) expected t else t);
          t2 = (if isEventCostRealizedStatus (fe_status e)
                then add_cost_realized (cost_class_of e) (net_realized actual refunded) t1 else t1);
          origin = ''COST:'' @ or_unknown (fe_originId e)
      in add_issue (num_less actual refunded) (origin @ '':refund_above_actual'')
           (add_issue (num_less actual (Fin 0)) (origin @ '':negative_actual'') t2))"

text \<open>The entries the loop skips.\<close>

definition skipped_entry :: "(string \<Rightarrow> string) \<Rightarrow> metrics_input \<Rightarrow> metric_entry \<Rightarrow> bool" where
  "skipped_entry unmark x e \<longleftrightarrow> isAutomaticEventFinance e
     \<or> (truthy (fe_id e) \<and> the (fe_id e) \<in> set (unresolved_ids unmark x))
     \<or> (fe_type e = ENTRY_COST \<and> fe_originType e = Some ORIGIN_COSTUME \<and> truthy (fe_originId e)
        \<and> list_ex (\<lambda>c. co_id c = fe_originId e) (mi_costumes x))"

definition entry_step :: "(string \<Rightarrow> string) \<Rightarrow> metrics_input \<Rightarrow> totals \<Rightarrow> metric_entry \<Rightarrow> totals" where
  "entry_step unmark x t e = (if skipped_entry unmark x e then t
     else case fe_type e of ENTRY_REVENUE \<Rightarrow> revenue_step t e | ENTRY_COST \<Rightarrow> cost_step t e)"

text \<open>The entry of an id, the last one when an id repeats.\<close>

definition financialEntryById :: "metric_entry list \<Rightarrow> (string \<rightharpoonup> metric_entry)" where
  "financialEntryById entries = map_of (rev (map (\<lambda>e. (the (fe_id e), e)) (filter (\<lambda>e. truthy (fe_id e)) entries)))"

definition assignment_step :: "metric_entry list \<Rightarrow> totals \<Rightarrow> metric_assignment \<Rightarrow> totals" where
  "assignment_step entries t a =
     (let value = event_money (as_chargedValue a) in
      if as_status a = COSTUME_CANCELLED \<or> as_billingMode a \<noteq> Some SEPARATE_CHARGE \<or> \<not> num_less (Fin 0) value then t
      else let entry = (if truthy (as_revenueEntryId a) then financialEntryById entries (the (as_revenueEntryId a)) else None);
               fully = (map_option fe_status entry = Some ''REFUNDED'');
               t1 = (if fully then t
                     else t\<lparr>receitaPrevista := num_add (receitaPrevista t) value,
                            receitaBrutaPrevista := num_add (receitaBrutaPrevista t) value\<rparr>)
           in case entry of
             Some e \<Rightarrow>
               (let actual = event_money (fe_actualAmount e);
                    refunded = (if fully then num_max (num_max (event_money (fe_refundedAmount e)) actual) value
                                else event_money (fe_refundedAmount e))
                in if num_less (Fin 0) actual then
                     (let t2 = t1\<lparr>receitaRecebidaBruta := num_add (receitaRecebidaBruta t1) (if fully then num_max actual value else actual),
                                 receitaEstornada := num_add (receitaEstornada t1) refunded\<rparr>
                      in if fully then t2
                         else t2\<lparr>receitaRealizada := num_add (receitaRealizada t2) (net_realized actual refunded)\<rparr>)
                   else if fully then t1\<lparr>receitaRecebidaBruta := num_add (receitaRecebidaBruta t1) value,
                                        receitaEstornada := num_add (receitaEstornada t1) refunded\<rparr>
                   else t1)
           | None \<Rightarrow> if as_isPaid a = Some True
               then t1\<lparr>receitaRealizada := num_add (receitaRealizada t1) value,
                      receitaRecebidaBruta := num_add (receitaRecebidaBruta t1) value\<rparr> else t1)"

section \<open>The metrics\<close>

record event_metrics =
  em_receitaPrevista :: jsnum
  em_receitaBrutaPrevista :: jsnum
  em_descontosPrevistos :: jsnum
  em_receitaRealizada :: jsnum
  em_saldoAReceber :: jsnum
  em_custoPrevisto :: jsnum
  em_custoRealizado :: jsnum
  em_custoDiretoPrevisto :: jsnum
  em_custoDiretoRealizado :: jsnum
  em_custoIndiretoPrevisto :: jsnum
  em_custoIndiretoRealizado :: jsnum
  em_taxasFinanceirasPrevistas :: jsnum
  em_taxasFinanceirasRealizadas :: jsnum
  em_impostosPrevistos :: jsnum
  em_impostosRealizados :: jsnum
  em_resultadoPrevisto :: jsnum
  em_resultadoRealizado :: jsnum
  em_lucroBrutoPrevisto :: jsnum
  em_lucroBrutoRealizado :: jsnum
  em_lucroLiquidoPrevisto :: jsnum
  em_lucroLiquidoRealizado :: jsnum
  em_margemRealizada :: "jsnum option"
  em_ingressosVendidos :: jsnum
  em_ingressosDisponiveis :: jsnum
  em_cortesias :: jsnum
  em_ticketMedio :: "jsnum option"
  em_receitaRecebidaBruta :: jsnum
  em_receitaEstornada :: jsnum
  em_receitaRecebidaLiquida :: jsnum
  em_isConsistent :: bool
  em_issues :: "string list"
  em_taxaOcupacao :: "jsnum option"
  em_figurinosPendentes :: nat
  em_figurinosEntregues :: nat
  em_figurinosDevolvidos :: nat

definition metrics_totals :: "(string \<Rightarrow> string) \<Rightarrow> metrics_input \<Rightarrow> totals" where
  "metrics_totals unmark x =
     (let entries = mi_entries x;
          t0 = no_totals\<lparr>issues := map (\<lambda>e. ''REVENUE:'' @ or_unknown (fe_id e) @ '':unlinked_manual_entry'') (unresolved_entries unmark x)\<rparr>;
          t1 = foldl (obligation_step entries) t0 (mi_obligations x);
          t2 = add_costumes entries (mi_costumes x) t1;
          t3 = foldl sale_step t2 (mi_sales x);
          t4 = foldl (entry_step unmark x) t3 entries
      in foldl (assignment_step entries) t4 (mi_assignments x))"

definition ratio :: "jsnum \<Rightarrow> jsnum \<Rightarrow> jsnum option" where
  "ratio a b = (if num_less (Fin 0) b then Some (round_money (num_div a b)) else None)"

definition calculateEventMetrics :: "(string \<Rightarrow> string) \<Rightarrow> metrics_input \<Rightarrow> event_metrics" where
  "calculateEventMetrics unmark x =
     (let t = metrics_totals unmark x;
          active = filter (\<lambda>l. lt_status l = LOT_ACTIVE) (mi_lots x);
          totalCapacity = foldl (\<lambda>s l. num_add s (lt_quantityTotal l)) (Fin 0) active;
          lotSold = foldl (\<lambda>s l. num_add s (lt_quantitySold l)) (Fin 0) active;
          resultadoPrevisto = num_sub (receitaPrevista t) (custoPrevisto t);
          resultadoRealizado = num_sub (receitaRealizada t) (custoRealizado t);
          count = (\<lambda>ss. length (filter (\<lambda>a. as_status a \<in> ss) (mi_assignments x)))
      in \<lparr>em_receitaPrevista = round_money (receitaPrevista t),
          em_receitaBrutaPrevista = round_money (receitaBrutaPrevista t),
          em_descontosPrevistos = round_money (descontosPrevistos t),
          em_receitaRealizada = round_money (receitaRealizada t),
          em_saldoAReceber = round_money (num_max (num_sub (receitaPrevista t) (receitaRealizada t)) (Fin 0)),
          em_custoPrevisto = round_money (custoPrevisto t),
          em_custoRealizado = round_money (custoRealizado t),
          em_custoDiretoPrevisto = round_money (custoDiretoPrevisto t),
          em_custoDiretoRealizado = round_money (custoDiretoRealizado t),
          em_custoIndiretoPrevisto = round_money (custoIndiretoPrevisto t),
          em_custoIndiretoRealizado = round_money (custoIndiretoRealizado t),
          em_taxasFinanceirasPrevistas = round_money (taxasFinanceirasPrevistas t),
          em_taxasFinanceirasRealizadas = round_money (taxasFinanceirasRealizadas t),
          em_impostosPrevistos = round_money (impostosPrevistos t),
          em_impostosRealizados = round_money (impostosRealizados t),
          em_resultadoPrevisto = round_money resultadoPrevisto,
          em_resultadoRealizado = round_money resultadoRealizado,
          em_lucroBrutoPrevisto = round_money (num_sub (receitaPrevista t) (custoDiretoPrevisto t)),
          em_lucroBrutoRealizado = round_money (num_sub (receitaRealizada t) (custoDiretoRealizado t)),
          em_lucroLiquidoPrevisto = round_money resultadoPrevisto,
          em_lucroLiquidoRealizado = round_money resultadoRealizado,
          em_margemRealizada = ratio resultadoRealizado (receitaRealizada t),
          em_ingressosVendidos = ingressosVendidos t,
          em_ingressosDisponiveis = num_max (num_sub totalCapacity lotSold) (Fin 0),
          em_cortesias = cortesias t,
          em_ticketMedio = ratio (receitaLiquidaIngressos t) (ingressosPagos t),
          em_receitaRecebidaBruta = round_money (receitaRecebidaBruta t),
          em_receitaEstornada = round_money (receitaEstornada t),
          em_receitaRecebidaLiquida = round_money (receitaRealizada t),
          em_isConsistent = (issues t = []),
          em_issues = issues t,
          em_taxaOcupacao = ratio (ingressosVendidos t) totalCapacity,
          em_figurinosPendentes = count {COSTUME_PENDING, COSTUME_ORDERED, COSTUME_RECEIVED},
          em_figurinosEntregues = count {COSTUME_DELIVERED},
          em_figurinosDevolvidos = count {COSTUME_RETURNED}\<rparr>)"

section \<open>The ledger of costs in cents\<close>

text \<open>The four classes of a running total, forecast and realized.\<close>

fun forecast_of :: "cost_class \<Rightarrow> totals \<Rightarrow> jsnum" where
  "forecast_of CLASS_DIRECT t = custoDiretoPrevisto t"
| "forecast_of CLASS_INDIRECT t = custoIndiretoPrevisto t"
| "forecast_of CLASS_FINANCIAL t = taxasFinanceirasPrevistas t"
| "forecast_of CLASS_TAX t = impostosPrevistos t"

fun realized_of :: "cost_class \<Rightarrow> totals \<Rightarrow> jsnum" where
  "realized_of CLASS_DIRECT t = custoDiretoRealizado t"
| "realized_of CLASS_INDIRECT t = custoIndiretoRealizado t"
| "realized_of CLASS_FINANCIAL t = taxasFinanceirasRealizadas t"
| "realized_of CLASS_TAX t = impostosRealizados t"

type_synonym ledger = "cost_class \<Rightarrow> int"

definition all_classes :: "ledger \<Rightarrow> int" where
  "all_classes f = f CLASS_DIRECT + f CLASS_INDIRECT + f CLASS_FINANCIAL + f CLASS_TAX"

definition post :: "cost_class \<Rightarrow> int \<Rightarrow> ledger \<Rightarrow> ledger" where
  "post k n f = f(k := f k + n)"

lemma all_classes_post [simp]: "all_classes (post k n f) = all_classes f + n"
  by (cases k) (simp_all add: all_classes_def post_def)

definition ledger_ok :: "ledger \<Rightarrow> bool" where
  "ledger_ok f \<longleftrightarrow> (\<forall>k. 0 \<le> f k) \<and> all_classes f \<le> 10 ^ 11"

lemma ledger_ok_class: "ledger_ok f \<Longrightarrow> 0 \<le> f k"
  by (simp add: ledger_ok_def)

lemma ledger_ok_le: "ledger_ok f \<Longrightarrow> f k \<le> all_classes f"
  using ledger_ok_class [of f CLASS_DIRECT] ledger_ok_class [of f CLASS_INDIRECT]
    ledger_ok_class [of f CLASS_FINANCIAL] ledger_ok_class [of f CLASS_TAX]
  by (cases k) (simp_all add: all_classes_def)

lemma ledger_ok_total: "ledger_ok f \<Longrightarrow> 0 \<le> all_classes f" "ledger_ok f \<Longrightarrow> all_classes f \<le> 10 ^ 11"
  using order_trans [OF ledger_ok_class [of f CLASS_DIRECT] ledger_ok_le [of f CLASS_DIRECT]] by (simp_all add: ledger_ok_def)

text \<open>The totals hold the two ledgers, up to the rounding of \<open>j\<close> operations.\<close>

definition holds_ledgers :: "totals \<Rightarrow> ledger \<Rightarrow> ledger \<Rightarrow> nat \<Rightarrow> bool" where
  "holds_ledgers t f r j \<longleftrightarrow>
     (\<forall>k. near (forecast_of k t) (f k) j \<and> near (realized_of k t) (r k) j) \<and>
     near (custoPrevisto t) (all_classes f) j \<and> near (custoRealizado t) (all_classes r) j"

lemma forecast_posted:
  assumes h: "holds_ledgers t f r j" and v: "near v n i" and ok: "ledger_ok f" "0 \<le> n" "all_classes f + n \<le> 10 ^ 11"
    and j: "j + i \<le> 5000"
  shows "holds_ledgers (add_cost_forecast k v t) (post k n f) r (Suc (j + i))"
proof -
  have le: "j \<le> Suc (j + i)" by simp
  have total: "near (num_add (custoPrevisto t) v) (all_classes f + n) (Suc (j + i))"
    using h v ok ledger_ok_total [OF ok(1)] j by (intro near_plus) (simp_all add: holds_ledgers_def)
  have one: "near (num_add (forecast_of c t) v) (f c + n) (Suc (j + i))" for c
    using h v ok ledger_ok_class [OF ok(1), of c] ledger_ok_le [OF ok(1), of c] j by (intro near_plus) (simp_all add: holds_ledgers_def)
  have keep: "near (forecast_of c t) (f c) (Suc (j + i))" "near (realized_of c t) (r c) (Suc (j + i))"
    "near (custoRealizado t) (all_classes r) (Suc (j + i))" for c
    using h near_mono [OF _ le] by (auto simp: holds_ledgers_def)
  have "near (forecast_of c (add_cost_forecast k v t)) (post k n f c) (Suc (j + i)) \<and>
      near (realized_of c (add_cost_forecast k v t)) (r c) (Suc (j + i))" for c
    using one [of c] keep(1,2) [of c] by (cases k; cases c) (simp_all add: add_cost_forecast_def post_def)
  moreover have "custoPrevisto (add_cost_forecast k v t) = num_add (custoPrevisto t) v"
    "custoRealizado (add_cost_forecast k v t) = custoRealizado t"
    by (cases k; simp add: add_cost_forecast_def)+
  ultimately show ?thesis using total keep(3) by (simp add: holds_ledgers_def)
qed

lemma realized_posted:
  assumes h: "holds_ledgers t f r j" and v: "near v n i" and ok: "ledger_ok r" "0 \<le> n" "all_classes r + n \<le> 10 ^ 11"
    and j: "j + i \<le> 5000"
  shows "holds_ledgers (add_cost_realized k v t) f (post k n r) (Suc (j + i))"
proof -
  have le: "j \<le> Suc (j + i)" by simp
  have total: "near (num_add (custoRealizado t) v) (all_classes r + n) (Suc (j + i))"
    using h v ok ledger_ok_total [OF ok(1)] j by (intro near_plus) (simp_all add: holds_ledgers_def)
  have one: "near (num_add (realized_of c t) v) (r c + n) (Suc (j + i))" for c
    using h v ok ledger_ok_class [OF ok(1), of c] ledger_ok_le [OF ok(1), of c] j by (intro near_plus) (simp_all add: holds_ledgers_def)
  have keep: "near (forecast_of c t) (f c) (Suc (j + i))" "near (realized_of c t) (r c) (Suc (j + i))"
    "near (custoPrevisto t) (all_classes f) (Suc (j + i))" for c
    using h near_mono [OF _ le] by (auto simp: holds_ledgers_def)
  have "near (realized_of c (add_cost_realized k v t)) (post k n r c) (Suc (j + i)) \<and>
      near (forecast_of c (add_cost_realized k v t)) (f c) (Suc (j + i))" for c
    using one [of c] keep(1,2) [of c] by (cases k; cases c) (simp_all add: add_cost_realized_def post_def)
  moreover have "custoRealizado (add_cost_realized k v t) = num_add (custoRealizado t) v"
    "custoPrevisto (add_cost_realized k v t) = custoPrevisto t"
    by (cases k; simp add: add_cost_realized_def)+
  ultimately show ?thesis using total keep(3) by (simp add: holds_ledgers_def)
qed


text \<open>The other loops leave the costs alone.\<close>

definition same_costs :: "totals \<Rightarrow> totals \<Rightarrow> bool" where
  "same_costs t u \<longleftrightarrow> custoPrevisto t = custoPrevisto u \<and> custoRealizado t = custoRealizado u \<and>
     (\<forall>k. forecast_of k t = forecast_of k u \<and> realized_of k t = realized_of k u)"

lemma same_costsI:
  assumes "custoPrevisto t = custoPrevisto u" "custoRealizado t = custoRealizado u"
    "custoDiretoPrevisto t = custoDiretoPrevisto u" "custoDiretoRealizado t = custoDiretoRealizado u"
    "custoIndiretoPrevisto t = custoIndiretoPrevisto u" "custoIndiretoRealizado t = custoIndiretoRealizado u"
    "taxasFinanceirasPrevistas t = taxasFinanceirasPrevistas u" "taxasFinanceirasRealizadas t = taxasFinanceirasRealizadas u"
    "impostosPrevistos t = impostosPrevistos u" "impostosRealizados t = impostosRealizados u"
  shows "same_costs t u"
proof -
  have "forecast_of k t = forecast_of k u \<and> realized_of k t = realized_of k u" for k
    using assms by (cases k) simp_all
  then show ?thesis using assms by (simp add: same_costs_def)
qed

lemma same_costs_refl [simp]: "same_costs t t"
  by (simp add: same_costs_def)

lemma same_costs_holds: "same_costs t u \<Longrightarrow> holds_ledgers t f r j = holds_ledgers u f r j"
  by (simp add: same_costs_def holds_ledgers_def)

lemma same_costs_fold:
  assumes "\<And>t a. same_costs (step t a) t"
  shows "same_costs (foldl step t as) t"
proof (induction as arbitrary: t)
  case (Cons a as)
  show ?case using Cons [of "step t a"] assms [of t a] by (simp add: same_costs_def)
qed simp

lemma same_costs_add_issue [simp]: "same_costs (add_issue b s t) u = same_costs t u"
proof -
  have "forecast_of k (add_issue b s t) = forecast_of k t" "realized_of k (add_issue b s t) = realized_of k t" for k
    by (cases k; simp add: add_issue_def)+
  then show ?thesis by (simp add: same_costs_def) (simp add: add_issue_def)
qed

lemma obligation_keeps_costs: "same_costs (obligation_step entries t b) t"
  by (simp add: obligation_step_def Let_def same_costsI)

lemma sale_keeps_costs: "same_costs (sale_step t s) t"
  by (rule same_costsI) (simp_all add: sale_step_def Let_def split: sale_status.split)

lemma revenue_keeps_costs: "same_costs (revenue_step t e) t"
  by (rule same_costsI) (simp_all add: revenue_step_def add_revenue_issues_def add_issue_def Let_def)

lemma assignment_keeps_costs: "same_costs (assignment_step entries t a) t"
  by (rule same_costsI) (simp_all add: assignment_step_def Let_def split: option.split)


subsection \<open>The entries and costumes in cents\<close>

fun to_cents :: "jsnum \<Rightarrow> int" where
  "to_cents (Fin v) = \<lfloor>100 * v + 1 / 2\<rfloor>"
| "to_cents _ = 0"

fun whole_of :: "jsnum \<Rightarrow> int" where
  "whole_of (Fin v) = \<lfloor>v\<rfloor>"
| "whole_of _ = 0"

definition whole_cents :: "jsnum \<Rightarrow> bool" where
  "whole_cents v \<longleftrightarrow> v = cents (to_cents v) \<and> \<bar>to_cents v\<bar> \<le> 5 * 10 ^ 10"

lemma to_cents_cents:
  assumes "\<bar>n\<bar> \<le> max_cents"
  shows "to_cents (cents n) = n"
proof -
  have "\<lfloor>100 * dec n + 1 / 2\<rfloor> = n"
    using max_cents_bounds(1) [OF assms] unfolding intervals by (intro floor_unique) simp_all
  then show ?thesis by simp
qed

lemma whole_cents_cents: "\<bar>n\<bar> \<le> 5 * 10 ^ 10 \<Longrightarrow> whole_cents (cents n)"
  using to_cents_cents [of n] by (simp add: whole_cents_def max_cents_def del: to_cents.simps)

definition net_cents :: "metric_entry \<Rightarrow> int" where
  "net_cents e = max (to_cents (event_money (fe_actualAmount e)) - to_cents (event_money (fe_refundedAmount e))) 0"

definition counted_cost :: "(string \<Rightarrow> string) \<Rightarrow> metrics_input \<Rightarrow> metric_entry \<Rightarrow> bool" where
  "counted_cost unmark x e \<longleftrightarrow> fe_type e = ENTRY_COST \<and> \<not> skipped_entry unmark x e"

definition entry_forecast :: "(string \<Rightarrow> string) \<Rightarrow> metrics_input \<Rightarrow> metric_entry \<Rightarrow> int" where
  "entry_forecast unmark x e = (if counted_cost unmark x e \<and> isEventCostExpectedStatus (fe_status e)
     then to_cents (event_money (fe_expectedAmount e)) else 0)"

definition entry_realized :: "(string \<Rightarrow> string) \<Rightarrow> metrics_input \<Rightarrow> metric_entry \<Rightarrow> int" where
  "entry_realized unmark x e = (if counted_cost unmark x e \<and> isEventCostRealizedStatus (fe_status e) then net_cents e else 0)"

definition costume_cents :: "metric_costume \<Rightarrow> int" where
  "costume_cents c = to_cents (event_money (co_schoolCost c)) * whole_of (co_quantity c)"

definition costume_entries :: "metric_entry list \<Rightarrow> string \<Rightarrow> metric_entry list" where
  "costume_entries entries i = filter (\<lambda>e. fe_type e = ENTRY_COST \<and> fe_originType e = Some ORIGIN_COSTUME \<and>
     fe_originId e = Some i \<and> isEventCostRealizedStatus (fe_status e)) entries"

definition costume_linked :: "metric_entry list \<Rightarrow> metric_costume \<Rightarrow> bool" where
  "costume_linked entries c \<longleftrightarrow> truthy (co_id c) \<and>
     list_ex (\<lambda>e. fe_originType e = Some ORIGIN_COSTUME \<and> fe_originId e = co_id c) entries"

definition costume_paid :: "metric_entry list \<Rightarrow> metric_costume \<Rightarrow> int" where
  "costume_paid entries c = (if costume_linked entries c then sum_list (map net_cents (costume_entries entries (the (co_id c))))
     else costume_cents c)"

definition by_class :: "(metric_entry \<Rightarrow> int) \<Rightarrow> metric_entry list \<Rightarrow> ledger \<Rightarrow> ledger" where
  "by_class amount es f = foldl (\<lambda>g e. post (cost_class_of e) (amount e) g) f es"

definition forecast_ledger :: "(string \<Rightarrow> string) \<Rightarrow> metrics_input \<Rightarrow> ledger" where
  "forecast_ledger unmark x = by_class (entry_forecast unmark x) (mi_entries x)
     (post CLASS_DIRECT (sum_list (map costume_cents (mi_costumes x))) (\<lambda>k. 0))"

definition realized_ledger :: "(string \<Rightarrow> string) \<Rightarrow> metrics_input \<Rightarrow> ledger" where
  "realized_ledger unmark x = by_class (entry_realized unmark x) (mi_entries x)
     (post CLASS_DIRECT (sum_list (map (costume_paid (mi_entries x)) (mi_costumes x))) (\<lambda>k. 0))"

text \<open>The number of floating-point operations behind a cost.\<close>

definition cost_operations :: "metrics_input \<Rightarrow> nat" where
  "cost_operations x = 6 * length (mi_entries x) +
     sum_list (map (\<lambda>c. 4 * length (costume_entries (mi_entries x) (the (co_id c))) + 4) (mi_costumes x)) + 2"

definition costs_in_cents :: "metrics_input \<Rightarrow> bool" where
  "costs_in_cents x \<longleftrightarrow>
     list_all (\<lambda>e. fe_type e = ENTRY_COST \<longrightarrow> whole_cents (event_money (fe_expectedAmount e)) \<and>
       0 \<le> to_cents (event_money (fe_expectedAmount e)) \<and> whole_cents (event_money (fe_actualAmount e)) \<and>
       whole_cents (event_money (fe_refundedAmount e))) (mi_entries x) \<and>
     list_all (\<lambda>c. whole_cents (event_money (co_schoolCost c)) \<and> 0 \<le> to_cents (event_money (co_schoolCost c)) \<and>
       co_quantity c = num_int (whole_of (co_quantity c)) \<and> 0 \<le> whole_of (co_quantity c)) (mi_costumes x)"

lemma event_money_near: "near v n j \<Longrightarrow> event_money (Some (ANum v)) = v"
  by (auto simp: near_def event_money_def)

lemma near_whole_cents: "whole_cents v \<Longrightarrow> near v (to_cents v) 1"
  unfolding whole_cents_def using near_cents [of "to_cents v"] by simp

lemma whole_cents_money: "whole_cents v \<Longrightarrow> event_money (Some (ANum v)) = v"
  by (rule event_money_near [OF near_whole_cents])

lemma net_near:
  assumes "whole_cents a" "whole_cents r"
  shows "near (num_max (num_sub a r) (Fin 0)) (max (to_cents a - to_cents r) 0) 3"
proof -
  have "near (num_sub a r) (to_cents a - to_cents r) (Suc (1 + 1))"
    using assms by (intro near_diff near_whole_cents) (simp_all add: whole_cents_def)
  then show ?thesis using near_max [OF _ near_0] by (simp add: numeral_3_eq_3)
qed

lemma net_realized_near:
  assumes "whole_cents a" "whole_cents r"
  shows "near (net_realized a r) (max (to_cents a - to_cents r) 0) 3"
  using net_near [OF assms] by (simp add: net_realized_def getEventNetRealizedAmount_def whole_cents_money assms)

lemma by_class_simps [simp]:
  "by_class amount [] f = f"
  "by_class amount (e # es) f = by_class amount es (post (cost_class_of e) (amount e) f)"
  by (simp_all add: by_class_def)

lemma all_classes_by_class: "all_classes (by_class amount es f) = all_classes f + sum_list (map amount es)"
  by (induction es arbitrary: f) simp_all

lemma post_0 [simp]: "post k 0 f = f"
  by (simp add: post_def)

lemma ledger_ok_post:
  "ledger_ok f \<Longrightarrow> 0 \<le> n \<Longrightarrow> all_classes f + n \<le> 10 ^ 11 \<Longrightarrow> ledger_ok (post k n f)"
  by (simp add: ledger_ok_def) (simp add: post_def)

lemma cost_step_posts:
  assumes h: "holds_ledgers t f r j" and ok: "ledger_ok f" "ledger_ok r"
    and e: "whole_cents (event_money (fe_expectedAmount e))" "0 \<le> to_cents (event_money (fe_expectedAmount e))"
      "whole_cents (event_money (fe_actualAmount e))" "whole_cents (event_money (fe_refundedAmount e))"
    and b: "all_classes f + to_cents (event_money (fe_expectedAmount e)) \<le> 10 ^ 11 \<or> \<not> isEventCostExpectedStatus (fe_status e)"
      "all_classes r + net_cents e \<le> 10 ^ 11 \<or> \<not> isEventCostRealizedStatus (fe_status e)" and j: "j + 6 \<le> 5000"
  shows "holds_ledgers (cost_step t e)
     (post (cost_class_of e) (if isEventCostExpectedStatus (fe_status e) then to_cents (event_money (fe_expectedAmount e)) else 0) f)
     (post (cost_class_of e) (if isEventCostRealizedStatus (fe_status e) then net_cents e else 0) r) (j + 6)"
proof -
  define v where "v = event_money (fe_expectedAmount e)"
  define f' where "f' = post (cost_class_of e) (if isEventCostExpectedStatus (fe_status e) then to_cents v else 0) f"
  define t1 where "t1 = (if isEventCostExpectedStatus (fe_status e) then add_cost_forecast (cost_class_of e) v t else t)"
  define net where "net = net_realized (event_money (fe_actualAmount e)) (event_money (fe_refundedAmount e))"
  define t2 where "t2 = (if isEventCostRealizedStatus (fe_status e) then add_cost_realized (cost_class_of e) net t1 else t1)"
  have up: "holds_ledgers t f r j \<Longrightarrow> j \<le> k \<Longrightarrow> holds_ledgers t f r k" for t f r j k
    unfolding holds_ledgers_def using near_mono by blast
  have v: "near v (to_cents v) 1" unfolding v_def by (rule near_whole_cents [OF e(1)])
  have t1: "holds_ledgers t1 f' r (j + 2)"
  proof (cases "isEventCostExpectedStatus (fe_status e)")
    case True
    have "holds_ledgers (add_cost_forecast (cost_class_of e) v t) (post (cost_class_of e) (to_cents v) f) r (Suc (j + 1))"
      by (rule forecast_posted [OF h v ok(1)]) (use e(2) b(1) j True in \<open>auto simp: v_def\<close>)
    then show ?thesis using True by (simp add: t1_def f'_def)
  qed (use up [OF h] in \<open>simp add: t1_def f'_def\<close>)
  have net: "near net (net_cents e) 3" using net_realized_near [OF e(3,4)] by (simp add: net_def net_cents_def)
  have n0: "0 \<le> net_cents e" by (simp add: net_cents_def)
  have t2: "holds_ledgers t2 f' (post (cost_class_of e) (if isEventCostRealizedStatus (fe_status e) then net_cents e else 0) r) (j + 6)"
  proof (cases "isEventCostRealizedStatus (fe_status e)")
    case True
    have "holds_ledgers (add_cost_realized (cost_class_of e) net t1) f' (post (cost_class_of e) (net_cents e) r) (Suc (j + 2 + 3))"
      by (rule realized_posted [OF t1 net ok(2) n0]) (use b(2) j True in auto)
    then show ?thesis using True by (simp add: t2_def numeral_eq_Suc)
  qed (use up [OF t1] in \<open>simp add: t2_def\<close>)
  have "same_costs (cost_step t e) t2"
    by (simp add: cost_step_def Let_def t2_def t1_def net_def v_def)
  from same_costs_holds [OF this] show ?thesis using t2 unfolding f'_def v_def by (rule iffD2)
qed

lemma entries_post:
  assumes "holds_ledgers t f r j" "ledger_ok f" "ledger_ok r"
    and "list_all (\<lambda>e. fe_type e = ENTRY_COST \<longrightarrow> whole_cents (event_money (fe_expectedAmount e)) \<and>
       0 \<le> to_cents (event_money (fe_expectedAmount e)) \<and> whole_cents (event_money (fe_actualAmount e)) \<and>
       whole_cents (event_money (fe_refundedAmount e))) es"
    and "all_classes f + sum_list (map (entry_forecast unmark x) es) \<le> 10 ^ 11"
    and "all_classes r + sum_list (map (entry_realized unmark x) es) \<le> 10 ^ 11"
    and "j + 6 * length es \<le> 5000"
  shows "holds_ledgers (foldl (entry_step unmark x) t es) (by_class (entry_forecast unmark x) es f)
     (by_class (entry_realized unmark x) es r) (j + 6 * length es)"
  using assms
proof (induction es arbitrary: t f r j)
  case (Cons e es)
  let ?f = "post (cost_class_of e) (entry_forecast unmark x e) f"
  let ?r = "post (cost_class_of e) (entry_realized unmark x e) r"
  have pos: "0 \<le> sum_list (map (entry_forecast unmark x) es)" "0 \<le> sum_list (map (entry_realized unmark x) es)"
    "0 \<le> entry_forecast unmark x e" "0 \<le> entry_realized unmark x e"
    using Cons.prems(4)
    by (auto intro!: sum_list_nonneg simp: entry_forecast_def entry_realized_def counted_cost_def net_cents_def list_all_iff)
  have le: "all_classes f + entry_forecast unmark x e \<le> 10 ^ 11" "all_classes r + entry_realized unmark x e \<le> 10 ^ 11"
    using Cons.prems(5,6) pos by simp_all
  have "holds_ledgers (entry_step unmark x t e) ?f ?r (j + 6)"
  proof (cases "counted_cost unmark x e")
    case True
    then show ?thesis
      using cost_step_posts [OF Cons.prems(1-3), of e] Cons.prems(4,7) le
      by (auto simp: entry_step_def counted_cost_def entry_forecast_def entry_realized_def split: if_splits)
  next
    case False
    then have "same_costs (entry_step unmark x t e) t"
      using revenue_keeps_costs by (simp add: entry_step_def counted_cost_def split: entry_type.split)
    then have "holds_ledgers (entry_step unmark x t e) f r j" using Cons.prems(1) by (simp add: same_costs_holds)
    then have "holds_ledgers (entry_step unmark x t e) f r (j + 6)"
      unfolding holds_ledgers_def using near_mono [of _ _ j "j + 6"] by simp
    then show ?thesis using False by (simp add: entry_forecast_def entry_realized_def)
  qed
  moreover have "ledger_ok ?f" "ledger_ok ?r" using Cons.prems(2,3) le pos by (simp_all add: ledger_ok_post)
  ultimately show ?case
    using Cons.IH [of "entry_step unmark x t e" ?f ?r "j + 6"] Cons.prems(4-7) by (simp add: add.assoc)
qed simp

lemma costs_sum:
  assumes "\<And>c. c \<in> set cs \<Longrightarrow> near (g c) (h c) (k c)" "\<And>c. c \<in> set cs \<Longrightarrow> 0 \<le> h c"
    and "near s m j" "0 \<le> m" "m + sum_list (map h cs) \<le> 10 ^ 11" "j + sum_list (map (\<lambda>c. k c + 1) cs) \<le> 5000"
  shows "near (foldl (\<lambda>s c. num_add s (g c)) s cs) (m + sum_list (map h cs)) (j + sum_list (map (\<lambda>c. k c + 1) cs))"
  using assms
proof (induction cs arbitrary: s m j)
  case (Cons c cs)
  have pos: "0 \<le> sum_list (map h cs)" "0 \<le> h c" using Cons.prems(2) by (auto intro!: sum_list_nonneg)
  have "near (num_add s (g c)) (m + h c) (Suc (j + k c))"
    using Cons.prems pos by (intro near_plus) auto
  from Cons.IH [OF _ _ this] Cons.prems pos show ?case by (simp add: algebra_simps)
qed simp


lemma costume_map_near:
  assumes "list_all (\<lambda>e. fe_type e = ENTRY_COST \<longrightarrow> whole_cents (event_money (fe_actualAmount e)) \<and>
       whole_cents (event_money (fe_refundedAmount e))) es"
    and "near (case m i of None \<Rightarrow> Fin 0 | Some v \<Rightarrow> v) s j" "0 \<le> s" "i \<noteq> []"
    and "s + sum_list (map net_cents (costume_entries es i)) \<le> 10 ^ 11" "j + 4 * length (costume_entries es i) \<le> 5000"
  shows "near (case foldl costume_cost_step m es i of None \<Rightarrow> Fin 0 | Some v \<Rightarrow> v)
     (s + sum_list (map net_cents (costume_entries es i))) (j + 4 * length (costume_entries es i))"
  using assms
proof (induction es arbitrary: m s j)
  case (Cons e es)
  let ?val = "\<lambda>m. case m i of None \<Rightarrow> Fin 0 | Some v \<Rightarrow> v"
  let ?net = "num_max (num_sub (event_money (fe_actualAmount e)) (event_money (fe_refundedAmount e))) (Fin 0)"
  have n0: "0 \<le> net_cents e" "0 \<le> sum_list (map net_cents (costume_entries es i))"
    by (auto intro!: sum_list_nonneg simp: net_cents_def)
  show ?case
  proof (cases "fe_type e = ENTRY_COST \<and> fe_originType e = Some ORIGIN_COSTUME \<and> fe_originId e = Some i \<and>
      isEventCostRealizedStatus (fe_status e)")
    case True
    then have c: "costume_entries (e # es) i = e # costume_entries es i" by (simp add: costume_entries_def)
    have net: "near ?net (net_cents e) 3" unfolding net_cents_def using Cons.prems(1) True by (intro net_near) simp_all
    then have money: "event_money (Some (ANum ?net)) = ?net" by (rule event_money_near)
    have sum: "near (num_add (?val m) ?net) (s + net_cents e) (Suc (j + 3))"
      using Cons.prems(2,3,5,6) net n0 by (intro near_plus) (simp_all add: c)
    have "costume_cost_step m e i = Some (num_add (?val m) ?net)"
      using True Cons.prems(4) event_money_near [OF sum] by (simp add: costume_cost_step_def money truthy_def)
    then have "near (?val (costume_cost_step m e)) (s + net_cents e) (j + 4)" using sum by (simp add: add.commute)
    then have "near (?val (foldl costume_cost_step (costume_cost_step m e) es))
        (s + net_cents e + sum_list (map net_cents (costume_entries es i))) (j + 4 + 4 * length (costume_entries es i))"
      using Cons.prems n0 by (intro Cons.IH) (simp_all add: c)
    then show ?thesis by (simp add: c add.assoc)
  next
    case False
    then have c: "costume_entries (e # es) i = costume_entries es i" by (auto simp: costume_entries_def)
    have "costume_cost_step m e i = m i" using False Cons.prems(4) by (auto simp: costume_cost_step_def Let_def truthy_def)
    then show ?thesis using Cons.IH [of "costume_cost_step m e" s j] Cons.prems by (simp add: c)
  qed
qed (simp add: costume_entries_def)

lemma costume_amount_near:
  assumes "whole_cents (event_money (co_schoolCost c))" "0 \<le> to_cents (event_money (co_schoolCost c))"
    "co_quantity c = num_int (whole_of (co_quantity c))" "0 \<le> whole_of (co_quantity c)" "costume_cents c \<le> 10 ^ 11"
  shows "near (costume_amount c) (costume_cents c) 1"
proof -
  define a q where "a = to_cents (event_money (co_schoolCost c))" and "q = whole_of (co_quantity c)"
  have "costume_amount c = num_mul (cents a) (num_int q)"
    unfolding costume_amount_def a_def q_def using assms(1,3) by (simp only: whole_cents_def)
  then show ?thesis using near_mul [of a q] assms by (simp add: costume_cents_def a_def q_def)
qed

lemma costume_realized_near:
  assumes "costs_in_cents x" "c \<in> set (mi_costumes x)" "costume_paid (mi_entries x) c \<le> 10 ^ 11"
    and "4 * length (costume_entries (mi_entries x) (the (co_id c))) \<le> 5000"
  shows "near (costume_realized (mi_entries x) c) (costume_paid (mi_entries x) c)
     (4 * length (costume_entries (mi_entries x) (the (co_id c))) + 1)"
proof (cases "costume_linked (mi_entries x) c")
  case True
  define i where "i = the (co_id c)"
  have i: "co_id c = Some i" "i \<noteq> []" using True by (auto simp: costume_linked_def truthy_def i_def)
  have "near (case costumeCostRealizedById (mi_entries x) i of None \<Rightarrow> Fin 0 | Some v \<Rightarrow> v)
      (0 + sum_list (map net_cents (costume_entries (mi_entries x) i))) (0 + 4 * length (costume_entries (mi_entries x) i))"
    unfolding costumeCostRealizedById_def using assms True i
    by (intro costume_map_near) (auto simp: costs_in_cents_def list_all_iff costume_paid_def)
  then show ?thesis using True i near_mono
    by (simp add: costume_realized_def costume_linked_def costume_paid_def near_keep)
next
  case False
  have "near (costume_amount c) (costume_cents c) 1"
    using assms False by (intro costume_amount_near) (auto simp: costs_in_cents_def list_all_iff costume_paid_def)
  then show ?thesis using False near_mono [of _ _ 1]
    by (auto simp: costume_realized_def costume_linked_def costume_paid_def)
qed

lemma add_costumes_posts:
  "add_costumes entries cs t = add_cost_realized CLASS_DIRECT (foldl (\<lambda>s c. num_add s (costume_realized entries c)) (Fin 0) cs)
     (add_cost_forecast CLASS_DIRECT (foldl (\<lambda>s c. num_add s (costume_amount c)) (Fin 0) cs) t)"
  by (simp add: add_costumes_def add_cost_realized_def add_cost_forecast_def Let_def)

lemma ledger_zero: "ledger_ok (\<lambda>k. 0)" "all_classes (\<lambda>k. 0) = 0"
  by (simp_all add: ledger_ok_def all_classes_def)

lemma one_of_sum: "c \<in> set cs \<Longrightarrow> (\<And>c. c \<in> set cs \<Longrightarrow> 0 \<le> (h c :: int)) \<Longrightarrow> h c \<le> sum_list (map h cs)"
  by (rule member_le_sum_list) auto

lemma costume_parts:
  assumes x: "costs_in_cents x" and c: "c \<in> set (mi_costumes x)"
  shows "0 \<le> costume_cents c" "0 \<le> costume_paid (mi_entries x) c"
proof -
  show "0 \<le> costume_cents c" using x c by (auto simp: costs_in_cents_def list_all_iff costume_cents_def)
  then show "0 \<le> costume_paid (mi_entries x) c"
    by (auto intro!: sum_list_nonneg simp: costume_paid_def net_cents_def)
qed

lemma costs_posted:
  assumes x: "costs_in_cents x"
    and b: "sum_list (map costume_cents (mi_costumes x)) \<le> 10 ^ 11"
      "sum_list (map (costume_paid (mi_entries x)) (mi_costumes x)) \<le> 10 ^ 11"
    and j: "sum_list (map (\<lambda>c. 4 * length (costume_entries (mi_entries x) (the (co_id c))) + 4) (mi_costumes x)) + 2 \<le> 5000"
    and t: "holds_ledgers t (\<lambda>k. 0) (\<lambda>k. 0) 0"
  shows "holds_ledgers (add_costumes (mi_entries x) (mi_costumes x) t)
     (post CLASS_DIRECT (sum_list (map costume_cents (mi_costumes x))) (\<lambda>k. 0))
     (post CLASS_DIRECT (sum_list (map (costume_paid (mi_entries x)) (mi_costumes x))) (\<lambda>k. 0))
     (sum_list (map (\<lambda>c. 4 * length (costume_entries (mi_entries x) (the (co_id c))) + 4) (mi_costumes x)) + 2)"
proof -
  let ?cs = "mi_costumes x" and ?len = "\<lambda>c. 4 * length (costume_entries (mi_entries x) (the (co_id c)))"
  have split: "sum_list (map (\<lambda>c. ?len c + 4) cs) = sum_list (map (\<lambda>c. 1 + 1) cs) + sum_list (map (\<lambda>c. (?len c + 1) + 1) cs)" for cs
    by (induction cs) simp_all
  note P = costume_parts [OF x]
  have each: "costume_cents c \<le> 10 ^ 11" "costume_paid (mi_entries x) c \<le> 10 ^ 11" "?len c \<le> 5000" if "c \<in> set ?cs" for c
  proof -
    show "costume_cents c \<le> 10 ^ 11" by (rule order_trans [OF one_of_sum [OF that, of costume_cents] b(1)]) (rule P(1))
    show "costume_paid (mi_entries x) c \<le> 10 ^ 11" by (rule order_trans [OF one_of_sum [OF that, of "costume_paid (mi_entries x)"] b(2)]) (rule P(2))
    show "?len c \<le> 5000"
      using member_le_sum_list [of "?len c + 4" "map (\<lambda>c. ?len c + 4) ?cs"] that j by auto
  qed
  have n1: "near (costume_amount c) (costume_cents c) 1" if "c \<in> set ?cs" for c
    by (rule costume_amount_near) (use x each(1) [OF that] that in \<open>simp_all add: costs_in_cents_def list_all_iff\<close>)
  have n2: "near (costume_realized (mi_entries x) c) (costume_paid (mi_entries x) c) (?len c + 1)" if "c \<in> set ?cs" for c
    by (rule costume_realized_near [OF x that each(2,3) [OF that]])
  have forecast: "near (foldl (\<lambda>s c. num_add s (costume_amount c)) (Fin 0) ?cs) (0 + sum_list (map costume_cents ?cs))
      (0 + sum_list (map (\<lambda>c. 1 + 1) ?cs))"
    by (rule costs_sum [OF n1 P(1) near_0]) (use b(1) j split [of ?cs] in simp_all)
  have realized: "near (foldl (\<lambda>s c. num_add s (costume_realized (mi_entries x) c)) (Fin 0) ?cs)
      (0 + sum_list (map (costume_paid (mi_entries x)) ?cs)) (0 + sum_list (map (\<lambda>c. (?len c + 1) + 1) ?cs))"
    by (rule costs_sum [OF n2 P(2) near_0]) (use b(2) j split [of ?cs] in simp_all)
  have pos: "0 \<le> sum_list (map costume_cents ?cs)" "0 \<le> sum_list (map (costume_paid (mi_entries x)) ?cs)"
    using P by (auto intro!: sum_list_nonneg)
  have step1: "holds_ledgers (add_cost_forecast CLASS_DIRECT (foldl (\<lambda>s c. num_add s (costume_amount c)) (Fin 0) ?cs) t)
      (post CLASS_DIRECT (0 + sum_list (map costume_cents ?cs)) (\<lambda>k. 0)) (\<lambda>k. 0) (Suc (0 + (0 + sum_list (map (\<lambda>c. 1 + 1) ?cs))))"
    by (rule forecast_posted [OF t forecast ledger_zero(1)]) (use pos b j split [of ?cs] in \<open>simp_all add: ledger_zero(2)\<close>)
  have "holds_ledgers (add_costumes (mi_entries x) ?cs t)
      (post CLASS_DIRECT (0 + sum_list (map costume_cents ?cs)) (\<lambda>k. 0))
      (post CLASS_DIRECT (0 + sum_list (map (costume_paid (mi_entries x)) ?cs)) (\<lambda>k. 0))
      (Suc (Suc (0 + (0 + sum_list (map (\<lambda>c. 1 + 1) ?cs))) + (0 + sum_list (map (\<lambda>c. (?len c + 1) + 1) ?cs))))"
    unfolding add_costumes_posts
    by (rule realized_posted [OF step1 realized ledger_zero(1)]) (use pos b j split [of ?cs] in \<open>simp_all add: ledger_zero(2)\<close>)
  moreover have "Suc (Suc (0 + (0 + sum_list (map (\<lambda>c. 1 + 1) ?cs))) + (0 + sum_list (map (\<lambda>c. (?len c + 1) + 1) ?cs))) =
      sum_list (map (\<lambda>c. ?len c + 4) ?cs) + 2" using split [of ?cs] by simp
  ultimately show ?thesis by simp
qed
lemma metrics_hold_ledgers:
  assumes x: "costs_in_cents x"
    and b: "all_classes (forecast_ledger unmark x) \<le> 10 ^ 11" "all_classes (realized_ledger unmark x) \<le> 10 ^ 11"
    and j: "cost_operations x \<le> 5000"
  shows "holds_ledgers (metrics_totals unmark x) (forecast_ledger unmark x) (realized_ledger unmark x) 5000"
proof -
  let ?es = "mi_entries x" and ?cs = "mi_costumes x"
  let ?f0 = "post CLASS_DIRECT (sum_list (map costume_cents ?cs)) (\<lambda>k. 0)"
  let ?r0 = "post CLASS_DIRECT (sum_list (map (costume_paid ?es) ?cs)) (\<lambda>k. 0)"
  define t0 where "t0 = no_totals\<lparr>issues := map (\<lambda>e. ''REVENUE:'' @ or_unknown (fe_id e) @ '':unlinked_manual_entry'') (unresolved_entries unmark x)\<rparr>"
  define t1 where "t1 = foldl (obligation_step ?es) t0 (mi_obligations x)"
  define t2 where "t2 = add_costumes ?es ?cs t1"
  define t3 where "t3 = foldl sale_step t2 (mi_sales x)"
  define t4 where "t4 = foldl (entry_step unmark x) t3 ?es"
  define n where "n = sum_list (map (\<lambda>c. 4 * length (costume_entries ?es (the (co_id c))) + 4) ?cs) + 2"
  have nonneg: "0 \<le> entry_forecast unmark x e" "0 \<le> entry_realized unmark x e" if "e \<in> set ?es" for e
    using x that by (auto simp: costs_in_cents_def list_all_iff entry_forecast_def entry_realized_def counted_cost_def net_cents_def)
  then have es: "0 \<le> sum_list (map (entry_forecast unmark x) ?es)" "0 \<le> sum_list (map (entry_realized unmark x) ?es)"
    by (auto intro!: sum_list_nonneg)
  have cs: "0 \<le> sum_list (map costume_cents ?cs)" "0 \<le> sum_list (map (costume_paid ?es) ?cs)"
    using costume_parts [OF x] by (auto intro!: sum_list_nonneg)
  have sums: "sum_list (map costume_cents ?cs) + sum_list (map (entry_forecast unmark x) ?es) \<le> 10 ^ 11"
    "sum_list (map (costume_paid ?es) ?cs) + sum_list (map (entry_realized unmark x) ?es) \<le> 10 ^ 11"
    using b by (simp_all add: forecast_ledger_def realized_ledger_def all_classes_by_class ledger_zero)
  have ok: "ledger_ok ?f0" "ledger_ok ?r0"
    using ledger_ok_post [OF ledger_zero(1) cs(1)] ledger_ok_post [OF ledger_zero(1) cs(2)] sums es
    by (simp_all add: ledger_zero)
  have "holds_ledgers t0 (\<lambda>k. 0) (\<lambda>k. 0) 0"
  proof -
    have "forecast_of k t0 = Fin 0" "realized_of k t0 = Fin 0" for k
      by (cases k; simp add: t0_def no_totals_def)+
    then show ?thesis by (simp add: holds_ledgers_def ledger_zero) (simp add: t0_def no_totals_def)
  qed
  moreover have "same_costs t1 t0" unfolding t1_def by (rule same_costs_fold) (rule obligation_keeps_costs)
  ultimately have "holds_ledgers t1 (\<lambda>k. 0) (\<lambda>k. 0) 0" by (simp add: same_costs_holds)
  then have "holds_ledgers t2 ?f0 ?r0 n"
    unfolding t2_def n_def using x sums es j by (intro costs_posted) (simp_all add: cost_operations_def)
  moreover have "same_costs t3 t2" unfolding t3_def by (rule same_costs_fold) (rule sale_keeps_costs)
  ultimately have "holds_ledgers t3 ?f0 ?r0 n" by (simp add: same_costs_holds)
  then have "holds_ledgers t4 (forecast_ledger unmark x) (realized_ledger unmark x) (n + 6 * length ?es)"
    unfolding t4_def forecast_ledger_def realized_ledger_def
    using ok x sums j
    by (intro entries_post) (simp_all add: costs_in_cents_def ledger_zero cost_operations_def n_def)
  moreover have "same_costs (metrics_totals unmark x) t4"
    unfolding metrics_totals_def Let_def t4_def t3_def t2_def t1_def t0_def
    by (rule same_costs_fold) (rule assignment_keeps_costs)
  moreover have "n + 6 * length ?es \<le> 5000" using j by (simp add: cost_operations_def n_def)
  ultimately show ?thesis
    unfolding holds_ledgers_def using near_mono by (simp add: same_costs_def) blast
qed

lemma realized_amounts_nonneg:
  assumes "costs_in_cents x"
  shows "0 \<le> forecast_ledger unmark x k" "0 \<le> realized_ledger unmark x k"
proof -
  have post: "0 \<le> by_class h es f k" if "\<And>e. e \<in> set es \<Longrightarrow> 0 \<le> h e" "\<And>k. 0 \<le> f k" for h es f k
    using that by (induction es arbitrary: f) (auto simp: post_def)
  show "0 \<le> forecast_ledger unmark x k" unfolding forecast_ledger_def
    using assms costume_parts [OF assms]
    by (intro post) (auto intro!: sum_list_nonneg simp: post_def costs_in_cents_def list_all_iff entry_forecast_def counted_cost_def)
  show "0 \<le> realized_ledger unmark x k" unfolding realized_ledger_def
    using costume_parts [OF assms]
    by (intro post) (auto intro!: sum_list_nonneg simp: post_def entry_realized_def net_cents_def)
qed

text \<open>
  C35. The costs of an event are exact to the cent and split by class. When the amounts are whole
  cents, the totals are at most a billion currency units and there are at most 5,000 operations
  behind them, the forecast and the realized cost of each class equal the integer sums of the
  counted entries and costumes of the class, and the total costs equal the sums of their four
  classes: nothing is counted twice and no rounding is visible, whatever revenues, sales,
  obligations and assignments the event has beside them.
\<close>

theorem event_costs_exact:
  assumes "costs_in_cents x" "cost_operations x \<le> 5000"
    and "all_classes (forecast_ledger unmark x) \<le> 10 ^ 11" "all_classes (realized_ledger unmark x) \<le> 10 ^ 11"
  defines "m \<equiv> calculateEventMetrics unmark x" and "f \<equiv> forecast_ledger unmark x" and "r \<equiv> realized_ledger unmark x"
  shows "(em_custoDiretoPrevisto m = cents (f CLASS_DIRECT) \<and> em_custoIndiretoPrevisto m = cents (f CLASS_INDIRECT) \<and>
      em_taxasFinanceirasPrevistas m = cents (f CLASS_FINANCIAL) \<and> em_impostosPrevistos m = cents (f CLASS_TAX) \<and>
      em_custoPrevisto m = cents (f CLASS_DIRECT + f CLASS_INDIRECT + f CLASS_FINANCIAL + f CLASS_TAX)) \<and>
    (em_custoDiretoRealizado m = cents (r CLASS_DIRECT) \<and> em_custoIndiretoRealizado m = cents (r CLASS_INDIRECT) \<and>
      em_taxasFinanceirasRealizadas m = cents (r CLASS_FINANCIAL) \<and> em_impostosRealizados m = cents (r CLASS_TAX) \<and>
      em_custoRealizado m = cents (r CLASS_DIRECT + r CLASS_INDIRECT + r CLASS_FINANCIAL + r CLASS_TAX))"
proof -
  note h = metrics_hold_ledgers [OF assms(1,3,4,2)]
  have ok: "ledger_ok f" "ledger_ok r"
    using realized_amounts_nonneg [OF assms(1)] assms(3,4) by (simp_all add: ledger_ok_def f_def r_def)
  have money: "round_money v = cents n" if "near v n 5000" "0 \<le> n" "n \<le> 10 ^ 11" for v n
    using round_money_total [OF that(1)] that by simp
  have forecast: "round_money (forecast_of k (metrics_totals unmark x)) = cents (f k)" for k
    using h ledger_ok_class [OF ok(1), of k] ledger_ok_le [OF ok(1), of k] ledger_ok_total(2) [OF ok(1)]
    by (intro money) (simp_all add: holds_ledgers_def f_def)
  have realized: "round_money (realized_of k (metrics_totals unmark x)) = cents (r k)" for k
    using h ledger_ok_class [OF ok(2), of k] ledger_ok_le [OF ok(2), of k] ledger_ok_total(2) [OF ok(2)]
    by (intro money) (simp_all add: holds_ledgers_def r_def)
  have totals: "round_money (custoPrevisto (metrics_totals unmark x)) = cents (all_classes f)"
    "round_money (custoRealizado (metrics_totals unmark x)) = cents (all_classes r)"
    using h ledger_ok_total [OF ok(1)] ledger_ok_total [OF ok(2)]
    by (auto intro!: money simp: holds_ledgers_def f_def r_def)
  have "em_custoDiretoPrevisto m = cents (f CLASS_DIRECT) \<and> em_custoIndiretoPrevisto m = cents (f CLASS_INDIRECT) \<and>
      em_taxasFinanceirasPrevistas m = cents (f CLASS_FINANCIAL) \<and> em_impostosPrevistos m = cents (f CLASS_TAX) \<and>
      em_custoPrevisto m = cents (f CLASS_DIRECT + f CLASS_INDIRECT + f CLASS_FINANCIAL + f CLASS_TAX)"
    using forecast [of CLASS_DIRECT] forecast [of CLASS_INDIRECT] forecast [of CLASS_FINANCIAL] forecast [of CLASS_TAX] totals(1)
    by (simp add: m_def calculateEventMetrics_def Let_def all_classes_def)
  moreover have "em_custoDiretoRealizado m = cents (r CLASS_DIRECT) \<and> em_custoIndiretoRealizado m = cents (r CLASS_INDIRECT) \<and>
      em_taxasFinanceirasRealizadas m = cents (r CLASS_FINANCIAL) \<and> em_impostosRealizados m = cents (r CLASS_TAX) \<and>
      em_custoRealizado m = cents (r CLASS_DIRECT + r CLASS_INDIRECT + r CLASS_FINANCIAL + r CLASS_TAX)"
    using realized [of CLASS_DIRECT] realized [of CLASS_INDIRECT] realized [of CLASS_FINANCIAL] realized [of CLASS_TAX] totals(2)
    by (simp add: m_def calculateEventMetrics_def Let_def all_classes_def)
  ultimately show ?thesis by blast
qed

definition sample_event :: metrics_input where
  "sample_event = \<lparr>mi_sales = [\<lparr>sl_status = SALE_PAID, sl_quantity = num_int 2, sl_totalAmount = Some (ANum (cents 5990)), sl_refundedAmount = None\<rparr>],
     mi_lots = [],
     mi_entries = [
       \<lparr>fe_id = Some ''e1'', fe_type = ENTRY_COST, fe_status = ''PAID'', fe_expectedAmount = Some (ANum (cents 10010)),
         fe_actualAmount = Some (ANum (cents 10010)), fe_grossAmount = None, fe_discountAmount = None,
         fe_refundedAmount = Some (ANum (cents 20)), fe_originType = Some ORIGIN_MANUAL, fe_originId = None,
         fe_costClass = Some CLASS_TAX, fe_category = None\<rparr>,
       \<lparr>fe_id = Some ''e2'', fe_type = ENTRY_COST, fe_status = ''PENDING'', fe_expectedAmount = Some (ANum (cents 33)),
         fe_actualAmount = None, fe_grossAmount = None, fe_discountAmount = None, fe_refundedAmount = None,
         fe_originType = None, fe_originId = None, fe_costClass = None, fe_category = None\<rparr>],
     mi_assignments = [],
     mi_costumes = [\<lparr>co_id = None, co_schoolCost = Some (ANum (cents 1999)), co_quantity = num_int 3\<rparr>],
     mi_obligations = []\<rparr>"

lemma event_costs_exact_witness:
  "em_custoPrevisto (calculateEventMetrics (\<lambda>s. s) sample_event) = cents 16040 \<and>
   em_impostosRealizados (calculateEventMetrics (\<lambda>s. s) sample_event) = cents 9990"
proof -
  have money: "event_money (Some (ANum (cents n))) = cents n" "event_money None = Fin 0" for n
    by (simp_all add: event_money_def)
  have c: "to_cents (cents n) = n" "whole_cents (cents n)" if "\<bar>n\<bar> \<le> 5 * 10 ^ 10" for n
    using that to_cents_cents [of n] whole_cents_cents [of n] by (simp_all add: max_cents_def del: to_cents.simps)
  have c0: "to_cents (Fin 0) = 0" "whole_cents (Fin 0)" using c [of 0] by simp_all
  note defs = sample_event_def money c c0 Let_def truthy_def list_all_iff
  have f: "forecast_ledger (\<lambda>s. s) sample_event CLASS_DIRECT = 6030" "forecast_ledger (\<lambda>s. s) sample_event CLASS_INDIRECT = 0"
    "forecast_ledger (\<lambda>s. s) sample_event CLASS_FINANCIAL = 0" "forecast_ledger (\<lambda>s. s) sample_event CLASS_TAX = 10010"
    by (simp_all add: defs forecast_ledger_def entry_forecast_def counted_cost_def skipped_entry_def isAutomaticEventFinance_def
      isEventCostExpectedStatus_def costume_cents_def cost_class_of_def post_def unresolved_ids_def unresolved_entries_def
      map_filter_def del: to_cents.simps)
  have r: "realized_ledger (\<lambda>s. s) sample_event CLASS_DIRECT = 5997" "realized_ledger (\<lambda>s. s) sample_event CLASS_INDIRECT = 0"
    "realized_ledger (\<lambda>s. s) sample_event CLASS_FINANCIAL = 0" "realized_ledger (\<lambda>s. s) sample_event CLASS_TAX = 9990"
    by (simp_all add: defs realized_ledger_def entry_realized_def counted_cost_def skipped_entry_def isAutomaticEventFinance_def
      isEventCostRealizedStatus_def costume_cents_def costume_paid_def costume_linked_def net_cents_def cost_class_of_def post_def
      unresolved_ids_def unresolved_entries_def map_filter_def del: to_cents.simps)
  have x: "costs_in_cents sample_event" by (simp add: defs costs_in_cents_def del: to_cents.simps)
  have j: "cost_operations sample_event \<le> 5000" by (simp add: defs cost_operations_def costume_entries_def)
  have t: "all_classes (forecast_ledger (\<lambda>s. s) sample_event) \<le> 10 ^ 11" "all_classes (realized_ledger (\<lambda>s. s) sample_event) \<le> 10 ^ 11"
    by (simp_all add: all_classes_def f r)
  show ?thesis using event_costs_exact [OF x j t] f r by simp
qed

end
