(* ===== verification/Errors.thy ===== *)
theory Errors
  imports Main
begin

text \<open>
  Operations that may fail: a result is an error (\<open>Inl\<close>) or a value (\<open>Inr\<close>). Sequencing stops at the
  first error, as a thrown exception does, and a loop over an array is a fold that may stop.
\<close>

fun and_then :: "'e + 'a \<Rightarrow> ('a \<Rightarrow> 'e + 'b) \<Rightarrow> 'e + 'b" where
  "and_then (Inl e) f = Inl e"
| "and_then (Inr x) f = f x"

lemma and_then_Inr_iff: "and_then m f = Inr y \<longleftrightarrow> (\<exists>x. m = Inr x \<and> f x = Inr y)"
  by (cases m) auto

lemma and_then_Inl_iff: "and_then m f = Inl e \<longleftrightarrow> m = Inl e \<or> (\<exists>x. m = Inr x \<and> f x = Inl e)"
  by (cases m) auto

lemma and_then_InrE:
  assumes "and_then m f = Inr y"
  obtains x where "m = Inr x" "f x = Inr y"
  using assms by (auto simp: and_then_Inr_iff)

text \<open>\<^verbatim>\<open>if (!ok) throw e\<close>\<close>

definition require :: "bool \<Rightarrow> 'e \<Rightarrow> 'e + unit" where
  "require ok e = (if ok then Inr () else Inl e)"

lemma require_Inr [simp]: "require ok e = Inr u \<longleftrightarrow> ok"
  by (simp add: require_def)

lemma require_simps [simp]: "require True e = Inr ()" "require False e = Inl e"
  by (simp_all add: require_def)

primrec fold_err :: "('s \<Rightarrow> 'a \<Rightarrow> 'e + 's) \<Rightarrow> 's \<Rightarrow> 'a list \<Rightarrow> 'e + 's" where
  "fold_err f s [] = Inr s"
| "fold_err f s (x # xs) = and_then (f s x) (\<lambda>t. fold_err f t xs)"

lemma fold_err_append: "fold_err f s (xs @ ys) = and_then (fold_err f s xs) (\<lambda>t. fold_err f t ys)"
proof (induction xs arbitrary: s)
  case (Cons x xs)
  then show ?case by (cases "f s x") simp_all
qed simp

lemma fold_err_invariant:
  assumes "fold_err f s xs = Inr t" "P s"
    and "\<And>s x t. x \<in> set xs \<Longrightarrow> P s \<Longrightarrow> f s x = Inr t \<Longrightarrow> P t"
  shows "P t"
  using assms
proof (induction xs arbitrary: s)
  case (Cons x xs)
  then obtain u where u: "f s x = Inr u" "fold_err f u xs = Inr t" by (auto simp: and_then_Inr_iff)
  show ?case
    by (rule Cons.IH [OF u(2)]) (use Cons.prems u(1) in auto)
qed simp

text \<open>A loop that cannot fail where its invariant holds.\<close>

lemma fold_err_succeeds:
  assumes "P s xs" and "\<And>s x xs. P s (x # xs) \<Longrightarrow> \<exists>t. f s x = Inr t \<and> P t xs"
  shows "\<exists>t. fold_err f s xs = Inr t \<and> P t []"
  using assms(1)
proof (induction xs arbitrary: s)
  case (Cons x xs)
  then obtain t where "f s x = Inr t" "P t xs" using assms(2) by blast
  then show ?case using Cons.IH by simp
qed simp

end
