(* ===== verification/StoreStock.thy ===== *)
theory StoreStock
  imports Errors DecimalMoney PaymentStatus
begin

text \<open>
  The stock of the school's store: the tables and the single operation through which every change of
  a balance goes, \<^verbatim>\<open>applyInventoryChange\<close> of \<^verbatim>\<open>packages/finance/src/use-cases/store-inventory.ts\<close>,
  with the weighted average cost of \<^verbatim>\<open>inventory-cost.ts\<close>. A table is the list of its rows, a database
  transaction a function from a database to an error or a new database (an error leaves the database
  unchanged). Identifiers the database generates are numbers taken from a counter. An \<^verbatim>\<open>Int\<close> column
  holds 32 bits and a \<^verbatim>\<open>Decimal\<close> column its digits; a value outside is the error \<open>DATABASE_RANGE\<close>.
\<close>

section \<open>Tables\<close>

datatype movement_type = MT_OPENING_IN | MT_ENTRY_IN | MT_RESTOCK_IN | MT_SALE_OUT | MT_RESERVE | MT_RELEASE
  | MT_RETURN_IN | MT_ADJUST_IN | MT_ADJUST_OUT | MT_LOSS_OUT

datatype restock_status = RO_PLANEJADO | RO_RECEBIDO_PARCIAL | RO_RECEBIDO | RO_CANCELADO

datatype inventory_mode = MODE_IMMEDIATE | MODE_RESERVE

datatype inventory_status = INV_FULFILLED | INV_RESERVED | INV_CANCELED | INV_RETURNED_PARTIAL | INV_RETURNED_TOTAL

datatype store_sale_status = SALE_CONCLUIDA | SALE_PENDENTE | SALE_VINCULADA_MENSALIDADE | SALE_CANCELADA

datatype finalization = FIN_RECEBIMENTO_PRESENCIAL | FIN_COBRANCA | FIN_MENSALIDADE

datatype return_refund = REFUND_NOT_REQUESTED | MANUAL_REFUND_REQUIRED

text \<open>\<^verbatim>\<open>variant:\<id>\<close> or \<^verbatim>\<open>product:\<id>\<close>\<close>

datatype item_key = ProductKey string | VariantKey string

text \<open>The origin type with the origin id, and the keys of the actions of an origin.\<close>

datatype origin = MANUAL_ENTRY string | MANUAL_ADJUSTMENT string | RESTOCK_ORDER nat | SALE_ORIGIN nat

datatype action_key = K_CREATE | K_SET | K_DELTA | K_PLANNED | K_RECEIVE int | K_CANCEL | K_RESERVE | K_SALE_OUT
  | K_FULFILL | K_FULFILL_ON_PAYMENT | K_RETURN int

record product_row =
  p_id :: string
  p_contaId :: string
  p_stock :: int
  p_hasVariants :: bool
  p_archived :: bool

record variant_row =
  v_id :: string
  v_productId :: string
  v_stock :: int

record balance =
  b_contaId :: string
  b_key :: item_key
  b_productId :: string
  b_variantId :: "string option"
  b_onHand :: int
  b_reserved :: int
  b_incoming :: int
  b_averageCost :: rat

record movement =
  m_contaId :: string
  m_key :: item_key
  m_productId :: string
  m_variantId :: "string option"
  m_type :: movement_type
  m_onHandBefore :: int
  m_onHandDelta :: int
  m_onHandAfter :: int
  m_reservedBefore :: int
  m_reservedDelta :: int
  m_reservedAfter :: int
  m_incomingBefore :: int
  m_incomingDelta :: int
  m_incomingAfter :: int
  m_unitCost :: "rat option"
  m_totalCost :: "rat option"
  m_origin :: origin
  m_line :: "nat option"
  m_action :: action_key

record restock_item =
  ri_id :: nat
  ri_productId :: string
  ri_variantId :: "string option"
  ri_expected :: int
  ri_received :: int
  ri_unitCost :: "rat option"

record restock_order =
  ro_id :: nat
  ro_contaId :: string
  ro_status :: restock_status
  ro_items :: "restock_item list"

record sale_item =
  si_id :: nat
  si_productId :: "string option"
  si_variantId :: "string option"
  si_quantity :: int
  si_returned :: int
  si_unitCost :: "rat option"
  si_subtotal :: rat
  si_netSubtotal :: "rat option"
  si_discountShare :: "rat option"

record store_sale =
  sa_id :: nat
  sa_contaId :: string
  sa_uiRequestId :: string
  sa_status :: store_sale_status
  sa_finalization :: finalization
  sa_mode :: inventory_mode
  sa_inventoryStatus :: inventory_status
  sa_chargeId :: "string option"
  sa_planId :: "string option"
  sa_items :: "sale_item list"

record charge_row =
  cg_id :: string
  cg_contaId :: string
  cg_planId :: "string option"
  cg_status :: charge_status
  cg_value :: "rat option"
  cg_billingType :: "string option"
  cg_dueDate :: int
  cg_createdAt :: int

record sale_return =
  rt_id :: nat
  rt_contaId :: string
  rt_saleId :: nat
  rt_requestId :: string
  rt_fingerprint :: string
  rt_refundStatus :: return_refund
  rt_refundAmount :: rat
  rt_items :: "(nat \<times> int \<times> rat) list"

record stock_db =
  db_products :: "product_row list"
  db_variants :: "variant_row list"
  db_balances :: "balance list"
  db_movements :: "movement list"
  db_orders :: "restock_order list"
  db_sales :: "store_sale list"
  db_charges :: "charge_row list"
  db_returns :: "sale_return list"
  db_next :: nat

text \<open>The codes of \<^verbatim>\<open>StoreInventoryError\<close>, and the errors of the database itself.\<close>

datatype store_error = REQUEST_ID_OBRIGATORIO | QUANTIDADE_INVALIDA | CUSTO_INVALIDO | PRODUTO_NAO_ENCONTRADO
  | VARIANTE_NAO_ENCONTRADA | VARIANTE_OBRIGATORIA_ESTOQUE | SALDO_INVENTARIO_NAO_ENCONTRADO
  | MOVIMENTO_ESTOQUE_INVALIDO | SALDO_ESTOQUE_CONCORRENTE | ITENS_OBRIGATORIOS | REPOSICAO_NAO_ENCONTRADA
  | REPOSICAO_CANCELADA | ITEM_REPOSICAO_NAO_ENCONTRADO | QUANTIDADE_RECEBIDA_INVALIDA | ESTOQUE_INSUFICIENTE
  | VENDA_NAO_ENCONTRADA | VENDA_CANCELADA | VENDA_SEM_RESERVA | DEVOLUCAO_IDEMPOTENCY_CONFLICT
  | VENDA_SEM_SAIDA_FISICA | ITEM_VENDA_NAO_ENCONTRADO | QUANTIDADE_DEVOLUCAO_INVALIDA
  | BOLETO_PARTIAL_REFUND_NOT_SUPPORTED | DEVOLUCAO_CONCORRENTE | DATABASE_RANGE | DATABASE_UNIQUE | DATABASE_RECORD_NOT_FOUND

section \<open>Columns and helpers\<close>

text \<open>\<^verbatim>\<open>x.toFixed(n)\<close> as a number: the nearest multiple, ties away from zero.\<close>

definition to_fixed :: "nat \<Rightarrow> rat \<Rightarrow> rat" where
  "to_fixed n x = (let k = of_int \<lfloor>\<bar>x\<bar> * 10 ^ n + 1 / 2\<rfloor> / 10 ^ n in if x < 0 then - k else k)"

text \<open>\<^verbatim>\<open>Number(x.toFixed(n))\<close>; from \<open>10 ^ 21\<close> on \<^verbatim>\<open>toFixed\<close> prints the number itself.\<close>

fun num_to_fixed :: "nat \<Rightarrow> jsnum \<Rightarrow> jsnum" where
  "num_to_fixed n (Fin x) = (if 10 ^ 21 \<le> \<bar>x\<bar> then Fin x else of_exact (to_fixed n x))"
| "num_to_fixed n x = x"

definition int_column :: "int \<Rightarrow> store_error + int" where
  "int_column n = (if - (2 ^ 31) \<le> n \<and> n < 2 ^ 31 then Inr n else Inl DATABASE_RANGE)"

definition rat_column :: "nat \<Rightarrow> rat \<Rightarrow> store_error + rat" where
  "rat_column digits x = (if \<bar>x\<bar> < 10 ^ digits then Inr x else Inl DATABASE_RANGE)"

text \<open>\<^verbatim>\<open>new Prisma.Decimal(value.toFixed(scale))\<close> stored in a column with \<open>digits\<close> integer digits.\<close>

definition decimal_column :: "nat \<Rightarrow> nat \<Rightarrow> jsnum \<Rightarrow> store_error + rat" where
  "decimal_column digits scale v = (case v of Fin x \<Rightarrow> rat_column digits (to_fixed scale x) | _ \<Rightarrow> Inl DATABASE_RANGE)"

text \<open>A value that may be absent is stored when it is present.\<close>

definition optional :: "('a \<Rightarrow> store_error + 'b) \<Rightarrow> 'a option \<Rightarrow> store_error + 'b option" where
  "optional f v = (case v of None \<Rightarrow> Inr None | Some x \<Rightarrow> and_then (f x) (\<lambda>y. Inr (Some y)))"

definition moneyToNumber :: "rat \<Rightarrow> jsnum" where
  "moneyToNumber v = of_exact v"

fun num_is_integer :: "jsnum \<Rightarrow> bool" where
  "num_is_integer (Fin x) = (x = of_int \<lfloor>x\<rfloor>)"
| "num_is_integer _ = False"

fun whole :: "jsnum \<Rightarrow> int" where
  "whole (Fin x) = \<lfloor>x\<rfloor>"
| "whole _ = 0"

definition normalizeText :: "string option \<Rightarrow> string option" where
  "normalizeText v = (case v of None \<Rightarrow> None | Some s \<Rightarrow> if js_trim s = [] then None else Some (js_trim s))"

definition buildInventoryItemKey :: "string \<Rightarrow> string option \<Rightarrow> item_key" where
  "buildInventoryItemKey productId variantId =
     (if truthy variantId then VariantKey (the variantId) else ProductKey productId)"

definition calculateAvailable :: "balance \<Rightarrow> int" where
  "calculateAvailable b = b_onHand b - b_reserved b"

definition calculateProjected :: "balance \<Rightarrow> int" where
  "calculateProjected b = calculateAvailable b + b_incoming b"

datatype alert_state = ALERT_OUT | ALERT_LOW | ALERT_OK

definition calculateAlertState :: "int \<Rightarrow> int \<Rightarrow> alert_state" where
  "calculateAlertState available threshold =
     (if available \<le> 0 then ALERT_OUT else if available \<le> max threshold 0 then ALERT_LOW else ALERT_OK)"

definition buildMovementTotalCost :: "rat option \<Rightarrow> int \<Rightarrow> int \<Rightarrow> rat option" where
  "buildMovementTotalCost unitCost onHandDelta incomingDelta = (case unitCost of None \<Rightarrow> None
     | Some c \<Rightarrow> (let base = (if 0 < \<bar>onHandDelta\<bar> then \<bar>onHandDelta\<bar> else \<bar>incomingDelta\<bar>)
         in if base \<le> 0 then None else Some (c * of_int base)))"

section \<open>inventory-cost.ts\<close>

definition computeWeightedAverageCost :: "jsnum \<Rightarrow> jsnum \<Rightarrow> jsnum \<Rightarrow> jsnum \<Rightarrow> jsnum" where
  "computeWeightedAverageCost currentOnHand currentAverageCost incomingQuantity incomingUnitCost =
     (let onHand = num_max currentOnHand (Fin 0); average = num_max currentAverageCost (Fin 0);
          quantity = num_max incomingQuantity (Fin 0); cost = num_max incomingUnitCost (Fin 0)
      in if num_le quantity (Fin 0) then average
         else let nextOnHand = num_add onHand quantity in
           if num_le onHand (Fin 0) then num_to_fixed 4 cost
           else num_to_fixed 4 (num_div (num_add (num_mul onHand average) (num_mul quantity cost)) nextOnHand))"

definition calculateInventoryValue :: "jsnum \<Rightarrow> jsnum \<Rightarrow> jsnum" where
  "calculateInventoryValue onHand averageCost =
     num_to_fixed 4 (num_mul (num_max onHand (Fin 0)) (num_max averageCost (Fin 0)))"

section \<open>Balances\<close>

definition find_product :: "stock_db \<Rightarrow> string \<Rightarrow> string \<Rightarrow> product_row option" where
  "find_product db conta i = find (\<lambda>p. p_id p = i \<and> p_contaId p = conta) (db_products db)"

definition find_variant :: "stock_db \<Rightarrow> string \<Rightarrow> string \<Rightarrow> variant_row option" where
  "find_variant db product i = find (\<lambda>v. v_id v = i \<and> v_productId v = product) (db_variants db)"

text \<open>The product and the variant of a change, checked.\<close>

definition loadInventoryTarget ::
    "stock_db \<Rightarrow> string \<Rightarrow> string \<Rightarrow> string option \<Rightarrow> store_error + product_row \<times> variant_row option" where
  "loadInventoryTarget db conta product variant = (case find_product db conta product of
       None \<Rightarrow> Inl PRODUTO_NAO_ENCONTRADO
     | Some p \<Rightarrow> if p_archived p then Inl PRODUTO_NAO_ENCONTRADO
         else if truthy variant then
           (case find_variant db product (the variant) of None \<Rightarrow> Inl VARIANTE_NAO_ENCONTRADA | Some v \<Rightarrow> Inr (p, Some v))
         else if p_hasVariants p \<or> list_ex (\<lambda>v. v_productId v = product) (db_variants db)
         then Inl VARIANTE_OBRIGATORIA_ESTOQUE else Inr (p, None))"

definition find_balance :: "stock_db \<Rightarrow> string \<Rightarrow> item_key \<Rightarrow> balance option" where
  "find_balance db conta k = find (\<lambda>b. b_contaId b = conta \<and> b_key b = k) (db_balances db)"

definition findInventoryBalance :: "stock_db \<Rightarrow> string \<Rightarrow> string \<Rightarrow> string option \<Rightarrow> balance option" where
  "findInventoryBalance db conta product variant = find_balance db conta (buildInventoryItemKey product variant)"

definition update_product :: "string \<Rightarrow> int \<Rightarrow> stock_db \<Rightarrow> store_error + stock_db" where
  "update_product i stock db = (if \<not> list_ex (\<lambda>p. p_id p = i) (db_products db) then Inl DATABASE_RECORD_NOT_FOUND
     else and_then (int_column stock) (\<lambda>s.
       Inr (db\<lparr>db_products := map (\<lambda>p. if p_id p = i then p\<lparr>p_stock := s\<rparr> else p) (db_products db)\<rparr>)))"

definition update_variant :: "string \<Rightarrow> int \<Rightarrow> stock_db \<Rightarrow> store_error + stock_db" where
  "update_variant i stock db = (if \<not> list_ex (\<lambda>v. v_id v = i) (db_variants db) then Inl DATABASE_RECORD_NOT_FOUND
     else and_then (int_column stock) (\<lambda>s.
       Inr (db\<lparr>db_variants := map (\<lambda>v. if v_id v = i then v\<lparr>v_stock := s\<rparr> else v) (db_variants db)\<rparr>)))"

definition getOrCreateInventoryBalance ::
    "stock_db \<Rightarrow> string \<Rightarrow> string \<Rightarrow> string option \<Rightarrow> store_error + stock_db \<times> balance" where
  "getOrCreateInventoryBalance db conta product variant = (case findInventoryBalance db conta product variant of
       Some b \<Rightarrow> Inr (db, b)
     | None \<Rightarrow> and_then (loadInventoryTarget db conta product variant) (\<lambda>(p, v).
         let b = \<lparr>b_contaId = conta, b_key = buildInventoryItemKey (p_id p) (map_option v_id v), b_productId = product,
               b_variantId = map_option v_id v, b_onHand = (case v of None \<Rightarrow> p_stock p | Some w \<Rightarrow> v_stock w),
               b_reserved = 0, b_incoming = 0, b_averageCost = 0\<rparr>;
             created = db\<lparr>db_balances := db_balances db @ [b]\<rparr>
         in case v of Some _ \<Rightarrow> Inr (created, b)
            | None \<Rightarrow> and_then (update_product product (p_stock p) created) (\<lambda>db'. Inr (db', b))))"

definition syncLegacyStockMirror :: "stock_db \<Rightarrow> string \<Rightarrow> string option \<Rightarrow> int \<Rightarrow> store_error + stock_db" where
  "syncLegacyStockMirror db product variant onHand =
     (if truthy variant then
        and_then (update_variant (the variant) onHand db) (\<lambda>db1.
          update_product product
            (sum_list (map b_onHand (filter (\<lambda>b. b_productId b = product \<and> b_variantId b \<noteq> None) (db_balances db1)))) db1)
      else update_product product onHand db)"

section \<open>applyInventoryChange\<close>

record stock_change =
  ch_contaId :: string
  ch_productId :: string
  ch_variantId :: "string option"
  ch_type :: movement_type
  ch_onHand :: int
  ch_reserved :: int
  ch_incoming :: int
  ch_unitCost :: "jsnum option"
  ch_recalculate :: bool
  ch_origin :: origin
  ch_line :: "nat option"
  ch_action :: action_key

type_synonym movement_id = "string \<times> origin \<times> nat option \<times> action_key \<times> movement_type"

definition change_id :: "stock_change \<Rightarrow> movement_id" where
  "change_id c = (ch_contaId c, ch_origin c, ch_line c, ch_action c, ch_type c)"

definition movement_id :: "movement \<Rightarrow> movement_id" where
  "movement_id m = (m_contaId m, m_origin m, m_line m, m_action m, m_type m)"

definition change_key :: "stock_change \<Rightarrow> item_key" where
  "change_key c = buildInventoryItemKey (ch_productId c) (ch_variantId c)"

definition next_average :: "balance \<Rightarrow> stock_change \<Rightarrow> jsnum" where
  "next_average b c = (let current = moneyToNumber (b_averageCost b) in
     case ch_unitCost c of
       Some cost \<Rightarrow> if ch_recalculate c \<and> 0 < ch_onHand c
         then computeWeightedAverageCost (num_int (b_onHand b)) current (num_int (ch_onHand c)) cost else current
     | None \<Rightarrow> current)"

definition movement_of :: "balance \<Rightarrow> stock_change \<Rightarrow> rat option \<Rightarrow> rat option \<Rightarrow> movement" where
  "movement_of b c unitCost totalCost =
     \<lparr>m_contaId = ch_contaId c, m_key = b_key b, m_productId = ch_productId c, m_variantId = ch_variantId c,
      m_type = ch_type c,
      m_onHandBefore = b_onHand b, m_onHandDelta = ch_onHand c, m_onHandAfter = b_onHand b + ch_onHand c,
      m_reservedBefore = b_reserved b, m_reservedDelta = ch_reserved c, m_reservedAfter = b_reserved b + ch_reserved c,
      m_incomingBefore = b_incoming b, m_incomingDelta = ch_incoming c, m_incomingAfter = b_incoming b + ch_incoming c,
      m_unitCost = unitCost, m_totalCost = totalCost,
      m_origin = ch_origin c, m_line = ch_line c, m_action = ch_action c\<rparr>"

text \<open>The conditional update of the balance: the rows whose counters are still those read.\<close>

definition unchanged_row :: "balance \<Rightarrow> balance \<Rightarrow> bool" where
  "unchanged_row b r \<longleftrightarrow> b_contaId r = b_contaId b \<and> b_key r = b_key b \<and> b_onHand r = b_onHand b \<and>
     b_reserved r = b_reserved b \<and> b_incoming r = b_incoming b"

definition changed_row :: "stock_change \<Rightarrow> balance \<Rightarrow> rat \<Rightarrow> balance \<Rightarrow> balance" where
  "changed_row c b average r = r\<lparr>b_onHand := b_onHand b + ch_onHand c, b_reserved := b_reserved b + ch_reserved c,
     b_incoming := b_incoming b + ch_incoming c, b_averageCost := average\<rparr>"

definition store_change :: "stock_db \<Rightarrow> balance \<Rightarrow> stock_change \<Rightarrow> store_error + stock_db \<times> balance" where
  "store_change db b c =
     (let onHand = b_onHand b + ch_onHand c; reserved = b_reserved b + ch_reserved c; incoming = b_incoming b + ch_incoming c
      in if onHand < 0 \<or> reserved < 0 \<or> incoming < 0 then Inl MOVIMENTO_ESTOQUE_INVALIDO
      else and_then (optional (\<lambda>cost. decimal_column 8 4 (num_max cost (Fin 0))) (ch_unitCost c)) (\<lambda>unitCost.
        and_then (decimal_column 8 4 (next_average b c)) (\<lambda>average.
        and_then (int_column onHand) (\<lambda>_. and_then (int_column reserved) (\<lambda>_. and_then (int_column incoming) (\<lambda>_.
        if length (filter (unchanged_row b) (db_balances db)) \<noteq> 1 then Inl SALDO_ESTOQUE_CONCORRENTE
        else and_then (optional (rat_column 10) (buildMovementTotalCost unitCost (ch_onHand c) (ch_incoming c))) (\<lambda>totalCost.
          and_then (syncLegacyStockMirror
              (db\<lparr>db_balances := map (\<lambda>r. if unchanged_row b r then changed_row c b average r else r) (db_balances db),
                 db_movements := db_movements db @ [movement_of b c unitCost totalCost]\<rparr>)
              (ch_productId c) (ch_variantId c) onHand) (\<lambda>db'.
          case findInventoryBalance db' (ch_contaId c) (ch_productId c) (ch_variantId c) of
            None \<Rightarrow> Inl SALDO_INVENTARIO_NAO_ENCONTRADO | Some u \<Rightarrow> Inr (db', u)))))))))"

definition applyInventoryChange :: "stock_db \<Rightarrow> stock_change \<Rightarrow> store_error + stock_db \<times> balance" where
  "applyInventoryChange db c =
     (if change_id c \<in> set (map movement_id (db_movements db)) then
        (case findInventoryBalance db (ch_contaId c) (ch_productId c) (ch_variantId c) of
           None \<Rightarrow> Inl SALDO_INVENTARIO_NAO_ENCONTRADO | Some b \<Rightarrow> Inr (db, b))
      else and_then (getOrCreateInventoryBalance db (ch_contaId c) (ch_productId c) (ch_variantId c))
        (\<lambda>(db1, b). store_change db1 b c))"

definition apply_change :: "stock_db \<Rightarrow> stock_change \<Rightarrow> store_error + stock_db" where
  "apply_change db c = and_then (applyInventoryChange db c) (\<lambda>(db', _). Inr db')"

end
