(* ===== verification/StoreCosts.thy ===== *)
theory StoreCosts
  imports StoreStock
begin

text \<open>
  The average cost of an item, kept with four decimals: how far the doubles of
  \<^verbatim>\<open>computeWeightedAverageCost\<close>, and the column that stores its result, are from the weighted average of
  the two costs.
\<close>

lemma fl_near: "\<bar>fl x - x\<bar> \<le> (\<bar>x\<bar> + 1) / 2 ^ 53"
proof (cases "min_normal \<le> \<bar>x\<bar>")
  case True
  then show ?thesis using fl_relative_error [OF True] by simp
next
  case False
  then have "\<bar>x\<bar> \<le> 2 ^ 0" using min_normal_le_1 by simp
  then show ?thesis using fl_error_at [of x 0] by simp
qed

text \<open>A rounded value is the multiple it was rounded to, whatever the double in between.\<close>

lemma to_fixed_error:
  assumes "0 \<le> x"
  shows "\<bar>to_fixed n x - x\<bar> \<le> 1 / (2 * 10 ^ n)" "0 \<le> to_fixed n x"
proof -
  let ?k = "\<lfloor>x * 10 ^ n + 1 / 2\<rfloor>"
  have k: "to_fixed n x = of_int ?k / 10 ^ n" using assms by (simp add: to_fixed_def Let_def)
  have "of_int ?k \<le> x * 10 ^ n + 1 / 2" "x * 10 ^ n + 1 / 2 < of_int ?k + 1" by linarith+
  then have "\<bar>of_int ?k - x * 10 ^ n\<bar> \<le> 1 / 2" by linarith
  then have "\<bar>of_int ?k - x * 10 ^ n\<bar> / 10 ^ n \<le> (1 / 2) / 10 ^ n" by (intro divide_right_mono) simp_all
  moreover have "to_fixed n x - x = (of_int ?k - x * 10 ^ n) / 10 ^ n" by (simp add: k diff_divide_distrib)
  ultimately show "\<bar>to_fixed n x - x\<bar> \<le> 1 / (2 * 10 ^ n)" by (simp add: abs_divide)
  have "0 \<le> x * 10 ^ n" using assms by simp
  then show "0 \<le> to_fixed n x" by (simp add: k)
qed

lemma to_fixed_4: "0 \<le> x \<Longrightarrow> \<bar>x - of_int k / 10000\<bar> < 1 / 20000 \<Longrightarrow> to_fixed 4 x = of_int k / 10000"
proof -
  assume x: "0 \<le> x" "\<bar>x - of_int k / 10000\<bar> < 1 / 20000"
  then have "\<lfloor>x * 10000 + 1 / 2\<rfloor> = k" unfolding floor_eq_iff intervals by linarith
  then show ?thesis using x(1) by (simp add: to_fixed_def Let_def)
qed

text \<open>Four decimals survive the double between the computation and the column.\<close>

lemma stored_four_decimals:
  assumes "0 \<le> v" "v \<le> 2 ^ 27" "to_fixed 4 v < 10 ^ 8"
  shows "decimal_column 8 4 (num_to_fixed 4 (Fin v)) = Inr (to_fixed 4 v)"
proof -
  define w where "w = to_fixed 4 v"
  obtain k where k: "w = of_int k / 10000" using assms(1) by (auto simp: w_def to_fixed_def Let_def)
  have w: "0 \<le> w" "w < 10 ^ 8" using to_fixed_error(2) [OF assms(1), of 4] assms(3) by (simp_all add: w_def)
  then have e: "\<bar>fl w - w\<bar> \<le> (10 ^ 8 + 1) / 2 ^ 53" using fl_near [of w] by (simp add: field_simps)
  have small: "\<bar>w\<bar> \<le> 2 ^ 60" using w by simp
  have fixed: "num_to_fixed 4 (Fin v) = Fin (fl w)"
    using assms(1,2) of_exact_at [OF small] by (simp add: w_def)
  have "\<bar>fl w - of_int k / 10000\<bar> < 1 / 20000"
    using e unfolding k [symmetric] by simp
  then have "to_fixed 4 (fl w) = w" unfolding k [symmetric] using to_fixed_4 [OF fl_nonneg [OF w(1)]] k by metis
  then show ?thesis using w by (simp only: fixed decimal_column_def jsnum.case rat_column_def w_def [symmetric]) simp
qed

text \<open>C38. The average cost of an item: after goods came in, the stored average is the exact weighted average of the
  old average and the cost of the delivery, rounded to four decimals, up to the seventh decimal.\<close>

theorem weighted_average_near:
  assumes "0 < a" "0 < q" "a \<le> 2 ^ 31" "q \<le> 2 ^ 31" "0 \<le> x" "x \<le> 99999999" "0 \<le> y" "y \<le> 99999999"
  shows "\<exists>w. decimal_column 8 4 (computeWeightedAverageCost (num_int a) (Fin x) (num_int q) (Fin y)) = Inr w \<and>
    \<bar>w - (of_int a * x + of_int q * y) / of_int (a + q)\<bar> \<le> 1 / 20000 + 1 / 10 ^ 7"
proof -
  define A Q :: rat where "A = of_int a" and "Q = of_int q"
  have "(of_int a :: rat) \<le> of_int (2 ^ 31)" "(of_int q :: rat) \<le> of_int (2 ^ 31)" "(1::rat) \<le> of_int a" "(1::rat) \<le> of_int q"
    using assms(1-4) by (simp_all only: of_int_le_iff)
  then have A: "1 \<le> A" "A \<le> 2 ^ 31" and Q: "1 \<le> Q" "Q \<le> 2 ^ 31" by (simp_all add: A_def Q_def)
  define N D where "N = A * x + Q * y" and "D = A + Q"
  have D: "2 \<le> D" using A Q by (simp add: D_def)
  have products: "0 \<le> A * x" "A * x \<le> A * 99999999" "0 \<le> Q * y" "Q * y \<le> Q * 99999999"
    using assms(5-8) A Q by (simp_all add: mult_left_mono)
  have N: "0 \<le> N" "N \<le> 99999999 * D" "N \<le> 2 ^ 59"
  proof -
    have "0 \<le> X \<Longrightarrow> X \<le> A * 99999999 \<Longrightarrow> 0 \<le> Y \<Longrightarrow> Y \<le> Q * 99999999 \<Longrightarrow>
        0 \<le> X + Y \<and> X + Y \<le> 99999999 * D \<and> X + Y \<le> 2 ^ 59" for X Y
      using A Q by (simp add: D_def)
    from this [OF products] show "0 \<le> N" "N \<le> 99999999 * D" "N \<le> 2 ^ 59" by (simp_all add: N_def)
  qed
  define p r where "p = fl (A * x)" and "r = fl (Q * y)"
  have pr: "\<bar>p + r - N\<bar> \<le> (N + 2) / 2 ^ 53" "0 \<le> p" "0 \<le> r"
    using fl_near [of "A * x"] fl_near [of "Q * y"] products fl_nonneg unfolding p_def r_def N_def intervals
    by (auto simp: field_simps)
  define s where "s = fl (p + r)"
  have s: "\<bar>s - N\<bar> \<le> (3 * N + 5) / 2 ^ 53" "0 \<le> s"
    using fl_near [of "p + r"] pr N fl_nonneg unfolding s_def intervals by (auto simp: field_simps)
  define v where "v = fl (s / D)"
  have sD: "\<bar>s / D - N / D\<bar> \<le> (3 * 99999999 + 5) / 2 ^ 53"
  proof -
    have "\<bar>s - N\<bar> / D \<le> (3 * (99999999 * D) + 5 * D) / 2 ^ 53 / D"
      using s(1) N D by (intro divide_right_mono) (simp_all add: field_simps)
    also have "\<dots> = (3 * 99999999 + 5) / 2 ^ 53" using D by (simp add: field_simps)
    finally show ?thesis using D by (simp add: diff_divide_distrib [symmetric] abs_divide)
  qed
  have M: "0 \<le> N / D" "N / D \<le> 99999999" using N D by (simp_all add: divide_le_eq)
  have q: "0 \<le> s / D" using s(2) D by simp
  have v: "\<bar>v - N / D\<bar> \<le> 1 / 10 ^ 7" "0 \<le> v"
  proof -
    have "\<bar>z - m\<bar> \<le> 1 / 10 ^ 7" if "\<bar>z - y\<bar> \<le> (\<bar>y\<bar> + 1) / 2 ^ 53" "\<bar>y - m\<bar> \<le> (3 * 99999999 + 5) / 2 ^ 53"
      "0 \<le> y" "0 \<le> m" "m \<le> 99999999" for z y m :: rat
      using that unfolding intervals by (simp add: abs_of_nonneg)
    from this [OF fl_near sD q M] show "\<bar>v - N / D\<bar> \<le> 1 / 10 ^ 7" by (simp only: v_def)
    show "0 \<le> v" using q by (simp add: v_def fl_nonneg)
  qed
  define w where "w = to_fixed 4 v"
  have w: "\<bar>w - v\<bar> \<le> 1 / 20000" using to_fixed_error(1) [OF v(2), of 4] by (simp add: w_def)
  have near: "\<bar>w - N / D\<bar> \<le> 1 / 20000 + 1 / 10 ^ 7" using w v(1) unfolding intervals by (intro conjI; linarith)
  have stored: "decimal_column 8 4 (num_to_fixed 4 (Fin v)) = Inr w"
  proof -
    have "v \<le> 2 ^ 27 \<and> w < 10 ^ 8" using near v(1) M(2) unfolding intervals by (intro conjI; simp; linarith)
    then show ?thesis using stored_four_decimals [OF v(2)] by (simp add: w_def)
  qed
  have nums: "num_mul (num_int a) (Fin x) = Fin p" "num_mul (num_int q) (Fin y) = Fin r"
    using products N by (simp_all add: A_def [symmetric] Q_def [symmetric] p_def r_def of_exact_at N_def)
  have sum: "num_add (Fin p) (Fin r) = Fin s"
    using pr N of_exact_at [of "p + r"] unfolding intervals by (simp add: s_def)
  have quotient: "num_div (Fin s) (num_int (a + q)) = Fin v"
  proof -
    have "y \<le> 2 ^ 60" if "\<bar>y - m\<bar> \<le> (3 * 99999999 + 5) / 2 ^ 53" "m \<le> 99999999" for y m :: rat
      using that unfolding intervals by simp
    from this [OF sD M(2)] have "\<bar>s / D\<bar> \<le> 2 ^ 60" using q by simp
    from of_exact_at [OF this] show ?thesis
      using D by (simp add: A_def [symmetric] Q_def [symmetric] D_def [symmetric] v_def)
  qed
  have "a + q \<le> 2 ^ 53" using assms(3,4) by simp
  then have "computeWeightedAverageCost (num_int a) (Fin x) (num_int q) (Fin y) = num_to_fixed 4 (Fin v)"
    using assms nums sum quotient by (simp add: computeWeightedAverageCost_def num_max_def num_le_def del: num_add.simps num_mul.simps num_div.simps num_to_fixed.simps)
  then show ?thesis using stored near by (auto simp: N_def D_def A_def Q_def)
qed

theorem weighted_average_near_witness:
  "\<exists>w. decimal_column 8 4 (computeWeightedAverageCost (num_int 3) (Fin 10) (num_int 4) (Fin (25 / 2))) = Inr w \<and>
    \<bar>w - 80 / 7\<bar> \<le> 1 / 20000 + 1 / 10 ^ 7"
  using weighted_average_near [of 3 4 10 "25 / 2"] by simp

end
