(* ===== verification/StoreOperations.thy ===== *)
theory StoreOperations
  imports StoreStock
begin

text \<open>
  The operations of \<^verbatim>\<open>store-inventory.ts\<close> on the stock database: manual entries and adjustments,
  restock orders, and what a sale does to the stock when it is created, fulfilled, returned or
  cancelled. Each is one transaction; audit records, written beside the transaction, the formatting
  of results and the descriptive columns (reason, supplier, notes, and the expected date of an order, whose
  format alone is checked) are left out. Of a sale only the columns the stock and the payments read are kept:
  its number, customer and totals are left out.
\<close>

section \<open>Entries and adjustments\<close>

record entry_input =
  en_contaId :: string
  en_requestId :: string
  en_productId :: string
  en_variantId :: "string option"
  en_quantity :: jsnum
  en_unitCost :: jsnum

definition registerInventoryEntry :: "stock_db \<Rightarrow> entry_input \<Rightarrow> store_error + stock_db \<times> balance" where
  "registerInventoryEntry db x =
     (if normalizeText (Some (en_requestId x)) = None then Inl REQUEST_ID_OBRIGATORIO
      else if \<not> num_is_integer (en_quantity x) \<or> num_le (en_quantity x) (Fin 0) then Inl QUANTIDADE_INVALIDA
      else if \<not> num_finite (en_unitCost x) \<or> num_less (en_unitCost x) (Fin 0) then Inl CUSTO_INVALIDO
      else and_then (loadInventoryTarget db (en_contaId x) (en_productId x) (en_variantId x)) (\<lambda>(p, v).
        applyInventoryChange db \<lparr>ch_contaId = en_contaId x, ch_productId = p_id p, ch_variantId = map_option v_id v,
          ch_type = MT_ENTRY_IN, ch_onHand = whole (en_quantity x), ch_reserved = 0, ch_incoming = 0,
          ch_unitCost = Some (en_unitCost x), ch_recalculate = True, ch_origin = MANUAL_ENTRY (en_requestId x),
          ch_line = None, ch_action = K_CREATE\<rparr>))"

datatype adjust_mode = ADJUST_SET | ADJUST_DELTA

datatype adjust_reason = REASON_COUNT | REASON_LOSS | REASON_DAMAGE | REASON_CORRECTION

record adjust_input =
  aj_contaId :: string
  aj_requestId :: string
  aj_productId :: string
  aj_variantId :: "string option"
  aj_mode :: adjust_mode
  aj_quantity :: jsnum
  aj_reason :: adjust_reason

definition adjust_type :: "int \<Rightarrow> adjust_reason \<Rightarrow> movement_type" where
  "adjust_type delta reason = (if 0 < delta then MT_ADJUST_IN
     else if reason = REASON_LOSS \<or> reason = REASON_DAMAGE then MT_LOSS_OUT else MT_ADJUST_OUT)"

definition adjust_delta :: "adjust_input \<Rightarrow> balance \<Rightarrow> jsnum" where
  "adjust_delta x current =
     (if aj_mode x = ADJUST_SET then num_sub (aj_quantity x) (num_int (b_onHand current)) else aj_quantity x)"

definition adjust_change :: "adjust_input \<Rightarrow> product_row \<Rightarrow> variant_row option \<Rightarrow> balance \<Rightarrow> stock_change" where
  "adjust_change x p v current = (let delta = whole (adjust_delta x current) in
     \<lparr>ch_contaId = aj_contaId x, ch_productId = p_id p, ch_variantId = map_option v_id v,
      ch_type = adjust_type delta (aj_reason x), ch_onHand = delta, ch_reserved = 0, ch_incoming = 0,
      ch_unitCost = (if 0 < delta then Some (moneyToNumber (b_averageCost current)) else None),
      ch_recalculate = False, ch_origin = MANUAL_ADJUSTMENT (aj_requestId x), ch_line = None,
      ch_action = (if aj_mode x = ADJUST_SET then K_SET else K_DELTA)\<rparr>)"

definition adjustInventory :: "stock_db \<Rightarrow> adjust_input \<Rightarrow> store_error + stock_db \<times> balance" where
  "adjustInventory db x =
     (if normalizeText (Some (aj_requestId x)) = None then Inl REQUEST_ID_OBRIGATORIO
      else if \<not> num_finite (aj_quantity x) then Inl QUANTIDADE_INVALIDA
      else and_then (loadInventoryTarget db (aj_contaId x) (aj_productId x) (aj_variantId x)) (\<lambda>(p, v).
        and_then (getOrCreateInventoryBalance db (aj_contaId x) (p_id p) (map_option v_id v)) (\<lambda>(db1, current).
        if \<not> num_is_integer (adjust_delta x current) then Inl QUANTIDADE_INVALIDA
        else applyInventoryChange db1 (adjust_change x p v current))))"

section \<open>Restock orders\<close>

record order_line =
  ol_productId :: string
  ol_variantId :: "string option"
  ol_quantity :: jsnum
  ol_unitCost :: jsnum

definition update_order :: "nat \<Rightarrow> (restock_order \<Rightarrow> restock_order) \<Rightarrow> stock_db \<Rightarrow> stock_db" where
  "update_order i f db = db\<lparr>db_orders := map (\<lambda>r. if ro_id r = i then f r else r) (db_orders db)\<rparr>"

definition restock_change :: "string \<Rightarrow> nat \<Rightarrow> restock_item \<Rightarrow> int \<Rightarrow> int \<Rightarrow> jsnum \<Rightarrow> bool \<Rightarrow> action_key \<Rightarrow> stock_change" where
  "restock_change conta order r onHand incoming cost recalculate action =
     \<lparr>ch_contaId = conta, ch_productId = ri_productId r, ch_variantId = ri_variantId r, ch_type = MT_RESTOCK_IN,
      ch_onHand = onHand, ch_reserved = 0, ch_incoming = incoming, ch_unitCost = Some cost, ch_recalculate = recalculate,
      ch_origin = RESTOCK_ORDER order, ch_line = Some (ri_id r), ch_action = action\<rparr>"

definition planned_item :: "nat \<Rightarrow> product_row \<Rightarrow> variant_row option \<Rightarrow> int \<Rightarrow> rat \<Rightarrow> restock_item" where
  "planned_item i p v quantity cost = \<lparr>ri_id = i, ri_productId = p_id p, ri_variantId = map_option v_id v,
     ri_expected = quantity, ri_received = 0, ri_unitCost = Some cost\<rparr>"

definition add_item :: "restock_item \<Rightarrow> restock_order \<Rightarrow> restock_order" where
  "add_item r x = x\<lparr>ro_items := ro_items x @ [r]\<rparr>"

text \<open>One line of a new order: its item is created, then the stock on its way is raised.\<close>

definition order_line_step :: "string \<Rightarrow> nat \<Rightarrow> stock_db \<Rightarrow> order_line \<Rightarrow> store_error + stock_db" where
  "order_line_step conta order db l =
     (if \<not> num_is_integer (ol_quantity l) \<or> num_le (ol_quantity l) (Fin 0) then Inl QUANTIDADE_INVALIDA
      else if \<not> num_finite (ol_unitCost l) \<or> num_less (ol_unitCost l) (Fin 0) then Inl CUSTO_INVALIDO
      else and_then (loadInventoryTarget db conta (ol_productId l) (ol_variantId l)) (\<lambda>(p, v).
        and_then (int_column (whole (ol_quantity l))) (\<lambda>quantity.
        and_then (decimal_column 8 4 (ol_unitCost l)) (\<lambda>cost.
          apply_change
            (update_order order (add_item (planned_item (db_next db) p v quantity cost)) (db\<lparr>db_next := Suc (db_next db)\<rparr>))
            (restock_change conta order (planned_item (db_next db) p v quantity cost) 0 quantity (ol_unitCost l) False
              K_PLANNED)))))"

text \<open>\<^verbatim>\<open>createRestockOrder\<close>; the id of the order comes back with the database.\<close>

definition createRestockOrder :: "stock_db \<Rightarrow> string \<Rightarrow> string \<Rightarrow> order_line list \<Rightarrow> store_error + stock_db \<times> nat" where
  "createRestockOrder db conta requestId items =
     (if normalizeText (Some requestId) = None then Inl REQUEST_ID_OBRIGATORIO
      else if items = [] then Inl ITENS_OBRIGATORIOS
      else let order = db_next db;
               db1 = db\<lparr>db_orders := db_orders db @ [\<lparr>ro_id = order, ro_contaId = conta, ro_status = RO_PLANEJADO, ro_items = []\<rparr>],
                 db_next := Suc order\<rparr>
           in and_then (fold_err (order_line_step conta order) db1 items) (\<lambda>db2. Inr (db2, order)))"

definition find_order :: "stock_db \<Rightarrow> string \<Rightarrow> nat \<Rightarrow> restock_order option" where
  "find_order db conta i = find (\<lambda>r. ro_id r = i \<and> ro_contaId r = conta) (db_orders db)"

record receipt =
  rc_itemId :: nat
  rc_quantity :: jsnum
  rc_unitCost :: "jsnum option"

definition receipt_cost :: "restock_item \<Rightarrow> receipt \<Rightarrow> jsnum option" where
  "receipt_cost r x = (case rc_unitCost x of Some c \<Rightarrow> Some c | None \<Rightarrow> map_option moneyToNumber (ri_unitCost r))"

definition receive_item :: "nat \<Rightarrow> int \<Rightarrow> rat \<Rightarrow> restock_item \<Rightarrow> restock_item" where
  "receive_item i quantity cost r = (if ri_id r = i then r\<lparr>ri_received := ri_received r + quantity, ri_unitCost := Some cost\<rparr> else r)"

text \<open>
  One receipt. The item is the one read with the order at the start of the transaction, so a second
  receipt of the same item still sees the old quantity; the increment is made by the database.
\<close>

definition receipt_step :: "string \<Rightarrow> restock_order \<Rightarrow> stock_db \<Rightarrow> receipt \<Rightarrow> store_error + stock_db" where
  "receipt_step conta order db x = (case find (\<lambda>r. ri_id r = rc_itemId x) (ro_items order) of
       None \<Rightarrow> Inl ITEM_REPOSICAO_NAO_ENCONTRADO
     | Some r \<Rightarrow>
         if \<not> num_is_integer (rc_quantity x) \<or> num_le (rc_quantity x) (Fin 0) then Inl QUANTIDADE_INVALIDA
         else let quantity = whole (rc_quantity x) in
           if ri_expected r - ri_received r < quantity then Inl QUANTIDADE_RECEBIDA_INVALIDA
           else (case receipt_cost r x of None \<Rightarrow> Inl CUSTO_INVALIDO
             | Some cost \<Rightarrow> if \<not> num_finite cost \<or> num_less cost (Fin 0) then Inl CUSTO_INVALIDO
                 else and_then (decimal_column 8 4 cost) (\<lambda>stored.
                   apply_change
                     (update_order (ro_id order) (\<lambda>o'. o'\<lparr>ro_items := map (receive_item (ri_id r) quantity stored) (ro_items o')\<rparr>) db)
                     (restock_change conta (ro_id order) r quantity (- quantity) cost True
                       (K_RECEIVE (ri_received r + quantity))))))"

definition computeRestockStatus :: "restock_item list \<Rightarrow> restock_status" where
  "computeRestockStatus items =
     (let expected = sum_list (map ri_expected items); received = sum_list (map ri_received items)
      in if received \<le> 0 then RO_PLANEJADO else if expected \<le> received then RO_RECEBIDO else RO_RECEBIDO_PARCIAL)"

definition receiveRestockOrder :: "stock_db \<Rightarrow> string \<Rightarrow> nat \<Rightarrow> receipt list \<Rightarrow> store_error + stock_db" where
  "receiveRestockOrder db conta i receipts =
     (if receipts = [] then Inl ITENS_OBRIGATORIOS
      else (case find_order db conta i of
          None \<Rightarrow> Inl REPOSICAO_NAO_ENCONTRADA
        | Some order \<Rightarrow> if ro_status order = RO_CANCELADO then Inl REPOSICAO_CANCELADA
            else and_then (fold_err (receipt_step conta order) db receipts) (\<lambda>db1.
              Inr (update_order i (\<lambda>o'. o'\<lparr>ro_status := computeRestockStatus (ro_items o')\<rparr>) db1))))"

definition cancel_item_step :: "string \<Rightarrow> nat \<Rightarrow> stock_db \<Rightarrow> restock_item \<Rightarrow> store_error + stock_db" where
  "cancel_item_step conta order db r = (let pending = ri_expected r - ri_received r in
     if pending \<le> 0 then Inr db
     else apply_change db (restock_change conta order r 0 (- pending)
       (case ri_unitCost r of None \<Rightarrow> Fin 0 | Some c \<Rightarrow> moneyToNumber c) False K_CANCEL))"

definition cancelRestockOrder :: "stock_db \<Rightarrow> string \<Rightarrow> nat \<Rightarrow> store_error + stock_db" where
  "cancelRestockOrder db conta i = (case find_order db conta i of
       None \<Rightarrow> Inl REPOSICAO_NAO_ENCONTRADA
     | Some order \<Rightarrow> if ro_status order = RO_CANCELADO then Inr db
         else and_then (fold_err (cancel_item_step conta i) db (ro_items order)) (\<lambda>db1.
           Inr (update_order i (\<lambda>o'. o'\<lparr>ro_status := RO_CANCELADO\<rparr>) db1)))"

section \<open>Sales\<close>

definition update_sale :: "nat \<Rightarrow> (store_sale \<Rightarrow> store_sale) \<Rightarrow> stock_db \<Rightarrow> stock_db" where
  "update_sale i f db = db\<lparr>db_sales := map (\<lambda>s. if sa_id s = i then f s else s) (db_sales db)\<rparr>"

definition find_sale :: "stock_db \<Rightarrow> string \<Rightarrow> nat \<Rightarrow> store_sale option" where
  "find_sale db conta i = find (\<lambda>s. sa_id s = i \<and> sa_contaId s = conta) (db_sales db)"

definition sale_change :: "string \<Rightarrow> nat \<Rightarrow> sale_item \<Rightarrow> movement_type \<Rightarrow> int \<Rightarrow> int \<Rightarrow> jsnum option \<Rightarrow> bool \<Rightarrow> action_key \<Rightarrow> stock_change" where
  "sale_change conta sale r type onHand reserved cost recalculate action =
     \<lparr>ch_contaId = conta, ch_productId = the (si_productId r), ch_variantId = si_variantId r, ch_type = type,
      ch_onHand = onHand, ch_reserved = reserved, ch_incoming = 0, ch_unitCost = cost, ch_recalculate = recalculate,
      ch_origin = SALE_ORIGIN sale, ch_line = Some (si_id r), ch_action = action\<rparr>"

text \<open>One line of \<^verbatim>\<open>applySaleInventoryOnCreate\<close>, with the cost the sale computed for the line.\<close>

definition sale_line_step :: "string \<Rightarrow> nat \<Rightarrow> inventory_mode \<Rightarrow> stock_db \<Rightarrow> sale_item \<times> jsnum option \<Rightarrow> store_error + stock_db" where
  "sale_line_step conta sale mode db = (\<lambda>(r, unitCostAtSale).
     if \<not> truthy (si_productId r) then Inl PRODUTO_NAO_ENCONTRADO
     else and_then (getOrCreateInventoryBalance db conta (the (si_productId r)) (si_variantId r)) (\<lambda>(db1, b).
       if calculateAvailable b < si_quantity r then Inl ESTOQUE_INSUFICIENTE
       else apply_change db1 (sale_change conta sale r
         (if mode = MODE_RESERVE then MT_RESERVE else MT_SALE_OUT)
         (if mode = MODE_IMMEDIATE then - si_quantity r else 0)
         (if mode = MODE_RESERVE then si_quantity r else 0)
         (if mode = MODE_IMMEDIATE
          then Some (case unitCostAtSale of None \<Rightarrow> moneyToNumber (b_averageCost b) | Some c \<Rightarrow> c) else None)
         False (if mode = MODE_RESERVE then K_RESERVE else K_SALE_OUT))))"

definition applySaleInventoryOnCreate ::
    "stock_db \<Rightarrow> string \<Rightarrow> nat \<Rightarrow> inventory_mode \<Rightarrow> (sale_item \<times> jsnum option) list \<Rightarrow> store_error + stock_db" where
  "applySaleInventoryOnCreate db conta sale mode lines = fold_err (sale_line_step conta sale mode) db lines"

text \<open>What is still out of a sold or reserved line.\<close>

definition outstanding :: "sale_item \<Rightarrow> int" where
  "outstanding r = max (si_quantity r - si_returned r) 0"

definition skipped_line :: "sale_item \<Rightarrow> bool" where
  "skipped_line r \<longleftrightarrow> \<not> truthy (si_productId r) \<or> outstanding r \<le> 0"

definition fulfill_line :: "string \<Rightarrow> nat \<Rightarrow> action_key \<Rightarrow> stock_db \<Rightarrow> sale_item \<Rightarrow> store_error + stock_db" where
  "fulfill_line conta sale action db r = (if skipped_line r then Inr db
     else apply_change db (sale_change conta sale r MT_SALE_OUT (- outstanding r) (- outstanding r)
       (map_option moneyToNumber (si_unitCost r)) False action))"

definition fulfillReservedSale :: "stock_db \<Rightarrow> string \<Rightarrow> nat \<Rightarrow> store_error + stock_db" where
  "fulfillReservedSale db conta i = (case find_sale db conta i of
       None \<Rightarrow> Inl VENDA_NAO_ENCONTRADA
     | Some s \<Rightarrow> if sa_status s = SALE_CANCELADA then Inl VENDA_CANCELADA
         else if sa_mode s \<noteq> MODE_RESERVE then Inl VENDA_SEM_RESERVA
         else if sa_inventoryStatus s \<noteq> INV_RESERVED then Inr db
         else and_then (fold_err (fulfill_line conta i K_FULFILL) db (sa_items s)) (\<lambda>db1.
           Inr (update_sale i (\<lambda>s. s\<lparr>sa_inventoryStatus := INV_FULFILLED\<rparr>) db1)))"

definition restore_line :: "string \<Rightarrow> nat \<Rightarrow> inventory_status \<Rightarrow> stock_db \<Rightarrow> sale_item \<Rightarrow> store_error + stock_db" where
  "restore_line conta sale status db r = (if skipped_line r then Inr db
     else if status = INV_RESERVED
     then apply_change db (sale_change conta sale r MT_RELEASE 0 (- outstanding r) None False K_CANCEL)
     else apply_change db (sale_change conta sale r MT_RETURN_IN (outstanding r) 0
       (map_option moneyToNumber (si_unitCost r)) (si_unitCost r \<noteq> None) K_CANCEL))"

definition restoreInventoryForCanceledSale ::
    "stock_db \<Rightarrow> string \<Rightarrow> nat \<Rightarrow> inventory_status \<Rightarrow> sale_item list \<Rightarrow> store_error + stock_db" where
  "restoreInventoryForCanceledSale db conta sale status items = fold_err (restore_line conta sale status) db items"

definition cancelSaleInventory :: "stock_db \<Rightarrow> string \<Rightarrow> nat \<Rightarrow> store_error + stock_db" where
  "cancelSaleInventory db conta i = (case find_sale db conta i of
       None \<Rightarrow> Inl VENDA_NAO_ENCONTRADA
     | Some s \<Rightarrow> if sa_inventoryStatus s = INV_CANCELED then Inr db
         else and_then (restoreInventoryForCanceledSale db conta i (sa_inventoryStatus s) (sa_items s)) (\<lambda>db1.
           Inr (update_sale i (\<lambda>s. s\<lparr>sa_inventoryStatus := INV_CANCELED\<rparr>) db1)))"

text \<open>
  The end of \<^verbatim>\<open>cancelStoreSale\<close> (\<^verbatim>\<open>store-sales.ts\<close>), once the charges allow it: the stock is given
  back, then the sale is marked cancelled.
\<close>

definition cancel_sale_records :: "stock_db \<Rightarrow> string \<Rightarrow> nat \<Rightarrow> store_error + stock_db" where
  "cancel_sale_records db conta i = and_then (cancelSaleInventory db conta i) (\<lambda>db1.
     Inr (update_sale i (\<lambda>s. s\<lparr>sa_status := SALE_CANCELADA\<rparr>) db1))"

section \<open>Payments\<close>

text \<open>The charges of an instalment plan in the order of due date and creation.\<close>

definition plan_charges :: "stock_db \<Rightarrow> string \<Rightarrow> string \<Rightarrow> charge_row list" where
  "plan_charges db conta plan = sort_key cg_dueDate (sort_key cg_createdAt
     (filter (\<lambda>c. cg_contaId c = conta \<and> cg_planId c = Some plan) (db_charges db)))"

definition first_plan_charge :: "stock_db \<Rightarrow> string \<Rightarrow> string \<Rightarrow> string option" where
  "first_plan_charge db conta plan = (case plan_charges db conta plan of [] \<Rightarrow> None | c # _ \<Rightarrow> Some (cg_id c))"

text \<open>A charge belongs to one sale at most, so linking a second one breaks the unique key.\<close>

definition link_plan_sales :: "stock_db \<Rightarrow> string \<Rightarrow> string \<Rightarrow> string \<Rightarrow> store_error + stock_db" where
  "link_plan_sales db conta plan charge =
     (let linked = (\<lambda>s. sa_contaId s = conta \<and> sa_planId s = Some plan \<and> sa_chargeId s = None);
          sales = map (\<lambda>s. if linked s then s\<lparr>sa_chargeId := Some charge\<rparr> else s) (db_sales db)
      in if list_ex linked (db_sales db) \<and> 1 < length (filter (\<lambda>s. sa_chargeId s = Some charge) sales)
         then Inl DATABASE_UNIQUE else Inr (db\<lparr>db_sales := sales\<rparr>))"

definition linkSaleToFirstInstallmentCharge :: "stock_db \<Rightarrow> string \<Rightarrow> string \<Rightarrow> store_error + stock_db \<times> string option" where
  "linkSaleToFirstInstallmentCharge db conta plan = (case first_plan_charge db conta plan of
     None \<Rightarrow> Inr (db, None) | Some c \<Rightarrow> and_then (link_plan_sales db conta plan c) (\<lambda>db1. Inr (db1, Some c)))"

text \<open>
  The end of \<^verbatim>\<open>ensureChargeForSale\<close>: the sale is linked to the charge created for it, or to the plan
  and the first of its charges.
\<close>

definition attach_charge :: "stock_db \<Rightarrow> nat \<Rightarrow> string option \<Rightarrow> string option \<Rightarrow> store_error + stock_db" where
  "attach_charge db i charge plan =
     (if charge \<noteq> None \<and> list_ex (\<lambda>s. sa_id s \<noteq> i \<and> sa_chargeId s = charge) (db_sales db) then Inl DATABASE_UNIQUE
      else Inr (update_sale i (\<lambda>s. s\<lparr>sa_chargeId := charge, sa_planId := (if plan = None then sa_planId s else plan)\<rparr>) db))"

definition link_created_charge :: "stock_db \<Rightarrow> string \<Rightarrow> nat \<Rightarrow> bool \<Rightarrow> string \<Rightarrow> store_error + stock_db" where
  "link_created_charge db conta i installment created = (if \<not> installment then attach_charge db i (Some created) None
     else (case sort_key cg_dueDate (filter (\<lambda>c. cg_contaId c = conta \<and> cg_planId c = Some created) (db_charges db)) of
         [] \<Rightarrow> attach_charge db i None (Some created)
       | c # _ \<Rightarrow> attach_charge db i (Some (cg_id c)) (Some created)))"

definition sale_of_charge :: "stock_db \<Rightarrow> string \<Rightarrow> string \<Rightarrow> store_sale option" where
  "sale_of_charge db conta charge = find (\<lambda>s. sa_chargeId s = Some charge \<and> sa_contaId s = conta) (db_sales db)"

text \<open>
  \<^verbatim>\<open>fulfillReservedSaleOnPayment\<close> reads the sale before its transaction, so it is two steps: what it
  reads (linking the sale of a plan to its first charge), and the transaction on what was read.
\<close>

definition read_paid_sale :: "stock_db \<Rightarrow> string \<Rightarrow> string \<Rightarrow> store_error + stock_db \<times> store_sale option" where
  "read_paid_sale db conta charge = (case sale_of_charge db conta charge of
       Some s \<Rightarrow> Inr (db, Some s)
     | None \<Rightarrow> (case find (\<lambda>c. cg_id c = charge \<and> cg_contaId c = conta) (db_charges db) of
           None \<Rightarrow> Inr (db, None)
         | Some c \<Rightarrow> (case cg_planId c of None \<Rightarrow> Inr (db, None)
             | Some plan \<Rightarrow> if plan = [] \<or> first_plan_charge db conta plan \<noteq> Some charge then Inr (db, None)
                 else and_then (link_plan_sales db conta plan charge) (\<lambda>db1. Inr (db1, sale_of_charge db1 conta charge)))))"

definition awaits_payment :: "store_sale \<Rightarrow> bool" where
  "awaits_payment s \<longleftrightarrow> sa_mode s = MODE_RESERVE \<and> sa_inventoryStatus s = INV_RESERVED"

definition commit_paid_sale :: "stock_db \<Rightarrow> string \<Rightarrow> store_sale \<Rightarrow> store_error + stock_db" where
  "commit_paid_sale db conta s =
     and_then (fold_err (fulfill_line conta (sa_id s) K_FULFILL_ON_PAYMENT) db (sa_items s)) (\<lambda>db1.
       Inr (update_sale (sa_id s) (\<lambda>s. s\<lparr>sa_inventoryStatus := INV_FULFILLED, sa_status := SALE_CONCLUIDA\<rparr>) db1))"

text \<open>The link of a plan's sale is made outside the transaction and stays when the transaction fails.\<close>

definition fulfillReservedSaleOnPayment :: "stock_db \<Rightarrow> string \<Rightarrow> string \<Rightarrow> stock_db \<times> (store_error + bool)" where
  "fulfillReservedSaleOnPayment db conta charge = (case read_paid_sale db conta charge of
       Inl e \<Rightarrow> (db, Inl e)
     | Inr (db1, None) \<Rightarrow> (db1, Inr False)
     | Inr (db1, Some s) \<Rightarrow> if \<not> awaits_payment s then (db1, Inr False)
         else (case commit_paid_sale db1 conta s of Inl e \<Rightarrow> (db1, Inl e) | Inr db2 \<Rightarrow> (db2, Inr True)))"

definition is_paid_charge :: "charge_row \<Rightarrow> bool" where
  "is_paid_charge c \<longleftrightarrow> cg_status c = CS_PAID"

definition sale_charge :: "stock_db \<Rightarrow> store_sale \<Rightarrow> charge_row option" where
  "sale_charge db s = (case sa_chargeId s of None \<Rightarrow> None | Some i \<Rightarrow> find (\<lambda>c. cg_id c = i) (db_charges db))"

definition sale_plan_charges :: "stock_db \<Rightarrow> store_sale \<Rightarrow> charge_row list" where
  "sale_plan_charges db s = (case sa_planId s of None \<Rightarrow> [] | Some plan \<Rightarrow> plan_charges db (sa_contaId s) plan)"

text \<open>The sales that are paid while their stock is still reserved, and the charge that pays each.\<close>

definition paid_reserved_sales :: "stock_db \<Rightarrow> string \<Rightarrow> store_sale list" where
  "paid_reserved_sales db conta = filter (\<lambda>s. sa_contaId s = conta \<and> awaits_payment s \<and> sa_status s \<noteq> SALE_CANCELADA \<and>
     ((case sale_charge db s of None \<Rightarrow> False | Some c \<Rightarrow> is_paid_charge c) \<or> list_ex is_paid_charge (sale_plan_charges db s)))
     (db_sales db)"

definition paying_charge :: "stock_db \<Rightarrow> store_sale \<Rightarrow> string option" where
  "paying_charge db s = (case sale_charge db s of
       Some c \<Rightarrow> if is_paid_charge c then Some (cg_id c)
         else (case filter is_paid_charge (sale_plan_charges db s) of d # _ \<Rightarrow> Some (cg_id d) | [] \<Rightarrow> sa_chargeId s)
     | None \<Rightarrow> (case filter is_paid_charge (sale_plan_charges db s) of d # _ \<Rightarrow> Some (cg_id d) | [] \<Rightarrow> sa_chargeId s))"

record reconcile_result =
  rr_checked :: nat
  rr_fulfilled :: nat
  rr_errors :: "(nat \<times> store_error) list"

definition reconcile_step :: "string \<Rightarrow> stock_db \<times> reconcile_result \<Rightarrow> nat \<times> string option \<Rightarrow> stock_db \<times> reconcile_result" where
  "reconcile_step conta = (\<lambda>(db, r) (sale, charge). if \<not> truthy charge then (db, r)
     else (case fulfillReservedSaleOnPayment db conta (the charge) of
         (db', Inl e) \<Rightarrow> (db', r\<lparr>rr_errors := rr_errors r @ [(sale, e)]\<rparr>)
       | (db', Inr True) \<Rightarrow> (db', r\<lparr>rr_fulfilled := Suc (rr_fulfilled r)\<rparr>)
       | (db', Inr False) \<Rightarrow> (db', r)))"

text \<open>\<^verbatim>\<open>reconcilePaidReservedStoreSales\<close>: the sales and their charges are read once, before the loop.\<close>

definition reconcilePaidReservedStoreSales :: "stock_db \<Rightarrow> string \<Rightarrow> bool \<Rightarrow> stock_db \<times> reconcile_result" where
  "reconcilePaidReservedStoreSales db conta dryRun =
     (let sales = paid_reserved_sales db conta;
          start = \<lparr>rr_checked = length sales, rr_fulfilled = 0, rr_errors = []\<rparr>
      in if dryRun then (db, start)
         else foldl (reconcile_step conta) (db, start) (map (\<lambda>s. (sa_id s, paying_charge db s)) sales))"

section \<open>The creation of a sale\<close>

record prepared_line =
  pl_productId :: string
  pl_variantId :: "string option"
  pl_quantity :: int
  pl_subtotal :: jsnum
  pl_unitCost :: jsnum
  pl_discountShare :: jsnum
  pl_net :: jsnum

text \<open>The items of a sale are created before the stock is touched.\<close>

definition create_sale_item :: "nat \<Rightarrow> prepared_line \<Rightarrow> store_error + sale_item" where
  "create_sale_item i l =
     and_then (int_column (pl_quantity l)) (\<lambda>quantity.
     and_then (decimal_column 10 2 (pl_subtotal l)) (\<lambda>subtotal.
     and_then (decimal_column 8 4 (pl_unitCost l)) (\<lambda>cost.
     and_then (decimal_column 10 2 (pl_discountShare l)) (\<lambda>share.
     and_then (decimal_column 10 2 (pl_net l)) (\<lambda>net.
       Inr \<lparr>si_id = i, si_productId = Some (pl_productId l), si_variantId = pl_variantId l, si_quantity = quantity,
            si_returned = 0, si_unitCost = Some cost, si_subtotal = subtotal, si_netSubtotal = Some net,
            si_discountShare = Some share\<rparr>)))))"

primrec create_sale_items :: "nat \<Rightarrow> prepared_line list \<Rightarrow> store_error + sale_item list" where
  "create_sale_items i [] = Inr []"
| "create_sale_items i (l # ls) =
     and_then (create_sale_item i l) (\<lambda>r. and_then (create_sale_items (Suc i) ls) (\<lambda>rs. Inr (r # rs)))"

text \<open>The transaction of \<^verbatim>\<open>createLocalSaleRecord\<close>: the sale of a request already seen is returned as it is.\<close>

definition create_sale ::
    "stock_db \<Rightarrow> string \<Rightarrow> string \<Rightarrow> finalization \<Rightarrow> inventory_mode \<Rightarrow> prepared_line list \<Rightarrow> store_error + stock_db \<times> nat" where
  "create_sale db conta uiRequestId final mode lines =
     (case find (\<lambda>s. sa_contaId s = conta \<and> sa_uiRequestId s = uiRequestId) (db_sales db) of
        Some s \<Rightarrow> Inr (db, sa_id s)
      | None \<Rightarrow> let sale = db_next db in
          and_then (create_sale_items (Suc sale) lines) (\<lambda>items.
          and_then (applySaleInventoryOnCreate
              (db\<lparr>db_sales := db_sales db @ [\<lparr>sa_id = sale, sa_contaId = conta, sa_uiRequestId = uiRequestId,
                   sa_status = (if final = FIN_RECEBIMENTO_PRESENCIAL then SALE_CONCLUIDA else SALE_PENDENTE),
                   sa_finalization = final, sa_mode = mode,
                   sa_inventoryStatus = (if mode = MODE_RESERVE then INV_RESERVED else INV_FULFILLED),
                   sa_chargeId = None, sa_planId = None, sa_items = items\<rparr>],
                 db_next := Suc sale + length lines\<rparr>)
              conta sale mode (zip items (map (\<lambda>l. Some (pl_unitCost l)) lines))) (\<lambda>db1.
            Inr (db1, sale))))"

end
