(* ===== verification/StoreReturns.thy ===== *)
theory StoreReturns
  imports StoreOperations
begin

text \<open>
  Returns of sold goods: \<^verbatim>\<open>registerSaleReturn\<close> of \<^verbatim>\<open>store-inventory.ts\<close>, with the refund of each line
  computed from what was already returned, the limits of refunding boletos, and the replay of a request
  under its key and fingerprint.
\<close>

record return_line =
  rl_saleItemId :: nat
  rl_quantity :: jsnum

record return_result =
  rs_status :: inventory_status
  rs_returnId :: nat
  rs_refundAmount :: jsnum

text \<open>The net amount of a line and the part of it that a number of returned units stands for.\<close>

definition line_net :: "sale_item \<Rightarrow> jsnum" where
  "line_net r = (case si_netSubtotal r of Some n \<Rightarrow> moneyToNumber n
     | None \<Rightarrow> num_max (num_sub (moneyToNumber (si_subtotal r))
         (case si_discountShare r of None \<Rightarrow> Fin 0 | Some d \<Rightarrow> moneyToNumber d)) (Fin 0))"

definition returned_net :: "sale_item \<Rightarrow> int \<Rightarrow> jsnum" where
  "returned_net r units = round_money (num_div (num_mul (line_net r) (num_int units)) (num_int (si_quantity r)))"

definition line_refund :: "sale_item \<Rightarrow> int \<Rightarrow> jsnum" where
  "line_refund r quantity =
     num_max (num_sub (returned_net r (si_returned r + quantity)) (returned_net r (si_returned r))) (Fin 0)"

definition find_item :: "store_sale \<Rightarrow> nat \<Rightarrow> sale_item option" where
  "find_item s i = find (\<lambda>r. si_id r = i) (sa_items s)"

definition check_return_line :: "store_sale \<Rightarrow> return_line \<Rightarrow> store_error + sale_item \<times> int" where
  "check_return_line s l = (case find_item s (rl_saleItemId l) of
       None \<Rightarrow> Inl ITEM_VENDA_NAO_ENCONTRADO
     | Some r \<Rightarrow> if \<not> truthy (si_productId r) then Inl ITEM_VENDA_NAO_ENCONTRADO
         else if \<not> num_is_integer (rl_quantity l) \<or> num_le (rl_quantity l) (Fin 0) then Inl QUANTIDADE_INVALIDA
         else if si_quantity r - si_returned r < whole (rl_quantity l) then Inl QUANTIDADE_DEVOLUCAO_INVALIDA
         else Inr (r, whole (rl_quantity l)))"

definition refund_step :: "store_sale \<Rightarrow> (nat \<times> int \<times> jsnum) list \<times> jsnum \<Rightarrow> return_line
    \<Rightarrow> store_error + (nat \<times> int \<times> jsnum) list \<times> jsnum" where
  "refund_step s acc l = and_then (check_return_line s l) (\<lambda>(r, quantity).
     let refund = line_refund r quantity
     in Inr (fst acc @ [(si_id r, quantity, refund)], num_add (snd acc) refund))"

text \<open>The refund of paid boletos is whole or none: the requested total must be reachable.\<close>

definition is_boleto :: "charge_row \<Rightarrow> bool" where
  "is_boleto c \<longleftrightarrow> map_option js_upper (cg_billingType c) = Some ''BOLETO''"

definition related_charges :: "stock_db \<Rightarrow> store_sale \<Rightarrow> charge_row list" where
  "related_charges db s = (case sale_charge db s of None \<Rightarrow> [] | Some c \<Rightarrow> [c]) @ sale_plan_charges db s"

definition charge_amount :: "charge_row \<Rightarrow> jsnum" where
  "charge_amount c = (case cg_value c of None \<Rightarrow> Fin 0 | Some v \<Rightarrow> moneyToNumber v)"

definition refund_cents :: "jsnum \<Rightarrow> jsnum" where
  "refund_cents v = num_round (num_mul v (Fin 100))"

definition reachable_sums :: "jsnum list \<Rightarrow> jsnum set" where
  "reachable_sums amounts = foldl (\<lambda>acc a. acc \<union> (\<lambda>x. num_add x (refund_cents a)) ` acc) {Fin 0} amounts"

definition boleto_refund_supported :: "charge_row list \<Rightarrow> jsnum \<Rightarrow> bool" where
  "boleto_refund_supported charges refundAmount =
     (let paid = filter is_paid_charge charges; boletos = filter is_boleto paid;
          capacity = foldl (\<lambda>s c. num_add s (charge_amount c)) (Fin 0) (filter (\<lambda>c. \<not> is_boleto c) paid);
          target = refund_cents refundAmount
      in boletos = [] \<or> (\<exists>x \<in> reachable_sums (map charge_amount boletos).
           num_le x target \<and> num_le (num_sub target x) (refund_cents capacity)))"

definition return_item :: "nat \<Rightarrow> int \<Rightarrow> int \<Rightarrow> sale_item \<Rightarrow> bool" where
  "return_item i returned quantity r \<longleftrightarrow> si_id r = i \<and> si_returned r = returned \<and> returned + quantity \<le> si_quantity r"

text \<open>One returned line: the counter of the item moves only while it is still the one read.\<close>

definition return_line_step :: "string \<Rightarrow> store_sale \<Rightarrow> stock_db \<Rightarrow> return_line \<Rightarrow> store_error + stock_db" where
  "return_line_step conta s db l = and_then (check_return_line s l) (\<lambda>(r, quantity).
     let matches = return_item (si_id r) (si_returned r) quantity;
         rows = concat (map sa_items (filter (\<lambda>t. sa_id t = sa_id s) (db_sales db)))
     in if length (filter matches rows) \<noteq> 1 then Inl DEVOLUCAO_CONCORRENTE
        else apply_change
          (update_sale (sa_id s) (\<lambda>t. t\<lparr>sa_items := map (\<lambda>i. if matches i then i\<lparr>si_returned := si_returned i + quantity\<rparr> else i) (sa_items t)\<rparr>) db)
          (sale_change conta (sa_id s) r MT_RETURN_IN quantity 0 (map_option moneyToNumber (si_unitCost r))
            (si_unitCost r \<noteq> None) (K_RETURN (si_returned r + quantity))))"

definition returned_status :: "sale_item list \<Rightarrow> inventory_status" where
  "returned_status items = (if list_all (\<lambda>r. si_quantity r \<le> si_returned r) items then INV_RETURNED_TOTAL
     else if list_ex (\<lambda>r. 0 < si_returned r) items then INV_RETURNED_PARTIAL else INV_FULFILLED)"

definition find_return :: "stock_db \<Rightarrow> string \<Rightarrow> string \<Rightarrow> sale_return option" where
  "find_return db conta requestId = find (\<lambda>t. rt_contaId t = conta \<and> rt_requestId t = requestId) (db_returns db)"

text \<open>A request seen before is answered from its record, unless it is another request under the same key.\<close>

definition replay_return :: "stock_db \<Rightarrow> string \<Rightarrow> nat \<Rightarrow> string \<Rightarrow> sale_return \<Rightarrow> store_error + return_result" where
  "replay_return db conta sale fingerprint t =
     (if rt_saleId t \<noteq> sale \<or> rt_fingerprint t \<noteq> fingerprint then Inl DEVOLUCAO_IDEMPOTENCY_CONFLICT
      else (case find_sale db conta sale of None \<Rightarrow> Inl VENDA_NAO_ENCONTRADA
        | Some s \<Rightarrow> Inr \<lparr>rs_status = sa_inventoryStatus s, rs_returnId = rt_id t,
            rs_refundAmount = moneyToNumber (rt_refundAmount t)\<rparr>))"

primrec return_columns :: "(nat \<times> int \<times> jsnum) list \<Rightarrow> store_error + (nat \<times> int \<times> rat) list" where
  "return_columns [] = Inr []"
| "return_columns (x # xs) = and_then (decimal_column 10 2 (snd (snd x))) (\<lambda>v.
     and_then (return_columns xs) (\<lambda>ys. Inr ((fst x, fst (snd x), v) # ys)))"

definition return_record ::
    "nat \<Rightarrow> string \<Rightarrow> store_sale \<Rightarrow> string \<Rightarrow> string \<Rightarrow> rat \<Rightarrow> (nat \<times> int \<times> rat) list \<Rightarrow> sale_return" where
  "return_record i conta s requestId fingerprint amount stored =
     \<lparr>rt_id = i, rt_contaId = conta, rt_saleId = sa_id s, rt_requestId = requestId, rt_fingerprint = fingerprint,
      rt_refundStatus = (if sa_finalization s = FIN_RECEBIMENTO_PRESENCIAL then MANUAL_REFUND_REQUIRED else REFUND_NOT_REQUESTED),
      rt_refundAmount = amount, rt_items = stored\<rparr>"

text \<open>A return of two lines for one item breaks the unique key of the lines of a return.\<close>

definition return_transaction ::
    "stock_db \<Rightarrow> string \<Rightarrow> nat \<Rightarrow> string \<Rightarrow> string \<Rightarrow> return_line list \<Rightarrow> store_error + stock_db \<times> return_result" where
  "return_transaction db conta sale requestId fingerprint items = (case find_return db conta requestId of
       Some t \<Rightarrow> and_then (replay_return db conta sale fingerprint t) (\<lambda>r. Inr (db, r))
     | None \<Rightarrow> (case find_sale db conta sale of
           None \<Rightarrow> Inl VENDA_NAO_ENCONTRADA
         | Some s \<Rightarrow> if sa_status s = SALE_CANCELADA then Inl VENDA_CANCELADA
             else if sa_inventoryStatus s = INV_RESERVED \<or> sa_inventoryStatus s = INV_CANCELED then Inl VENDA_SEM_SAIDA_FISICA
             else and_then (fold_err (refund_step s) ([], Fin 0) items) (\<lambda>(lines, refundAmount).
               if \<not> boleto_refund_supported (related_charges db s) refundAmount then Inl BOLETO_PARTIAL_REFUND_NOT_SUPPORTED
               else and_then (decimal_column 10 2 refundAmount) (\<lambda>amount. and_then (return_columns lines) (\<lambda>stored.
                 if \<not> distinct (map fst stored) then Inl DATABASE_UNIQUE
                 else and_then (fold_err (return_line_step conta s)
                     (db\<lparr>db_returns := db_returns db @ [return_record (db_next db) conta s requestId fingerprint amount stored],
                        db_next := Suc (db_next db)\<rparr>) items) (\<lambda>db1.
                   let status = (case find_sale db1 conta sale of None \<Rightarrow> INV_FULFILLED | Some s' \<Rightarrow> returned_status (sa_items s'))
                   in Inr (update_sale sale (\<lambda>t. t\<lparr>sa_inventoryStatus := status\<rparr>) db1,
                        \<lparr>rs_status = status, rs_returnId = db_next db, rs_refundAmount = refundAmount\<rparr>)))))))"

text \<open>When the transaction loses a race for the request key, the winner's record answers.\<close>

definition registerSaleReturn ::
    "stock_db \<Rightarrow> string \<Rightarrow> nat \<Rightarrow> string \<Rightarrow> string \<Rightarrow> return_line list \<Rightarrow> store_error + stock_db \<times> return_result" where
  "registerSaleReturn db conta sale requestId fingerprint items =
     (if items = [] then Inl ITENS_OBRIGATORIOS
      else (case return_transaction db conta sale requestId fingerprint items of
          Inr r \<Rightarrow> Inr r
        | Inl e \<Rightarrow> if e \<noteq> DATABASE_UNIQUE then Inl e
            else (case find_return db conta requestId of None \<Rightarrow> Inl e
              | Some t \<Rightarrow> and_then (replay_return db conta sale fingerprint t) (\<lambda>r. Inr (db, r)))))"

end
