(* ===== verification/StoreLedger.thy ===== *)
theory StoreLedger
  imports StoreReturns
begin

text \<open>
  What a change of stock does to the database: the balances stay well formed, exactly one of them moves,
  and the trail of movements of every item replays to its balance, for any sequence of changes.
\<close>

section \<open>Well-formed stock\<close>

definition balance_id :: "balance \<Rightarrow> string \<times> item_key" where
  "balance_id b = (b_contaId b, b_key b)"

definition balance_ok :: "balance \<Rightarrow> bool" where
  "balance_ok b \<longleftrightarrow> b_key b = buildInventoryItemKey (b_productId b) (b_variantId b) \<and>
     0 \<le> b_onHand b \<and> 0 \<le> b_reserved b \<and> 0 \<le> b_incoming b"

definition stock_wf :: "stock_db \<Rightarrow> bool" where
  "stock_wf db \<longleftrightarrow> distinct (map balance_id (db_balances db)) \<and> (\<forall>b \<in> set (db_balances db). balance_ok b) \<and>
     (\<forall>p \<in> set (db_products db). 0 \<le> p_stock p) \<and> (\<forall>v \<in> set (db_variants db). 0 \<le> v_stock v)"

text \<open>The counters of an item: on hand, reserved, on the way.\<close>

type_synonym counters = "int \<times> int \<times> int"

definition counters_of :: "balance \<Rightarrow> counters" where
  "counters_of b = (b_onHand b, b_reserved b, b_incoming b)"

definition item_counters :: "stock_db \<Rightarrow> string \<Rightarrow> item_key \<Rightarrow> counters option" where
  "item_counters db conta k = map_option counters_of (find_balance db conta k)"

lemma find_balanceD:
  "find_balance db conta k = Some b \<Longrightarrow> b \<in> set (db_balances db) \<and> b_contaId b = conta \<and> b_key b = k"
  unfolding find_balance_def by (auto dest: find_SomeD)

lemma find_None_eq: "find P xs = None \<longleftrightarrow> (\<forall>x \<in> set xs. \<not> P x)"
  by (auto simp: find_None_iff)

lemma find_append: "find P (xs @ ys) = (case find P xs of Some x \<Rightarrow> Some x | None \<Rightarrow> find P ys)"
  by (induction xs) auto

lemma find_distinct:
  "distinct (map f xs) \<Longrightarrow> x \<in> set xs \<Longrightarrow> (\<And>y. P y \<longleftrightarrow> f y = f x) \<Longrightarrow> find P xs = Some x"
  by (induction xs) (auto simp: rev_image_eqI)

lemma find_map_keeps:
  "(\<And>x. P (f x) \<longleftrightarrow> P x) \<Longrightarrow> find P (map f xs) = map_option f (find P xs)"
  by (induction xs) auto

lemma filter_single:
  "distinct (map f xs) \<Longrightarrow> x \<in> set xs \<Longrightarrow> (\<And>y. y \<in> set xs \<Longrightarrow> P y \<longleftrightarrow> f y = f x) \<Longrightarrow> filter P xs = [x]"
proof (induction xs)
  case (Cons y ys)
  show ?case
  proof (cases "f y = f x")
    case True
    then have "y = x" using Cons.prems by (auto simp: rev_image_eqI)
    moreover have "filter P ys = []"
      using Cons.prems True by (auto simp: filter_empty_conv rev_image_eqI)
    ultimately show ?thesis using Cons.prems(3) by simp
  next
    case False
    then show ?thesis using Cons by auto
  qed
qed simp

lemma sum_list_nonneg_int: "(\<And>x. x \<in> set xs \<Longrightarrow> 0 \<le> (f x :: int)) \<Longrightarrow> 0 \<le> sum_list (map f xs)"
  by (induction xs) (auto intro: add_nonneg_nonneg)

section \<open>The parts of a change\<close>

lemma whole_pos:
  assumes "num_is_integer v" "\<not> num_le v (Fin 0)"
  shows "0 < whole v"
proof (cases v)
  case (Fin x)
  then have "0 < (of_int \<lfloor>x\<rfloor> :: rat)" using assms by (auto simp: num_le_def)
  then show ?thesis using Fin by (simp only: of_int_0_less_iff whole.simps)
qed (use assms in auto)

lemma int_column_Inr: "int_column n = Inr m \<Longrightarrow> m = n"
  by (auto simp: int_column_def split: if_splits)

lemma update_product_Inr:
  "update_product i stock db = Inr db' \<Longrightarrow>
   db' = db\<lparr>db_products := map (\<lambda>p. if p_id p = i then p\<lparr>p_stock := stock\<rparr> else p) (db_products db)\<rparr>"
  unfolding update_product_def by (auto simp: and_then_Inr_iff split: if_splits dest!: int_column_Inr)

lemma update_variant_Inr:
  "update_variant i stock db = Inr db' \<Longrightarrow>
   db' = db\<lparr>db_variants := map (\<lambda>v. if v_id v = i then v\<lparr>v_stock := stock\<rparr> else v) (db_variants db)\<rparr>"
  unfolding update_variant_def by (auto simp: and_then_Inr_iff split: if_splits dest!: int_column_Inr)

text \<open>Only the mirrors of the catalogue differ, and stay non-negative.\<close>

definition mirrors_of :: "stock_db \<Rightarrow> stock_db \<Rightarrow> bool" where
  "mirrors_of db db' \<longleftrightarrow> (\<exists>ps vs. db' = db\<lparr>db_products := ps, db_variants := vs\<rparr> \<and>
     ((\<forall>p \<in> set (db_products db). 0 \<le> p_stock p) \<longrightarrow> (\<forall>p \<in> set ps. 0 \<le> p_stock p)) \<and>
     ((\<forall>v \<in> set (db_variants db). 0 \<le> v_stock v) \<longrightarrow> (\<forall>v \<in> set vs. 0 \<le> v_stock v)))"

lemma mirrors_ofI:
  "db' = db\<lparr>db_products := ps, db_variants := vs\<rparr> \<Longrightarrow>
   (\<forall>p \<in> set (db_products db). 0 \<le> p_stock p \<Longrightarrow> \<forall>p \<in> set ps. 0 \<le> p_stock p) \<Longrightarrow>
   (\<forall>v \<in> set (db_variants db). 0 \<le> v_stock v \<Longrightarrow> \<forall>v \<in> set vs. 0 \<le> v_stock v) \<Longrightarrow> mirrors_of db db'"
  unfolding mirrors_of_def by blast

lemma mirrors_of_refl: "mirrors_of db db"
  by (rule mirrors_ofI [where ps = "db_products db" and vs = "db_variants db"]) simp_all

lemma update_product_mirrors:
  assumes "update_product i stock db = Inr db'" "0 \<le> stock"
  shows "mirrors_of db db'"
proof (rule mirrors_ofI)
  show "db' = db\<lparr>db_products := map (\<lambda>p. if p_id p = i then p\<lparr>p_stock := stock\<rparr> else p) (db_products db),
      db_variants := db_variants db\<rparr>"
    using update_product_Inr [OF assms(1)] by simp
qed (use assms(2) in auto)

lemma update_variant_mirrors:
  assumes "update_variant i stock db = Inr db'" "0 \<le> stock"
  shows "mirrors_of db db'"
proof (rule mirrors_ofI)
  show "db' = db\<lparr>db_products := db_products db,
      db_variants := map (\<lambda>v. if v_id v = i then v\<lparr>v_stock := stock\<rparr> else v) (db_variants db)\<rparr>"
    using update_variant_Inr [OF assms(1)] by simp
qed (use assms(2) in auto)

lemma mirrors_of_trans: "mirrors_of db db1 \<Longrightarrow> mirrors_of db1 db2 \<Longrightarrow> mirrors_of db db2"
  unfolding mirrors_of_def by fastforce

lemma sync_mirrors:
  assumes "syncLegacyStockMirror db product variant onHand = Inr db'" "0 \<le> onHand"
    and "\<forall>b \<in> set (db_balances db). 0 \<le> b_onHand b"
  shows "mirrors_of db db'"
proof (cases "truthy variant")
  case True
  then obtain db1 where db1: "update_variant (the variant) onHand db = Inr db1"
    and db2: "update_product product
      (sum_list (map b_onHand (filter (\<lambda>b. b_productId b = product \<and> b_variantId b \<noteq> None) (db_balances db1)))) db1 = Inr db'"
    using assms(1) unfolding syncLegacyStockMirror_def by (auto simp: and_then_Inr_iff)
  have "db_balances db1 = db_balances db" using update_variant_Inr [OF db1] by simp
  then have "0 \<le> sum_list (map b_onHand (filter (\<lambda>b. b_productId b = product \<and> b_variantId b \<noteq> None) (db_balances db1)))"
    using assms(3) by (intro sum_list_nonneg_int) simp
  then show ?thesis
    using update_variant_mirrors [OF db1 assms(2)] update_product_mirrors [OF db2] mirrors_of_trans by blast
next
  case False
  then show ?thesis
    using assms(1,2) unfolding syncLegacyStockMirror_def by (auto intro: update_product_mirrors)
qed

lemma loadInventoryTarget_Inr:
  assumes "loadInventoryTarget db conta product variant = Inr (p, v)"
  shows "p \<in> set (db_products db) \<and> p_id p = product \<and>
    buildInventoryItemKey product (map_option v_id v) = buildInventoryItemKey product variant \<and>
    (case v of None \<Rightarrow> \<not> truthy variant | Some w \<Rightarrow> truthy variant \<and> w \<in> set (db_variants db) \<and> v_id w = the variant)"
proof (cases variant)
  case None
  then show ?thesis using assms unfolding loadInventoryTarget_def find_product_def
    by (auto simp: buildInventoryItemKey_def split: option.splits if_splits dest!: find_SomeD)
next
  case (Some i)
  show ?thesis
  proof (cases "i = []")
    case True
    then show ?thesis using assms Some unfolding loadInventoryTarget_def find_product_def
      by (auto simp: buildInventoryItemKey_def split: option.splits if_splits dest!: find_SomeD)
  next
    case False
    then obtain w where "find_variant db product i = Some w" "v = Some w"
      using assms Some unfolding loadInventoryTarget_def by (auto split: option.splits if_splits)
    then show ?thesis using assms Some False unfolding loadInventoryTarget_def find_product_def find_variant_def
      by (auto simp: buildInventoryItemKey_def split: option.splits if_splits dest!: find_SomeD)
  qed
qed

text \<open>The documents - orders, sales, charges, returns - are not touched by a change of stock.\<close>

definition same_documents :: "stock_db \<Rightarrow> stock_db \<Rightarrow> bool" where
  "same_documents db db' \<longleftrightarrow> db_orders db' = db_orders db \<and> db_sales db' = db_sales db \<and> db_charges db' = db_charges db \<and>
     db_returns db' = db_returns db \<and> db_next db' = db_next db"

lemma same_documents_refl [simp]: "same_documents db db"
  by (simp add: same_documents_def)

lemma same_documents_trans: "same_documents db db1 \<Longrightarrow> same_documents db1 db2 \<Longrightarrow> same_documents db db2"
  by (simp add: same_documents_def)

lemma mirrors_keep:
  assumes "mirrors_of db db'"
  shows "db_balances db' = db_balances db" "db_movements db' = db_movements db" "same_documents db db'"
    "find_balance db' = find_balance db" "stock_wf db \<Longrightarrow> stock_wf db'"
  using assms unfolding mirrors_of_def by (auto simp: same_documents_def find_balance_def fun_eq_iff stock_wf_def)

text \<open>A balance read or created: a new one starts with nothing reserved and nothing on its way.\<close>

lemma getOrCreate_Inr:
  assumes "stock_wf db" "getOrCreateInventoryBalance db conta product variant = Inr (db1, b)"
  defines "k \<equiv> buildInventoryItemKey product variant"
  shows "find_balance db1 conta k = Some b" "stock_wf db1" "db_movements db1 = db_movements db" "same_documents db db1"
    and "(conta', k') \<noteq> (conta, k) \<Longrightarrow> find_balance db1 conta' k' = find_balance db conta' k'"
    and "find_balance db conta k = Some b \<and> db1 = db \<or> find_balance db conta k = None \<and> b_reserved b = 0 \<and> b_incoming b = 0"
proof -
  have "find_balance db1 conta k = Some b \<and> stock_wf db1 \<and> db_movements db1 = db_movements db \<and> same_documents db db1 \<and>
    ((conta', k') \<noteq> (conta, k) \<longrightarrow> find_balance db1 conta' k' = find_balance db conta' k') \<and>
    (find_balance db conta k = Some b \<and> db1 = db \<or> find_balance db conta k = None \<and> b_reserved b = 0 \<and> b_incoming b = 0)"
  proof (cases "find_balance db conta k")
    case (Some x)
    then have "db1 = db \<and> b = x"
      using assms(2) unfolding getOrCreateInventoryBalance_def findInventoryBalance_def k_def by simp
    then show ?thesis using Some assms(1) by simp
  next
    case None
    then obtain p v where load: "loadInventoryTarget db conta product variant = Inr (p, v)"
      and b: "b = \<lparr>b_contaId = conta, b_key = buildInventoryItemKey (p_id p) (map_option v_id v), b_productId = product,
               b_variantId = map_option v_id v, b_onHand = (case v of None \<Rightarrow> p_stock p | Some w \<Rightarrow> v_stock w),
               b_reserved = 0, b_incoming = 0, b_averageCost = 0\<rparr>"
      and db1: "(case v of Some _ \<Rightarrow> Inr (db\<lparr>db_balances := db_balances db @ [b]\<rparr>, b)
         | None \<Rightarrow> and_then (update_product product (p_stock p) (db\<lparr>db_balances := db_balances db @ [b]\<rparr>)) (\<lambda>db'. Inr (db', b)))
       = Inr (db1, b)"
      using assms(2) unfolding getOrCreateInventoryBalance_def findInventoryBalance_def k_def
      by (auto simp: and_then_Inr_iff Let_def split: option.splits)
    note target = loadInventoryTarget_Inr [OF load]
    let ?c = "db\<lparr>db_balances := db_balances db @ [b]\<rparr>"
    have stock: "0 \<le> p_stock p" "\<And>w. v = Some w \<Longrightarrow> 0 \<le> v_stock w"
      using target assms(1) by (auto simp: stock_wf_def)
    have key: "b_key b = k" "b_contaId b = conta" using target by (simp_all add: b k_def)
    have fresh: "balance_id b \<notin> set (map balance_id (db_balances db))"
      using None key unfolding find_balance_def find_None_eq by (auto simp: balance_id_def)
    have ok: "balance_ok b" using stock target by (auto simp: balance_ok_def b split: option.splits)
    have wf: "stock_wf ?c" using assms(1) fresh ok by (auto simp: stock_wf_def)
    have mirrors: "mirrors_of ?c db1"
    proof (cases v)
      case (Some w)
      then show ?thesis using db1 mirrors_of_refl by simp
    next
      case v: None
      then show ?thesis using db1 stock(1) by (auto simp: and_then_Inr_iff intro: update_product_mirrors)
    qed
    have found: "find_balance ?c conta k = Some b"
      using None key unfolding find_balance_def by (simp add: find_append)
    have others: "(conta', k') \<noteq> (conta, k) \<longrightarrow> find_balance ?c conta' k' = find_balance db conta' k'"
      using key unfolding find_balance_def by (auto simp: find_append split: option.splits)
    show ?thesis
      using mirrors_keep [OF mirrors] wf found others None b by (auto simp: same_documents_def)
  qed
  then show "find_balance db1 conta k = Some b" "stock_wf db1" "db_movements db1 = db_movements db" "same_documents db db1"
    and "(conta', k') \<noteq> (conta, k) \<Longrightarrow> find_balance db1 conta' k' = find_balance db conta' k'"
    and "find_balance db conta k = Some b \<and> db1 = db \<or> find_balance db conta k = None \<and> b_reserved b = 0 \<and> b_incoming b = 0"
    by auto
qed


section \<open>One change\<close>

text \<open>The database between the update of the balance and the mirrors of the catalogue.\<close>

definition booked :: "stock_db \<Rightarrow> balance \<Rightarrow> stock_change \<Rightarrow> rat \<Rightarrow> rat option \<Rightarrow> rat option \<Rightarrow> stock_db" where
  "booked db b c average unitCost totalCost =
     db\<lparr>db_balances := map (\<lambda>r. if unchanged_row b r then changed_row c b average r else r) (db_balances db),
        db_movements := db_movements db @ [movement_of b c unitCost totalCost]\<rparr>"

lemma store_change_cases:
  assumes "store_change db b c = Inr (db', u)"
  obtains average unitCost totalCost where
    "syncLegacyStockMirror (booked db b c average unitCost totalCost) (ch_productId c) (ch_variantId c)
       (b_onHand b + ch_onHand c) = Inr db'"
    and "findInventoryBalance db' (ch_contaId c) (ch_productId c) (ch_variantId c) = Some u"
    and "0 \<le> b_onHand b + ch_onHand c" "0 \<le> b_reserved b + ch_reserved c" "0 \<le> b_incoming b + ch_incoming c"
    and "decimal_column 8 4 (next_average b c) = Inr average"
    and "optional (\<lambda>cost. decimal_column 8 4 (num_max cost (Fin 0))) (ch_unitCost c) = Inr unitCost"
  using assms unfolding store_change_def Let_def booked_def
  by (auto simp: and_then_Inr_iff not_less split: if_splits option.splits)

definition change_deltas :: "stock_change \<Rightarrow> counters" where
  "change_deltas c = (ch_onHand c, ch_reserved c, ch_incoming c)"

fun add_counters :: "counters \<Rightarrow> counters \<Rightarrow> counters" where
  "add_counters (a, b, c) (x, y, z) = (a + x, b + y, c + z)"

fun counters_nonneg :: "counters \<Rightarrow> bool" where
  "counters_nonneg (a, b, c) \<longleftrightarrow> 0 \<le> a \<and> 0 \<le> b \<and> 0 \<le> c"

lemma booked_keeps:
  fixes average :: rat and unitCost totalCost :: "rat option"
  assumes wf: "stock_wf db" and b: "find_balance db (ch_contaId c) (change_key c) = Some b"
    and pos: "0 \<le> b_onHand b + ch_onHand c" "0 \<le> b_reserved b + ch_reserved c" "0 \<le> b_incoming b + ch_incoming c"
  defines "db1 \<equiv> booked db b c average unitCost totalCost"
  shows "stock_wf db1" "db_movements db1 = db_movements db @ [movement_of b c unitCost totalCost]" "same_documents db db1"
    and "(conta, k) \<noteq> (ch_contaId c, change_key c) \<Longrightarrow> find_balance db1 conta k = find_balance db conta k"
    and "find_balance db1 (ch_contaId c) (change_key c) = Some (changed_row c b average b)"
proof -
  let ?f = "\<lambda>r. if unchanged_row b r then changed_row c b average r else r"
  have own: "b_contaId b = ch_contaId c" "b_key b = change_key c" using find_balanceD [OF b] by simp_all
  have fields: "b_contaId (?f r) = b_contaId r" "b_key (?f r) = b_key r" "b_productId (?f r) = b_productId r"
    "b_variantId (?f r) = b_variantId r" for r by (simp_all add: changed_row_def)
  have f_id: "balance_id (?f r) = balance_id r" for r using fields unfolding balance_id_def by metis
  have f_ok: "balance_ok (?f r)" if "balance_ok r" for r
    using that pos by (auto simp: balance_ok_def changed_row_def)
  have "map balance_id (map ?f (db_balances db)) = map balance_id (db_balances db)"
    using f_id by (simp del: if_split)
  then have ids: "distinct (map balance_id (map ?f (db_balances db)))" using wf by (simp only: stock_wf_def)
  have "\<forall>r \<in> set (map ?f (db_balances db)). balance_ok r"
    using wf f_ok by (fastforce simp: stock_wf_def)
  then show "stock_wf db1"
    using wf ids unfolding db1_def booked_def by (simp add: stock_wf_def del: map_map list.set_map)
  show "db_movements db1 = db_movements db @ [movement_of b c unitCost totalCost]" "same_documents db db1"
    by (simp_all add: db1_def booked_def same_documents_def)
  have find: "find_balance db1 conta k = map_option ?f (find_balance db conta k)" for conta k
    unfolding find_balance_def db1_def booked_def using fields(1,2) by (simp add: find_map_keeps del: if_split)
  show "find_balance db1 (ch_contaId c) (change_key c) = Some (changed_row c b average b)"
    using find b by (simp add: unchanged_row_def)
  show "find_balance db1 conta k = find_balance db conta k" if "(conta, k) \<noteq> (ch_contaId c, change_key c)"
  proof (cases "find_balance db conta k")
    case (Some r)
    then have "\<not> unchanged_row b r"
      using that own find_balanceD [OF Some] by (auto simp: unchanged_row_def)
    then show ?thesis using find Some by simp
  qed (use find in simp)
qed

lemma store_change_Inr:
  assumes wf: "stock_wf db" and b: "find_balance db (ch_contaId c) (change_key c) = Some b"
    and res: "store_change db b c = Inr (db', u)"
  shows "\<exists>unitCost totalCost. db_movements db' = db_movements db @ [movement_of b c unitCost totalCost]"
    and "stock_wf db'" "same_documents db db'"
    and "(conta, k) \<noteq> (ch_contaId c, change_key c) \<Longrightarrow> find_balance db' conta k = find_balance db conta k"
    and "find_balance db' (ch_contaId c) (change_key c) = Some u"
    and "counters_of u = add_counters (counters_of b) (change_deltas c)" "counters_nonneg (counters_of u)"
proof -
  obtain average unitCost totalCost where
    sync: "syncLegacyStockMirror (booked db b c average unitCost totalCost) (ch_productId c) (ch_variantId c)
       (b_onHand b + ch_onHand c) = Inr db'"
    and u: "findInventoryBalance db' (ch_contaId c) (ch_productId c) (ch_variantId c) = Some u"
    and pos: "0 \<le> b_onHand b + ch_onHand c" "0 \<le> b_reserved b + ch_reserved c" "0 \<le> b_incoming b + ch_incoming c"
    using store_change_cases [OF res] by metis
  let ?db1 = "booked db b c average unitCost totalCost"
  note booked = booked_keeps [OF wf b pos, where average = average and unitCost = unitCost and totalCost = totalCost]
  have "\<forall>b \<in> set (db_balances ?db1). 0 \<le> b_onHand b"
    using booked(1) by (auto simp: stock_wf_def balance_ok_def)
  note keep = mirrors_keep [OF sync_mirrors [OF sync pos(1) this]]
  show "\<exists>unitCost totalCost. db_movements db' = db_movements db @ [movement_of b c unitCost totalCost]"
    using keep booked(2) by auto
  show "stock_wf db'" using keep booked(1) by blast
  show "same_documents db db'" using keep booked(3) same_documents_trans by blast
  show "find_balance db' conta k = find_balance db conta k" if "(conta, k) \<noteq> (ch_contaId c, change_key c)"
    using that keep booked(4) by simp
  have new: "find_balance db' (ch_contaId c) (change_key c) = Some (changed_row c b average b)"
    using keep booked(5) by simp
  then have "u = changed_row c b average b"
    using u unfolding findInventoryBalance_def change_key_def by simp
  then show "find_balance db' (ch_contaId c) (change_key c) = Some u"
    and "counters_of u = add_counters (counters_of b) (change_deltas c)" "counters_nonneg (counters_of u)"
    using new pos by (simp_all add: counters_of_def changed_row_def change_deltas_def)
qed


section \<open>The trail of movements\<close>

definition before_of :: "movement \<Rightarrow> counters" where
  "before_of m = (m_onHandBefore m, m_reservedBefore m, m_incomingBefore m)"

definition deltas_of :: "movement \<Rightarrow> counters" where
  "deltas_of m = (m_onHandDelta m, m_reservedDelta m, m_incomingDelta m)"

definition after_of :: "movement \<Rightarrow> counters" where
  "after_of m = (m_onHandAfter m, m_reservedAfter m, m_incomingAfter m)"

definition trail :: "stock_db \<Rightarrow> string \<Rightarrow> item_key \<Rightarrow> movement list" where
  "trail db conta k = filter (\<lambda>m. m_contaId m = conta \<and> m_key m = k) (db_movements db)"

text \<open>Replaying movements: each starts where the last one ended and ends at its sum, never below zero.\<close>

primrec replays :: "counters \<Rightarrow> movement list \<Rightarrow> counters option" where
  "replays s [] = Some s"
| "replays s (m # ms) =
     (if before_of m = s \<and> after_of m = add_counters s (deltas_of m) \<and> counters_nonneg (after_of m)
      then replays (after_of m) ms else None)"

lemma replays_append:
  "replays s (ms @ ns) = (case replays s ms of None \<Rightarrow> None | Some t \<Rightarrow> replays t ns)"
  by (induction ms arbitrary: s) auto

text \<open>A trail fits a balance: it starts from some stock with nothing reserved or on its way.\<close>

fun fits :: "movement list \<Rightarrow> balance option \<Rightarrow> bool" where
  "fits ms None \<longleftrightarrow> ms = []"
| "fits ms (Some b) \<longleftrightarrow> (\<exists>start \<ge> 0. replays (start, 0, 0) ms = Some (counters_of b))"

definition trail_ok :: "stock_db \<Rightarrow> bool" where
  "trail_ok db \<longleftrightarrow> (\<forall>conta k. fits (trail db conta k) (find_balance db conta k))"

definition ledger_inv :: "stock_db \<Rightarrow> bool" where
  "ledger_inv db \<longleftrightarrow> stock_wf db \<and> trail_ok db \<and> distinct (map movement_id (db_movements db))"

text \<open>What a change does: nothing when its movement is known, otherwise one movement on one item.\<close>

lemma apply_change_known:
  "change_id c \<in> set (map movement_id (db_movements db)) \<Longrightarrow> apply_change db c = Inr db' \<Longrightarrow> db' = db"
  unfolding apply_change_def applyInventoryChange_def by (auto simp: and_then_Inr_iff split: option.splits)

lemma apply_change_fresh:
  assumes wf: "stock_wf db" and fresh: "change_id c \<notin> set (map movement_id (db_movements db))"
    and res: "apply_change db c = Inr db'"
  obtains b m u where
    "stock_wf db'" "same_documents db db'"
    "db_movements db' = db_movements db @ [m]"
    "m_key m = change_key c" "movement_id m = change_id c" "deltas_of m = change_deltas c"
    "before_of m = counters_of b" "after_of m = add_counters (counters_of b) (change_deltas c)" "counters_nonneg (after_of m)"
    "find_balance db (ch_contaId c) (change_key c) = Some b \<or>
     find_balance db (ch_contaId c) (change_key c) = None \<and> 0 \<le> b_onHand b \<and> b_reserved b = 0 \<and> b_incoming b = 0"
    "find_balance db' (ch_contaId c) (change_key c) = Some u" "counters_of u = after_of m"
    "\<And>conta k. (conta, k) \<noteq> (ch_contaId c, change_key c) \<Longrightarrow> find_balance db' conta k = find_balance db conta k"
proof -
  obtain db1 b u where create: "getOrCreateInventoryBalance db (ch_contaId c) (ch_productId c) (ch_variantId c) = Inr (db1, b)"
    and change: "store_change db1 b c = Inr (db', u)"
    using res fresh unfolding apply_change_def applyInventoryChange_def by (auto simp: and_then_Inr_iff)
  note c = getOrCreate_Inr [OF wf create, folded change_key_def]
  note s = store_change_Inr [OF c(2) c(1) change]
  obtain unitCost totalCost where m: "db_movements db' = db_movements db1 @ [movement_of b c unitCost totalCost]"
    using s(1) by blast
  have own: "b_contaId b = ch_contaId c" "b_key b = change_key c" "b \<in> set (db_balances db1)"
    using find_balanceD [OF c(1)] by simp_all
  have "0 \<le> b_onHand b" using own(3) c(2) by (auto simp: stock_wf_def balance_ok_def)
  then show thesis
    using s c m own
    by (intro that [of "movement_of b c unitCost totalCost" b u])
      (auto simp: movement_of_def movement_id_def change_id_def deltas_of_def before_of_def after_of_def change_deltas_def
         counters_of_def same_documents_def)
qed

lemma movement_contaId: "movement_id m = change_id c \<Longrightarrow> m_contaId m = ch_contaId c"
  by (simp add: movement_id_def change_id_def)

lemma apply_change_ledger:
  assumes inv: "ledger_inv db" and res: "apply_change db c = Inr db'"
  shows "ledger_inv db'"
proof (cases "change_id c \<in> set (map movement_id (db_movements db))")
  case True
  then show ?thesis using apply_change_known [OF _ res] inv by simp
next
  case False
  have wf: "stock_wf db" and trails: "trail_ok db" and ids: "distinct (map movement_id (db_movements db))"
    using inv by (simp_all add: ledger_inv_def)
  obtain b m u where
    wf': "stock_wf db'" and ms: "db_movements db' = db_movements db @ [m]"
    and m: "m_key m = change_key c" "movement_id m = change_id c" "deltas_of m = change_deltas c"
    "before_of m = counters_of b" "after_of m = add_counters (counters_of b) (change_deltas c)" "counters_nonneg (after_of m)"
    and old: "find_balance db (ch_contaId c) (change_key c) = Some b \<or>
     find_balance db (ch_contaId c) (change_key c) = None \<and> 0 \<le> b_onHand b \<and> b_reserved b = 0 \<and> b_incoming b = 0"
    and new: "find_balance db' (ch_contaId c) (change_key c) = Some u" "counters_of u = after_of m"
    and others: "\<And>conta k. (conta, k) \<noteq> (ch_contaId c, change_key c) \<Longrightarrow> find_balance db' conta k = find_balance db conta k"
    by (rule apply_change_fresh [OF wf False res]) blast
  have trail': "trail db' conta k = trail db conta k @ (if (conta, k) = (ch_contaId c, change_key c) then [m] else [])" for conta k
    using m(1) movement_contaId [OF m(2)] by (auto simp: trail_def ms)
  have "fits (trail db' conta k) (find_balance db' conta k)" for conta k
  proof (cases "(conta, k) = (ch_contaId c, change_key c)")
    case False
    then have "trail db' conta k = trail db conta k" using trail' by auto
    then show ?thesis
      using trails others [OF False] by (simp add: trail_ok_def)
  next
    case True
    have before: "fits (trail db conta k) (find_balance db conta k)" using trails by (simp add: trail_ok_def)
    have "fits (trail db conta k) (Some b)" using old before True by (auto simp: counters_of_def)
    then obtain start where "0 \<le> start" "replays (start, 0, 0) (trail db conta k) = Some (counters_of b)" by auto
    then have "replays (start, 0, 0) (trail db' conta k) = Some (counters_of u)"
      using trail' True m new by (simp add: replays_append)
    then show ?thesis using True new(1) \<open>0 \<le> start\<close> by auto
  qed
  then have "trail_ok db'" unfolding trail_ok_def by blast
  then show ?thesis using wf' ids False m(2) by (simp add: ledger_inv_def ms)
qed


section \<open>Postings\<close>

text \<open>A movement without its running balances and costs: what it moves, and under which identity.\<close>

record posting =
  po_contaId :: string
  po_origin :: origin
  po_line :: "nat option"
  po_action :: action_key
  po_type :: movement_type
  po_key :: item_key
  po_onHand :: int
  po_reserved :: int
  po_incoming :: int

definition posting_id :: "posting \<Rightarrow> movement_id" where
  "posting_id e = (po_contaId e, po_origin e, po_line e, po_action e, po_type e)"

definition posting_of :: "movement \<Rightarrow> posting" where
  "posting_of m = \<lparr>po_contaId = m_contaId m, po_origin = m_origin m, po_line = m_line m, po_action = m_action m,
     po_type = m_type m, po_key = m_key m, po_onHand = m_onHandDelta m, po_reserved = m_reservedDelta m,
     po_incoming = m_incomingDelta m\<rparr>"

definition change_posting :: "stock_change \<Rightarrow> posting" where
  "change_posting c = \<lparr>po_contaId = ch_contaId c, po_origin = ch_origin c, po_line = ch_line c, po_action = ch_action c,
     po_type = ch_type c, po_key = change_key c, po_onHand = ch_onHand c, po_reserved = ch_reserved c,
     po_incoming = ch_incoming c\<rparr>"

definition postings :: "stock_db \<Rightarrow> posting list" where
  "postings db = map posting_of (db_movements db)"

lemma posting_id_simps [simp]:
  "posting_id (posting_of m) = movement_id m" "posting_id (change_posting c) = change_id c"
  by (simp_all add: posting_id_def posting_of_def movement_id_def change_posting_def change_id_def)

lemma posting_ids: "posting_id ` set (postings db) = set (map movement_id (db_movements db))"
  by (auto simp: postings_def image_image)

lemma posting_of_eq:
  "movement_id m = change_id c \<Longrightarrow> m_key m = change_key c \<Longrightarrow> deltas_of m = change_deltas c \<Longrightarrow>
   posting_of m = change_posting c"
  by (simp add: posting_of_def change_posting_def movement_id_def change_id_def deltas_of_def change_deltas_def)

text \<open>
  A journal: entries with identities, appended once. A run of entries is appended in order, and a run
  repeated changes nothing.
\<close>

locale journal =
  fixes enter :: "'s \<Rightarrow> 'c \<Rightarrow> 'e + 's"
    and book :: "'s \<Rightarrow> 'p list"
    and post :: "'c \<Rightarrow> 'p"
    and ident :: "'p \<Rightarrow> 'i"
    and ok :: "'s \<Rightarrow> bool"
  assumes keeps: "ok s \<Longrightarrow> enter s c = Inr t \<Longrightarrow> ok t"
    and known: "ident (post c) \<in> ident ` set (book s) \<Longrightarrow> enter s c = Inr t \<Longrightarrow> t = s"
    and fresh: "ok s \<Longrightarrow> ident (post c) \<notin> ident ` set (book s) \<Longrightarrow> enter s c = Inr t \<Longrightarrow> book t = book s @ [post c]"
begin

lemma entered:
  assumes "ok s" "enter s c = Inr t"
  shows "ident (post c) \<in> ident ` set (book t) \<and> set (book s) \<subseteq> set (book t)"
proof (cases "ident (post c) \<in> ident ` set (book s)")
  case True
  then show ?thesis using known [OF True assms(2)] by simp
next
  case False
  then show ?thesis using fresh [OF assms(1) False assms(2)] by auto
qed

lemma run_keeps: "ok s \<Longrightarrow> fold_err enter s cs = Inr t \<Longrightarrow> ok t"
  using fold_err_invariant keeps by metis

lemma run_entered:
  "ok s \<Longrightarrow> fold_err enter s cs = Inr t \<Longrightarrow>
   (\<forall>c \<in> set cs. ident (post c) \<in> ident ` set (book t)) \<and> set (book s) \<subseteq> set (book t)"
proof (induction cs arbitrary: s)
  case (Cons c cs)
  then obtain u where u: "enter s c = Inr u" "fold_err enter u cs = Inr t" by (auto simp: and_then_Inr_iff)
  then have "(\<forall>c \<in> set cs. ident (post c) \<in> ident ` set (book t)) \<and> set (book u) \<subseteq> set (book t)"
    using Cons.IH keeps Cons.prems(1) by blast
  moreover have "ident (post c) \<in> ident ` set (book u)" "set (book s) \<subseteq> set (book u)"
    using entered [OF Cons.prems(1) u(1)] by simp_all
  ultimately show ?case by auto
qed simp

lemma run_known:
  "(\<forall>c \<in> set cs. ident (post c) \<in> ident ` set (book s)) \<Longrightarrow> fold_err enter s cs = Inr t \<Longrightarrow> t = s"
proof (induction cs)
  case (Cons c cs)
  then obtain u where u: "enter s c = Inr u" "fold_err enter u cs = Inr t" by (auto simp: and_then_Inr_iff)
  moreover have "u = s" using known [OF _ u(1)] Cons.prems(1) by simp
  ultimately show ?case using Cons by auto
qed simp

lemma run_again: "ok s \<Longrightarrow> fold_err enter s cs = Inr t \<Longrightarrow> fold_err enter t cs = Inr u \<Longrightarrow> u = t"
  using run_entered run_known by metis

lemma run_appends:
  "ok s \<Longrightarrow> fold_err enter s cs = Inr t \<Longrightarrow> distinct (map (\<lambda>c. ident (post c)) cs) \<Longrightarrow>
   (\<forall>c \<in> set cs. ident (post c) \<notin> ident ` set (book s)) \<Longrightarrow> book t = book s @ map post cs"
proof (induction cs arbitrary: s)
  case (Cons c cs)
  then obtain u where u: "enter s c = Inr u" "fold_err enter u cs = Inr t" by (auto simp: and_then_Inr_iff)
  have "book u = book s @ [post c]" using fresh [OF Cons.prems(1) _ u(1)] Cons.prems(4) by simp
  moreover have "\<forall>d \<in> set cs. ident (post d) \<notin> ident ` set (book u)"
    using Cons.prems(3,4) calculation by (auto simp: rev_image_eqI)
  ultimately show ?case using Cons.IH [OF keeps [OF Cons.prems(1) u(1)] u(2)] Cons.prems(3) by simp
qed simp

end

lemma apply_change_posted:
  assumes "stock_wf db" "change_id c \<notin> set (map movement_id (db_movements db))" "apply_change db c = Inr db'"
  shows "postings db' = postings db @ [change_posting c] \<and> same_documents db db'"
proof (rule apply_change_fresh [OF assms])
  fix m
  assume m: "db_movements db' = db_movements db @ [m]" "m_key m = change_key c" "movement_id m = change_id c"
    "deltas_of m = change_deltas c" and docs: "same_documents db db'"
  show "postings db' = postings db @ [change_posting c] \<and> same_documents db db'"
    using posting_of_eq [OF m(3,2,4)] m(1) docs by (simp add: postings_def)
qed

lemma apply_change_postings:
  "ledger_inv db \<Longrightarrow> change_id c \<notin> posting_id ` set (postings db) \<Longrightarrow> apply_change db c = Inr db' \<Longrightarrow>
   postings db' = postings db @ [change_posting c]"
  using apply_change_posted unfolding ledger_inv_def posting_ids by blast

interpretation stock: journal apply_change postings change_posting posting_id ledger_inv
proof
  show "ledger_inv t" if "ledger_inv s" "apply_change s c = Inr t" for s c t
    using that by (rule apply_change_ledger)
  show "t = s" if "posting_id (change_posting c) \<in> posting_id ` set (postings s)" "apply_change s c = Inr t" for s c t
    using apply_change_known [OF _ that(2)] that(1) by (simp add: posting_ids)
  show "postings t = postings s @ [change_posting c]"
    if "ledger_inv s" "posting_id (change_posting c) \<notin> posting_id ` set (postings s)" "apply_change s c = Inr t" for s c t
    using apply_change_postings [OF that(1) _ that(3)] that(2) by simp
qed

lemma apply_change_documents:
  assumes "ledger_inv db" "apply_change db c = Inr db'"
  shows "same_documents db db'"
proof (cases "change_id c \<in> set (map movement_id (db_movements db))")
  case True
  then show ?thesis using apply_change_known [OF _ assms(2)] by simp
next
  case False
  then show ?thesis using apply_change_posted [OF _ False assms(2)] assms(1) by (simp add: ledger_inv_def)
qed

lemma changes_documents:
  "ledger_inv db \<Longrightarrow> fold_err apply_change db cs = Inr db' \<Longrightarrow> same_documents db db'"
proof (induction cs arbitrary: db)
  case (Cons c cs)
  then obtain u where u: "apply_change db c = Inr u" "fold_err apply_change u cs = Inr db'" by (auto simp: and_then_Inr_iff)
  then show ?case
    using Cons.IH stock.keeps [OF Cons.prems(1) u(1)] apply_change_documents [OF Cons.prems(1) u(1)]
      same_documents_trans by blast
qed simp

end
