(* ===== verification/StoreDocuments.thy ===== *)
theory StoreDocuments
  imports StoreLedger
begin

text \<open>
  What the documents of the store - sales and restock orders - say about the stock, and that the
  movements agree: a sale holds in reserve, or has shipped, exactly its outstanding units, and an order
  has on its way exactly what is still to be received.
\<close>

section \<open>Sums over postings\<close>

definition booked_for :: "string \<Rightarrow> origin \<Rightarrow> item_key \<Rightarrow> posting \<Rightarrow> bool" where
  "booked_for conta o' k e \<longleftrightarrow> po_contaId e = conta \<and> po_origin e = o' \<and> po_key e = k"

definition moved :: "(posting \<Rightarrow> int) \<Rightarrow> posting list \<Rightarrow> string \<Rightarrow> origin \<Rightarrow> item_key \<Rightarrow> int" where
  "moved f es conta o' k = sum_list (map f (filter (booked_for conta o' k) es))"

lemma moved_append [simp]: "moved f (es @ es') conta o' k = moved f es conta o' k + moved f es' conta o' k"
  by (simp add: moved_def)

lemma moved_Nil [simp]: "moved f [] conta o' k = 0"
  by (simp add: moved_def)

lemma moved_single: "moved f [e] conta o' k = (if booked_for conta o' k e then f e else 0)"
  by (simp add: moved_def)

lemma moved_other: "(\<forall>e \<in> set es. po_origin e \<noteq> o') \<Longrightarrow> moved f es conta o' k = 0"
  unfolding moved_def by (induction es) (auto simp: booked_for_def)

lemma moved_zero: "(\<forall>e \<in> set es. po_origin e = o' \<longrightarrow> f e = 0) \<Longrightarrow> moved f es conta o' k = 0"
  unfolding moved_def by (induction es) (auto simp: booked_for_def)

section \<open>Sales\<close>

definition sale_item_key :: "sale_item \<Rightarrow> item_key" where
  "sale_item_key r = buildInventoryItemKey (the (si_productId r)) (si_variantId r)"

definition units :: "sale_item list \<Rightarrow> item_key \<Rightarrow> int" where
  "units rs k = sum_list (map outstanding (filter (\<lambda>r. sale_item_key r = k) rs))"

lemma units_simps [simp]:
  "units [] k = 0" "units (r # rs) k = (if sale_item_key r = k then outstanding r else 0) + units rs k"
  "units (rs @ ss) k = units rs k + units ss k"
  by (simp_all add: units_def)

lemma outstanding_nonneg [simp]: "0 \<le> outstanding r"
  by (simp add: outstanding_def)

lemma units_nonneg: "0 \<le> units rs k"
  unfolding units_def by (intro sum_list_nonneg_int) simp

definition has_shipped :: "store_sale \<Rightarrow> bool" where
  "has_shipped s \<longleftrightarrow> sa_inventoryStatus s \<in> {INV_FULFILLED, INV_RETURNED_PARTIAL, INV_RETURNED_TOTAL}"

definition reserved_by :: "store_sale \<Rightarrow> item_key \<Rightarrow> int" where
  "reserved_by s k = (if sa_inventoryStatus s = INV_RESERVED then units (sa_items s) k else 0)"

definition shipped_by :: "store_sale \<Rightarrow> item_key \<Rightarrow> int" where
  "shipped_by s k = (if has_shipped s then units (sa_items s) k else 0)"

definition sale_item_ok :: "sale_item \<Rightarrow> bool" where
  "sale_item_ok r \<longleftrightarrow> truthy (si_productId r) \<and> 0 < si_quantity r \<and> 0 \<le> si_returned r \<and> si_returned r \<le> si_quantity r"

definition sale_wf :: "store_sale \<Rightarrow> bool" where
  "sale_wf s \<longleftrightarrow> distinct (map si_id (sa_items s)) \<and> list_all sale_item_ok (sa_items s)"

definition sale_booked :: "posting list \<Rightarrow> store_sale \<Rightarrow> bool" where
  "sale_booked es s \<longleftrightarrow> (\<forall>k.
     moved po_reserved es (sa_contaId s) (SALE_ORIGIN (sa_id s)) k = reserved_by s k \<and>
     moved po_onHand es (sa_contaId s) (SALE_ORIGIN (sa_id s)) k = - shipped_by s k)"

text \<open>The actions booked for a sale are those its status allows.\<close>

definition sale_action :: "store_sale \<Rightarrow> posting \<Rightarrow> bool" where
  "sale_action s e \<longleftrightarrow> po_contaId e = sa_contaId s \<and> po_incoming e = 0 \<and> (case po_action e of
       K_RESERVE \<Rightarrow> True | K_SALE_OUT \<Rightarrow> True
     | K_FULFILL \<Rightarrow> sa_inventoryStatus s \<noteq> INV_RESERVED
     | K_FULFILL_ON_PAYMENT \<Rightarrow> sa_inventoryStatus s \<noteq> INV_RESERVED
     | K_CANCEL \<Rightarrow> sa_inventoryStatus s = INV_CANCELED
     | K_RETURN n \<Rightarrow> \<exists>r \<in> set (sa_items s). po_line e = Some (si_id r) \<and> n \<le> si_returned r
     | _ \<Rightarrow> False)"

definition sale_ok :: "posting list \<Rightarrow> store_sale \<Rightarrow> bool" where
  "sale_ok es s \<longleftrightarrow> sale_wf s \<and> sale_booked es s \<and>
     (\<forall>e \<in> set es. po_origin e = SALE_ORIGIN (sa_id s) \<longrightarrow> sale_action s e)"

lemma sale_ok_frame:
  "(\<forall>e \<in> set es'. po_origin e \<noteq> SALE_ORIGIN (sa_id s)) \<Longrightarrow> sale_ok (es @ es') s \<longleftrightarrow> sale_ok es s"
  by (auto simp: sale_ok_def sale_booked_def moved_other)

section \<open>Restock orders\<close>

definition restock_key :: "restock_item \<Rightarrow> item_key" where
  "restock_key r = buildInventoryItemKey (ri_productId r) (ri_variantId r)"

definition pending :: "restock_item \<Rightarrow> int" where
  "pending r = ri_expected r - ri_received r"

definition item_sum :: "(restock_item \<Rightarrow> int) \<Rightarrow> restock_item list \<Rightarrow> item_key \<Rightarrow> int" where
  "item_sum f rs k = sum_list (map f (filter (\<lambda>r. restock_key r = k) rs))"

lemma item_sum_simps [simp]:
  "item_sum f [] k = 0" "item_sum f (r # rs) k = (if restock_key r = k then f r else 0) + item_sum f rs k"
  "item_sum f (rs @ ss) k = item_sum f rs k + item_sum f ss k"
  by (simp_all add: item_sum_def)

definition incoming_by :: "restock_order \<Rightarrow> item_key \<Rightarrow> int" where
  "incoming_by x k = (if ro_status x = RO_CANCELADO then 0 else item_sum pending (ro_items x) k)"

definition restock_item_ok :: "nat \<Rightarrow> restock_item \<Rightarrow> bool" where
  "restock_item_ok n r \<longleftrightarrow> ri_id r < n \<and> 0 < ri_expected r \<and> 0 \<le> ri_received r \<and> ri_received r \<le> ri_expected r"

definition order_wf :: "nat \<Rightarrow> restock_order \<Rightarrow> bool" where
  "order_wf n x \<longleftrightarrow> distinct (map ri_id (ro_items x)) \<and> list_all (restock_item_ok n) (ro_items x)"

definition order_booked :: "posting list \<Rightarrow> restock_order \<Rightarrow> bool" where
  "order_booked es x \<longleftrightarrow> (\<forall>k.
     moved po_incoming es (ro_contaId x) (RESTOCK_ORDER (ro_id x)) k = incoming_by x k \<and>
     moved po_onHand es (ro_contaId x) (RESTOCK_ORDER (ro_id x)) k = item_sum ri_received (ro_items x) k)"

definition order_action :: "restock_order \<Rightarrow> posting \<Rightarrow> bool" where
  "order_action x e \<longleftrightarrow> po_contaId e = ro_contaId x \<and> po_reserved e = 0 \<and> (case po_action e of
       K_PLANNED \<Rightarrow> \<exists>r \<in> set (ro_items x). po_line e = Some (ri_id r)
     | K_RECEIVE n \<Rightarrow> \<exists>r \<in> set (ro_items x). po_line e = Some (ri_id r) \<and> n \<le> ri_received r
     | K_CANCEL \<Rightarrow> ro_status x = RO_CANCELADO
     | _ \<Rightarrow> False)"

definition order_ok :: "nat \<Rightarrow> posting list \<Rightarrow> restock_order \<Rightarrow> bool" where
  "order_ok n es x \<longleftrightarrow> order_wf n x \<and> order_booked es x \<and>
     (\<forall>e \<in> set es. po_origin e = RESTOCK_ORDER (ro_id x) \<longrightarrow> order_action x e)"

lemma order_ok_frame:
  "(\<forall>e \<in> set es'. po_origin e \<noteq> RESTOCK_ORDER (ro_id x)) \<Longrightarrow> order_ok n (es @ es') x \<longleftrightarrow> order_ok n es x"
  by (auto simp: order_ok_def order_booked_def moved_other)

lemma order_ok_mono: "order_ok n es x \<Longrightarrow> n \<le> n' \<Longrightarrow> order_ok n' es x"
  by (fastforce simp: order_ok_def order_wf_def list_all_iff restock_item_ok_def)

section \<open>The documents and the postings\<close>

text \<open>Every posting belongs to a document, or is a manual change, which reserves and announces nothing.\<close>

definition posting_owned :: "nat set \<Rightarrow> nat set \<Rightarrow> posting \<Rightarrow> bool" where
  "posting_owned sales orders e \<longleftrightarrow> (case po_origin e of
       SALE_ORIGIN i \<Rightarrow> i \<in> sales
     | RESTOCK_ORDER i \<Rightarrow> i \<in> orders
     | _ \<Rightarrow> po_reserved e = 0 \<and> po_incoming e = 0)"

lemma posting_owned_mono:
  "posting_owned S R e \<Longrightarrow> S \<subseteq> S' \<Longrightarrow> R \<subseteq> R' \<Longrightarrow> posting_owned S' R' e"
  by (auto simp: posting_owned_def split: origin.splits)

definition sale_ids :: "stock_db \<Rightarrow> nat list" where
  "sale_ids db = map sa_id (db_sales db)"

definition order_ids :: "stock_db \<Rightarrow> nat list" where
  "order_ids db = map ro_id (db_orders db)"

definition docs_inv :: "stock_db \<Rightarrow> bool" where
  "docs_inv db \<longleftrightarrow> distinct (sale_ids db) \<and> distinct (order_ids db) \<and>
     (\<forall>s \<in> set (db_sales db). sa_id s < db_next db \<and> sale_ok (postings db) s) \<and>
     (\<forall>x \<in> set (db_orders db). ro_id x < db_next db \<and> order_ok (db_next db) (postings db) x) \<and>
     (\<forall>e \<in> set (postings db). posting_owned (set (sale_ids db)) (set (order_ids db)) e)"

lemma docs_inv_cong:
  "postings db' = postings db \<Longrightarrow> db_sales db' = db_sales db \<Longrightarrow> db_orders db' = db_orders db \<Longrightarrow>
   db_next db' = db_next db \<Longrightarrow> docs_inv db' = docs_inv db"
  by (simp add: docs_inv_def sale_ids_def order_ids_def)

lemma postings_cong: "db_movements db' = db_movements db \<Longrightarrow> postings db' = postings db"
  by (simp add: postings_def)

text \<open>Manual changes leave the documents as they are.\<close>

definition manual_posting :: "posting \<Rightarrow> bool" where
  "manual_posting e \<longleftrightarrow> (case po_origin e of MANUAL_ENTRY _ \<Rightarrow> True | MANUAL_ADJUSTMENT _ \<Rightarrow> True | _ \<Rightarrow> False) \<and>
     po_reserved e = 0 \<and> po_incoming e = 0"

lemma docs_inv_manual:
  assumes "docs_inv db" "postings db' = postings db @ [e]" "same_documents db db'" "manual_posting e"
  shows "docs_inv db'"
proof -
  have e: "po_origin e \<noteq> SALE_ORIGIN i" "po_origin e \<noteq> RESTOCK_ORDER i" for i
    using assms(4) by (auto simp: manual_posting_def)
  have sales: "\<forall>s \<in> set (db_sales db'). sa_id s < db_next db' \<and> sale_ok (postings db') s"
    using assms(1-3) e by (simp add: docs_inv_def same_documents_def sale_ok_frame)
  have orders: "\<forall>x \<in> set (db_orders db'). ro_id x < db_next db' \<and> order_ok (db_next db') (postings db') x"
    using assms(1-3) e by (simp add: docs_inv_def same_documents_def order_ok_frame)
  have ids: "sale_ids db' = sale_ids db" "order_ids db' = order_ids db"
    using assms(3) by (simp_all add: sale_ids_def order_ids_def same_documents_def)
  have "posting_owned S R e" for S R using assms(4) by (auto simp: posting_owned_def manual_posting_def split: origin.splits)
  then show ?thesis
    using assms(1,2) sales orders ids by (simp add: docs_inv_def)
qed

text \<open>A step on one sale: its postings and its record change together.\<close>

lemma docs_inv_sale:
  assumes inv: "docs_inv db" and posts: "postings db' = postings db @ es"
    and sales: "db_sales db' = map (\<lambda>s. if sa_id s = i then f s else s) (db_sales db)"
    and same: "db_orders db' = db_orders db" "db_next db \<le> db_next db'"
    and own: "\<forall>e \<in> set es. po_origin e = SALE_ORIGIN i"
    and s: "s \<in> set (db_sales db)" "sa_id s = i" "sa_id (f s) = i" and ok: "sale_ok (postings db @ es) (f s)"
  shows "docs_inv db'"
proof -
  let ?g = "\<lambda>s. if sa_id s = i then f s else s"
  have ids: "distinct (sale_ids db)" using inv by (simp add: docs_inv_def)
  have only: "t = s" if "t \<in> set (db_sales db)" "sa_id t = i" for t
    using that s ids by (auto simp: distinct_map inj_on_def sale_ids_def)
  have keep: "sa_id (?g t) = sa_id t" if "t \<in> set (db_sales db)" for t
    using only [OF that] s by (cases "sa_id t = i") simp_all
  have map_ids: "sale_ids db' = sale_ids db" "order_ids db' = order_ids db"
    using keep same(1) by (simp_all add: sale_ids_def order_ids_def sales del: if_split)
  have "sale_ok (postings db') (?g t)" if "t \<in> set (db_sales db)" for t
  proof (cases "sa_id t = i")
    case True
    then show ?thesis using only [OF that] ok posts by simp
  next
    case False
    then have "sale_ok (postings db @ es) t \<longleftrightarrow> sale_ok (postings db) t" using own by (intro sale_ok_frame) auto
    then show ?thesis using False that inv posts by (simp add: docs_inv_def)
  qed
  moreover have "sa_id (?g t) < db_next db'" if "t \<in> set (db_sales db)" for t
    using keep [OF that] that inv same(2) by (auto simp: docs_inv_def simp del: if_split)
  ultimately have all_sales: "\<forall>t \<in> set (db_sales db'). sa_id t < db_next db' \<and> sale_ok (postings db') t"
    unfolding sales set_map by blast
  have all_orders: "\<forall>x \<in> set (db_orders db'). ro_id x < db_next db' \<and> order_ok (db_next db') (postings db') x"
  proof
    fix x
    assume "x \<in> set (db_orders db')"
    then have "ro_id x < db_next db" "order_ok (db_next db) (postings db) x" using inv same(1) by (simp_all add: docs_inv_def)
    moreover have "order_ok (db_next db) (postings db @ es) x \<longleftrightarrow> order_ok (db_next db) (postings db) x"
      using own by (intro order_ok_frame) simp
    ultimately show "ro_id x < db_next db' \<and> order_ok (db_next db') (postings db') x"
      using same(2) posts order_ok_mono by fastforce
  qed
  have "i \<in> set (sale_ids db)" using s by (auto simp: sale_ids_def)
  then have "posting_owned (set (sale_ids db)) (set (order_ids db)) e" if "e \<in> set es" for e
    using that own by (simp add: posting_owned_def)
  then have "\<forall>e \<in> set (postings db'). posting_owned (set (sale_ids db')) (set (order_ids db')) e"
    using inv posts map_ids by (auto simp: docs_inv_def)
  then show ?thesis using all_sales all_orders inv map_ids by (simp add: docs_inv_def)
qed

text \<open>A step on one order.\<close>

lemma docs_inv_order:
  assumes inv: "docs_inv db" and posts: "postings db' = postings db @ es"
    and orders: "db_orders db' = map (\<lambda>x. if ro_id x = i then f x else x) (db_orders db)"
    and same: "db_sales db' = db_sales db" "db_next db \<le> db_next db'"
    and own: "\<forall>e \<in> set es. po_origin e = RESTOCK_ORDER i"
    and x: "x \<in> set (db_orders db)" "ro_id x = i" "ro_id (f x) = i" and ok: "order_ok (db_next db') (postings db @ es) (f x)"
  shows "docs_inv db'"
proof -
  let ?g = "\<lambda>x. if ro_id x = i then f x else x"
  have ids: "distinct (order_ids db)" using inv by (simp add: docs_inv_def)
  have only: "t = x" if "t \<in> set (db_orders db)" "ro_id t = i" for t
    using that x ids by (auto simp: distinct_map inj_on_def order_ids_def)
  have keep: "ro_id (?g t) = ro_id t" if "t \<in> set (db_orders db)" for t
    using only [OF that] x by (cases "ro_id t = i") simp_all
  have map_ids: "order_ids db' = order_ids db" "sale_ids db' = sale_ids db"
    using keep same(1) by (simp_all add: sale_ids_def order_ids_def orders del: if_split)
  have "order_ok (db_next db') (postings db') (?g t)" if "t \<in> set (db_orders db)" for t
  proof (cases "ro_id t = i")
    case True
    then show ?thesis using only [OF that] ok posts by simp
  next
    case False
    then have "order_ok (db_next db) (postings db @ es) t \<longleftrightarrow> order_ok (db_next db) (postings db) t"
      using own by (intro order_ok_frame) auto
    then show ?thesis using False that inv posts same(2) order_ok_mono by (fastforce simp: docs_inv_def)
  qed
  moreover have "ro_id (?g t) < db_next db'" if "t \<in> set (db_orders db)" for t
    using keep [OF that] that inv same(2) by (auto simp: docs_inv_def simp del: if_split)
  ultimately have all_orders: "\<forall>t \<in> set (db_orders db'). ro_id t < db_next db' \<and> order_ok (db_next db') (postings db') t"
    unfolding orders set_map by blast
  have all_sales: "\<forall>s \<in> set (db_sales db'). sa_id s < db_next db' \<and> sale_ok (postings db') s"
  proof
    fix s
    assume "s \<in> set (db_sales db')"
    then have "sa_id s < db_next db" "sale_ok (postings db) s" using inv same(1) by (simp_all add: docs_inv_def)
    moreover have "sale_ok (postings db @ es) s \<longleftrightarrow> sale_ok (postings db) s"
      using own by (intro sale_ok_frame) simp
    ultimately show "sa_id s < db_next db' \<and> sale_ok (postings db') s" using same(2) posts by simp
  qed
  have "i \<in> set (order_ids db)" using x by (auto simp: order_ids_def)
  then have "posting_owned (set (sale_ids db)) (set (order_ids db)) e" if "e \<in> set es" for e
    using that own by (simp add: posting_owned_def)
  then have "\<forall>e \<in> set (postings db'). posting_owned (set (sale_ids db')) (set (order_ids db')) e"
    using inv posts map_ids by (auto simp: docs_inv_def)
  then show ?thesis using all_sales all_orders inv map_ids by (simp add: docs_inv_def)
qed

text \<open>A new document.\<close>

lemma fresh_origin:
  assumes "docs_inv db" "e \<in> set (postings db)" "db_next db \<le> i"
  shows "po_origin e \<noteq> SALE_ORIGIN i" "po_origin e \<noteq> RESTOCK_ORDER i"
  using assms by (fastforce simp: docs_inv_def posting_owned_def sale_ids_def order_ids_def)+

lemma docs_inv_new_sale:
  assumes inv: "docs_inv db" and posts: "postings db' = postings db @ es"
    and sales: "db_sales db' = db_sales db @ [s]" and same: "db_orders db' = db_orders db" "sa_id s < db_next db'"
    and s: "sa_id s = db_next db" and own: "\<forall>e \<in> set es. po_origin e = SALE_ORIGIN (sa_id s)" and ok: "sale_ok es s"
  shows "docs_inv db'"
proof -
  have old: "sa_id t < db_next db" "sale_ok (postings db) t" if "t \<in> set (db_sales db)" for t
    using inv that by (simp_all add: docs_inv_def)
  have "sale_ok (postings db') t" if "t \<in> set (db_sales db)" for t
  proof -
    have "sale_ok (postings db @ es) t \<longleftrightarrow> sale_ok (postings db) t"
      using own old(1) [OF that] s by (intro sale_ok_frame) auto
    then show ?thesis using old(2) [OF that] posts by simp
  qed
  moreover have "sale_ok (postings db') s"
    using ok fresh_origin(1) [OF inv] s by (auto simp: sale_ok_def sale_booked_def posts moved_other)
  ultimately have all_sales: "\<forall>t \<in> set (db_sales db'). sa_id t < db_next db' \<and> sale_ok (postings db') t"
    using old s same(2) by (fastforce simp: sales)
  have all_orders: "\<forall>x \<in> set (db_orders db'). ro_id x < db_next db' \<and> order_ok (db_next db') (postings db') x"
  proof
    fix x
    assume "x \<in> set (db_orders db')"
    then have "ro_id x < db_next db" "order_ok (db_next db) (postings db) x" using inv same(1) by (simp_all add: docs_inv_def)
    moreover have "order_ok (db_next db) (postings db @ es) x \<longleftrightarrow> order_ok (db_next db) (postings db) x"
      using own by (intro order_ok_frame) simp
    ultimately show "ro_id x < db_next db' \<and> order_ok (db_next db') (postings db') x"
      using same(2) s posts order_ok_mono by fastforce
  qed
  have "distinct (sale_ids db')" using inv s old(1) by (force simp: docs_inv_def sale_ids_def sales)
  moreover have "posting_owned (set (sale_ids db')) (set (order_ids db')) e" if "e \<in> set (postings db')" for e
  proof (cases "e \<in> set es")
    case True
    then show ?thesis using own by (auto simp: posting_owned_def sale_ids_def sales)
  next
    case False
    then have "posting_owned (set (sale_ids db)) (set (order_ids db)) e" using that inv posts by (simp add: docs_inv_def)
    then show ?thesis by (rule posting_owned_mono) (auto simp: sale_ids_def order_ids_def sales same(1))
  qed
  ultimately show ?thesis
    using all_sales all_orders inv same(1) by (simp add: docs_inv_def order_ids_def)
qed

lemma docs_inv_new_order:
  assumes inv: "docs_inv db" and posts: "postings db' = postings db"
    and orders: "db_orders db' = db_orders db @ [x]" and same: "db_sales db' = db_sales db" "db_next db' = Suc (db_next db)"
    and x: "ro_id x = db_next db" "ro_items x = []"
  shows "docs_inv db'"
proof -
  have "ro_id t < db_next db' \<and> order_ok (db_next db') (postings db') t" if "t \<in> set (db_orders db)" for t
    using inv that posts same(2) order_ok_mono by (fastforce simp: docs_inv_def)
  moreover have "order_ok (db_next db') (postings db') x"
    using fresh_origin(2) [OF inv] x
    by (auto simp: order_ok_def order_wf_def order_booked_def posts moved_other incoming_by_def)
  ultimately have all_orders: "\<forall>t \<in> set (db_orders db'). ro_id t < db_next db' \<and> order_ok (db_next db') (postings db') t"
    using x same(2) by (auto simp: orders)
  have "distinct (order_ids db')" using inv x by (force simp: docs_inv_def order_ids_def orders)
  moreover have "posting_owned (set (sale_ids db')) (set (order_ids db')) e" if "e \<in> set (postings db')" for e
  proof -
    have "posting_owned (set (sale_ids db)) (set (order_ids db)) e" using that inv posts by (simp add: docs_inv_def)
    then show ?thesis by (rule posting_owned_mono) (auto simp: sale_ids_def order_ids_def orders same(1))
  qed
  ultimately show ?thesis
    using all_orders inv same posts by (auto simp: docs_inv_def sale_ids_def)
qed

end
