(* ===== verification/StoreSteps.thy ===== *)
theory StoreSteps
  imports StoreDocuments
begin

text \<open>
  Every operation of the store keeps the invariants of the ledger and of the documents: manual changes,
  sales (created, fulfilled, returned, cancelled) and restock orders (planned, received, cancelled).
\<close>

definition store_inv :: "stock_db \<Rightarrow> bool" where
  "store_inv db \<longleftrightarrow> ledger_inv db \<and> docs_inv db"

lemma store_invD: "store_inv db \<Longrightarrow> ledger_inv db" "store_inv db \<Longrightarrow> docs_inv db"
  by (simp_all add: store_inv_def)

lemma ledger_inv_cong:
  "db_balances db' = db_balances db \<Longrightarrow> db_movements db' = db_movements db \<Longrightarrow> db_products db' = db_products db \<Longrightarrow>
   db_variants db' = db_variants db \<Longrightarrow> ledger_inv db' = ledger_inv db"
  unfolding ledger_inv_def stock_wf_def trail_ok_def trail_def find_balance_def by simp

lemma docs_inv_next:
  assumes "docs_inv db" "postings db' = postings db" "db_sales db' = db_sales db" "db_orders db' = db_orders db"
    "db_next db \<le> db_next db'"
  shows "docs_inv db'"
  using assms order_ok_mono by (fastforce simp: docs_inv_def sale_ids_def order_ids_def)

lemma getOrCreate_ledger:
  assumes inv: "ledger_inv db" and res: "getOrCreateInventoryBalance db conta product variant = Inr (db1, b)"
  shows "ledger_inv db1" "postings db1 = postings db" "same_documents db db1"
proof -
  have wf: "stock_wf db" using inv by (simp add: ledger_inv_def)
  note c = getOrCreate_Inr [OF wf res]
  let ?k = "buildInventoryItemKey product variant"
  have trails: "trail db1 = trail db" by (simp add: trail_def fun_eq_iff c(3))
  have "0 \<le> b_onHand b"
    using find_balanceD [OF c(1)] c(2) by (auto simp: stock_wf_def balance_ok_def)
  have "fits (trail db1 conta' k) (find_balance db1 conta' k)" for conta' k
  proof (cases "(conta', k) = (conta, ?k)")
    case False
    then show ?thesis using c(5) [OF False] inv trails by (simp add: ledger_inv_def trail_ok_def)
  next
    case True
    have "fits (trail db conta ?k) (find_balance db conta ?k)" using inv by (simp add: ledger_inv_def trail_ok_def)
    then show ?thesis
      using True c(1,6) \<open>0 \<le> b_onHand b\<close> by (auto simp: trails counters_of_def)
  qed
  then have "trail_ok db1" unfolding trail_ok_def by blast
  then show "ledger_inv db1" using c(2,3) inv by (simp add: ledger_inv_def)
  show "postings db1 = postings db" using c(3) by (rule postings_cong)
  show "same_documents db db1" by (rule c(4))
qed

lemma applyInventoryChange_iff: "(\<exists>u. applyInventoryChange db c = Inr (db', u)) \<longleftrightarrow> apply_change db c = Inr db'"
  by (auto simp: apply_change_def and_then_Inr_iff)

lemma applyInventoryChange_Inr: "applyInventoryChange db c = Inr (db', u) \<Longrightarrow> apply_change db c = Inr db'"
  using applyInventoryChange_iff by blast

lemma same_documents_docs_inv:
  "same_documents db db' \<Longrightarrow> postings db' = postings db \<Longrightarrow> docs_inv db' = docs_inv db"
  by (intro docs_inv_cong) (simp_all add: same_documents_def)

section \<open>Entries and adjustments\<close>

lemma manual_change_keeps:
  assumes inv: "store_inv db" and res: "apply_change db c = Inr db'" and manual: "manual_posting (change_posting c)"
  shows "store_inv db'"
proof (cases "change_id c \<in> posting_id ` set (postings db)")
  case True
  then have "db' = db" using stock.known [OF _ res] by simp
  then show ?thesis using inv by simp
next
  case False
  have ledger: "ledger_inv db" using inv by (rule store_invD)
  then have "postings db' = postings db @ [change_posting c]" using apply_change_postings False res by blast
  then have "docs_inv db'"
    using docs_inv_manual store_invD(2) [OF inv] apply_change_documents [OF ledger res] manual by blast
  then show ?thesis using stock.keeps [OF ledger res] by (simp add: store_inv_def)
qed

lemma registerInventoryEntry_keeps:
  assumes "store_inv db" "registerInventoryEntry db x = Inr (db', b)"
  shows "store_inv db'"
proof -
  obtain c where "applyInventoryChange db c = Inr (db', b)" "manual_posting (change_posting c)"
    using assms(2) unfolding registerInventoryEntry_def
    by (auto simp: and_then_Inr_iff manual_posting_def change_posting_def split: if_splits)
  then show ?thesis using manual_change_keeps [OF assms(1)] applyInventoryChange_Inr by blast
qed

lemma adjustInventory_keeps:
  assumes inv: "store_inv db" and res: "adjustInventory db x = Inr (db', b)"
  shows "store_inv db'"
proof -
  obtain p v db1 current where create: "getOrCreateInventoryBalance db (aj_contaId x) (p_id p) (map_option v_id v) = Inr (db1, current)"
    and change: "applyInventoryChange db1 (adjust_change x p v current) = Inr (db', b)"
    using res unfolding adjustInventory_def by (auto simp: and_then_Inr_iff split: if_splits)
  have manual: "manual_posting (change_posting (adjust_change x p v current))"
    by (simp add: manual_posting_def change_posting_def adjust_change_def Let_def)
  note c = getOrCreate_ledger [OF store_invD(1) [OF inv] create]
  have "store_inv db1"
    using c(1) same_documents_docs_inv [OF c(3,2)] store_invD(2) [OF inv] by (simp add: store_inv_def)
  then show ?thesis using manual_change_keeps manual applyInventoryChange_Inr [OF change] by blast
qed


section \<open>Sales\<close>

text \<open>A loop that skips some lines is the loop over the others.\<close>

lemma fold_err_skip:
  "(\<And>s x. f s x = (if skip x then Inr s else g s (h x))) \<Longrightarrow>
   fold_err f s xs = fold_err g s (map h (filter (\<lambda>x. \<not> skip x) xs))"
proof (induction xs arbitrary: s)
  case (Cons x xs)
  then show ?case by (cases "g s (h x)") simp_all
qed simp

definition sale_posting :: "string \<Rightarrow> nat \<Rightarrow> movement_type \<Rightarrow> action_key \<Rightarrow> int \<Rightarrow> int \<Rightarrow> sale_item \<Rightarrow> posting" where
  "sale_posting conta sale type action onHand reserved r = \<lparr>po_contaId = conta, po_origin = SALE_ORIGIN sale,
     po_line = Some (si_id r), po_action = action, po_type = type, po_key = sale_item_key r,
     po_onHand = onHand, po_reserved = reserved, po_incoming = 0\<rparr>"

lemma change_posting_sale:
  "change_posting (sale_change conta sale r type onHand reserved cost recalculate action) =
   sale_posting conta sale type action onHand reserved r"
  by (simp add: change_posting_def sale_change_def sale_posting_def sale_item_key_def change_key_def)

lemma moved_lines:
  "(\<forall>r \<in> set rs. po_contaId (p r) = conta \<and> po_origin (p r) = o' \<and> po_key (p r) = sale_item_key r \<and>
     f (p r) = c * outstanding r) \<Longrightarrow> moved f (map p rs) conta o' k = c * units rs k"
proof (induction rs)
  case (Cons r rs)
  then show ?case
    by (simp add: moved_def booked_for_def distrib_left)
qed simp

lemma units_live:
  "list_all sale_item_ok rs \<Longrightarrow> units (filter (\<lambda>r. \<not> skipped_line r) rs) k = units rs k"
  by (induction rs) (auto simp: skipped_line_def sale_item_ok_def outstanding_def)

text \<open>A run of changes for the lines of one sale, each booked once.\<close>

lemma sale_changes:
  assumes inv: "store_inv db" and res: "fold_err apply_change db (map c rs) = Inr db'"
    and post: "\<And>r. r \<in> set rs \<Longrightarrow> change_posting (c r) = p r"
    and line: "\<And>r. r \<in> set rs \<Longrightarrow> po_line (p r) = Some (si_id r)" and ids: "distinct (map si_id rs)"
    and fresh: "\<And>r e. r \<in> set rs \<Longrightarrow> e \<in> set (postings db) \<Longrightarrow> posting_id e \<noteq> posting_id (p r)"
  shows "postings db' = postings db @ map p rs" "ledger_inv db'" "same_documents db db'"
proof -
  have ledger: "ledger_inv db" using inv by (rule store_invD)
  have lines: "map (\<lambda>r. po_line (p r)) rs = map Some (map si_id rs)" using line by simp
  have "distinct (map (\<lambda>r. po_line (p r)) rs)"
    unfolding lines using ids by (auto simp: distinct_map inj_on_def)
  then have "distinct (map (\<lambda>r. posting_id (p r)) rs)"
    by (auto simp: distinct_map posting_id_def inj_on_def)
  note distinct_p = this
  have cid: "change_id (c r) = posting_id (p r)" if "r \<in> set rs" for r
    using post [OF that] posting_id_simps(2) [of "c r"] by simp
  then have same: "map (\<lambda>c. posting_id (change_posting c)) (map c rs) = map (\<lambda>r. posting_id (p r)) rs"
    by simp
  have distinct: "distinct (map (\<lambda>c. posting_id (change_posting c)) (map c rs))"
    unfolding same by (rule distinct_p)
  have "\<forall>c' \<in> set (map c rs). posting_id (change_posting c') \<notin> posting_id ` set (postings db)"
    using fresh cid by (fastforce simp: image_iff)
  then have "postings db' = postings db @ map change_posting (map c rs)"
    using stock.run_appends [OF ledger res distinct] by blast
  then show "postings db' = postings db @ map p rs" using post by simp
  show "ledger_inv db'" by (rule stock.run_keeps [OF ledger res])
  show "same_documents db db'" by (rule changes_documents [OF ledger res])
qed

lemma find_sale_Some:
  "find_sale db conta i = Some s \<Longrightarrow> s \<in> set (db_sales db) \<and> sa_id s = i \<and> sa_contaId s = conta"
  unfolding find_sale_def by (auto dest: find_SomeD)

lemma update_sale_fields [simp]:
  "db_sales (update_sale i f db) = map (\<lambda>s. if sa_id s = i then f s else s) (db_sales db)"
  "db_balances (update_sale i f db) = db_balances db" "db_movements (update_sale i f db) = db_movements db"
  "db_products (update_sale i f db) = db_products db" "db_variants (update_sale i f db) = db_variants db"
  "db_orders (update_sale i f db) = db_orders db" "db_next (update_sale i f db) = db_next db"
  "postings (update_sale i f db) = postings db"
  by (simp_all add: update_sale_def postings_def)

lemma update_sale_ledger [simp]: "ledger_inv (update_sale i f db) = ledger_inv db"
  by (rule ledger_inv_cong) simp_all

text \<open>The close of a sale: its live lines are booked under one action, then its status changes.\<close>

lemma close_sale:
  assumes inv: "store_inv db" and s: "s \<in> set (db_sales db)"
    and res: "fold_err apply_change db (map c (filter (\<lambda>r. \<not> skipped_line r) (sa_items s))) = Inr db1"
    and post: "\<And>r. change_posting (c r) =
      sale_posting (sa_contaId s) (sa_id s) type action (a * outstanding r) (b * outstanding r) r"
    and fresh: "\<And>e. e \<in> set (postings db) \<Longrightarrow> po_origin e = SALE_ORIGIN (sa_id s) \<Longrightarrow> po_action e \<noteq> action"
    and f: "sa_id (f s) = sa_id s" "sa_contaId (f s) = sa_contaId s" "sa_items (f s) = sa_items s"
    and books: "\<And>k. reserved_by (f s) k = reserved_by s k + b * units (sa_items s) k"
      "\<And>k. shipped_by (f s) k = shipped_by s k - a * units (sa_items s) k"
    and action: "action \<in> {K_FULFILL, K_FULFILL_ON_PAYMENT, K_CANCEL}"
    and closed: "sa_inventoryStatus s \<noteq> INV_CANCELED" "sa_inventoryStatus (f s) \<noteq> INV_RESERVED"
      "action = K_CANCEL \<longleftrightarrow> sa_inventoryStatus (f s) = INV_CANCELED"
  shows "store_inv (update_sale (sa_id s) f db1)"
proof -
  let ?live = "filter (\<lambda>r. \<not> skipped_line r) (sa_items s)"
  let ?p = "\<lambda>r. sale_posting (sa_contaId s) (sa_id s) type action (a * outstanding r) (b * outstanding r) r"
  have ok: "sale_ok (postings db) s" using store_invD(2) [OF inv] s by (simp add: docs_inv_def)
  then have wf: "distinct (map si_id (sa_items s))" "list_all sale_item_ok (sa_items s)"
    by (simp_all add: sale_ok_def sale_wf_def)
  have ids: "distinct (map si_id ?live)" using wf(1) by (rule distinct_map_filter)
  have new: "posting_id e \<noteq> posting_id (?p r)" if "e \<in> set (postings db)" for e r
    using fresh [OF that] by (auto simp: posting_id_def sale_posting_def)
  have line: "po_line (?p r) = Some (si_id r)" for r by (simp add: sale_posting_def)
  note run = sale_changes [OF inv res, of ?p, OF post line ids new]
  let ?es = "map ?p ?live"
  have sums: "moved po_reserved ?es (sa_contaId s) (SALE_ORIGIN (sa_id s)) k = b * units (sa_items s) k"
    "moved po_onHand ?es (sa_contaId s) (SALE_ORIGIN (sa_id s)) k = a * units (sa_items s) k" for k
    using moved_lines [of ?live ?p "sa_contaId s" "SALE_ORIGIN (sa_id s)"] units_live [OF wf(2)]
    by (simp_all add: sale_posting_def)
  have old_action: "sale_action (f s) e" if "e \<in> set (postings db)" "po_origin e = SALE_ORIGIN (sa_id s)" for e
    using ok that f closed fresh [OF that] by (auto simp: sale_ok_def sale_action_def split: action_key.splits)
  have new_action: "sale_action (f s) e" if "e \<in> set ?es" for e
    using that f action closed by (auto simp: sale_action_def sale_posting_def)
  have "sale_ok (postings db @ ?es) (f s)"
    using ok f books sums old_action new_action by (auto simp: sale_ok_def sale_wf_def sale_booked_def)
  then have "docs_inv (update_sale (sa_id s) f db1)"
    using run s f by (intro docs_inv_sale [OF store_invD(2) [OF inv], where s = s and f = f and es = ?es])
      (auto simp: same_documents_def sale_posting_def)
  then show ?thesis using run(2) by (simp add: store_inv_def)
qed


lemma fulfill_lines:
  "fold_err (fulfill_line conta i action) db rs =
   fold_err apply_change db (map (\<lambda>r. sale_change conta i r MT_SALE_OUT (- outstanding r) (- outstanding r)
       (map_option moneyToNumber (si_unitCost r)) False action) (filter (\<lambda>r. \<not> skipped_line r) rs))"
  by (rule fold_err_skip) (simp add: fulfill_line_def)

lemma booked_action:
  assumes "store_inv db" "s \<in> set (db_sales db)" "e \<in> set (postings db)" "po_origin e = SALE_ORIGIN (sa_id s)"
  shows "sale_action s e"
  using assms by (auto simp: store_inv_def docs_inv_def sale_ok_def)

text \<open>A reserved sale that is fulfilled, by hand or on payment.\<close>

lemma fulfill_keeps:
  assumes inv: "store_inv db" and s: "s \<in> set (db_sales db)" and reserved: "sa_inventoryStatus s = INV_RESERVED"
    and res: "fold_err (fulfill_line (sa_contaId s) (sa_id s) action) db (sa_items s) = Inr db1"
    and action: "action \<in> {K_FULFILL, K_FULFILL_ON_PAYMENT}"
    and f: "sa_id (f s) = sa_id s" "sa_contaId (f s) = sa_contaId s" "sa_items (f s) = sa_items s"
      "sa_inventoryStatus (f s) = INV_FULFILLED"
  shows "store_inv (update_sale (sa_id s) f db1)"
proof (rule close_sale [OF inv s res [unfolded fulfill_lines], where a = "-1" and b = "-1" and action = action and type = MT_SALE_OUT])
  show "po_action e \<noteq> action" if "e \<in> set (postings db)" "po_origin e = SALE_ORIGIN (sa_id s)" for e
    using booked_action [OF inv s that] reserved action by (auto simp: sale_action_def)
qed (use f reserved action in \<open>auto simp: change_posting_sale reserved_by_def shipped_by_def has_shipped_def\<close>)

lemma fulfillReservedSale_keeps:
  assumes inv: "store_inv db" and res: "fulfillReservedSale db conta i = Inr db'"
  shows "store_inv db'"
proof -
  obtain s where s: "find_sale db conta i = Some s" using res by (auto simp: fulfillReservedSale_def split: option.splits)
  note found = find_sale_Some [OF s]
  show ?thesis
  proof (cases "sa_inventoryStatus s = INV_RESERVED")
    case True
    then obtain db1 where "fold_err (fulfill_line conta i K_FULFILL) db (sa_items s) = Inr db1"
      and db': "db' = update_sale i (\<lambda>s. s\<lparr>sa_inventoryStatus := INV_FULFILLED\<rparr>) db1"
      using res s by (auto simp: fulfillReservedSale_def and_then_Inr_iff split: if_splits)
    then show ?thesis
      using fulfill_keeps [OF inv _ True, of K_FULFILL db1 "\<lambda>s. s\<lparr>sa_inventoryStatus := INV_FULFILLED\<rparr>"] found by simp
  next
    case False
    then show ?thesis using res s inv by (auto simp: fulfillReservedSale_def split: if_splits)
  qed
qed

lemma cancelSaleInventory_keeps:
  assumes inv: "store_inv db" and res: "cancelSaleInventory db conta i = Inr db'"
  shows "store_inv db'"
proof -
  obtain s where s: "find_sale db conta i = Some s" using res by (auto simp: cancelSaleInventory_def split: option.splits)
  then have found: "s \<in> set (db_sales db)" "sa_id s = i" "sa_contaId s = conta" using find_sale_Some by blast+
  let ?f = "\<lambda>s. s\<lparr>sa_inventoryStatus := INV_CANCELED\<rparr>"
  show ?thesis
  proof (cases "sa_inventoryStatus s = INV_CANCELED")
    case True
    then show ?thesis using res s inv by (simp add: cancelSaleInventory_def)
  next
    case open_sale: False
    then obtain db1 where run: "fold_err (restore_line conta i (sa_inventoryStatus s)) db (sa_items s) = Inr db1"
      and db': "db' = update_sale i ?f db1"
      using res s by (auto simp: cancelSaleInventory_def restoreInventoryForCanceledSale_def and_then_Inr_iff)
    have fresh: "po_action e \<noteq> K_CANCEL" if "e \<in> set (postings db)" "po_origin e = SALE_ORIGIN (sa_id s)" for e
      using booked_action [OF inv found(1) that] open_sale by (auto simp: sale_action_def)
    show ?thesis
    proof (cases "sa_inventoryStatus s = INV_RESERVED")
      case True
      have "fold_err (restore_line conta i (sa_inventoryStatus s)) db (sa_items s) =
        fold_err apply_change db (map (\<lambda>r. sale_change conta i r MT_RELEASE 0 (- outstanding r) None False K_CANCEL)
          (filter (\<lambda>r. \<not> skipped_line r) (sa_items s)))"
        by (rule fold_err_skip) (simp add: restore_line_def True)
      note lines = run [unfolded this]
      have "store_inv (update_sale (sa_id s) ?f db1)"
        by (rule close_sale [OF inv found(1) lines, where a = 0 and b = "-1" and type = MT_RELEASE and action = K_CANCEL])
          (use fresh found True in \<open>auto simp: change_posting_sale reserved_by_def shipped_by_def has_shipped_def\<close>)
      then show ?thesis using db' found by simp
    next
      case False
      have "fold_err (restore_line conta i (sa_inventoryStatus s)) db (sa_items s) =
        fold_err apply_change db (map (\<lambda>r. sale_change conta i r MT_RETURN_IN (outstanding r) 0
          (map_option moneyToNumber (si_unitCost r)) (si_unitCost r \<noteq> None) K_CANCEL)
          (filter (\<lambda>r. \<not> skipped_line r) (sa_items s)))"
        by (rule fold_err_skip) (simp add: restore_line_def False)
      note lines = run [unfolded this]
      have "has_shipped s" using False open_sale by (cases "sa_inventoryStatus s") (simp_all add: has_shipped_def)
      then have "store_inv (update_sale (sa_id s) ?f db1)"
        by (intro close_sale [OF inv found(1) lines, where a = 1 and b = 0 and type = MT_RETURN_IN and action = K_CANCEL])
          (use fresh found False open_sale in \<open>auto simp: change_posting_sale reserved_by_def shipped_by_def has_shipped_def\<close>)
      then show ?thesis using db' found by simp
    qed
  qed
qed

text \<open>Links between sales and charges do not concern the stock.\<close>

lemma sale_action_link: "sale_action (s\<lparr>sa_chargeId := c\<rparr>) e = sale_action s e"
  by (cases "po_action e") (simp_all add: sale_action_def)

lemma sale_ok_link: "sale_ok es (s\<lparr>sa_chargeId := c\<rparr>) = sale_ok es s"
  by (simp add: sale_ok_def sale_wf_def sale_booked_def sale_action_link reserved_by_def shipped_by_def has_shipped_def
    del: split_paired_All)

lemma sale_action_fields:
  "sale_action (s\<lparr>sa_chargeId := c, sa_planId := p\<rparr>) e = sale_action s e" "sale_action (s\<lparr>sa_status := st\<rparr>) e = sale_action s e"
  by (cases "po_action e"; simp add: sale_action_def)+

lemma sale_ok_fields:
  "sale_ok es (s\<lparr>sa_chargeId := c, sa_planId := p\<rparr>) = sale_ok es s" "sale_ok es (s\<lparr>sa_status := st\<rparr>) = sale_ok es s"
  by (simp_all add: sale_ok_def sale_wf_def sale_booked_def sale_action_fields reserved_by_def shipped_by_def has_shipped_def
    del: split_paired_All)

text \<open>A change of a sale's record that its stock does not depend on.\<close>

lemma update_sale_keeps:
  assumes inv: "store_inv db" and f: "\<And>s. sa_id (f s) = sa_id s" "\<And>es s. sale_ok es (f s) = sale_ok es s"
  shows "store_inv (update_sale i f db)"
proof -
  let ?g = "\<lambda>s. if sa_id s = i then f s else s"
  have g: "sa_id (?g s) = sa_id s" "sale_ok es (?g s) = sale_ok es s" for s es by (simp_all add: f)
  have ids: "sale_ids (update_sale i f db) = sale_ids db" "order_ids (update_sale i f db) = order_ids db"
    using g(1) by (simp_all add: sale_ids_def order_ids_def del: if_split)
  have "sa_id s < db_next db \<and> sale_ok (postings db) s" if s: "s \<in> set (db_sales (update_sale i f db))" for s
  proof -
    obtain t where "t \<in> set (db_sales db)" "s = ?g t" using s by auto
    then show ?thesis using store_invD(2) [OF inv] g by (simp add: docs_inv_def)
  qed
  then have "docs_inv (update_sale i f db)"
    using store_invD(2) [OF inv] unfolding docs_inv_def ids by simp
  then show ?thesis using store_invD(1) [OF inv] by (simp add: store_inv_def)
qed

lemma cancel_sale_records_keeps:
  "store_inv db \<Longrightarrow> cancel_sale_records db conta i = Inr db' \<Longrightarrow> store_inv db'"
  unfolding cancel_sale_records_def
  by (auto simp: and_then_Inr_iff sale_ok_fields intro!: update_sale_keeps intro: cancelSaleInventory_keeps)

lemma attach_charge_keeps: "store_inv db \<Longrightarrow> attach_charge db i charge plan = Inr db' \<Longrightarrow> store_inv db'"
  unfolding attach_charge_def
  by (auto simp: sale_ok_fields split: if_splits intro!: update_sale_keeps)

lemma link_created_charge_keeps:
  "store_inv db \<Longrightarrow> link_created_charge db conta i installment created = Inr db' \<Longrightarrow> store_inv db'"
  unfolding link_created_charge_def by (auto split: if_splits list.splits intro: attach_charge_keeps)

lemma link_plan_sales_keeps:
  assumes inv: "store_inv db" and res: "link_plan_sales db conta plan charge = Inr db'"
  shows "store_inv db'"
proof -
  let ?g = "\<lambda>s. if sa_contaId s = conta \<and> sa_planId s = Some plan \<and> sa_chargeId s = None then s\<lparr>sa_chargeId := Some charge\<rparr> else s"
  have db': "db' = db\<lparr>db_sales := map ?g (db_sales db)\<rparr>"
    using res by (auto simp: link_plan_sales_def Let_def split: if_splits)
  have g: "sa_id (?g s) = sa_id s" "sale_ok es (?g s) = sale_ok es s" for s es by (simp_all add: sale_ok_link)
  have ids: "sale_ids db' = sale_ids db" "order_ids db' = order_ids db" "postings db' = postings db"
    using g(1) by (simp_all add: db' sale_ids_def order_ids_def postings_def del: if_split)
  have "\<forall>s \<in> set (db_sales db'). sa_id s < db_next db' \<and> sale_ok (postings db') s"
    unfolding ids(3) using store_invD(2) [OF inv] by (auto simp: docs_inv_def db' sale_ok_link)
  then have "docs_inv db'" using store_invD(2) [OF inv] unfolding docs_inv_def ids by (simp add: db')
  moreover have "ledger_inv db'" using store_invD(1) [OF inv] ledger_inv_cong [of db' db] by (simp add: db')
  ultimately show ?thesis by (simp add: store_inv_def)
qed

lemma linkSale_keeps:
  "store_inv db \<Longrightarrow> linkSaleToFirstInstallmentCharge db conta plan = Inr (db', r) \<Longrightarrow> store_inv db'"
  unfolding linkSaleToFirstInstallmentCharge_def
  by (auto simp: and_then_Inr_iff split: option.splits intro: link_plan_sales_keeps)

lemma sale_of_charge_Some:
  "sale_of_charge db conta charge = Some s \<Longrightarrow> s \<in> set (db_sales db) \<and> sa_contaId s = conta"
  unfolding sale_of_charge_def by (auto dest: find_SomeD)

lemma read_paid_sale_keeps:
  assumes "store_inv db" "read_paid_sale db conta charge = Inr (db', r)"
  shows "store_inv db'" "r = Some s \<Longrightarrow> s \<in> set (db_sales db') \<and> sa_contaId s = conta"
  using assms unfolding read_paid_sale_def
  by (auto simp: and_then_Inr_iff split: option.splits if_splits intro: link_plan_sales_keeps dest: sale_of_charge_Some)

lemma fulfillReservedSaleOnPayment_keeps:
  assumes inv: "store_inv db" and res: "fulfillReservedSaleOnPayment db conta charge = (db', r)"
  shows "store_inv db'"
proof (cases "read_paid_sale db conta charge")
  case (Inl e)
  then show ?thesis using res inv by (simp add: fulfillReservedSaleOnPayment_def)
next
  case (Inr x)
  then obtain db1 os where read: "read_paid_sale db conta charge = Inr (db1, os)" by (cases x) simp
  note keep = read_paid_sale_keeps [OF inv read]
  show ?thesis
  proof (cases "db' = db1")
    case True
    then show ?thesis using keep(1) by simp
  next
    case False
    then obtain s where s: "os = Some s" "awaits_payment s" "commit_paid_sale db1 conta s = Inr db'"
      using res read by (auto simp: fulfillReservedSaleOnPayment_def split: option.splits if_splits sum.splits)
    have found: "s \<in> set (db_sales db1)" "sa_contaId s = conta" "sa_inventoryStatus s = INV_RESERVED"
      using keep(2) [OF s(1)] s(2) by (simp_all add: awaits_payment_def)
    let ?f = "\<lambda>s. s\<lparr>sa_inventoryStatus := INV_FULFILLED, sa_status := SALE_CONCLUIDA\<rparr>"
    obtain db2 where "fold_err (fulfill_line (sa_contaId s) (sa_id s) K_FULFILL_ON_PAYMENT) db1 (sa_items s) = Inr db2"
      and "db' = update_sale (sa_id s) ?f db2"
      using s(3) found by (auto simp: commit_paid_sale_def and_then_Inr_iff)
    then show ?thesis using fulfill_keeps [OF keep(1) found(1,3), of K_FULFILL_ON_PAYMENT db2 ?f] by simp
  qed
qed

end
