(* ===== verification/StoreSales.thy ===== *)
theory StoreSales
  imports StoreSteps
begin

text \<open>
  The creation of a sale and its returns keep the invariants.
\<close>

section \<open>The creation of a sale\<close>

definition line_posting :: "string \<Rightarrow> nat \<Rightarrow> inventory_mode \<Rightarrow> sale_item \<Rightarrow> posting" where
  "line_posting conta sale mode r = sale_posting conta sale
     (if mode = MODE_RESERVE then MT_RESERVE else MT_SALE_OUT) (if mode = MODE_RESERVE then K_RESERVE else K_SALE_OUT)
     (if mode = MODE_IMMEDIATE then - si_quantity r else 0) (if mode = MODE_RESERVE then si_quantity r else 0) r"

lemma sale_line_step_Inr:
  assumes inv: "ledger_inv db" and res: "sale_line_step conta sale mode db (r, u) = Inr db'"
    and fresh: "posting_id (line_posting conta sale mode r) \<notin> posting_id ` set (postings db)"
  shows "postings db' = postings db @ [line_posting conta sale mode r]" "ledger_inv db'" "same_documents db db'"
    and "truthy (si_productId r)"
proof -
  obtain db1 b cost where create: "getOrCreateInventoryBalance db conta (the (si_productId r)) (si_variantId r) = Inr (db1, b)"
    and change: "apply_change db1 (sale_change conta sale r
         (if mode = MODE_RESERVE then MT_RESERVE else MT_SALE_OUT)
         (if mode = MODE_IMMEDIATE then - si_quantity r else 0)
         (if mode = MODE_RESERVE then si_quantity r else 0) cost
         False (if mode = MODE_RESERVE then K_RESERVE else K_SALE_OUT)) = Inr db'"
    and live: "truthy (si_productId r)"
    using res unfolding sale_line_step_def
    by (auto simp: and_then_Inr_iff simp del: inventory_mode.split split: if_splits)
  note c = getOrCreate_ledger [OF inv create]
  let ?c = "sale_change conta sale r
         (if mode = MODE_RESERVE then MT_RESERVE else MT_SALE_OUT)
         (if mode = MODE_IMMEDIATE then - si_quantity r else 0)
         (if mode = MODE_RESERVE then si_quantity r else 0) cost
         False (if mode = MODE_RESERVE then K_RESERVE else K_SALE_OUT)"
  have post: "change_posting ?c = line_posting conta sale mode r"
    unfolding line_posting_def by (rule change_posting_sale)
  have "change_id ?c \<notin> posting_id ` set (postings db1)"
    using fresh posting_id_simps(2) [of ?c] unfolding post c(2) by simp
  then show "postings db' = postings db @ [line_posting conta sale mode r]"
    using apply_change_postings [OF c(1) _ change] post c(2) by simp
  show "ledger_inv db'" by (rule apply_change_ledger [OF c(1) change])
  show "same_documents db db'"
    using same_documents_trans [OF c(3) apply_change_documents [OF c(1) change]] .
  show "truthy (si_productId r)" by (rule live)
qed

text \<open>A loop whose steps each book one posting, all different and new.\<close>

lemma fold_books:
  assumes "fold_err f db xs = Inr db'" "ledger_inv db" "distinct (map (\<lambda>x. posting_id (p x)) xs)"
    and "\<forall>x \<in> set xs. posting_id (p x) \<notin> posting_id ` set (postings db)"
    and step: "\<And>db x db'. x \<in> set xs \<Longrightarrow> ledger_inv db \<Longrightarrow> posting_id (p x) \<notin> posting_id ` set (postings db) \<Longrightarrow>
      f db x = Inr db' \<Longrightarrow> postings db' = postings db @ [p x] \<and> ledger_inv db' \<and> same_documents db db' \<and> q x"
  shows "postings db' = postings db @ map p xs \<and> ledger_inv db' \<and> same_documents db db' \<and> (\<forall>x \<in> set xs. q x)"
  using assms
proof (induction xs arbitrary: db)
  case (Cons x xs)
  from Cons.prems(1) obtain u where u: "f db x = Inr u" "fold_err f u xs = Inr db'" by (auto simp: and_then_Inr_iff)
  have head: "postings u = postings db @ [p x] \<and> ledger_inv u \<and> same_documents db u \<and> q x"
    using Cons.prems(5) [OF _ Cons.prems(2) _ u(1)] Cons.prems(4) by simp
  have "\<forall>y \<in> set xs. posting_id (p y) \<notin> posting_id ` set (postings u)"
    using Cons.prems(3,4) head by (auto simp: rev_image_eqI)
  then have fresh: "\<forall>y \<in> set xs. posting_id (p y) \<notin> posting_id ` set (postings u)" .
  have "postings db' = postings u @ map p xs \<and> ledger_inv db' \<and> same_documents u db' \<and> (\<forall>x \<in> set xs. q x)"
  proof (rule Cons.IH [OF u(2) _ _ fresh])
    show "ledger_inv u" using head by blast
    show "distinct (map (\<lambda>x. posting_id (p x)) xs)" using Cons.prems(3) by simp
    show "postings db' = postings db @ [p x] \<and> ledger_inv db' \<and> same_documents db db' \<and> q x"
      if "x \<in> set xs" "ledger_inv db" "posting_id (p x) \<notin> posting_id ` set (postings db)" "f db x = Inr db'" for db x db'
      using that by (intro Cons.prems(5)) simp_all
  qed
  then show ?case using head same_documents_trans by auto
next
  case Nil
  show ?case using Nil.prems(1,2) by simp
qed

text \<open>The items of a new sale carry the prepared lines under consecutive numbers.\<close>

definition item_of_line :: "prepared_line \<Rightarrow> sale_item \<Rightarrow> bool" where
  "item_of_line l r \<longleftrightarrow> si_productId r = Some (pl_productId l) \<and> si_variantId r = pl_variantId l \<and>
     si_quantity r = pl_quantity l \<and> si_returned r = 0"

lemma create_sale_items_Inr:
  "create_sale_items i lines = Inr items \<Longrightarrow> list_all2 item_of_line lines items \<and> map si_id items = [i..<i + length lines]"
proof (induction lines arbitrary: i items)
  case (Cons l lines)
  then obtain r rs where r: "create_sale_item i l = Inr r" and rs: "create_sale_items (Suc i) lines = Inr rs"
    and items: "items = r # rs"
    by (auto simp: and_then_Inr_iff)
  have "item_of_line l r" "si_id r = i"
    using r by (auto simp: create_sale_item_def and_then_Inr_iff item_of_line_def dest: int_column_Inr)
  moreover have "[i..<i + length (l # lines)] = i # [Suc i..<Suc i + length lines]"
    using upt_conv_Cons [of i "i + length (l # lines)"] by simp
  ultimately show ?case using Cons.IH [OF rs] items by (simp del: upt_Suc)
qed simp

definition lines_ok :: "prepared_line list \<Rightarrow> bool" where
  "lines_ok lines \<longleftrightarrow> list_all (\<lambda>l. 0 < pl_quantity l) lines"

lemma create_sale_keeps:
  assumes inv: "store_inv db" and res: "create_sale db conta uiRequestId final mode lines = Inr (db', i)"
    and lines: "lines_ok lines"
  shows "store_inv db'"
proof (cases "find (\<lambda>s. sa_contaId s = conta \<and> sa_uiRequestId s = uiRequestId) (db_sales db)")
  case (Some s)
  then show ?thesis using res inv by (simp add: create_sale_def)
next
  case None
  let ?sale = "db_next db"
  obtain items where items: "create_sale_items (Suc ?sale) lines = Inr items"
    using res None by (auto simp: create_sale_def Let_def and_then_Inr_iff)
  define s where "s = \<lparr>sa_id = ?sale, sa_contaId = conta, sa_uiRequestId = uiRequestId,
     sa_status = (if final = FIN_RECEBIMENTO_PRESENCIAL then SALE_CONCLUIDA else SALE_PENDENTE),
     sa_finalization = final, sa_mode = mode,
     sa_inventoryStatus = (if mode = MODE_RESERVE then INV_RESERVED else INV_FULFILLED),
     sa_chargeId = None, sa_planId = None, sa_items = items\<rparr>"
  define db1 where "db1 = db\<lparr>db_sales := db_sales db @ [s], db_next := Suc ?sale + length lines\<rparr>"
  let ?pairs = "zip items (map (\<lambda>l. Some (pl_unitCost l)) lines)"
  let ?p = "\<lambda>x. line_posting conta ?sale mode (fst x)"
  have run: "fold_err (sale_line_step conta ?sale mode) db1 ?pairs = Inr db'"
    using res None items by (auto simp: create_sale_def Let_def and_then_Inr_iff applySaleInventoryOnCreate_def db1_def s_def)
  note made = create_sale_items_Inr [OF items]
  have len: "length items = length lines" using made list_all2_lengthD by force
  have fsts: "map fst ?pairs = items" using len by simp
  have ledger1: "ledger_inv db1" using store_invD(1) [OF inv] ledger_inv_cong [of db1 db] by (simp add: db1_def)
  have posts1: "postings db1 = postings db" by (rule postings_cong) (simp add: db1_def)
  have "map (\<lambda>x. po_line (?p x)) ?pairs = map Some (map si_id (map fst ?pairs))"
    by (simp add: line_posting_def sale_posting_def)
  then have lines_of: "map (\<lambda>x. po_line (?p x)) ?pairs = map Some (map si_id items)" unfolding fsts .
  have "distinct (map (\<lambda>x. po_line (?p x)) ?pairs)"
    unfolding lines_of using made by (auto simp: distinct_map inj_on_def)
  then have distinct: "distinct (map (\<lambda>x. posting_id (?p x)) ?pairs)"
    by (auto simp: distinct_map posting_id_def inj_on_def)
  have fresh: "\<forall>x \<in> set ?pairs. posting_id (?p x) \<notin> posting_id ` set (postings db1)"
    using fresh_origin(1) [OF store_invD(2) [OF inv]] unfolding posts1
    by (fastforce simp: posting_id_def line_posting_def sale_posting_def)
  have "postings db' = postings db1 @ map ?p ?pairs \<and> ledger_inv db' \<and> same_documents db1 db' \<and>
     (\<forall>x \<in> set ?pairs. truthy (si_productId (fst x)))"
  proof (rule fold_books [OF run ledger1 distinct fresh])
    show "postings db' = postings db @ [?p x] \<and> ledger_inv db' \<and> same_documents db db' \<and> truthy (si_productId (fst x))"
      if "ledger_inv db" "posting_id (?p x) \<notin> posting_id ` set (postings db)"
        "sale_line_step conta ?sale mode db x = Inr db'" for db x db'
      using sale_line_step_Inr [of db conta ?sale mode "fst x" "snd x" db'] that by simp
  qed
  moreover have "map ?p ?pairs = map (line_posting conta ?sale mode) (map fst ?pairs)" by simp
  then have "map ?p ?pairs = map (line_posting conta ?sale mode) items" unfolding fsts .
  ultimately have after: "postings db' = postings db @ map (line_posting conta ?sale mode) items" "ledger_inv db'"
    "same_documents db1 db'" and live_pairs: "\<forall>r \<in> fst ` set ?pairs. truthy (si_productId r)"
    using posts1 by simp_all
  have live: "\<forall>r \<in> set items. truthy (si_productId r)"
    using live_pairs unfolding list.set_map [symmetric] fsts .
  have item: "sale_item_ok r \<and> outstanding r = si_quantity r" if r: "r \<in> set items" for r
  proof -
    obtain j where j: "j < length items" "items ! j = r" using r by (auto simp: in_set_conv_nth)
    then have "item_of_line (lines ! j) r" "lines ! j \<in> set lines" using made len by (auto simp: list_all2_conv_all_nth)
    then show ?thesis using live r lines
      by (auto simp: item_of_line_def sale_item_ok_def lines_ok_def list_all_iff outstanding_def)
  qed
  let ?es = "map (line_posting conta ?sale mode) items"
  have sums: "moved po_reserved ?es conta (SALE_ORIGIN ?sale) k = (if mode = MODE_RESERVE then 1 else 0) * units items k"
    "moved po_onHand ?es conta (SALE_ORIGIN ?sale) k = (if mode = MODE_IMMEDIATE then -1 else 0) * units items k" for k
    using item by (intro moved_lines; simp add: line_posting_def sale_posting_def)+
  have wf: "sale_wf s" using made item by (simp add: sale_wf_def s_def list_all_iff)
  have "sale_ok ?es s"
    using sums wf by (cases mode)
      (auto simp: sale_ok_def sale_booked_def s_def reserved_by_def shipped_by_def has_shipped_def
         sale_action_def line_posting_def sale_posting_def)
  then have "docs_inv db'"
    using after by (intro docs_inv_new_sale [OF store_invD(2) [OF inv], where s = s and es = ?es])
      (auto simp: same_documents_def db1_def s_def line_posting_def sale_posting_def)
  then show ?thesis using after(2) by (simp add: store_inv_def)
qed


section \<open>Returns\<close>

text \<open>An item up to what was returned of it.\<close>

definition strip_item :: "sale_item \<Rightarrow> sale_item" where
  "strip_item r = r\<lparr>si_returned := 0\<rparr>"

definition return_units :: "(sale_item \<Rightarrow> bool) \<Rightarrow> int \<Rightarrow> sale_item \<Rightarrow> sale_item" where
  "return_units matches quantity r = (if matches r then r\<lparr>si_returned := si_returned r + quantity\<rparr> else r)"

lemma return_units_fields [simp]:
  "si_id (return_units m q r) = si_id r" "sale_item_key (return_units m q r) = sale_item_key r"
  "strip_item (return_units m q r) = strip_item r"
  by (simp_all add: return_units_def sale_item_key_def strip_item_def)

lemma strip_fields:
  "strip_item r = strip_item r' \<Longrightarrow> si_id r = si_id r'"
  "strip_item r = strip_item r' \<Longrightarrow> si_returned r = si_returned r' \<Longrightarrow> r = r'"
  unfolding strip_item_def by (cases r; cases r'; simp)+

lemma return_units_outstanding:
  "0 \<le> q \<Longrightarrow> outstanding (return_units (return_item i n q) q r) = outstanding r - (if return_item i n q r then q else 0)"
  by (auto simp: return_units_def return_item_def outstanding_def)

lemma units_return:
  "0 \<le> q \<Longrightarrow> units (map (return_units (return_item i n q) q) rs) k =
   units rs k - q * int (length (filter (\<lambda>r. return_item i n q r \<and> sale_item_key r = k) rs))"
  by (induction rs) (auto simp: return_units_outstanding algebra_simps)

definition under_return :: "string \<Rightarrow> store_sale \<Rightarrow> stock_db \<Rightarrow> bool" where
  "under_return conta s db \<longleftrightarrow> store_inv db \<and> (\<exists>t \<in> set (db_sales db). sa_id t = sa_id s \<and> sa_contaId t = conta \<and>
     has_shipped t \<and> map strip_item (sa_items t) = map strip_item (sa_items s))"

lemma check_return_line_Inr:
  "check_return_line s l = Inr (r, q) \<Longrightarrow> r \<in> set (sa_items s) \<and> 0 < q \<and> q \<le> si_quantity r - si_returned r"
  unfolding check_return_line_def find_item_def
  by (cases "rl_quantity l") (auto simp: num_le_def split: option.splits if_splits dest!: find_SomeD)

lemma sale_rows:
  assumes "docs_inv db" "t \<in> set (db_sales db)" "sa_id t = i"
  shows "filter (\<lambda>t. sa_id t = i) (db_sales db) = [t]"
  using assms by (intro filter_single [where f = sa_id]) (auto simp: docs_inv_def sale_ids_def)

lemma return_sale_ok:
  assumes ok: "sale_ok es t" and shipped: "has_shipped t" and q: "0 < q"
    and row: "filter (return_item (si_id r) (si_returned r) q) (sa_items t) = [r]"
    and e: "e = sale_posting (sa_contaId t) (sa_id t) MT_RETURN_IN (K_RETURN (si_returned r + q)) q 0 r"
  shows "sale_ok (es @ [e]) (t\<lparr>sa_items := map (return_units (return_item (si_id r) (si_returned r) q) q) (sa_items t)\<rparr>)"
    (is "sale_ok _ ?t'")
proof -
  let ?m = "return_item (si_id r) (si_returned r) q"
  have "r \<in> set (filter ?m (sa_items t))" unfolding row by simp
  then have r: "r \<in> set (sa_items t)" "?m r" by simp_all
  have wf: "distinct (map si_id (sa_items t))" "list_all sale_item_ok (sa_items t)"
    using ok by (simp_all add: sale_ok_def sale_wf_def)
  have item_ok: "sale_item_ok (return_units ?m q x)" if "sale_item_ok x" for x
    using that q by (auto simp: sale_item_ok_def return_units_def return_item_def)
  have "sale_wf ?t'"
    using wf item_ok by (auto simp: sale_wf_def list_all_iff comp_def)
  moreover have "filter (\<lambda>x. ?m x \<and> sale_item_key x = k) (sa_items t) = (if sale_item_key r = k then [r] else [])" for k
    using row by (simp flip: filter_filter [where Q = ?m])
  then have units: "units (map (return_units ?m q) (sa_items t)) k = units (sa_items t) k - (if sale_item_key r = k then q else 0)" for k
    using q by (simp add: units_return)
  have "sale_booked (es @ [e]) ?t'"
    using ok shipped units
    by (auto simp: sale_ok_def sale_booked_def e moved_single booked_for_def sale_posting_def reserved_by_def shipped_by_def
        has_shipped_def)
  moreover have "sale_action ?t' e'" if "e' \<in> set es" "po_origin e' = SALE_ORIGIN (sa_id t)" for e'
  proof -
    have act: "sale_action t e'" using ok that by (simp add: sale_ok_def)
    have "\<exists>x \<in> set (sa_items ?t'). po_line e' = Some (si_id x) \<and> n \<le> si_returned x"
      if old: "\<exists>x \<in> set (sa_items t). po_line e' = Some (si_id x) \<and> n \<le> si_returned x" for n
    proof -
      obtain x where x: "x \<in> set (sa_items t)" "po_line e' = Some (si_id x)" "n \<le> si_returned x" using old by blast
      have "n \<le> si_returned (return_units ?m q x)" using x(3) q by (simp add: return_units_def)
      then show ?thesis using x by (intro bexI [of _ "return_units ?m q x"]) simp_all
    qed
    then show ?thesis using act by (auto simp: sale_action_def split: action_key.splits)
  qed
  moreover have "return_units ?m q r \<in> set (sa_items ?t')" using r by simp
  then have "sale_action ?t' e"
    using r(2) by (auto simp: sale_action_def e sale_posting_def return_units_def return_item_def intro!: bexI [of _ "return_units ?m q r"])
  ultimately show ?thesis by (auto simp: sale_ok_def e sale_posting_def)
qed


lemma return_line_step_keeps:
  assumes pre: "under_return conta s db" and wf: "sale_wf s"
    and res: "return_line_step conta s db l = Inr db'"
  shows "under_return conta s db'"
proof -
  obtain t where inv: "store_inv db" and t: "t \<in> set (db_sales db)" "sa_id t = sa_id s" "sa_contaId t = conta" "has_shipped t"
    and items: "map strip_item (sa_items t) = map strip_item (sa_items s)"
    using pre by (auto simp: under_return_def)
  obtain r q where check: "check_return_line s l = Inr (r, q)"
    using res by (auto simp: return_line_step_def and_then_Inr_iff)
  note rq = check_return_line_Inr [OF check]
  let ?m = "return_item (si_id r) (si_returned r) q"
  let ?f = "\<lambda>t. t\<lparr>sa_items := map (return_units ?m q) (sa_items t)\<rparr>"
  let ?e = "sale_posting (sa_contaId t) (sa_id t) MT_RETURN_IN (K_RETURN (si_returned r + q)) q 0 r"
  let ?c = "sale_change conta (sa_id s) r MT_RETURN_IN q 0 (map_option moneyToNumber (si_unitCost r))
            (si_unitCost r \<noteq> None) (K_RETURN (si_returned r + q))"
  have rows: "concat (map sa_items (filter (\<lambda>t. sa_id t = sa_id s) (db_sales db))) = sa_items t"
    using sale_rows [OF store_invD(2) [OF inv] t(1,2)] by simp
  have one: "length (filter ?m (sa_items t)) = 1" and change: "apply_change (update_sale (sa_id s) ?f db) ?c = Inr db'"
    using res check rows
    by (auto simp: return_line_step_def Let_def return_units_def [abs_def] split: if_splits)
  obtain r' where r': "filter ?m (sa_items t) = [r']" using one by (auto simp: length_Suc_conv)
  then have "r' \<in> set (filter ?m (sa_items t))" by simp
  then have m: "r' \<in> set (sa_items t)" "?m r'" by simp_all
  have "strip_item r' \<in> set (map strip_item (sa_items s))" using m(1) unfolding items [symmetric] by simp
  then obtain x where x: "x \<in> set (sa_items s)" "strip_item r' = strip_item x" by auto
  have "si_id x = si_id r" using strip_fields(1) [OF x(2)] m(2) by (simp add: return_item_def)
  then have "x = r" using wf x(1) rq unfolding sale_wf_def distinct_map inj_on_def by blast
  then have "strip_item r' = strip_item r" using x(2) by simp
  then have "r' = r" by (rule strip_fields(2)) (use m(2) in \<open>simp add: return_item_def\<close>)
  then have row: "filter ?m (sa_items t) = [r]" using r' by simp
  have ok: "sale_ok (postings db) t" using store_invD(2) [OF inv] t(1) by (simp add: docs_inv_def)
  have post: "change_posting ?c = ?e" using t by (simp add: change_posting_sale)
  have "posting_id e \<noteq> posting_id ?e" if e: "e \<in> set (postings db)" for e
  proof
    assume same: "posting_id e = posting_id ?e"
    then have "sale_action t e" using ok e by (auto simp: sale_ok_def posting_id_def sale_posting_def)
    then obtain y where "y \<in> set (sa_items t)" "si_id y = si_id r" "si_returned r + q \<le> si_returned y"
      using same by (auto simp: sale_action_def posting_id_def sale_posting_def)
    moreover have "distinct (map si_id (sa_items t))" using ok by (simp add: sale_ok_def sale_wf_def)
    ultimately have "si_returned r + q \<le> si_returned r" using m(1) \<open>r' = r\<close> by (auto simp: distinct_map inj_on_def)
    then show False using rq by simp
  qed
  then have "posting_id ?e \<notin> posting_id ` set (postings db)" by (metis imageE)
  moreover have "change_id ?c = posting_id ?e" using posting_id_simps(2) [of ?c] unfolding post by (rule sym)
  ultimately have fresh: "change_id ?c \<notin> posting_id ` set (postings (update_sale (sa_id s) ?f db))"
    by (simp only: update_sale_fields not_False_eq_True)
  have ledger: "ledger_inv (update_sale (sa_id s) ?f db)" using store_invD(1) [OF inv] by simp
  have posts: "postings db' = postings db @ [?e]"
    using apply_change_postings [OF ledger fresh change] post by simp
  have docs: "same_documents (update_sale (sa_id s) ?f db) db'" by (rule apply_change_documents [OF ledger change])
  have "docs_inv db'"
    using return_sale_ok [OF ok t(4) _ row refl] rq posts docs t
    by (intro docs_inv_sale [OF store_invD(2) [OF inv], where s = t and f = ?f and es = "[?e]" and i = "sa_id s"])
      (simp_all add: same_documents_def sale_posting_def)
  then have "store_inv db'" using apply_change_ledger [OF ledger change] by (simp add: store_inv_def)
  moreover have "?f t \<in> set (db_sales db')" using docs t by (auto simp: same_documents_def rev_image_eqI)
  moreover have "map strip_item (sa_items (?f t)) = map strip_item (sa_items s)"
    using items by (simp add: comp_def)
  ultimately show ?thesis using t by (auto simp: under_return_def has_shipped_def intro!: bexI [of _ "?f t"])
qed

lemma returned_status_shipped: "returned_status items \<in> {INV_FULFILLED, INV_RETURNED_PARTIAL, INV_RETURNED_TOTAL}"
  by (simp add: returned_status_def)

lemma sale_ok_shipped_status:
  assumes "sale_ok es t" "has_shipped t" "st \<in> {INV_FULFILLED, INV_RETURNED_PARTIAL, INV_RETURNED_TOTAL}"
  shows "sale_ok es (t\<lparr>sa_inventoryStatus := st\<rparr>)"
proof -
  have "sale_action (t\<lparr>sa_inventoryStatus := st\<rparr>) e" if "sale_action t e" for e
    using that assms(2,3) by (auto simp: sale_action_def has_shipped_def split: action_key.splits)
  then show ?thesis
    using assms by (auto simp: sale_ok_def sale_wf_def sale_booked_def reserved_by_def shipped_by_def has_shipped_def)
qed

lemma return_transaction_keeps:
  assumes inv: "store_inv db" and res: "return_transaction db conta sale requestId fingerprint items = Inr (db', r)"
  shows "store_inv db'"
proof (cases "find_return db conta requestId")
  case (Some t)
  then show ?thesis using res inv by (auto simp: return_transaction_def and_then_Inr_iff)
next
  case None
  obtain s where s: "find_sale db conta sale = Some s"
    using res None by (auto simp: return_transaction_def split: option.splits)
  note found = find_sale_Some [OF s]
  obtain ret db1 st where
    shipped: "sa_inventoryStatus s \<noteq> INV_RESERVED" "sa_inventoryStatus s \<noteq> INV_CANCELED"
    and run: "fold_err (return_line_step conta s) (db\<lparr>db_returns := db_returns db @ [ret], db_next := Suc (db_next db)\<rparr>) items = Inr db1"
    and st: "st = (case find_sale db1 conta sale of None \<Rightarrow> INV_FULFILLED | Some s' \<Rightarrow> returned_status (sa_items s'))"
    and db': "db' = update_sale sale (\<lambda>t. t\<lparr>sa_inventoryStatus := st\<rparr>) db1"
    using res None s unfolding return_transaction_def Let_def by (auto simp: and_then_Inr_iff split: if_splits)
  let ?db0 = "db\<lparr>db_returns := db_returns db @ [ret], db_next := Suc (db_next db)\<rparr>"
  have "has_shipped s" using shipped by (cases "sa_inventoryStatus s") (simp_all add: has_shipped_def)
  moreover have "ledger_inv ?db0" using store_invD(1) [OF inv] ledger_inv_cong [of ?db0 db] by simp
  moreover have "docs_inv ?db0"
    by (rule docs_inv_next [OF store_invD(2) [OF inv]]) (simp_all add: postings_def)
  ultimately have "under_return conta s ?db0"
    using found by (auto simp: under_return_def store_inv_def)
  moreover have wf: "sale_wf s" using store_invD(2) [OF inv] found by (auto simp: docs_inv_def sale_ok_def)
  ultimately have after: "under_return conta s db1"
    using fold_err_invariant [OF run, of "under_return conta s"] return_line_step_keeps by blast
  then obtain t where inv1: "store_inv db1" and t: "t \<in> set (db_sales db1)" "sa_id t = sale" "has_shipped t"
    using found by (auto simp: under_return_def)
  have ok: "sale_ok (postings db1) t" using store_invD(2) [OF inv1] t(1) by (simp add: docs_inv_def)
  have "st \<in> {INV_FULFILLED, INV_RETURNED_PARTIAL, INV_RETURNED_TOTAL}"
    using returned_status_shipped by (auto simp: st split: option.splits)
  then have "docs_inv db'"
    using sale_ok_shipped_status [OF ok t(3)] t
    by (intro docs_inv_sale [OF store_invD(2) [OF inv1], where s = t and es = "[]" and i = sale and f = "\<lambda>t. t\<lparr>sa_inventoryStatus := st\<rparr>"])
      (simp_all add: db')
  then show ?thesis using store_invD(1) [OF inv1] by (simp add: store_inv_def db')
qed

lemma registerSaleReturn_keeps:
  assumes "store_inv db" "registerSaleReturn db conta sale requestId fingerprint items = Inr (db', r)"
  shows "store_inv db'"
  using assms return_transaction_keeps unfolding registerSaleReturn_def
  by (auto simp: and_then_Inr_iff split: if_splits sum.splits option.splits)

end
