(* ===== verification/StoreOrders.thy ===== *)
theory StoreOrders
  imports StoreSteps
begin

text \<open>
  Restock orders keep the invariants: planned, received - each item once per delivery - and cancelled.
\<close>

lemma update_order_fields [simp]:
  "db_orders (update_order i f db) = map (\<lambda>x. if ro_id x = i then f x else x) (db_orders db)"
  "db_balances (update_order i f db) = db_balances db" "db_movements (update_order i f db) = db_movements db"
  "db_products (update_order i f db) = db_products db" "db_variants (update_order i f db) = db_variants db"
  "db_sales (update_order i f db) = db_sales db" "db_next (update_order i f db) = db_next db"
  "postings (update_order i f db) = postings db"
  by (simp_all add: update_order_def postings_def)

lemma update_order_ledger [simp]: "ledger_inv (update_order i f db) = ledger_inv db"
  by (rule ledger_inv_cong) simp_all

definition restock_posting :: "string \<Rightarrow> nat \<Rightarrow> action_key \<Rightarrow> int \<Rightarrow> int \<Rightarrow> restock_item \<Rightarrow> posting" where
  "restock_posting conta order action onHand incoming r = \<lparr>po_contaId = conta, po_origin = RESTOCK_ORDER order,
     po_line = Some (ri_id r), po_action = action, po_type = MT_RESTOCK_IN, po_key = restock_key r,
     po_onHand = onHand, po_reserved = 0, po_incoming = incoming\<rparr>"

lemma change_posting_restock:
  "change_posting (restock_change conta order r onHand incoming cost recalculate action) =
   restock_posting conta order action onHand incoming r"
  by (simp add: change_posting_def restock_change_def restock_posting_def restock_key_def change_key_def)

lemma booked_order_action:
  assumes "store_inv db" "x \<in> set (db_orders db)" "e \<in> set (postings db)" "po_origin e = RESTOCK_ORDER (ro_id x)"
  shows "order_action x e"
  using assms by (auto simp: store_inv_def docs_inv_def order_ok_def)

text \<open>A step on one order: its record changes and one posting is booked for it.\<close>

lemma order_step_keeps:
  assumes inv: "store_inv db" and x: "x \<in> set (db_orders db)"
    and db0: "ledger_inv db0" "postings db0 = postings db" "db_sales db0 = db_sales db" "db_next db \<le> db_next db0"
      "db_orders db0 = map (\<lambda>y. if ro_id y = ro_id x then f y else y) (db_orders db)"
    and change: "apply_change db0 c = Inr db'" and post: "change_posting c = e"
    and fresh: "\<And>e'. e' \<in> set (postings db) \<Longrightarrow> posting_id e' \<noteq> posting_id e"
    and own: "po_origin e = RESTOCK_ORDER (ro_id x)" and f: "ro_id (f x) = ro_id x"
    and ok: "order_ok (db_next db0) (postings db @ [e]) (f x)"
  shows "store_inv db'" "db_orders db' = db_orders db0" "db_sales db' = db_sales db"
proof -
  have "change_id c = posting_id e" using posting_id_simps(2) [of c] unfolding post by (rule sym)
  then have "change_id c \<notin> posting_id ` set (postings db0)" using fresh unfolding db0(2) by (metis imageE)
  then have posts: "postings db' = postings db @ [e]"
    using apply_change_postings [OF db0(1) _ change] post db0(2) by simp
  have docs: "same_documents db0 db'" by (rule apply_change_documents [OF db0(1) change])
  have "docs_inv db'"
    using posts docs db0 own f ok x
    by (intro docs_inv_order [OF store_invD(2) [OF inv], where x = x and f = f and es = "[e]" and i = "ro_id x"])
      (simp_all add: same_documents_def)
  then show "store_inv db'" using apply_change_ledger [OF db0(1) change] by (simp add: store_inv_def)
  show "db_orders db' = db_orders db0" "db_sales db' = db_sales db" using docs db0(3) by (simp_all add: same_documents_def)
qed

section \<open>Planning\<close>

definition open_order :: "string \<Rightarrow> nat \<Rightarrow> stock_db \<Rightarrow> bool" where
  "open_order conta i db \<longleftrightarrow> store_inv db \<and> (\<exists>x \<in> set (db_orders db). ro_id x = i \<and> ro_contaId x = conta \<and> ro_status x \<noteq> RO_CANCELADO)"

lemma add_item_fields [simp]:
  "ro_id (add_item r x) = ro_id x" "ro_contaId (add_item r x) = ro_contaId x" "ro_status (add_item r x) = ro_status x"
  "ro_items (add_item r x) = ro_items x @ [r]"
  by (simp_all add: add_item_def)

lemma order_action_add: "order_action x e \<Longrightarrow> order_action (add_item r x) e"
  by (auto simp: order_action_def split: action_key.splits)

lemma order_line_step_keeps:
  assumes pre: "open_order conta i db" and res: "order_line_step conta i db l = Inr db'"
  shows "open_order conta i db'"
proof -
  obtain x where inv: "store_inv db" and x: "x \<in> set (db_orders db)" "ro_id x = i" "ro_contaId x = conta" "ro_status x \<noteq> RO_CANCELADO"
    using pre by (auto simp: open_order_def)
  define q where "q = whole (ol_quantity l)"
  obtain p v stored where q: "0 < q"
    and change0: "apply_change (update_order i (add_item (planned_item (db_next db) p v q stored)) (db\<lparr>db_next := Suc (db_next db)\<rparr>))
       (restock_change conta i (planned_item (db_next db) p v q stored) 0 q (ol_unitCost l) False K_PLANNED) = Inr db'"
    using res whole_pos unfolding order_line_step_def q_def by (auto simp: and_then_Inr_iff split: if_splits dest!: int_column_Inr)
  define r where "r = planned_item (db_next db) p v q stored"
  note change = change0 [folded r_def]
  have r: "ri_id r = db_next db" "ri_expected r = q" "ri_received r = 0" by (simp_all add: r_def planned_item_def)
  let ?f = "add_item r"
  let ?db0 = "update_order i ?f (db\<lparr>db_next := Suc (db_next db)\<rparr>)"
  let ?e = "restock_posting conta i K_PLANNED 0 q r"
  have ok: "order_ok (db_next db) (postings db) x" using store_invD(2) [OF inv] x by (simp add: docs_inv_def)
  have items: "ri_id y < db_next db" if "y \<in> set (ro_items x)" for y
    using ok that by (auto simp: order_ok_def order_wf_def list_all_iff restock_item_ok_def)
  have fresh: "posting_id e \<noteq> posting_id ?e" if e: "e \<in> set (postings db)" for e
  proof
    assume same: "posting_id e = posting_id ?e"
    then have "order_action x e" using booked_order_action [OF inv x(1) e] x by (simp add: posting_id_def restock_posting_def)
    then obtain y where "y \<in> set (ro_items x)" "ri_id y = db_next db"
      using same r by (auto simp: order_action_def posting_id_def restock_posting_def)
    then show False using items [of y] by simp
  qed
  have act: "order_action (?f x) e" if "e \<in> set (postings db @ [?e])" "po_origin e = RESTOCK_ORDER i" for e
  proof (cases "e = ?e")
    case True
    then show ?thesis using x by (simp add: order_action_def restock_posting_def)
  next
    case False
    then show ?thesis using that booked_order_action [OF inv x(1)] x order_action_add by simp
  qed
  have wf: "order_wf (Suc (db_next db)) (?f x)"
    using ok items r q by (fastforce simp: order_ok_def order_wf_def list_all_iff restock_item_ok_def)
  have booked: "order_booked (postings db @ [?e]) (?f x)"
    using ok x r by (auto simp: order_ok_def order_booked_def moved_single booked_for_def restock_posting_def
      incoming_by_def pending_def)
  have ok': "order_ok (db_next ?db0) (postings db @ [?e]) (?f x)"
    using act wf booked x(2) by (simp add: order_ok_def)
  have ledger: "ledger_inv ?db0"
    using store_invD(1) [OF inv] ledger_inv_cong [of "db\<lparr>db_next := Suc (db_next db)\<rparr>" db] by simp
  have posts: "postings ?db0 = postings db" by (simp add: postings_def)
  have own: "po_origin ?e = RESTOCK_ORDER (ro_id x)" using x(2) by (simp add: restock_posting_def)
  have "db_orders ?db0 = map (\<lambda>y. if ro_id y = ro_id x then ?f y else y) (db_orders db)" using x(2) by simp
  note step = order_step_keeps [OF inv x(1) ledger posts _ _ this change change_posting_restock fresh own _ ok']
  have "store_inv db'" by (rule step(1)) simp_all
  moreover have "db_orders db' = db_orders ?db0" by (rule step(2)) simp_all
  ultimately show ?thesis using x by (auto simp: open_order_def intro!: bexI [of _ "?f x"])
qed


lemma createRestockOrder_keeps:
  assumes inv: "store_inv db" and res: "createRestockOrder db conta requestId items = Inr (db', i)"
  shows "store_inv db'"
proof -
  let ?x = "\<lparr>ro_id = db_next db, ro_contaId = conta, ro_status = RO_PLANEJADO, ro_items = []\<rparr>"
  let ?db1 = "db\<lparr>db_orders := db_orders db @ [?x], db_next := Suc (db_next db)\<rparr>"
  have run: "fold_err (order_line_step conta (db_next db)) ?db1 items = Inr db'"
    using res by (auto simp: createRestockOrder_def Let_def and_then_Inr_iff split: if_splits)
  have "docs_inv ?db1"
    by (rule docs_inv_new_order [OF store_invD(2) [OF inv], where x = ?x]) (simp_all add: postings_def)
  moreover have "ledger_inv ?db1" using store_invD(1) [OF inv] ledger_inv_cong [of ?db1 db] by simp
  ultimately have "open_order conta (db_next db) ?db1" by (simp add: open_order_def store_inv_def)
  then have "open_order conta (db_next db) db'"
    using fold_err_invariant [OF run, of "open_order conta (db_next db)"] order_line_step_keeps by blast
  then show ?thesis by (simp add: open_order_def)
qed

section \<open>Receiving\<close>

lemma find_order_Some:
  "find_order db conta i = Some x \<Longrightarrow> x \<in> set (db_orders db) \<and> ro_id x = i \<and> ro_contaId x = conta"
  unfolding find_order_def by (auto dest: find_SomeD)

definition receive_items :: "nat \<Rightarrow> int \<Rightarrow> rat \<Rightarrow> restock_order \<Rightarrow> restock_order" where
  "receive_items i quantity cost x = x\<lparr>ro_items := map (receive_item i quantity cost) (ro_items x)\<rparr>"

lemma receive_item_fields [simp]:
  "ri_id (receive_item i q c r) = ri_id r" "restock_key (receive_item i q c r) = restock_key r"
  "ri_expected (receive_item i q c r) = ri_expected r"
  "ri_received (receive_item i q c r) = ri_received r + (if ri_id r = i then q else 0)"
  by (simp_all add: receive_item_def restock_key_def)

lemma receive_items_fields [simp]:
  "ro_id (receive_items i q c x) = ro_id x" "ro_contaId (receive_items i q c x) = ro_contaId x"
  "ro_status (receive_items i q c x) = ro_status x"
  by (simp_all add: receive_items_def)

lemma item_sum_receive:
  assumes "distinct (map ri_id rs)" "r \<in> set rs"
    and "\<And>x. f (receive_item (ri_id r) q c x) = f x + (if ri_id x = ri_id r then d else 0)"
  shows "item_sum f (map (receive_item (ri_id r) q c) rs) k = item_sum f rs k + (if restock_key r = k then d else 0)"
  using assms(1,2)
proof (induction rs)
  case (Cons x xs)
  show ?case
  proof (cases "x = r")
    case True
    then have "map (receive_item (ri_id r) q c) xs = xs"
      using Cons.prems(1) by (intro map_idI) (force simp: receive_item_def image_iff)
    then show ?thesis using True by (simp add: assms(3))
  next
    case False
    then have "ri_id x \<noteq> ri_id r" using Cons.prems by auto
    then show ?thesis using Cons False by (simp add: assms(3))
  qed
qed simp

text \<open>The items of an order still to be received in this delivery are those read at its start.\<close>

definition under_receipt :: "string \<Rightarrow> restock_order \<Rightarrow> stock_db \<Rightarrow> receipt list \<Rightarrow> bool" where
  "under_receipt conta x0 db ls \<longleftrightarrow> store_inv db \<and> (\<exists>x \<in> set (db_orders db). ro_id x = ro_id x0 \<and> ro_contaId x = conta \<and>
     ro_status x \<noteq> RO_CANCELADO \<and>
     (\<forall>l \<in> set ls. \<forall>r \<in> set (ro_items x0). ri_id r = rc_itemId l \<longrightarrow> r \<in> set (ro_items x)))"

lemma receive_order_ok:
  assumes ok: "order_ok n es x" and live: "ro_status x \<noteq> RO_CANCELADO" and r: "r \<in> set (ro_items x)"
    and q: "0 < q" "q \<le> pending r"
    and e: "e = restock_posting (ro_contaId x) (ro_id x) (K_RECEIVE (ri_received r + q)) q (- q) r"
  shows "order_ok n (es @ [e]) (receive_items (ri_id r) q cost x)" (is "order_ok _ _ ?x'")
proof -
  have wf: "distinct (map ri_id (ro_items x))" "list_all (restock_item_ok n) (ro_items x)"
    using ok by (simp_all add: order_ok_def order_wf_def)
  have only: "y = r" if "y \<in> set (ro_items x)" "ri_id y = ri_id r" for y
    using that r wf(1) by (auto simp: distinct_map inj_on_def)
  have item_ok: "restock_item_ok n (receive_item (ri_id r) q cost y)" if "y \<in> set (ro_items x)" for y
    using that only [OF that] wf(2) q by (auto simp: list_all_iff restock_item_ok_def pending_def)
  have "order_wf n ?x'" using wf item_ok by (auto simp: order_wf_def receive_items_def list_all_iff comp_def)
  moreover have "order_booked (es @ [e]) ?x'"
    using ok live item_sum_receive [OF wf(1) r, where f = pending and d = "- q"]
      item_sum_receive [OF wf(1) r, where f = ri_received and d = q]
    by (auto simp: order_ok_def order_booked_def receive_items_def incoming_by_def e moved_single booked_for_def
        restock_posting_def pending_def)
  moreover have "order_action ?x' e'" if "order_action x e'" for e'
  proof -
    have "\<exists>y \<in> set (ro_items ?x'). po_line e' = Some (ri_id y) \<and> m \<le> ri_received y"
      if old: "\<exists>y \<in> set (ro_items x). po_line e' = Some (ri_id y) \<and> m \<le> ri_received y" for m
    proof -
      obtain y where y: "y \<in> set (ro_items x)" "po_line e' = Some (ri_id y)" "m \<le> ri_received y" using old by blast
      then show ?thesis using q
        by (intro bexI [of _ "receive_item (ri_id r) q cost y"]) (simp_all add: receive_items_def)
    qed
    moreover have "\<exists>y \<in> set (ro_items ?x'). po_line e' = Some (ri_id y)"
      if "\<exists>y \<in> set (ro_items x). po_line e' = Some (ri_id y)"
      using that by (auto simp: receive_items_def)
    ultimately show ?thesis using that by (cases "po_action e'") (simp_all add: order_action_def)
  qed
  moreover have "order_action ?x' e"
    using r by (auto simp: order_action_def e restock_posting_def receive_items_def intro!: bexI [of _ r])
  ultimately show ?thesis
    using ok by (auto simp: order_ok_def e restock_posting_def receive_items_def)
qed


lemma receipt_step_keeps:
  assumes pre: "under_receipt conta x0 db (l # ls)" and once: "rc_itemId l \<notin> rc_itemId ` set ls"
    and ids: "distinct (map ri_id (ro_items x0))" and res: "receipt_step conta x0 db l = Inr db'"
  shows "under_receipt conta x0 db' ls"
proof -
  obtain x where inv: "store_inv db" and x: "x \<in> set (db_orders db)" "ro_id x = ro_id x0" "ro_contaId x = conta" "ro_status x \<noteq> RO_CANCELADO"
    and current: "\<forall>m \<in> set (l # ls). \<forall>r \<in> set (ro_items x0). ri_id r = rc_itemId m \<longrightarrow> r \<in> set (ro_items x)"
    using pre by (auto simp: under_receipt_def)
  define q where "q = whole (rc_quantity l)"
  obtain r cost stored where found: "find (\<lambda>r. ri_id r = rc_itemId l) (ro_items x0) = Some r"
    and q: "0 < q" "q \<le> pending r"
    and change: "apply_change (update_order (ro_id x0) (receive_items (ri_id r) q stored) db)
       (restock_change conta (ro_id x0) r q (- q) cost True (K_RECEIVE (ri_received r + q))) = Inr db'"
    using res whole_pos unfolding receipt_step_def q_def receive_items_def [abs_def] pending_def
    by (auto simp: and_then_Inr_iff Let_def split: if_splits option.splits)
  have r0: "r \<in> set (ro_items x0)" "ri_id r = rc_itemId l" using find_SomeD [OF found] by simp_all
  then have r: "r \<in> set (ro_items x)" using current by simp
  let ?f = "receive_items (ri_id r) q stored"
  let ?db0 = "update_order (ro_id x0) ?f db"
  let ?c = "restock_change conta (ro_id x0) r q (- q) cost True (K_RECEIVE (ri_received r + q))"
  let ?e = "restock_posting (ro_contaId x) (ro_id x) (K_RECEIVE (ri_received r + q)) q (- q) r"
  have ok: "order_ok (db_next db) (postings db) x" using store_invD(2) [OF inv] x by (simp add: docs_inv_def)
  then have wf: "distinct (map ri_id (ro_items x))" by (simp add: order_ok_def order_wf_def)
  have fresh: "posting_id e \<noteq> posting_id ?e" if e: "e \<in> set (postings db)" for e
  proof
    assume same: "posting_id e = posting_id ?e"
    then have "order_action x e" using booked_order_action [OF inv x(1) e] x by (simp add: posting_id_def restock_posting_def)
    then obtain y where "y \<in> set (ro_items x)" "ri_id y = ri_id r" "ri_received r + q \<le> ri_received y"
      using same by (auto simp: order_action_def posting_id_def restock_posting_def)
    then have "ri_received r + q \<le> ri_received r" using r wf by (auto simp: distinct_map inj_on_def)
    then show False using q by simp
  qed
  have ledger: "ledger_inv ?db0" using store_invD(1) [OF inv] by simp
  have posts: "postings ?db0 = postings db" by simp
  have own: "po_origin ?e = RESTOCK_ORDER (ro_id x)" by (simp add: restock_posting_def)
  have orders: "db_orders ?db0 = map (\<lambda>y. if ro_id y = ro_id x then ?f y else y) (db_orders db)" using x(2) by simp
  have post: "change_posting ?c = ?e" using x(2,3) by (simp add: change_posting_restock)
  have ok': "order_ok (db_next ?db0) (postings db @ [?e]) (?f x)"
    using receive_order_ok [OF ok x(4) r q refl] by simp
  note step = order_step_keeps [OF inv x(1) ledger posts _ _ orders change post fresh own _ ok']
  have "store_inv db'" by (rule step(1)) simp_all
  moreover have "db_orders db' = db_orders ?db0" by (rule step(2)) simp_all
  then have "?f x \<in> set (db_orders db')" using x(1,2) by (auto simp: rev_image_eqI)
  moreover have "y \<in> set (ro_items (?f x))" if "m \<in> set ls" "y \<in> set (ro_items x0)" "ri_id y = rc_itemId m" for m y
  proof -
    have "y \<in> set (ro_items x)" using current that by auto
    moreover have "ri_id y \<noteq> ri_id r" using once that r0(2) by (force simp: image_iff)
    then have "receive_item (ri_id r) q stored y = y" by (simp add: receive_item_def)
    ultimately show ?thesis by (auto simp: receive_items_def rev_image_eqI)
  qed
  ultimately show ?thesis using x by (auto simp: under_receipt_def intro!: bexI [of _ "?f x"])
qed

lemma receipts_keep:
  "fold_err (receipt_step conta x0) db ls = Inr db' \<Longrightarrow> under_receipt conta x0 db ls \<Longrightarrow>
   distinct (map rc_itemId ls) \<Longrightarrow> distinct (map ri_id (ro_items x0)) \<Longrightarrow> under_receipt conta x0 db' []"
proof (induction ls arbitrary: db)
  case (Cons l ls)
  from Cons.prems(1) obtain u where u: "receipt_step conta x0 db l = Inr u" "fold_err (receipt_step conta x0) u ls = Inr db'"
    by (auto simp: and_then_Inr_iff)
  have "under_receipt conta x0 u ls"
    using receipt_step_keeps [OF Cons.prems(2) _ Cons.prems(4) u(1)] Cons.prems(3) by simp
  then show ?case using Cons.IH [OF u(2)] Cons.prems(3,4) by simp
qed simp

lemma order_ok_status:
  assumes "order_ok n es x" "ro_status x \<noteq> RO_CANCELADO" "st \<noteq> RO_CANCELADO"
  shows "order_ok n es (x\<lparr>ro_status := st\<rparr>)"
proof -
  have "order_action (x\<lparr>ro_status := st\<rparr>) e" if "order_action x e" for e
    using that assms(2,3) by (cases "po_action e") (simp_all add: order_action_def)
  then show ?thesis using assms by (auto simp: order_ok_def order_wf_def order_booked_def incoming_by_def)
qed

lemma computeRestockStatus_open: "computeRestockStatus rs \<noteq> RO_CANCELADO"
  by (simp add: computeRestockStatus_def Let_def)

lemma receiveRestockOrder_keeps:
  assumes inv: "store_inv db" and res: "receiveRestockOrder db conta i receipts = Inr db'"
    and once: "distinct (map rc_itemId receipts)"
  shows "store_inv db'"
proof -
  let ?f = "\<lambda>x. x\<lparr>ro_status := computeRestockStatus (ro_items x)\<rparr>"
  obtain x0 db1 where x0: "find_order db conta i = Some x0" "ro_status x0 \<noteq> RO_CANCELADO"
    and run: "fold_err (receipt_step conta x0) db receipts = Inr db1" and db': "db' = update_order i ?f db1"
    using res by (auto simp: receiveRestockOrder_def and_then_Inr_iff split: if_splits option.splits)
  note found = find_order_Some [OF x0(1)]
  have ids: "distinct (map ri_id (ro_items x0))"
    using store_invD(2) [OF inv] found by (auto simp: docs_inv_def order_ok_def order_wf_def)
  have "under_receipt conta x0 db receipts" using inv found x0(2) by (auto simp: under_receipt_def)
  then have "under_receipt conta x0 db1 []" using receipts_keep [OF run _ once ids] by simp
  then obtain x where inv1: "store_inv db1" and x: "x \<in> set (db_orders db1)" "ro_id x = i" "ro_status x \<noteq> RO_CANCELADO"
    using found by (auto simp: under_receipt_def)
  have "order_ok (db_next db1) (postings db1) x" using store_invD(2) [OF inv1] x(1) by (simp add: docs_inv_def)
  then have "docs_inv db'"
    using order_ok_status [OF _ x(3) computeRestockStatus_open] x
    by (intro docs_inv_order [OF store_invD(2) [OF inv1], where x = x and es = "[]" and i = i and f = ?f])
      (simp_all add: db')
  then show ?thesis using store_invD(1) [OF inv1] by (simp add: store_inv_def db')
qed

section \<open>Cancelling\<close>

lemma item_sum_live:
  "item_sum pending rs k = item_sum pending (filter (\<lambda>r. \<not> pending r \<le> 0) rs) k + item_sum pending (filter (\<lambda>r. pending r \<le> 0) rs) k"
  by (induction rs) auto

lemma item_sum_zero: "(\<forall>r \<in> set rs. f r = 0) \<Longrightarrow> item_sum f rs k = 0"
  by (induction rs) auto

lemma moved_restock:
  "moved po_incoming (map (\<lambda>r. restock_posting conta i action 0 (- pending r) r) rs) conta (RESTOCK_ORDER i) k = - item_sum pending rs k"
  by (induction rs) (simp_all add: moved_def booked_for_def restock_posting_def)

lemma cancelRestockOrder_keeps:
  assumes inv: "store_inv db" and res: "cancelRestockOrder db conta i = Inr db'"
  shows "store_inv db'"
proof -
  obtain x where x: "find_order db conta i = Some x"
    using res by (auto simp: cancelRestockOrder_def split: option.splits)
  then have found: "x \<in> set (db_orders db)" "ro_id x = i" "ro_contaId x = conta" using find_order_Some by blast+
  let ?f = "\<lambda>x. x\<lparr>ro_status := RO_CANCELADO\<rparr>"
  show ?thesis
  proof (cases "ro_status x = RO_CANCELADO")
    case True
    then show ?thesis using res x inv by (simp add: cancelRestockOrder_def)
  next
    case False
    then obtain db1 where run: "fold_err (cancel_item_step conta i) db (ro_items x) = Inr db1" and db': "db' = update_order i ?f db1"
      using res x by (auto simp: cancelRestockOrder_def and_then_Inr_iff)
    let ?live = "filter (\<lambda>r. \<not> pending r \<le> 0) (ro_items x)"
    let ?c = "\<lambda>r. restock_change conta i r 0 (- pending r) (case ri_unitCost r of None \<Rightarrow> Fin 0 | Some c \<Rightarrow> moneyToNumber c) False K_CANCEL"
    let ?p = "\<lambda>r. restock_posting conta i K_CANCEL 0 (- pending r) r"
    have "fold_err (cancel_item_step conta i) db (ro_items x) = fold_err apply_change db (map ?c ?live)"
      by (rule fold_err_skip) (simp add: cancel_item_step_def Let_def pending_def)
    then have run': "fold_err apply_change db (map ?c ?live) = Inr db1" using run by simp
    have ledger: "ledger_inv db" using inv by (rule store_invD)
    have ok: "order_ok (db_next db) (postings db) x" using store_invD(2) [OF inv] found by (simp add: docs_inv_def)
    then have wf: "distinct (map ri_id (ro_items x))" "list_all (restock_item_ok (db_next db)) (ro_items x)"
      by (simp_all add: order_ok_def order_wf_def)
    have cid: "change_id (?c r) = posting_id (?p r)" for r
      using posting_id_simps(2) [of "?c r"] unfolding change_posting_restock by (rule sym)
    have "distinct (map (\<lambda>r. posting_id (?p r)) ?live)"
      using distinct_map_filter [OF wf(1), of "\<lambda>r. \<not> pending r \<le> 0"]
      by (auto simp: distinct_map inj_on_def posting_id_def restock_posting_def)
    then have distinct: "distinct (map (\<lambda>c. posting_id (change_posting c)) (map ?c ?live))"
      by (simp add: cid comp_def)
    have old: "po_action e \<noteq> K_CANCEL" if "e \<in> set (postings db)" "po_origin e = RESTOCK_ORDER i" for e
      using booked_order_action [OF inv found(1) that(1)] that(2) found(2) False by (auto simp: order_action_def)
    have "posting_id (?p r) \<notin> posting_id ` set (postings db)" for r
    proof
      assume "posting_id (?p r) \<in> posting_id ` set (postings db)"
      then obtain e where "e \<in> set (postings db)" "posting_id e = posting_id (?p r)" by auto
      then show False using old [of e] by (simp add: posting_id_def restock_posting_def)
    qed
    then have "\<forall>c \<in> set (map ?c ?live). posting_id (change_posting c) \<notin> posting_id ` set (postings db)"
      by (simp add: cid)
    then have posts: "postings db1 = postings db @ map ?p ?live"
      using stock.run_appends [OF ledger run' distinct] by (simp add: change_posting_restock comp_def)
    have "item_sum pending (filter (\<lambda>r. pending r \<le> 0) (ro_items x)) k = 0" for k
      using wf(2) by (intro item_sum_zero) (auto simp: list_all_iff restock_item_ok_def pending_def)
    then have sums: "item_sum pending ?live k = item_sum pending (ro_items x) k" for k
      using item_sum_live [of "ro_items x" k] by simp
    have "moved po_onHand (map ?p ?live) conta (RESTOCK_ORDER i) k = 0" for k
      by (rule moved_zero) (auto simp: restock_posting_def)
    then have "order_booked (postings db @ map ?p ?live) (?f x)"
      using ok False found sums moved_restock [of conta i K_CANCEL ?live]
      by (auto simp: order_ok_def order_booked_def incoming_by_def)
    moreover have "order_action (?f x) e" if "order_action x e" for e
      using that by (cases "po_action e") (simp_all add: order_action_def)
    moreover have "order_action (?f x) (?p r)" for r
      using found by (simp add: order_action_def restock_posting_def)
    ultimately have ok': "order_ok (db_next db) (postings db @ map ?p ?live) (?f x)"
      using ok wf by (auto simp: order_ok_def order_wf_def)
    have docs: "same_documents db db1" by (rule changes_documents [OF ledger run'])
    have "docs_inv db'"
      by (rule docs_inv_order [OF store_invD(2) [OF inv], where x = x and es = "map ?p ?live" and i = i and f = ?f])
        (use docs posts found ok' in \<open>simp_all add: db' same_documents_def restock_posting_def\<close>)
    then show ?thesis using stock.run_keeps [OF ledger run'] by (simp add: store_inv_def db')
  qed
qed

end
