(* ===== verification/StoreRuns.thy ===== *)
theory StoreRuns
  imports StoreSales StoreOrders
begin

text \<open>
  Histories of the store: any sequence of its operations, a failed one leaving the database as it was,
  between which the catalogue and the charges may change freely. In every state of every history the
  counters of an item are accounted for by the movements and by the documents.
\<close>

section \<open>Operations and histories\<close>

datatype store_op = OP_ENTRY entry_input | OP_ADJUST adjust_input
  | OP_PLAN string string "order_line list" | OP_RECEIVE string nat "receipt list" | OP_CANCEL_ORDER string nat
  | OP_SELL string string finalization inventory_mode "prepared_line list"
  | OP_FULFILL string nat | OP_RETURN string nat string string "return_line list" | OP_CANCEL_SALE string nat
  | OP_BILL string nat bool string | OP_PAY string string | OP_LINK string string | OP_RECONCILE string bool
  | OP_CATALOGUE "product_row list" "variant_row list" | OP_CHARGES "charge_row list"

text \<open>A transaction that fails is rolled back.\<close>

definition committed :: "stock_db \<Rightarrow> store_error + stock_db \<Rightarrow> stock_db" where
  "committed db r = (case r of Inl _ \<Rightarrow> db | Inr db' \<Rightarrow> db')"

definition database_of :: "store_error + stock_db \<times> 'a \<Rightarrow> store_error + stock_db" where
  "database_of r = and_then r (\<lambda>(db, _). Inr db)"

fun run_op :: "stock_db \<Rightarrow> store_op \<Rightarrow> stock_db" where
  "run_op db (OP_ENTRY x) = committed db (database_of (registerInventoryEntry db x))"
| "run_op db (OP_ADJUST x) = committed db (database_of (adjustInventory db x))"
| "run_op db (OP_PLAN conta req items) = committed db (database_of (createRestockOrder db conta req items))"
| "run_op db (OP_RECEIVE conta i rs) = committed db (receiveRestockOrder db conta i rs)"
| "run_op db (OP_CANCEL_ORDER conta i) = committed db (cancelRestockOrder db conta i)"
| "run_op db (OP_SELL conta req final mode ls) = committed db (database_of (create_sale db conta req final mode ls))"
| "run_op db (OP_FULFILL conta i) = committed db (fulfillReservedSale db conta i)"
| "run_op db (OP_RETURN conta i req fp ls) = committed db (database_of (registerSaleReturn db conta i req fp ls))"
| "run_op db (OP_CANCEL_SALE conta i) = committed db (cancel_sale_records db conta i)"
| "run_op db (OP_BILL conta i installment created) = committed db (link_created_charge db conta i installment created)"
| "run_op db (OP_PAY conta charge) = fst (fulfillReservedSaleOnPayment db conta charge)"
| "run_op db (OP_LINK conta plan) = committed db (database_of (linkSaleToFirstInstallmentCharge db conta plan))"
| "run_op db (OP_RECONCILE conta dry) = fst (reconcilePaidReservedStoreSales db conta dry)"
| "run_op db (OP_CATALOGUE ps vs) = db\<lparr>db_products := ps, db_variants := vs\<rparr>"
| "run_op db (OP_CHARGES cs) = db\<lparr>db_charges := cs\<rparr>"

text \<open>
  The operations of the histories in which the documents are accounted for: sold quantities are positive
  (the routes validate it), a delivery names each item at most once (no route checks it: what holds without
  it is in \<^verbatim>\<open>StoreHistories\<close>, what fails is in \<^verbatim>\<open>StoreRaces\<close>), and the catalogue holds no negative stock.
\<close>

fun op_ok :: "store_op \<Rightarrow> bool" where
  "op_ok (OP_SELL conta req final mode ls) = lines_ok ls"
| "op_ok (OP_RECEIVE conta i rs) = distinct (map rc_itemId rs)"
| "op_ok (OP_CATALOGUE ps vs) = (list_all (\<lambda>p. 0 \<le> p_stock p) ps \<and> list_all (\<lambda>v. 0 \<le> v_stock v) vs)"
| "op_ok _ = True"

fun is_adjustment :: "store_op \<Rightarrow> bool" where
  "is_adjustment (OP_ADJUST x) = True"
| "is_adjustment _ = False"

text \<open>A store before its first movement.\<close>

definition fresh_store :: "stock_db \<Rightarrow> bool" where
  "fresh_store db \<longleftrightarrow> stock_wf db \<and> db_movements db = [] \<and> db_orders db = [] \<and> db_sales db = [] \<and>
     list_all (\<lambda>b. b_reserved b = 0 \<and> b_incoming b = 0) (db_balances db)"

inductive store_run :: "(store_op \<Rightarrow> bool) \<Rightarrow> stock_db \<Rightarrow> bool" for allowed where
  start: "fresh_store db \<Longrightarrow> store_run allowed db"
| op: "store_run allowed db \<Longrightarrow> allowed op' \<Longrightarrow> store_run allowed (run_op db op')"

lemma committed_keeps: "P db \<Longrightarrow> (\<And>db'. r = Inr db' \<Longrightarrow> P db') \<Longrightarrow> P (committed db r)"
  by (auto simp: committed_def split: sum.splits)

lemma committed_result_keeps:
  "P db \<Longrightarrow> (\<And>db' x. r = Inr (db', x) \<Longrightarrow> P db') \<Longrightarrow> P (committed db (database_of r))"
  by (auto simp: committed_def database_of_def split: sum.splits prod.splits elim: and_then_InrE)

lemma database_of_Inr: "database_of r = Inr db' \<longleftrightarrow> (\<exists>x. r = Inr (db', x))"
  by (cases r) (auto simp: database_of_def split: prod.splits)

lemma reconcile_keeps:
  assumes P: "\<And>db conta charge. P db \<Longrightarrow> P (fst (fulfillReservedSaleOnPayment db conta charge))" and db: "P db"
  shows "P (fst (reconcilePaidReservedStoreSales db conta dry))"
proof -
  have "P (fst (reconcile_step conta (db, r) x))" if "P db" for db r x
    using P [OF that] by (auto simp: reconcile_step_def that split: prod.splits sum.splits bool.splits) (metis fst_conv)+
  then have "P (fst (foldl (reconcile_step conta) s xs))" if "P (fst s)" for s xs
    using that by (induction xs arbitrary: s) (auto, metis prod.collapse)
  then show ?thesis using db by (simp add: reconcilePaidReservedStoreSales_def Let_def)
qed

lemma fresh_store_inv: "fresh_store db \<Longrightarrow> store_inv db"
proof -
  assume fresh: "fresh_store db"
  have "fits (trail db conta k) (find_balance db conta k)" for conta k
  proof (cases "find_balance db conta k")
    case (Some b)
    then have "b \<in> set (db_balances db)" using find_balanceD by blast
    then show ?thesis using fresh Some
      by (auto simp: fresh_store_def trail_def counters_of_def stock_wf_def balance_ok_def list_all_iff)
  qed (use fresh in \<open>simp add: fresh_store_def trail_def\<close>)
  then show ?thesis
    using fresh by (simp add: store_inv_def ledger_inv_def trail_ok_def fresh_store_def docs_inv_def postings_def sale_ids_def order_ids_def)
qed

lemma run_op_keeps:
  assumes inv: "store_inv db" and ok: "op_ok op'"
  shows "store_inv (run_op db op')"
proof (cases op')
  case (OP_CATALOGUE ps vs)
  have "stock_wf (run_op db op')"
    using inv ok OP_CATALOGUE by (auto simp: store_inv_def ledger_inv_def stock_wf_def list_all_iff)
  then have "ledger_inv (run_op db op')"
    using inv OP_CATALOGUE by (simp add: store_inv_def ledger_inv_def trail_ok_def trail_def [abs_def] find_balance_def [abs_def])
  moreover have "docs_inv (run_op db op') = docs_inv db"
    by (rule docs_inv_cong) (simp_all add: OP_CATALOGUE postings_def)
  ultimately show ?thesis using inv by (simp add: store_inv_def)
next
  case (OP_CHARGES cs)
  have "ledger_inv (run_op db op') = ledger_inv db" by (rule ledger_inv_cong) (simp_all add: OP_CHARGES)
  moreover have "docs_inv (run_op db op') = docs_inv db"
    by (rule docs_inv_cong) (simp_all add: OP_CHARGES postings_def)
  ultimately show ?thesis using inv by (simp add: store_inv_def)
next
  case (OP_RECONCILE conta dry)
  then show ?thesis
    using reconcile_keeps [of store_inv, OF _ inv] fulfillReservedSaleOnPayment_keeps by (metis prod.collapse run_op.simps(13))
next
  case (OP_ENTRY x)
  show ?thesis unfolding OP_ENTRY run_op.simps
    by (rule committed_result_keeps [of store_inv, OF inv]) (use registerInventoryEntry_keeps [OF inv] ok OP_ENTRY in simp)
next
  case (OP_ADJUST x)
  show ?thesis unfolding OP_ADJUST run_op.simps
    by (rule committed_result_keeps [of store_inv, OF inv]) (use adjustInventory_keeps [OF inv] ok OP_ADJUST in simp)
next
  case (OP_PLAN conta req items)
  show ?thesis unfolding OP_PLAN run_op.simps
    by (rule committed_result_keeps [of store_inv, OF inv]) (use createRestockOrder_keeps [OF inv] ok OP_PLAN in simp)
next
  case (OP_RECEIVE conta i rs)
  show ?thesis unfolding OP_RECEIVE run_op.simps
    by (rule committed_keeps [of store_inv, OF inv]) (use receiveRestockOrder_keeps [OF inv] ok OP_RECEIVE in simp)
next
  case (OP_CANCEL_ORDER conta i)
  show ?thesis unfolding OP_CANCEL_ORDER run_op.simps
    by (rule committed_keeps [of store_inv, OF inv]) (use cancelRestockOrder_keeps [OF inv] ok OP_CANCEL_ORDER in simp)
next
  case (OP_SELL conta req final mode ls)
  show ?thesis unfolding OP_SELL run_op.simps
    by (rule committed_result_keeps [of store_inv, OF inv]) (use create_sale_keeps [OF inv] ok OP_SELL in simp)
next
  case (OP_FULFILL conta i)
  show ?thesis unfolding OP_FULFILL run_op.simps
    by (rule committed_keeps [of store_inv, OF inv]) (use fulfillReservedSale_keeps [OF inv] ok OP_FULFILL in simp)
next
  case (OP_RETURN conta i req fp ls)
  show ?thesis unfolding OP_RETURN run_op.simps
    by (rule committed_result_keeps [of store_inv, OF inv]) (use registerSaleReturn_keeps [OF inv] ok OP_RETURN in simp)
next
  case (OP_CANCEL_SALE conta i)
  show ?thesis unfolding OP_CANCEL_SALE run_op.simps
    by (rule committed_keeps [of store_inv, OF inv]) (use cancel_sale_records_keeps [OF inv] ok OP_CANCEL_SALE in simp)
next
  case (OP_LINK conta plan)
  show ?thesis unfolding OP_LINK run_op.simps
    by (rule committed_result_keeps [of store_inv, OF inv]) (use linkSale_keeps [OF inv] ok OP_LINK in simp)
next
  case (OP_BILL conta i installment created)
  show ?thesis unfolding OP_BILL run_op.simps
    by (rule committed_keeps [of store_inv, OF inv]) (use link_created_charge_keeps [OF inv] ok OP_BILL in simp)
next
  case (OP_PAY conta charge)
  then show ?thesis using fulfillReservedSaleOnPayment_keeps [OF inv surjective_pairing] by simp
qed

lemma store_run_inv: "store_run allowed db \<Longrightarrow> (\<And>op'. allowed op' \<Longrightarrow> op_ok op') \<Longrightarrow> store_inv db"
  by (induction rule: store_run.induct) (auto intro: fresh_store_inv run_op_keeps)

end
