(* ===== verification/StoreHistories.thy ===== *)
theory StoreHistories
  imports StoreRuns
begin

text \<open>
  What holds along every history of the store, whatever its deliveries: a property of the stock that the
  single changes keep is kept by every operation. The ledger is one such property, the opening stock of
  an item another.
\<close>

section \<open>Properties that the operations keep\<close>

text \<open>Operations that leave no negative stock in the catalogue: all but some of its edits.\<close>

fun catalogue_ok :: "store_op \<Rightarrow> bool" where
  "catalogue_ok (OP_CATALOGUE ps vs) = (list_all (\<lambda>p. 0 \<le> p_stock p) ps \<and> list_all (\<lambda>v. 0 \<le> v_stock v) vs)"
| "catalogue_ok _ = True"

lemma op_ok_catalogue: "op_ok x \<Longrightarrow> catalogue_ok x"
  by (cases x) simp_all

text \<open>
  A property of the stock - it depends on the balances, the movements and the catalogue only - that is kept
  by every change that reserves no more than it brings, by the lines of a new sale and by edits of the
  catalogue, is kept by every operation but a manual adjustment.
\<close>

locale safe_stock =
  fixes safe :: "stock_db \<Rightarrow> bool"
  assumes same_stock: "db_balances db' = db_balances db \<Longrightarrow> db_movements db' = db_movements db \<Longrightarrow>
      db_products db' = db_products db \<Longrightarrow> db_variants db' = db_variants db \<Longrightarrow> safe db' = safe db"
    and change_safe: "safe db \<Longrightarrow> apply_change db c = Inr db' \<Longrightarrow> ch_reserved c \<le> ch_onHand c \<Longrightarrow> safe db'"
    and sale_line_safe: "safe db \<Longrightarrow> sale_line_step conta sale mode db (r, u) = Inr db' \<Longrightarrow> safe db'"
    and catalogue: "safe db \<Longrightarrow> list_all (\<lambda>p. 0 \<le> p_stock p) ps \<Longrightarrow> list_all (\<lambda>v. 0 \<le> v_stock v) vs \<Longrightarrow>
      safe (db\<lparr>db_products := ps, db_variants := vs\<rparr>)"
begin

lemma safe_updates [simp]:
  "safe (update_sale i f db) = safe db" "safe (update_order i g db) = safe db"
  by (rule same_stock; simp)+

lemma order_line_safe:
  assumes "safe db" "order_line_step conta i db l = Inr db'"
  shows "safe db'"
proof -
  obtain r q cost f where change: "apply_change (update_order i f (db\<lparr>db_next := Suc (db_next db)\<rparr>))
      (restock_change conta i r 0 q cost False K_PLANNED) = Inr db'"
    using assms(2) unfolding order_line_step_def by (auto simp: and_then_Inr_iff split: if_splits)
  have "safe (update_order i f (db\<lparr>db_next := Suc (db_next db)\<rparr>))"
    using assms(1) same_stock [of "db\<lparr>db_next := Suc (db_next db)\<rparr>" db] by simp
  then show ?thesis by (rule change_safe [OF _ change]) (simp add: restock_change_def)
qed

lemma receipt_safe:
  assumes "safe db" "receipt_step conta x db l = Inr db'"
  shows "safe db'"
proof -
  let ?q = "whole (rc_quantity l)"
  obtain r where found: "find (\<lambda>r. ri_id r = rc_itemId l) (ro_items x) = Some r"
    using assms(2) by (auto simp: receipt_step_def split: option.splits)
  have q: "0 \<le> ?q"
    using assms(2) found whole_pos [of "rc_quantity l"] by (auto simp: receipt_step_def split: if_splits)
  obtain f cost where change: "apply_change (update_order (ro_id x) f db)
      (restock_change conta (ro_id x) r ?q (- ?q) cost True (K_RECEIVE (ri_received r + ?q))) = Inr db'"
    using assms(2) found unfolding receipt_step_def
    by (auto simp: and_then_Inr_iff Let_def split: if_splits option.splits)
  show ?thesis by (rule change_safe [OF _ change]) (use assms(1) q in \<open>simp_all add: restock_change_def\<close>)
qed

lemma cancel_item_safe: "safe db \<Longrightarrow> cancel_item_step conta i db r = Inr db' \<Longrightarrow> safe db'"
  unfolding cancel_item_step_def Let_def
  by (auto split: if_splits elim!: change_safe simp: restock_change_def)

lemma fulfill_line_safe: "safe db \<Longrightarrow> fulfill_line conta i action db r = Inr db' \<Longrightarrow> safe db'"
  unfolding fulfill_line_def by (auto split: if_splits elim!: change_safe simp: sale_change_def)

lemma restore_line_safe: "safe db \<Longrightarrow> restore_line conta i st db r = Inr db' \<Longrightarrow> safe db'"
  unfolding restore_line_def by (auto split: if_splits elim!: change_safe simp: sale_change_def)

lemma return_line_safe:
  assumes "safe db" "return_line_step conta s db l = Inr db'"
  shows "safe db'"
proof -
  obtain r q where check: "check_return_line s l = Inr (r, q)"
    using assms(2) by (auto simp: return_line_step_def and_then_Inr_iff)
  then obtain f where change: "apply_change (update_sale (sa_id s) f db)
      (sale_change conta (sa_id s) r MT_RETURN_IN q 0 (map_option moneyToNumber (si_unitCost r))
        (si_unitCost r \<noteq> None) (K_RETURN (si_returned r + q))) = Inr db'"
    using assms(2) by (auto simp: return_line_step_def Let_def split: if_splits)
  show ?thesis
    by (rule change_safe [OF _ change]) (use assms(1) check_return_line_Inr [OF check] in \<open>simp_all add: sale_change_def\<close>)
qed

lemma entry_safe: "safe db \<Longrightarrow> registerInventoryEntry db x = Inr (db', b) \<Longrightarrow> safe db'"
  unfolding registerInventoryEntry_def
  by (auto simp: and_then_Inr_iff whole_pos less_imp_le split: if_splits
      dest!: applyInventoryChange_Inr elim!: change_safe)

lemma plan_safe:
  assumes "safe db" "createRestockOrder db conta req items = Inr (db', i)"
  shows "safe db'"
proof -
  obtain os where run: "fold_err (order_line_step conta (db_next db)) (db\<lparr>db_orders := os, db_next := Suc (db_next db)\<rparr>) items = Inr db'"
    using assms(2) by (auto simp: createRestockOrder_def Let_def and_then_Inr_iff split: if_splits)
  have "safe (db\<lparr>db_orders := os, db_next := Suc (db_next db)\<rparr>)"
    using assms(1) same_stock [of "db\<lparr>db_orders := os, db_next := Suc (db_next db)\<rparr>" db] by simp
  then show ?thesis using fold_err_invariant [OF run, of safe] order_line_safe by blast
qed

lemma receive_safe:
  assumes "safe db" "receiveRestockOrder db conta i rs = Inr db'"
  shows "safe db'"
proof -
  obtain x db1 where "fold_err (receipt_step conta x) db rs = Inr db1" "safe db' = safe db1"
    using assms(2) by (auto simp: receiveRestockOrder_def and_then_Inr_iff split: if_splits option.splits)
  then show ?thesis using fold_err_invariant [of "receipt_step conta x" db rs db1 safe] receipt_safe assms(1) by auto
qed

lemma cancel_order_safe:
  assumes "safe db" "cancelRestockOrder db conta i = Inr db'"
  shows "safe db'"
proof -
  obtain x where x: "find_order db conta i = Some x"
    using assms(2) by (auto simp: cancelRestockOrder_def split: option.splits)
  show ?thesis
  proof (cases "db' = db")
    case False
    then obtain db1 where "fold_err (cancel_item_step conta i) db (ro_items x) = Inr db1"
      and "db' = update_order i (\<lambda>x. x\<lparr>ro_status := RO_CANCELADO\<rparr>) db1"
      using assms(2) x by (auto simp: cancelRestockOrder_def and_then_Inr_iff split: if_splits)
    then show ?thesis using fold_err_invariant [of "cancel_item_step conta i" db "ro_items x" db1 safe] cancel_item_safe assms(1) by auto
  qed (use assms in simp)
qed

lemma sell_safe:
  assumes "safe db" "create_sale db conta req final mode ls = Inr (db', i)"
  shows "safe db'"
proof (cases "db' = db")
  case False
  then obtain ss n xs where run: "fold_err (sale_line_step conta (db_next db) mode) (db\<lparr>db_sales := ss, db_next := n\<rparr>) xs = Inr db'"
    using assms(2) by (auto simp: create_sale_def Let_def and_then_Inr_iff applySaleInventoryOnCreate_def split: option.splits)
  have "safe (db\<lparr>db_sales := ss, db_next := n\<rparr>)"
    using assms(1) same_stock [of "db\<lparr>db_sales := ss, db_next := n\<rparr>" db] by simp
  then show ?thesis using fold_err_invariant [OF run, of safe] sale_line_safe by force
qed (use assms in simp)

lemma fulfill_safe:
  assumes "safe db" "fulfillReservedSale db conta i = Inr db'"
  shows "safe db'"
proof -
  obtain s where s: "find_sale db conta i = Some s"
    using assms(2) by (auto simp: fulfillReservedSale_def split: option.splits)
  show ?thesis
  proof (cases "db' = db")
    case False
    then obtain db1 where "fold_err (fulfill_line conta i K_FULFILL) db (sa_items s) = Inr db1"
      and "db' = update_sale i (\<lambda>s. s\<lparr>sa_inventoryStatus := INV_FULFILLED\<rparr>) db1"
      using assms(2) s by (auto simp: fulfillReservedSale_def and_then_Inr_iff split: if_splits)
    then show ?thesis using fold_err_invariant [of "fulfill_line conta i K_FULFILL" db "sa_items s" db1 safe] fulfill_line_safe assms(1) by auto
  qed (use assms in simp)
qed

lemma cancel_sale_safe:
  assumes "safe db" "cancelSaleInventory db conta i = Inr db'"
  shows "safe db'"
proof -
  obtain s where s: "find_sale db conta i = Some s"
    using assms(2) by (auto simp: cancelSaleInventory_def split: option.splits)
  show ?thesis
  proof (cases "db' = db")
    case False
    then obtain db1 where "fold_err (restore_line conta i (sa_inventoryStatus s)) db (sa_items s) = Inr db1"
      and "db' = update_sale i (\<lambda>s. s\<lparr>sa_inventoryStatus := INV_CANCELED\<rparr>) db1"
      using assms(2) s by (auto simp: cancelSaleInventory_def restoreInventoryForCanceledSale_def and_then_Inr_iff split: if_splits)
    then show ?thesis using fold_err_invariant [of "restore_line conta i (sa_inventoryStatus s)" db "sa_items s" db1 safe] restore_line_safe assms(1) by auto
  qed (use assms in simp)
qed

lemma return_transaction_safe:
  assumes "safe db" "return_transaction db conta sale req fp ls = Inr (db', r)"
  shows "safe db'"
proof (cases "db' = db")
  case False
  then obtain s rs db1 where run: "fold_err (return_line_step conta s) (db\<lparr>db_returns := rs, db_next := Suc (db_next db)\<rparr>) ls = Inr db1"
    and db': "safe db' = safe db1"
    using assms(2) unfolding return_transaction_def Let_def by (auto simp: and_then_Inr_iff split: if_splits option.splits)
  have "safe (db\<lparr>db_returns := rs, db_next := Suc (db_next db)\<rparr>)"
    using assms(1) same_stock [of "db\<lparr>db_returns := rs, db_next := Suc (db_next db)\<rparr>" db] by simp
  then show ?thesis using fold_err_invariant [OF run, of safe] return_line_safe db' by auto
qed (use assms in simp)

lemma return_safe:
  assumes "safe db" "registerSaleReturn db conta sale req fp ls = Inr (db', r)"
  shows "safe db'"
  using assms return_transaction_safe [OF assms(1)] unfolding registerSaleReturn_def
  by (auto simp: and_then_Inr_iff split: if_splits sum.splits option.splits)

lemma link_safe:
  "safe db \<Longrightarrow> link_plan_sales db conta plan charge = Inr db' \<Longrightarrow> safe db'"
  using same_stock [of db' db] by (auto simp: link_plan_sales_def Let_def split: if_splits)

lemma pay_safe:
  assumes "safe db" "fulfillReservedSaleOnPayment db conta charge = (db', r)"
  shows "safe db'"
proof (cases "read_paid_sale db conta charge")
  case (Inl e)
  then show ?thesis using assms by (simp add: fulfillReservedSaleOnPayment_def)
next
  case (Inr x)
  then obtain db1 os where read: "read_paid_sale db conta charge = Inr (db1, os)" by (cases x) simp
  then have "db1 = db \<or> (\<exists>plan. link_plan_sales db conta plan charge = Inr db1)"
    unfolding read_paid_sale_def by (auto simp: and_then_Inr_iff split: option.splits if_splits)
  then have safe1: "safe db1" using assms(1) link_safe by blast
  show ?thesis
  proof (cases "db' = db1")
    case False
    then obtain s where "commit_paid_sale db1 conta s = Inr db'"
      using assms(2) read by (auto simp: fulfillReservedSaleOnPayment_def split: option.splits if_splits sum.splits)
    then obtain db2 where run: "fold_err (fulfill_line conta (sa_id s) K_FULFILL_ON_PAYMENT) db1 (sa_items s) = Inr db2"
      and db': "safe db' = safe db2"
      by (auto simp: commit_paid_sale_def and_then_Inr_iff)
    show ?thesis using fold_err_invariant [OF run, of safe] fulfill_line_safe safe1 db' by auto
  qed (use safe1 in simp)
qed

lemma link_first_safe:
  "safe db \<Longrightarrow> linkSaleToFirstInstallmentCharge db conta plan = Inr (db', r) \<Longrightarrow> safe db'"
  unfolding linkSaleToFirstInstallmentCharge_def
  by (auto simp: and_then_Inr_iff split: option.splits intro: link_safe)


lemma cancel_records_safe: "safe db \<Longrightarrow> cancel_sale_records db conta i = Inr db' \<Longrightarrow> safe db'"
  unfolding cancel_sale_records_def by (auto simp: and_then_Inr_iff intro: cancel_sale_safe)

lemma link_created_safe: "safe db \<Longrightarrow> link_created_charge db conta i installment created = Inr db' \<Longrightarrow> safe db'"
  unfolding link_created_charge_def attach_charge_def by (auto split: if_splits list.splits)

lemma run_op_safe:
  assumes start: "safe db" and ok: "catalogue_ok op'" "\<not> is_adjustment op'"
  shows "safe (run_op db op')"
proof (cases op')
  case (OP_ADJUST x)
  then show ?thesis using ok by simp
next
  case (OP_CATALOGUE ps vs)
  then show ?thesis using start ok catalogue by simp
next
  case (OP_CHARGES cs)
  have "safe (run_op db op') = safe db" by (rule same_stock) (simp_all add: OP_CHARGES)
  then show ?thesis using start by simp
next
  case (OP_RECONCILE conta dry)
  then show ?thesis
    using reconcile_keeps [of safe, OF _ start] pay_safe by (metis prod.collapse run_op.simps(13))
next
  case (OP_ENTRY x)
  show ?thesis unfolding OP_ENTRY run_op.simps
    by (rule committed_result_keeps [of safe, OF start]) (rule entry_safe [OF start])
next
  case (OP_PLAN conta req items)
  show ?thesis unfolding OP_PLAN run_op.simps
    by (rule committed_result_keeps [of safe, OF start]) (rule plan_safe [OF start])
next
  case (OP_RECEIVE conta i rs)
  show ?thesis unfolding OP_RECEIVE run_op.simps
    by (rule committed_keeps [of safe, OF start]) (rule receive_safe [OF start])
next
  case (OP_CANCEL_ORDER conta i)
  show ?thesis unfolding OP_CANCEL_ORDER run_op.simps
    by (rule committed_keeps [of safe, OF start]) (rule cancel_order_safe [OF start])
next
  case (OP_SELL conta req final mode ls)
  show ?thesis unfolding OP_SELL run_op.simps
    by (rule committed_result_keeps [of safe, OF start]) (rule sell_safe [OF start])
next
  case (OP_FULFILL conta i)
  show ?thesis unfolding OP_FULFILL run_op.simps
    by (rule committed_keeps [of safe, OF start]) (rule fulfill_safe [OF start])
next
  case (OP_RETURN conta i req fp ls)
  show ?thesis unfolding OP_RETURN run_op.simps
    by (rule committed_result_keeps [of safe, OF start]) (rule return_safe [OF start])
next
  case (OP_CANCEL_SALE conta i)
  show ?thesis unfolding OP_CANCEL_SALE run_op.simps
    by (rule committed_keeps [of safe, OF start]) (rule cancel_records_safe [OF start])
next
  case (OP_LINK conta plan)
  show ?thesis unfolding OP_LINK run_op.simps
    by (rule committed_result_keeps [of safe, OF start]) (rule link_first_safe [OF start])
next
  case (OP_BILL conta i installment created)
  show ?thesis unfolding OP_BILL run_op.simps
    by (rule committed_keeps [of safe, OF start]) (rule link_created_safe [OF start])
next
  case (OP_PAY conta charge)
  then show ?thesis using pay_safe [OF start surjective_pairing] by simp
qed

end

section \<open>The ledger, whatever is delivered\<close>

lemma sale_line_split:
  assumes "sale_line_step conta sale mode db (r, u) = Inr db'"
  obtains db1 b c where "getOrCreateInventoryBalance db conta (the (si_productId r)) (si_variantId r) = Inr (db1, b)"
    "apply_change db1 c = Inr db'"
  using assms unfolding sale_line_step_def by (auto simp: and_then_Inr_iff split: if_splits)

lemma adjustment_split:
  assumes "adjustInventory db x = Inr (db', b)"
  obtains db1 b1 c p v where "getOrCreateInventoryBalance db (aj_contaId x) p v = Inr (db1, b1)"
    "apply_change db1 c = Inr db'"
  using assms unfolding adjustInventory_def
  by (auto simp: and_then_Inr_iff Let_def split: if_splits dest!: applyInventoryChange_Inr)

interpretation ledger_stock: safe_stock ledger_inv
proof
  show "ledger_inv db' = ledger_inv db" if "db_balances db' = db_balances db" "db_movements db' = db_movements db"
    "db_products db' = db_products db" "db_variants db' = db_variants db" for db db'
    using that by (rule ledger_inv_cong)
  show "ledger_inv db'" if "ledger_inv db" "apply_change db c = Inr db'" for db c db'
    using that by (rule apply_change_ledger)
  show "ledger_inv db'" if "ledger_inv db" "sale_line_step conta sale mode db (r, u) = Inr db'" for db conta sale mode r u db'
    using that(2) by (rule sale_line_split) (use getOrCreate_ledger(1) [OF that(1)] apply_change_ledger in blast)
  show "ledger_inv (db\<lparr>db_products := ps, db_variants := vs\<rparr>)"
    if "ledger_inv db" "list_all (\<lambda>p. 0 \<le> p_stock p) ps" "list_all (\<lambda>v. 0 \<le> v_stock v) vs" for db ps vs
    using that
    by (simp add: ledger_inv_def stock_wf_def list_all_iff trail_ok_def trail_def [abs_def] find_balance_def [abs_def])
qed

lemma run_op_ledger:
  assumes "ledger_inv db" "catalogue_ok x"
  shows "ledger_inv (run_op db x)"
proof (cases "is_adjustment x")
  case True
  then obtain a where x: "x = OP_ADJUST a" by (cases x) simp_all
  show ?thesis unfolding x run_op.simps
  proof (rule committed_result_keeps [of ledger_inv, OF assms(1)])
    show "ledger_inv db'" if "adjustInventory db a = Inr (db', b)" for db' b
      using that by (rule adjustment_split) (use getOrCreate_ledger(1) [OF assms(1)] apply_change_ledger in blast)
  qed
next
  case False
  then show ?thesis using ledger_stock.run_op_safe assms by blast
qed

lemma store_run_ledger:
  "store_run allowed db \<Longrightarrow> (\<And>x. allowed x \<Longrightarrow> catalogue_ok x) \<Longrightarrow> ledger_inv db"
  by (induction rule: store_run.induct) (auto simp: store_inv_def dest: fresh_store_inv intro: run_op_ledger)

section \<open>The opening stock\<close>

text \<open>
  The stock an item opened with: what was on hand before its first movement. It is that of the balance as
  long as there is no movement.
\<close>

fun opening_of :: "movement list \<Rightarrow> balance option \<Rightarrow> int" where
  "opening_of (m # ms) b = m_onHandBefore m"
| "opening_of [] (Some b) = b_onHand b"
| "opening_of [] None = 0"

definition opening_stock :: "stock_db \<Rightarrow> string \<Rightarrow> item_key \<Rightarrow> int" where
  "opening_stock db conta k = opening_of (trail db conta k) (find_balance db conta k)"

lemma replays_from_opening:
  assumes "ledger_inv db" "find_balance db conta k = Some b"
  shows "0 \<le> opening_stock db conta k \<and> replays (opening_stock db conta k, 0, 0) (trail db conta k) = Some (counters_of b)"
proof -
  have "fits (trail db conta k) (Some b)"
    using assms unfolding ledger_inv_def trail_ok_def by metis
  then obtain start where s: "0 \<le> start" "replays (start, 0, 0) (trail db conta k) = Some (counters_of b)" by auto
  have "opening_stock db conta k = start"
  proof (cases "trail db conta k")
    case Nil
    then show ?thesis using s assms(2) by (simp add: opening_stock_def counters_of_def)
  next
    case (Cons m ms)
    then have "before_of m = (start, 0, 0)" using s(2) by (simp split: if_splits)
    then show ?thesis using Cons by (simp add: opening_stock_def before_of_def)
  qed
  with s show ?thesis by simp
qed

text \<open>The openings that one state of the store has are those of another.\<close>

definition openings_kept :: "stock_db \<Rightarrow> stock_db \<Rightarrow> bool" where
  "openings_kept db db' \<longleftrightarrow> (\<forall>conta k. find_balance db conta k \<noteq> None \<longrightarrow>
     find_balance db' conta k \<noteq> None \<and> opening_stock db' conta k = opening_stock db conta k)"

lemma openings_refl: "openings_kept db db"
  by (simp add: openings_kept_def)

lemma openings_trans: "openings_kept db db1 \<Longrightarrow> openings_kept db1 db2 \<Longrightarrow> openings_kept db db2"
  by (simp add: openings_kept_def)

lemma create_openings:
  assumes "ledger_inv db" "getOrCreateInventoryBalance db conta product variant = Inr (db1, b)"
  shows "openings_kept db db1"
proof -
  have wf: "stock_wf db" using assms(1) by (simp add: ledger_inv_def)
  note c = getOrCreate_Inr [OF wf assms(2)]
  have "trail db1 = trail db" using c(3) by (simp add: trail_def [abs_def])
  moreover have "find_balance db1 conta' k = find_balance db conta' k" if "find_balance db conta' k \<noteq> None" for conta' k
    using c(1) c(5) [of conta' k] c(6) that by (cases "(conta', k) = (conta, buildInventoryItemKey product variant)") auto
  ultimately show ?thesis by (simp add: openings_kept_def opening_stock_def)
qed

lemma change_openings:
  assumes "ledger_inv db" "apply_change db c = Inr db'"
  shows "openings_kept db db'"
proof (cases "change_id c \<in> set (map movement_id (db_movements db))")
  case True
  then show ?thesis using apply_change_known [OF True assms(2)] openings_refl by simp
next
  case False
  have wf: "stock_wf db" using assms(1) by (simp add: ledger_inv_def)
  show ?thesis
  proof (rule apply_change_fresh [OF wf False assms(2)])
    fix b m u
    assume ms: "db_movements db' = db_movements db @ [m]" and m: "m_key m = change_key c" "movement_id m = change_id c"
      and before: "before_of m = counters_of b"
      and old: "find_balance db (ch_contaId c) (change_key c) = Some b \<or>
        find_balance db (ch_contaId c) (change_key c) = None \<and> 0 \<le> b_onHand b \<and> b_reserved b = 0 \<and> b_incoming b = 0"
      and u: "find_balance db' (ch_contaId c) (change_key c) = Some u"
      and others: "\<And>conta k. (conta, k) \<noteq> (ch_contaId c, change_key c) \<Longrightarrow> find_balance db' conta k = find_balance db conta k"
    have trail: "trail db' conta k = trail db conta k @ (if (conta, k) = (ch_contaId c, change_key c) then [m] else [])" for conta k
      using m(1) movement_contaId [OF m(2)] by (auto simp: trail_def ms)
    have "find_balance db' conta k \<noteq> None \<and> opening_stock db' conta k = opening_stock db conta k"
      if k: "find_balance db conta k \<noteq> None" for conta k
    proof (cases "(conta, k) = (ch_contaId c, change_key c)")
      case True
      then have "find_balance db conta k = Some b" using old k by auto
      then show ?thesis
        using True u trail [of conta k] before
        by (cases "trail db conta k") (auto simp: opening_stock_def before_of_def counters_of_def)
    next
      case False
      then have "trail db' conta k = trail db conta k" using trail by auto
      then show ?thesis using others [OF False] k by (simp add: opening_stock_def)
    qed
    then show ?thesis by (simp add: openings_kept_def)
  qed
qed

text \<open>So a state whose ledger is in order keeps the openings of an earlier one.\<close>

definition opened_as :: "stock_db \<Rightarrow> stock_db \<Rightarrow> bool" where
  "opened_as db0 db \<longleftrightarrow> ledger_inv db \<and> openings_kept db0 db"

lemma opened_change: "opened_as db0 db \<Longrightarrow> apply_change db c = Inr db' \<Longrightarrow> opened_as db0 db'"
  using apply_change_ledger change_openings openings_trans unfolding opened_as_def by blast

lemma opened_create:
  "opened_as db0 db \<Longrightarrow> getOrCreateInventoryBalance db conta product variant = Inr (db1, b) \<Longrightarrow> opened_as db0 db1"
  using getOrCreate_ledger(1) create_openings openings_trans unfolding opened_as_def by blast

lemma openings_cong:
  "db_balances db' = db_balances db \<Longrightarrow> db_movements db' = db_movements db \<Longrightarrow> openings_kept db0 db' = openings_kept db0 db"
  by (simp add: openings_kept_def opening_stock_def trail_def find_balance_def)

interpretation opening_history: safe_stock "opened_as db0" for db0
proof
  show "opened_as db0 db' = opened_as db0 db" if "db_balances db' = db_balances db" "db_movements db' = db_movements db"
    "db_products db' = db_products db" "db_variants db' = db_variants db" for db db'
    using ledger_inv_cong [OF that] openings_cong [OF that(1,2)] by (simp add: opened_as_def)
  show "opened_as db0 db'" if "opened_as db0 db" "apply_change db c = Inr db'" for db c db'
    using that by (rule opened_change)
  show "opened_as db0 db'" if "opened_as db0 db" "sale_line_step conta sale mode db (r, u) = Inr db'" for db conta sale mode r u db'
    using that(2) by (rule sale_line_split) (use opened_create [OF that(1)] opened_change in blast)
  show "opened_as db0 (db\<lparr>db_products := ps, db_variants := vs\<rparr>)"
    if "opened_as db0 db" "list_all (\<lambda>p. 0 \<le> p_stock p) ps" "list_all (\<lambda>v. 0 \<le> v_stock v) vs" for db ps vs
    using that ledger_stock.catalogue openings_cong [of "db\<lparr>db_products := ps, db_variants := vs\<rparr>" db]
    by (simp add: opened_as_def)
qed

lemma run_op_opened:
  assumes "opened_as db0 db" "catalogue_ok x"
  shows "opened_as db0 (run_op db x)"
proof (cases "is_adjustment x")
  case True
  then obtain a where x: "x = OP_ADJUST a" by (cases x) simp_all
  show ?thesis unfolding x run_op.simps
  proof (rule committed_result_keeps [of "opened_as db0", OF assms(1)])
    show "opened_as db0 db'" if "adjustInventory db a = Inr (db', b)" for db' b
      using that by (rule adjustment_split) (use opened_create [OF assms(1)] opened_change in blast)
  qed
next
  case False
  then show ?thesis using opening_history.run_op_safe assms by blast
qed

lemma openings_for_ever:
  "opened_as db0 db \<Longrightarrow> list_all catalogue_ok ops \<Longrightarrow> opened_as db0 (foldl run_op db ops)"
  by (induction ops arbitrary: db) (simp_all add: run_op_opened)

end
