(* ===== verification/StoreAccounts.thy ===== *)
theory StoreAccounts
  imports StoreHistories
begin

text \<open>
  The accounts of an item: its counters are the sums of its movements, and the movements are exactly
  those of its sales, its restock orders and the manual changes.
\<close>

section \<open>Counters as sums of postings\<close>

definition booked_sum :: "(posting \<Rightarrow> int) \<Rightarrow> posting list \<Rightarrow> string \<Rightarrow> item_key \<Rightarrow> int" where
  "booked_sum f es conta k = sum_list (map f (filter (\<lambda>e. po_contaId e = conta \<and> po_key e = k) es))"

definition manual_total :: "(posting \<Rightarrow> int) \<Rightarrow> posting list \<Rightarrow> string \<Rightarrow> item_key \<Rightarrow> int" where
  "manual_total f es conta k = sum_list (map f (filter (\<lambda>e. po_contaId e = conta \<and> po_key e = k \<and>
     (case po_origin e of MANUAL_ENTRY _ \<Rightarrow> True | MANUAL_ADJUSTMENT _ \<Rightarrow> True | _ \<Rightarrow> False)) es))"

lemma replays_sums:
  "replays (a, b, c) ms = Some (x, y, z) \<Longrightarrow>
   x = a + sum_list (map m_onHandDelta ms) \<and> y = b + sum_list (map m_reservedDelta ms) \<and>
   z = c + sum_list (map m_incomingDelta ms)"
proof (induction ms arbitrary: a b c)
  case (Cons m ms)
  obtain p q r where after: "after_of m = (p, q, r)" by (cases "after_of m") auto
  have step: "after_of m = add_counters (a, b, c) (deltas_of m)" "replays (after_of m) ms = Some (x, y, z)"
    using Cons.prems by (auto split: if_splits)
  then show ?case using Cons.IH [of p q r] after by (auto simp: deltas_of_def)
qed simp

lemma total_trail:
  "booked_sum f (postings db) conta k = sum_list (map (\<lambda>m. f (posting_of m)) (trail db conta k))"
  unfolding booked_sum_def postings_def trail_def
  by (induction "db_movements db") (auto simp: posting_of_def filter_map comp_def)

lemma counters_totals:
  assumes "ledger_inv db" "find_balance db conta k = Some b"
  shows "b_onHand b = opening_stock db conta k + booked_sum po_onHand (postings db) conta k"
    and "b_reserved b = booked_sum po_reserved (postings db) conta k"
    and "b_incoming b = booked_sum po_incoming (postings db) conta k"
proof -
  have start: "replays (opening_stock db conta k, 0, 0) (trail db conta k) = Some (b_onHand b, b_reserved b, b_incoming b)"
    using replays_from_opening [OF assms] by (simp add: counters_of_def)
  note sums = replays_sums [OF start]
  show "b_onHand b = opening_stock db conta k + booked_sum po_onHand (postings db) conta k"
    "b_reserved b = booked_sum po_reserved (postings db) conta k" "b_incoming b = booked_sum po_incoming (postings db) conta k"
    using sums by (simp_all add: total_trail posting_of_def)
qed

text \<open>Without a balance there is no movement.\<close>

lemma total_no_balance:
  assumes "ledger_inv db" "find_balance db conta k = None"
  shows "booked_sum f (postings db) conta k = 0"
proof -
  have "fits (trail db conta k) None" using assms unfolding ledger_inv_def trail_ok_def by metis
  then show ?thesis by (simp add: total_trail)
qed

section \<open>Sums over documents\<close>

definition over_sales :: "(store_sale \<Rightarrow> int) \<Rightarrow> stock_db \<Rightarrow> string \<Rightarrow> int" where
  "over_sales f db conta = sum_list (map f (filter (\<lambda>s. sa_contaId s = conta) (db_sales db)))"

definition over_orders :: "(restock_order \<Rightarrow> int) \<Rightarrow> stock_db \<Rightarrow> string \<Rightarrow> int" where
  "over_orders f db conta = sum_list (map f (filter (\<lambda>x. ro_contaId x = conta) (db_orders db)))"

lemma sum_one:
  "distinct (map g xs) \<Longrightarrow> x \<in> set xs \<Longrightarrow> sum_list (map (\<lambda>y. if g y = g x then (v :: int) else 0) xs) = v"
proof (induction xs)
  case (Cons y ys)
  show ?case
  proof (cases "g y = g x")
    case True
    then have "\<forall>z \<in> set ys. g z \<noteq> g x" using Cons.prems by (force simp: image_iff)
    then have "sum_list (map (\<lambda>y. if g y = g x then v else 0) ys) = 0" by (induction ys) auto
    then show ?thesis using True by simp
  next
    case False
    then show ?thesis using Cons by auto
  qed
qed simp

lemma sum_none: "(\<forall>y \<in> set xs. g y \<noteq> i) \<Longrightarrow> sum_list (map (\<lambda>y. if g y = i then (v :: int) else 0) xs) = 0"
  by (induction xs) auto

text \<open>Postings of one kind of origin, grouped by document.\<close>

lemma grouped:
  assumes ids: "distinct (map g xs)"
    and owner: "\<And>e i. e \<in> set es \<Longrightarrow> po_origin e = mk i \<Longrightarrow> \<exists>x \<in> set xs. g x = i \<and> c x = po_contaId e"
    and inj: "\<And>i j. mk i = mk j \<longleftrightarrow> i = j"
  shows "sum_list (map (\<lambda>x. moved f es conta (mk (g x)) k) (filter (\<lambda>x. c x = conta) xs)) =
     sum_list (map f (filter (\<lambda>e. po_contaId e = conta \<and> po_key e = k \<and> (\<exists>i. po_origin e = mk i)) es))"
  using owner
proof (induction es)
  case (Cons e es)
  let ?xs = "filter (\<lambda>x. c x = conta) xs"
  have "sum_list (map (\<lambda>x. moved f [e] conta (mk (g x)) k) ?xs) =
    (if po_contaId e = conta \<and> po_key e = k \<and> (\<exists>i. po_origin e = mk i) then f e else 0)"
  proof (cases "po_contaId e = conta \<and> po_key e = k \<and> (\<exists>i. po_origin e = mk i)")
    case True
    then obtain i where i: "po_origin e = mk i" by blast
    then obtain x where x: "x \<in> set xs" "g x = i" "c x = po_contaId e" using Cons.prems [of e] by auto
    have "(\<lambda>y. moved f [e] conta (mk (g y)) k) = (\<lambda>y. if g y = g x then f e else 0)"
      using True i x(2) inj by (auto simp: moved_single booked_for_def fun_eq_iff)
    moreover have "distinct (map g ?xs)" using ids by (rule distinct_map_filter)
    ultimately show ?thesis using sum_one [of g ?xs x "f e"] True x by simp
  next
    case False
    have "moved f [e] conta (mk (g y)) k = 0" for y
      using False by (auto simp: moved_single booked_for_def)
    then show ?thesis unfolding if_not_P [OF False] by simp
  qed
  moreover have "moved f (e # es) conta (mk (g x)) k = moved f [e] conta (mk (g x)) k + moved f es conta (mk (g x)) k" for x
    using moved_append [of f "[e]" es] by simp
  ultimately show ?case using Cons by (auto simp: sum_list_addf)
qed simp

lemma sum_filter_split:
  "(\<And>x. x \<in> set xs \<Longrightarrow> P x \<longleftrightarrow> A x \<or> B x \<or> C x) \<Longrightarrow> (\<And>x. \<not> (A x \<and> B x) \<and> \<not> (A x \<and> C x) \<and> \<not> (B x \<and> C x)) \<Longrightarrow>
   sum_list (map (f :: _ \<Rightarrow> int) (filter P xs)) =
   sum_list (map f (filter A xs)) + sum_list (map f (filter B xs)) + sum_list (map f (filter C xs))"
proof (induction xs)
  case (Cons x xs)
  have "P x \<longleftrightarrow> A x \<or> B x \<or> C x" using Cons.prems(1) by simp
  moreover have "sum_list (map f (filter P xs)) =
    sum_list (map f (filter A xs)) + sum_list (map f (filter B xs)) + sum_list (map f (filter C xs))"
    using Cons by simp
  ultimately show ?case using Cons.prems(2) [of x] by (cases "A x"; cases "B x"; cases "C x") simp_all
qed simp

lemma sum_list_0: "(\<And>x. x \<in> set xs \<Longrightarrow> f x = (0 :: int)) \<Longrightarrow> sum_list (map f xs) = 0"
  by (induction xs) auto

lemma total_split:
  assumes docs: "docs_inv db"
  shows "booked_sum f (postings db) conta k = manual_total f (postings db) conta k
     + over_sales (\<lambda>s. moved f (postings db) conta (SALE_ORIGIN (sa_id s)) k) db conta
     + over_orders (\<lambda>x. moved f (postings db) conta (RESTOCK_ORDER (ro_id x)) k) db conta"
proof -
  have sales: "over_sales (\<lambda>s. moved f (postings db) conta (SALE_ORIGIN (sa_id s)) k) db conta =
     sum_list (map f (filter (\<lambda>e. po_contaId e = conta \<and> po_key e = k \<and> (\<exists>i. po_origin e = SALE_ORIGIN i)) (postings db)))"
    unfolding over_sales_def
  proof (rule grouped [where c = sa_contaId and g = sa_id])
    show "distinct (map sa_id (db_sales db))" using docs by (simp add: docs_inv_def sale_ids_def)
    show "\<exists>s \<in> set (db_sales db). sa_id s = i \<and> sa_contaId s = po_contaId e"
      if e: "e \<in> set (postings db)" "po_origin e = SALE_ORIGIN i" for e i
    proof -
      have "posting_owned (set (sale_ids db)) (set (order_ids db)) e" using docs e(1) by (simp add: docs_inv_def)
      then obtain s where s: "s \<in> set (db_sales db)" "sa_id s = i" using e(2) by (auto simp: posting_owned_def sale_ids_def)
      then have "sale_action s e" using docs e by (auto simp: docs_inv_def sale_ok_def)
      then show ?thesis using s by (auto simp: sale_action_def)
    qed
  qed simp
  have orders: "over_orders (\<lambda>x. moved f (postings db) conta (RESTOCK_ORDER (ro_id x)) k) db conta =
     sum_list (map f (filter (\<lambda>e. po_contaId e = conta \<and> po_key e = k \<and> (\<exists>i. po_origin e = RESTOCK_ORDER i)) (postings db)))"
    unfolding over_orders_def
  proof (rule grouped [where c = ro_contaId and g = ro_id])
    show "distinct (map ro_id (db_orders db))" using docs by (simp add: docs_inv_def order_ids_def)
    show "\<exists>x \<in> set (db_orders db). ro_id x = i \<and> ro_contaId x = po_contaId e"
      if e: "e \<in> set (postings db)" "po_origin e = RESTOCK_ORDER i" for e i
    proof -
      have "posting_owned (set (sale_ids db)) (set (order_ids db)) e" using docs e(1) by (simp add: docs_inv_def)
      then obtain x where x: "x \<in> set (db_orders db)" "ro_id x = i" using e(2) by (auto simp: posting_owned_def order_ids_def)
      then have "order_action x e" using docs e by (auto simp: docs_inv_def order_ok_def)
      then show ?thesis using x by (auto simp: order_action_def)
    qed
  qed simp
  show ?thesis
    unfolding sales orders booked_sum_def manual_total_def
    by (rule sum_filter_split) (auto split: origin.splits)
qed

lemma manual_total_zero:
  assumes "docs_inv db" "f = po_reserved \<or> f = po_incoming"
  shows "manual_total f (postings db) conta k = 0"
proof -
  have "f e = 0" if "e \<in> set (postings db)"
    "case po_origin e of MANUAL_ENTRY _ \<Rightarrow> True | MANUAL_ADJUSTMENT _ \<Rightarrow> True | _ \<Rightarrow> False" for e
    using assms that by (auto simp: docs_inv_def posting_owned_def split: origin.splits)
  then show ?thesis unfolding manual_total_def by (intro sum_list_0) simp
qed

lemma over_sales_cong:
  "(\<And>s. s \<in> set (db_sales db) \<Longrightarrow> sa_contaId s = conta \<Longrightarrow> f s = g s) \<Longrightarrow> over_sales f db conta = over_sales g db conta"
  unfolding over_sales_def by (intro arg_cong [where f = sum_list] map_cong) auto

lemma over_orders_cong:
  "(\<And>x. x \<in> set (db_orders db) \<Longrightarrow> ro_contaId x = conta \<Longrightarrow> f x = g x) \<Longrightarrow> over_orders f db conta = over_orders g db conta"
  unfolding over_orders_def by (intro arg_cong [where f = sum_list] map_cong) auto

lemma total_documents:
  assumes docs: "docs_inv db"
  shows "booked_sum po_reserved (postings db) conta k = over_sales (\<lambda>s. reserved_by s k) db conta"
    and "booked_sum po_incoming (postings db) conta k = over_orders (\<lambda>x. incoming_by x k) db conta"
    and "booked_sum po_onHand (postings db) conta k = manual_total po_onHand (postings db) conta k
       - over_sales (\<lambda>s. shipped_by s k) db conta + over_orders (\<lambda>x. item_sum ri_received (ro_items x) k) db conta"
proof -
  have sale: "moved po_reserved (postings db) conta (SALE_ORIGIN (sa_id s)) k = reserved_by s k"
    "moved po_onHand (postings db) conta (SALE_ORIGIN (sa_id s)) k = - shipped_by s k"
    "moved po_incoming (postings db) conta (SALE_ORIGIN (sa_id s)) k = 0"
    if "s \<in> set (db_sales db)" "sa_contaId s = conta" for s
    using docs that by (auto simp: docs_inv_def sale_ok_def sale_booked_def sale_action_def intro!: moved_zero)
  have order: "moved po_incoming (postings db) conta (RESTOCK_ORDER (ro_id x)) k = incoming_by x k"
    "moved po_onHand (postings db) conta (RESTOCK_ORDER (ro_id x)) k = item_sum ri_received (ro_items x) k"
    "moved po_reserved (postings db) conta (RESTOCK_ORDER (ro_id x)) k = 0"
    if "x \<in> set (db_orders db)" "ro_contaId x = conta" for x
    using docs that by (auto simp: docs_inv_def order_ok_def order_booked_def order_action_def intro!: moved_zero)
  have zero: "over_sales (\<lambda>s. 0) db conta = 0" "over_orders (\<lambda>x. 0) db conta = 0"
    by (simp_all add: over_sales_def over_orders_def sum_list_triv)
  have neg: "over_sales (\<lambda>s. - shipped_by s k) db conta = - over_sales (\<lambda>s. shipped_by s k) db conta"
    unfolding over_sales_def by (induction "filter (\<lambda>s. sa_contaId s = conta) (db_sales db)") (simp_all add: uminus_sum_list_map comp_def)
  note by_sale = over_sales_cong [OF sale(1)] over_sales_cong [OF sale(2)] over_sales_cong [OF sale(3)]
  note by_order = over_orders_cong [OF order(1)] over_orders_cong [OF order(2)] over_orders_cong [OF order(3)]
  show "booked_sum po_reserved (postings db) conta k = over_sales (\<lambda>s. reserved_by s k) db conta"
    using total_split [OF docs, of po_reserved conta k] manual_total_zero [OF docs, of po_reserved] by_sale(1) by_order(3) zero
    by simp
  show "booked_sum po_incoming (postings db) conta k = over_orders (\<lambda>x. incoming_by x k) db conta"
    using total_split [OF docs, of po_incoming conta k] manual_total_zero [OF docs, of po_incoming] by_sale(3) by_order(1) zero
    by simp
  show "booked_sum po_onHand (postings db) conta k = manual_total po_onHand (postings db) conta k
       - over_sales (\<lambda>s. shipped_by s k) db conta + over_orders (\<lambda>x. item_sum ri_received (ro_items x) k) db conta"
    using total_split [OF docs, of po_onHand conta k] by_sale(2) by_order(2) neg by simp
qed


section \<open>The accounts of every history\<close>

text \<open>A store with one product, and a history: stock bought, units reserved by one sale and sold by another.\<close>

definition demo_store :: stock_db where
  "demo_store = \<lparr>db_products = [\<lparr>p_id = ''p'', p_contaId = ''c'', p_stock = 2, p_hasVariants = False, p_archived = False\<rparr>],
     db_variants = [], db_balances = [], db_movements = [], db_orders = [], db_sales = [],
     db_charges = [], db_returns = [], db_next = 0\<rparr>"

definition demo_line :: "int \<Rightarrow> prepared_line" where
  "demo_line n = \<lparr>pl_productId = ''p'', pl_variantId = None, pl_quantity = n, pl_subtotal = Fin (10 * of_int n),
     pl_unitCost = Fin 4, pl_discountShare = Fin 0, pl_net = Fin (10 * of_int n)\<rparr>"

definition demo_sell :: "string \<Rightarrow> inventory_mode \<Rightarrow> int \<Rightarrow> store_op" where
  "demo_sell req mode n = OP_SELL ''c'' req FIN_COBRANCA mode [demo_line n]"

definition demo_plan :: "store_op" where
  "demo_plan = OP_PLAN ''c'' ''r1'' [\<lparr>ol_productId = ''p'', ol_variantId = None, ol_quantity = Fin 10, ol_unitCost = Fin 4\<rparr>]"

definition demo_history :: "store_op list" where
  "demo_history = [demo_plan, OP_RECEIVE ''c'' 0 [\<lparr>rc_itemId = 1, rc_quantity = Fin 6, rc_unitCost = None\<rparr>],
     demo_sell ''s1'' MODE_RESERVE 3, demo_sell ''s2'' MODE_IMMEDIATE 1]"

lemma fresh_demo: "fresh_store demo_store"
  by (simp add: fresh_store_def demo_store_def stock_wf_def)

lemma store_run_foldl:
  "store_run allowed db \<Longrightarrow> list_all allowed ops \<Longrightarrow> store_run allowed (foldl run_op db ops)"
  by (induction ops arbitrary: db) (auto intro: store_run.op)

lemma demo_run: "store_run op_ok (foldl run_op demo_store demo_history)"
  by (rule store_run_foldl [OF store_run.start [OF fresh_demo]])
    (simp add: demo_history_def demo_plan_def demo_sell_def lines_ok_def demo_line_def)


lemma demo_balance:
  "map_option counters_of (find_balance (foldl run_op demo_store demo_history) ''c'' (ProductKey ''p'')) = Some (7, 3, 4)"
  by code_simp

lemma demo_run_any: "store_run catalogue_ok (foldl run_op demo_store demo_history)"
  by (rule store_run_foldl [OF store_run.start [OF fresh_demo]]) (simp add: demo_history_def demo_plan_def demo_sell_def)

text \<open>C37. The tables stay well formed. In every history, whatever its deliveries, an account has at most one balance of an
  item, under the key of its product or variant, and no counter and no mirrored stock is negative. In every history that
  sells positive quantities and whose deliveries name an item at most once (which the route does not check), the items
  of a document have distinct ids, and no more units of an item come back than were sold, or arrive than were ordered.\<close>

theorem tables_well_formed:
  assumes "store_run catalogue_ok db"
  shows "stock_wf db \<and>
    (store_run op_ok db \<longrightarrow> list_all sale_wf (db_sales db) \<and> list_all (order_wf (db_next db)) (db_orders db))"
proof (intro conjI impI)
  show "stock_wf db" using store_run_ledger [OF assms] by (simp add: ledger_inv_def)
  assume "store_run op_ok db"
  then have "store_inv db" by (rule store_run_inv)
  then show "list_all sale_wf (db_sales db)" "list_all (order_wf (db_next db)) (db_orders db)"
    by (auto simp: store_inv_def docs_inv_def sale_ok_def order_ok_def list_all_iff)
qed

theorem tables_well_formed_witness:
  "list_all sale_wf (db_sales (foldl run_op demo_store demo_history)) \<and> length (db_sales (foldl run_op demo_store demo_history)) = 2 \<and>
     length (db_balances (foldl run_op demo_store demo_history)) = 1"
proof (intro conjI)
  show "list_all sale_wf (db_sales (foldl run_op demo_store demo_history))"
    using tables_well_formed [OF demo_run_any] demo_run by blast
  show "length (db_sales (foldl run_op demo_store demo_history)) = 2" by code_simp
  show "length (db_balances (foldl run_op demo_store demo_history)) = 1" by code_simp
qed

text \<open>C10. In every history of the store, whatever its deliveries, the movements of an item, replayed from the stock its
  balance began with and nothing reserved or on the way, chain without a gap, never go below zero, and end at the
  balance; no movement is recorded twice.\<close>

theorem stock_trail_replays:
  assumes "store_run catalogue_ok db" "find_balance db conta k = Some b"
  shows "(\<exists>start \<ge> 0. replays (start, 0, 0) (trail db conta k) = Some (counters_of b)) \<and>
    distinct (map movement_id (db_movements db))"
proof -
  have "ledger_inv db" by (rule store_run_ledger [OF assms(1)])
  with replays_from_opening [OF this assms(2)] show ?thesis by (auto simp: ledger_inv_def)
qed

theorem stock_trail_replays_witness:
  "\<exists>b. find_balance (foldl run_op demo_store demo_history) ''c'' (ProductKey ''p'') = Some b \<and> counters_of b = (7, 3, 4) \<and>
     (\<exists>start \<ge> 0. replays (start, 0, 0) (trail (foldl run_op demo_store demo_history) ''c'' (ProductKey ''p'')) = Some (7, 3, 4))"
proof -
  obtain b where b: "find_balance (foldl run_op demo_store demo_history) ''c'' (ProductKey ''p'') = Some b"
    and c: "counters_of b = (7, 3, 4)"
    using demo_balance by auto
  show ?thesis using stock_trail_replays [OF demo_run_any b] b c by auto
qed

text \<open>C9. The stock is accounted for by the documents, in every history that sells positive quantities and whose deliveries
  name an item at most once (which the route does not check): what is reserved of an item are the outstanding units of
  the reserved sales, what is on its way is what the open restock orders still expect, and what is on hand is the
  opening stock of the item with the manual changes and the deliveries, less the units that sales have shipped and not
  taken back. The opening stock, the count before the first movement of the item, never changes afterwards, and neither
  does the item lose its balance.\<close>

theorem stock_accounts:
  assumes "store_run op_ok db" "find_balance db conta k = Some b"
  shows "b_reserved b = over_sales (\<lambda>s. reserved_by s k) db conta \<and>
    b_incoming b = over_orders (\<lambda>x. incoming_by x k) db conta \<and>
    b_onHand b = opening_stock db conta k + manual_total po_onHand (postings db) conta k
       + over_orders (\<lambda>x. item_sum ri_received (ro_items x) k) db conta - over_sales (\<lambda>s. shipped_by s k) db conta \<and>
    0 \<le> opening_stock db conta k \<and>
    (\<forall>ops. list_all catalogue_ok ops \<longrightarrow> find_balance (foldl run_op db ops) conta k \<noteq> None \<and>
       opening_stock (foldl run_op db ops) conta k = opening_stock db conta k)"
proof -
  have inv: "ledger_inv db" "docs_inv db" using store_run_inv [OF assms(1)] by (simp_all add: store_inv_def)
  have "opened_as db db" using inv(1) openings_refl by (simp add: opened_as_def)
  then have "opened_as db (foldl run_op db ops)" if "list_all catalogue_ok ops" for ops
    using openings_for_ever that by blast
  then have kept: "find_balance (foldl run_op db ops) conta k \<noteq> None \<and>
      opening_stock (foldl run_op db ops) conta k = opening_stock db conta k" if "list_all catalogue_ok ops" for ops
    using that assms(2) by (auto simp: opened_as_def openings_kept_def)
  show ?thesis
    using counters_totals [OF inv(1) assms(2)] replays_from_opening [OF inv(1) assms(2)] kept
    unfolding total_documents [OF inv(2)] by (simp add: algebra_simps)
qed

theorem stock_accounts_witness:
  "\<exists>b. find_balance (foldl run_op demo_store demo_history) ''c'' (ProductKey ''p'') = Some b \<and> b_reserved b = 3 \<and>
     b_reserved b = over_sales (\<lambda>s. reserved_by s (ProductKey ''p'')) (foldl run_op demo_store demo_history) ''c'' \<and>
     b_onHand b = 7 \<and> opening_stock (foldl run_op demo_store demo_history) ''c'' (ProductKey ''p'') = 2"
proof -
  let ?db = "run_op demo_store demo_plan"
  obtain b where b: "find_balance (foldl run_op demo_store demo_history) ''c'' (ProductKey ''p'') = Some b"
    and c: "counters_of b = (7, 3, 4)"
    using demo_balance by auto
  have "store_run op_ok ?db"
    by (rule store_run.op [OF store_run.start [OF fresh_demo]]) (simp add: demo_plan_def)
  moreover have "find_balance ?db ''c'' (ProductKey ''p'') \<noteq> None" by code_simp
  moreover have "opening_stock ?db ''c'' (ProductKey ''p'') = 2" by code_simp
  moreover have "list_all catalogue_ok (tl demo_history)" "foldl run_op demo_store demo_history = foldl run_op ?db (tl demo_history)"
    by (simp_all add: demo_history_def demo_sell_def)
  ultimately have "opening_stock (foldl run_op demo_store demo_history) ''c'' (ProductKey ''p'') = 2"
    using stock_accounts [of ?db "''c''" "ProductKey ''p''"] by fastforce
  then show ?thesis using stock_accounts [OF demo_run b] b c by (simp add: counters_of_def)
qed

end
