(* ===== verification/StoreSafety.thy ===== *)
theory StoreSafety
  imports StoreAccounts
begin

text \<open>
  What the store never does: without adjustments nothing is sold that is not there, whatever the
  deliveries, and so every reservation can be honoured while the deliveries name an item at most once.
\<close>

section \<open>No overselling\<close>

definition covered :: "stock_db \<Rightarrow> bool" where
  "covered db \<longleftrightarrow> (\<forall>conta k b. find_balance db conta k = Some b \<longrightarrow> b_reserved b \<le> b_onHand b)"

definition sound :: "stock_db \<Rightarrow> bool" where
  "sound db \<longleftrightarrow> ledger_inv db \<and> covered db"

lemma sound_cong:
  "db_balances db' = db_balances db \<Longrightarrow> db_movements db' = db_movements db \<Longrightarrow> db_products db' = db_products db \<Longrightarrow>
   db_variants db' = db_variants db \<Longrightarrow> sound db' = sound db"
  using ledger_inv_cong [of db' db] by (simp add: sound_def covered_def find_balance_def)

lemma sound_updates [simp]:
  "sound (update_sale i f db) = sound db" "sound (update_order i g db) = sound db"
  by (rule sound_cong; simp)+

lemma change_covered:
  assumes sound: "sound db" and res: "apply_change db c = Inr db'"
    and room: "\<And>b. find_balance db (ch_contaId c) (change_key c) = Some b \<Longrightarrow>
      b_reserved b + ch_reserved c \<le> b_onHand b + ch_onHand c"
    and new: "find_balance db (ch_contaId c) (change_key c) = None \<Longrightarrow> ch_reserved c \<le> ch_onHand c"
  shows "sound db'"
proof (cases "change_id c \<in> set (map movement_id (db_movements db))")
  case True
  then show ?thesis using apply_change_known [OF _ res] sound by simp
next
  case False
  have wf: "stock_wf db" and old_covered: "covered db" using sound by (simp_all add: sound_def ledger_inv_def)
  show ?thesis
  proof (rule apply_change_fresh [OF wf False res])
    fix b m u
    assume after: "after_of m = add_counters (counters_of b) (change_deltas c)"
      and old: "find_balance db (ch_contaId c) (change_key c) = Some b \<or>
        find_balance db (ch_contaId c) (change_key c) = None \<and> 0 \<le> b_onHand b \<and> b_reserved b = 0 \<and> b_incoming b = 0"
      and u: "find_balance db' (ch_contaId c) (change_key c) = Some u" "counters_of u = after_of m"
      and others: "\<And>conta k. (conta, k) \<noteq> (ch_contaId c, change_key c) \<Longrightarrow> find_balance db' conta k = find_balance db conta k"
    have next_u: "b_onHand u = b_onHand b + ch_onHand c" "b_reserved u = b_reserved b + ch_reserved c"
      using u(2) after by (simp_all add: counters_of_def change_deltas_def)
    have "b_reserved u \<le> b_onHand u" using old room [of b] new next_u by auto
    then have "covered db'"
      using u(1) others old_covered unfolding covered_def by (metis option.inject prod.inject)
    then show ?thesis using apply_change_ledger [OF _ res] sound by (simp add: sound_def)
  qed
qed

lemma safe_change:
  "sound db \<Longrightarrow> apply_change db c = Inr db' \<Longrightarrow> ch_reserved c \<le> ch_onHand c \<Longrightarrow> sound db'"
  by (rule change_covered) (force simp: sound_def covered_def)+

lemma getOrCreate_sound:
  assumes sound: "sound db" and res: "getOrCreateInventoryBalance db conta product variant = Inr (db1, b)"
  shows "sound db1"
proof -
  have inv: "ledger_inv db" and wf: "stock_wf db" using sound by (simp_all add: sound_def ledger_inv_def)
  note c = getOrCreate_Inr [OF wf res]
  let ?k = "buildInventoryItemKey product variant"
  have "0 \<le> b_onHand b" using find_balanceD [OF c(1)] c(2) by (auto simp: stock_wf_def balance_ok_def)
  then have new: "b_reserved b \<le> b_onHand b" using c(6) sound by (auto simp: sound_def covered_def)
  have "b_reserved x \<le> b_onHand x" if "find_balance db1 conta' k' = Some x" for conta' k' x
  proof (cases "(conta', k') = (conta, ?k)")
    case True
    then show ?thesis using that c(1) new by simp
  next
    case False
    then show ?thesis using that c(5) [OF False] sound by (simp add: sound_def covered_def)
  qed
  then show ?thesis using getOrCreate_ledger(1) [OF inv res] by (simp add: sound_def covered_def)
qed

lemma sale_line_sound:
  assumes sound: "sound db" and res: "sale_line_step conta sale mode db (r, u) = Inr db'"
  shows "sound db'"
proof -
  obtain db1 b cost where create: "getOrCreateInventoryBalance db conta (the (si_productId r)) (si_variantId r) = Inr (db1, b)"
    and room: "si_quantity r \<le> calculateAvailable b"
    and change: "apply_change db1 (sale_change conta sale r
         (if mode = MODE_RESERVE then MT_RESERVE else MT_SALE_OUT)
         (if mode = MODE_IMMEDIATE then - si_quantity r else 0)
         (if mode = MODE_RESERVE then si_quantity r else 0) cost
         False (if mode = MODE_RESERVE then K_RESERVE else K_SALE_OUT)) = Inr db'"
    using res unfolding sale_line_step_def
    by (auto simp: and_then_Inr_iff not_less simp del: inventory_mode.split split: if_splits)
  have wf: "stock_wf db" using sound by (simp add: sound_def ledger_inv_def)
  note found = getOrCreate_Inr(1) [OF wf create]
  show ?thesis
    by (rule change_covered [OF getOrCreate_sound [OF sound create] change]; cases mode)
      (use found room in \<open>auto simp: sale_change_def change_key_def calculateAvailable_def\<close>)
qed

section \<open>Every operation but an adjustment\<close>

interpretation covered_stock: safe_stock sound
proof
  show "sound db' = sound db" if "db_balances db' = db_balances db" "db_movements db' = db_movements db"
    "db_products db' = db_products db" "db_variants db' = db_variants db" for db db'
    using that by (rule sound_cong)
  show "sound db'" if "sound db" "apply_change db c = Inr db'" "ch_reserved c \<le> ch_onHand c" for db c db'
    using that by (rule safe_change)
  show "sound db'" if "sound db" "sale_line_step conta sale mode db (r, u) = Inr db'" for db conta sale mode r u db'
    using that by (rule sale_line_sound)
  show "sound (db\<lparr>db_products := ps, db_variants := vs\<rparr>)"
    if "sound db" "list_all (\<lambda>p. 0 \<le> p_stock p) ps" "list_all (\<lambda>v. 0 \<le> v_stock v) vs" for db ps vs
    using that ledger_stock.catalogue by (simp add: sound_def covered_def find_balance_def)
qed

text \<open>Histories without adjustments, with any deliveries; and those whose deliveries name an item once.\<close>

definition unadjusted :: "store_op \<Rightarrow> bool" where
  "unadjusted x \<longleftrightarrow> catalogue_ok x \<and> \<not> is_adjustment x"

definition without_adjustments :: "store_op \<Rightarrow> bool" where
  "without_adjustments x \<longleftrightarrow> op_ok x \<and> \<not> is_adjustment x"

lemma without_adjustments_unadjusted: "without_adjustments x \<Longrightarrow> unadjusted x"
  by (simp add: without_adjustments_def unadjusted_def op_ok_catalogue)

lemma store_run_mono: "store_run allowed db \<Longrightarrow> (\<And>x. allowed x \<Longrightarrow> allowed' x) \<Longrightarrow> store_run allowed' db"
  by (induction rule: store_run.induct) (auto intro: store_run.intros)

lemma unadjusted_sound: "store_run unadjusted db \<Longrightarrow> sound db"
proof (induction rule: store_run.induct)
  case (start db)
  then have "ledger_inv db" using fresh_store_inv by (simp add: store_inv_def)
  moreover have "b_reserved b \<le> b_onHand b" if "find_balance db conta k = Some b" for conta k b
    using start find_balanceD [OF that] by (auto simp: fresh_store_def list_all_iff stock_wf_def balance_ok_def)
  ultimately show ?case by (simp add: sound_def covered_def)
next
  case (op db op')
  then show ?case by (intro covered_stock.run_op_safe) (simp_all add: unadjusted_def)
qed

lemma store_run_sound: "store_run without_adjustments db \<Longrightarrow> sound db"
  using unadjusted_sound store_run_mono without_adjustments_unadjusted by blast

lemma store_run_serial: "store_run without_adjustments db \<Longrightarrow> store_inv db"
  by (rule store_run_inv [where allowed = without_adjustments]) (simp_all add: without_adjustments_def)

text \<open>C11. Nothing is oversold: in every history without manual adjustments, whatever its deliveries, no more is reserved
  of an item than is on hand, so what the store offers is never negative.\<close>

theorem never_oversold:
  assumes "store_run unadjusted db" "find_balance db conta k = Some b"
  shows "0 \<le> calculateAvailable b \<and> 0 \<le> b_reserved b"
proof -
  have "sound db" by (rule unadjusted_sound [OF assms(1)])
  moreover from this have "balance_ok b"
    using find_balanceD [OF assms(2)] by (simp add: sound_def ledger_inv_def stock_wf_def)
  ultimately show ?thesis
    using assms(2) by (auto simp: sound_def covered_def calculateAvailable_def balance_ok_def)
qed

lemma demo_run_serial: "store_run without_adjustments (foldl run_op demo_store demo_history)"
  by (rule store_run_foldl [OF store_run.start [OF fresh_demo]])
    (simp add: demo_history_def demo_plan_def demo_sell_def lines_ok_def demo_line_def without_adjustments_def)

theorem never_oversold_witness:
  "\<exists>b. find_balance (foldl run_op demo_store demo_history) ''c'' (ProductKey ''p'') = Some b \<and> b_reserved b = 3 \<and>
     0 \<le> calculateAvailable b"
proof -
  obtain b where b: "find_balance (foldl run_op demo_store demo_history) ''c'' (ProductKey ''p'') = Some b"
    and c: "counters_of b = (7, 3, 4)"
    using demo_balance by auto
  show ?thesis using never_oversold [OF store_run_mono [OF demo_run_serial without_adjustments_unadjusted] b] b c by (simp add: counters_of_def)
qed


section \<open>Reservations are honoured\<close>

text \<open>Errors of the database's columns and rows, as opposed to errors of the stock.\<close>

definition database_error :: "store_error \<Rightarrow> bool" where
  "database_error e \<longleftrightarrow> e = DATABASE_RANGE \<or> e = DATABASE_RECORD_NOT_FOUND"

lemma column_errors:
  "int_column n = Inl e \<Longrightarrow> database_error e" "rat_column d x = Inl e \<Longrightarrow> database_error e"
  "decimal_column d p v = Inl e \<Longrightarrow> database_error e"
  by (auto simp: int_column_def rat_column_def decimal_column_def database_error_def split: if_splits jsnum.splits)

lemma optional_error: "optional f v = Inl e \<Longrightarrow> (\<And>x. f x = Inl e \<Longrightarrow> P) \<Longrightarrow> P"
  by (auto simp: optional_def and_then_Inl_iff split: option.splits)

lemma update_errors:
  "update_product i n db = Inl e \<Longrightarrow> database_error e" "update_variant i n db = Inl e \<Longrightarrow> database_error e"
  unfolding update_product_def update_variant_def
  by (auto simp: and_then_Inl_iff database_error_def split: if_splits dest: column_errors(1) [unfolded database_error_def])

lemma sync_error: "syncLegacyStockMirror db p v n = Inl e \<Longrightarrow> database_error e"
  unfolding syncLegacyStockMirror_def by (auto simp: and_then_Inl_iff split: if_splits dest: update_errors)

lemma store_change_error:
  assumes wf: "stock_wf db" and b: "find_balance db (ch_contaId c) (change_key c) = Some b"
    and pos: "0 \<le> b_onHand b + ch_onHand c" "0 \<le> b_reserved b + ch_reserved c" "0 \<le> b_incoming b + ch_incoming c"
    and res: "store_change db b c = Inl e"
  shows "database_error e"
proof -
  have ids: "distinct (map balance_id (db_balances db))" "b \<in> set (db_balances db)"
    using wf find_balanceD [OF b] by (simp_all add: stock_wf_def)
  have only: "unchanged_row b y \<longleftrightarrow> balance_id y = balance_id b" if "y \<in> set (db_balances db)" for y
  proof
    assume "balance_id y = balance_id b"
    then have "y = b" using ids that by (auto simp: distinct_map inj_on_def)
    then show "unchanged_row b y" by (simp add: unchanged_row_def)
  qed (simp add: unchanged_row_def balance_id_def)
  have one: "length (filter (unchanged_row b) (db_balances db)) = 1"
    using filter_single [OF ids only] by simp
  have last: False if sync: "syncLegacyStockMirror (booked db b c average unitCost totalCost) (ch_productId c) (ch_variantId c)
       (b_onHand b + ch_onHand c) = Inr db'" and none: "findInventoryBalance db' (ch_contaId c) (ch_productId c) (ch_variantId c) = None"
    for average unitCost totalCost db'
  proof -
    note booked = booked_keeps [OF wf b pos, where average = average and unitCost = unitCost and totalCost = totalCost]
    have "\<forall>r \<in> set (db_balances (booked db b c average unitCost totalCost)). 0 \<le> b_onHand r"
      using booked(1) by (auto simp: stock_wf_def balance_ok_def)
    then have "find_balance db' = find_balance (booked db b c average unitCost totalCost)"
      using mirrors_keep(4) [OF sync_mirrors [OF sync pos(1)]] by blast
    then show False using none booked(5) by (simp add: findInventoryBalance_def change_key_def)
  qed
  show ?thesis
    using res pos one unfolding store_change_def Let_def
    by (auto simp: and_then_Inl_iff not_less split: if_splits option.splits
        dest: column_errors sync_error last [unfolded booked_def] elim!: optional_error)
qed

lemma apply_change_error:
  assumes inv: "ledger_inv db" and b: "find_balance db (ch_contaId c) (change_key c) = Some b"
    and pos: "0 \<le> b_onHand b + ch_onHand c" "0 \<le> b_reserved b + ch_reserved c" "0 \<le> b_incoming b + ch_incoming c"
    and res: "apply_change db c = Inl e"
  shows "database_error e"
proof -
  have wf: "stock_wf db" using inv by (simp add: ledger_inv_def)
  have found: "findInventoryBalance db (ch_contaId c) (ch_productId c) (ch_variantId c) = Some b"
    using b by (simp add: findInventoryBalance_def change_key_def)
  have "store_change db b c = Inl e"
    using res found unfolding apply_change_def applyInventoryChange_def getOrCreateInventoryBalance_def
    by (auto simp: and_then_Inl_iff split: if_splits)
  then show ?thesis by (rule store_change_error [OF wf b pos])
qed

definition reserved_at :: "stock_db \<Rightarrow> string \<Rightarrow> item_key \<Rightarrow> int" where
  "reserved_at db conta k = (case find_balance db conta k of None \<Rightarrow> 0 | Some b \<Rightarrow> b_reserved b)"

lemma fulfill_reserves:
  assumes sound: "sound db" and res: "apply_change db (sale_change conta i r MT_SALE_OUT (- n) (- n) cost False action) = Inr db'"
    and n: "0 \<le> n"
  shows "reserved_at db' conta k \<ge> reserved_at db conta k - (if sale_item_key r = k then n else 0)"
proof (cases "change_id (sale_change conta i r MT_SALE_OUT (- n) (- n) cost False action) \<in> set (map movement_id (db_movements db))")
  case True
  then show ?thesis using apply_change_known [OF True res] n by simp
next
  case False
  let ?c = "sale_change conta i r MT_SALE_OUT (- n) (- n) cost False action"
  have key: "ch_contaId ?c = conta" "change_key ?c = sale_item_key r" "ch_reserved ?c = - n"
    by (simp_all add: sale_change_def change_key_def sale_item_key_def)
  have wf: "stock_wf db" using sound by (simp add: sound_def ledger_inv_def)
  show ?thesis
  proof (rule apply_change_fresh [OF wf False res])
    fix b m u
    assume old: "find_balance db (ch_contaId ?c) (change_key ?c) = Some b \<or>
        find_balance db (ch_contaId ?c) (change_key ?c) = None \<and> 0 \<le> b_onHand b \<and> b_reserved b = 0 \<and> b_incoming b = 0"
      and u: "find_balance db' (ch_contaId ?c) (change_key ?c) = Some u" "counters_of u = after_of m"
      and after: "after_of m = add_counters (counters_of b) (change_deltas ?c)"
      and others: "\<And>conta k. (conta, k) \<noteq> (ch_contaId ?c, change_key ?c) \<Longrightarrow> find_balance db' conta k = find_balance db conta k"
    have "b_reserved u = b_reserved b - n"
      using u(2) after key by (simp add: counters_of_def change_deltas_def)
    then show ?thesis
      using old u(1) others [of conta k] key by (cases "sale_item_key r = k") (auto simp: reserved_at_def)
  qed
qed

lemma fulfill_lines_error:
  assumes "fold_err (fulfill_line conta i action) db rs = Inl e" "sound db" "list_all sale_item_ok rs"
    "\<And>k. units rs k \<le> reserved_at db conta k"
  shows "database_error e"
  using assms
proof (induction rs arbitrary: db)
  case (Cons r rs)
  have rest: "units rs k \<le> reserved_at db conta k - (if sale_item_key r = k then outstanding r else 0)" for k
    using Cons.prems(4) [of k] by auto
  show ?case
  proof (cases "skipped_line r")
    case True
    then have "fold_err (fulfill_line conta i action) db rs = Inl e" using Cons.prems(1) by (simp add: fulfill_line_def [of conta i action db r])
    moreover have "units rs k \<le> reserved_at db conta k" for k
      using rest [of k] outstanding_nonneg [of r] by (cases "sale_item_key r = k"; simp; linarith)
    ultimately show ?thesis using Cons.IH Cons.prems(2,3) by simp
  next
    case False
    let ?n = "outstanding r"
    let ?c = "sale_change conta i r MT_SALE_OUT (- ?n) (- ?n) (map_option moneyToNumber (si_unitCost r)) False action"
    have key: "ch_contaId ?c = conta" "change_key ?c = sale_item_key r" "ch_onHand ?c = - ?n" "ch_reserved ?c = - ?n"
      "ch_incoming ?c = 0"
      by (simp_all add: sale_change_def change_key_def sale_item_key_def)
    have n: "0 < ?n" using False Cons.prems(3) by (auto simp: skipped_line_def sale_item_ok_def)
    have "?n \<le> reserved_at db conta (sale_item_key r)"
      using rest [of "sale_item_key r"] units_nonneg [of rs "sale_item_key r"] by simp
    then obtain b where b: "find_balance db conta (sale_item_key r) = Some b" "?n \<le> b_reserved b"
      using n by (auto simp: reserved_at_def split: option.splits)
    have inv: "ledger_inv db" and room: "b_reserved b \<le> b_onHand b"
      using Cons.prems(2) b(1) by (simp_all add: sound_def covered_def)
    have "0 \<le> b_incoming b" using find_balanceD [OF b(1)] inv by (auto simp: ledger_inv_def stock_wf_def balance_ok_def)
    show ?thesis
    proof (cases "apply_change db ?c")
      case (Inl e')
      then have "e' = e" using Cons.prems(1) False by (simp add: fulfill_line_def [of conta i action db r])
      then show ?thesis
        using apply_change_error [OF inv, of ?c b e'] b room Inl \<open>0 \<le> b_incoming b\<close> unfolding key by simp
    next
      case (Inr u)
      have "fold_err (fulfill_line conta i action) u rs = Inl e"
        using Cons.prems(1) False Inr by (simp add: fulfill_line_def [of conta i action db r])
      moreover have "sound u" by (rule safe_change [OF Cons.prems(2) Inr]) (simp add: key)
      moreover have "units rs k \<le> reserved_at u conta k" for k
        using rest [of k] fulfill_reserves [OF Cons.prems(2) Inr, of k] n by simp
      ultimately show ?thesis using Cons.IH Cons.prems(3) by simp
    qed
  qed
qed simp

lemma over_sales_member:
  assumes "s \<in> set (db_sales db)" "sa_contaId s = conta" "\<And>s. 0 \<le> f s"
  shows "f s \<le> over_sales f db conta"
proof -
  have "f s \<in> set (map f (filter (\<lambda>s. sa_contaId s = conta) (db_sales db)))" using assms(1,2) by simp
  moreover have "\<forall>x \<in> set xs. 0 \<le> x \<Longrightarrow> x \<in> set xs \<Longrightarrow> x \<le> sum_list xs" for x :: int and xs
    by (induction xs) (auto simp: add_increasing add_increasing2 sum_list_nonneg)
  ultimately show ?thesis using assms(3) unfolding over_sales_def by fastforce
qed

text \<open>C12. A reservation can always be honoured: in every history that sells positive quantities, without manual
  adjustments and without deliveries that name an item twice, fulfilling a reserved sale never fails for want of
  stock or of a balance, or because the balance moved; only a column of the database that overflows or a product that
  was removed can stop it.\<close>

theorem reservation_honoured:
  assumes run: "store_run without_adjustments db" and s: "find_sale db conta i = Some s"
    and open_sale: "sa_status s \<noteq> SALE_CANCELADA" "sa_mode s = MODE_RESERVE" "sa_inventoryStatus s = INV_RESERVED"
  shows "(\<exists>db'. fulfillReservedSale db conta i = Inr db') \<or>
    fulfillReservedSale db conta i = Inl DATABASE_RANGE \<or> fulfillReservedSale db conta i = Inl DATABASE_RECORD_NOT_FOUND"
proof (cases "fulfillReservedSale db conta i")
  case (Inl e)
  have inv: "ledger_inv db" "docs_inv db" using store_run_serial [OF run] by (simp_all add: store_inv_def)
  note found = find_sale_Some [OF s]
  have items: "list_all sale_item_ok (sa_items s)" using inv(2) found by (auto simp: docs_inv_def sale_ok_def sale_wf_def)
  have "units (sa_items s) k \<le> reserved_at db conta k" for k
  proof -
    have "reserved_by s k \<le> over_sales (\<lambda>s. reserved_by s k) db conta"
      using found by (intro over_sales_member) (simp_all add: reserved_by_def units_nonneg)
    also have "\<dots> = booked_sum po_reserved (postings db) conta k" by (simp add: total_documents(1) [OF inv(2)])
    also have "\<dots> = reserved_at db conta k"
      using counters_totals(2) [OF inv(1)] total_no_balance [OF inv(1)] by (auto simp: reserved_at_def split: option.splits)
    finally show ?thesis using open_sale by (simp add: reserved_by_def)
  qed
  moreover have "fold_err (fulfill_line conta i K_FULFILL) db (sa_items s) = Inl e"
    using Inl s open_sale by (auto simp: fulfillReservedSale_def and_then_Inl_iff)
  ultimately have "database_error e" using fulfill_lines_error store_run_sound [OF run] items by blast
  then show ?thesis using Inl by (auto simp: database_error_def)
qed simp

theorem reservation_honoured_witness:
  "let db = foldl run_op demo_store demo_history in
   (\<exists>s. find_sale db ''c'' 2 = Some s \<and> sa_inventoryStatus s = INV_RESERVED) \<and>
   ((\<exists>db'. fulfillReservedSale db ''c'' 2 = Inr db') \<or>
    fulfillReservedSale db ''c'' 2 = Inl DATABASE_RANGE \<or> fulfillReservedSale db ''c'' 2 = Inl DATABASE_RECORD_NOT_FOUND)"
proof -
  have "map_option (\<lambda>s. (sa_status s, sa_mode s, sa_inventoryStatus s)) (find_sale (foldl run_op demo_store demo_history) ''c'' 2) =
    Some (SALE_PENDENTE, MODE_RESERVE, INV_RESERVED)"
    by code_simp
  then obtain s where "find_sale (foldl run_op demo_store demo_history) ''c'' 2 = Some s" "sa_status s \<noteq> SALE_CANCELADA"
    "sa_mode s = MODE_RESERVE" "sa_inventoryStatus s = INV_RESERVED"
    by auto
  then show ?thesis using reservation_honoured [OF demo_run_serial] unfolding Let_def by blast
qed

end
