(* ===== verification/StoreRaces.thy ===== *)
theory StoreRaces
  imports StoreSafety
begin

text \<open>
  Two ways in which the accounts of the store break: a payment that read its sale before somebody
  fulfilled it by hand, and a delivery that names an item twice.
\<close>

section \<open>A payment with a stale sale\<close>

text \<open>
  \<^verbatim>\<open>fulfillReservedSaleOnPayment\<close> reads the sale, another request fulfils it, then the transaction of
  the payment runs on what was read.
\<close>

definition stale_payment :: "stock_db \<Rightarrow> string \<Rightarrow> string \<Rightarrow> nat \<Rightarrow> store_error + stock_db" where
  "stale_payment db conta charge i = and_then (read_paid_sale db conta charge) (\<lambda>(db1, found). case found of
       None \<Rightarrow> Inr db1
     | Some s \<Rightarrow> and_then (fulfillReservedSale db1 conta i) (\<lambda>db2.
         if \<not> awaits_payment s then Inr db2 else commit_paid_sale db2 conta s))"

definition race_store :: stock_db where
  "race_store = demo_store\<lparr>db_products := [\<lparr>p_id = ''p'', p_contaId = ''c'', p_stock = 10, p_hasVariants = False, p_archived = False\<rparr>]\<rparr>"

definition race_history :: "store_op list" where
  "race_history = [demo_sell ''s1'' MODE_RESERVE 3, OP_BILL ''c'' 0 False ''ch'', demo_sell ''s2'' MODE_RESERVE 4]"

lemma fresh_race: "fresh_store race_store"
  by (simp add: fresh_store_def race_store_def demo_store_def stock_wf_def)

lemma race_run: "store_run without_adjustments (foldl run_op race_store race_history)"
  by (rule store_run_foldl [OF store_run.start [OF fresh_race]])
    (simp add: race_history_def demo_sell_def lines_ok_def demo_line_def without_adjustments_def)

definition failure :: "store_error + 'a \<Rightarrow> store_error option" where
  "failure r = (case r of Inl e \<Rightarrow> Some e | Inr _ \<Rightarrow> None)"

lemma race_result:
  "item_counters (foldl run_op race_store race_history) ''c'' (ProductKey ''p'') = Some (10, 7, 0) \<and>
   and_then (stale_payment (foldl run_op race_store race_history) ''c'' ''ch'' 0) (\<lambda>db.
     Inr (item_counters db ''c'' (ProductKey ''p''), over_sales (\<lambda>s. reserved_by s (ProductKey ''p'')) db ''c'',
       failure (fulfillReservedSale db ''c'' 2))) = Inr (Some (4, 1, 0), 4, Some MOVIMENTO_ESTOQUE_INVALIDO)"
  by code_simp

text \<open>What the lines of a fulfilment book.\<close>

definition ship_posting :: "store_sale \<Rightarrow> action_key \<Rightarrow> sale_item \<Rightarrow> posting" where
  "ship_posting s action r = sale_posting (sa_contaId s) (sa_id s) MT_SALE_OUT action (- outstanding r) (- outstanding r) r"

lemma over_sales_update:
  assumes "\<And>t. t \<in> set (db_sales db) \<Longrightarrow> sa_id t = i \<Longrightarrow> f (g t) = f t" "\<And>t. sa_contaId (g t) = sa_contaId t"
  shows "over_sales f (update_sale i g db) conta = over_sales f db conta"
proof -
  have "sum_list (map f (filter (\<lambda>t. sa_contaId t = conta) (map (\<lambda>t. if sa_id t = i then g t else t) ts))) =
      sum_list (map f (filter (\<lambda>t. sa_contaId t = conta) ts))" if "set ts \<subseteq> set (db_sales db)" for ts
    using that assms by (induction ts) auto
  then show ?thesis by (simp add: over_sales_def)
qed

lemma booked_sum_append: "booked_sum f (es @ es') conta k = booked_sum f es conta k + booked_sum f es' conta k"
  by (simp add: booked_sum_def)

lemma booked_sum_ship:
  assumes "f = po_onHand \<or> f = po_reserved" "sa_contaId s = conta" "list_all sale_item_ok (sa_items s)"
  shows "booked_sum f (map (ship_posting s action) (filter (\<lambda>r. \<not> skipped_line r) (sa_items s))) conta k =
    - units (sa_items s) k"
proof -
  have "booked_sum f (map (ship_posting s action) rs) conta k = - units rs k" for rs
    using assms(1,2) by (induction rs) (auto simp: booked_sum_def ship_posting_def sale_posting_def)
  then show ?thesis using units_live [OF assms(3)] by simp
qed

lemma fulfill_books:
  assumes inv: "store_inv db" and run: "fold_err (fulfill_line conta (sa_id s) action) db (sa_items s) = Inr db'"
    and s: "sa_contaId s = conta" "sale_wf s"
    and fresh: "\<And>e. e \<in> set (postings db) \<Longrightarrow> po_origin e = SALE_ORIGIN (sa_id s) \<Longrightarrow> po_action e \<noteq> action"
  shows "postings db' = postings db @ map (ship_posting s action) (filter (\<lambda>r. \<not> skipped_line r) (sa_items s)) \<and>
    opened_as db db' \<and> db_sales db' = db_sales db"
proof -
  let ?live = "filter (\<lambda>r. \<not> skipped_line r) (sa_items s)"
  have ids: "distinct (map si_id ?live)" using s(2) by (intro distinct_map_filter) (simp add: sale_wf_def)
  have new: "posting_id e \<noteq> posting_id (ship_posting s action r)" if "e \<in> set (postings db)" for e r
    using fresh [OF that] by (auto simp: posting_id_def ship_posting_def sale_posting_def)
  have post: "change_posting (sale_change conta (sa_id s) r MT_SALE_OUT (- outstanding r) (- outstanding r)
      (map_option moneyToNumber (si_unitCost r)) False action) = ship_posting s action r" for r
    by (simp add: change_posting_sale ship_posting_def s(1))
  have line: "po_line (ship_posting s action r) = Some (si_id r)" for r
    by (simp add: ship_posting_def sale_posting_def)
  note changes = sale_changes [OF inv run [unfolded fulfill_lines] post line ids new]
  have "opened_as db db" using store_invD(1) [OF inv] openings_refl by (simp add: opened_as_def)
  then have "opened_as db db'"
    using fold_err_invariant [OF run [unfolded fulfill_lines], of "opened_as db"] opened_change by blast
  then show ?thesis using changes by (simp add: same_documents_def)
qed

text \<open>C39. After any history that sells positive quantities and whose deliveries name an item at most once, a payment
  that read its reserved sale before a manual fulfilment ships the goods a second time, since the two book under
  different keys: whenever it commits, every unit the sale held has been taken twice from the stock and twice from the
  reserve, so that the reserve of each item falls short of what the other reserved sales still hold by the units of the
  sale. (When the stock does not allow it, the payment fails instead.)\<close>

theorem stale_payment_ships_twice:
  assumes run: "store_run op_ok db" and read: "read_paid_sale db conta charge = Inr (db1, Some s)"
    and waits: "awaits_payment s" and stale: "stale_payment db conta charge (sa_id s) = Inr db'"
    and b: "find_balance db conta k = Some b"
  shows "\<exists>b'. find_balance db' conta k = Some b' \<and>
    b_onHand b' = b_onHand b - 2 * units (sa_items s) k \<and>
    b_reserved b' = b_reserved b - 2 * units (sa_items s) k \<and>
    over_sales (\<lambda>s. reserved_by s k) db' conta = b_reserved b - units (sa_items s) k"
proof -
  let ?live = "filter (\<lambda>r. \<not> skipped_line r) (sa_items s)" and ?u = "units (sa_items s) k"
  have inv: "store_inv db" by (rule store_run_inv [OF run])
  note keep = read_paid_sale_keeps [OF inv read]
  have s: "s \<in> set (db_sales db1)" "sa_contaId s = conta" "sa_inventoryStatus s = INV_RESERVED" "sa_mode s = MODE_RESERVE"
    using keep(2) waits by (simp_all add: awaits_payment_def)
  have "db_balances db1 = db_balances db" "db_movements db1 = db_movements db"
    using read unfolding read_paid_sale_def link_plan_sales_def Let_def
    by (auto simp: and_then_Inr_iff split: option.splits if_splits)
  then have same: "postings db1 = postings db" "find_balance db1 = find_balance db" "opening_stock db1 = opening_stock db"
    by (simp_all add: postings_def find_balance_def [abs_def] opening_stock_def [abs_def] trail_def [abs_def])
  have ids: "distinct (sale_ids db1)" using store_invD(2) [OF keep(1)] by (simp add: docs_inv_def)
  have only: "t = s" if "t \<in> set (db_sales db1)" "sa_id t = sa_id s" for t
    using that s(1) ids by (auto simp: distinct_map inj_on_def sale_ids_def)
  have wf: "sale_wf s" using store_invD(2) [OF keep(1)] s(1) by (simp add: docs_inv_def sale_ok_def)
  then have items: "list_all sale_item_ok (sa_items s)" by (simp add: sale_wf_def)
  obtain db2 where fulfilled: "fulfillReservedSale db1 conta (sa_id s) = Inr db2" and paid: "commit_paid_sale db2 conta s = Inr db'"
    using stale read waits by (auto simp: stale_payment_def and_then_Inr_iff)
  obtain t where t: "find_sale db1 conta (sa_id s) = Some t" using fulfilled by (auto simp: fulfillReservedSale_def split: option.splits)
  then have "t = s" using find_sale_Some [OF t] only by blast
  then obtain d2 where run2: "fold_err (fulfill_line conta (sa_id s) K_FULFILL) db1 (sa_items s) = Inr d2"
    and db2: "db2 = update_sale (sa_id s) (\<lambda>s. s\<lparr>sa_inventoryStatus := INV_FULFILLED\<rparr>) d2"
    using fulfilled t s by (auto simp: fulfillReservedSale_def and_then_Inr_iff split: if_splits)
  obtain d3 where run3: "fold_err (fulfill_line conta (sa_id s) K_FULFILL_ON_PAYMENT) db2 (sa_items s) = Inr d3"
    and db': "db' = update_sale (sa_id s) (\<lambda>s. s\<lparr>sa_inventoryStatus := INV_FULFILLED, sa_status := SALE_CONCLUIDA\<rparr>) d3"
    using paid by (auto simp: commit_paid_sale_def and_then_Inr_iff)
  have inv2: "store_inv db2" by (rule fulfillReservedSale_keeps [OF keep(1) fulfilled])
  have old: "po_action e \<notin> {K_FULFILL, K_FULFILL_ON_PAYMENT}"
    if "e \<in> set (postings db1)" "po_origin e = SALE_ORIGIN (sa_id s)" for e
    using booked_action [OF keep(1) s(1) that] s(3) by (auto simp: sale_action_def)
  have first: "postings d2 = postings db1 @ map (ship_posting s K_FULFILL) ?live \<and> opened_as db1 d2 \<and> db_sales d2 = db_sales db1"
    by (rule fulfill_books [OF keep(1) run2 s(2) wf]) (use old in blast)
  have posts2: "postings db2 = postings db1 @ map (ship_posting s K_FULFILL) ?live" using first by (simp add: db2)
  have second: "postings d3 = postings db2 @ map (ship_posting s K_FULFILL_ON_PAYMENT) ?live \<and> opened_as db2 d3 \<and>
      db_sales d3 = db_sales db2"
    by (rule fulfill_books [OF inv2 run3 s(2) wf]) (use old posts2 in \<open>auto simp: ship_posting_def sale_posting_def\<close>)
  have "openings_kept db1 db2" using first openings_cong [of db2 d2 db1] by (simp add: db2 opened_as_def)
  moreover have "openings_kept db2 db'" using second openings_cong [of db' d3 db2] by (simp add: db' opened_as_def)
  ultimately have "openings_kept db1 db'" by (rule openings_trans)
  moreover have "find_balance db1 conta k \<noteq> None" using b same by simp
  ultimately have "find_balance db' conta k \<noteq> None" and opened: "opening_stock db' conta k = opening_stock db conta k"
    using same(3) by (simp_all add: openings_kept_def)
  then obtain b' where b': "find_balance db' conta k = Some b'" by blast
  have ledger: "ledger_inv db'" using second by (simp add: db' opened_as_def)
  have posts: "postings db' = (postings db @ map (ship_posting s K_FULFILL) ?live) @ map (ship_posting s K_FULFILL_ON_PAYMENT) ?live"
    using second posts2 same by (simp add: db')
  note ships = booked_sum_ship [OF _ s(2) items, of po_onHand _ k, simplified] booked_sum_ship [OF _ s(2) items, of po_reserved _ k, simplified]
  have counts: "b_onHand b' = b_onHand b - 2 * ?u" "b_reserved b' = b_reserved b - 2 * ?u"
    using counters_totals [OF ledger b'] counters_totals [OF store_invD(1) [OF inv] b] ships
    unfolding posts booked_sum_append opened by simp_all
  have "over_sales (\<lambda>s. reserved_by s k) db2 conta = booked_sum po_reserved (postings db2) conta k"
    by (simp add: total_documents(1) [OF store_invD(2) [OF inv2]])
  also have "\<dots> = b_reserved b - ?u"
    using counters_totals(2) [OF store_invD(1) [OF inv] b] ships unfolding posts2 same(1) booked_sum_append by simp
  finally have "over_sales (\<lambda>s. reserved_by s k) db2 conta = b_reserved b - ?u" .
  moreover have "reserved_by (t\<lparr>sa_inventoryStatus := INV_FULFILLED, sa_status := SALE_CONCLUIDA\<rparr>) k = reserved_by t k"
    if "t \<in> set (db_sales db2)" "sa_id t = sa_id s" for t
    using that only first by (auto simp: db2 reserved_by_def split: if_splits)
  then have "over_sales (\<lambda>s. reserved_by s k) db' conta = over_sales (\<lambda>s. reserved_by s k) d3 conta"
    using second unfolding db' by (intro over_sales_update) simp_all
  moreover have "over_sales (\<lambda>s. reserved_by s k) d3 conta = over_sales (\<lambda>s. reserved_by s k) db2 conta"
    using second by (simp add: over_sales_def)
  ultimately show ?thesis using b' counts by simp
qed

theorem stale_payment_ships_twice_witness:
  "\<exists>db db' b'. store_run op_ok db \<and> stale_payment db ''c'' ''ch'' 0 = Inr db' \<and>
     item_counters db ''c'' (ProductKey ''p'') = Some (10, 7, 0) \<and>
     find_balance db' ''c'' (ProductKey ''p'') = Some b' \<and> b_onHand b' = 4 \<and> b_reserved b' = 1 \<and>
     over_sales (\<lambda>s. reserved_by s (ProductKey ''p'')) db' ''c'' = 4 \<and>
     fulfillReservedSale db' ''c'' 2 = Inl MOVIMENTO_ESTOQUE_INVALIDO"
proof -
  let ?db = "foldl run_op race_store race_history"
  have run: "store_run op_ok ?db"
    by (rule store_run_mono [OF race_run]) (simp add: without_adjustments_def)
  have "and_then (read_paid_sale ?db ''c'' ''ch'') (\<lambda>(_, s). Inr (map_option (\<lambda>s. (sa_id s, awaits_payment s, units (sa_items s) (ProductKey ''p''))) s)) =
      Inr (Some (0, True, 3))" by code_simp
  then obtain db1 s where s: "read_paid_sale ?db ''c'' ''ch'' = Inr (db1, Some s)" "sa_id s = 0" "awaits_payment s"
    "units (sa_items s) (ProductKey ''p'') = 3"
    by (auto simp: and_then_Inr_iff)
  obtain db' where db': "stale_payment ?db ''c'' ''ch'' 0 = Inr db'"
    "failure (fulfillReservedSale db' ''c'' 2) = Some MOVIMENTO_ESTOQUE_INVALIDO"
    using race_result by (auto simp: and_then_Inr_iff)
  obtain b where b: "find_balance ?db ''c'' (ProductKey ''p'') = Some b" "counters_of b = (10, 7, 0)"
    using race_result by (auto simp: item_counters_def)
  from stale_payment_ships_twice [OF run s(1,3) _ b(1)] db'(1) s(2)
  obtain b' where "find_balance db' ''c'' (ProductKey ''p'') = Some b'" "b_onHand b' = 4" "b_reserved b' = 1"
    "over_sales (\<lambda>s. reserved_by s (ProductKey ''p'')) db' ''c'' = 4"
    using b(2) s(4) by (auto simp: counters_of_def)
  then show ?thesis
    using run db' b by (intro exI [of _ ?db] exI [of _ db'] exI [of _ b'])
      (auto simp: failure_def item_counters_def split: sum.splits)
qed

section \<open>A delivery that names an item twice\<close>

definition six_units :: receipt where
  "six_units = \<lparr>rc_itemId = 1, rc_quantity = Fin 6, rc_unitCost = None\<rparr>"

definition received_of :: "stock_db \<Rightarrow> (int \<times> int) list" where
  "received_of db = map (\<lambda>r. (ri_expected r, ri_received r)) (concat (map ro_items (db_orders db)))"

lemma plan_run: "store_run op_ok (run_op demo_store demo_plan)"
  by (rule store_run.op [OF store_run.start [OF fresh_demo]]) (simp add: demo_plan_def)

lemma twice_result:
  "and_then (receiveRestockOrder (run_op demo_store demo_plan) ''c'' 0 [six_units, six_units]) (\<lambda>db.
     and_then (cancelRestockOrder db ''c'' 0) (\<lambda>db'.
     Inr (received_of db, item_counters db ''c'' (ProductKey ''p''), item_counters db' ''c'' (ProductKey ''p'')))) =
   Inr ([(10, 12)], Some (8, 0, 4), Some (8, 0, 4))"
  by code_simp

text \<open>The identity of the movement of a receipt, and what one receipt does: nothing to the stock when it is known.\<close>

definition receipt_id :: "string \<Rightarrow> nat \<Rightarrow> restock_item \<Rightarrow> int \<Rightarrow> movement_id" where
  "receipt_id conta i r q = (conta, RESTOCK_ORDER i, Some (ri_id r), K_RECEIVE (ri_received r + q), MT_RESTOCK_IN)"

lemma receipt_id_eq: "receipt_id conta i r p = receipt_id conta i r q \<longleftrightarrow> p = q"
  by (simp add: receipt_id_def)

lemma receipt_effect:
  assumes ledger: "ledger_inv db" and ids: "distinct (map ri_id (ro_items x))" and r: "r \<in> set (ro_items x)"
    and named: "rc_itemId l = ri_id r" and res: "receipt_step conta x db l = Inr db'"
    and b: "find_balance db conta (restock_key r) = Some b"
  defines "q \<equiv> whole (rc_quantity l)"
  defines "m \<equiv> (if receipt_id conta (ro_id x) r q \<in> posting_id ` set (postings db) then 0 else q)"
  shows "0 < q \<and> q \<le> pending r \<and> ledger_inv db' \<and>
    posting_id ` set (postings db') = insert (receipt_id conta (ro_id x) r q) (posting_id ` set (postings db)) \<and>
    (\<exists>cost. db_orders db' = db_orders (update_order (ro_id x) (receive_items (ri_id r) q cost) db)) \<and>
    (\<exists>b'. find_balance db' conta (restock_key r) = Some b' \<and> b_onHand b' = b_onHand b + m \<and>
       b_incoming b' = b_incoming b - m)"
proof -
  have "find (\<lambda>y. ri_id y = ri_id r) (ro_items x) = Some r" by (rule find_distinct [OF ids r]) simp
  then have found: "find (\<lambda>y. ri_id y = rc_itemId l) (ro_items x) = Some r" by (simp add: named)
  obtain cost stored where q: "0 < q" "q \<le> pending r"
    and change: "apply_change (update_order (ro_id x) (receive_items (ri_id r) q stored) db)
       (restock_change conta (ro_id x) r q (- q) cost True (K_RECEIVE (ri_received r + q))) = Inr db'"
    using res whole_pos found unfolding receipt_step_def q_def receive_items_def [abs_def] pending_def
    by (auto simp: and_then_Inr_iff Let_def split: if_splits option.splits)
  let ?db0 = "update_order (ro_id x) (receive_items (ri_id r) q stored) db"
  let ?c = "restock_change conta (ro_id x) r q (- q) cost True (K_RECEIVE (ri_received r + q))"
  have c: "change_id ?c = receipt_id conta (ro_id x) r q" "ch_contaId ?c = conta" "change_key ?c = restock_key r"
    "change_deltas ?c = (q, 0, - q)"
    by (simp_all add: change_id_def restock_change_def receipt_id_def change_key_def restock_key_def change_deltas_def)
  have ledger0: "ledger_inv ?db0" and posts0: "postings ?db0 = postings db" using ledger by simp_all
  have b0: "find_balance ?db0 conta (restock_key r) = Some b" using b by (simp add: find_balance_def)
  have docs: "same_documents ?db0 db'" by (rule apply_change_documents [OF ledger0 change])
  have "posting_id ` set (postings db') = insert (receipt_id conta (ro_id x) r q) (posting_id ` set (postings db)) \<and>
    (\<exists>b'. find_balance db' conta (restock_key r) = Some b' \<and> b_onHand b' = b_onHand b + m \<and>
       b_incoming b' = b_incoming b - m)"
  proof (cases "receipt_id conta (ro_id x) r q \<in> posting_id ` set (postings db)")
    case True
    then have "db' = ?db0" using stock.known [OF _ change] posts0 c(1) by simp
    then show ?thesis using True b0 posts0 by (simp add: m_def insert_absorb)
  next
    case False
    then have new: "change_id ?c \<notin> set (map movement_id (db_movements ?db0))"
      using c(1) posts0 posting_ids [of ?db0] by simp
    have wf: "stock_wf ?db0" using ledger0 by (simp add: ledger_inv_def)
    have posts: "postings db' = postings db @ [change_posting ?c]"
      using apply_change_posted [OF wf new change] posts0 by simp
    have "\<exists>b'. find_balance db' conta (restock_key r) = Some b' \<and> b_onHand b' = b_onHand b + q \<and>
       b_incoming b' = b_incoming b - q"
    proof (rule apply_change_fresh [OF wf new change])
      fix y w u
      assume after: "after_of w = add_counters (counters_of y) (change_deltas ?c)"
        and old: "find_balance ?db0 (ch_contaId ?c) (change_key ?c) = Some y \<or>
          find_balance ?db0 (ch_contaId ?c) (change_key ?c) = None \<and> 0 \<le> b_onHand y \<and> b_reserved y = 0 \<and> b_incoming y = 0"
        and u: "find_balance db' (ch_contaId ?c) (change_key ?c) = Some u" "counters_of u = after_of w"
      have "y = b" using old b0 unfolding c(2,3) by simp
      then have "counters_of u = add_counters (counters_of b) (q, 0, - q)" using u(2) after c(4) by simp
      then show ?thesis using u(1) unfolding c(2,3) by (auto simp: counters_of_def)
    qed
    then show ?thesis using posts False c(1) by (simp add: m_def)
  qed
  moreover have "ledger_inv db'" by (rule apply_change_ledger [OF ledger0 change])
  moreover have "\<exists>cost. db_orders db' = db_orders (update_order (ro_id x) (receive_items (ri_id r) q cost) db)"
    using docs by (auto simp: same_documents_def)
  ultimately show ?thesis using q by blast
qed

text \<open>C40. After any history that sells positive quantities and whose deliveries so far name an item at most once, in a
  delivery that names an item of an order in two lines each line is checked on its own against what was pending before
  the delivery, so the two may exceed it together; both count as received; and the stock takes in the second line
  only when its quantity differs from that of the first - with equal quantities its movement has the identity of the
  first one and is left out, so that what is on hand and on its way misses those units.\<close>

theorem delivery_named_twice:
  assumes run: "store_run op_ok db" and x: "find_order db conta i = Some x" "r \<in> set (ro_items x)"
    and named: "rc_itemId l = ri_id r" "rc_itemId l' = ri_id r"
    and res: "receiveRestockOrder db conta i [l, l'] = Inr db'"
    and b: "find_balance db conta (restock_key r) = Some b"
  defines "p \<equiv> whole (rc_quantity l)" and "q \<equiv> whole (rc_quantity l')"
  shows "0 < p \<and> p \<le> pending r \<and> 0 < q \<and> q \<le> pending r \<and>
    (\<exists>x' r' b'. find_order db' conta i = Some x' \<and> r' \<in> set (ro_items x') \<and> ri_id r' = ri_id r \<and>
      ri_expected r' = ri_expected r \<and> ri_received r' = ri_received r + p + q \<and>
      find_balance db' conta (restock_key r) = Some b' \<and>
      b_onHand b' = b_onHand b + p + (if q = p then 0 else q) \<and>
      b_incoming b' = b_incoming b - p - (if q = p then 0 else q))"
proof -
  have inv: "store_inv db" by (rule store_run_inv [OF run])
  note found = find_order_Some [OF x(1)]
  have ok: "order_ok (db_next db) (postings db) x" using store_invD(2) [OF inv] found by (simp add: docs_inv_def)
  then have ids: "distinct (map ri_id (ro_items x))" by (simp add: order_ok_def order_wf_def)
  obtain db1 db2 where one: "receipt_step conta x db l = Inr db1" and two: "receipt_step conta x db1 l' = Inr db2"
    and db': "db' = update_order i (\<lambda>x. x\<lparr>ro_status := computeRestockStatus (ro_items x)\<rparr>) db2"
    using res x(1) by (auto simp: receiveRestockOrder_def and_then_Inr_iff split: if_splits)
  have fresh: "receipt_id conta i r n \<notin> posting_id ` set (postings db)" if "0 < n" for n
  proof
    assume "receipt_id conta i r n \<in> posting_id ` set (postings db)"
    then obtain e where e: "e \<in> set (postings db)" "posting_id e = receipt_id conta i r n" by auto
    then have "order_action x e" using booked_order_action [OF inv _ e(1)] found by (simp add: posting_id_def receipt_id_def)
    then obtain y where "y \<in> set (ro_items x)" "ri_id y = ri_id r" "ri_received r + n \<le> ri_received y"
      using e(2) by (auto simp: order_action_def posting_id_def receipt_id_def)
    then show False using that x(2) ids by (auto simp: distinct_map inj_on_def)
  qed
  note first = receipt_effect [OF store_invD(1) [OF inv] ids x(2) named(1) one b, folded p_def]
  then obtain b1 c1 where p: "0 < p" "p \<le> pending r" and led1: "ledger_inv db1"
    and ids1: "posting_id ` set (postings db1) = insert (receipt_id conta i r p) (posting_id ` set (postings db))"
    and ord1: "db_orders db1 = db_orders (update_order i (receive_items (ri_id r) p c1) db)"
    and b1: "find_balance db1 conta (restock_key r) = Some b1" "b_onHand b1 = b_onHand b + p" "b_incoming b1 = b_incoming b - p"
    using fresh [of p] found by auto
  note second = receipt_effect [OF led1 ids x(2) named(2) two b1(1), folded q_def]
  then have q: "0 < q" "q \<le> pending r" by simp_all
  have known: "receipt_id conta (ro_id x) r q \<in> posting_id ` set (postings db1) \<longleftrightarrow> q = p"
    using fresh [OF q(1)] found unfolding ids1 by (auto simp: receipt_id_eq)
  obtain b2 c2 where b2: "find_balance db2 conta (restock_key r) = Some b2"
    "b_onHand b2 = b_onHand b1 + (if q = p then 0 else q)" "b_incoming b2 = b_incoming b1 - (if q = p then 0 else q)"
    and ord2: "db_orders db2 = db_orders (update_order i (receive_items (ri_id r) q c2) db1)"
    using second found unfolding known by auto
  let ?g = "\<lambda>x. receive_items (ri_id r) q c2 (receive_items (ri_id r) p c1 x)"
  let ?x = "(?g x)\<lparr>ro_status := computeRestockStatus (ro_items (?g x))\<rparr>"
  have "db_orders db' = map (\<lambda>y. if ro_id y = i then (?g y)\<lparr>ro_status := computeRestockStatus (ro_items (?g y))\<rparr> else y) (db_orders db)"
    by (simp add: db' ord2 ord1 comp_def if_distrib cong: if_cong)
  then have order': "find_order db' conta i = Some ?x"
    using x(1) found unfolding find_order_def by (simp add: find_map_keeps)
  let ?r = "receive_item (ri_id r) q c2 (receive_item (ri_id r) p c1 r)"
  have "?r \<in> set (ro_items ?x)" using x(2) by (simp add: receive_items_def)
  moreover have "find_balance db' conta (restock_key r) = Some b2" using b2(1) by (simp add: db' find_balance_def)
  ultimately show ?thesis
    using p q order' b1 b2
    by (intro conjI exI [of _ ?x] exI [of _ ?r] exI [of _ b2]) simp_all
qed

text \<open>Twelve of ten units received, six of them in the stock, and four on their way even when the order is cancelled.\<close>

theorem delivery_named_twice_witness:
  "\<exists>db db' db'' b'. store_run op_ok db \<and> receiveRestockOrder db ''c'' 0 [six_units, six_units] = Inr db' \<and>
     received_of db' = [(10, 12)] \<and> item_counters db ''c'' (ProductKey ''p'') = Some (2, 0, 10) \<and>
     find_balance db' ''c'' (ProductKey ''p'') = Some b' \<and> b_onHand b' = 8 \<and> b_incoming b' = 4 \<and>
     cancelRestockOrder db' ''c'' 0 = Inr db'' \<and> item_counters db'' ''c'' (ProductKey ''p'') = Some (8, 0, 4)"
proof -
  let ?db = "run_op demo_store demo_plan"
  have start: "item_counters ?db ''c'' (ProductKey ''p'') = Some (2, 0, 10)" by code_simp
  then obtain b where b: "find_balance ?db ''c'' (ProductKey ''p'') = Some b" "counters_of b = (2, 0, 10)"
    by (auto simp: item_counters_def)
  have "map_option (\<lambda>x. map (\<lambda>r. (ri_id r, restock_key r)) (ro_items x)) (find_order ?db ''c'' 0) = Some [(1, ProductKey ''p'')]"
    by code_simp
  then obtain x r where x: "find_order ?db ''c'' 0 = Some x" "ro_items x = [r]" "ri_id r = 1" "restock_key r = ProductKey ''p''"
    by auto
  obtain db' db'' where res: "receiveRestockOrder ?db ''c'' 0 [six_units, six_units] = Inr db'" "cancelRestockOrder db' ''c'' 0 = Inr db''"
    "received_of db' = [(10, 12)]" "item_counters db'' ''c'' (ProductKey ''p'') = Some (8, 0, 4)"
    using twice_result by (auto simp: and_then_Inr_iff)
  have six: "rc_itemId six_units = ri_id r" "whole (rc_quantity six_units) = 6" by (simp_all add: six_units_def x(3))
  from delivery_named_twice [OF plan_run x(1) _ six(1) six(1) res(1)] b x(2,4)
  obtain b' where "find_balance db' ''c'' (ProductKey ''p'') = Some b'" "b_onHand b' = 8" "b_incoming b' = 4"
    by (auto simp: six(2) counters_of_def)
  then show ?thesis using plan_run res start by blast
qed

end
