(* ===== verification/StoreRefunds.thy ===== *)
theory StoreRefunds
  imports StoreReturns
begin

text \<open>
  The refunds of a sold line: each return pays the difference between two rounded parts of the line's
  net amount, so that however the units come back, what is recorded adds up to the cent.
\<close>

section \<open>The rounded part of an amount\<close>

definition rounded_part :: "rat \<Rightarrow> int" where
  "rounded_part x = \<lfloor>fl (fl (x + 1 / 2 ^ 52) * 100) + 1 / 2\<rfloor>"

lemma rounded_part_near:
  assumes "0 \<le> x" "x \<le> 2 ^ 36"
  shows "\<bar>of_int (rounded_part x) - 100 * x\<bar> \<le> 1" "\<bar>rounded_part x\<bar> \<le> max_cents"
    "round_money (Fin x) = cents (rounded_part x)"
proof -
  define s where "s = fl (x + 1 / 2 ^ 52)"
  have tb: "\<bar>x + 1 / 2 ^ 52\<bar> \<le> 2 ^ 37" using assms by simp
  have se: "\<bar>s - (x + 1 / 2 ^ 52)\<bar> \<le> 1 / 2 ^ 16" unfolding s_def using fl_error_at [OF tb] by simp
  have sb: "\<bar>s * 100\<bar> \<le> 2 ^ 44" using assms se unfolding intervals by (intro conjI; simp; linarith)
  have pe: "\<bar>fl (s * 100) - s * 100\<bar> \<le> 1 / 2 ^ 9" using fl_error_at [OF sb] by simp
  have k: "of_int (rounded_part x) \<le> fl (s * 100) + 1 / 2" "fl (s * 100) + 1 / 2 < of_int (rounded_part x) + 1"
    unfolding rounded_part_def s_def by linarith+
  show near: "\<bar>of_int (rounded_part x) - 100 * x\<bar> \<le> 1"
    using k se pe unfolding intervals by (intro conjI; simp; linarith)
  have "(of_int \<bar>rounded_part x\<bar> :: rat) \<le> of_int max_cents"
    using near assms unfolding intervals max_cents_def of_int_abs by (intro conjI; simp; linarith)
  then show kb: "\<bar>rounded_part x\<bar> \<le> max_cents" by (simp only: of_int_le_iff)
  have add: "num_add (Fin x) num_epsilon = Fin s"
    unfolding num_epsilon_def num_add.simps s_def using tb by (intro of_exact_at) simp
  have mul: "num_mul (Fin s) (Fin 100) = Fin (fl (s * 100))"
    unfolding num_mul.simps using sb by (intro of_exact_at) simp
  have round: "num_round (Fin (fl (s * 100))) = num_int (rounded_part x)"
    by (simp add: rounded_part_def s_def)
  have "\<bar>of_int (rounded_part x) / 100 :: rat\<bar> \<le> 2 ^ 60"
    using max_cents_bounds(2) [OF kb] by simp
  then have "num_div (num_int (rounded_part x)) (Fin 100) = cents (rounded_part x)"
    unfolding num_div.simps dec_def by (simp add: of_exact_at)
  then show "round_money (Fin x) = cents (rounded_part x)" by (simp only: round_money_def add mul round)
qed

lemma rounded_part_mono: "0 \<le> x \<Longrightarrow> x \<le> y \<Longrightarrow> rounded_part x \<le> rounded_part y"
  unfolding rounded_part_def
  by (intro floor_mono add_right_mono fl_mono mult_right_mono mult_nonneg_nonneg fl_nonneg add_nonneg_nonneg) simp_all

section \<open>Lines\<close>

text \<open>A line with a net amount of \<open>c\<close> cents; the product of cents and units is bounded.\<close>

definition priced :: "sale_item \<Rightarrow> int \<Rightarrow> bool" where
  "priced r c \<longleftrightarrow> si_netSubtotal r = Some (of_int c / 100) \<and> 0 \<le> c \<and> 0 < si_quantity r \<and> c * si_quantity r \<le> 10 ^ 11"

definition double_part :: "int \<Rightarrow> int \<Rightarrow> int \<Rightarrow> rat" where
  "double_part c q n = fl (fl (dec c * of_int n) / of_int q)"

lemma dec_nonneg: "0 \<le> c \<Longrightarrow> 0 \<le> dec c"
  by (simp add: dec_def fl_nonneg)

lemma part_mono:
  assumes "0 \<le> c" "0 < q" "0 \<le> n" "n \<le> m"
  shows "0 \<le> double_part c q n" "double_part c q n \<le> double_part c q m"
proof -
  have mul: "0 \<le> dec c * of_int n" "dec c * of_int n \<le> dec c * of_int m"
    using assms dec_nonneg [OF assms(1)] by (simp_all add: mult_left_mono)
  then have "0 \<le> fl (dec c * of_int n)" "fl (dec c * of_int n) \<le> fl (dec c * of_int m)"
    by (simp_all add: fl_nonneg fl_mono)
  then show "0 \<le> double_part c q n" "double_part c q n \<le> double_part c q m"
    using assms(2) unfolding double_part_def by (auto intro!: fl_nonneg fl_mono divide_right_mono)
qed

lemma part_all:
  assumes "0 \<le> c" "0 < q" "c * q \<le> 10 ^ 11"
  shows "\<bar>double_part c q q - of_int c / 100\<bar> \<le> 1 / 400" "double_part c q q \<le> 2 ^ 36"
    "num_mul (cents c) (num_int q) = Fin (fl (dec c * of_int q))" "fl (dec c * of_int q) \<le> 2 ^ 31"
proof -
  obtain v where v: "num_mul (cents c) (num_int q) = Fin v" "\<bar>v - of_int (c * q) / 100\<bar> \<le> 3 / 2 ^ 23"
    using near_mul [OF assms(1) _ assms(3)] assms(2) by (auto simp: near_def)
  have cq: "(of_int (c * q) :: rat) \<le> of_int (10 ^ 11)" using assms(3) by (simp only: of_int_le_iff)
  then have cq': "of_int (c * q) / 100 \<le> (10 ^ 9 :: rat)" by simp
  have cq0: "0 \<le> (of_int (c * q) / 100 :: rat)" using assms by simp
  have "\<bar>dec c * of_int q\<bar> \<le> 2 ^ 60"
  proof -
    have "c * 1 \<le> c * q" using assms by (intro mult_left_mono) simp_all
    then have "\<bar>c\<bar> \<le> 100 * 2 ^ 30" using assms by simp
    then have "\<bar>dec c - of_int c / 100\<bar> \<le> 1 / 2 ^ 23" using dec_error [of c 30] by simp
    then have "\<bar>(dec c - of_int c / 100) * of_int q\<bar> \<le> 1 / 2 ^ 23 * \<bar>of_int q\<bar>"
      unfolding abs_mult by (intro mult_right_mono) simp_all
    then have "\<bar>dec c * of_int q - of_int (c * q) / 100\<bar> \<le> of_int q / 2 ^ 23"
      using assms(2) by (simp add: left_diff_distrib)
    moreover have "c = 0 \<or> q \<le> 10 ^ 11"
    proof (cases "c = 0")
      case False
      then have "1 * q \<le> c * q" using assms by (intro mult_right_mono) simp_all
      then show ?thesis using assms(3) by simp
    qed simp
    then have "dec c = 0 \<or> (of_int q :: rat) \<le> of_int (10 ^ 11)" by (auto simp only: of_int_le_iff dec_0)
    ultimately show ?thesis using cq' cq0 unfolding intervals by (elim disjE; intro conjI; simp; linarith)
  qed
  then have mul: "num_mul (cents c) (num_int q) = Fin (fl (dec c * of_int q))"
    unfolding num_mul.simps by (rule of_exact_at)
  then show "num_mul (cents c) (num_int q) = Fin (fl (dec c * of_int q))" .
  have w: "\<bar>fl (dec c * of_int q) - of_int (c * q) / 100\<bar> \<le> 3 / 2 ^ 23" using v mul by simp
  show "fl (dec c * of_int q) \<le> 2 ^ 31" using w cq' unfolding intervals by simp
  define d where "d = fl (dec c * of_int q)"
  have q1: "(1 :: rat) \<le> of_int q" using assms(2) by simp
  have "d / of_int q - of_int c / 100 = (d - of_int (c * q) / 100) / of_int q"
    using assms(2) by (simp add: field_simps)
  then have "\<bar>d / of_int q - of_int c / 100\<bar> = \<bar>d - of_int (c * q) / 100\<bar> / of_int q"
    using assms(2) by (simp add: abs_divide)
  also have "\<dots> \<le> (3 / 2 ^ 23) / of_int q" using w assms(2) unfolding d_def by (intro divide_right_mono) simp_all
  also have "\<dots> \<le> 3 / 2 ^ 23" using q1 by (simp add: divide_le_eq)
  finally have e1: "\<bar>d / of_int q - of_int c / 100\<bar> \<le> 3 / 2 ^ 23" .
  have "c * 1 \<le> c * q" using assms by (intro mult_left_mono) simp_all
  then have "(of_int c :: rat) \<le> of_int (10 ^ 11)" using assms(3) by (simp only: of_int_le_iff)
  then have cb: "(0 :: rat) \<le> of_int c / 100" "of_int c / 100 \<le> (10 ^ 9 :: rat)" using assms(1) by simp_all
  then have "\<bar>d / of_int q\<bar> \<le> 2 ^ 31" using e1 unfolding intervals by (intro conjI; simp; linarith)
  then have "\<bar>fl (d / of_int q) - d / of_int q\<bar> \<le> 1 / 2 ^ 22" using fl_error_at by fastforce
  then have e2: "\<bar>double_part c q q - of_int c / 100\<bar> \<le> 4 / 2 ^ 22"
    using e1 unfolding double_part_def d_def intervals by (intro conjI; simp; linarith)
  then show "\<bar>double_part c q q - of_int c / 100\<bar> \<le> 1 / 400" unfolding intervals by (intro conjI; simp; linarith)
  show "double_part c q q \<le> 2 ^ 36" using e2 cb unfolding intervals by simp
qed


definition returned_cents :: "int \<Rightarrow> int \<Rightarrow> int \<Rightarrow> int" where
  "returned_cents c q n = rounded_part (double_part c q n)"

lemma returned_cents_facts:
  assumes "0 \<le> c" "0 < q" "c * q \<le> 10 ^ 11" "0 \<le> n" "n \<le> q"
  shows "returned_cents c q 0 = 0" "returned_cents c q q = c" "0 \<le> returned_cents c q n" "returned_cents c q n \<le> c"
    and "\<bar>returned_cents c q n\<bar> \<le> max_cents" "round_money (Fin (double_part c q n)) = cents (returned_cents c q n)"
proof -
  note all = part_all [OF assms(1-3)]
  have zero: "double_part c q 0 = 0" by (simp add: double_part_def)
  have "fl (fl (1 / 2 ^ 52) * 100) \<le> 1 / 4"
  proof -
    have "\<bar>fl (1 / 2 ^ 52) - 1 / 2 ^ 52\<bar> \<le> 1 / 2 ^ 53" using fl_error_at [of "1 / 2 ^ 52" 0] by simp
    then have b: "\<bar>fl (1 / 2 ^ 52) * 100\<bar> \<le> 1 / 8" unfolding intervals by (intro conjI; simp)
    have "\<bar>fl (fl (1 / 2 ^ 52) * 100) - fl (1 / 2 ^ 52) * 100\<bar> \<le> 1 / 2 ^ 53"
      using fl_error_at [of "fl (1 / 2 ^ 52) * 100" 0] b by simp
    then show ?thesis using b unfolding intervals by simp
  qed
  moreover have "0 \<le> fl (fl (1 / 2 ^ 52) * 100)" by (intro fl_nonneg mult_nonneg_nonneg) simp_all
  ultimately show c0: "returned_cents c q 0 = 0"
    unfolding returned_cents_def rounded_part_def zero by (intro floor_unique) simp_all
  have "c * 1 \<le> c * q" using assms by (intro mult_left_mono) simp_all
  then have cb: "\<bar>c\<bar> \<le> max_cents" using assms by (simp add: max_cents_def)
  have "0 \<le> double_part c q q" using part_mono(1) [OF assms(1,2), of q q] assms(2) by simp
  then have rq: "round_money (Fin (double_part c q q)) = cents (rounded_part (double_part c q q))" "\<bar>rounded_part (double_part c q q)\<bar> \<le> max_cents"
    using rounded_part_near all(2) by blast+
  then have "dec (rounded_part (double_part c q q)) = dec c" using round_money_near [OF all(1) cb] by simp
  then show cq: "returned_cents c q q = c" using dec_eq_iff [OF rq(2) cb] by (simp add: returned_cents_def)
  have n: "0 \<le> double_part c q n" "double_part c q n \<le> double_part c q q" using part_mono [OF assms(1,2,4,5)] by simp_all
  then show "\<bar>returned_cents c q n\<bar> \<le> max_cents" "round_money (Fin (double_part c q n)) = cents (returned_cents c q n)"
    using rounded_part_near [of "double_part c q n"] all(2) by (simp_all add: returned_cents_def)
  have "double_part c q 0 \<le> double_part c q n" using part_mono(2) [OF assms(1,2), of 0 n] assms(4) by simp
  then show "0 \<le> returned_cents c q n"
    using rounded_part_mono [of "double_part c q 0" "double_part c q n"] zero c0 by (simp add: returned_cents_def)
  show "returned_cents c q n \<le> c"
    using rounded_part_mono [OF n] cq by (simp add: returned_cents_def)
qed

lemma returned_cents_mono:
  "0 \<le> c \<Longrightarrow> 0 < q \<Longrightarrow> 0 \<le> n \<Longrightarrow> n \<le> m \<Longrightarrow> returned_cents c q n \<le> returned_cents c q m"
  unfolding returned_cents_def by (intro rounded_part_mono part_mono)

lemma returned_net_cents:
  assumes p: "priced r c" and n: "0 \<le> n" "n \<le> si_quantity r"
  shows "returned_net r n = cents (returned_cents c (si_quantity r) n)"
proof -
  let ?q = "si_quantity r"
  have c: "0 \<le> c" "0 < ?q" "c * ?q \<le> 10 ^ 11" using p by (simp_all add: priced_def)
  have "c * 1 \<le> c * ?q" using c by (intro mult_left_mono) simp_all
  then have "\<bar>of_int c / 100 :: rat\<bar> \<le> 2 ^ 60"
    using c max_cents_bounds(2) [of c] by (simp add: max_cents_def)
  then have net: "line_net r = cents c"
    using p by (simp add: line_net_def priced_def moneyToNumber_def dec_def of_exact_at)
  have mono: "0 \<le> dec c * of_int n" "dec c * of_int n \<le> dec c * of_int ?q"
    using n dec_nonneg [OF c(1)] by (simp_all add: mult_left_mono)
  have top: "fl (dec c * of_int ?q) \<le> 2 ^ 31" by (rule part_all(4) [OF c])
  have fl_n: "0 \<le> fl (dec c * of_int n)" "fl (dec c * of_int n) \<le> 2 ^ 31"
    using fl_nonneg [OF mono(1)] fl_mono [OF mono] top by simp_all
  have mul: "num_mul (cents c) (num_int n) = Fin (fl (dec c * of_int n))"
    unfolding num_mul.simps using fl_n by (intro of_exact_finite) simp
  have "fl (dec c * of_int n) / of_int ?q \<le> fl (dec c * of_int n)"
    using fl_n c(2) by (simp add: divide_le_eq mult_le_cancel_left1)
  then have "\<bar>fl (dec c * of_int n) / of_int ?q\<bar> \<le> 2 ^ 60" using fl_n c(2) by simp
  then have "num_div (Fin (fl (dec c * of_int n))) (num_int ?q) = Fin (double_part c ?q n)"
    using c(2) unfolding num_div.simps double_part_def by (simp add: of_exact_at)
  then show ?thesis
    unfolding returned_net_def net mul using returned_cents_facts(6) [OF c n] by simp
qed

section \<open>Recorded refunds\<close>

lemma to_fixed_near:
  assumes "\<bar>v - of_int m / 100\<bar> \<le> 1 / 400" "0 \<le> v"
  shows "to_fixed 2 v = of_int m / 100"
proof -
  have "\<lfloor>\<bar>v\<bar> * 10 ^ 2 + 1 / 2\<rfloor> = m"
    using assms unfolding intervals by (intro floor_unique) simp_all
  then show ?thesis using assms(2) by (simp add: to_fixed_def)
qed

lemma line_refund_recorded:
  assumes p: "priced r c" and n: "0 \<le> si_returned r" "0 \<le> j" "si_returned r + j \<le> si_quantity r"
  shows "decimal_column 10 2 (line_refund r j) =
    Inr (of_int (returned_cents c (si_quantity r) (si_returned r + j) - returned_cents c (si_quantity r) (si_returned r)) / 100)"
proof -
  let ?q = "si_quantity r"
  let ?a = "returned_cents c ?q (si_returned r + j)" and ?b = "returned_cents c ?q (si_returned r)"
  have c: "0 \<le> c" "0 < ?q" "c * ?q \<le> 10 ^ 11" using p by (simp_all add: priced_def)
  have nets: "returned_net r (si_returned r + j) = cents ?a" "returned_net r (si_returned r) = cents ?b"
    using returned_net_cents [OF p] n by simp_all
  have facts: "\<bar>?a\<bar> \<le> max_cents" "\<bar>?b\<bar> \<le> max_cents" "0 \<le> ?b" "?a \<le> c"
    using returned_cents_facts [OF c, of "si_returned r + j"] returned_cents_facts [OF c, of "si_returned r"] n by simp_all
  have ba: "?b \<le> ?a" by (rule returned_cents_mono) (use c n in simp_all)
  have "c * 1 \<le> c * ?q" using c by (intro mult_left_mono) simp_all
  then have diff: "?a - ?b \<le> 10 ^ 11" using c facts by simp
  obtain v where v: "num_sub (cents ?a) (cents ?b) = Fin v" "\<bar>v - of_int (?a - ?b) / 100\<bar> \<le> 1 / 400"
    using cents_sub_near [OF facts(1,2)] by blast
  have "(0 :: rat) \<le> of_int (?a - ?b) / 100" using ba by simp
  moreover have "\<bar>max v 0 - d\<bar> \<le> e" if "\<bar>v - d\<bar> \<le> e" "0 \<le> d" for d e :: rat
    using that unfolding intervals by (auto simp: max_def)
  ultimately have vm: "\<bar>max v 0 - of_int (?a - ?b) / 100\<bar> \<le> 1 / 400" using v(2) by blast
  have "line_refund r j = Fin (max v 0)"
    unfolding line_refund_def nets v(1) by (simp add: num_max_def max_def)
  moreover have "to_fixed 2 (max v 0) = of_int (?a - ?b) / 100" by (rule to_fixed_near [OF vm]) simp
  moreover have "(of_int (?a - ?b) :: rat) \<le> of_int (10 ^ 11)" using diff by (simp only: of_int_le_iff)
  then have "\<bar>of_int (?a - ?b) / 100 :: rat\<bar> < 10 ^ 10" using ba by simp
  ultimately show ?thesis by (simp add: decimal_column_def rat_column_def)
qed

text \<open>The refunds recorded for a line that comes back in several returns.\<close>

primrec recorded_refunds :: "sale_item \<Rightarrow> int list \<Rightarrow> store_error + rat list" where
  "recorded_refunds r [] = Inr []"
| "recorded_refunds r (j # js) = and_then (decimal_column 10 2 (line_refund r j)) (\<lambda>v.
     and_then (recorded_refunds (r\<lparr>si_returned := si_returned r + j\<rparr>) js) (\<lambda>vs. Inr (v # vs)))"

lemma recorded_refunds_sum:
  assumes "priced r c" "0 \<le> si_returned r" "list_all (\<lambda>j. 0 < j) js" "si_returned r + sum_list js \<le> si_quantity r"
  shows "\<exists>vs. recorded_refunds r js = Inr vs \<and> list_all (\<lambda>v. 0 \<le> v) vs \<and>
    sum_list vs = of_int (returned_cents c (si_quantity r) (si_returned r + sum_list js)
      - returned_cents c (si_quantity r) (si_returned r)) / 100"
  using assms
proof (induction js arbitrary: r)
  case (Cons j js)
  let ?r = "r\<lparr>si_returned := si_returned r + j\<rparr>"
  have rest: "0 \<le> sum_list js" using Cons.prems(3) by (intro sum_list_nonneg) (auto simp: list_all_iff less_imp_le)
  have c: "0 \<le> c" "0 < si_quantity r" using Cons.prems(1) by (simp_all add: priced_def)
  have p: "priced ?r c" using Cons.prems(1) by (simp add: priced_def)
  obtain vs where vs: "recorded_refunds ?r js = Inr vs" "list_all (\<lambda>v. 0 \<le> v) vs"
    "sum_list vs = of_int (returned_cents c (si_quantity r) (si_returned r + j + sum_list js)
      - returned_cents c (si_quantity r) (si_returned r + j)) / 100"
    using Cons.IH [OF p] Cons.prems(2-4) by auto
  have "returned_cents c (si_quantity r) (si_returned r) \<le> returned_cents c (si_quantity r) (si_returned r + j)"
    by (rule returned_cents_mono) (use c Cons.prems in simp_all)
  then show ?case
    using line_refund_recorded [OF Cons.prems(1,2), of j] vs Cons.prems(3,4) rest
    by (simp add: diff_divide_distrib add.assoc)
qed simp

text \<open>C14. However the units of a sold line come back - in how many returns and in what quantities - the refunds
  recorded for it are never negative and never exceed its net amount, and once every unit is back they add up to it
  to the cent.\<close>

theorem refunds_add_up:
  assumes "priced r c" "si_returned r = 0" "list_all (\<lambda>j. 0 < j) js" "sum_list js \<le> si_quantity r"
  shows "\<exists>vs. recorded_refunds r js = Inr vs \<and> list_all (\<lambda>v. 0 \<le> v) vs \<and> sum_list vs \<le> of_int c / 100 \<and>
    (sum_list js = si_quantity r \<longrightarrow> sum_list vs = of_int c / 100)"
proof -
  have c: "0 \<le> c" "0 < si_quantity r" "c * si_quantity r \<le> 10 ^ 11" using assms(1) by (simp_all add: priced_def)
  have js: "0 \<le> sum_list js" using assms(3) by (intro sum_list_nonneg) (auto simp: list_all_iff less_imp_le)
  note facts = returned_cents_facts [OF c js assms(4)]
  have "(of_int (returned_cents c (si_quantity r) (sum_list js)) :: rat) \<le> of_int c" using facts(4) by (simp only: of_int_le_iff)
  then show ?thesis
    using recorded_refunds_sum [OF assms(1) _ assms(3)] assms(2,4) facts(1,2) by auto
qed

text \<open>Three units for ten reais: 3.33, then 6.67.\<close>

definition demo_item :: sale_item where
  "demo_item = \<lparr>si_id = 1, si_productId = Some ''p'', si_variantId = None, si_quantity = 3, si_returned = 0,
     si_unitCost = Some 2, si_subtotal = 10, si_netSubtotal = Some 10, si_discountShare = Some 0\<rparr>"

theorem refunds_add_up_witness:
  "\<exists>vs. recorded_refunds demo_item [1, 2] = Inr vs \<and> sum_list vs = 10"
proof -
  have "priced demo_item 1000" by (simp add: priced_def demo_item_def)
  then have "\<exists>vs. recorded_refunds demo_item [1, 2] = Inr vs \<and> list_all (\<lambda>v. 0 \<le> v) vs \<and> sum_list vs \<le> of_int 1000 / 100 \<and>
    (sum_list [1, 2] = si_quantity demo_item \<longrightarrow> sum_list vs = of_int 1000 / 100)"
    by (rule refunds_add_up) (simp_all add: demo_item_def)
  then show ?thesis by (auto simp: demo_item_def)
qed

end
