(* ===== verification/StoreReplays.thy ===== *)
theory StoreReplays
  imports StoreAccounts
begin

text \<open>
  Requests that are repeated: a return is answered from its record, and a request key names one return.
\<close>

lemma update_sale_returns [simp]: "db_returns (update_sale i f db) = db_returns db"
  by (simp add: update_sale_def)

lemma return_line_returns:
  assumes "ledger_inv db \<and> db_returns db = R" "return_line_step conta s db l = Inr db'"
  shows "ledger_inv db' \<and> db_returns db' = R"
proof -
  obtain f c where change: "apply_change (update_sale (sa_id s) f db) c = Inr db'"
    using assms(2) by (auto simp: return_line_step_def and_then_Inr_iff Let_def split: if_splits)
  have ledger: "ledger_inv (update_sale (sa_id s) f db)" using assms(1) by simp
  show ?thesis
    using apply_change_ledger [OF ledger change] apply_change_documents [OF ledger change] assms(1)
    by (simp add: same_documents_def)
qed

lemma find_sale_update:
  "(\<And>s. sa_id (f s) = sa_id s) \<Longrightarrow> (\<And>s. sa_contaId (f s) = sa_contaId s) \<Longrightarrow>
   find_sale (update_sale i f db) conta i = map_option f (find_sale db conta i)"
proof -
  assume f: "\<And>s. sa_id (f s) = sa_id s" "\<And>s. sa_contaId (f s) = sa_contaId s"
  let ?g = "\<lambda>s. if sa_id s = i then f s else s"
  have "find_sale (update_sale i f db) conta i = map_option ?g (find_sale db conta i)"
    unfolding find_sale_def update_sale_fields by (rule find_map_keeps) (simp add: f)
  then show ?thesis using find_sale_Some by (cases "find_sale db conta i") auto
qed

lemma return_recorded:
  assumes inv: "store_inv db" and new: "find_return db conta requestId = None"
    and res: "return_transaction db conta sale requestId fingerprint items = Inr (db', r)"
  shows "\<exists>t s. find_return db' conta requestId = Some t \<and> rt_saleId t = sale \<and> rt_fingerprint t = fingerprint \<and>
    rt_id t = rs_returnId r \<and> decimal_column 10 2 (rs_refundAmount r) = Inr (rt_refundAmount t) \<and>
    find_sale db' conta sale = Some s \<and> sa_inventoryStatus s = rs_status r"
proof -
  obtain s where s: "find_sale db conta sale = Some s"
    using res new by (auto simp: return_transaction_def split: option.splits)
  note found = find_sale_Some [OF s]
  obtain db1 amount stored where
    shipped: "sa_inventoryStatus s \<noteq> INV_RESERVED" "sa_inventoryStatus s \<noteq> INV_CANCELED"
    and amount: "decimal_column 10 2 (rs_refundAmount r) = Inr amount" "rs_returnId r = db_next db"
    and run0: "fold_err (return_line_step conta s)
      (db\<lparr>db_returns := db_returns db @ [return_record (db_next db) conta s requestId fingerprint amount stored],
         db_next := Suc (db_next db)\<rparr>) items = Inr db1"
    and db': "db' = update_sale sale (\<lambda>t. t\<lparr>sa_inventoryStatus := rs_status r\<rparr>) db1"
    using res new s unfolding return_transaction_def by (auto simp: and_then_Inr_iff Let_def split: if_splits)
  define t where "t = return_record (db_next db) conta s requestId fingerprint amount stored"
  note run = run0 [folded t_def]
  have t: "rt_contaId t = conta" "rt_requestId t = requestId" "rt_saleId t = sale" "rt_fingerprint t = fingerprint"
      "rt_id t = rs_returnId r" "decimal_column 10 2 (rs_refundAmount r) = Inr (rt_refundAmount t)"
    using amount found by (simp_all add: t_def return_record_def)
  let ?db0 = "db\<lparr>db_returns := db_returns db @ [t], db_next := Suc (db_next db)\<rparr>"
  have ledger: "ledger_inv ?db0" using store_invD(1) [OF inv] ledger_inv_cong [of ?db0 db] by simp
  have docs: "docs_inv ?db0"
    by (rule docs_inv_next [OF store_invD(2) [OF inv]]) (simp_all add: postings_def)
  have "has_shipped s" using shipped by (cases "sa_inventoryStatus s") (simp_all add: has_shipped_def)
  then have "under_return conta s ?db0"
    using found ledger docs by (auto simp: under_return_def store_inv_def)
  moreover have wf: "sale_wf s" using store_invD(2) [OF inv] found by (auto simp: docs_inv_def sale_ok_def)
  ultimately have "under_return conta s db1"
    using fold_err_invariant [OF run, of "under_return conta s"] return_line_step_keeps by blast
  then have "\<exists>t \<in> set (db_sales db1). sa_id t = sale \<and> sa_contaId t = conta"
    using found by (auto simp: under_return_def)
  then have "find_sale db1 conta sale \<noteq> None" unfolding find_sale_def find_None_eq by blast
  then obtain s1 where s1: "find_sale db1 conta sale = Some s1" by blast
  have "db_returns db1 = db_returns ?db0"
    using fold_err_invariant [OF run, of "\<lambda>d. ledger_inv d \<and> db_returns d = db_returns ?db0"] ledger return_line_returns by blast
  then have "find_return db' conta requestId = Some t"
    using new t(1,2) by (simp add: db' find_return_def find_append)
  moreover have "find_sale db' conta sale = Some (s1\<lparr>sa_inventoryStatus := rs_status r\<rparr>)"
    unfolding db' using s1 by (simp add: find_sale_update)
  ultimately show ?thesis using t by simp
qed

text \<open>C13. A return is registered once: after a request succeeded, the same request is answered from its record - with
  the same return, the recorded amount and nothing booked again - and the same key with another sale or other contents
  is refused.\<close>

theorem return_registered_once:
  assumes run: "store_run op_ok db" and new: "find_return db conta requestId = None"
    and res: "registerSaleReturn db conta sale requestId fingerprint items = Inr (db', r)" and items': "items' \<noteq> []"
  shows "(sale' = sale \<and> fingerprint' = fingerprint \<longrightarrow> (\<exists>amount. decimal_column 10 2 (rs_refundAmount r) = Inr amount \<and>
      registerSaleReturn db' conta sale' requestId fingerprint' items' =
        Inr (db', \<lparr>rs_status = rs_status r, rs_returnId = rs_returnId r, rs_refundAmount = moneyToNumber amount\<rparr>))) \<and>
    (sale' \<noteq> sale \<or> fingerprint' \<noteq> fingerprint \<longrightarrow>
      registerSaleReturn db' conta sale' requestId fingerprint' items' = Inl DEVOLUCAO_IDEMPOTENCY_CONFLICT)"
proof -
  have inv: "store_inv db" by (rule store_run_inv [OF run])
  have "return_transaction db conta sale requestId fingerprint items = Inr (db', r)"
    using res new unfolding registerSaleReturn_def by (auto split: if_splits sum.splits option.splits)
  then obtain t s where t: "find_return db' conta requestId = Some t" "rt_saleId t = sale" "rt_fingerprint t = fingerprint"
    "rt_id t = rs_returnId r" "decimal_column 10 2 (rs_refundAmount r) = Inr (rt_refundAmount t)"
    "find_sale db' conta sale = Some s" "sa_inventoryStatus s = rs_status r"
    using return_recorded [OF inv new] by blast
  show ?thesis
    using t items' by (auto simp: registerSaleReturn_def return_transaction_def replay_return_def)
qed

definition demo_return :: "nat \<Rightarrow> string \<Rightarrow> stock_db \<Rightarrow> store_error + stock_db \<times> return_result" where
  "demo_return sale fp db = registerSaleReturn db ''c'' sale ''q1'' fp [\<lparr>rl_saleItemId = 5, rl_quantity = Fin 1\<rparr>]"

definition demo_shop :: stock_db where
  "demo_shop = foldl run_op demo_store demo_history"

definition demo_sale :: store_sale where
  "demo_sale = \<lparr>sa_id = 4, sa_contaId = ''c'', sa_uiRequestId = ''s2'', sa_status = SALE_PENDENTE, sa_finalization = FIN_COBRANCA,
     sa_mode = MODE_IMMEDIATE, sa_inventoryStatus = INV_FULFILLED, sa_chargeId = None, sa_planId = None,
     sa_items = [\<lparr>si_id = 5, si_productId = Some ''p'', si_variantId = None, si_quantity = 1, si_returned = 0, si_unitCost = Some 4,
       si_subtotal = 10, si_netSubtotal = Some 10, si_discountShare = Some 0\<rparr>]\<rparr>"

lemma demo_sold: "find_sale demo_shop ''c'' 4 = Some demo_sale"
  by code_simp

definition demo_sold_item :: sale_item where
  "demo_sold_item = hd (sa_items demo_sale)"

lemma demo_checked: "check_return_line demo_sale \<lparr>rl_saleItemId = 5, rl_quantity = Fin 1\<rparr> = Inr (demo_sold_item, 1)"
  by code_simp

lemma demo_refund: "fold_err (refund_step demo_sale) ([], Fin 0) [\<lparr>rl_saleItemId = 5, rl_quantity = Fin 1\<rparr>] =
    Inr ([(5, 1, Fin 10)], Fin 10)"
proof -
  have c: "cents 1000 = Fin 10" by code_simp
  have r: "round_money (Fin 10) = Fin 10" using round_money_cents [of 1000] by (simp add: c max_cents_def)
  have "num_div (num_mul (line_net demo_sold_item) (num_int (si_returned demo_sold_item + 1))) (num_int (si_quantity demo_sold_item)) = Fin 10"
    "num_div (num_mul (line_net demo_sold_item) (num_int (si_returned demo_sold_item))) (num_int (si_quantity demo_sold_item)) = Fin 0"
    "num_max (num_sub (Fin 10) (Fin 0)) (Fin 0) = Fin 10" by code_simp+
  then have "line_refund demo_sold_item 1 = Fin 10" by (simp only: line_refund_def returned_net_def r round_money_0)
  moreover have "num_add (Fin 0) (Fin 10) = Fin 10" "si_id demo_sold_item = 5" by code_simp+
  ultimately show ?thesis by (simp add: refund_step_def demo_checked Let_def)
qed

lemma demo_amount: "decimal_column 10 2 (Fin 10) = Inr 10"
  by code_simp

lemma demo_uncharged: "List.null (related_charges demo_shop demo_sale)"
  by code_simp

lemma demo_unreturned: "List.null (db_returns demo_shop)"
  by code_simp

definition demo_registered :: stock_db where
  "demo_registered = demo_shop\<lparr>
     db_returns := db_returns demo_shop @ [return_record (db_next demo_shop) ''c'' demo_sale ''q1'' ''f'' 10 [(5, 1, 10)]],
     db_next := Suc (db_next demo_shop)\<rparr>"

lemma demo_booked:
  "(case fold_err (return_line_step ''c'' demo_sale) demo_registered [\<lparr>rl_saleItemId = 5, rl_quantity = Fin 1\<rparr>] of
     Inl e \<Rightarrow> False | Inr d \<Rightarrow> True)"
  by code_simp

lemma demo_new: "find_return demo_shop ''c'' ''q1'' = None"
  using demo_unreturned by (cases "db_returns demo_shop") (simp_all add: find_return_def)

lemma demo_returned: "\<exists>db' r. demo_return 4 ''f'' demo_shop = Inr (db', r) \<and> rs_refundAmount r = Fin 10"
proof -
  obtain db1 where "fold_err (return_line_step ''c'' demo_sale) demo_registered [\<lparr>rl_saleItemId = 5, rl_quantity = Fin 1\<rparr>] = Inr db1"
    using demo_booked by (auto split: sum.splits)
  moreover have "related_charges demo_shop demo_sale = []"
    using demo_uncharged by (cases "related_charges demo_shop demo_sale") simp_all
  moreover have "sa_status demo_sale \<noteq> SALE_CANCELADA" "sa_inventoryStatus demo_sale \<notin> {INV_RESERVED, INV_CANCELED}"
    by (simp_all add: demo_sale_def)
  ultimately show ?thesis
    by (simp add: demo_return_def registerSaleReturn_def return_transaction_def demo_new demo_sold demo_refund demo_amount
        boleto_refund_supported_def demo_registered_def Let_def del: fold_err.simps)
qed

theorem return_registered_once_witness:
  "\<exists>db' r. demo_return 4 ''f'' demo_shop = Inr (db', r) \<and> rs_refundAmount r = Fin 10 \<and>
     demo_return 4 ''g'' db' = Inl DEVOLUCAO_IDEMPOTENCY_CONFLICT"
proof -
  obtain db' r where r: "demo_return 4 ''f'' demo_shop = Inr (db', r)" "rs_refundAmount r = Fin 10"
    using demo_returned by blast
  note all = return_registered_once [OF demo_run [folded demo_shop_def] demo_new r(1) [unfolded demo_return_def],
    of "[\<lparr>rl_saleItemId = 5, rl_quantity = Fin 1\<rparr>]" 4 "''g''"]
  have "demo_return 4 ''g'' db' = Inl DEVOLUCAO_IDEMPOTENCY_CONFLICT"
    unfolding demo_return_def by (rule mp [OF conjunct2 [OF all]]) simp_all
  then show ?thesis using r by blast
qed

end
