(* ===== verification/PlatformAccess.thy ===== *)
theory PlatformAccess
  imports JSText
begin

text \<open>
  The school's own subscription to the platform: the account record and the access policy of
  \<^verbatim>\<open>packages/platform-billing/src/access-policy.ts\<close>. What a school may do is derived, at every moment, from the
  status of its subscription, its trial, its payments and its grace period. A date is its milliseconds; the card
  of the payment method is left out of the account, and of an error its code is kept.
\<close>

section \<open>The account\<close>

datatype account_status = ACC_NOT_STARTED | ACC_CHECKOUT_PENDING | ACC_ACTIVE | ACC_TRIALING | ACC_PAST_DUE | ACC_CANCELED
  | ACC_INCOMPLETE | ACC_INCOMPLETE_EXPIRED | ACC_UNPAID | ACC_PAUSED | ACC_UNKNOWN

datatype access_status = ACCESS_PENDING | ACCESS_ACTIVE | ACCESS_GRACE_PERIOD | ACCESS_RESTRICTED | ACCESS_CANCELED

datatype payment_method_status = METHOD_MISSING | METHOD_PRESENT | METHOD_UNKNOWN

datatype restriction_reason = TRIAL_EXPIRED | FIRST_PAYMENT_INCOMPLETE | PAYMENT_PAST_DUE | PAYMENT_UNPAID
  | SUBSCRIPTION_PAUSED | SUBSCRIPTION_CANCELED | PAYMENT_METHOD_MISSING | REASON_UNKNOWN

datatype plan_change_type = CHANGE_UPGRADE | CHANGE_DOWNGRADE | CHANGE_CANCEL_AT_PERIOD_END | CHANGE_UNDO_CANCEL
  | CHANGE_REACTIVATE | CHANGE_PAYMENT_RECOVERY

datatype claim_phase = CLAIMED | REQUESTING

record billing_account =
  ac_id :: string
  ac_contaId :: string
  ac_live :: bool
  ac_status :: account_status
  ac_planCode :: "string option"
  ac_customerId :: "string option"
  ac_subscriptionId :: "string option"
  ac_priceId :: "string option"
  ac_currentPeriodEnd :: "int option"
  ac_cancelAtPeriodEnd :: bool
  ac_trialEndsAt :: "int option"
  ac_trialWillEndNotifiedAt :: "int option"
  ac_accessStatus :: access_status
  ac_gracePeriodEndsAt :: "int option"
  ac_restrictedAt :: "int option"
  ac_canceledAt :: "int option"
  ac_lastPaymentFailedAt :: "int option"
  ac_firstPaidAt :: "int option"
  ac_lastSuccessfulPaymentAt :: "int option"
  ac_paymentMethod :: payment_method_status
  ac_restrictionReason :: "restriction_reason option"
  ac_gracePeriodStartedAt :: "int option"
  ac_stateVersion :: nat
  ac_lastEventCreatedAt :: "int option"
  ac_lastEventId :: "string option"
  ac_pendingPlanCode :: "string option"
  ac_pendingChangeType :: "plan_change_type option"
  ac_pendingEffectiveAt :: "int option"
  ac_pendingOperationId :: "string option"
  ac_pendingClaimToken :: "string option"
  ac_checkoutKey :: "string option"
  ac_checkoutPhase :: "claim_phase option"
  ac_checkoutClaimedAt :: "int option"
  ac_checkoutExpiresAt :: "int option"
  ac_trialKey :: "string option"
  ac_trialPhase :: "claim_phase option"
  ac_trialClaimedAt :: "int option"
  ac_trialExpiresAt :: "int option"

section \<open>access-policy.ts\<close>

definition DEFAULT_PLATFORM_BILLING_GRACE_PERIOD_DAYS :: int where
  "DEFAULT_PLATFORM_BILLING_GRACE_PERIOD_DAYS = 7"

definition computeGracePeriodEnd :: "int \<Rightarrow> int option \<Rightarrow> int" where
  "computeGracePeriodEnd failedAt days =
     failedAt + (case days of None \<Rightarrow> DEFAULT_PLATFORM_BILLING_GRACE_PERIOD_DAYS | Some d \<Rightarrow> d) * 24 * 60 * 60 * 1000"

definition has_paid_history :: "billing_account \<Rightarrow> bool" where
  "has_paid_history a \<longleftrightarrow> ac_firstPaidAt a \<noteq> None \<or> ac_lastSuccessfulPaymentAt a \<noteq> None"

definition reached :: "int option \<Rightarrow> int \<Rightarrow> bool" where
  "reached date now = (case date of None \<Rightarrow> False | Some d \<Rightarrow> d \<le> now)"

definition ahead :: "int option \<Rightarrow> int \<Rightarrow> bool" where
  "ahead date now = (case date of None \<Rightarrow> False | Some d \<Rightarrow> now < d)"

definition derivePlatformAccessStatus :: "billing_account option \<Rightarrow> int \<Rightarrow> access_status" where
  "derivePlatformAccessStatus account now = (case account of None \<Rightarrow> ACCESS_PENDING | Some a \<Rightarrow>
     let trialExpired = reached (ac_trialEndsAt a) now; paid = has_paid_history a in
     if ac_status a = ACC_CANCELED \<or> ac_status a = ACC_INCOMPLETE_EXPIRED then
       (if ac_cancelAtPeriodEnd a \<and> ahead (ac_currentPeriodEnd a) now then ACCESS_ACTIVE else ACCESS_CANCELED)
     else if ac_status a = ACC_PAUSED \<or> ac_status a = ACC_UNPAID \<or> ac_status a = ACC_INCOMPLETE then ACCESS_RESTRICTED
     else if ac_status a = ACC_TRIALING then (if trialExpired \<and> \<not> paid then ACCESS_RESTRICTED else ACCESS_ACTIVE)
     else if ac_status a = ACC_PAST_DUE then
       (if paid \<and> ahead (ac_gracePeriodEndsAt a) now then ACCESS_GRACE_PERIOD else ACCESS_RESTRICTED)
     else if ac_status a = ACC_ACTIVE then (if trialExpired \<and> \<not> paid then ACCESS_RESTRICTED else ACCESS_ACTIVE)
     else if ac_accessStatus a = ACCESS_ACTIVE then ACCESS_PENDING else ac_accessStatus a)"

definition derivePlatformRestrictionReason :: "billing_account option \<Rightarrow> int \<Rightarrow> restriction_reason option" where
  "derivePlatformRestrictionReason account now = (case account of None \<Rightarrow> None | Some a \<Rightarrow>
     let trialExpired = reached (ac_trialEndsAt a) now; paid = has_paid_history a in
     if ac_status a = ACC_TRIALING \<and> trialExpired \<and> \<not> paid then Some TRIAL_EXPIRED
     else if ac_status a = ACC_ACTIVE \<and> trialExpired \<and> \<not> paid then Some TRIAL_EXPIRED
     else if ac_status a = ACC_PAST_DUE then
       (if ac_paymentMethod a = METHOD_MISSING then Some PAYMENT_METHOD_MISSING
        else if ac_gracePeriodEndsAt a = None \<or> reached (ac_gracePeriodEndsAt a) now then Some PAYMENT_PAST_DUE
        else None)
     else if ac_status a = ACC_UNPAID then Some PAYMENT_UNPAID
     else if ac_status a = ACC_PAUSED then Some SUBSCRIPTION_PAUSED
     else if (ac_status a = ACC_CANCELED \<or> ac_status a = ACC_INCOMPLETE_EXPIRED) \<and>
        \<not> (ac_cancelAtPeriodEnd a \<and> ahead (ac_currentPeriodEnd a) now) then Some SUBSCRIPTION_CANCELED
     else None)"

datatype communication_level = LEVEL_NONE | LEVEL_TRIAL_WARNING | LEVEL_PAYMENT_PENDING | LEVEL_RESTRICTED | LEVEL_RENEWED

fun reason_text :: "restriction_reason \<Rightarrow> string" where
  "reason_text TRIAL_EXPIRED = ''TRIAL_EXPIRED''"
| "reason_text FIRST_PAYMENT_INCOMPLETE = ''FIRST_PAYMENT_INCOMPLETE''"
| "reason_text PAYMENT_PAST_DUE = ''PAYMENT_PAST_DUE''"
| "reason_text PAYMENT_UNPAID = ''PAYMENT_UNPAID''"
| "reason_text SUBSCRIPTION_PAUSED = ''SUBSCRIPTION_PAUSED''"
| "reason_text SUBSCRIPTION_CANCELED = ''SUBSCRIPTION_CANCELED''"
| "reason_text PAYMENT_METHOD_MISSING = ''PAYMENT_METHOD_MISSING''"
| "reason_text REASON_UNKNOWN = ''UNKNOWN''"

fun access_text :: "access_status \<Rightarrow> string" where
  "access_text ACCESS_PENDING = ''PENDING''"
| "access_text ACCESS_ACTIVE = ''ACTIVE''"
| "access_text ACCESS_GRACE_PERIOD = ''GRACE_PERIOD''"
| "access_text ACCESS_RESTRICTED = ''RESTRICTED''"
| "access_text ACCESS_CANCELED = ''CANCELED''"

text \<open>\<^verbatim>\<open>Math.ceil\<close> of the days left.\<close>

fun num_ceil :: "jsnum \<Rightarrow> jsnum" where
  "num_ceil (Fin x) = Fin (of_int \<lceil>x\<rceil>)"
| "num_ceil x = x"

definition trial_days :: "int \<Rightarrow> int \<Rightarrow> jsnum" where
  "trial_days trialEndsAt now = num_ceil (num_div (num_int (trialEndsAt - now)) (num_int (24 * 60 * 60 * 1000)))"

definition derivePlatformBillingCommunication ::
    "billing_account option \<Rightarrow> int \<Rightarrow> communication_level \<times> string option" where
  "derivePlatformBillingCommunication account now =
     (let access = derivePlatformAccessStatus account now; reason = derivePlatformRestrictionReason account now;
          trialEndsAt = (case account of None \<Rightarrow> None | Some a \<Rightarrow> ac_trialEndsAt a);
          trialDays = map_option (\<lambda>e. trial_days e now) trialEndsAt;
          paid = (case account of None \<Rightarrow> False | Some a \<Rightarrow> has_paid_history a);
          lastPaid = (case account of None \<Rightarrow> None | Some a \<Rightarrow> ac_lastSuccessfulPaymentAt a)
      in if access = ACCESS_RESTRICTED \<or> access = ACCESS_CANCELED then
           (LEVEL_RESTRICTED, Some (''restricted-'' @ (case reason of None \<Rightarrow> access_text access | Some r \<Rightarrow> reason_text r)))
         else if access = ACCESS_GRACE_PERIOD then
           (LEVEL_PAYMENT_PENDING, Some (''payment-pending-'' @
              (case account of None \<Rightarrow> ''unknown''
               | Some a \<Rightarrow> (case ac_gracePeriodEndsAt a of None \<Rightarrow> ''unknown'' | Some d \<Rightarrow> iso_string d))))
         else if map_option ac_paymentMethod account \<noteq> Some METHOD_PRESENT \<and> \<not> paid \<and>
             trialDays \<in> {Some (Fin 1), Some (Fin 3), Some (Fin 7)} then
           (LEVEL_TRIAL_WARNING, Some (''trial-'' @ num_text (the trialDays)))
         else (case lastPaid of
             Some p \<Rightarrow> if access = ACCESS_ACTIVE \<and> 0 \<le> now - p \<and> now - p \<le> 24 * 60 * 60 * 1000
               then (LEVEL_RENEWED, Some (''renewed-'' @ iso_string p)) else (LEVEL_NONE, None)
           | None \<Rightarrow> (LEVEL_NONE, None)))"

datatype capability = BILLING_READ | BILLING_MANAGE | SUPPORT | ESSENTIAL_EXPORT | ACCOUNT_READ | REPORT_READ | MONEY_READ
  | MONEY_TRANSFER | MONEY_WITHDRAW | STUDENT_WRITE | RESPONSIBLE_WRITE | STAFF_WRITE | CLASS_WRITE | ROOM_WRITE
  | MODALITY_WRITE | LESSON_WRITE | STORE_WRITE | EVENT_WRITE | ENROLLMENT_WRITE | CONTRACT_WRITE | CHARGE_CREATE
  | FINANCIAL_CORRECTION | FINANCIAL_CONFIG_WRITE | ADMIN_WRITE

definition RESTRICTED_ALLOWED_CAPABILITIES :: "capability set" where
  "RESTRICTED_ALLOWED_CAPABILITIES = {BILLING_READ, BILLING_MANAGE, SUPPORT, ESSENTIAL_EXPORT, ACCOUNT_READ, REPORT_READ,
     MONEY_READ, FINANCIAL_CORRECTION}"

definition CANCELED_ALLOWED_CAPABILITIES :: "capability set" where
  "CANCELED_ALLOWED_CAPABILITIES = {BILLING_READ, BILLING_MANAGE, SUPPORT, ESSENTIAL_EXPORT, ACCOUNT_READ, REPORT_READ,
     MONEY_READ, FINANCIAL_CORRECTION}"

definition canUsePlatformCapability :: "access_status \<Rightarrow> capability \<Rightarrow> bool" where
  "canUsePlatformCapability access c =
     (if access = ACCESS_ACTIVE \<or> access = ACCESS_GRACE_PERIOD then True
      else if access = ACCESS_PENDING then c = BILLING_READ \<or> c = BILLING_MANAGE \<or> c = SUPPORT
      else if access = ACCESS_RESTRICTED then c \<in> RESTRICTED_ALLOWED_CAPABILITIES
      else c \<in> CANCELED_ALLOWED_CAPABILITIES)"

datatype access_error = PLATFORM_BILLING_ACCESS_RESTRICTED access_status capability

definition assertPlatformAccess :: "billing_account option \<Rightarrow> capability \<Rightarrow> int \<Rightarrow> access_error + access_status" where
  "assertPlatformAccess account c now = (let access = derivePlatformAccessStatus account now
     in if canUsePlatformCapability access c then Inr access else Inl (PLATFORM_BILLING_ACCESS_RESTRICTED access c))"

section \<open>Who has access, and for how long\<close>

definition operational :: "access_status \<Rightarrow> bool" where
  "operational access \<longleftrightarrow> access = ACCESS_ACTIVE \<or> access = ACCESS_GRACE_PERIOD"

definition cover_running :: "billing_account \<Rightarrow> int \<Rightarrow> bool" where
  "cover_running a now = (case ac_status a of
       ACC_ACTIVE \<Rightarrow> has_paid_history a \<or> \<not> reached (ac_trialEndsAt a) now
     | ACC_TRIALING \<Rightarrow> has_paid_history a \<or> \<not> reached (ac_trialEndsAt a) now
     | ACC_PAST_DUE \<Rightarrow> has_paid_history a \<and> ahead (ac_gracePeriodEndsAt a) now
     | ACC_CANCELED \<Rightarrow> ac_cancelAtPeriodEnd a \<and> ahead (ac_currentPeriodEnd a) now
     | ACC_INCOMPLETE_EXPIRED \<Rightarrow> ac_cancelAtPeriodEnd a \<and> ahead (ac_currentPeriodEnd a) now
     | ACC_PAUSED \<Rightarrow> False | ACC_UNPAID \<Rightarrow> False | ACC_INCOMPLETE \<Rightarrow> False
     | _ \<Rightarrow> ac_accessStatus a = ACCESS_GRACE_PERIOD)"

lemma operational_iff: "operational (derivePlatformAccessStatus (Some a) now) \<longleftrightarrow> cover_running a now"
  by (cases "ac_status a") (auto simp: operational_def derivePlatformAccessStatus_def cover_running_def Let_def)

lemma cover_decays: "cover_running a later \<Longrightarrow> now \<le> later \<Longrightarrow> cover_running a now"
  by (auto simp: cover_running_def reached_def ahead_def split: account_status.splits option.splits)

lemma writes_need_cover: "c \<notin> RESTRICTED_ALLOWED_CAPABILITIES \<Longrightarrow> canUsePlatformCapability access c \<longleftrightarrow> operational access"
  by (cases access)
    (auto simp: canUsePlatformCapability_def operational_def CANCELED_ALLOWED_CAPABILITIES_def RESTRICTED_ALLOWED_CAPABILITIES_def)

lemma access_follows_cover_facts:
  assumes "c \<notin> RESTRICTED_ALLOWED_CAPABILITIES"
  shows "(\<exists>access. assertPlatformAccess (Some a) c now = Inr access) \<longleftrightarrow> cover_running a now"
    and "now \<le> later \<Longrightarrow> \<not> cover_running a now \<Longrightarrow> \<not> cover_running a later"
    and "\<not> has_paid_history a \<Longrightarrow> ac_status a \<notin> {ACC_NOT_STARTED, ACC_CHECKOUT_PENDING, ACC_UNKNOWN} \<Longrightarrow>
      cover_running a now \<longleftrightarrow>
        ac_status a \<in> {ACC_ACTIVE, ACC_TRIALING} \<and> \<not> reached (ac_trialEndsAt a) now \<or>
        ac_status a \<in> {ACC_CANCELED, ACC_INCOMPLETE_EXPIRED} \<and> ac_cancelAtPeriodEnd a \<and> ahead (ac_currentPeriodEnd a) now"
proof -
  show "(\<exists>access. assertPlatformAccess (Some a) c now = Inr access) \<longleftrightarrow> cover_running a now"
    using assms by (auto simp: assertPlatformAccess_def Let_def writes_need_cover operational_iff)
  show "\<not> cover_running a later" if "now \<le> later" "\<not> cover_running a now" using cover_decays that by blast
  show "cover_running a now \<longleftrightarrow>
        ac_status a \<in> {ACC_ACTIVE, ACC_TRIALING} \<and> \<not> reached (ac_trialEndsAt a) now \<or>
        ac_status a \<in> {ACC_CANCELED, ACC_INCOMPLETE_EXPIRED} \<and> ac_cancelAtPeriodEnd a \<and> ahead (ac_currentPeriodEnd a) now"
    if "\<not> has_paid_history a" "ac_status a \<notin> {ACC_NOT_STARTED, ACC_CHECKOUT_PENDING, ACC_UNKNOWN}"
    using that by (cases "ac_status a") (auto simp: cover_running_def)
qed

text \<open>C21. An operational capability (one that is not among those kept under restriction) is granted exactly while the
  account is covered - by a payment or a running trial, by the grace period of a paid account, or by the rest of a
  period at whose end it was cancelled; while nothing new is recorded of the account, cover that has ended never
  returns. An account that never paid, once its subscription has started, is covered in two cases only: its status is
  active or trialing and its trial is not over (an active one without a trial date included), or it was cancelled at the
  end of a period that still runs, which keeps the access whether or not anything was paid.\<close>

theorem access_follows_cover:
  assumes "c \<notin> RESTRICTED_ALLOWED_CAPABILITIES"
  shows "((\<exists>access. assertPlatformAccess (Some a) c now = Inr access) \<longleftrightarrow> cover_running a now) \<and>
    (now \<le> later \<and> \<not> cover_running a now \<longrightarrow> \<not> cover_running a later) \<and>
    (\<not> has_paid_history a \<and> ac_status a \<notin> {ACC_NOT_STARTED, ACC_CHECKOUT_PENDING, ACC_UNKNOWN} \<longrightarrow>
      (cover_running a now \<longleftrightarrow>
        ac_status a \<in> {ACC_ACTIVE, ACC_TRIALING} \<and> \<not> reached (ac_trialEndsAt a) now \<or>
        ac_status a \<in> {ACC_CANCELED, ACC_INCOMPLETE_EXPIRED} \<and> ac_cancelAtPeriodEnd a \<and> ahead (ac_currentPeriodEnd a) now))"
  using access_follows_cover_facts [OF assms] by blast

definition demo_trial :: billing_account where
  "demo_trial = \<lparr>ac_id = ''acc'', ac_contaId = ''school'', ac_live = True, ac_status = ACC_TRIALING, ac_planCode = Some ''BAND_001_025'',
     ac_customerId = Some ''cus'', ac_subscriptionId = Some ''sub'', ac_priceId = Some ''price_1'',
     ac_currentPeriodEnd = Some 1000, ac_cancelAtPeriodEnd = False, ac_trialEndsAt = Some 1000,
     ac_trialWillEndNotifiedAt = None,
     ac_accessStatus = ACCESS_ACTIVE, ac_gracePeriodEndsAt = None, ac_restrictedAt = None, ac_canceledAt = None,
     ac_lastPaymentFailedAt = None, ac_firstPaidAt = None, ac_lastSuccessfulPaymentAt = None,
     ac_paymentMethod = METHOD_MISSING, ac_restrictionReason = None, ac_gracePeriodStartedAt = None,
     ac_stateVersion = 1, ac_lastEventCreatedAt = None, ac_lastEventId = None, ac_pendingPlanCode = None,
     ac_pendingChangeType = None, ac_pendingEffectiveAt = None, ac_pendingOperationId = None,
     ac_pendingClaimToken = None, ac_checkoutKey = None, ac_checkoutPhase = None, ac_checkoutClaimedAt = None,
     ac_checkoutExpiresAt = None, ac_trialKey = None, ac_trialPhase = None, ac_trialClaimedAt = None,
     ac_trialExpiresAt = None\<rparr>"

theorem access_follows_cover_witness:
  "assertPlatformAccess (Some demo_trial) STUDENT_WRITE 999 = Inr ACCESS_ACTIVE \<and> cover_running demo_trial 999 \<and>
   \<not> cover_running demo_trial 1000 \<and> \<not> cover_running demo_trial 5000 \<and>
   cover_running (demo_trial\<lparr>ac_status := ACC_CANCELED, ac_cancelAtPeriodEnd := True, ac_trialEndsAt := Some 500\<rparr>) 999"
proof -
  have c: "STUDENT_WRITE \<notin> RESTRICTED_ALLOWED_CAPABILITIES" by (simp add: RESTRICTED_ALLOWED_CAPABILITIES_def)
  have granted: "assertPlatformAccess (Some demo_trial) STUDENT_WRITE 999 = Inr ACCESS_ACTIVE" by code_simp
  have "\<not> has_paid_history demo_trial" "ac_status demo_trial = ACC_TRIALING" "reached (ac_trialEndsAt demo_trial) 1000"
    by code_simp+
  then have over: "\<not> cover_running demo_trial 1000"
    using access_follows_cover [OF c, of demo_trial 1000] by simp
  then have "\<not> cover_running demo_trial 5000" using access_follows_cover [OF c, of demo_trial 1000 5000] by simp
  moreover let ?a = "demo_trial\<lparr>ac_status := ACC_CANCELED, ac_cancelAtPeriodEnd := True, ac_trialEndsAt := Some 500\<rparr>"
  have "\<not> has_paid_history ?a" "ahead (ac_currentPeriodEnd ?a) 999" by code_simp+
  then have "cover_running ?a 999" using access_follows_cover [OF c, of ?a 999] by simp
  ultimately show ?thesis using granted over access_follows_cover [OF c, of demo_trial 999] by blast
qed

end
