(* ===== verification/PlatformPlans.thy ===== *)
theory PlatformPlans
  imports Prelude CivilDate DecimalMoney
begin

text \<open>
  The plans of the platform and how a school is assigned one: the price bands by number of students
  (\<^verbatim>\<open>commercial-model.ts\<close>), the plans (\<^verbatim>\<open>plans.ts\<close>), their prices at the provider (\<^verbatim>\<open>price-mapping.ts\<close>), the capacity
  check (\<^verbatim>\<open>student-capacity.ts\<close>) and the choice of a plan at checkout (\<^verbatim>\<open>checkout-commercial-resolution.ts\<close>), all of
  \<^verbatim>\<open>packages/platform-billing/src\<close>. A plan code is the string of the code, a value of unknown type that is not a
  string is \<open>None\<close>, and \<^verbatim>\<open>key in object\<close> also finds the names every object inherits. Names and labels are left out.
\<close>

section \<open>commercial-model.ts\<close>

record price_band =
  bd_code :: string
  bd_minStudents :: int
  bd_maxStudents :: int
  bd_amountCents :: int

definition price_row :: "string \<Rightarrow> int \<Rightarrow> int \<Rightarrow> int \<Rightarrow> price_band" where
  "price_row code low high amount = \<lparr>bd_code = code, bd_minStudents = low, bd_maxStudents = high, bd_amountCents = amount\<rparr>"

definition SCHOOL_PRICE_BANDS :: "price_band list" where
  "SCHOOL_PRICE_BANDS = [
     price_row ''BAND_001_025'' 1 25 16900,
     price_row ''BAND_026_050'' 26 50 22900,
     price_row ''BAND_051_100'' 51 100 28900,
     price_row ''BAND_101_150'' 101 150 34900,
     price_row ''BAND_151_200'' 151 200 41900,
     price_row ''BAND_201_300'' 201 300 47900,
     price_row ''BAND_301_400'' 301 400 55900,
     price_row ''BAND_401_500'' 401 500 64900]"

definition band_codes :: "string list" where
  "band_codes = map bd_code SCHOOL_PRICE_BANDS"

definition SCHOOL_PRICE_BAND_RANKS :: "(string \<times> int) list" where
  "SCHOOL_PRICE_BAND_RANKS = zip band_codes [1..int (length band_codes)]"

definition isSchoolPriceBandCode :: "string option \<Rightarrow> bool" where
  "isSchoolPriceBandCode v = (case v of None \<Rightarrow> False | Some s \<Rightarrow> s \<in> set (map fst SCHOOL_PRICE_BAND_RANKS))"

definition getSchoolPriceBandRank :: "string \<Rightarrow> int option" where
  "getSchoolPriceBandRank code = map_of SCHOOL_PRICE_BAND_RANKS code"

datatype commercial_target = SELF_SERVICE price_band | SPECIALIST

definition resolveSchoolCommercialTarget :: "jsnum \<Rightarrow> commercial_target option" where
  "resolveSchoolCommercialTarget studentCount =
     (if \<not> num_safe_integer studentCount \<or> num_less studentCount (Fin 0) then None
      else if studentCount = Fin 0 then Some (SELF_SERVICE (hd SCHOOL_PRICE_BANDS))
      else if num_less (num_int 500) studentCount then Some SPECIALIST
      else map_option SELF_SERVICE (find (\<lambda>b. num_le (num_int (bd_minStudents b)) studentCount \<and>
          num_le studentCount (num_int (bd_maxStudents b))) SCHOOL_PRICE_BANDS))"

definition calculateCustomInvitationMonthlyAmountCents :: "jsnum \<Rightarrow> jsnum \<Rightarrow> jsnum \<Rightarrow> jsnum \<Rightarrow> jsnum option" where
  "calculateCustomInvitationMonthlyAmountCents base included overage students =
     (if \<not> list_all num_safe_integer [base, included, overage, students] \<or> num_less base (Fin 1) \<or>
         num_less included (Fin 1) \<or> num_less overage (Fin 0) \<or> num_less students (Fin 1) then None
      else let amount = num_add base (num_mul (num_max (Fin 0) (num_sub students included)) overage)
        in if num_safe_integer amount \<and> num_less (Fin 0) amount then Some amount else None)"

definition shouldApplySchoolPriceBand :: "string option \<Rightarrow> string \<Rightarrow> jsnum \<Rightarrow> bool" where
  "shouldApplySchoolPriceBand current candidate closes \<longleftrightarrow> Some candidate \<noteq> current \<and> num_le (num_int 3) closes"

definition isPreviousUtcMonth :: "int \<Rightarrow> int \<Rightarrow> bool" where
  "isPreviousUtcMonth newer older \<longleftrightarrow> (let expected = date_utc (utc_year newer) (utc_month newer - 1) 1
     in utc_year expected = utc_year older \<and> utc_month expected = utc_month older)"

text \<open>A monthly close: the start of its period and the band it computed.\<close>

record snapshot =
  sn_periodStart :: int
  sn_candidate :: "string option"

definition resolveStableSchoolPriceBand :: "string option \<Rightarrow> snapshot list \<Rightarrow> string option" where
  "resolveStableSchoolPriceBand current snapshots =
     (case take 3 (sort_key (\<lambda>s. - sn_periodStart s) snapshots) of
        [newest, second, third] \<Rightarrow>
          if \<not> (sn_candidate newest = sn_candidate second \<and> sn_candidate second = sn_candidate third) \<or>
             \<not> (isPreviousUtcMonth (sn_periodStart newest) (sn_periodStart second) \<and>
                 isPreviousUtcMonth (sn_periodStart second) (sn_periodStart third)) \<or>
             sn_candidate newest = current then None
          else sn_candidate newest
      | _ \<Rightarrow> None)"

definition hasBillableEnrollment :: "bool \<Rightarrow> bool \<Rightarrow> jsnum option \<Rightarrow> bool \<Rightarrow> bool" where
  "hasBillableEnrollment active effective cycleAmountCents fullScholarship \<longleftrightarrow> active \<and> effective \<and> \<not> fullScholarship \<and>
     (case cycleAmountCents of None \<Rightarrow> False | Some c \<Rightarrow> num_finite c \<and> num_less (Fin 0) c)"

section \<open>plans.ts\<close>

record platform_plan =
  pp_amountCents :: "int option"
  pp_trialDays :: "int option"
  pp_minActiveStudents :: "int option"
  pp_maxActiveStudents :: "int option"
  pp_publicCheckout :: bool
  pp_legacy :: bool

definition createBand :: "price_band \<Rightarrow> platform_plan" where
  "createBand b = \<lparr>pp_amountCents = Some (bd_amountCents b), pp_trialDays = Some 14,
     pp_minActiveStudents = Some (bd_minStudents b), pp_maxActiveStudents = Some (bd_maxStudents b),
     pp_publicCheckout = True, pp_legacy = False\<rparr>"

definition NEW_PLANS :: "(string \<times> platform_plan) list" where
  "NEW_PLANS = map (\<lambda>b. (bd_code b, createBand b)) SCHOOL_PRICE_BANDS"

definition legacy_plan :: "int option \<Rightarrow> platform_plan" where
  "legacy_plan amount = \<lparr>pp_amountCents = amount, pp_trialDays = None, pp_minActiveStudents = None,
     pp_maxActiveStudents = None, pp_publicCheckout = False, pp_legacy = True\<rparr>"

definition LEGACY_PLANS :: "(string \<times> platform_plan) list" where
  "LEGACY_PLANS = [(''STARTER'', legacy_plan (Some 14900)), (''PREMIUM'', legacy_plan (Some 27900)),
     (''PRO'', legacy_plan (Some 49900)), (''CUSTOM'', legacy_plan None)]"

definition PLATFORM_PLANS :: "(string \<times> platform_plan) list" where
  "PLATFORM_PLANS = NEW_PLANS @ LEGACY_PLANS"

definition key_in :: "string \<Rightarrow> (string \<times> 'a) list \<Rightarrow> bool" where
  "key_in k t \<longleftrightarrow> k \<in> set (map fst t) \<or> k \<in> set inherited_names"

definition isPlatformPlanCode :: "string option \<Rightarrow> bool" where
  "isPlatformPlanCode v = (case v of None \<Rightarrow> False | Some s \<Rightarrow> key_in s PLATFORM_PLANS)"

definition isPublicPlatformPlanCode :: "string option \<Rightarrow> bool" where
  "isPublicPlatformPlanCode v = (case v of None \<Rightarrow> False | Some s \<Rightarrow> key_in s NEW_PLANS)"

definition getPlatformPlan :: "string \<Rightarrow> platform_plan option" where
  "getPlatformPlan code = map_of PLATFORM_PLANS code"

definition getMaxActiveStudents :: "string \<Rightarrow> int option" where
  "getMaxActiveStudents code = Option.bind (getPlatformPlan code) pp_maxActiveStudents"

section \<open>price-mapping.ts\<close>

definition PRICE_ENV_BY_PLAN :: "(string \<times> string) list" where
  "PRICE_ENV_BY_PLAN = map (\<lambda>b. (bd_code b, ''STRIPE_PRICE_'' @ bd_code b @ ''_MONTHLY'')) SCHOOL_PRICE_BANDS"

definition LEGACY_PRICE_ENV_BY_PLAN :: "(string \<times> string) list" where
  "LEGACY_PRICE_ENV_BY_PLAN = [(''STARTER'', ''STRIPE_PRICE_STARTER_MONTHLY''),
     (''PREMIUM'', ''STRIPE_PRICE_PREMIUM_MONTHLY''), (''PRO'', ''STRIPE_PRICE_PRO_MONTHLY'')]"

datatype plan_error = PLATFORM_PLAN_INVALID | PLATFORM_PLAN_NOT_PUBLIC | PLATFORM_PRICE_MISSING | PLATFORM_PRICE_INVALID
  | PLATFORM_PRICE_UNKNOWN | STRIPE_CONFIG_INVALID

definition price_char :: "char \<Rightarrow> bool" where
  "price_char c \<longleftrightarrow> (let n = of_char c :: nat in 65 \<le> n \<and> n \<le> 90 \<or> 97 \<le> n \<and> n \<le> 122 \<or> 48 \<le> n \<and> n \<le> 57 \<or> n = 95)"

definition isStripePriceId :: "string option \<Rightarrow> bool" where
  "isStripePriceId v = (case v of None \<Rightarrow> False
     | Some s \<Rightarrow> take 6 s = ''price_'' \<and> drop 6 s \<noteq> [] \<and> list_all price_char (drop 6 s))"

text \<open>The environment of the process is a partial map; an inherited plan name names no variable of it.\<close>

definition resolveStripePriceId :: "string option \<Rightarrow> (string \<Rightarrow> string option) \<Rightarrow> plan_error + string" where
  "resolveStripePriceId planCode source =
     (let public = isPublicPlatformPlanCode planCode;
          legacy = isPlatformPlanCode planCode \<and> key_in (the planCode) LEGACY_PRICE_ENV_BY_PLAN
      in if \<not> public \<and> \<not> legacy then Inl PLATFORM_PLAN_INVALID
         else let envName = map_of (if public then PRICE_ENV_BY_PLAN else LEGACY_PRICE_ENV_BY_PLAN) (the planCode);
                  priceId = Option.bind envName source
           in if \<not> truthy priceId then Inl PLATFORM_PRICE_MISSING
              else if \<not> isStripePriceId priceId then Inl PLATFORM_PRICE_INVALID else Inr (the priceId))"

text \<open>\<^verbatim>\<open>parseStripeEnvironment\<close> of \<^verbatim>\<open>packages/stripe/src/config.ts\<close>: whether the live environment is meant.\<close>

definition parseStripeEnvironment :: "string option \<Rightarrow> plan_error + bool" where
  "parseStripeEnvironment v = (case map_option (\<lambda>s. js_upper (js_trim s)) v of
     Some s \<Rightarrow> if s = ''TEST'' then Inr False else if s = ''LIVE'' then Inr True else Inl STRIPE_CONFIG_INVALID
   | None \<Rightarrow> Inl STRIPE_CONFIG_INVALID)"

definition resolvePlanCodeFromStripePriceId :: "string \<Rightarrow> (string \<Rightarrow> string option) \<Rightarrow> plan_error + string \<times> bool" where
  "resolvePlanCodeFromStripePriceId priceId source =
     (if \<not> isStripePriceId (Some priceId) then Inl PLATFORM_PRICE_INVALID
      else (case parseStripeEnvironment (source ''STRIPE_ENVIRONMENT'') of Inl e \<Rightarrow> Inl e
        | Inr live \<Rightarrow> (case find (\<lambda>(code, env). source env = Some priceId) (PRICE_ENV_BY_PLAN @ LEGACY_PRICE_ENV_BY_PLAN) of
            Some (code, env) \<Rightarrow> Inr (code, live) | None \<Rightarrow> Inl PLATFORM_PRICE_UNKNOWN)))"

definition parsePublicCheckoutPlanCode :: "string option \<Rightarrow> plan_error + string" where
  "parsePublicCheckoutPlanCode v =
     (if \<not> isPlatformPlanCode v \<or> \<not> key_in (the v) PRICE_ENV_BY_PLAN then Inl PLATFORM_PLAN_INVALID
      else if \<not> (case getPlatformPlan (the v) of None \<Rightarrow> False | Some p \<Rightarrow> pp_publicCheckout p) \<or>
        \<not> isPublicPlatformPlanCode v then Inl PLATFORM_PLAN_NOT_PUBLIC else Inr (the v))"

section \<open>student-capacity.ts\<close>

definition PLAN_CAPACITY_ORDER :: "string list" where
  "PLAN_CAPACITY_ORDER = [''STARTER'', ''PREMIUM'', ''PRO'', ''CUSTOM'']"

definition recommendPlatformPlanForActiveStudents :: "jsnum \<Rightarrow> string" where
  "recommendPlatformPlanForActiveStudents activeStudents =
     (case find (\<lambda>code. case getMaxActiveStudents code of None \<Rightarrow> True | Some m \<Rightarrow> num_le activeStudents (num_int m))
        PLAN_CAPACITY_ORDER of Some code \<Rightarrow> code | None \<Rightarrow> ''CUSTOM'')"

record capacity_result =
  cr_allowed :: bool
  cr_planCode :: "string option"
  cr_maxActiveStudents :: "jsnum option"
  cr_activeStudents :: jsnum
  cr_additional :: jsnum
  cr_projected :: jsnum
  cr_recommended :: "string option"

definition evaluateStudentCapacity :: "string option \<Rightarrow> jsnum \<Rightarrow> jsnum \<Rightarrow> capacity_result" where
  "evaluateStudentCapacity planCode activeStudents additional =
     (let more = num_max (Fin 0) (num_floor additional); active = num_max (Fin 0) (num_floor activeStudents)
      in \<lparr>cr_allowed = True, cr_planCode = planCode, cr_maxActiveStudents = None, cr_activeStudents = active,
          cr_additional = more, cr_projected = num_add active more, cr_recommended = None\<rparr>)"

definition assertStudentCapacityDomain :: "string option \<Rightarrow> jsnum \<Rightarrow> jsnum \<Rightarrow> capacity_result option" where
  "assertStudentCapacityDomain planCode activeStudents additional =
     (let r = evaluateStudentCapacity planCode activeStudents additional in if cr_allowed r then Some r else None)"

section \<open>checkout-commercial-resolution.ts\<close>

record invitation =
  iv_conditionType :: string
  iv_stripePriceId :: "string option"
  iv_studentCount :: "int option"

record checkout_context =
  cc_activeStudents :: int
  cc_billingPlanCode :: "string option"
  cc_billingStatus :: "string option"
  cc_billingAccessStatus :: "string option"
  cc_wizardCompleted :: bool
  cc_onboardingCount :: "int option"
  cc_snapshots :: "snapshot list"
  cc_invitation :: "invitation option"

datatype specialist_reason = CONFIRMED_SPECIALIST | COUNT_ABOVE_SELF_SERVICE

datatype checkout_resolution = CR_RESOLVED string "string option" int "string option"
  | CR_SPECIALIST specialist_reason "int option" | CR_UNSTABLE

definition count_or_zero :: "int option \<Rightarrow> int" where
  "count_or_zero v = (case v of None \<Rightarrow> 0 | Some n \<Rightarrow> n)"

text \<open>A count of zero declares nothing (it is falsy); without a completed wizard no declaration counts.\<close>

definition declared_count :: "checkout_context \<Rightarrow> int option" where
  "declared_count c = (if cc_wizardCompleted c \<and> cc_onboardingCount c \<noteq> None \<and> cc_onboardingCount c \<noteq> Some 0
     then cc_onboardingCount c else None)"

definition invited_checkout :: "checkout_context \<Rightarrow> invitation \<Rightarrow> checkout_resolution" where
  "invited_checkout c i =
     (let declared = (case declared_count c of Some n \<Rightarrow> n | None \<Rightarrow> count_or_zero (iv_studentCount i));
          students = (if cc_wizardCompleted c \<and> cc_onboardingCount c \<noteq> None then declared
            else if 0 < cc_activeStudents c then cc_activeStudents c else declared)
      in if \<not> truthy (iv_stripePriceId i) then CR_UNSTABLE
         else CR_RESOLVED ''CUSTOM'' None students (iv_stripePriceId i))"

definition counted_checkout :: "checkout_context \<Rightarrow> checkout_resolution" where
  "counted_checkout c =
     (let students = (if cc_invitation c \<noteq> None \<and> cc_wizardCompleted c \<and> cc_onboardingCount c \<noteq> None
            then count_or_zero (declared_count c)
            else if 0 < cc_activeStudents c then cc_activeStudents c else count_or_zero (declared_count c))
      in case resolveSchoolCommercialTarget (num_int students) of
           Some (SELF_SERVICE b) \<Rightarrow> CR_RESOLVED (bd_code b) None students None
         | _ \<Rightarrow> CR_SPECIALIST COUNT_ABOVE_SELF_SERVICE (Some students))"

definition current_band :: "checkout_context \<Rightarrow> string option" where
  "current_band c = (if isSchoolPriceBandCode (cc_billingPlanCode c) then cc_billingPlanCode c else None)"

definition banded_checkout :: "checkout_context \<Rightarrow> checkout_resolution" where
  "banded_checkout c =
     (let current = current_band c;
          canceled = cc_billingStatus c = Some ''CANCELED'' \<and> cc_billingAccessStatus c = Some ''CANCELED''
      in if resolveStableSchoolPriceBand current (cc_snapshots c) = Some ''SPECIALIST''
         then CR_SPECIALIST CONFIRMED_SPECIALIST None
         else if truthy (cc_billingPlanCode c) \<and> \<not> isPublicPlatformPlanCode (cc_billingPlanCode c) \<and> \<not> canceled then CR_UNSTABLE
         else (case current of Some code \<Rightarrow> CR_RESOLVED code current (cc_activeStudents c) None
           | None \<Rightarrow> counted_checkout c))"

definition resolvePlatformBillingCheckoutPlan :: "checkout_context \<Rightarrow> checkout_resolution" where
  "resolvePlatformBillingCheckoutPlan c = (case cc_invitation c of
       Some i \<Rightarrow> if iv_conditionType i = ''CUSTOM'' then invited_checkout c i else banded_checkout c
     | None \<Rightarrow> banded_checkout c)"

section \<open>The price of a school\<close>

definition target_cents :: "int \<Rightarrow> int option" where
  "target_cents n = (case resolveSchoolCommercialTarget (num_int n) of
     Some (SELF_SERVICE b) \<Rightarrow> Some (bd_amountCents b) | _ \<Rightarrow> None)"

lemma bands_simps: "SCHOOL_PRICE_BANDS = [
     \<lparr>bd_code = ''BAND_001_025'', bd_minStudents = 1, bd_maxStudents = 25, bd_amountCents = 16900\<rparr>,
     \<lparr>bd_code = ''BAND_026_050'', bd_minStudents = 26, bd_maxStudents = 50, bd_amountCents = 22900\<rparr>,
     \<lparr>bd_code = ''BAND_051_100'', bd_minStudents = 51, bd_maxStudents = 100, bd_amountCents = 28900\<rparr>,
     \<lparr>bd_code = ''BAND_101_150'', bd_minStudents = 101, bd_maxStudents = 150, bd_amountCents = 34900\<rparr>,
     \<lparr>bd_code = ''BAND_151_200'', bd_minStudents = 151, bd_maxStudents = 200, bd_amountCents = 41900\<rparr>,
     \<lparr>bd_code = ''BAND_201_300'', bd_minStudents = 201, bd_maxStudents = 300, bd_amountCents = 47900\<rparr>,
     \<lparr>bd_code = ''BAND_301_400'', bd_minStudents = 301, bd_maxStudents = 400, bd_amountCents = 55900\<rparr>,
     \<lparr>bd_code = ''BAND_401_500'', bd_minStudents = 401, bd_maxStudents = 500, bd_amountCents = 64900\<rparr>]"
  by (simp add: SCHOOL_PRICE_BANDS_def price_row_def)

lemma target_cents_eq:
  assumes "0 \<le> n" "n \<le> 500"
  shows "target_cents n = Some (if n \<le> 25 then 16900 else if n \<le> 50 then 22900 else if n \<le> 100 then 28900
    else if n \<le> 150 then 34900 else if n \<le> 200 then 41900 else if n \<le> 300 then 47900 else if n \<le> 400 then 55900 else 64900)"
proof -
  have "num_safe_integer (num_int n)" using assms by (simp add: num_safe_integer_iff)
  then show ?thesis
    using assms by (simp add: target_cents_def resolveSchoolCommercialTarget_def bands_simps)
qed

text \<open>The price of a school never falls as it grows: every number of students up to 500 has the one band that holds
  it (none counts as one), larger schools pay at least as much, and beyond 500 a specialist decides.\<close>

theorem school_price_monotone:
  assumes "0 \<le> n" "n \<le> m" "m \<le> 500"
  shows "\<exists>b c. resolveSchoolCommercialTarget (num_int n) = Some (SELF_SERVICE b) \<and>
      resolveSchoolCommercialTarget (num_int m) = Some (SELF_SERVICE c) \<and>
      filter (\<lambda>x. bd_minStudents x \<le> max n 1 \<and> max n 1 \<le> bd_maxStudents x) SCHOOL_PRICE_BANDS = [b] \<and>
      bd_amountCents b \<le> bd_amountCents c"
    and "500 < k \<Longrightarrow> k < 2 ^ 53 \<Longrightarrow> resolveSchoolCommercialTarget (num_int k) = Some SPECIALIST"
proof -
  have safe: "num_safe_integer (num_int k)" if "0 \<le> k" "k < 2 ^ 53" for k
    using that unfolding num_safe_integer_iff by (intro exI [of _ k]) simp
  have band: "\<exists>b. resolveSchoolCommercialTarget (num_int k) = Some (SELF_SERVICE b) \<and> target_cents k = Some (bd_amountCents b) \<and>
      filter (\<lambda>x. bd_minStudents x \<le> max k 1 \<and> max k 1 \<le> bd_maxStudents x) SCHOOL_PRICE_BANDS = [b]" if "0 \<le> k" "k \<le> 500" for k
    using that safe [of k] by (cases "k = 0") (auto simp: target_cents_def resolveSchoolCommercialTarget_def bands_simps)
  obtain b c where "resolveSchoolCommercialTarget (num_int n) = Some (SELF_SERVICE b)" "target_cents n = Some (bd_amountCents b)"
    "filter (\<lambda>x. bd_minStudents x \<le> max n 1 \<and> max n 1 \<le> bd_maxStudents x) SCHOOL_PRICE_BANDS = [b]"
    "resolveSchoolCommercialTarget (num_int m) = Some (SELF_SERVICE c)" "target_cents m = Some (bd_amountCents c)"
    using band [of n] band [of m] assms by auto
  moreover from this have "bd_amountCents b \<le> bd_amountCents c"
    using assms target_cents_eq [of n] target_cents_eq [of m] by (auto split: if_splits)
  ultimately show "\<exists>b c. resolveSchoolCommercialTarget (num_int n) = Some (SELF_SERVICE b) \<and>
      resolveSchoolCommercialTarget (num_int m) = Some (SELF_SERVICE c) \<and>
      filter (\<lambda>x. bd_minStudents x \<le> max n 1 \<and> max n 1 \<le> bd_maxStudents x) SCHOOL_PRICE_BANDS = [b] \<and>
      bd_amountCents b \<le> bd_amountCents c" by blast
  show "resolveSchoolCommercialTarget (num_int k) = Some SPECIALIST" if "500 < k" "k < 2 ^ 53"
    using that safe [of k] by (auto simp: resolveSchoolCommercialTarget_def)
qed

theorem school_price_monotone_witness:
  "\<exists>b c. resolveSchoolCommercialTarget (num_int 40) = Some (SELF_SERVICE b) \<and>
      resolveSchoolCommercialTarget (num_int 120) = Some (SELF_SERVICE c) \<and> bd_amountCents b \<le> bd_amountCents c"
  using school_price_monotone(1) [of 40 120] by auto

section \<open>Three consecutive closes\<close>

definition month_index :: "int \<Rightarrow> int" where
  "month_index t = 12 * utc_year t + utc_month t"

lemma utc_month_range: "0 \<le> utc_month t \<and> utc_month t \<le> 11"
  using month_of_yday_range by (auto simp: utc_month_def Let_def)

lemma month_has_a_day: "0 \<le> m \<Longrightarrow> m \<le> 11 \<Longrightarrow> 1 \<le> days_in_month y m"
proof -
  assume m: "0 \<le> m" "m \<le> 11"
  have "m = 0 \<or> m = 1 \<or> m = 2 \<or> m = 3 \<or> m = 4 \<or> m = 5 \<or> m = 6 \<or> m = 7 \<or> m = 8 \<or> m = 9 \<or> m = 10 \<or> m = 11"
    using m by presburger
  then show ?thesis by (auto simp: days_in_month_def days_before_month_def leap_day_def)
qed

lemma previous_month:
  assumes "full_year newer"
  shows "isPreviousUtcMonth newer older \<longleftrightarrow> month_index newer = month_index older + 1"
proof -
  let ?y = "utc_year newer" and ?m = "utc_month newer"
  let ?y' = "if ?m = 0 then ?y - 1 else ?y" and ?m' = "if ?m = 0 then 11 else ?m - 1"
  have m: "0 \<le> ?m" "?m \<le> 11" using utc_month_range by auto
  have "?m - 1 = - 1 \<or> 0 \<le> ?m - 1" using m by linarith
  then have "make_day ?y (?m - 1) 1 = make_day ?y' ?m' 1"
    using m by (auto simp: make_day_def Let_def)
  then have e: "date_utc ?y (?m - 1) 1 = make_day ?y' ?m' 1 * ms_per_day"
    using assms by (simp only: full_year_def date_utc_def if_False)
  have m': "0 \<le> ?m'" "?m' \<le> 11" using m by auto
  note fields = utc_fields_make_day [OF m' order_refl month_has_a_day [OF m'] day_of_date_utc]
  from fields(1,2) have "utc_year (make_day ?y' ?m' 1 * ms_per_day) = ?y'" "utc_month (make_day ?y' ?m' 1 * ms_per_day) = ?m'" .
  then have "isPreviousUtcMonth newer older \<longleftrightarrow> ?y' = utc_year older \<and> ?m' = utc_month older"
    by (simp only: isPreviousUtcMonth_def Let_def e)
  also have "\<dots> \<longleftrightarrow> month_index newer = month_index older + 1"
    using m utc_month_range [of older] unfolding month_index_def by (auto; presburger)
  finally show ?thesis .
qed

text \<open>The three latest closes, from the newest.\<close>

definition latest_closes :: "snapshot list \<Rightarrow> snapshot list" where
  "latest_closes snapshots = take 3 (sort_key (\<lambda>s. - sn_periodStart s) snapshots)"

lemma latest_closes_spec:
  assumes "latest_closes snapshots = [a, b, c]"
  shows "{a, b, c} \<subseteq> set snapshots" "sn_periodStart b \<le> sn_periodStart a" "sn_periodStart c \<le> sn_periodStart b"
    and "mset snapshots = {#a, b, c#} + r \<Longrightarrow> s \<in># r \<Longrightarrow> sn_periodStart s \<le> sn_periodStart c"
proof -
  let ?xs = "sort_key (\<lambda>s. - sn_periodStart s) snapshots"
  have "take 3 ?xs @ drop 3 ?xs = a # b # c # drop 3 ?xs" using assms by (simp only: latest_closes_def append.simps)
  then obtain rest where xs: "?xs = a # b # c # rest" unfolding append_take_drop_id by blast
  have sorted: "sorted (map (\<lambda>s. - sn_periodStart s) (a # b # c # rest))" unfolding xs [symmetric] by simp
  show "{a, b, c} \<subseteq> set snapshots" using arg_cong [OF xs, of set] by auto
  show "sn_periodStart b \<le> sn_periodStart a" "sn_periodStart c \<le> sn_periodStart b" using sorted by auto
  show "sn_periodStart s \<le> sn_periodStart c" if "mset snapshots = {#a, b, c#} + r" "s \<in># r"
  proof -
    have "mset snapshots = mset (a # b # c # rest)" unfolding xs [symmetric] by simp
    then have "r = mset rest" using that(1) by simp
    then show ?thesis using sorted that(2) by auto
  qed
qed

lemma price_change_needs_three_closes_facts:
  assumes years: "\<forall>s \<in> set snapshots. full_year (sn_periodStart s)"
  shows "resolveStableSchoolPriceBand current snapshots = Some code \<longleftrightarrow>
      (\<exists>a b c. latest_closes snapshots = [a, b, c] \<and> sn_candidate a = Some code \<and> sn_candidate b = Some code \<and>
        sn_candidate c = Some code \<and> current \<noteq> Some code \<and>
        month_index (sn_periodStart a) = month_index (sn_periodStart b) + 1 \<and>
        month_index (sn_periodStart b) = month_index (sn_periodStart c) + 1)"
    and "cc_invitation ctx = None \<Longrightarrow> cc_billingPlanCode ctx = Some band \<Longrightarrow> band \<in> set band_codes \<Longrightarrow>
      resolvePlatformBillingCheckoutPlan ctx =
        (if resolveStableSchoolPriceBand (Some band) (cc_snapshots ctx) = Some ''SPECIALIST'' then CR_SPECIALIST CONFIRMED_SPECIALIST None
         else CR_RESOLVED band (Some band) (cc_activeStudents ctx) None)"
proof -
  let ?take = "take 3 (sort_key (\<lambda>s. - sn_periodStart s) snapshots)"
  show "resolveStableSchoolPriceBand current snapshots = Some code \<longleftrightarrow>
      (\<exists>a b c. latest_closes snapshots = [a, b, c] \<and> sn_candidate a = Some code \<and> sn_candidate b = Some code \<and>
        sn_candidate c = Some code \<and> current \<noteq> Some code \<and>
        month_index (sn_periodStart a) = month_index (sn_periodStart b) + 1 \<and>
        month_index (sn_periodStart b) = month_index (sn_periodStart c) + 1)"
  proof (cases "\<exists>a b c. ?take = [a, b, c]")
    case True
    then obtain a b c where t: "?take = [a, b, c]" by blast
    then have "{a, b, c} \<subseteq> set snapshots" using latest_closes_spec(1) by (simp add: latest_closes_def)
    then have "full_year (sn_periodStart a)" "full_year (sn_periodStart b)" using years by auto
    then show ?thesis by (auto simp: resolveStableSchoolPriceBand_def latest_closes_def t previous_month)
  next
    case False
    then have "resolveStableSchoolPriceBand current snapshots = None"
      by (auto simp: resolveStableSchoolPriceBand_def split: list.splits)
    then show ?thesis using False by (auto simp: latest_closes_def)
  qed
next
  assume ctx: "cc_invitation ctx = None" "cc_billingPlanCode ctx = Some band" "band \<in> set band_codes"
  then have "isSchoolPriceBandCode (Some band)" "isPublicPlatformPlanCode (Some band)"
    by (auto simp: isSchoolPriceBandCode_def SCHOOL_PRICE_BAND_RANKS_def isPublicPlatformPlanCode_def key_in_def NEW_PLANS_def
        band_codes_def image_image)
  then show "resolvePlatformBillingCheckoutPlan ctx =
        (if resolveStableSchoolPriceBand (Some band) (cc_snapshots ctx) = Some ''SPECIALIST'' then CR_SPECIALIST CONFIRMED_SPECIALIST None
         else CR_RESOLVED band (Some band) (cc_activeStudents ctx) None)"
    using ctx by (simp add: resolvePlatformBillingCheckoutPlan_def banded_checkout_def current_band_def)
qed

text \<open>C22. The price of a school changes only when three consecutive monthly closes agree: a band is taken over exactly
  when the three latest closes fall in three consecutive months and all computed that band, and it is not the
  current one; and at checkout a school with a confirmed band and no custom condition keeps it, whatever its number
  of students, unless those closes call for a specialist.\<close>

theorem price_change_needs_three_closes:
  assumes years: "\<forall>s \<in> set snapshots. full_year (sn_periodStart s)"
  shows "(resolveStableSchoolPriceBand current snapshots = Some code \<longleftrightarrow>
      (\<exists>a b c. latest_closes snapshots = [a, b, c] \<and> sn_candidate a = Some code \<and> sn_candidate b = Some code \<and>
        sn_candidate c = Some code \<and> current \<noteq> Some code \<and>
        month_index (sn_periodStart a) = month_index (sn_periodStart b) + 1 \<and>
        month_index (sn_periodStart b) = month_index (sn_periodStart c) + 1)) \<and>
    (cc_invitation ctx = None \<and> cc_billingPlanCode ctx = Some band \<and> band \<in> set band_codes \<longrightarrow>
      resolvePlatformBillingCheckoutPlan ctx =
        (if resolveStableSchoolPriceBand (Some band) (cc_snapshots ctx) = Some ''SPECIALIST'' then CR_SPECIALIST CONFIRMED_SPECIALIST None
         else CR_RESOLVED band (Some band) (cc_activeStudents ctx) None))"
  using price_change_needs_three_closes_facts [OF years] by blast

definition demo_closes :: "snapshot list" where
  "demo_closes = map (\<lambda>m. \<lparr>sn_periodStart = date_utc 2026 m 1, sn_candidate = Some ''BAND_051_100''\<rparr>) [4, 6, 5]"

theorem price_change_needs_three_closes_witness:
  "resolveStableSchoolPriceBand (Some ''BAND_026_050'') demo_closes = Some ''BAND_051_100'' \<and>
     (\<exists>a b c. latest_closes demo_closes = [a, b, c] \<and> sn_candidate c = Some ''BAND_051_100'')"
proof -
  have years: "\<forall>s \<in> set demo_closes. full_year (sn_periodStart s)" by code_simp
  have "resolveStableSchoolPriceBand (Some ''BAND_026_050'') demo_closes = Some ''BAND_051_100''" by code_simp
  then show ?thesis using price_change_needs_three_closes [OF years] by blast
qed

section \<open>Plans and provider prices\<close>

lemma price_table_facts:
  "distinct (map fst (PRICE_ENV_BY_PLAN @ LEGACY_PRICE_ENV_BY_PLAN))"
  "list_all (\<lambda>c. isPublicPlatformPlanCode (Some c)) (map fst PRICE_ENV_BY_PLAN)"
  "list_all (\<lambda>c. \<not> isPublicPlatformPlanCode (Some c) \<and> isPlatformPlanCode (Some c) \<and> key_in c LEGACY_PRICE_ENV_BY_PLAN)
     (map fst LEGACY_PRICE_ENV_BY_PLAN)"
  by code_simp+

lemma price_env_name:
  assumes "(c, e) \<in> set (PRICE_ENV_BY_PLAN @ LEGACY_PRICE_ENV_BY_PLAN)"
  shows "isPublicPlatformPlanCode (Some c) \<or> isPlatformPlanCode (Some c) \<and> key_in c LEGACY_PRICE_ENV_BY_PLAN"
    and "map_of (if isPublicPlatformPlanCode (Some c) then PRICE_ENV_BY_PLAN else LEGACY_PRICE_ENV_BY_PLAN) c = Some e"
proof -
  have d: "distinct (map fst PRICE_ENV_BY_PLAN)" "distinct (map fst LEGACY_PRICE_ENV_BY_PLAN)"
    using price_table_facts(1) by (simp_all only: map_append distinct_append)
  consider "(c, e) \<in> set PRICE_ENV_BY_PLAN" | "(c, e) \<in> set LEGACY_PRICE_ENV_BY_PLAN" using assms by auto
  then have "(isPublicPlatformPlanCode (Some c) \<or> isPlatformPlanCode (Some c) \<and> key_in c LEGACY_PRICE_ENV_BY_PLAN) \<and>
    map_of (if isPublicPlatformPlanCode (Some c) then PRICE_ENV_BY_PLAN else LEGACY_PRICE_ENV_BY_PLAN) c = Some e"
  proof cases
    case 1
    then have "isPublicPlatformPlanCode (Some c)" using price_table_facts(2) by (auto simp: list_all_iff)
    then show ?thesis using map_of_is_SomeI [OF d(1) 1] by simp
  next
    case 2
    then have "\<not> isPublicPlatformPlanCode (Some c) \<and> isPlatformPlanCode (Some c) \<and> key_in c LEGACY_PRICE_ENV_BY_PLAN"
      using price_table_facts(3) by (auto simp: list_all_iff)
    then show ?thesis using map_of_is_SomeI [OF d(2) 2] by simp
  qed
  then show "isPublicPlatformPlanCode (Some c) \<or> isPlatformPlanCode (Some c) \<and> key_in c LEGACY_PRICE_ENV_BY_PLAN"
    "map_of (if isPublicPlatformPlanCode (Some c) then PRICE_ENV_BY_PLAN else LEGACY_PRICE_ENV_BY_PLAN) c = Some e" by blast+
qed

lemma resolveStripePriceId_Inr:
  assumes "resolveStripePriceId (Some c) source = Inr p"
  shows "isStripePriceId (Some p)" "\<exists>e. (c, e) \<in> set (PRICE_ENV_BY_PLAN @ LEGACY_PRICE_ENV_BY_PLAN) \<and> source e = Some p"
proof -
  let ?table = "if isPublicPlatformPlanCode (Some c) then PRICE_ENV_BY_PLAN else LEGACY_PRICE_ENV_BY_PLAN"
  let ?id = "Option.bind (map_of ?table c) source"
  have r: "truthy ?id" "isStripePriceId ?id" "the ?id = p"
    using assms unfolding resolveStripePriceId_def Let_def option.sel by (simp_all split: if_split_asm)
  then have id: "?id = Some p" by (cases ?id) (simp_all add: truthy_def)
  show "isStripePriceId (Some p)" using r(2) unfolding id .
  obtain e where e: "map_of ?table c = Some e" "source e = Some p" using id unfolding bind_eq_Some_conv by blast
  have "(c, e) \<in> set (PRICE_ENV_BY_PLAN @ LEGACY_PRICE_ENV_BY_PLAN)"
    using map_of_SomeD [OF e(1)] by (simp split: if_split_asm)
  then show "\<exists>e. (c, e) \<in> set (PRICE_ENV_BY_PLAN @ LEGACY_PRICE_ENV_BY_PLAN) \<and> source e = Some p" using e(2) by blast
qed

lemma price_mapping_roundtrip_facts:
  "resolvePlanCodeFromStripePriceId p source = Inr (c, live) \<Longrightarrow> resolveStripePriceId (Some c) source = Inr p"
  "resolveStripePriceId (Some c) source = Inr p \<Longrightarrow> parseStripeEnvironment (source ''STRIPE_ENVIRONMENT'') = Inr live \<Longrightarrow>
    (\<forall>(c', e) \<in> set (PRICE_ENV_BY_PLAN @ LEGACY_PRICE_ENV_BY_PLAN). source e = Some p \<longrightarrow> c' = c) \<Longrightarrow>
    resolvePlanCodeFromStripePriceId p source = Inr (c, live)"
proof -
  let ?table = "PRICE_ENV_BY_PLAN @ LEGACY_PRICE_ENV_BY_PLAN"
  let ?find = "find (\<lambda>(code, env). source env = Some p) ?table"
  show "resolveStripePriceId (Some c) source = Inr p" if res: "resolvePlanCodeFromStripePriceId p source = Inr (c, live)"
  proof -
    have p: "isStripePriceId (Some p)" and "\<exists>e. ?find = Some (c, e)"
      using res by (auto simp: resolvePlanCodeFromStripePriceId_def split: if_splits sum.splits option.splits)
    then obtain e where "(c, e) \<in> set ?table" "source e = Some p" using find_SomeD by fastforce
    note e = price_env_name [OF this(1)] this(2)
    have "p \<noteq> []" using p by (auto simp: isStripePriceId_def)
    then show ?thesis using p e by (auto simp: resolveStripePriceId_def Let_def truthy_def)
  qed
  show "resolvePlanCodeFromStripePriceId p source = Inr (c, live)"
    if price: "resolveStripePriceId (Some c) source = Inr p" and env: "parseStripeEnvironment (source ''STRIPE_ENVIRONMENT'') = Inr live"
      and one: "\<forall>(c', e) \<in> set ?table. source e = Some p \<longrightarrow> c' = c"
  proof -
    obtain e where "(c, e) \<in> set ?table" "source e = Some p" using resolveStripePriceId_Inr(2) [OF price] by blast
    then have "?find \<noteq> None" unfolding find_None_iff by blast
    then obtain c' e' where f: "?find = Some (c', e')" by auto
    then have "(c', e') \<in> set ?table \<and> source e' = Some p" using find_SomeD by fastforce
    then have "c' = c" using one by blast
    then show ?thesis using f env resolveStripePriceId_Inr(1) [OF price] by (simp add: resolvePlanCodeFromStripePriceId_def)
  qed
qed

text \<open>C23. Plans and provider prices map to each other: the plan found for a price has that price, and the price of a
  plan leads back to the plan where no two plans share a price and the environment is configured.\<close>

theorem price_mapping_roundtrip:
  "(resolvePlanCodeFromStripePriceId p source = Inr (c, live) \<longrightarrow> resolveStripePriceId (Some c) source = Inr p) \<and>
   (resolveStripePriceId (Some c) source = Inr p \<and> parseStripeEnvironment (source ''STRIPE_ENVIRONMENT'') = Inr live \<and>
    (\<forall>(c', e) \<in> set (PRICE_ENV_BY_PLAN @ LEGACY_PRICE_ENV_BY_PLAN). source e = Some p \<longrightarrow> c' = c) \<longrightarrow>
    resolvePlanCodeFromStripePriceId p source = Inr (c, live))"
  using price_mapping_roundtrip_facts by blast

definition demo_env :: "string \<Rightarrow> string option" where
  "demo_env = map_of [(''STRIPE_ENVIRONMENT'', '' live ''), (''STRIPE_PRICE_BAND_026_050_MONTHLY'', ''price_26''),
     (''STRIPE_PRICE_PRO_MONTHLY'', ''price_pro'')]"

theorem price_mapping_roundtrip_witness:
  "resolvePlanCodeFromStripePriceId ''price_pro'' demo_env = Inr (''PRO'', True) \<and>
   resolveStripePriceId (Some ''PRO'') demo_env = Inr ''price_pro''"
proof -
  have "resolvePlanCodeFromStripePriceId ''price_pro'' demo_env = Inr (''PRO'', True)"
  proof (rule price_mapping_roundtrip [THEN conjunct2, THEN mp], intro conjI)
    show "resolveStripePriceId (Some ''PRO'') demo_env = Inr ''price_pro''" by code_simp
    show "parseStripeEnvironment (demo_env ''STRIPE_ENVIRONMENT'') = Inr True" by code_simp
    show "\<forall>(c', e) \<in> set (PRICE_ENV_BY_PLAN @ LEGACY_PRICE_ENV_BY_PLAN). demo_env e = Some ''price_pro'' \<longrightarrow> c' = ''PRO''"
      by code_simp
  qed
  then show ?thesis using price_mapping_roundtrip [of "''price_pro''" demo_env "''PRO''" True] by blast
qed

section \<open>The amount of a custom invitation\<close>

lemma num_unsafe_add_left: "num_unsafe y \<Longrightarrow> 0 \<le> x \<Longrightarrow> num_unsafe (num_add (num_int x) y)"
  using num_unsafe_add [of y x] by (cases y) (simp_all add: add.commute)

lemma num_int_product:
  assumes "0 \<le> d" "0 \<le> k"
  shows "if d * k \<le> 2 ^ 53 then num_mul (num_int d) (num_int k) = num_int (d * k) else num_unsafe (num_mul (num_int d) (num_int k))"
proof (cases "d * k \<le> 2 ^ 53")
  case True
  then show ?thesis using assms by (simp only: if_True) (intro num_mul_int, simp)
next
  case False
  then have "(of_int (2 ^ 53) :: rat) \<le> of_int (d * k)" by (simp only: of_int_le_iff)
  then have "num_unsafe (of_exact (of_int (d * k)))" by (intro of_exact_unsafe) simp
  then show ?thesis using False by simp
qed

lemma num_int_sum:
  assumes "0 \<le> x" "0 \<le> y"
  shows "if x + y \<le> 2 ^ 53 then num_add (num_int x) (num_int y) = num_int (x + y) else num_unsafe (num_add (num_int x) (num_int y))"
proof (cases "x + y \<le> 2 ^ 53")
  case True
  then show ?thesis using assms by (simp only: if_True) (intro num_add_int, simp)
next
  case False
  then have "(of_int (2 ^ 53) :: rat) \<le> of_int (x + y)" by (simp only: of_int_le_iff)
  then have "num_unsafe (of_exact (of_int (x + y)))" by (intro of_exact_unsafe) simp
  then show ?thesis using False by simp
qed

text \<open>A sum \<open>x + d k\<close> computed in floats is the exact integer up to \<open>2^53\<close> and no safe integer beyond.\<close>

lemma safe_sum:
  assumes "0 \<le> d" "0 \<le> k" "1 \<le> x"
  shows "num_safe_integer (num_add (num_int x) (num_mul (num_int d) (num_int k))) \<longleftrightarrow> x + d * k \<le> 2 ^ 53 - 1"
    and "x + d * k \<le> 2 ^ 53 - 1 \<Longrightarrow> num_add (num_int x) (num_mul (num_int d) (num_int k)) = num_int (x + d * k)"
proof -
  let ?sum = "num_add (num_int x) (num_mul (num_int d) (num_int k))"
  have nn: "0 \<le> d * k" "0 \<le> x" using assms by simp_all
  have "if x + d * k \<le> 2 ^ 53 then ?sum = num_int (x + d * k) else num_unsafe ?sum"
  proof (cases "d * k \<le> 2 ^ 53")
    case True
    then have "num_mul (num_int d) (num_int k) = num_int (d * k)" using num_int_product [OF assms(1,2)] by (simp only: if_True)
    then show ?thesis using num_int_sum [OF nn(2,1)] by (simp only:)
  next
    case False
    then have "num_unsafe (num_mul (num_int d) (num_int k))" using num_int_product [OF assms(1,2)] by (simp only: if_False)
    then have "num_unsafe ?sum" using nn(2) by (intro num_unsafe_add_left)
    moreover have "\<not> x + d * k \<le> 2 ^ 53" using False nn by linarith
    ultimately show ?thesis by (simp only: if_False)
  qed
  note sum = this
  show "?sum = num_int (x + d * k)" if "x + d * k \<le> 2 ^ 53 - 1"
  proof -
    have "x + d * k \<le> 2 ^ 53" using that by linarith
    then show ?thesis using sum by (simp only: if_True)
  qed
  show "num_safe_integer ?sum \<longleftrightarrow> x + d * k \<le> 2 ^ 53 - 1"
  proof (cases "x + d * k \<le> 2 ^ 53")
    case True
    then have "?sum = num_int (x + d * k)" using sum by (simp only: if_True)
    moreover have "\<bar>x + d * k\<bar> = x + d * k" using nn by linarith
    ultimately show ?thesis using num_safe_integer_iff [of "num_int (x + d * k)"] by (auto simp only: of_int_eq_iff jsnum.inject)
  next
    case False
    then have "num_unsafe ?sum" using sum by (simp only: if_False)
    then have "\<not> num_safe_integer ?sum" by (rule num_unsafe_not_safe)
    then show ?thesis using False by linarith
  qed
qed

definition invitation_cents :: "int \<Rightarrow> int \<Rightarrow> int \<Rightarrow> int \<Rightarrow> int" where
  "invitation_cents base included overage students = base + max 0 (students - included) * overage"

text \<open>C24. The monthly amount of a custom invitation is the exact integer - the base and the overage of every student
  beyond those included - whenever that is a safe integer, and is refused otherwise, as are inputs out of range.\<close>

theorem custom_amount_exact:
  assumes "list_all (\<lambda>n. \<bar>n\<bar> \<le> 2 ^ 53 - 1) [base, included, overage, students]"
  shows "calculateCustomInvitationMonthlyAmountCents (num_int base) (num_int included) (num_int overage) (num_int students) =
    (if 1 \<le> base \<and> 1 \<le> included \<and> 0 \<le> overage \<and> 1 \<le> students \<and> invitation_cents base included overage students \<le> 2 ^ 53 - 1
     then Some (num_int (invitation_cents base included overage students)) else None)"
proof (cases "1 \<le> base \<and> 1 \<le> included \<and> 0 \<le> overage \<and> 1 \<le> students")
  case True
  define d where "d = max 0 (students - included)"
  define total where "total = base + d * overage"
  have pos: "0 \<le> d" "0 \<le> overage" "1 \<le> base" using True by (simp_all add: d_def)
  have one: "1 \<le> total" using pos mult_nonneg_nonneg [OF pos(1,2)] unfolding total_def by linarith
  have more: "num_max (Fin 0) (num_sub (num_int students) (num_int included)) = num_int d"
    using assms True by (simp add: num_max_def max_def d_def)
  have safe: "list_all num_safe_integer [num_int base, num_int included, num_int overage, num_int students]"
    using assms num_safe_integer_iff by auto
  have "calculateCustomInvitationMonthlyAmountCents (num_int base) (num_int included) (num_int overage) (num_int students) =
     (let amount = num_add (num_int base) (num_mul (num_int d) (num_int overage))
      in if num_safe_integer amount \<and> num_less (Fin 0) amount then Some amount else None)"
    using safe True by (simp add: calculateCustomInvitationMonthlyAmountCents_def Let_def more del: num_add.simps num_mul.simps)
  also have "\<dots> = (if total \<le> 2 ^ 53 - 1 then Some (num_int total) else None)"
  proof (cases "total \<le> 2 ^ 53 - 1")
    case True
    then have "num_add (num_int base) (num_mul (num_int d) (num_int overage)) = num_int total" "num_safe_integer (num_int total)"
      using safe_sum [OF pos] unfolding total_def by (simp_all only:)
    then show ?thesis using one True by (simp only: Let_def) simp
  next
    case False
    then show ?thesis using safe_sum(1) [OF pos] unfolding total_def by (simp only: Let_def) simp
  qed
  finally show ?thesis using True by (simp add: invitation_cents_def d_def total_def)
qed (auto simp: calculateCustomInvitationMonthlyAmountCents_def)

theorem custom_amount_exact_witness:
  "calculateCustomInvitationMonthlyAmountCents (num_int 50000) (num_int 100) (num_int 250) (num_int 130) = Some (num_int 57500)"
  using custom_amount_exact [of 50000 100 250 130] by (simp add: invitation_cents_def)

end
