(* ===== verification/PlatformInbox.thy ===== *)
theory PlatformInbox
  imports Prelude DecimalMoney JSString
begin

text \<open>
  The inbox of the provider's webhooks: the retry policy (\<^verbatim>\<open>packages/platform-billing/src/webhook-retry.ts\<close>), the
  operations of the store on the events (\<^verbatim>\<open>prisma-store.ts\<close>) and the worker that claims, processes, retries and replays
  them and the notifications that follow (\<^verbatim>\<open>apps/web/src/server/platform-billing/webhook-worker.ts\<close>). An event is
  processed at least once: a claim counts an attempt and takes a lease, the lease can run out, and only its holder may
  settle the event. A date is its milliseconds. The payload of an event is a parameter, and of an error its code is
  kept; the time stamps that nothing reads back are left out. The database session is taken to be in UTC, so that its
  local time stamps are those of the application.
\<close>

section \<open>webhook-retry.ts\<close>

record retry_policy =
  rp_maxAttempts :: int
  rp_baseDelayMs :: int
  rp_maxDelayMs :: int
  rp_jitterRatio :: jsnum

text \<open>\<open>0.2\<close> is the double nearest to it.\<close>

definition DEFAULT_RETRY_POLICY :: retry_policy where
  "DEFAULT_RETRY_POLICY = \<lparr>rp_maxAttempts = 10, rp_baseDelayMs = 30000, rp_maxDelayMs = 30 * 60000,
     rp_jitterRatio = of_exact (1 / 5)\<rparr>"

datatype failure_kind = TEMPORARY | PERMANENT

definition classifyPlatformBillingWebhookError :: "string option \<Rightarrow> failure_kind" where
  "classifyPlatformBillingWebhookError code =
     (if truthy code \<and> the code \<in> {''PLATFORM_PRICE_UNKNOWN'', ''PLATFORM_PRICE_INVALID'', ''PLATFORM_BILLING_WEBHOOK_INVALID''}
      then PERMANENT else TEMPORARY)"

text \<open>\<^verbatim>\<open>2 ** n\<close> is exact up to the largest double.\<close>

definition num_power2 :: "int \<Rightarrow> jsnum" where
  "num_power2 n = (if n < 1024 then num_int (2 ^ nat n) else PosInf)"

definition base_delay :: "retry_policy \<Rightarrow> int \<Rightarrow> jsnum" where
  "base_delay p attempts = num_min (num_int (rp_maxDelayMs p))
     (num_mul (num_int (rp_baseDelayMs p)) (num_power2 (max 0 (max 1 attempts - 1))))"

text \<open>The delay until the next attempt; \<open>random\<close> is the answer of \<^verbatim>\<open>Math.random\<close>.\<close>

definition retry_delay :: "retry_policy \<Rightarrow> int \<Rightarrow> jsnum \<Rightarrow> jsnum" where
  "retry_delay p attempts random =
     num_round (num_add (base_delay p attempts) (num_mul (num_mul (base_delay p attempts) (rp_jitterRatio p)) random))"

fun whole_ms :: "jsnum \<Rightarrow> int" where
  "whole_ms (Fin x) = \<lfloor>x\<rfloor>"
| "whole_ms _ = 0"

definition computePlatformBillingWebhookNextAttemptAt :: "int \<Rightarrow> int \<Rightarrow> jsnum \<Rightarrow> int" where
  "computePlatformBillingWebhookNextAttemptAt attempts now random =
     now + whole_ms (retry_delay DEFAULT_RETRY_POLICY attempts random)"

definition hasExhaustedPlatformBillingWebhookAttempts :: "int \<Rightarrow> bool" where
  "hasExhaustedPlatformBillingWebhookAttempts attempts \<longleftrightarrow> rp_maxAttempts DEFAULT_RETRY_POLICY \<le> attempts"

section \<open>The events\<close>

datatype inbox_status = IN_PENDING | IN_RECEIVED | IN_PROCESSING | IN_PROCESSED | IN_FAILED | IN_EXHAUSTED | IN_IGNORED

record 'p inbox_row =
  ib_id :: string
  ib_live :: bool
  ib_eventId :: string
  ib_eventType :: string
  ib_contaId :: "string option"
  ib_payload :: 'p
  ib_status :: inbox_status
  ib_attempts :: int
  ib_receivedAt :: int
  ib_nextAttemptAt :: int
  ib_timeoutAt :: "int option"
  ib_workerId :: "string option"
  ib_processedAt :: "int option"
  ib_exhaustedAt :: "int option"
  ib_lastErrorCode :: "string option"

definition same_event :: "bool \<Rightarrow> string \<Rightarrow> 'p inbox_row \<Rightarrow> bool" where
  "same_event live eventId r \<longleftrightarrow> ib_live r = live \<and> ib_eventId r = eventId"

definition new_row :: "string \<Rightarrow> bool \<Rightarrow> string \<Rightarrow> string \<Rightarrow> string option \<Rightarrow> 'p \<Rightarrow> int \<Rightarrow> 'p inbox_row" where
  "new_row i live eventId eventType conta payload now =
     \<lparr>ib_id = i, ib_live = live, ib_eventId = eventId, ib_eventType = eventType, ib_contaId = conta, ib_payload = payload,
      ib_status = IN_PENDING, ib_attempts = 0, ib_receivedAt = now, ib_nextAttemptAt = now, ib_timeoutAt = None,
      ib_workerId = None, ib_processedAt = None, ib_exhaustedAt = None, ib_lastErrorCode = None\<rparr>"

text \<open>A delivery is stored once; the second component says whether it was new.\<close>

definition upsertWebhookEvent ::
    "string \<Rightarrow> bool \<Rightarrow> string \<Rightarrow> string \<Rightarrow> string option \<Rightarrow> 'p \<Rightarrow> int \<Rightarrow> 'p inbox_row list \<Rightarrow> 'p inbox_row list \<times> bool" where
  "upsertWebhookEvent i live eventId eventType conta payload now rows =
     (if list_ex (same_event live eventId) rows then (rows, False)
      else (rows @ [new_row i live eventId eventType conta payload now], True))"

text \<open>The rows an update meets: those under the id, and with a worker given only while the worker holds the lease.\<close>

definition leased :: "string \<Rightarrow> string option \<Rightarrow> 'p inbox_row \<Rightarrow> bool" where
  "leased i worker r \<longleftrightarrow> ib_id r = i \<and> (truthy worker \<longrightarrow> ib_workerId r = worker \<and> ib_status r = IN_PROCESSING)"

definition update_leased ::
    "string \<Rightarrow> string option \<Rightarrow> ('p inbox_row \<Rightarrow> 'p inbox_row) \<Rightarrow> 'p inbox_row list \<Rightarrow> 'p inbox_row list option" where
  "update_leased i worker f rows =
     (if list_ex (leased i worker) rows then Some (map (\<lambda>r. if leased i worker r then f r else r) rows) else None)"

text \<open>An account that is not given stays as it is (an absent value of an update).\<close>

definition keep_conta :: "string option \<Rightarrow> 'p inbox_row \<Rightarrow> string option" where
  "keep_conta conta r = (if conta = None then ib_contaId r else conta)"

definition markWebhookEventProcessed ::
    "string \<Rightarrow> string option \<Rightarrow> string option \<Rightarrow> int \<Rightarrow> 'p inbox_row list \<Rightarrow> 'p inbox_row list option" where
  "markWebhookEventProcessed i conta worker now = update_leased i worker
     (\<lambda>r. r\<lparr>ib_status := IN_PROCESSED, ib_contaId := keep_conta conta r, ib_processedAt := Some now, ib_timeoutAt := None,
        ib_workerId := None, ib_lastErrorCode := None\<rparr>)"

definition markWebhookEventIgnored ::
    "string \<Rightarrow> string option \<Rightarrow> string option \<Rightarrow> int \<Rightarrow> 'p inbox_row list \<Rightarrow> 'p inbox_row list option" where
  "markWebhookEventIgnored i conta worker now = update_leased i worker
     (\<lambda>r. r\<lparr>ib_status := IN_IGNORED, ib_contaId := keep_conta conta r, ib_processedAt := Some now, ib_timeoutAt := None,
        ib_workerId := None\<rparr>)"

definition markWebhookEventFailed ::
    "string \<Rightarrow> string option \<Rightarrow> string option \<Rightarrow> int option \<Rightarrow> bool \<Rightarrow> string option \<Rightarrow> int \<Rightarrow> 'p inbox_row list \<Rightarrow>
      'p inbox_row list option" where
  "markWebhookEventFailed i conta code nextAttemptAt exhausted worker now = update_leased i worker
     (\<lambda>r. r\<lparr>ib_status := (if exhausted then IN_EXHAUSTED else IN_FAILED), ib_contaId := keep_conta conta r,
        ib_timeoutAt := None, ib_workerId := None,
        ib_lastErrorCode := (if code = None then ib_lastErrorCode r else code),
        ib_exhaustedAt := (if exhausted then Some now else None),
        ib_nextAttemptAt := (case nextAttemptAt of Some t \<Rightarrow> if exhausted then ib_nextAttemptAt r else t
          | None \<Rightarrow> ib_nextAttemptAt r)\<rparr>)"

definition markWebhookEventProcessing ::
    "string \<Rightarrow> string option \<Rightarrow> string option \<Rightarrow> int option \<Rightarrow> 'p inbox_row list \<Rightarrow> 'p inbox_row list option" where
  "markWebhookEventProcessing i conta worker timeoutAt = update_leased i None
     (\<lambda>r. r\<lparr>ib_status := IN_PROCESSING, ib_contaId := keep_conta conta r,
        ib_timeoutAt := (if timeoutAt = None then ib_timeoutAt r else timeoutAt),
        ib_workerId := (if worker = None then ib_workerId r else worker), ib_attempts := ib_attempts r + 1\<rparr>)"

section \<open>The worker\<close>

definition PROCESSING_TIMEOUT_MS :: int where
  "PROCESSING_TIMEOUT_MS = 2 * 60000"

text \<open>A drain may be limited to some events.\<close>

definition selected :: "bool \<Rightarrow> string list option \<Rightarrow> 'p inbox_row \<Rightarrow> bool" where
  "selected live eventIds r \<longleftrightarrow> ib_live r = live \<and> (case eventIds of None \<Rightarrow> True | Some ids \<Rightarrow> ib_eventId r \<in> set ids)"

definition timed_out :: "int \<Rightarrow> 'p inbox_row \<Rightarrow> bool" where
  "timed_out now r \<longleftrightarrow> ib_status r = IN_PROCESSING \<and> (case ib_timeoutAt r of None \<Rightarrow> False | Some t \<Rightarrow> t \<le> now)"

definition recover_row :: "int \<Rightarrow> 'p inbox_row \<Rightarrow> 'p inbox_row" where
  "recover_row now r = r\<lparr>ib_status := IN_FAILED, ib_workerId := None, ib_nextAttemptAt := now - 1,
     ib_lastErrorCode := Some ''PROCESSING_TIMEOUT''\<rparr>"

definition recoverTimedOutStripeWebhookEvents ::
    "bool \<Rightarrow> string list option \<Rightarrow> int \<Rightarrow> 'p inbox_row list \<Rightarrow> 'p inbox_row list" where
  "recoverTimedOutStripeWebhookEvents live eventIds now rows =
     map (\<lambda>r. if selected live eventIds r \<and> timed_out now r then recover_row now r else r) rows"

definition claimable :: "int \<Rightarrow> 'p inbox_row \<Rightarrow> bool" where
  "claimable now r \<longleftrightarrow> ib_status r \<in> {IN_PENDING, IN_RECEIVED, IN_FAILED} \<and> ib_nextAttemptAt r \<le> now"

definition claim_row :: "string \<Rightarrow> int \<Rightarrow> 'p inbox_row \<Rightarrow> 'p inbox_row" where
  "claim_row worker now r = r\<lparr>ib_status := IN_PROCESSING, ib_attempts := ib_attempts r + 1,
     ib_timeoutAt := Some (now + PROCESSING_TIMEOUT_MS), ib_workerId := Some worker\<rparr>"

definition claimed_ids :: "bool \<Rightarrow> string list option \<Rightarrow> nat \<Rightarrow> int \<Rightarrow> 'p inbox_row list \<Rightarrow> string list" where
  "claimed_ids live eventIds limit now rows =
     map ib_id (take limit (sort_key ib_receivedAt (filter (\<lambda>r. selected live eventIds r \<and> claimable now r) rows)))"

definition claimStripeWebhookEvents ::
    "bool \<Rightarrow> nat \<Rightarrow> string \<Rightarrow> string list option \<Rightarrow> int \<Rightarrow> 'p inbox_row list \<Rightarrow> 'p inbox_row list \<times> 'p inbox_row list" where
  "claimStripeWebhookEvents live limit worker eventIds now rows =
     (let ids = claimed_ids live eventIds limit now rows;
          rows' = map (\<lambda>r. if ib_id r \<in> set ids then claim_row worker now r else r) rows
      in (rows', filter (\<lambda>r. ib_id r \<in> set ids) rows'))"

definition getStripeWebhookEventPriority :: "string \<Rightarrow> nat" where
  "getStripeWebhookEventPriority eventType =
     (if eventType = ''checkout.session.completed'' then 10
      else if starts_with ''customer.subscription.'' eventType then 20
      else if starts_with ''invoice.'' eventType then 30 else 100)"

text \<open>The events of a batch: subscriptions before invoices, whatever their dates. \<open>collation\<close> is the rank of an event id
  in the order of \<^verbatim>\<open>localeCompare\<close>.\<close>

definition orderStripeWebhookEventsForProcessing ::
    "(string \<Rightarrow> nat) \<Rightarrow> 'p inbox_row list \<Rightarrow> 'p inbox_row list" where
  "orderStripeWebhookEventsForProcessing collation events =
     sort_key (\<lambda>e. getStripeWebhookEventPriority (ib_eventType e)) (sort_key (\<lambda>e. collation (ib_eventId e)) events)"

text \<open>What can be thrown: an error of the package with its code, another error, or any value; the last two may carry a
  text under \<^verbatim>\<open>code\<close>.\<close>

datatype thrown = PLATFORM_ERROR string | OTHER_ERROR "string option" | OTHER_VALUE "string option"

fun readErrorCode :: "thrown \<Rightarrow> string option" where
  "readErrorCode (PLATFORM_ERROR c) = Some c"
| "readErrorCode (OTHER_ERROR c) = c"
| "readErrorCode (OTHER_VALUE c) = c"

fun sanitized_code :: "thrown \<Rightarrow> string" where
  "sanitized_code (PLATFORM_ERROR c) = c"
| "sanitized_code (OTHER_ERROR c) = ''UNEXPECTED_ERROR''"
| "sanitized_code (OTHER_VALUE c) = ''UNKNOWN_ERROR''"

text \<open>What processing an event came to: ignored or done, for an account, or something thrown.\<close>

datatype processing = OUT_IGNORED "string option" | OUT_DONE "string option" | OUT_THROWN thrown

definition gives_up :: "thrown \<Rightarrow> int \<Rightarrow> bool" where
  "gives_up e attempts \<longleftrightarrow> classifyPlatformBillingWebhookError (readErrorCode e) = PERMANENT \<or>
     hasExhaustedPlatformBillingWebhookAttempts attempts"

definition fail_event :: "string \<Rightarrow> 'p inbox_row \<Rightarrow> thrown \<Rightarrow> int \<Rightarrow> jsnum \<Rightarrow> 'p inbox_row list \<Rightarrow> 'p inbox_row list option" where
  "fail_event worker event e now random =
     (let exhausted = gives_up e (ib_attempts event)
      in markWebhookEventFailed (ib_id event) (ib_contaId event) (Some (sanitized_code e))
           (if exhausted then None else Some (computePlatformBillingWebhookNextAttemptAt (ib_attempts event) now random))
           exhausted (Some worker) now)"

text \<open>Settling a claimed event: an ignored one is marked by its handler, a done one by the worker; an error while marking
  (a lost lease) counts as a failure, which needs the lease again. \<open>None\<close> is the exception that ends the drain.\<close>

definition settle_event ::
    "string \<Rightarrow> 'p inbox_row \<Rightarrow> processing \<Rightarrow> int \<Rightarrow> jsnum \<Rightarrow> 'p inbox_row list \<Rightarrow> 'p inbox_row list option" where
  "settle_event worker event result now random rows =
     (let lost = fail_event worker event (OTHER_ERROR None) now random rows
      in case result of
           OUT_IGNORED conta \<Rightarrow> (case markWebhookEventIgnored (ib_id event) conta (Some worker) now rows of
             Some rows' \<Rightarrow> Some rows' | None \<Rightarrow> lost)
         | OUT_DONE conta \<Rightarrow> (case markWebhookEventProcessed (ib_id event) conta (Some worker) now rows of
             Some rows' \<Rightarrow> Some rows' | None \<Rightarrow> lost)
         | OUT_THROWN e \<Rightarrow> fail_event worker event e now random rows)"

definition requested_ids :: "string list \<Rightarrow> string list" where
  "requested_ids ids = take 100 (rev (remdups (rev (filter (\<lambda>s. s \<noteq> []) (map js_trim ids)))))"

definition replayed :: "string list \<Rightarrow> string option \<Rightarrow> bool \<Rightarrow> 'p inbox_row \<Rightarrow> bool" where
  "replayed ids conta live r \<longleftrightarrow> ib_id r \<in> set (requested_ids ids) \<and> (truthy conta \<longrightarrow> ib_contaId r = conta) \<and> ib_live r = live \<and>
     (ib_status r = IN_FAILED \<or> ib_status r = IN_EXHAUSTED)"

text \<open>A replay makes the events pending again; the attempts they made stay counted.\<close>

definition replayStripeWebhookEvents ::
    "string list \<Rightarrow> string option \<Rightarrow> bool \<Rightarrow> int \<Rightarrow> 'p inbox_row list \<Rightarrow> 'p inbox_row list" where
  "replayStripeWebhookEvents ids conta live now rows = map (\<lambda>r. if replayed ids conta live r then
     r\<lparr>ib_status := IN_PENDING, ib_timeoutAt := None, ib_exhaustedAt := None, ib_workerId := None,
       ib_lastErrorCode := None, ib_nextAttemptAt := now\<rparr> else r) rows"

section \<open>Notifications\<close>

datatype outbox_status = OB_PENDING | OB_PROCESSING | OB_FAILED | OB_DELIVERED | OB_EXHAUSTED

record outbox_row =
  ob_id :: string
  ob_live :: bool
  ob_eventId :: string
  ob_eventType :: string
  ob_contaId :: "string option"
  ob_status :: outbox_status
  ob_attempts :: int
  ob_nextAttemptAt :: int
  ob_lockedAt :: "int option"
  ob_workerId :: "string option"
  ob_createdAt :: int
  ob_deliveredAt :: "int option"

definition MAX_NOTIFICATION_DELIVERY_ATTEMPTS :: int where
  "MAX_NOTIFICATION_DELIVERY_ATTEMPTS = 8"

text \<open>The upsert of the worker: one row per event, never changed by a second one.\<close>

definition enqueue_notification ::
    "string \<Rightarrow> bool \<Rightarrow> string \<Rightarrow> string \<Rightarrow> string option \<Rightarrow> int \<Rightarrow> outbox_row list \<Rightarrow> outbox_row list" where
  "enqueue_notification i live eventId eventType conta now rows =
     (if list_ex (\<lambda>r. ob_live r = live \<and> ob_eventId r = eventId) rows then rows
      else rows @ [\<lparr>ob_id = i, ob_live = live, ob_eventId = eventId, ob_eventType = eventType, ob_contaId = conta,
        ob_status = OB_PENDING, ob_attempts = 0, ob_nextAttemptAt = now, ob_lockedAt = None, ob_workerId = None,
        ob_createdAt = now, ob_deliveredAt = None\<rparr>])"

text \<open>A failed payment that the provider reports as paid by now is announced as paid.\<close>

definition resolveCanonicalNotificationEventType :: "string \<Rightarrow> string option \<Rightarrow> bool \<Rightarrow> string" where
  "resolveCanonicalNotificationEventType received status paid =
     (if received = ''invoice.payment_failed'' \<and> (status = Some ''paid'' \<or> paid) then ''invoice.paid'' else received)"

definition notification_due :: "int \<Rightarrow> outbox_row \<Rightarrow> bool" where
  "notification_due now r \<longleftrightarrow> ob_status r = OB_PENDING \<or> ob_status r = OB_FAILED \<and> ob_nextAttemptAt r \<le> now \<or>
     ob_status r = OB_PROCESSING \<and> (case ob_lockedAt r of None \<Rightarrow> False | Some t \<Rightarrow> t < now - 2 * 60000)"

definition notification_selected :: "bool \<Rightarrow> string list option \<Rightarrow> outbox_row \<Rightarrow> bool" where
  "notification_selected live eventIds r \<longleftrightarrow>
     ob_live r = live \<and> (case eventIds of None \<Rightarrow> True | Some ids \<Rightarrow> ob_eventId r \<in> set ids)"

definition claim_notifications ::
    "bool \<Rightarrow> nat \<Rightarrow> string \<Rightarrow> string list option \<Rightarrow> int \<Rightarrow> outbox_row list \<Rightarrow> outbox_row list \<times> outbox_row list" where
  "claim_notifications live limit worker eventIds now rows =
     (let ids = map ob_id (take limit (sort_key ob_createdAt
            (filter (\<lambda>r. notification_selected live eventIds r \<and> notification_due now r) rows)));
          rows' = map (\<lambda>r. if ob_id r \<in> set ids then r\<lparr>ob_status := OB_PROCESSING, ob_workerId := Some worker,
            ob_lockedAt := Some now, ob_attempts := ob_attempts r + 1\<rparr> else r) rows
      in (rows', filter (\<lambda>r. ob_id r \<in> set ids) rows'))"

definition notification_retry_delay :: "int \<Rightarrow> int" where
  "notification_retry_delay attempts = min (60 * 60000) (30000 * 2 ^ nat (min (attempts - 1) 7))"

text \<open>The end of one attempt, which only the worker that holds the notification may record.\<close>

definition settle_notification :: "string \<Rightarrow> outbox_row \<Rightarrow> bool \<Rightarrow> int \<Rightarrow> outbox_row list \<Rightarrow> outbox_row list" where
  "settle_notification worker n delivered now rows = map (\<lambda>r.
     if \<not> (ob_id r = ob_id n \<and> ob_status r = OB_PROCESSING \<and> ob_workerId r = Some worker) then r
     else if delivered then r\<lparr>ob_status := OB_DELIVERED, ob_deliveredAt := Some now, ob_lockedAt := None, ob_workerId := None\<rparr>
     else if MAX_NOTIFICATION_DELIVERY_ATTEMPTS \<le> ob_attempts n then
       r\<lparr>ob_status := OB_EXHAUSTED, ob_lockedAt := None, ob_workerId := None\<rparr>
     else r\<lparr>ob_status := OB_FAILED, ob_nextAttemptAt := now + notification_retry_delay (ob_attempts n), ob_lockedAt := None,
       ob_workerId := None\<rparr>) rows"

definition drain_limit :: "int option \<Rightarrow> nat" where
  "drain_limit limit = nat (max 1 (min (case limit of None \<Rightarrow> 25 | Some n \<Rightarrow> n) 100))"

text \<open>A drain of the notifications; \<open>delivers\<close> says which of them the notification service takes.\<close>

definition drainPlatformBillingNotificationOutbox ::
    "(outbox_row \<Rightarrow> bool) \<Rightarrow> bool \<Rightarrow> int option \<Rightarrow> string \<Rightarrow> string list option \<Rightarrow> int \<Rightarrow> outbox_row list \<Rightarrow> outbox_row list" where
  "drainPlatformBillingNotificationOutbox delivers live limit worker eventIds now rows =
     (let (rows', claimed) = claim_notifications live (drain_limit limit) worker eventIds now rows
      in foldl (\<lambda>rs n. settle_notification worker n (delivers n) now rs) rows' claimed)"

definition replayPlatformBillingNotifications ::
    "string list \<Rightarrow> string \<Rightarrow> bool \<Rightarrow> int \<Rightarrow> outbox_row list \<Rightarrow> outbox_row list" where
  "replayPlatformBillingNotifications ids conta live now rows = map (\<lambda>r.
     if ob_id r \<in> set (requested_ids ids) \<and> ob_contaId r = Some conta \<and> ob_live r = live \<and> ob_status r = OB_EXHAUSTED then
       r\<lparr>ob_status := OB_PENDING, ob_attempts := 0, ob_nextAttemptAt := now, ob_lockedAt := None, ob_workerId := None,
         ob_deliveredAt := None\<rparr> else r) rows"

lemma notification_retry_delay_bounds:
  "1 \<le> attempts \<Longrightarrow> 30000 \<le> notification_retry_delay attempts \<and> notification_retry_delay attempts \<le> 3600000"
  using one_le_power [of "2 :: int" "nat (min (attempts - 1) 7)"] by (simp add: notification_retry_delay_def)

text \<open>Only the holder of the lease settles: the row of a notification another worker took over stays as it is.\<close>

lemma stale_notification_kept:
  "r \<in> set rows \<Longrightarrow> ob_workerId r \<noteq> Some worker \<Longrightarrow> r \<in> set (settle_notification worker n delivered now rows)"
  by (force simp: settle_notification_def)

text \<open>A replay gives a notification all its attempts again, and an event of the inbox only one.\<close>

lemma replays_differ:
  "r \<in> set (replayPlatformBillingNotifications ids conta live now rows) \<Longrightarrow> ob_status r = OB_EXHAUSTED \<or> ob_attempts r = 0 \<or> r \<in> set rows"
  "map ib_attempts (replayStripeWebhookEvents ids c live now inbox) = map ib_attempts inbox"
  "10 \<le> ib_attempts event \<Longrightarrow> gives_up e (ib_attempts event)"
  by (auto simp: replayPlatformBillingNotifications_def replayStripeWebhookEvents_def gives_up_def
      hasExhaustedPlatformBillingWebhookAttempts_def DEFAULT_RETRY_POLICY_def)

section \<open>Histories of the inbox\<close>

text \<open>The rows, and the events in the hands of the workers: the rows as their claims returned them.\<close>

record 'p inbox =
  in_rows :: "'p inbox_row list"
  in_hands :: "(string \<times> 'p inbox_row) list"

text \<open>A row gets a new id, and a worker has a name.\<close>

datatype 'p inbox_step =
    DELIVER string bool string string "string option" 'p int
  | RECOVER bool "string list option" int
  | CLAIM bool nat string "string list option" int
  | SETTLE nat processing int jsnum
  | REPLAY "string list" "string option" bool int

definition drop_nth :: "nat \<Rightarrow> 'a list \<Rightarrow> 'a list" where
  "drop_nth n xs = take n xs @ drop (Suc n) xs"

fun step_inbox :: "'p inbox_step \<Rightarrow> 'p inbox \<Rightarrow> 'p inbox" where
  "step_inbox (DELIVER i live e ty conta payload now) s =
     (if list_ex (\<lambda>r. ib_id r = i) (in_rows s) then s
      else s\<lparr>in_rows := fst (upsertWebhookEvent i live e ty conta payload now (in_rows s))\<rparr>)"
| "step_inbox (RECOVER live ids now) s = s\<lparr>in_rows := recoverTimedOutStripeWebhookEvents live ids now (in_rows s)\<rparr>"
| "step_inbox (CLAIM live limit worker ids now) s = (if worker = [] then s else
     let (rows, claimed) = claimStripeWebhookEvents live limit worker ids now (in_rows s)
      in s\<lparr>in_rows := rows, in_hands := in_hands s @ map (Pair worker) claimed\<rparr>)"
| "step_inbox (SETTLE n result now random) s =
     (if n < length (in_hands s) then
        (let (worker, event) = in_hands s ! n; rest = drop_nth n (in_hands s)
         in s\<lparr>in_rows := (case settle_event worker event result now random (in_rows s) of Some rows \<Rightarrow> rows | None \<Rightarrow> in_rows s),
              in_hands := rest\<rparr>) else s)"
| "step_inbox (REPLAY ids conta live now) s = s\<lparr>in_rows := replayStripeWebhookEvents ids conta live now (in_rows s)\<rparr>"

definition inbox_run :: "'p inbox_step list \<Rightarrow> 'p inbox \<Rightarrow> 'p inbox" where
  "inbox_run steps s = foldl (\<lambda>s x. step_inbox x s) s steps"

definition empty_inbox :: "'p inbox" where
  "empty_inbox = \<lparr>in_rows = [], in_hands = []\<rparr>"

lemma inbox_run_simps [simp]:
  "inbox_run [] s = s" "inbox_run (steps @ [x]) s = step_inbox x (inbox_run steps s)"
  by (simp_all add: inbox_run_def)

text \<open>Every change of the rows applies one function to the rows a test selects, or appends a new row.\<close>

lemma update_leased_rows:
  assumes "update_leased i worker f rows = Some rows'"
  shows "rows' = map (\<lambda>r. if leased i worker r then f r else r) rows"
  using assms by (simp add: update_leased_def split: if_splits)

subsection \<open>Keys, and what is settled\<close>

definition row_key :: "'p inbox_row \<Rightarrow> string \<times> bool \<times> string" where
  "row_key r = (ib_id r, ib_live r, ib_eventId r)"

lemma map_if_key: "(\<And>r. P r \<Longrightarrow> k (f r) = k r) \<Longrightarrow> map k (map (\<lambda>r. if P r then f r else r) rows) = map k rows"
  by (induction rows) auto

lemma settle_event_cases:
  assumes "settle_event worker event result now random rows = Some rows'"
  obtains f where "rows' = map (\<lambda>r. if leased (ib_id event) (Some worker) r then f r else r) rows"
    "\<And>r. row_key (f r) = row_key r" "\<And>r. ib_attempts (f r) = ib_attempts r" "\<And>r. ib_status (f r) \<noteq> IN_PROCESSING"
    "\<And>r. ib_status (f r) \<noteq> IN_PENDING \<and> ib_status (f r) \<noteq> IN_RECEIVED" "\<And>r. ib_status (f r) = IN_FAILED \<Longrightarrow> ib_attempts event < 10"
proof -
  let ?mk = "\<lambda>rows'. \<exists>f. rows' = map (\<lambda>r. if leased (ib_id event) (Some worker) r then f r else r) rows \<and>
    (\<forall>r. row_key (f r) = row_key r \<and> ib_attempts (f r) = ib_attempts r \<and> ib_status (f r) \<noteq> IN_PROCESSING \<and>
      ib_status (f r) \<noteq> IN_PENDING \<and> ib_status (f r) \<noteq> IN_RECEIVED \<and> (ib_status (f r) = IN_FAILED \<longrightarrow> ib_attempts event < 10))"
  have failed: "?mk rows'" if "fail_event worker event e now random rows = Some rows'" for e rows'
    using update_leased_rows [OF that [unfolded fail_event_def markWebhookEventFailed_def Let_def]]
    by (intro exI conjI, assumption) (auto simp: row_key_def gives_up_def hasExhaustedPlatformBillingWebhookAttempts_def DEFAULT_RETRY_POLICY_def)
  have marked: "?mk rows'" if "markWebhookEventProcessed (ib_id event) conta (Some worker) now rows = Some rows'" for conta rows'
    using update_leased_rows [OF that [unfolded markWebhookEventProcessed_def]]
    by (intro exI conjI, assumption) (auto simp: row_key_def)
  have ignored: "?mk rows'" if "markWebhookEventIgnored (ib_id event) conta (Some worker) now rows = Some rows'" for conta rows'
    using update_leased_rows [OF that [unfolded markWebhookEventIgnored_def]]
    by (intro exI conjI, assumption) (auto simp: row_key_def)
  have "?mk rows'"
    using assms by (auto simp: settle_event_def Let_def split: processing.splits option.splits
        dest: failed marked ignored simp del: imp_disjL)
  then show thesis using that by blast
qed

lemma set_map_if: "r' \<in> set (map (\<lambda>r. if P r then f r else r) rows) \<longleftrightarrow> (\<exists>r \<in> set rows. r' = (if P r then f r else r))"
  by auto

definition keyed :: "'p inbox_row list \<Rightarrow> bool" where
  "keyed rows \<longleftrightarrow> distinct (map ib_id rows) \<and> distinct (map (\<lambda>r. (ib_live r, ib_eventId r)) rows)"

lemma keyed_cong:
  assumes "map row_key rows' = map row_key rows"
  shows "keyed rows' \<longleftrightarrow> keyed rows"
proof -
  have "map ib_id rows' = map ib_id rows" using arg_cong [OF assms, of "map fst"] by (simp add: o_def row_key_def)
  moreover have "map (\<lambda>r. (ib_live r, ib_eventId r)) rows' = map (\<lambda>r. (ib_live r, ib_eventId r)) rows"
    using arg_cong [OF assms, of "map snd"] by (simp add: o_def row_key_def)
  ultimately show ?thesis by (simp add: keyed_def)
qed

lemma settled_map:
  assumes "r \<in> set rows" "\<not> P r" shows "r \<in> set (map (\<lambda>r. if P r then f r else r) rows)"
  using assms by (force simp: set_map_if)

definition finished :: "'p inbox_row \<Rightarrow> bool" where
  "finished r \<longleftrightarrow> ib_status r = IN_PROCESSED \<or> ib_status r = IN_IGNORED"

lemma claimed_ids_claimable:
  assumes "ib_id r \<in> set (claimed_ids live ids limit now rows)" "r \<in> set rows" "distinct (map ib_id rows)"
  shows "selected live ids r \<and> claimable now r"
proof -
  obtain q where q: "q \<in> set rows" "selected live ids q \<and> claimable now q" "ib_id q = ib_id r"
    using assms(1) set_take_subset by (fastforce simp: claimed_ids_def)
  then have "q = r" using assms(2,3) by (auto simp: distinct_map inj_on_def)
  then show ?thesis using q(2) by simp
qed

definition named :: "'p inbox \<Rightarrow> bool" where
  "named s \<longleftrightarrow> (\<forall>c \<in> set (in_hands s). fst c \<noteq> [])"

lemma drop_nth_subset: "set (drop_nth n xs) \<subseteq> set xs"
  by (auto simp: drop_nth_def dest: in_set_takeD in_set_dropD)

lemma step_inbox_named: "named s \<Longrightarrow> named (step_inbox x s)"
proof (cases x)
  case (SETTLE n result now random)
  then show "named s \<Longrightarrow> named (step_inbox x s)"
    using drop_nth_subset [of n "in_hands s"] by (auto simp: named_def case_prod_beta Let_def)
qed (auto simp: named_def claimStripeWebhookEvents_def Let_def case_prod_beta)

lemma step_inbox_rows:
  assumes "keyed (in_rows s)" "named s"
  shows "keyed (in_rows (step_inbox x s))" "\<And>r. r \<in> set (in_rows s) \<Longrightarrow> finished r \<Longrightarrow> r \<in> set (in_rows (step_inbox x s))"
proof -
  have d: "distinct (map ib_id (in_rows s))" using assms by (simp add: keyed_def)
  have "keyed (in_rows (step_inbox x s)) \<and> (\<forall>r \<in> set (in_rows s). finished r \<longrightarrow> r \<in> set (in_rows (step_inbox x s)))"
  proof (cases x)
    case (DELIVER i live e ty conta payload now)
    then show ?thesis using assms
      by (auto simp: upsertWebhookEvent_def keyed_def new_row_def list_ex_iff same_event_def)
  next
    case (RECOVER live ids now)
    have k: "map row_key (in_rows (step_inbox x s)) = map row_key (in_rows s)"
      unfolding RECOVER by (simp add: recoverTimedOutStripeWebhookEvents_def recover_row_def row_key_def)
    show ?thesis unfolding keyed_cong [OF k] using assms unfolding RECOVER
      by (auto simp: recoverTimedOutStripeWebhookEvents_def timed_out_def finished_def intro!: settled_map)
  next
    case (CLAIM live limit worker ids now)
    let ?ids = "claimed_ids live ids limit now (in_rows s)"
    have rows: "in_rows (step_inbox x s) = map (\<lambda>r. if ib_id r \<in> set ?ids then claim_row worker now r else r) (in_rows s)"
      if "worker \<noteq> []"
      using that unfolding CLAIM by (simp add: claimStripeWebhookEvents_def Let_def)
    have k: "map row_key (in_rows (step_inbox x s)) = map row_key (in_rows s)"
    proof (cases "worker = []")
      case False
      then show ?thesis unfolding rows [OF False] by (simp add: claim_row_def row_key_def)
    qed (simp add: CLAIM)
    have "ib_id r \<notin> set ?ids" if "r \<in> set (in_rows s)" "finished r" for r
      using claimed_ids_claimable [OF _ that(1) d] that(2) by (auto simp: claimable_def finished_def)
    then show ?thesis unfolding keyed_cong [OF k] using assms(1) rows by (cases "worker = []") (auto simp: CLAIM intro!: settled_map)
  next
    case (SETTLE n result now random)
    show ?thesis
    proof (cases "n < length (in_hands s) \<and> settle_event (fst (in_hands s ! n)) (snd (in_hands s ! n)) result now random (in_rows s) \<noteq> None")
      case True
      let ?c = "in_hands s ! n"
      obtain rows' where st: "settle_event (fst ?c) (snd ?c) result now random (in_rows s) = Some rows'" using True by blast
      then have rows: "in_rows (step_inbox x s) = rows'" using True unfolding SETTLE by (simp add: case_prod_beta Let_def)
      obtain f where f: "rows' = map (\<lambda>r. if leased (ib_id (snd ?c)) (Some (fst ?c)) r then f r else r) (in_rows s)" "\<And>r. row_key (f r) = row_key r"
        "\<And>r. ib_status (f r) \<noteq> IN_PROCESSING"
        by (rule settle_event_cases [OF st]) blast
      have k: "map row_key (in_rows (step_inbox x s)) = map row_key (in_rows s)" unfolding rows f by (simp add: f(2))
      have "fst ?c \<noteq> []" using assms(2) True by (auto simp: named_def)
      then have "\<not> leased (ib_id (snd ?c)) (Some (fst ?c)) r" if "finished r" for r
        using that by (auto simp: leased_def finished_def)
      then show ?thesis unfolding keyed_cong [OF k] using assms(1) unfolding rows f(1) by (auto intro!: settled_map)
    next
      case False
      then have "in_rows (step_inbox x s) = in_rows s" unfolding SETTLE by (auto simp: case_prod_beta Let_def split: option.splits)
      then show ?thesis using assms by simp
    qed
  next
    case (REPLAY ids conta live now)
    have k: "map row_key (in_rows (step_inbox x s)) = map row_key (in_rows s)"
      unfolding REPLAY by (simp add: replayStripeWebhookEvents_def row_key_def)
    show ?thesis unfolding keyed_cong [OF k] using assms unfolding REPLAY
      by (auto simp: replayStripeWebhookEvents_def replayed_def finished_def intro!: settled_map)
  qed
  then show "keyed (in_rows (step_inbox x s))" "\<And>r. r \<in> set (in_rows s) \<Longrightarrow> finished r \<Longrightarrow> r \<in> set (in_rows (step_inbox x s))" by blast+
qed

lemma inbox_run_rows:
  assumes "keyed (in_rows s)" "named s"
  shows "keyed (in_rows (inbox_run steps s)) \<and> named (inbox_run steps s)"
  using assms by (induction steps rule: rev_induct) (auto intro: step_inbox_rows(1) step_inbox_named)

lemma empty_inbox_keyed: "keyed (in_rows empty_inbox)" "named empty_inbox"
  by (simp_all add: empty_inbox_def keyed_def named_def)

lemma inbox_settled_once_facts:
  shows "distinct (map (\<lambda>r. (ib_live r, ib_eventId r)) (in_rows (inbox_run steps empty_inbox)))"
    and "r \<in> set (in_rows (inbox_run steps empty_inbox)) \<Longrightarrow> finished r \<Longrightarrow>
      r \<in> set (in_rows (inbox_run (steps @ later) empty_inbox))"
proof -
  show "distinct (map (\<lambda>r. (ib_live r, ib_eventId r)) (in_rows (inbox_run steps empty_inbox)))"
    using inbox_run_rows [OF empty_inbox_keyed] by (auto simp: keyed_def)
  show "r \<in> set (in_rows (inbox_run (steps @ later) empty_inbox))"
    if "r \<in> set (in_rows (inbox_run steps empty_inbox))" "finished r"
  proof (induction later rule: rev_induct)
    case (snoc x later)
    let ?s = "inbox_run (steps @ later) empty_inbox"
    have "keyed (in_rows ?s) \<and> named ?s" by (rule inbox_run_rows [OF empty_inbox_keyed])
    then have "r \<in> set (in_rows (step_inbox x ?s))" using step_inbox_rows(2) [of ?s r x] snoc that(2) by blast
    then show ?case by (simp flip: append_assoc)
  qed (simp add: that)
qed

text \<open>C19. However deliveries, drains of several workers, time-outs and replays interleave, an event of the provider is
  stored once, and once it is processed or ignored its row never changes again: it is processed at most to one end.\<close>

theorem inbox_settled_once:
  shows "distinct (map (\<lambda>r. (ib_live r, ib_eventId r)) (in_rows (inbox_run steps empty_inbox))) \<and>
    (\<forall>r \<in> set (in_rows (inbox_run steps empty_inbox)). finished r \<longrightarrow>
      r \<in> set (in_rows (inbox_run (steps @ later) empty_inbox)))"
  using inbox_settled_once_facts by blast

definition demo_steps :: "unit inbox_step list" where
  "demo_steps = [DELIVER ''1'' True ''evt'' ''invoice.paid'' None () 0, DELIVER ''2'' True ''evt'' ''invoice.paid'' None () 1,
     CLAIM True 25 ''w'' None 5, SETTLE 0 (OUT_DONE (Some ''school'')) 9 (Fin 0)]"

theorem inbox_settled_once_witness:
  "\<exists>r \<in> set (in_rows (inbox_run (demo_steps @ [REPLAY [''1''] None True 10, CLAIM True 25 ''v'' None 20]) empty_inbox)).
     ib_status r = IN_PROCESSED"
proof -
  define r where "r = hd (in_rows (inbox_run demo_steps empty_inbox))"
  have "r \<in> set (in_rows (inbox_run demo_steps empty_inbox))" "finished r" "ib_status r = IN_PROCESSED"
    unfolding r_def by code_simp+
  then show ?thesis using inbox_settled_once [of demo_steps] by blast
qed

subsection \<open>Attempts\<close>

definition open_row :: "'p inbox_row \<Rightarrow> bool" where
  "open_row r \<longleftrightarrow> ib_status r \<in> {IN_PENDING, IN_RECEIVED, IN_FAILED}"

text \<open>A step that neither takes a lease away nor replays an event.\<close>

fun calm :: "'p inbox_step \<Rightarrow> 'p inbox \<Rightarrow> bool" where
  "calm (RECOVER live ids now) s \<longleftrightarrow> list_all (\<lambda>r. \<not> (selected live ids r \<and> timed_out now r)) (in_rows s)"
| "calm (REPLAY ids conta live now) s \<longleftrightarrow> list_all (\<lambda>r. \<not> replayed ids conta live r) (in_rows s)"
| "calm _ s \<longleftrightarrow> True"

fun undisturbed :: "'p inbox_step list \<Rightarrow> 'p inbox \<Rightarrow> bool" where
  "undisturbed [] s \<longleftrightarrow> True"
| "undisturbed (x # xs) s \<longleftrightarrow> calm x s \<and> undisturbed xs (step_inbox x s)"

text \<open>What a copy in the hands of a worker has: the only one of its event, which is being processed, with its attempts.\<close>

definition held :: "'p inbox \<Rightarrow> bool" where
  "held s \<longleftrightarrow> distinct (map (ib_id \<circ> snd) (in_hands s)) \<and>
     (\<forall>c \<in> set (in_hands s). \<exists>r \<in> set (in_rows s). ib_id r = ib_id (snd c) \<and> ib_status r = IN_PROCESSING \<and>
        ib_attempts r = ib_attempts (snd c))"

definition in_budget :: "'p inbox_row \<Rightarrow> bool" where
  "in_budget r \<longleftrightarrow> ib_attempts r \<le> 10 \<and> (open_row r \<longrightarrow> ib_attempts r < 10)"

lemma drop_nth_split: "n < length xs \<Longrightarrow> xs = take n xs @ xs ! n # drop (Suc n) xs"
  by (rule id_take_nth_drop)

lemma step_inbox_budget:
  assumes k: "keyed (in_rows s)" and h: "held s" and w: "list_all in_budget (in_rows s)" and calm: "calm x s"
  shows "held (step_inbox x s) \<and> list_all in_budget (in_rows (step_inbox x s))"
proof (cases x)
  case (DELIVER i live e ty conta payload now)
  then show ?thesis using h w by (auto simp: upsertWebhookEvent_def held_def new_row_def in_budget_def)
next
  case (RECOVER live ids now)
  have "map (\<lambda>r. if selected live ids r \<and> timed_out now r then recover_row now r else r) (in_rows s) = in_rows s"
    using calm unfolding RECOVER by (intro map_idI) (auto simp: list_all_iff)
  then have "step_inbox x s = s" unfolding RECOVER by (simp add: recoverTimedOutStripeWebhookEvents_def)
  then show ?thesis using h w by simp
next
  case (REPLAY ids conta live now)
  have "replayStripeWebhookEvents ids conta live now (in_rows s) = in_rows s"
    using calm unfolding REPLAY replayStripeWebhookEvents_def by (intro map_idI) (auto simp: list_all_iff)
  then have "step_inbox x s = s" unfolding REPLAY by simp
  then show ?thesis using h w by simp
next
  case (CLAIM live limit worker ids now)
  show ?thesis
  proof (cases "worker = []")
    case True
    then show ?thesis using h w unfolding CLAIM by simp
  next
    case False
    let ?ids = "set (claimed_ids live ids limit now (in_rows s))"
    let ?f = "\<lambda>r. if ib_id r \<in> ?ids then claim_row worker now r else r"
    have d: "distinct (map ib_id (in_rows s))" using k by (simp add: keyed_def)
    have rows: "in_rows (step_inbox x s) = map ?f (in_rows s)"
      and hands: "in_hands (step_inbox x s) = in_hands s @ map (Pair worker) (filter (\<lambda>r. ib_id r \<in> ?ids) (map ?f (in_rows s)))"
      using False unfolding CLAIM by (simp_all add: claimStripeWebhookEvents_def Let_def)
    have claimed: "open_row r" if "r \<in> set (in_rows s)" "ib_id r \<in> ?ids" for r
      using claimed_ids_claimable [OF that(2,1) d] by (simp add: claimable_def open_row_def)
    have ids: "map ib_id (map ?f (in_rows s)) = map ib_id (in_rows s)" by (simp add: claim_row_def)
    have kept: "\<exists>r \<in> set (map ?f (in_rows s)). ib_id r = ib_id (snd c) \<and> ib_status r = IN_PROCESSING \<and>
        ib_attempts r = ib_attempts (snd c)" "ib_id (snd c) \<notin> ?ids" if hand: "c \<in> set (in_hands s)" for c
    proof -
      obtain r where r: "r \<in> set (in_rows s)" "ib_id r = ib_id (snd c)" "ib_status r = IN_PROCESSING" "ib_attempts r = ib_attempts (snd c)"
        using h hand unfolding held_def by blast
      then have "ib_id r \<notin> ?ids" using claimed [OF r(1)] by (auto simp: open_row_def)
      then show "ib_id (snd c) \<notin> ?ids" using r(2) by simp
      show "\<exists>r \<in> set (map ?f (in_rows s)). ib_id r = ib_id (snd c) \<and> ib_status r = IN_PROCESSING \<and> ib_attempts r = ib_attempts (snd c)"
        using r \<open>ib_id r \<notin> ?ids\<close> by (intro bexI [of _ r]) (auto intro!: settled_map)
    qed
    have new: "ib_status r = IN_PROCESSING" if "r \<in> set (map ?f (in_rows s))" "ib_id r \<in> ?ids" for r
      using that by (auto simp: claim_row_def split: if_splits)
    have "distinct (map (ib_id \<circ> snd) (map (Pair worker) (filter (\<lambda>r. ib_id r \<in> ?ids) (map ?f (in_rows s)))))"
    proof -
      have "distinct (map ib_id (map ?f (in_rows s)))" unfolding ids by (rule d)
      then show ?thesis by (simp only: map_map o_def snd_conv distinct_map_filter)
    qed
    then have "held (step_inbox x s)" using h kept new unfolding held_def rows hands by fastforce
    moreover have "list_all in_budget (map ?f (in_rows s))"
      unfolding list_all_iff set_map
    proof (rule ballI, elim imageE)
      fix q r assume r: "r \<in> set (in_rows s)" and q: "q = ?f r"
      have "in_budget r" using w r by (simp add: list_all_iff)
      then show "in_budget q" unfolding q using claimed [OF r] by (cases "ib_id r \<in> ?ids") (auto simp: in_budget_def claim_row_def open_row_def)
    qed
    ultimately show ?thesis unfolding rows by simp
  qed
next
  case (SETTLE n result now random)
  show ?thesis
  proof (cases "n < length (in_hands s)")
    case False
    then show ?thesis using h w unfolding SETTLE by simp
  next
    case True
    let ?c = "in_hands s ! n"
    have hands: "in_hands (step_inbox x s) = drop_nth n (in_hands s)" using True unfolding SETTLE by (simp add: case_prod_beta Let_def)
    have d: "distinct (map (ib_id \<circ> snd) (take n (in_hands s) @ ?c # drop (Suc n) (in_hands s)))"
      using h True by (simp add: held_def flip: id_take_nth_drop)
    have others: "ib_id (snd c) \<noteq> ib_id (snd ?c)" if "c \<in> set (drop_nth n (in_hands s))" for c
    proof -
      have "c \<in> set (take n (in_hands s)) \<or> c \<in> set (drop (Suc n) (in_hands s))" using that by (simp add: drop_nth_def)
      then have "(ib_id \<circ> snd) c \<in> (ib_id \<circ> snd) ` set (take n (in_hands s)) \<or> (ib_id \<circ> snd) c \<in> (ib_id \<circ> snd) ` set (drop (Suc n) (in_hands s))"
        by blast
      then show ?thesis using d unfolding map_append distinct_append list.map distinct.simps set_map list.set by (metis IntI comp_apply emptyE insertI1)
    qed
    have dist: "distinct (map (ib_id \<circ> snd) (drop_nth n (in_hands s)))" using d unfolding drop_nth_def by auto
    have sub: "set (drop_nth n (in_hands s)) \<subseteq> set (in_hands s)" by (rule drop_nth_subset)
    show ?thesis
    proof (cases "settle_event (fst ?c) (snd ?c) result now random (in_rows s)")
      case None
      then have "in_rows (step_inbox x s) = in_rows s" using True unfolding SETTLE by (simp add: case_prod_beta Let_def)
      then show ?thesis using h w dist sub hands unfolding held_def by auto
    next
      case (Some rows')
      then have rows: "in_rows (step_inbox x s) = rows'" using True unfolding SETTLE by (simp add: case_prod_beta Let_def)
      let ?m = "leased (ib_id (snd ?c)) (Some (fst ?c))"
      obtain f where f: "rows' = map (\<lambda>r. if ?m r then f r else r) (in_rows s)" "\<And>r. row_key (f r) = row_key r"
        "\<And>r. ib_attempts (f r) = ib_attempts r" "\<And>r. ib_status (f r) \<noteq> IN_PROCESSING" "\<And>r. ib_status (f r) \<noteq> IN_PENDING \<and> ib_status (f r) \<noteq> IN_RECEIVED"
        "\<And>r. ib_status (f r) = IN_FAILED \<Longrightarrow> ib_attempts (snd ?c) < 10"
        by (rule settle_event_cases [OF Some]) blast
      have "held (step_inbox x s)"
      proof -
        have "\<exists>r \<in> set rows'. ib_id r = ib_id (snd c) \<and> ib_status r = IN_PROCESSING \<and> ib_attempts r = ib_attempts (snd c)"
          if c: "c \<in> set (drop_nth n (in_hands s))" for c
        proof -
          obtain r where r: "r \<in> set (in_rows s)" "ib_id r = ib_id (snd c)" "ib_status r = IN_PROCESSING" "ib_attempts r = ib_attempts (snd c)"
            using h c sub unfolding held_def by blast
          have "\<not> ?m r" using r(2) others [OF c] by (simp add: leased_def)
          then have "r \<in> set rows'" unfolding f(1) by (intro settled_map r(1))
          then show ?thesis using r by blast
        qed
        then show ?thesis using dist unfolding held_def rows hands by blast
      qed
      moreover have "in_budget (if ?m r then f r else r)" if r: "r \<in> set (in_rows s)" for r
      proof (cases "?m r")
        case True
        have "?c \<in> set (in_hands s)" using \<open>n < length (in_hands s)\<close> by (rule nth_mem)
        then obtain q where q: "q \<in> set (in_rows s)" "ib_id q = ib_id (snd ?c)" "ib_attempts q = ib_attempts (snd ?c)"
          using h unfolding held_def by blast
        have "ib_id r = ib_id (snd ?c)" using True by (simp add: leased_def)
        then have "q = r" using q(1,2) r k by (auto simp: keyed_def distinct_map inj_on_def)
        then show ?thesis using w r f(3-6) q(3) True by (auto simp: list_all_iff in_budget_def open_row_def)
      next
        case False
        then show ?thesis using w r by (auto simp: list_all_iff)
      qed
      then have "list_all in_budget rows'" unfolding f(1) list_all_iff set_map by blast
      ultimately show ?thesis unfolding rows by blast
    qed
  qed
qed

lemma inbox_run_Cons: "inbox_run (x # xs) s = inbox_run xs (step_inbox x s)"
  by (simp add: inbox_run_def)

text \<open>And conversely: an event that is being processed is in the hands of the worker that has its lease.\<close>

definition attended :: "'p inbox \<Rightarrow> bool" where
  "attended s \<longleftrightarrow> (\<forall>r \<in> set (in_rows s). ib_status r = IN_PROCESSING \<longrightarrow>
     (\<exists>c \<in> set (in_hands s). ib_id (snd c) = ib_id r \<and> ib_workerId r = Some (fst c)))"

lemma settle_event_succeeds:
  "list_ex (leased (ib_id event) (Some worker)) rows \<Longrightarrow> settle_event worker event result now random rows \<noteq> None"
  by (cases result) (auto simp: settle_event_def fail_event_def Let_def markWebhookEventIgnored_def
      markWebhookEventProcessed_def markWebhookEventFailed_def update_leased_def)

text \<open>Whatever processing came to, the worker that holds the lease of a row settles it.\<close>

lemma settle_held:
  assumes k: "keyed (in_rows s)" and nm: "named s" and h: "held s" and att: "attended s"
    and n: "n < length (in_hands s)"
  shows "\<exists>r f. r \<in> set (in_rows s) \<and> ib_id r = ib_id (snd (in_hands s ! n)) \<and> ib_status r = IN_PROCESSING \<and>
    ib_attempts r = ib_attempts (snd (in_hands s ! n)) \<and>
    in_rows (step_inbox (SETTLE n result now random) s) = map (\<lambda>q. if ib_id q = ib_id r then f q else q) (in_rows s) \<and>
    (\<forall>q. row_key (f q) = row_key q \<and> ib_attempts (f q) = ib_attempts q \<and>
       ib_status (f q) \<in> {IN_PROCESSED, IN_IGNORED, IN_EXHAUSTED, IN_FAILED} \<and>
       (ib_status (f q) = IN_FAILED \<longrightarrow> ib_attempts r < 10))"
proof -
  let ?c = "in_hands s ! n"
  have c: "?c \<in> set (in_hands s)" using n by (rule nth_mem)
  then obtain r where r: "r \<in> set (in_rows s)" "ib_id r = ib_id (snd ?c)" "ib_status r = IN_PROCESSING"
    "ib_attempts r = ib_attempts (snd ?c)" using h unfolding held_def by blast
  obtain d where d: "d \<in> set (in_hands s)" "ib_id (snd d) = ib_id r" "ib_workerId r = Some (fst d)"
    using att r unfolding attended_def by blast
  have "d = ?c" using h d(1,2) c r(2) by (auto simp: held_def distinct_map inj_on_def)
  then have worker: "ib_workerId r = Some (fst ?c)" using d(3) by simp
  have named: "fst ?c \<noteq> []" using nm c by (auto simp: named_def)
  have only: "leased (ib_id (snd ?c)) (Some (fst ?c)) q \<longleftrightarrow> ib_id q = ib_id r" if "q \<in> set (in_rows s)" for q
  proof
    assume "ib_id q = ib_id r"
    then have "q = r" using k that r(1) by (auto simp: keyed_def distinct_map inj_on_def)
    then show "leased (ib_id (snd ?c)) (Some (fst ?c)) q" using r worker by (simp add: leased_def)
  qed (simp add: leased_def r(2))
  then have "list_ex (leased (ib_id (snd ?c)) (Some (fst ?c))) (in_rows s)" using r(1) by (auto simp: list_ex_iff)
  then obtain rows' where st: "settle_event (fst ?c) (snd ?c) result now random (in_rows s) = Some rows'"
    using settle_event_succeeds by (metis not_None_eq)
  have rows: "in_rows (step_inbox (SETTLE n result now random) s) = rows'" using n st by (simp add: case_prod_beta Let_def)
  obtain f where f: "rows' = map (\<lambda>q. if leased (ib_id (snd ?c)) (Some (fst ?c)) q then f q else q) (in_rows s)"
    "\<And>q. row_key (f q) = row_key q" "\<And>q. ib_attempts (f q) = ib_attempts q" "\<And>q. ib_status (f q) \<noteq> IN_PROCESSING"
    "\<And>q. ib_status (f q) \<noteq> IN_PENDING \<and> ib_status (f q) \<noteq> IN_RECEIVED"
    "\<And>q. ib_status (f q) = IN_FAILED \<Longrightarrow> ib_attempts (snd ?c) < 10"
    by (rule settle_event_cases [OF st]) blast
  have status: "ib_status (f q) \<in> {IN_PROCESSED, IN_IGNORED, IN_EXHAUSTED, IN_FAILED}" for q
    using f(4,5) [of q] by (cases "ib_status (f q)") auto
  have "rows' = map (\<lambda>q. if ib_id q = ib_id r then f q else q) (in_rows s)"
    unfolding f(1) using only by (intro map_cong) auto
  then show ?thesis using r rows f(2,3,6) status by (intro exI [of _ r] exI [of _ f]) simp
qed

lemma step_inbox_attended:
  assumes k: "keyed (in_rows s)" and nm: "named s" and h: "held s" and att: "attended s" and calm: "calm x s"
  shows "attended (step_inbox x s)"
proof (cases x)
  case (DELIVER i live e ty conta payload now)
  then show ?thesis using att by (auto simp: upsertWebhookEvent_def attended_def new_row_def)
next
  case (RECOVER live ids now)
  have "map (\<lambda>r. if selected live ids r \<and> timed_out now r then recover_row now r else r) (in_rows s) = in_rows s"
    using calm unfolding RECOVER by (intro map_idI) (auto simp: list_all_iff)
  then have "step_inbox x s = s" unfolding RECOVER by (simp add: recoverTimedOutStripeWebhookEvents_def)
  then show ?thesis using att by simp
next
  case (REPLAY ids conta live now)
  have "replayStripeWebhookEvents ids conta live now (in_rows s) = in_rows s"
    using calm unfolding REPLAY replayStripeWebhookEvents_def by (intro map_idI) (auto simp: list_all_iff)
  then have "step_inbox x s = s" unfolding REPLAY by simp
  then show ?thesis using att by simp
next
  case (CLAIM live limit worker ids now)
  show ?thesis
  proof (cases "worker = []")
    case False
    let ?ids = "set (claimed_ids live ids limit now (in_rows s))"
    let ?f = "\<lambda>r. if ib_id r \<in> ?ids then claim_row worker now r else r"
    have rows: "in_rows (step_inbox x s) = map ?f (in_rows s)"
      and hands: "in_hands (step_inbox x s) = in_hands s @ map (Pair worker) (filter (\<lambda>r. ib_id r \<in> ?ids) (map ?f (in_rows s)))"
      using False unfolding CLAIM by (simp_all add: claimStripeWebhookEvents_def Let_def)
    have "\<exists>c \<in> set (in_hands (step_inbox x s)). ib_id (snd c) = ib_id (?f r) \<and> ib_workerId (?f r) = Some (fst c)"
      if r: "r \<in> set (in_rows s)" "ib_status (?f r) = IN_PROCESSING" for r
    proof (cases "ib_id r \<in> ?ids")
      case True
      then have "(worker, ?f r) \<in> set (in_hands (step_inbox x s))"
        using r(1) unfolding hands by (auto simp: claim_row_def)
      then show ?thesis using True by (intro bexI [of _ "(worker, ?f r)"]) (simp_all add: claim_row_def)
    next
      case False
      then show ?thesis using att r unfolding attended_def hands by auto
    qed
    then show ?thesis unfolding attended_def rows set_map by blast
  qed (use att in \<open>simp add: CLAIM\<close>)
next
  case (SETTLE n result now random)
  show ?thesis
  proof (cases "n < length (in_hands s)")
    case True
    obtain r f where r: "ib_id r = ib_id (snd (in_hands s ! n))" and "r \<in> set (in_rows s)"
      and mapped: "in_rows (step_inbox (SETTLE n result now random) s) = map (\<lambda>q. if ib_id q = ib_id r then f q else q) (in_rows s)"
      and f: "\<And>q. ib_status (f q) \<in> {IN_PROCESSED, IN_IGNORED, IN_EXHAUSTED, IN_FAILED}"
      using settle_held [OF k nm h att True, of result now random] by blast
    have rows: "in_rows (step_inbox x s) = map (\<lambda>q. if ib_id q = ib_id r then f q else q) (in_rows s)"
      unfolding SETTLE by (rule mapped)
    have hands: "in_hands (step_inbox x s) = drop_nth n (in_hands s)" using True unfolding SETTLE by (simp add: case_prod_beta Let_def)
    have kept: "c \<in> set (drop_nth n (in_hands s))" if "c \<in> set (in_hands s)" "ib_id (snd c) \<noteq> ib_id r" for c
    proof -
      have "set (in_hands s) = set (take n (in_hands s) @ in_hands s ! n # drop (Suc n) (in_hands s))"
        using True by (simp flip: id_take_nth_drop)
      then have "c \<in> set (take n (in_hands s)) \<or> c = in_hands s ! n \<or> c \<in> set (drop (Suc n) (in_hands s))"
        using that(1) by auto
      then show ?thesis using that(2) r by (auto simp: drop_nth_def)
    qed
    have "\<exists>c \<in> set (drop_nth n (in_hands s)). ib_id (snd c) = ib_id q \<and> ib_workerId q = Some (fst c)"
      if q: "q \<in> set (in_rows s)" "ib_id q \<noteq> ib_id r" "ib_status q = IN_PROCESSING" for q
    proof -
      obtain c where "c \<in> set (in_hands s)" "ib_id (snd c) = ib_id q" "ib_workerId q = Some (fst c)"
        using att q(1,3) unfolding attended_def by blast
      then show ?thesis using kept [of c] q(2) by auto
    qed
    moreover have "ib_status (f q) \<noteq> IN_PROCESSING" for q using f [of q] by auto
    ultimately show ?thesis unfolding attended_def rows hands by auto
  qed (use att in \<open>simp add: SETTLE\<close>)
qed

lemma inbox_run_budget:
  assumes "keyed (in_rows s)" "named s" "held s" "attended s" "list_all in_budget (in_rows s)" "undisturbed steps s"
  shows "list_all in_budget (in_rows (inbox_run steps s)) \<and> held (inbox_run steps s) \<and> attended (inbox_run steps s)"
  using assms
proof (induction steps arbitrary: s)
  case (Cons x xs)
  have "held (step_inbox x s) \<and> list_all in_budget (in_rows (step_inbox x s))"
    using Cons.prems by (intro step_inbox_budget) simp_all
  moreover have "attended (step_inbox x s)" using Cons.prems by (intro step_inbox_attended) simp_all
  ultimately show ?case unfolding inbox_run_Cons
    using Cons.prems by (intro Cons.IH step_inbox_rows(1) step_inbox_named) simp_all
qed simp

text \<open>An event that came to an end: processed, ignored or given up.\<close>

definition ended :: "'p inbox_row \<Rightarrow> bool" where
  "ended r \<longleftrightarrow> ib_status r \<in> {IN_PROCESSED, IN_IGNORED, IN_EXHAUSTED}"

text \<open>A worker that dies after every claim: the lease runs out and the event is claimed again.\<close>

fun crash_loop :: "nat \<Rightarrow> unit inbox_step list" where
  "crash_loop 0 = [DELIVER ''1'' True ''evt'' ''invoice.paid'' None () 0]"
| "crash_loop (Suc n) = crash_loop n @ [CLAIM True 25 ''w'' None (int n * PROCESSING_TIMEOUT_MS),
     RECOVER True None (int (Suc n) * PROCESSING_TIMEOUT_MS)]"

lemma crash_loop_row:
  "\<exists>t code status. in_rows (inbox_run (crash_loop n) empty_inbox) =
     [(new_row ''1'' True ''evt'' ''invoice.paid'' None () 0)\<lparr>ib_status := status, ib_attempts := int n,
        ib_nextAttemptAt := int n * PROCESSING_TIMEOUT_MS - (if n = 0 then 0 else 1), ib_timeoutAt := t, ib_lastErrorCode := code\<rparr>] \<and>
     status \<in> {IN_PENDING, IN_FAILED}"
proof (induction n)
  case 0
  have "in_rows (inbox_run (crash_loop 0) empty_inbox) = [new_row ''1'' True ''evt'' ''invoice.paid'' None () 0]"
    by (simp add: empty_inbox_def upsertWebhookEvent_def inbox_run_def)
  then show ?case by (simp add: new_row_def)
next
  case (Suc n)
  then obtain t code status where IH: "in_rows (inbox_run (crash_loop n) empty_inbox) =
     [(new_row ''1'' True ''evt'' ''invoice.paid'' None () 0)\<lparr>ib_status := status, ib_attempts := int n,
        ib_nextAttemptAt := int n * PROCESSING_TIMEOUT_MS - (if n = 0 then 0 else 1), ib_timeoutAt := t, ib_lastErrorCode := code\<rparr>]"
    "status \<in> {IN_PENDING, IN_FAILED}" by blast
  have run: "inbox_run (crash_loop (Suc n)) empty_inbox = step_inbox (RECOVER True None (int (Suc n) * PROCESSING_TIMEOUT_MS))
    (step_inbox (CLAIM True 25 ''w'' None (int n * PROCESSING_TIMEOUT_MS)) (inbox_run (crash_loop n) empty_inbox))"
    by (simp add: inbox_run_def)
  show ?case unfolding run using IH(2)
    by (auto simp: IH(1) claimStripeWebhookEvents_def Let_def claimed_ids_def selected_def claimable_def claim_row_def new_row_def
        recoverTimedOutStripeWebhookEvents_def timed_out_def recover_row_def PROCESSING_TIMEOUT_MS_def algebra_simps)
qed

lemma inbox_attempts_bounded_facts:
  shows "undisturbed steps empty_inbox \<Longrightarrow> r \<in> set (in_rows (inbox_run steps empty_inbox)) \<Longrightarrow>
      ib_attempts r \<le> 10 \<and> (ib_attempts r = 10 \<longrightarrow> ended r \<or>
        ib_status r = IN_PROCESSING \<and> (\<exists>n < length (in_hands (inbox_run steps empty_inbox)).
          ib_id (snd (in_hands (inbox_run steps empty_inbox) ! n)) = ib_id r \<and>
          (\<forall>result now random. \<exists>r' \<in> set (in_rows (inbox_run (steps @ [SETTLE n result now random]) empty_inbox)).
             row_key r' = row_key r \<and> ended r')))"
    and "\<exists>steps t. \<exists>r \<in> set (in_rows (inbox_run steps (empty_inbox :: unit inbox))). ib_attempts r = int n \<and> claimable t r"
proof -
  show "ib_attempts r \<le> 10 \<and> (ib_attempts r = 10 \<longrightarrow> ended r \<or>
        ib_status r = IN_PROCESSING \<and> (\<exists>n < length (in_hands (inbox_run steps empty_inbox)).
          ib_id (snd (in_hands (inbox_run steps empty_inbox) ! n)) = ib_id r \<and>
          (\<forall>result now random. \<exists>r' \<in> set (in_rows (inbox_run (steps @ [SETTLE n result now random]) empty_inbox)).
             row_key r' = row_key r \<and> ended r')))"
    if "undisturbed steps empty_inbox" "r \<in> set (in_rows (inbox_run steps empty_inbox))"
  proof -
    let ?s = "inbox_run steps empty_inbox"
    have inv: "list_all in_budget (in_rows ?s) \<and> held ?s \<and> attended ?s"
      by (rule inbox_run_budget [OF empty_inbox_keyed _ _ _ that(1)]) (simp_all add: empty_inbox_def held_def attended_def)
    have kn: "keyed (in_rows ?s)" "named ?s" using inbox_run_rows [OF empty_inbox_keyed, of steps] by auto
    have budget: "in_budget r" using inv that(2) by (simp add: list_all_iff)
    have "\<exists>n < length (in_hands ?s). ib_id (snd (in_hands ?s ! n)) = ib_id r \<and>
        (\<forall>result now random. \<exists>r' \<in> set (in_rows (inbox_run (steps @ [SETTLE n result now random]) empty_inbox)).
           row_key r' = row_key r \<and> ended r')" if ten: "ib_attempts r = 10" "ib_status r = IN_PROCESSING"
    proof -
      obtain c where c: "c \<in> set (in_hands ?s)" "ib_id (snd c) = ib_id r"
        using inv ten(2) \<open>r \<in> set (in_rows ?s)\<close> unfolding attended_def by blast
      then obtain n where n: "n < length (in_hands ?s)" "in_hands ?s ! n = c" by (meson in_set_conv_nth)
      have "\<exists>r' \<in> set (in_rows (inbox_run (steps @ [SETTLE n result now random]) empty_inbox)).
          row_key r' = row_key r \<and> ended r'" for result now random
      proof -
        obtain q f where q: "q \<in> set (in_rows ?s)" "ib_id q = ib_id (snd (in_hands ?s ! n))"
          and rows: "in_rows (step_inbox (SETTLE n result now random) ?s) = map (\<lambda>p. if ib_id p = ib_id q then f p else p) (in_rows ?s)"
          and f: "\<And>p. row_key (f p) = row_key p" "\<And>p. ib_status (f p) \<in> {IN_PROCESSED, IN_IGNORED, IN_EXHAUSTED, IN_FAILED}"
            "\<And>p. ib_status (f p) = IN_FAILED \<Longrightarrow> ib_attempts q < 10"
          using settle_held [OF kn _ _ n(1), of result now random] inv by blast
        have "q = r" using kn(1) q c(2) n(2) \<open>r \<in> set (in_rows ?s)\<close> by (auto simp: keyed_def distinct_map inj_on_def)
        then have "ended (f r)" using f(2) [of r] f(3) [of r] ten(1) by (auto simp: ended_def)
        moreover have "f r \<in> set (in_rows (step_inbox (SETTLE n result now random) ?s))"
          using \<open>q = r\<close> \<open>r \<in> set (in_rows ?s)\<close> unfolding rows by auto
        ultimately show ?thesis using f(1) unfolding inbox_run_simps by blast
      qed
      then show ?thesis using n c(2) by blast
    qed
    moreover have "ended r \<or> open_row r \<or> ib_status r = IN_PROCESSING"
      by (cases "ib_status r") (simp_all add: ended_def open_row_def)
    ultimately show ?thesis using budget unfolding in_budget_def by (metis less_irrefl)
  qed
  show "\<exists>steps t. \<exists>r \<in> set (in_rows (inbox_run steps (empty_inbox :: unit inbox))). ib_attempts r = int n \<and> claimable t r"
  proof -
    obtain t code status where row: "in_rows (inbox_run (crash_loop n) empty_inbox) =
       [(new_row ''1'' True ''evt'' ''invoice.paid'' None () 0)\<lparr>ib_status := status, ib_attempts := int n,
        ib_nextAttemptAt := int n * PROCESSING_TIMEOUT_MS - (if n = 0 then 0 else 1), ib_timeoutAt := t, ib_lastErrorCode := code\<rparr>]"
      "status \<in> {IN_PENDING, IN_FAILED}"
      using crash_loop_row [of n] by blast
    let ?r = "hd (in_rows (inbox_run (crash_loop n) empty_inbox))"
    have "?r \<in> set (in_rows (inbox_run (crash_loop n) empty_inbox))" "ib_attempts ?r = int n" "ib_status ?r \<in> {IN_PENDING, IN_FAILED}"
      using row(2) unfolding row(1) by simp_all
    then obtain r where "r \<in> set (in_rows (inbox_run (crash_loop n) empty_inbox))" "ib_attempts r = int n"
      "ib_status r \<in> {IN_PENDING, IN_FAILED}" by blast
    then have "r \<in> set (in_rows (inbox_run (crash_loop n) empty_inbox)) \<and> ib_attempts r = int n \<and> claimable (ib_nextAttemptAt r) r"
      by (auto simp: claimable_def)
    then show ?thesis by blast
  qed
qed

text \<open>C20. While no lease runs out and nothing is replayed, an event is claimed at most ten times, and after the tenth
  claim it is processed, ignored or given up, or still in the hands of one worker: then, whatever processing it comes
  to, the settling of that worker ends it. A lease that runs out is not held against the event: for every number of
  claims there is a history of crashes after which the event has been claimed that often and is still claimable.\<close>

theorem inbox_attempts_bounded:
  shows "(undisturbed steps empty_inbox \<longrightarrow> (\<forall>r \<in> set (in_rows (inbox_run steps empty_inbox)).
      ib_attempts r \<le> 10 \<and> (ib_attempts r = 10 \<longrightarrow> ended r \<or>
        ib_status r = IN_PROCESSING \<and> (\<exists>n < length (in_hands (inbox_run steps empty_inbox)).
          ib_id (snd (in_hands (inbox_run steps empty_inbox) ! n)) = ib_id r \<and>
          (\<forall>result now random. \<exists>r' \<in> set (in_rows (inbox_run (steps @ [SETTLE n result now random]) empty_inbox)).
             row_key r' = row_key r \<and> ended r'))))) \<and>
    (\<exists>steps t. \<exists>r \<in> set (in_rows (inbox_run steps (empty_inbox :: unit inbox))). ib_attempts r = int n \<and> claimable t r)"
  using inbox_attempts_bounded_facts by blast

definition failing :: "unit inbox_step list" where
  "failing = [DELIVER ''1'' True ''evt'' ''invoice.paid'' None () 0, RECOVER True None 0, CLAIM True 25 ''w'' None 0,
     SETTLE 0 (OUT_THROWN (PLATFORM_ERROR ''PLATFORM_PRICE_UNKNOWN'')) 7 (Fin 0)]"

theorem inbox_attempts_bounded_witness:
  "\<exists>r \<in> set (in_rows (inbox_run failing empty_inbox)). ib_status r = IN_EXHAUSTED \<and> ib_attempts r \<le> 10"
proof -
  have calm: "undisturbed failing empty_inbox" by code_simp
  define r where "r = hd (in_rows (inbox_run failing empty_inbox))"
  have "r \<in> set (in_rows (inbox_run failing empty_inbox))" "ib_status r = IN_EXHAUSTED" unfolding r_def by code_simp+
  then show ?thesis using inbox_attempts_bounded [of failing] calm by blast
qed

section \<open>Delays\<close>

text \<open>The delay before jitter, in milliseconds: 30 seconds doubled with every attempt, at most half an hour.\<close>

definition base_ms :: "int \<Rightarrow> int" where
  "base_ms attempts = (if attempts \<le> 6 then 30000 * 2 ^ nat (max 1 attempts - 1) else 1800000)"

lemma num_min_int: "a \<le> b \<Longrightarrow> num_min (num_int a) (num_int b) = num_int a"
  by (simp add: num_min_def)

lemma num_min_unsafe:
  assumes "num_unsafe y" "a \<le> 2 ^ 53"
  shows "num_min (num_int a) y = num_int a"
proof (cases y)
  case (Fin r)
  have "(of_int a :: rat) \<le> of_int (2 ^ 53)" using assms(2) by (simp only: of_int_le_iff)
  then have "of_int a \<le> r" using assms(1) Fin by (simp add: num_unsafe_def)
  then show ?thesis using Fin by (simp add: num_min_def)
qed (use assms(1) in \<open>simp_all add: num_unsafe_def num_min_def\<close>)

lemma base_delay_exact: "base_delay DEFAULT_RETRY_POLICY attempts = num_int (base_ms attempts)"
proof (cases "attempts \<le> 6")
  case True
  let ?n = "max 0 (max 1 attempts - 1)"
  have n: "?n \<le> 5" "?n = max 1 attempts - 1" using True by simp_all
  have "(2 :: int) ^ nat ?n \<le> 2 ^ 5" using n(1) by (intro power_increasing) simp_all
  then have p: "30000 * (2 :: int) ^ nat ?n \<le> 960000" by simp
  have "num_mul (num_int 30000) (num_int (2 ^ nat ?n)) = num_int (30000 * 2 ^ nat ?n)"
    using p by (intro num_mul_int) simp
  then have "num_mul (num_int 30000) (num_power2 ?n) = num_int (30000 * 2 ^ nat ?n)"
    using n(1) by (simp only: num_power2_def) simp
  moreover have "num_min (num_int 1800000) (num_int q) = num_int q" if "q \<le> 960000" for q using that by (simp add: num_min_def)
  ultimately have "num_min (num_int 1800000) (num_mul (num_int 30000) (num_power2 ?n)) = num_int (30000 * 2 ^ nat ?n)"
    using p by (simp only:)
  then show ?thesis unfolding n(2) using True by (simp add: base_delay_def base_ms_def DEFAULT_RETRY_POLICY_def n(2))
next
  case False
  let ?n = "max 0 (max 1 attempts - 1)"
  have n: "6 \<le> ?n" using False by simp
  have "num_min (num_int 1800000) (num_mul (num_int 30000) (num_power2 ?n)) = num_int 1800000"
  proof (cases "?n < 1024")
    case small: True
    have "(2 :: int) ^ 6 \<le> 2 ^ nat ?n" using n by (intro power_increasing) simp_all
    then have big: "1800000 \<le> 30000 * (2 :: int) ^ nat ?n" by simp
    show ?thesis
    proof (cases "30000 * (2 :: int) ^ nat ?n \<le> 2 ^ 53")
      case True
      then have "num_mul (num_int 30000) (num_int (2 ^ nat ?n)) = num_int (30000 * 2 ^ nat ?n)" by (intro num_mul_int) simp
      then have "num_mul (num_int 30000) (num_power2 ?n) = num_int (30000 * 2 ^ nat ?n)" using small by (simp only: num_power2_def if_True)
      then show ?thesis by (simp only: num_min_int [OF big])
    next
      case False
      have unsafe: "num_unsafe (num_mul (num_int 30000) (num_int k))" if "\<not> 30000 * k \<le> 2 ^ 53" for k
      proof -
        have "(of_int (2 ^ 53) :: rat) \<le> of_int (30000 * k)" using that by (simp only: of_int_le_iff)
        then show ?thesis by (simp only: num_mul.simps of_int_mult [symmetric]) (intro of_exact_unsafe, simp)
      qed
      have "num_unsafe (num_mul (num_int 30000) (num_power2 ?n))" unfolding num_power2_def if_P [OF small] by (rule unsafe [OF False])
      then show ?thesis by (rule num_min_unsafe) simp
    qed
  next
    case False
    then show ?thesis by (simp add: num_power2_def num_min_def signed_inf_def)
  qed
  then show ?thesis using False by (simp add: base_delay_def base_ms_def DEFAULT_RETRY_POLICY_def)
qed

lemma base_ms_bounds: "30000 \<le> base_ms attempts" "base_ms attempts \<le> 1800000" "\<exists>q. base_ms attempts = 5 * q"
proof -
  have "(1 :: int) \<le> 2 ^ k" for k :: nat by simp
  then show "30000 \<le> base_ms attempts" by (simp add: base_ms_def)
  have "(2 :: int) ^ nat (max 1 attempts - 1) \<le> 2 ^ 5" if "attempts \<le> 6" using that by (intro power_increasing) auto
  then show "base_ms attempts \<le> 1800000" by (auto simp: base_ms_def)
  have "30000 * (2 :: int) ^ k = 5 * (6000 * 2 ^ k)" "(1800000 :: int) = 5 * 360000" for k by simp_all
  then show "\<exists>q. base_ms attempts = 5 * q" unfolding base_ms_def by metis
qed

lemma retry_delay_value:
  assumes b: "30000 \<le> b" "b \<le> 1800000" "b = 5 * q" and x: "0 \<le> x" "x \<le> 1"
  shows "\<exists>d. num_round (num_add (num_int b) (num_mul (num_mul (num_int b) (of_exact (1 / 5))) (Fin x))) = num_int d \<and> b \<le> d \<and> d \<le> b + q"
proof -
  define e :: rat where "e = 1 / 2 ^ 30"
  have qr: "(6000 :: rat) \<le> of_int q" "of_int q \<le> (360000 :: rat)" "(of_int b :: rat) = 5 * of_int q" using b by simp_all
  have err: "\<bar>fl y - y\<bar> \<le> e" if "0 \<le> y" "y \<le> 2 ^ 22" for y using fl_error_at [of y 22] that by (simp add: e_def)
  have fin: "of_exact y = Fin (fl y)" if "0 \<le> y" "y \<le> 2 ^ 22" for y using of_exact_at [of y] that by simp
  define r where "r = fl (1 / 5)"
  have r: "of_exact (1 / 5) = Fin r" "0 \<le> r" "\<bar>r - 1 / 5\<bar> \<le> 1 / 2 ^ 53"
    using fin [of "1 / 5"] fl_error_at [of "1 / 5" 0] by (simp_all add: r_def fl_nonneg)
  have br: "0 \<le> of_int b * r" "of_int b * r \<le> of_int q + e"
  proof -
    show "0 \<le> of_int b * r" using r(2) qr by simp
    have "of_int b * r \<le> of_int b * (1 / 5 + 1 / 2 ^ 53)" using r(3) qr unfolding intervals by (intro mult_left_mono) linarith+
    also have "\<dots> \<le> of_int q + e" using qr by (simp add: e_def)
    finally show "of_int b * r \<le> of_int q + e" .
  qed
  have e: "0 < e" "e < 1 / 1000" by (simp_all add: e_def)
  define j where "j = fl (of_int b * r)"
  have j: "num_mul (num_int b) (of_exact (1 / 5)) = Fin j" "0 \<le> j" "j \<le> of_int q + 2 * e"
    using fin [of "of_int b * r"] err [of "of_int b * r"] br qr e unfolding intervals by (simp_all add: j_def r(1) fl_nonneg)
  have jx: "0 \<le> j * x" "j * x \<le> of_int q + 2 * e" using j x mult_left_le [of x j] by simp_all
  define k where "k = fl (j * x)"
  have k: "num_mul (Fin j) (Fin x) = Fin k" "0 \<le> k" "k \<le> of_int q + 3 * e"
    using fin [of "j * x"] err [of "j * x"] jx qr e unfolding intervals by (simp_all add: k_def fl_nonneg)
  define s where "s = fl (of_int b + k)"
  have s: "num_add (num_int b) (Fin k) = Fin s" "s \<le> of_int b + of_int q + 4 * e"
    using fin [of "of_int b + k"] err [of "of_int b + k"] k qr e unfolding intervals by (simp_all add: s_def)
  have "fl (of_int b) \<le> s" unfolding s_def using qr k(2) by (intro fl_mono) simp_all
  then have low: "of_int b \<le> s" using fl_of_int [of b] b by simp
  have "b \<le> \<lfloor>s + 1 / 2\<rfloor>" using low by (simp add: le_floor_iff)
  moreover have "\<lfloor>s + 1 / 2\<rfloor> < b + q + 1" using s(2) e unfolding floor_less_iff by simp
  ultimately show ?thesis unfolding j(1) k(1) s(1) by (intro exI [of _ "\<lfloor>s + 1 / 2\<rfloor>"]) simp
qed

lemma jitter_ratio: "rp_jitterRatio DEFAULT_RETRY_POLICY = of_exact (1 / 5)"
  by (simp add: DEFAULT_RETRY_POLICY_def)

text \<open>The wait before the next attempt is that of an exponential back-off with jitter, whatever the random number
  and the roundings: at least the base delay (30 seconds, doubled with each attempt, at most half an hour) and at most
  a fifth more.\<close>

theorem retry_delay_bounds:
  assumes "0 \<le> x" "x \<le> 1"
  shows "now + base_ms attempts \<le> computePlatformBillingWebhookNextAttemptAt attempts now (Fin x) \<and>
     5 * (computePlatformBillingWebhookNextAttemptAt attempts now (Fin x) - now) \<le> 6 * base_ms attempts"
proof -
  obtain q where q: "base_ms attempts = 5 * q" using base_ms_bounds(3) by blast
  obtain d where "retry_delay DEFAULT_RETRY_POLICY attempts (Fin x) = num_int d" "base_ms attempts \<le> d" "d \<le> base_ms attempts + q"
    using retry_delay_value [OF base_ms_bounds(1,2) q assms]
    by (auto simp: retry_delay_def base_delay_exact jitter_ratio)
  then show ?thesis using q by (simp add: computePlatformBillingWebhookNextAttemptAt_def)
qed

theorem retry_delay_bounds_witness:
  "computePlatformBillingWebhookNextAttemptAt 3 1000 (Fin (1 / 2)) \<in> {121000 .. 145000}"
  using retry_delay_bounds [of "1 / 2" 1000 3] by (simp add: base_ms_def)

end
