(* ===== verification/PlatformStore.thy ===== *)
theory PlatformStore
  imports PlatformAccess PlatformPlans PlatformInbox
begin

text \<open>
  The store of the platform billing (\<^verbatim>\<open>packages/platform-billing/src/prisma-store.ts\<close>): accounts, invoices, checkout
  sessions, plan changes, issues and the audit log of the schools, with the operations the webhooks and the checkout
  use. An account is written only from a snapshot that still holds, never from an event older than the newest applied
  one, and under the lease of the event. Every operation is one transaction of the database and is one function here.
  Of an invoice the money, the status and the dates are kept (its number, links, period and error texts are not), and of
  an audit entry its key and subject.
\<close>

section \<open>The tables\<close>

datatype invoice_status = INV_DRAFT | INV_OPEN | INV_PAID | INV_VOID | INV_UNCOLLECTIBLE | INV_UNKNOWN

record platform_invoice =
  pi_live :: bool
  pi_id :: string
  pi_contaId :: string
  pi_accountId :: string
  pi_customerId :: string
  pi_subscriptionId :: "string option"
  pi_priceId :: "string option"
  pi_planCode :: "string option"
  pi_status :: invoice_status
  pi_amountDue :: int
  pi_amountPaid :: int
  pi_paidAt :: "int option"
  pi_failedAt :: "int option"
  pi_attemptCount :: int
  pi_nextPaymentAttempt :: "int option"
  pi_lastEventId :: string

datatype session_status = CS_CREATED | CS_COMPLETED | CS_EXPIRED

record checkout_session =
  cs_contaId :: string
  cs_accountId :: string
  cs_live :: bool
  cs_planCode :: string
  cs_sessionId :: string
  cs_customerId :: string
  cs_priceId :: string
  cs_status :: session_status
  cs_cancelKey :: "string option"
  cs_key :: string

datatype change_status = PC_PENDING_PAYMENT | PC_PENDING_EFFECTIVE_DATE | PC_APPLIED | PC_CANCELED | PC_FAILED | PC_SUPERSEDED

record plan_change =
  pc_id :: string
  pc_contaId :: string
  pc_accountId :: string
  pc_live :: bool
  pc_type :: plan_change_type
  pc_status :: change_status
  pc_toPlan :: "string option"
  pc_subscriptionId :: "string option"
  pc_priceId :: "string option"

datatype issue_status = ISSUE_OPEN | ISSUE_RESOLVED | ISSUE_IGNORED

record billing_issue =
  is_contaId :: "string option"
  is_accountId :: "string option"
  is_live :: bool
  is_code :: string
  is_status :: issue_status

record audit_entry =
  au_contaId :: string
  au_accountId :: string
  au_action :: string
  au_event :: "(bool \<times> string) option"
  au_entityId :: "string option"

record 'p billing_store =
  bs_contas :: "string list"
  bs_accounts :: "billing_account list"
  bs_invoices :: "platform_invoice list"
  bs_sessions :: "checkout_session list"
  bs_changes :: "plan_change list"
  bs_issues :: "billing_issue list"
  bs_audit :: "audit_entry list"
  bs_inbox :: "'p inbox_row list"
  bs_outbox :: "outbox_row list"

text \<open>What an operation throws: an error of the package, another error, or the signal that the event is ignored.\<close>

datatype billing_error = FAILED string | UNEXPECTED | IGNORED

type_synonym ('p, 'a) billing_op = "(billing_error + 'a) \<times> 'p billing_store"

fun then_run :: "(billing_error + 'a) \<times> 's \<Rightarrow> ('a \<Rightarrow> 's \<Rightarrow> (billing_error + 'b) \<times> 's) \<Rightarrow> (billing_error + 'b) \<times> 's" where
  "then_run (Inl e, s) k = (Inl e, s)"
| "then_run (Inr x, s) k = k x s"

section \<open>Reading\<close>

definition contaExists :: "string \<Rightarrow> 'p billing_store \<Rightarrow> bool" where
  "contaExists conta s \<longleftrightarrow> conta \<in> set (bs_contas s)"

definition findAccount :: "string \<Rightarrow> bool \<Rightarrow> 'p billing_store \<Rightarrow> billing_account option" where
  "findAccount conta live s = find (\<lambda>a. ac_contaId a = conta \<and> ac_live a = live) (bs_accounts s)"

definition findAccountByStripeCustomerId :: "bool \<Rightarrow> string \<Rightarrow> 'p billing_store \<Rightarrow> billing_account option" where
  "findAccountByStripeCustomerId live customer s =
     find (\<lambda>a. ac_live a = live \<and> ac_customerId a = Some customer) (bs_accounts s)"

definition findAccountByStripeSubscriptionId :: "bool \<Rightarrow> string \<Rightarrow> 'p billing_store \<Rightarrow> billing_account option" where
  "findAccountByStripeSubscriptionId live subscription s =
     find (\<lambda>a. ac_live a = live \<and> ac_subscriptionId a = Some subscription) (bs_accounts s)"

definition findCheckoutSessionByIdempotencyKey ::
    "string \<Rightarrow> bool \<Rightarrow> string \<Rightarrow> 'p billing_store \<Rightarrow> checkout_session option" where
  "findCheckoutSessionByIdempotencyKey conta live key s =
     find (\<lambda>c. cs_contaId c = conta \<and> cs_live c = live \<and> cs_key c = key) (bs_sessions s)"

section \<open>Accounts\<close>

definition map_accounts :: "(billing_account \<Rightarrow> bool) \<Rightarrow> (billing_account \<Rightarrow> billing_account) \<Rightarrow> 'p billing_store \<Rightarrow> 'p billing_store" where
  "map_accounts P f s = s\<lparr>bs_accounts := map (\<lambda>a. if P a then f a else a) (bs_accounts s)\<rparr>"

text \<open>The row a new account starts as, with the defaults of the schema.\<close>

definition new_account :: "string \<Rightarrow> string \<Rightarrow> bool \<Rightarrow> string option \<Rightarrow> billing_account" where
  "new_account i conta live customer = \<lparr>ac_id = i, ac_contaId = conta, ac_live = live, ac_status = ACC_NOT_STARTED, ac_planCode = None,
     ac_customerId = customer, ac_subscriptionId = None, ac_priceId = None, ac_currentPeriodEnd = None,
     ac_cancelAtPeriodEnd = False, ac_trialEndsAt = None, ac_trialWillEndNotifiedAt = None,
     ac_accessStatus = ACCESS_PENDING, ac_gracePeriodEndsAt = None, ac_restrictedAt = None, ac_canceledAt = None,
     ac_lastPaymentFailedAt = None, ac_firstPaidAt = None, ac_lastSuccessfulPaymentAt = None,
     ac_paymentMethod = METHOD_UNKNOWN, ac_restrictionReason = None, ac_gracePeriodStartedAt = None,
     ac_stateVersion = 0, ac_lastEventCreatedAt = None, ac_lastEventId = None, ac_pendingPlanCode = None,
     ac_pendingChangeType = None, ac_pendingEffectiveAt = None, ac_pendingOperationId = None,
     ac_pendingClaimToken = None, ac_checkoutKey = None, ac_checkoutPhase = None, ac_checkoutClaimedAt = None,
     ac_checkoutExpiresAt = None, ac_trialKey = None, ac_trialPhase = None, ac_trialClaimedAt = None,
     ac_trialExpiresAt = None\<rparr>"

text \<open>The unique keys of an account besides its school: its customer and its subscription in the environment.\<close>

definition customer_taken :: "bool \<Rightarrow> string \<Rightarrow> (billing_account \<Rightarrow> bool) \<Rightarrow> 'p billing_store \<Rightarrow> bool" where
  "customer_taken live customer own s \<longleftrightarrow> list_ex (\<lambda>a. \<not> own a \<and> ac_live a = live \<and> ac_customerId a = Some customer) (bs_accounts s)"

definition subscription_taken :: "bool \<Rightarrow> string \<Rightarrow> (billing_account \<Rightarrow> bool) \<Rightarrow> 'p billing_store \<Rightarrow> bool" where
  "subscription_taken live subscription own s \<longleftrightarrow>
     list_ex (\<lambda>a. \<not> own a \<and> ac_live a = live \<and> ac_subscriptionId a = Some subscription) (bs_accounts s)"

definition of_conta :: "string \<Rightarrow> bool \<Rightarrow> billing_account \<Rightarrow> bool" where
  "of_conta conta live a \<longleftrightarrow> ac_contaId a = conta \<and> ac_live a = live"

definition refetched :: "(billing_account \<Rightarrow> bool) \<Rightarrow> 'p billing_store \<Rightarrow> ('p, billing_account) billing_op" where
  "refetched P s = (case find P (bs_accounts s) of None \<Rightarrow> Inl UNEXPECTED | Some a \<Rightarrow> Inr a, s)"

text \<open>\<open>fresh\<close> is the id the database gives.\<close>

definition createAccount :: "string \<Rightarrow> string \<Rightarrow> bool \<Rightarrow> string \<Rightarrow> 'p billing_store \<Rightarrow> ('p, billing_account) billing_op" where
  "createAccount fresh conta live customer s =
     (if customer_taken live customer (of_conta conta live) s \<or> \<not> contaExists conta s then (Inl UNEXPECTED, s)
      else refetched (of_conta conta live)
        (if findAccount conta live s = None then s\<lparr>bs_accounts := bs_accounts s @ [new_account fresh conta live (Some customer)]\<rparr>
         else map_accounts (of_conta conta live) (\<lambda>a. a\<lparr>ac_customerId := Some customer\<rparr>) s))"

definition attachCustomer :: "string \<Rightarrow> string \<Rightarrow> 'p billing_store \<Rightarrow> ('p, billing_account) billing_op" where
  "attachCustomer account customer s = (case find (\<lambda>a. ac_id a = account) (bs_accounts s) of None \<Rightarrow> (Inl UNEXPECTED, s)
     | Some a \<Rightarrow> if customer_taken (ac_live a) customer (\<lambda>b. ac_id b = account) s then (Inl UNEXPECTED, s)
         else refetched (\<lambda>b. ac_id b = account) (map_accounts (\<lambda>b. ac_id b = account) (\<lambda>a. a\<lparr>ac_customerId := Some customer\<rparr>) s))"

section \<open>Claims\<close>

text \<open>
  Before the provider is asked for a trial subscription or a checkout, the account is claimed under the key of the
  request; a claim no request was sent for is free again after five minutes.
\<close>

definition before :: "int option \<Rightarrow> int \<Rightarrow> bool" where
  "before date limit = (case date of None \<Rightarrow> False | Some d \<Rightarrow> d < limit)"

definition STALE_CLAIM_MS :: int where
  "STALE_CLAIM_MS = 5 * 60000"

definition REQUEST_WINDOW_MS :: int where
  "REQUEST_WINDOW_MS = 20 * 60 * 60000"

definition trial_claimable :: "int \<Rightarrow> billing_account \<Rightarrow> bool" where
  "trial_claimable now a \<longleftrightarrow> ac_subscriptionId a = None \<and> ac_trialEndsAt a = None \<and> ac_checkoutKey a = None \<and>
     (ac_trialKey a = None \<or> ac_trialPhase a = Some CLAIMED \<and> before (ac_trialClaimedAt a) (now - STALE_CLAIM_MS))"

definition reserveTrialSubscriptionClaim ::
    "string \<Rightarrow> string \<Rightarrow> bool \<Rightarrow> string \<Rightarrow> int \<Rightarrow> 'p billing_store \<Rightarrow> ('p, billing_account) billing_op" where
  "reserveTrialSubscriptionClaim fresh conta live key now s =
     (let created = (new_account fresh conta live None)
            \<lparr>ac_trialKey := Some key, ac_trialPhase := Some CLAIMED, ac_trialClaimedAt := Some now\<rparr>;
          s1 = (if findAccount conta live s = None then s\<lparr>bs_accounts := bs_accounts s @ [created]\<rparr> else s);
          hit = (\<lambda>a. of_conta conta live a \<and> trial_claimable now a);
          claimed = list_ex hit (bs_accounts s1);
          s2 = map_accounts hit (\<lambda>a. a\<lparr>ac_trialKey := Some key, ac_trialPhase := Some CLAIMED, ac_trialClaimedAt := Some now,
            ac_trialExpiresAt := None\<rparr>) s1
      in if \<not> contaExists conta s \<and> findAccount conta live s = None then (Inl UNEXPECTED, s)
         else (case findAccount conta live s2 of None \<Rightarrow> Inl UNEXPECTED
           | Some a \<Rightarrow> if claimed \<or> truthy (ac_subscriptionId a) \<or> ac_trialEndsAt a \<noteq> None then Inr a
               else if ac_trialKey a = Some key then
                 (if ac_trialPhase a = Some CLAIMED \<or> ac_trialPhase a = Some REQUESTING \<and> ahead (ac_trialExpiresAt a) now then Inr a
                  else Inl (FAILED ''PLATFORM_BILLING_RECONCILIATION_FAILED''))
               else if ac_trialPhase a = Some REQUESTING then Inl (FAILED ''PLATFORM_BILLING_RECONCILIATION_FAILED'')
               else Inl (FAILED ''PLATFORM_BILLING_IDEMPOTENCY_CONFLICT''), s2))"

definition markTrialSubscriptionRequestStarted ::
    "string \<Rightarrow> bool \<Rightarrow> string \<Rightarrow> int \<Rightarrow> 'p billing_store \<Rightarrow> ('p, unit) billing_op" where
  "markTrialSubscriptionRequestStarted conta live key now s =
     (let hit = (\<lambda>a. of_conta conta live a \<and> ac_trialKey a = Some key \<and> ac_trialPhase a = Some CLAIMED)
      in if list_ex hit (bs_accounts s) then
           (Inr (), map_accounts hit (\<lambda>a. a\<lparr>ac_trialPhase := Some REQUESTING, ac_trialExpiresAt := Some (now + REQUEST_WINDOW_MS)\<rparr>) s)
         else (case findAccount conta live s of None \<Rightarrow> (Inl UNEXPECTED, s)
           | Some a \<Rightarrow> (if ac_trialKey a = Some key \<and> ac_trialPhase a = Some REQUESTING \<and> ahead (ac_trialExpiresAt a) now then Inr ()
               else Inl (FAILED ''PLATFORM_BILLING_RECONCILIATION_FAILED''), s)))"

definition free_trial_claim :: "billing_account \<Rightarrow> billing_account" where
  "free_trial_claim a = a\<lparr>ac_trialKey := None, ac_trialPhase := None, ac_trialClaimedAt := None, ac_trialExpiresAt := None\<rparr>"

definition releaseTrialSubscriptionClaim :: "string \<Rightarrow> bool \<Rightarrow> string \<Rightarrow> 'p billing_store \<Rightarrow> 'p billing_store" where
  "releaseTrialSubscriptionClaim conta live key =
     map_accounts (\<lambda>a. of_conta conta live a \<and> ac_trialKey a = Some key) free_trial_claim"

text \<open>What stands in the way of a checkout; a reactivation may also replace an expired trial that was never paid.\<close>

definition blocking_statuses :: "bool \<Rightarrow> account_status set" where
  "blocking_statuses reactivation = (if reactivation then {ACC_ACTIVE, ACC_PAST_DUE, ACC_UNPAID}
     else {ACC_ACTIVE, ACC_TRIALING, ACC_PAST_DUE, ACC_UNPAID, ACC_PAUSED})"

definition checkout_claimable :: "string \<Rightarrow> bool \<Rightarrow> int \<Rightarrow> billing_account \<Rightarrow> bool" where
  "checkout_claimable account reactivation now a \<longleftrightarrow> ac_id a = account \<and> ac_trialKey a = None \<and>
     (ac_subscriptionId a = None \<or> ac_status a = ACC_CANCELED \<or> ac_status a = ACC_INCOMPLETE_EXPIRED \<or>
      reactivation \<and> (ac_status a = ACC_PAUSED \<or> ac_status a = ACC_TRIALING) \<and> reached (ac_trialEndsAt a) now \<and>
        ac_firstPaidAt a = None \<and> ac_lastSuccessfulPaymentAt a = None) \<and>
     (ac_checkoutKey a = None \<or> ac_checkoutPhase a = Some CLAIMED \<and> before (ac_checkoutClaimedAt a) (now - STALE_CLAIM_MS)) \<and>
     ac_status a \<notin> blocking_statuses reactivation"

definition markCheckoutPending ::
    "string \<Rightarrow> string \<Rightarrow> plan_change_type option \<Rightarrow> string \<Rightarrow> int \<Rightarrow> 'p billing_store \<Rightarrow> ('p, billing_account) billing_op" where
  "markCheckoutPending account planCode change key now s =
     (let reactivation = (change = Some CHANGE_REACTIVATE);
          hit = checkout_claimable account reactivation now
      in if list_ex hit (bs_accounts s) then
           refetched (\<lambda>a. ac_id a = account) (map_accounts hit (\<lambda>a. a\<lparr>
             ac_status := (if reactivation then ACC_CANCELED else ACC_CHECKOUT_PENDING), ac_pendingPlanCode := Some planCode,
             ac_pendingChangeType := change, ac_pendingEffectiveAt := None, ac_checkoutKey := Some key,
             ac_checkoutPhase := Some CLAIMED, ac_checkoutClaimedAt := Some now, ac_checkoutExpiresAt := None\<rparr>) s)
         else (case find (\<lambda>a. ac_id a = account) (bs_accounts s) of None \<Rightarrow> (Inl UNEXPECTED, s)
           | Some a \<Rightarrow>
             (if ac_checkoutKey a = Some key \<and> ac_checkoutPhase a = Some REQUESTING \<and> ahead (ac_checkoutExpiresAt a) now then Inr a
              else Inl (FAILED (if ac_subscriptionId a \<noteq> None \<and> ac_status a \<in> blocking_statuses reactivation
                then ''PLATFORM_BILLING_SUBSCRIPTION_ALREADY_EXISTS''
                else if ac_checkoutPhase a = Some REQUESTING then ''PLATFORM_BILLING_CHECKOUT_RECONCILIATION_REQUIRED''
                else ''PLATFORM_BILLING_CHECKOUT_IN_PROGRESS'')), s)))"

definition markCheckoutRequestStarted :: "string \<Rightarrow> string \<Rightarrow> int \<Rightarrow> 'p billing_store \<Rightarrow> ('p, unit) billing_op" where
  "markCheckoutRequestStarted account key now s =
     (let hit = (\<lambda>a. ac_id a = account \<and> ac_checkoutKey a = Some key \<and> ac_checkoutPhase a = Some CLAIMED)
      in if list_ex hit (bs_accounts s) then
           (Inr (), map_accounts hit (\<lambda>a. a\<lparr>ac_checkoutPhase := Some REQUESTING,
              ac_checkoutExpiresAt := Some (now + REQUEST_WINDOW_MS)\<rparr>) s)
         else (case find (\<lambda>a. ac_id a = account) (bs_accounts s) of None \<Rightarrow> (Inl UNEXPECTED, s)
           | Some a \<Rightarrow> (if ac_checkoutKey a = Some key \<and> ac_checkoutPhase a = Some REQUESTING \<and> ahead (ac_checkoutExpiresAt a) now
               then Inr () else Inl (FAILED ''PLATFORM_BILLING_CHECKOUT_RECONCILIATION_REQUIRED''), s)))"

definition free_checkout_claim :: "billing_account \<Rightarrow> billing_account" where
  "free_checkout_claim a = a\<lparr>ac_checkoutKey := None, ac_checkoutPhase := None, ac_checkoutClaimedAt := None, ac_checkoutExpiresAt := None\<rparr>"

text \<open>The subscription of a completed checkout is bound to the account that still holds its claim.\<close>

definition bindCheckoutSubscription ::
    "string \<Rightarrow> string \<Rightarrow> bool \<Rightarrow> string \<Rightarrow> string \<Rightarrow> string \<Rightarrow> 'p billing_store \<Rightarrow> ('p, unit) billing_op" where
  "bindCheckoutSubscription account conta live customer subscription key s =
     (let hit = (\<lambda>a. ac_id a = account \<and> of_conta conta live a \<and> ac_customerId a = Some customer \<and> ac_checkoutKey a = Some key)
      in if list_ex hit (bs_accounts s) \<and> subscription_taken live subscription hit s then (Inl UNEXPECTED, s)
         else (Inr (), map_accounts hit (\<lambda>a. (free_checkout_claim a)\<lparr>ac_subscriptionId := Some subscription\<rparr>) s))"

definition clearCheckoutClaim :: "string \<Rightarrow> bool \<Rightarrow> string \<Rightarrow> 'p billing_store \<Rightarrow> bool \<times> 'p billing_store" where
  "clearCheckoutClaim conta live key s =
     (let hit = (\<lambda>a. of_conta conta live a \<and> ac_checkoutKey a = Some key);
          s1 = map_accounts (\<lambda>a. hit a \<and> ac_status a = ACC_CHECKOUT_PENDING)
            (\<lambda>a. a\<lparr>ac_status := ACC_NOT_STARTED, ac_accessStatus := ACCESS_PENDING\<rparr>) s
      in (list_ex hit (bs_accounts s1), map_accounts hit (\<lambda>a. (free_checkout_claim a)
           \<lparr>ac_pendingPlanCode := None, ac_pendingChangeType := None, ac_pendingEffectiveAt := None\<rparr>) s1))"

definition map_sessions :: "(checkout_session \<Rightarrow> bool) \<Rightarrow> session_status \<Rightarrow> 'p billing_store \<Rightarrow> 'p billing_store" where
  "map_sessions P status s = s\<lparr>bs_sessions := map (\<lambda>c. if P c then c\<lparr>cs_status := status\<rparr> else c) (bs_sessions s)\<rparr>"

definition markCheckoutSessionExpired :: "string \<Rightarrow> bool \<Rightarrow> string \<Rightarrow> 'p billing_store \<Rightarrow> 'p billing_store" where
  "markCheckoutSessionExpired conta live key =
     map_sessions (\<lambda>c. cs_contaId c = conta \<and> cs_live c = live \<and> cs_key c = key \<and> cs_status c = CS_CREATED) CS_EXPIRED"

definition markCheckoutSessionCompleted :: "string \<Rightarrow> bool \<Rightarrow> string \<Rightarrow> 'p billing_store \<Rightarrow> 'p billing_store" where
  "markCheckoutSessionCompleted conta live session =
     map_sessions (\<lambda>c. cs_contaId c = conta \<and> cs_live c = live \<and> cs_sessionId c = session \<and> cs_status c \<noteq> CS_EXPIRED) CS_COMPLETED"

definition createCheckoutSession :: "checkout_session \<Rightarrow> 'p billing_store \<Rightarrow> 'p billing_store" where
  "createCheckoutSession c s =
     (if findCheckoutSessionByIdempotencyKey (cs_contaId c) (cs_live c) (cs_key c) s = None
      then s\<lparr>bs_sessions := bs_sessions s @ [c\<lparr>cs_status := CS_CREATED\<rparr>]\<rparr> else s)"

section \<open>The state of a subscription\<close>

text \<open>A field of an update is set or, when it is absent, kept.\<close>

datatype 'a patch = KEEP | SET 'a

fun patched :: "'a patch \<Rightarrow> 'a \<Rightarrow> 'a" where
  "patched KEEP old = old"
| "patched (SET new) old = new"

record account_snapshot =
  sp_contaId :: string
  sp_live :: bool
  sp_subscriptionId :: "string option"
  sp_operationId :: "string option"
  sp_claimToken :: "string option"
  sp_trialKey :: "string option patch"
  sp_lastEventCreatedAt :: "int option patch"
  sp_lastEventId :: "string option patch"

record change_finalization =
  fi_changeId :: string
  fi_contaId :: string
  fi_accountId :: string
  fi_live :: bool
  fi_subscriptionId :: string
  fi_priceId :: string
  fi_toPlan :: string
  fi_type :: plan_change_type
  fi_applied :: bool

record account_update =
  up_accountId :: string
  up_finalization :: "change_finalization option"
  up_snapshot :: "account_snapshot option"
  up_lease :: "(string \<times> string) option"
  up_status :: account_status
  up_planCode :: "string option"
  up_subscriptionId :: string
  up_priceId :: "string option"
  up_currentPeriodEnd :: "int option"
  up_cancelAtPeriodEnd :: bool
  up_trialEndsAt :: "int option"
  up_lastEventId :: string
  up_accessStatus :: "access_status option"
  up_gracePeriodEndsAt :: "int option patch"
  up_restrictedAt :: "int option patch"
  up_canceledAt :: "int option patch"
  up_lastPaymentFailedAt :: "int option patch"
  up_firstPaidAt :: "int option patch"
  up_lastSuccessfulPaymentAt :: "int option patch"
  up_paymentMethod :: "payment_method_status patch"
  up_restrictionReason :: "restriction_reason option patch"
  up_gracePeriodStartedAt :: "int option patch"
  up_lastEventCreatedAt :: "int option patch"
  up_trialWillEndNotifiedAt :: "int option patch"
  up_pendingPlanCode :: "string option patch"
  up_pendingChangeType :: "plan_change_type option patch"
  up_pendingEffectiveAt :: "int option patch"
  up_pendingOperationId :: "string option patch"

fun deriveAccessStatusFromStripeStatus :: "account_status \<Rightarrow> access_status" where
  "deriveAccessStatusFromStripeStatus ACC_ACTIVE = ACCESS_ACTIVE"
| "deriveAccessStatusFromStripeStatus ACC_TRIALING = ACCESS_ACTIVE"
| "deriveAccessStatusFromStripeStatus ACC_PAST_DUE = ACCESS_GRACE_PERIOD"
| "deriveAccessStatusFromStripeStatus ACC_UNPAID = ACCESS_RESTRICTED"
| "deriveAccessStatusFromStripeStatus ACC_PAUSED = ACCESS_RESTRICTED"
| "deriveAccessStatusFromStripeStatus ACC_CANCELED = ACCESS_CANCELED"
| "deriveAccessStatusFromStripeStatus ACC_INCOMPLETE_EXPIRED = ACCESS_CANCELED"
| "deriveAccessStatusFromStripeStatus _ = ACCESS_PENDING"

definition account_written :: "account_update \<Rightarrow> billing_account \<Rightarrow> billing_account" where
  "account_written u a =
     (let b = a\<lparr>ac_status := up_status u, ac_planCode := up_planCode u, ac_subscriptionId := Some (up_subscriptionId u),
           ac_priceId := up_priceId u, ac_currentPeriodEnd := up_currentPeriodEnd u,
           ac_cancelAtPeriodEnd := up_cancelAtPeriodEnd u, ac_trialEndsAt := up_trialEndsAt u,
           ac_accessStatus := (case up_accessStatus u of None \<Rightarrow> deriveAccessStatusFromStripeStatus (up_status u) | Some x \<Rightarrow> x),
           ac_gracePeriodEndsAt := patched (up_gracePeriodEndsAt u) (ac_gracePeriodEndsAt a),
           ac_restrictedAt := patched (up_restrictedAt u) (ac_restrictedAt a),
           ac_canceledAt := patched (up_canceledAt u) (ac_canceledAt a),
           ac_lastPaymentFailedAt := patched (up_lastPaymentFailedAt u) (ac_lastPaymentFailedAt a),
           ac_firstPaidAt := patched (up_firstPaidAt u) (ac_firstPaidAt a),
           ac_lastSuccessfulPaymentAt := patched (up_lastSuccessfulPaymentAt u) (ac_lastSuccessfulPaymentAt a),
           ac_paymentMethod := patched (up_paymentMethod u) (ac_paymentMethod a),
           ac_restrictionReason := patched (up_restrictionReason u) (ac_restrictionReason a),
           ac_gracePeriodStartedAt := patched (up_gracePeriodStartedAt u) (ac_gracePeriodStartedAt a),
           ac_lastEventCreatedAt := patched (up_lastEventCreatedAt u) (ac_lastEventCreatedAt a),
           ac_trialWillEndNotifiedAt := patched (up_trialWillEndNotifiedAt u) (ac_trialWillEndNotifiedAt a),
           ac_pendingPlanCode := patched (up_pendingPlanCode u) (ac_pendingPlanCode a),
           ac_pendingChangeType := patched (up_pendingChangeType u) (ac_pendingChangeType a),
           ac_pendingEffectiveAt := patched (up_pendingEffectiveAt u) (ac_pendingEffectiveAt a),
           ac_pendingOperationId := patched (up_pendingOperationId u) (ac_pendingOperationId a),
           ac_pendingClaimToken := (if up_pendingOperationId u = KEEP then ac_pendingClaimToken a else None),
           ac_lastEventId := Some (up_lastEventId u),
           ac_stateVersion := (if up_accessStatus u \<noteq> None \<and> up_accessStatus u \<noteq> Some (ac_accessStatus a)
             then ac_stateVersion a + 1 else ac_stateVersion a)\<rparr>
      in if up_subscriptionId u = [] then b else free_trial_claim b)"

definition lease_holds :: "account_update \<Rightarrow> 'p billing_store \<Rightarrow> bool" where
  "lease_holds u s \<longleftrightarrow> (case up_lease u of None \<Rightarrow> True
     | Some (i, w) \<Rightarrow> list_ex (\<lambda>r. ib_id r = i \<and> ib_workerId r = Some w \<and> ib_status r = IN_PROCESSING) (bs_inbox s))"

text \<open>An update that carries the date of its event is out of date when the account has seen a newer one.\<close>

definition outdated :: "account_update \<Rightarrow> billing_account \<Rightarrow> bool" where
  "outdated u a \<longleftrightarrow> (case (up_lastEventCreatedAt u, ac_lastEventCreatedAt a) of
     (SET (Some t), Some seen) \<Rightarrow> t < seen | _ \<Rightarrow> False)"

fun holds_if_given :: "'a patch \<Rightarrow> 'a \<Rightarrow> bool" where
  "holds_if_given KEEP x = True"
| "holds_if_given (SET y) x = (x = y)"

definition snapshot_holds :: "account_update \<Rightarrow> billing_account \<Rightarrow> bool" where
  "snapshot_holds u a \<longleftrightarrow> (case up_snapshot u of None \<Rightarrow> True
     | Some p \<Rightarrow> ac_contaId a = sp_contaId p \<and> ac_live a = sp_live p \<and> ac_subscriptionId a = sp_subscriptionId p \<and>
         ac_pendingOperationId a = sp_operationId p \<and> ac_pendingClaimToken a = sp_claimToken p \<and>
         holds_if_given (sp_trialKey p) (ac_trialKey a) \<and> holds_if_given (sp_lastEventCreatedAt p) (ac_lastEventCreatedAt a) \<and>
         holds_if_given (sp_lastEventId p) (ac_lastEventId a))"

definition finalizes :: "change_finalization \<Rightarrow> plan_change \<Rightarrow> bool" where
  "finalizes f c \<longleftrightarrow> pc_id c = fi_changeId f \<and> pc_contaId c = fi_contaId f \<and> pc_accountId c = fi_accountId f \<and> pc_live c = fi_live f \<and>
     pc_subscriptionId c = Some (fi_subscriptionId f) \<and> pc_priceId c = Some (fi_priceId f) \<and> pc_toPlan c = Some (fi_toPlan f) \<and>
     pc_type c = fi_type f \<and> (pc_status c = PC_PENDING_EFFECTIVE_DATE \<or> fi_type f = CHANGE_UPGRADE \<and> pc_status c = PC_PENDING_PAYMENT)"

definition cancels :: "string \<Rightarrow> plan_change \<Rightarrow> bool" where
  "cancels account c \<longleftrightarrow> pc_accountId c = account \<and> pc_type c = CHANGE_CANCEL_AT_PERIOD_END \<and> pc_status c = PC_PENDING_EFFECTIVE_DATE"

definition set_changes :: "(plan_change \<Rightarrow> bool) \<Rightarrow> change_status \<Rightarrow> plan_change list \<Rightarrow> plan_change list" where
  "set_changes P status = map (\<lambda>c. if P c then c\<lparr>pc_status := status\<rparr> else c)"

text \<open>A cancellation that is no longer pending at the provider is no longer pending here.\<close>

definition without_cancellation :: "account_update \<Rightarrow> 'p billing_store \<Rightarrow> 'p billing_store" where
  "without_cancellation u s =
     (if up_cancelAtPeriodEnd u then s
      else map_accounts (\<lambda>a. ac_id a = up_accountId u \<and> ac_pendingChangeType a = Some CHANGE_CANCEL_AT_PERIOD_END)
             (\<lambda>a. a\<lparr>ac_pendingChangeType := None, ac_pendingEffectiveAt := None\<rparr>)
             (s\<lparr>bs_changes := set_changes (cancels (up_accountId u)) PC_CANCELED (bs_changes s)\<rparr>))"

definition updateAccountFromStripeSubscription :: "account_update \<Rightarrow> 'p billing_store \<Rightarrow> ('p, billing_account) billing_op" where
  "updateAccountFromStripeSubscription u s =
     (let own = (\<lambda>a. ac_id a = up_accountId u)
      in if \<not> lease_holds u s then (Inl UNEXPECTED, s)
         else (case find own (bs_accounts s) of None \<Rightarrow> (Inl UNEXPECTED, s)
           | Some a \<Rightarrow>
               if outdated u a then (Inr a, s)
               else if \<not> snapshot_holds u a \<or> subscription_taken (ac_live a) (up_subscriptionId u) own s then (Inl UNEXPECTED, s)
               else let s1 = map_accounts own (account_written u) s
                 in (case up_finalization u of
                      None \<Rightarrow> refetched own (without_cancellation u s1)
                    | Some f \<Rightarrow>
                        if \<not> list_ex (finalizes f) (bs_changes s) then (Inl UNEXPECTED, s)
                        else refetched own (without_cancellation u (s1\<lparr>bs_changes :=
                               set_changes (finalizes f) (if fi_applied f then PC_APPLIED else PC_FAILED) (bs_changes s1)\<rparr>)))))"

section \<open>Invoices, issues and the audit log\<close>

record invoice_update =
  iu_contaId :: string
  iu_accountId :: string
  iu_live :: bool
  iu_id :: string
  iu_customerId :: string
  iu_subscriptionId :: "string option patch"
  iu_priceId :: "string option patch"
  iu_planCode :: "string option patch"
  iu_status :: invoice_status
  iu_amountDue :: int
  iu_amountPaid :: int
  iu_paidAt :: "int option patch"
  iu_failedAt :: "int option patch"
  iu_attemptCount :: int
  iu_nextPaymentAttempt :: "int option patch"
  iu_lastEventId :: string

definition invoice_of :: "invoice_update \<Rightarrow> platform_invoice \<Rightarrow> bool" where
  "invoice_of u i \<longleftrightarrow> pi_live i = iu_live u \<and> pi_id i = iu_id u"

definition fresh_invoice :: "invoice_update \<Rightarrow> platform_invoice" where
  "fresh_invoice u = \<lparr>pi_live = iu_live u, pi_id = iu_id u, pi_contaId = iu_contaId u, pi_accountId = iu_accountId u,
     pi_customerId = iu_customerId u, pi_subscriptionId = patched (iu_subscriptionId u) None,
     pi_priceId = patched (iu_priceId u) None, pi_planCode = patched (iu_planCode u) None, pi_status = iu_status u,
     pi_amountDue = iu_amountDue u, pi_amountPaid = iu_amountPaid u, pi_paidAt = patched (iu_paidAt u) None,
     pi_failedAt = patched (iu_failedAt u) None, pi_attemptCount = iu_attemptCount u,
     pi_nextPaymentAttempt = patched (iu_nextPaymentAttempt u) None, pi_lastEventId = iu_lastEventId u\<rparr>"

text \<open>A paid invoice stays paid, with the larger amount and its first date.\<close>

definition invoice_written :: "invoice_update \<Rightarrow> platform_invoice \<Rightarrow> platform_invoice" where
  "invoice_written u i =
     (let paid = (pi_status i = INV_PAID)
      in i\<lparr>pi_accountId := iu_accountId u, pi_customerId := iu_customerId u,
           pi_subscriptionId := patched (iu_subscriptionId u) (pi_subscriptionId i),
           pi_priceId := patched (iu_priceId u) (pi_priceId i), pi_planCode := patched (iu_planCode u) (pi_planCode i),
           pi_status := (if paid then INV_PAID else iu_status u), pi_amountDue := iu_amountDue u,
           pi_amountPaid := (if paid then max (pi_amountPaid i) (iu_amountPaid u) else iu_amountPaid u),
           pi_paidAt := (if paid \<and> pi_paidAt i \<noteq> None then pi_paidAt i else patched (iu_paidAt u) (pi_paidAt i)),
           pi_failedAt := (if paid then None else patched (iu_failedAt u) (pi_failedAt i)),
           pi_attemptCount := iu_attemptCount u,
           pi_nextPaymentAttempt := (if paid then None else patched (iu_nextPaymentAttempt u) (pi_nextPaymentAttempt i)),
           pi_lastEventId := iu_lastEventId u\<rparr>)"

definition upsertInvoice :: "invoice_update \<Rightarrow> 'p billing_store \<Rightarrow> ('p, unit) billing_op" where
  "upsertInvoice u s = (case find (invoice_of u) (bs_invoices s) of
       None \<Rightarrow> (Inr (), s\<lparr>bs_invoices := bs_invoices s @ [fresh_invoice u]\<rparr>)
     | Some i \<Rightarrow> if pi_contaId i \<noteq> iu_contaId u then (Inl (FAILED ''PLATFORM_BILLING_WEBHOOK_INVALID''), s)
         else (Inr (), s\<lparr>bs_invoices := map (\<lambda>i. if invoice_of u i then invoice_written u i else i) (bs_invoices s)\<rparr>))"

text \<open>An entry of an event is written once for each action.\<close>

definition createAuditLog :: "audit_entry \<Rightarrow> 'p billing_store \<Rightarrow> 'p billing_store" where
  "createAuditLog e s =
     (if au_event e \<noteq> None \<and> list_ex (\<lambda>x. au_event x = au_event e \<and> au_action x = au_action e) (bs_audit s) then s
      else s\<lparr>bs_audit := bs_audit s @ [e]\<rparr>)"

definition PAYMENT_ISSUES :: "string list" where
  "PAYMENT_ISSUES = [''FIRST_PAYMENT_INCOMPLETE'', ''PAYMENT_PAST_DUE'', ''PAYMENT_UNPAID'', ''GRACE_PERIOD_EXPIRED'',
     ''TRIAL_EXPIRED_WITHOUT_PAYMENT'', ''SUBSCRIPTION_RETRIEVE_FAILED'']"

definition resolveOpenIssuesForPaidAccount :: "string \<Rightarrow> string \<Rightarrow> bool \<Rightarrow> 'p billing_store \<Rightarrow> 'p billing_store" where
  "resolveOpenIssuesForPaidAccount conta account live s =
     (let hit = (\<lambda>x. is_contaId x = Some conta \<and> is_accountId x = Some account \<and> is_live x = live \<and> is_status x = ISSUE_OPEN \<and>
            is_code x \<in> set PAYMENT_ISSUES)
      in if list_ex hit (bs_issues s) then
           createAuditLog \<lparr>au_contaId = conta, au_accountId = account, au_action = ''PLATFORM_BILLING_PAYMENT_ISSUES_RESOLVED'',
              au_event = None, au_entityId = Some account\<rparr>
             (s\<lparr>bs_issues := map (\<lambda>x. if hit x then x\<lparr>is_status := ISSUE_RESOLVED\<rparr> else x) (bs_issues s)\<rparr>)
         else s)"

end
