(* ===== verification/PlatformWebhooks.thy ===== *)
theory PlatformWebhooks
  imports PlatformStore
begin

text \<open>
  The handlers of the provider's events (\<^verbatim>\<open>packages/platform-billing/src/webhooks.ts\<close>): checkouts, subscriptions and
  invoices of a school's subscription to the platform. An object of the provider is the record of the values the readers
  of that file take from its JSON. What the provider answers to a query is a parameter, the gateway; \<open>None\<close> is a query
  that fails. An operation returns its result and the store it leaves, also when it fails half-way.
\<close>

section \<open>The objects of the provider\<close>

type_synonym metadata = "string \<Rightarrow> string option"

record invoice_line =
  il_prorated :: bool
  il_price :: "string option"

record stripe_object =
  so_id :: "string option"
  so_customer :: "string option"
  so_subscription :: "string option"
  so_metadata :: metadata
  so_mode :: "string option"
  so_status :: "string option"
  so_currency :: "string option"
  so_livemode :: "bool option"
  so_priceId :: "string option"
  so_lines :: "invoice_line list"
  so_periodEnd :: "int option"
  so_trialEnd :: "int option"
  so_canceledAt :: "int option"
  so_paidAt :: "int option"
  so_nextPaymentAttempt :: "int option"
  so_cancelAtPeriodEnd :: bool
  so_pendingUpdate :: bool
  so_paymentMethod :: payment_method_status
  so_amountDue :: "int option"
  so_amountPaid :: "int option"
  so_attemptCount :: "int option"

record provider_event =
  ev_id :: string
  ev_type :: string
  ev_created :: "int option"
  ev_object :: stripe_object

record subscription_record =
  sr_status :: string
  sr_priceId :: "string option"
  sr_currentPeriodEnd :: "int option"
  sr_cancelAtPeriodEnd :: bool
  sr_trialEndsAt :: "int option"
  sr_canceledAt :: "int option"
  sr_pendingUpdateId :: "string option"

record subscription_snapshot =
  ss_id :: string
  ss_customerId :: "string option"
  ss_status :: string
  ss_livemode :: bool
  ss_metadata :: metadata
  ss_priceIds :: "string list"
  ss_currentPeriodEnd :: "int option"
  ss_cancelAtPeriodEnd :: bool
  ss_trialEndsAt :: "int option"

record remote_session =
  rs_id :: string
  rs_status :: "string option"
  rs_livemode :: bool
  rs_customerId :: "string option"
  rs_clientReferenceId :: "string option"
  rs_metadata :: metadata
  rs_priceIds :: "string list"
  rs_subscriptionId :: "string option"

record gateway =
  gw_subscription :: "string \<Rightarrow> subscription_record option"
  gw_snapshot :: "string \<Rightarrow> subscription_snapshot option"
  gw_session :: "string \<Rightarrow> remote_session option"
  gw_latestInvoice :: "string \<Rightarrow> stripe_object option option"
  gw_subscriptions :: "string \<Rightarrow> (subscription_snapshot list \<times> bool) option"
  gw_cancel :: "string \<Rightarrow> string \<Rightarrow> bool"

text \<open>The input of a handler; \<open>wi_source\<close> is the environment of the process.\<close>

record webhook_input =
  wi_event :: provider_event
  wi_live :: bool
  wi_source :: "string \<Rightarrow> string option"
  wi_worker :: "string option"
  wi_inbox :: "string option"
  wi_now :: int

fun mapSubscriptionStatus :: "string option \<Rightarrow> account_status" where
  "mapSubscriptionStatus (Some s) =
     (if s = ''active'' then ACC_ACTIVE else if s = ''trialing'' then ACC_TRIALING else if s = ''past_due'' then ACC_PAST_DUE
      else if s = ''canceled'' then ACC_CANCELED else if s = ''incomplete'' then ACC_INCOMPLETE
      else if s = ''incomplete_expired'' then ACC_INCOMPLETE_EXPIRED else if s = ''unpaid'' then ACC_UNPAID
      else if s = ''paused'' then ACC_PAUSED else ACC_UNKNOWN)"
| "mapSubscriptionStatus None = ACC_UNKNOWN"

fun mapInvoiceStatus :: "string option \<Rightarrow> invoice_status" where
  "mapInvoiceStatus (Some s) =
     (if s = ''draft'' then INV_DRAFT else if s = ''open'' then INV_OPEN else if s = ''paid'' then INV_PAID
      else if s = ''void'' then INV_VOID else if s = ''uncollectible'' then INV_UNCOLLECTIBLE else INV_UNKNOWN)"
| "mapInvoiceStatus None = INV_UNKNOWN"

definition mapAccessStatusFromSubscription :: "account_status \<Rightarrow> access_status" where
  "mapAccessStatusFromSubscription status =
     (if status = ACC_ACTIVE \<or> status = ACC_TRIALING then ACCESS_ACTIVE
      else if status = ACC_PAST_DUE then ACCESS_GRACE_PERIOD
      else if status = ACC_UNPAID \<or> status = ACC_PAUSED then ACCESS_RESTRICTED
      else if status = ACC_CANCELED \<or> status = ACC_INCOMPLETE_EXPIRED then ACCESS_CANCELED else ACCESS_PENDING)"

definition shouldCommitPlanFromSubscriptionStatus :: "account_status \<Rightarrow> bool" where
  "shouldCommitPlanFromSubscriptionStatus status \<longleftrightarrow>
     status = ACC_ACTIVE \<or> status = ACC_TRIALING \<or> status = ACC_PAST_DUE \<or> status = ACC_UNPAID \<or> status = ACC_PAUSED"

definition resolveKnownPriceId :: "string \<Rightarrow> (string \<Rightarrow> string option) \<Rightarrow> string option \<Rightarrow> plan_error + string" where
  "resolveKnownPriceId planCode source customPriceId =
     (if planCode = ''CUSTOM'' \<and> isStripePriceId customPriceId then Inr (the customPriceId)
      else resolveStripePriceId (Some planCode) source)"

fun plan_error_code :: "plan_error \<Rightarrow> string" where
  "plan_error_code PLATFORM_PLAN_INVALID = ''PLATFORM_PLAN_INVALID''"
| "plan_error_code PLATFORM_PLAN_NOT_PUBLIC = ''PLATFORM_PLAN_NOT_PUBLIC''"
| "plan_error_code PLATFORM_PRICE_MISSING = ''PLATFORM_PRICE_MISSING''"
| "plan_error_code PLATFORM_PRICE_INVALID = ''PLATFORM_PRICE_INVALID''"
| "plan_error_code PLATFORM_PRICE_UNKNOWN = ''PLATFORM_PRICE_UNKNOWN''"
| "plan_error_code STRIPE_CONFIG_INVALID = ''STRIPE_CONFIG_INVALID''"

definition environment_name :: "bool \<Rightarrow> string" where
  "environment_name live = (if live then ''LIVE'' else ''TEST'')"

definition resolvePlanCodeSafely :: "string \<Rightarrow> webhook_input \<Rightarrow> billing_account \<Rightarrow> string option" where
  "resolvePlanCodeSafely priceId i a =
     (case resolvePlanCodeFromStripePriceId priceId ((wi_source i)(''STRIPE_ENVIRONMENT'' := Some (environment_name (wi_live i)))) of
        Inr (code, live) \<Rightarrow> Some code
      | Inl e \<Rightarrow> if (ac_planCode a = Some ''CUSTOM'' \<or> ac_pendingPlanCode a = Some ''CUSTOM'') \<and> ac_priceId a = Some priceId
          then Some ''CUSTOM'' else None)"

text \<open>The price of an invoice: that of its lines which are no proration, if they name only one.\<close>

definition readInvoicePriceId :: "stripe_object \<Rightarrow> string option \<times> bool" where
  "readInvoicePriceId invoice =
     (let prices = remdups (map the (filter truthy (map il_price (filter (\<lambda>l. \<not> il_prorated l) (so_lines invoice)))))
      in (case prices of [p] \<Rightarrow> Some p | _ \<Rightarrow> None, 1 < length prices))"

definition isPaymentPaidSubscriptionEligible :: "billing_account \<Rightarrow> bool" where
  "isPaymentPaidSubscriptionEligible a \<longleftrightarrow> (ac_status a = ACC_ACTIVE \<or> ac_status a = ACC_PAST_DUE) \<and> has_paid_history a"

definition resolveInvoiceAuditAction :: "string \<Rightarrow> string" where
  "resolveInvoiceAuditAction eventType =
     (if eventType = ''invoice.payment_failed'' \<or> eventType = ''invoice.payment_action_required''
      then ''PLATFORM_BILLING_PAYMENT_REQUIRES_ATTENTION''
      else if eventType = ''invoice.paid'' \<or> eventType = ''invoice.payment_succeeded'' then ''PLATFORM_BILLING_INVOICE_PAID''
      else ''PLATFORM_BILLING_INVOICE_SYNCED'')"

definition audited :: "webhook_input \<Rightarrow> billing_account \<Rightarrow> string \<Rightarrow> string option \<Rightarrow> 'p billing_store \<Rightarrow> 'p billing_store" where
  "audited i a action entity = createAuditLog \<lparr>au_contaId = ac_contaId a, au_accountId = ac_id a, au_action = action,
     au_event = Some (wi_live i, ev_id (wi_event i)), au_entityId = entity\<rparr>"

definition account_snapshot_of :: "billing_account \<Rightarrow> account_snapshot" where
  "account_snapshot_of a = \<lparr>sp_contaId = ac_contaId a, sp_live = ac_live a, sp_subscriptionId = ac_subscriptionId a,
     sp_operationId = ac_pendingOperationId a, sp_claimToken = ac_pendingClaimToken a, sp_trialKey = KEEP,
     sp_lastEventCreatedAt = SET (ac_lastEventCreatedAt a), sp_lastEventId = SET (ac_lastEventId a)\<rparr>"

text \<open>An update that keeps everything of the account but what the caller sets.\<close>

definition kept_update :: "webhook_input \<Rightarrow> billing_account \<Rightarrow> string \<Rightarrow> account_update" where
  "kept_update i a subscription = \<lparr>up_accountId = ac_id a, up_finalization = None, up_snapshot = Some (account_snapshot_of a),
     up_lease = None, up_status = ac_status a, up_planCode = ac_planCode a, up_subscriptionId = subscription,
     up_priceId = ac_priceId a, up_currentPeriodEnd = ac_currentPeriodEnd a, up_cancelAtPeriodEnd = ac_cancelAtPeriodEnd a,
     up_trialEndsAt = ac_trialEndsAt a, up_lastEventId = ev_id (wi_event i), up_accessStatus = Some (ac_accessStatus a),
     up_gracePeriodEndsAt = KEEP, up_restrictedAt = KEEP, up_canceledAt = KEEP, up_lastPaymentFailedAt = KEEP,
     up_firstPaidAt = KEEP, up_lastSuccessfulPaymentAt = KEEP, up_paymentMethod = KEEP, up_restrictionReason = KEEP,
     up_gracePeriodStartedAt = KEEP, up_lastEventCreatedAt = KEEP, up_trialWillEndNotifiedAt = KEEP,
     up_pendingPlanCode = KEEP, up_pendingChangeType = KEEP, up_pendingEffectiveAt = KEEP, up_pendingOperationId = KEEP\<rparr>"

definition lease_of :: "webhook_input \<Rightarrow> (string \<times> string) option" where
  "lease_of i = (if truthy (wi_worker i) \<and> truthy (wi_inbox i) then Some (the (wi_inbox i), the (wi_worker i)) else None)"

text \<open>The status an account is held in while a reactivation has no verified payment.\<close>

definition held_status :: "billing_account \<Rightarrow> account_status" where
  "held_status a = (if ac_status a = ACC_ACTIVE then ACC_PAUSED else ac_status a)"

definition held_access :: "account_status \<Rightarrow> billing_account \<Rightarrow> access_status" where
  "held_access status a = (if status = ACC_PAUSED then ACCESS_RESTRICTED else if status = ACC_CANCELED then ACCESS_CANCELED
     else ac_accessStatus a)"

section \<open>Subscriptions\<close>

text \<open>The account an event of a subscription is about, created when the subscription names a school that has none.\<close>

definition subscription_account :: "webhook_input \<Rightarrow> string \<Rightarrow> string \<Rightarrow> string \<Rightarrow> 'p billing_store \<Rightarrow>
    ('p, billing_account option) billing_op" where
  "subscription_account i fresh subscriptionId customerId s =
     (let conta = so_metadata (ev_object (wi_event i)) ''contaId''
      in case findAccountByStripeSubscriptionId (wi_live i) subscriptionId s of
           Some a \<Rightarrow> (Inr (Some a), s)
         | None \<Rightarrow> (case findAccountByStripeCustomerId (wi_live i) customerId s of
             Some a \<Rightarrow> (Inr (Some a), s)
           | None \<Rightarrow> if \<not> truthy conta then (Inr None, s)
               else if \<not> contaExists (the conta) s then (Inl IGNORED, s)
               else then_run (createAccount fresh (the conta) (wi_live i) customerId s) (\<lambda>a s. (Inr (Some a), s))))"

text \<open>Stripe's time stamps have seconds: on a tie the object is read again from the provider.\<close>

definition canonical_state :: "gateway \<Rightarrow> webhook_input \<Rightarrow> string \<Rightarrow> billing_account \<Rightarrow> stripe_object option" where
  "canonical_state g i subscriptionId a =
     (let o1 = ev_object (wi_event i)
      in if ev_created (wi_event i) \<noteq> None \<and> ac_lastEventCreatedAt a = ev_created (wi_event i) then
           map_option (\<lambda>r. o1\<lparr>so_status := Some (sr_status r), so_cancelAtPeriodEnd := sr_cancelAtPeriodEnd r,
             so_periodEnd := sr_currentPeriodEnd r, so_trialEnd := sr_trialEndsAt r, so_canceledAt := sr_canceledAt r,
             so_pendingUpdate := truthy (sr_pendingUpdateId r), so_priceId := sr_priceId r\<rparr>) (gw_subscription g subscriptionId)
         else Some o1)"

definition unpaid_reactivation :: "webhook_input \<Rightarrow> billing_account \<Rightarrow> bool" where
  "unpaid_reactivation i a \<longleftrightarrow> ac_pendingChangeType a = Some CHANGE_REACTIVATE \<or>
     so_metadata (ev_object (wi_event i)) ''flow'' = Some ''reactivation''"

text \<open>An active subscription whose first payment is not verified yet grants nothing.\<close>

definition hold_until_paid ::
    "webhook_input \<Rightarrow> string \<Rightarrow> string option \<Rightarrow> billing_account \<Rightarrow> 'p billing_store \<Rightarrow> ('p, string option) billing_op" where
  "hold_until_paid i subscriptionId planCode a s =
     (let reactivation = unpaid_reactivation i a;
          status = (if reactivation \<and> ac_status a = ACC_ACTIVE then ACC_PAUSED else ac_status a);
          access = held_access status a;
          write = status \<noteq> ac_status a \<or> access \<noteq> ac_accessStatus a \<or> ac_subscriptionId a \<noteq> Some subscriptionId \<or>
            reactivation \<and> ac_pendingChangeType a \<noteq> Some CHANGE_REACTIVATE;
          u = (kept_update i a subscriptionId)\<lparr>up_status := status, up_accessStatus := Some access,
            up_lastEventCreatedAt := SET (ev_created (wi_event i)),
            up_pendingChangeType := (if reactivation then SET (Some CHANGE_REACTIVATE) else KEEP),
            up_pendingPlanCode := (if reactivation
              then SET (if ac_pendingPlanCode a = None then planCode else ac_pendingPlanCode a) else KEEP)\<rparr>
      in then_run (if write then updateAccountFromStripeSubscription u s else (Inr a, s)) (\<lambda>b s.
           (Inr (Some (ac_contaId a)), audited i a ''PLATFORM_BILLING_ACTIVATION_WAITING_FOR_PAID_INVOICE'' (Some subscriptionId) s)))"

text \<open>Whether the event confirms the pending change of plan, or that the provider let it expire; asking for the price of the
  pending plan can fail.\<close>

definition confirms_applied :: "webhook_input \<Rightarrow> billing_account \<Rightarrow> string option \<Rightarrow> account_status \<Rightarrow> string option \<Rightarrow> plan_error + bool" where
  "confirms_applied i a planCode status priceId =
     (if truthy (ac_pendingPlanCode a) \<and> ac_pendingChangeType a \<noteq> Some CHANGE_REACTIVATE \<and>
         shouldCommitPlanFromSubscriptionStatus status \<and> planCode = ac_pendingPlanCode a
      then (case resolveKnownPriceId (the (ac_pendingPlanCode a)) (wi_source i) (ac_priceId a) of
          Inl e \<Rightarrow> Inl e | Inr p \<Rightarrow> Inr (priceId = Some p))
      else Inr False)"

definition confirms_expired :: "webhook_input \<Rightarrow> billing_account \<Rightarrow> bool \<Rightarrow> string option \<Rightarrow> bool" where
  "confirms_expired i a pendingUpdate priceId \<longleftrightarrow>
     ev_type (wi_event i) = ''customer.subscription.pending_update_expired'' \<and> truthy (ac_pendingPlanCode a) \<and>
     ac_pendingChangeType a = Some CHANGE_UPGRADE \<and> truthy (ac_pendingOperationId a) \<and>
     so_metadata (ev_object (wi_event i)) ''planChangeId'' = ac_pendingOperationId a \<and> \<not> pendingUpdate \<and>
     truthy priceId \<and> priceId = ac_priceId a"

definition plan_finalization ::
    "webhook_input \<Rightarrow> billing_account \<Rightarrow> string \<Rightarrow> bool \<Rightarrow> bool \<Rightarrow> plan_error + change_finalization option" where
  "plan_finalization i a subscriptionId applied expired =
     (if truthy (ac_pendingOperationId a) \<and> truthy (ac_pendingPlanCode a) \<and>
         (ac_pendingChangeType a = Some CHANGE_UPGRADE \<or> ac_pendingChangeType a = Some CHANGE_DOWNGRADE) \<and> (applied \<or> expired)
      then (case resolveKnownPriceId (the (ac_pendingPlanCode a)) (wi_source i) (ac_priceId a) of
          Inl e \<Rightarrow> Inl e
        | Inr p \<Rightarrow> Inr (Some \<lparr>fi_changeId = the (ac_pendingOperationId a), fi_contaId = ac_contaId a, fi_accountId = ac_id a,
            fi_live = wi_live i, fi_subscriptionId = subscriptionId, fi_priceId = p, fi_toPlan = the (ac_pendingPlanCode a),
            fi_type = the (ac_pendingChangeType a), fi_applied = applied\<rparr>))
      else Inr None)"

text \<open>Taking over the state the provider reports.\<close>

definition sync_subscription ::
    "webhook_input \<Rightarrow> string \<Rightarrow> stripe_object \<Rightarrow> string option \<Rightarrow> billing_account \<Rightarrow> 'p billing_store \<Rightarrow> ('p, string option) billing_op" where
  "sync_subscription i subscriptionId state planCode a s =
     (let priceId = so_priceId state; status = mapSubscriptionStatus (so_status state);
          commit = shouldCommitPlanFromSubscriptionStatus status;
          expired = confirms_expired i a (so_pendingUpdate state) priceId
      in case confirms_applied i a planCode status priceId of
           Inl e \<Rightarrow> (Inl (FAILED (plan_error_code e)), s)
         | Inr applied \<Rightarrow> (case plan_finalization i a subscriptionId applied expired of
             Inl e \<Rightarrow> (Inl (FAILED (plan_error_code e)), s)
           | Inr fin \<Rightarrow>
               let clear = truthy (ac_pendingPlanCode a) \<and> (applied \<or> expired);
                   u = (kept_update i a subscriptionId)\<lparr>up_status := status,
                     up_accessStatus := Some (mapAccessStatusFromSubscription status),
                     up_planCode := (if commit then planCode else ac_planCode a), up_lease := lease_of i,
                     up_priceId := (if commit then priceId else ac_priceId a), up_currentPeriodEnd := so_periodEnd state,
                     up_cancelAtPeriodEnd := (status \<noteq> ACC_CANCELED \<and> status \<noteq> ACC_INCOMPLETE_EXPIRED \<and> so_cancelAtPeriodEnd state),
                     up_trialEndsAt := so_trialEnd state, up_canceledAt := SET (so_canceledAt state),
                     up_restrictedAt := SET (if status = ACC_PAUSED then Some (wi_now i) else None),
                     up_trialWillEndNotifiedAt := (if ev_type (wi_event i) = ''customer.subscription.trial_will_end''
                       then SET (Some (wi_now i)) else KEEP),
                     up_paymentMethod := SET (so_paymentMethod (ev_object (wi_event i))),
                     up_lastEventCreatedAt := SET (ev_created (wi_event i)),
                     up_pendingPlanCode := (if clear then SET None else KEEP),
                     up_pendingChangeType := (if clear then SET None else KEEP),
                     up_pendingEffectiveAt := (if clear then SET None else KEEP),
                     up_pendingOperationId := (if clear then SET None else KEEP), up_finalization := fin\<rparr>
               in then_run (updateAccountFromStripeSubscription u s) (\<lambda>b s.
                    (Inr (Some (ac_contaId b)), audited i b ''PLATFORM_BILLING_SUBSCRIPTION_SYNCED'' (Some subscriptionId) s))))"

definition custom_mismatch :: "stripe_object \<Rightarrow> string option \<Rightarrow> billing_account \<Rightarrow> bool" where
  "custom_mismatch state planCode a \<longleftrightarrow> so_metadata state ''planCode'' = Some ''CUSTOM'' \<and>
     (\<not> truthy planCode \<or> ac_planCode a \<noteq> Some ''CUSTOM'' \<and> ac_pendingPlanCode a \<noteq> Some ''CUSTOM'' \<or>
      ac_priceId a \<noteq> so_priceId state)"

definition subscription_event ::
    "gateway \<Rightarrow> webhook_input \<Rightarrow> string \<Rightarrow> billing_account \<Rightarrow> 'p billing_store \<Rightarrow> ('p, string option) billing_op" where
  "subscription_event g i subscriptionId a s =
     (let conta = so_metadata (ev_object (wi_event i)) ''contaId''
      in if truthy conta \<and> Some (ac_contaId a) \<noteq> conta then (Inl (FAILED ''PLATFORM_BILLING_WEBHOOK_INVALID''), s)
         else if truthy (ac_subscriptionId a) \<and> ac_subscriptionId a \<noteq> Some subscriptionId then (Inr (Some (ac_contaId a)), s)
         else (case canonical_state g i subscriptionId a of None \<Rightarrow> (Inl UNEXPECTED, s)
           | Some state \<Rightarrow>
               let planCode = (if truthy (so_priceId state) then resolvePlanCodeSafely (the (so_priceId state)) i a else ac_planCode a)
               in if custom_mismatch state planCode a then (Inl (FAILED ''PLATFORM_BILLING_WEBHOOK_INVALID''), s)
                  else if mapSubscriptionStatus (so_status state) = ACC_ACTIVE \<and>
                      (ac_status a = ACC_CHECKOUT_PENDING \<or> unpaid_reactivation i a)
                  then hold_until_paid i subscriptionId planCode a s
                  else sync_subscription i subscriptionId state planCode a s))"

definition processSubscriptionEvent ::
    "gateway \<Rightarrow> string \<Rightarrow> webhook_input \<Rightarrow> 'p billing_store \<Rightarrow> ('p, string option) billing_op" where
  "processSubscriptionEvent g fresh i s =
     (let o1 = ev_object (wi_event i); conta = so_metadata o1 ''contaId''
      in if \<not> truthy (so_id o1) \<or> \<not> truthy (so_customer o1) then (Inr conta, s)
         else then_run (subscription_account i fresh (the (so_id o1)) (the (so_customer o1)) s) (\<lambda>account s.
           case account of None \<Rightarrow> (Inr conta, s) | Some a \<Rightarrow> subscription_event g i (the (so_id o1)) a s))"

section \<open>Checking a payment against its checkout\<close>

definition readString :: "string option \<Rightarrow> string option" where
  "readString v = (case v of None \<Rightarrow> None | Some t \<Rightarrow> if js_trim t = [] then None else Some t)"

text \<open>The bound subscription as the provider has it, when it is the active one of the school under the expected price;
  the outer option is the failure of the query.\<close>

definition getCanonicalActiveBoundSubscription ::
    "gateway \<Rightarrow> bool \<Rightarrow> string option \<Rightarrow> string \<Rightarrow> billing_account \<Rightarrow> string option \<Rightarrow> subscription_snapshot option option" where
  "getCanonicalActiveBoundSubscription g live subscriptionId customerId a expectedPrice =
     (if \<not> truthy subscriptionId \<or> \<not> truthy expectedPrice \<or> ac_customerId a \<noteq> Some customerId then Some None
      else (case gw_snapshot g (the subscriptionId) of None \<Rightarrow> None
        | Some x \<Rightarrow> Some (if ss_id x = the subscriptionId \<and> ss_customerId x = Some customerId \<and> ss_status x = ''active'' \<and>
              ss_livemode x = live \<and> ss_metadata x ''contaId'' = Some (ac_contaId a) \<and>
              ss_metadata x ''billingContext'' = Some ''platform'' \<and>
              ss_metadata x ''planCode'' = (if ac_pendingPlanCode a = None then ac_planCode a else ac_pendingPlanCode a) \<and>
              ss_priceIds x = [the expectedPrice] then Some x else None)))"

record reactivation_origin =
  ro_subscriptionId :: string
  ro_planCode :: string
  ro_priceId :: string

definition readReactivationOrigin :: "metadata \<Rightarrow> reactivation_origin option" where
  "readReactivationOrigin m =
     (case (readString (m ''reactivationFromSubscriptionId''), readString (m ''reactivationFromPlanCode''),
         readString (m ''reactivationFromPriceId''), readString (m ''checkoutRequestKey'')) of
        (Some sub, Some plan, Some price, Some key) \<Rightarrow>
          if m ''flow'' = Some ''reactivation'' \<and> isPlatformPlanCode (Some plan)
          then Some \<lparr>ro_subscriptionId = sub, ro_planCode = plan, ro_priceId = price\<rparr> else None
      | _ \<Rightarrow> None)"

definition holdReactivationAccountForReconciliation ::
    "webhook_input \<Rightarrow> billing_account \<Rightarrow> string \<Rightarrow> string option \<Rightarrow> 'p billing_store \<Rightarrow> ('p, unit) billing_op" where
  "holdReactivationAccountForReconciliation i a subscriptionId planCode s =
     (let status = held_status a; access = held_access status a;
          write = status \<noteq> ac_status a \<or> access \<noteq> ac_accessStatus a \<or> ac_pendingChangeType a \<noteq> Some CHANGE_REACTIVATE \<or>
            truthy planCode \<and> ac_pendingPlanCode a \<noteq> planCode;
          u = (kept_update i a subscriptionId)\<lparr>up_status := status, up_accessStatus := Some access,
            up_restrictedAt := SET (if status = ACC_PAUSED \<and> ac_restrictedAt a = None then Some (wi_now i) else ac_restrictedAt a),
            up_pendingPlanCode := (if planCode = None then KEEP else SET planCode),
            up_pendingChangeType := SET (Some CHANGE_REACTIVATE)\<rparr>
      in then_run (if write then updateAccountFromStripeSubscription u s else (Inr a, s)) (\<lambda>b s.
           (Inr (), audited i a ''PLATFORM_BILLING_REACTIVATION_RECONCILIATION_REQUIRED'' (Some subscriptionId) s)))"

definition processing_failed :: billing_error where
  "processing_failed = FAILED ''PLATFORM_BILLING_WEBHOOK_PROCESSING_FAILED''"

definition webhook_invalid :: billing_error where
  "webhook_invalid = FAILED ''PLATFORM_BILLING_WEBHOOK_INVALID''"

text \<open>A checkout of the school under the request key of the paid subscription, first as it is stored, then as the provider
  has it. The question for the configured price comes last but one and can fail.\<close>

definition local_checkout_matches ::
    "webhook_input \<Rightarrow> billing_account \<Rightarrow> string \<Rightarrow> string \<Rightarrow> string option \<Rightarrow> string \<Rightarrow> checkout_session \<Rightarrow> plan_error + bool" where
  "local_checkout_matches i a customerId key planCode priceId c =
     (if cs_accountId c \<noteq> ac_id a \<or> cs_customerId c \<noteq> customerId \<or> cs_key c \<noteq> key \<or> cs_status c = CS_EXPIRED \<or>
         Some (cs_planCode c) \<noteq> planCode \<or> cs_priceId c \<noteq> priceId then Inr False
      else (case resolveKnownPriceId (cs_planCode c) (wi_source i) (Some (cs_priceId c)) of Inl e \<Rightarrow> Inl e
        | Inr p \<Rightarrow> Inr (p = priceId \<and> cs_cancelKey c = Some key)))"

definition remote_checkout_matches ::
    "webhook_input \<Rightarrow> billing_account \<Rightarrow> string \<Rightarrow> string \<Rightarrow> string \<Rightarrow> string \<Rightarrow> string option \<Rightarrow> string \<Rightarrow> checkout_session \<Rightarrow>
      remote_session \<Rightarrow> bool" where
  "remote_checkout_matches i a subscriptionId customerId flow key planCode priceId c r \<longleftrightarrow>
     rs_id r = cs_sessionId c \<and> rs_status r = Some ''complete'' \<and> rs_livemode r = wi_live i \<and> rs_customerId r = Some customerId \<and>
     rs_clientReferenceId r = Some (ac_contaId a) \<and> rs_subscriptionId r = Some subscriptionId \<and> rs_priceIds r = [priceId] \<and>
     rs_metadata r ''contaId'' = Some (ac_contaId a) \<and> rs_metadata r ''billingContext'' = Some ''platform'' \<and>
     rs_metadata r ''flow'' = Some flow \<and> rs_metadata r ''checkoutRequestKey'' = Some key \<and> rs_metadata r ''planCode'' = planCode"

definition checkout_lineage ::
    "gateway \<Rightarrow> webhook_input \<Rightarrow> billing_account \<Rightarrow> string \<Rightarrow> string \<Rightarrow> string \<Rightarrow> metadata \<Rightarrow> string \<Rightarrow> (metadata \<Rightarrow> bool) \<Rightarrow>
      'p billing_store \<Rightarrow> billing_error option" where
  "checkout_lineage g i a subscriptionId customerId flow m priceId origin s =
     (case readString (m ''checkoutRequestKey'') of None \<Rightarrow> Some processing_failed
      | Some key \<Rightarrow> if m ''flow'' \<noteq> Some flow then Some processing_failed
          else (case findCheckoutSessionByIdempotencyKey (ac_contaId a) (wi_live i) key s of None \<Rightarrow> Some processing_failed
            | Some c \<Rightarrow> (case local_checkout_matches i a customerId key (m ''planCode'') priceId c of
                Inl e \<Rightarrow> Some (FAILED (plan_error_code e))
              | Inr False \<Rightarrow> Some processing_failed
              | Inr True \<Rightarrow> (case gw_session g (cs_sessionId c) of None \<Rightarrow> Some UNEXPECTED
                  | Some r \<Rightarrow> if remote_checkout_matches i a subscriptionId customerId flow key (m ''planCode'') priceId c r \<and>
                      origin (rs_metadata r) then None else Some processing_failed))))"

definition origin_named :: "reactivation_origin \<Rightarrow> metadata \<Rightarrow> bool" where
  "origin_named o1 m \<longleftrightarrow> m ''reactivationFromSubscriptionId'' = Some (ro_subscriptionId o1) \<and>
     m ''reactivationFromPlanCode'' = Some (ro_planCode o1) \<and> m ''reactivationFromPriceId'' = Some (ro_priceId o1)"

definition validateReactivationCheckoutLineage ::
    "gateway \<Rightarrow> webhook_input \<Rightarrow> billing_account \<Rightarrow> string \<Rightarrow> string \<Rightarrow> metadata \<Rightarrow> string \<Rightarrow> reactivation_origin \<Rightarrow>
      'p billing_store \<Rightarrow> billing_error option" where
  "validateReactivationCheckoutLineage g i a subscriptionId customerId m priceId o1 s =
     checkout_lineage g i a subscriptionId customerId ''reactivation'' m priceId (\<lambda>r. origin_named o1 r \<and> origin_named o1 m) s"

definition validatePaidSubscriptionCheckoutLineage ::
    "gateway \<Rightarrow> webhook_input \<Rightarrow> billing_account \<Rightarrow> string \<Rightarrow> string \<Rightarrow> metadata \<Rightarrow> string \<Rightarrow> 'p billing_store \<Rightarrow>
      billing_error option" where
  "validatePaidSubscriptionCheckoutLineage g i a subscriptionId customerId m priceId s =
     checkout_lineage g i a subscriptionId customerId ''subscription'' m priceId (\<lambda>r. True) s"

definition owned_subscription :: "webhook_input \<Rightarrow> billing_account \<Rightarrow> string option \<Rightarrow> string \<Rightarrow> subscription_snapshot \<Rightarrow> bool" where
  "owned_subscription i a planCode priceId x \<longleftrightarrow> ss_customerId x = ac_customerId a \<and> ss_livemode x = wi_live i \<and>
     ss_metadata x ''contaId'' = Some (ac_contaId a) \<and> ss_metadata x ''billingContext'' = Some ''platform'' \<and>
     ss_metadata x ''planCode'' = planCode \<and> ss_priceIds x = [priceId]"

text \<open>A paid reactivation cancels the paused trial it replaces, once the provider shows both under the same lineage.\<close>

definition cancelSupersededPausedTrialSubscriptions ::
    "gateway \<Rightarrow> webhook_input \<Rightarrow> billing_account \<Rightarrow> string \<Rightarrow> string option \<Rightarrow> string \<Rightarrow> reactivation_origin \<Rightarrow> billing_error option" where
  "cancelSupersededPausedTrialSubscriptions g i a newId newPlan newPrice o1 =
     (case resolveKnownPriceId (ro_planCode o1) (wi_source i) (ac_priceId a) of
        Inl e \<Rightarrow> Some (FAILED (plan_error_code e))
      | Inr configured \<Rightarrow>
          if \<not> truthy (ac_customerId a) \<or> \<not> truthy newPlan \<or> newPrice = [] \<or> ro_subscriptionId o1 = newId \<or>
             configured \<noteq> ro_priceId o1 then Some webhook_invalid
          else (case gw_subscriptions g (the (ac_customerId a)) of None \<Rightarrow> Some UNEXPECTED
            | Some (listed, all_listed) \<Rightarrow>
                if \<not> all_listed then Some processing_failed
                else (case find (\<lambda>x. ss_id x = newId) listed of None \<Rightarrow> Some webhook_invalid
                  | Some new \<Rightarrow>
                      if \<not> owned_subscription i a newPlan newPrice new \<or> ss_status new \<noteq> ''active'' \<or>
                         readReactivationOrigin (ss_metadata new) \<noteq> Some o1 then Some webhook_invalid
                      else (case find (\<lambda>x. ss_id x = ro_subscriptionId o1) listed of None \<Rightarrow> Some webhook_invalid
                        | Some old \<Rightarrow>
                            if \<not> owned_subscription i a (Some (ro_planCode o1)) (ro_priceId o1) old then Some webhook_invalid
                            else if ss_status old = ''canceled'' then None
                            else if ss_status old \<noteq> ''paused'' then Some processing_failed
                            else if gw_cancel g (ss_id old) (''platform-reactivation-cleanup:'' @ ac_id a @ '':'' @ ss_id old)
                            then None else Some UNEXPECTED))))"

section \<open>Invoices\<close>

text \<open>What an invoice event says: the facts \<^verbatim>\<open>processInvoiceEvent\<close> derives before it writes.\<close>

record invoice_facts =
  if_id :: string
  if_customerId :: string
  if_subscriptionId :: "string option"
  if_priceId :: "string option"
  if_planCode :: "string option"
  if_paidEvent :: bool
  if_failure :: bool
  if_conversion :: bool
  if_failedAt :: "int option"

definition event_time :: "webhook_input \<Rightarrow> int" where
  "event_time i = (case ev_created (wi_event i) of None \<Rightarrow> wi_now i | Some t \<Rightarrow> t)"

definition invoice_account ::
    "webhook_input \<Rightarrow> stripe_object \<Rightarrow> string \<Rightarrow> 'p billing_store \<Rightarrow> billing_error + billing_account" where
  "invoice_account i invoice customerId s =
     (case (case so_subscription invoice of
          Some sub \<Rightarrow> if sub = [] then findAccountByStripeCustomerId (wi_live i) customerId s
            else findAccountByStripeSubscriptionId (wi_live i) sub s
        | None \<Rightarrow> findAccountByStripeCustomerId (wi_live i) customerId s) of
        None \<Rightarrow> Inl (FAILED ''PLATFORM_BILLING_ACCOUNT_NOT_FOUND'')
      | Some a \<Rightarrow> if ac_customerId a \<noteq> Some customerId \<or>
            truthy (so_metadata invoice ''contaId'') \<and> so_metadata invoice ''contaId'' \<noteq> Some (ac_contaId a) then Inl webhook_invalid
          else Inr a)"

definition invoice_facts_of ::
    "webhook_input \<Rightarrow> stripe_object \<Rightarrow> bool \<Rightarrow> string \<Rightarrow> string \<Rightarrow> billing_account \<Rightarrow> billing_error + invoice_facts" where
  "invoice_facts_of i invoice verified invoiceId customerId a =
     (let (price, ambiguous) = readInvoicePriceId invoice;
          priceId = (if price = None then ac_priceId a else price);
          ty = ev_type (wi_event i);
          failed = (ty = ''invoice.payment_failed'' \<or> ty = ''invoice.payment_action_required'');
          paid = (ty = ''invoice.paid'' \<or> ty = ''invoice.payment_succeeded'' \<or> verified);
          status = mapInvoiceStatus (so_status invoice);
          failure = (failed \<and> status \<noteq> INV_PAID)
      in if ambiguous \<or> ac_planCode a = Some ''CUSTOM'' \<and> priceId \<noteq> ac_priceId a then Inl webhook_invalid
         else Inr \<lparr>if_id = invoiceId, if_customerId = customerId, if_subscriptionId = so_subscription invoice, if_priceId = priceId,
           if_planCode = (if truthy priceId then resolvePlanCodeSafely (the priceId) i a else ac_planCode a),
           if_paidEvent = paid, if_failure = failure,
           if_conversion = (paid \<and> 0 < count_or_zero (so_amountPaid invoice) \<and> status = INV_PAID \<and> so_subscription invoice \<noteq> None \<and>
             so_subscription invoice = ac_subscriptionId a),
           if_failedAt = (if failure then Some (event_time i) else None)\<rparr>)"

definition given :: "'a option \<Rightarrow> 'a option patch" where
  "given v = (case v of None \<Rightarrow> KEEP | Some x \<Rightarrow> SET (Some x))"

definition invoice_update_of :: "webhook_input \<Rightarrow> stripe_object \<Rightarrow> bool \<Rightarrow> billing_account \<Rightarrow> invoice_facts \<Rightarrow> invoice_update" where
  "invoice_update_of i invoice verified a f = \<lparr>iu_contaId = ac_contaId a, iu_accountId = ac_id a, iu_live = wi_live i,
     iu_id = if_id f, iu_customerId = if_customerId f, iu_subscriptionId = given (if_subscriptionId f),
     iu_priceId = given (if_priceId f), iu_planCode = given (if_planCode f), iu_status = mapInvoiceStatus (so_status invoice),
     iu_amountDue = count_or_zero (so_amountDue invoice), iu_amountPaid = count_or_zero (so_amountPaid invoice),
     iu_paidAt = (if so_paidAt invoice \<noteq> None then SET (so_paidAt invoice)
       else if if_conversion f \<and> \<not> verified then SET (Some (event_time i)) else KEEP),
     iu_failedAt = (if if_failure f then SET (if_failedAt f) else if if_paidEvent f then SET None else KEEP),
     iu_attemptCount = count_or_zero (so_attemptCount invoice),
     iu_nextPaymentAttempt = (if if_paidEvent f then SET None else given (so_nextPaymentAttempt invoice)),
     iu_lastEventId = ev_id (wi_event i)\<rparr>"

definition resolveInvoicePaymentAccountStatus ::
    "account_status \<Rightarrow> int option \<Rightarrow> bool \<Rightarrow> bool \<Rightarrow> bool \<Rightarrow> int \<Rightarrow> account_status" where
  "resolveInvoicePaymentAccountStatus status trialEndsAt failed graceEligible activated now =
     (if failed \<and> graceEligible then ACC_PAST_DUE
      else if failed then status
      else if activated then ACC_ACTIVE
      else if status = ACC_CANCELED then ACC_CANCELED
      else if ahead trialEndsAt now then ACC_TRIALING else ACC_ACTIVE)"

text \<open>
  The verification of a payment that would activate the account: the bound subscription as the provider has it and, for
  a reactivation, the validated origin. Where the lineage cannot be verified, the account is held and the event fails.
\<close>

definition hold_and_fail ::
    "webhook_input \<Rightarrow> billing_account \<Rightarrow> string \<Rightarrow> string option \<Rightarrow> billing_error \<Rightarrow> 'p billing_store \<Rightarrow> ('p, 'a) billing_op" where
  "hold_and_fail i a subscriptionId planCode e s =
     then_run (holdReactivationAccountForReconciliation i a subscriptionId
       (if ac_pendingPlanCode a = None then planCode else ac_pendingPlanCode a) s) (\<lambda>x s. (Inl e, s))"

definition first_paid_active :: "billing_account \<Rightarrow> string \<Rightarrow> bool" where
  "first_paid_active a subscriptionId \<longleftrightarrow> ac_status a = ACC_ACTIVE \<and> \<not> has_paid_history a \<and> ac_subscriptionId a = Some subscriptionId"

definition must_verify :: "billing_account \<Rightarrow> string \<Rightarrow> bool" where
  "must_verify a subscriptionId \<longleftrightarrow>
     (ac_pendingChangeType a = Some CHANGE_REACTIVATE \<or> ac_status a = ACC_CHECKOUT_PENDING) \<and> ac_subscriptionId a = Some subscriptionId \<or>
     first_paid_active a subscriptionId"

definition verify_activation ::
    "gateway \<Rightarrow> webhook_input \<Rightarrow> billing_account \<Rightarrow> string \<Rightarrow> invoice_facts \<Rightarrow> 'p billing_store \<Rightarrow>
      ('p, (subscription_snapshot \<times> reactivation_origin option) option) billing_op" where
  "verify_activation g i a subscriptionId f s =
     (if \<not> must_verify a subscriptionId then (Inr None, s)
      else (case getCanonicalActiveBoundSubscription g (wi_live i) (Some subscriptionId) (if_customerId f) a (if_priceId f) of
          None \<Rightarrow> (Inl UNEXPECTED, s)
        | Some None \<Rightarrow> hold_and_fail i a subscriptionId (if_planCode f) processing_failed s
        | Some (Some x) \<Rightarrow>
            let flow = ss_metadata x ''flow'';
                reactivation = (ac_pendingChangeType a = Some CHANGE_REACTIVATE \<or> flow = Some ''reactivation'');
                price = (case ss_priceIds x of [] \<Rightarrow> [] | p # ps \<Rightarrow> p)
            in if \<not> reactivation then
                 (if flow \<noteq> Some ''subscription'' then hold_and_fail i a subscriptionId (if_planCode f) processing_failed s
                  else if ac_status a = ACC_CHECKOUT_PENDING then
                    (case validatePaidSubscriptionCheckoutLineage g i a subscriptionId (if_customerId f) (ss_metadata x) price s of
                       Some e \<Rightarrow> (Inl e, s) | None \<Rightarrow> (Inr (Some (x, None)), s))
                  else (Inr (Some (x, None)), s))
               else (case readReactivationOrigin (ss_metadata x) of
                   None \<Rightarrow> hold_and_fail i a subscriptionId (if_planCode f) processing_failed s
                 | Some o1 \<Rightarrow>
                     if flow \<noteq> Some ''reactivation'' then hold_and_fail i a subscriptionId (if_planCode f) processing_failed s
                     else (case validateReactivationCheckoutLineage g i a subscriptionId (if_customerId f) (ss_metadata x) price o1 s of
                         Some e \<Rightarrow> hold_and_fail i a subscriptionId (if_planCode f) e s
                       | None \<Rightarrow> (case cancelSupersededPausedTrialSubscriptions g i a subscriptionId (ss_metadata x ''planCode'') price o1 of
                           Some e \<Rightarrow> (Inl e, s) | None \<Rightarrow> (Inr (Some (x, Some o1)), s))))))"

text \<open>What a payment or its failure does to the account.\<close>

definition payment_update ::
    "webhook_input \<Rightarrow> stripe_object \<Rightarrow> billing_account \<Rightarrow> string \<Rightarrow> invoice_facts \<Rightarrow>
      (subscription_snapshot \<times> reactivation_origin option) option \<Rightarrow> account_update" where
  "payment_update i invoice a subscriptionId f verified =
     (let moment = (case if_failedAt f of Some t \<Rightarrow> t | None \<Rightarrow> (case so_paidAt invoice of Some t \<Rightarrow> t | None \<Rightarrow> event_time i));
          grace = isPaymentPaidSubscriptionEligible a;
          reactivated = (case verified of Some (x, Some o1) \<Rightarrow> True | _ \<Rightarrow> False);
          status = resolveInvoicePaymentAccountStatus (ac_status a) (ac_trialEndsAt a) (if_failure f) grace reactivated (wi_now i);
          late = if_failure f \<and> grace; refused = if_failure f \<and> \<not> grace;
          settled = if_conversion f \<and> (ac_pendingChangeType a = Some CHANGE_PAYMENT_RECOVERY \<or> reactivated)
      in (kept_update i a subscriptionId)\<lparr>up_status := status,
           up_accessStatus := Some (if refused then ACCESS_RESTRICTED else mapAccessStatusFromSubscription status),
           up_planCode := if_planCode f, up_lease := lease_of i, up_priceId := if_priceId f,
           up_currentPeriodEnd := (case verified of Some (x, r) \<Rightarrow>
             if ss_currentPeriodEnd x = None then ac_currentPeriodEnd a else ss_currentPeriodEnd x | None \<Rightarrow> ac_currentPeriodEnd a),
           up_cancelAtPeriodEnd := (case verified of Some (x, r) \<Rightarrow> ss_cancelAtPeriodEnd x | None \<Rightarrow> ac_cancelAtPeriodEnd a),
           up_trialEndsAt := (case verified of Some (x, r) \<Rightarrow>
             if ss_trialEndsAt x = None then ac_trialEndsAt a else ss_trialEndsAt x | None \<Rightarrow> ac_trialEndsAt a),
           up_gracePeriodEndsAt := SET (if late then (if ac_gracePeriodEndsAt a = None
             then Some (computeGracePeriodEnd (case ac_gracePeriodStartedAt a of None \<Rightarrow> moment | Some t \<Rightarrow> t) None)
             else ac_gracePeriodEndsAt a) else None),
           up_restrictedAt := SET (if refused then Some moment else None),
           up_lastPaymentFailedAt := SET (if if_failure f then Some moment else None),
           up_firstPaidAt := (if if_conversion f then SET (if ac_firstPaidAt a = None then Some moment else ac_firstPaidAt a) else KEEP),
           up_lastSuccessfulPaymentAt := (if if_conversion f then SET (Some moment) else KEEP),
           up_restrictionReason := SET (if \<not> refused then None
             else if \<not> has_paid_history a then Some FIRST_PAYMENT_INCOMPLETE
             else if ac_paymentMethod a = METHOD_MISSING then Some PAYMENT_METHOD_MISSING else Some PAYMENT_PAST_DUE),
           up_gracePeriodStartedAt := SET (if late then (if ac_gracePeriodStartedAt a = None then Some moment else ac_gracePeriodStartedAt a)
             else None),
           up_canceledAt := SET (if reactivated then None else ac_canceledAt a),
           up_lastEventCreatedAt := SET (ev_created (wi_event i)),
           up_pendingPlanCode := (if reactivated then SET None else KEEP),
           up_pendingChangeType := (if late then SET (Some CHANGE_PAYMENT_RECOVERY) else if settled then SET None else KEEP),
           up_pendingEffectiveAt := (if late then SET (so_nextPaymentAttempt invoice) else if settled then SET None else KEEP),
           up_pendingOperationId := (if reactivated then SET None else KEEP)\<rparr>)"

definition apply_payment ::
    "gateway \<Rightarrow> webhook_input \<Rightarrow> stripe_object \<Rightarrow> billing_account \<Rightarrow> invoice_facts \<Rightarrow> 'p billing_store \<Rightarrow> ('p, unit) billing_op" where
  "apply_payment g i invoice a f s =
     (let target = (if if_subscriptionId f = None then ac_subscriptionId a else if_subscriptionId f)
      in if \<not> truthy target \<or> \<not> (if_failure f \<or> if_conversion f) then (Inr (), s)
         else then_run (if if_conversion f then verify_activation g i a (the target) f s else (Inr None, s)) (\<lambda>verified s.
           then_run (updateAccountFromStripeSubscription (payment_update i invoice a (the target) f verified) s) (\<lambda>b s.
             (Inr (), if if_conversion f \<and> ac_lastEventId b = Some (ev_id (wi_event i))
                then resolveOpenIssuesForPaidAccount (ac_contaId a) (ac_id a) (wi_live i) s else s))))"

definition processInvoiceEvent ::
    "gateway \<Rightarrow> webhook_input \<Rightarrow> stripe_object \<Rightarrow> bool \<Rightarrow> 'p billing_store \<Rightarrow> ('p, string option) billing_op" where
  "processInvoiceEvent g i invoice verified s =
     (if \<not> truthy (so_id invoice) then (Inr None, s)
      else if \<not> truthy (so_customer invoice) then (Inl webhook_invalid, s)
      else (case invoice_account i invoice (the (so_customer invoice)) s of Inl e \<Rightarrow> (Inl e, s)
        | Inr a \<Rightarrow> (case invoice_facts_of i invoice verified (the (so_id invoice)) (the (so_customer invoice)) a of Inl e \<Rightarrow> (Inl e, s)
          | Inr f \<Rightarrow>
              then_run (upsertInvoice (invoice_update_of i invoice verified a f) s) (\<lambda>_ s.
                then_run (apply_payment g i invoice a f
                  (audited i a (if verified then ''PLATFORM_BILLING_CHECKOUT_PAYMENT_RECONCILED''
                     else resolveInvoiceAuditAction (ev_type (wi_event i))) (Some (if_id f)) s)) (\<lambda>_ s.
                  (Inr (Some (ac_contaId a)), s))))))"

section \<open>Checkouts\<close>

definition isVerifiedPaidCheckoutInvoice ::
    "webhook_input \<Rightarrow> stripe_object \<Rightarrow> billing_account \<Rightarrow> string \<Rightarrow> string \<Rightarrow> string \<Rightarrow> bool" where
  "isVerifiedPaidCheckoutInvoice i invoice a subscriptionId customerId priceId \<longleftrightarrow>
     so_status invoice = Some ''paid'' \<and> 0 < count_or_zero (so_amountPaid invoice) \<and> so_paidAt invoice \<noteq> None \<and>
     map_option js_upper (so_currency invoice) = Some ''BRL'' \<and> so_customer invoice = Some customerId \<and>
     so_subscription invoice = Some subscriptionId \<and> readInvoicePriceId invoice = (Some priceId, False) \<and>
     (truthy (so_metadata invoice ''contaId'') \<longrightarrow> so_metadata invoice ''contaId'' = Some (ac_contaId a)) \<and>
     so_livemode invoice = Some (wi_live i) \<and> ac_subscriptionId a = Some subscriptionId \<and> ac_customerId a = Some customerId"

definition completed_checkout_matches ::
    "webhook_input \<Rightarrow> billing_account \<Rightarrow> string \<Rightarrow> string \<Rightarrow> string \<Rightarrow> string \<Rightarrow> checkout_session \<Rightarrow> remote_session \<Rightarrow> bool" where
  "completed_checkout_matches i a subscriptionId customerId key price c r \<longleftrightarrow>
     cs_accountId c = ac_id a \<and> Some (cs_sessionId c) = so_id (ev_object (wi_event i)) \<and> cs_customerId c = customerId \<and>
     cs_cancelKey c = Some key \<and> cs_status c \<noteq> CS_EXPIRED \<and> cs_priceId c = price \<and>
     rs_id r = cs_sessionId c \<and> rs_status r = Some ''complete'' \<and> rs_livemode r = wi_live i \<and> rs_customerId r = Some customerId \<and>
     rs_clientReferenceId r = Some (ac_contaId a) \<and> rs_subscriptionId r = Some subscriptionId \<and>
     rs_metadata r ''contaId'' = Some (ac_contaId a) \<and> rs_metadata r ''billingContext'' = Some ''platform'' \<and>
     rs_metadata r ''checkoutRequestKey'' = Some key \<and> rs_metadata r ''planCode'' = Some (cs_planCode c) \<and>
     rs_priceIds r = [cs_priceId c]"

definition bound_to_checkout :: "billing_account \<Rightarrow> string \<Rightarrow> string \<Rightarrow> checkout_session \<Rightarrow> bool" where
  "bound_to_checkout a subscriptionId key c \<longleftrightarrow> ac_subscriptionId a = Some subscriptionId \<and>
     (ac_status a = ACC_CHECKOUT_PENDING \<and> ac_pendingPlanCode a = Some (cs_planCode c) \<or>
      ac_status a = ACC_ACTIVE \<and> ac_planCode a = Some (cs_planCode c) \<and> has_paid_history a) \<and>
     (\<not> truthy (ac_checkoutKey a) \<or> ac_checkoutKey a = Some key)"

text \<open>Whether the completed checkout is the attempt the account waits for: a first one, or a reactivation of the cancelled or
  expired unpaid subscription it names.\<close>

definition awaited_checkout ::
    "billing_account \<Rightarrow> string \<Rightarrow> string \<Rightarrow> checkout_session \<Rightarrow> metadata \<Rightarrow> int \<Rightarrow> bool" where
  "awaited_checkout a subscriptionId key c m now \<longleftrightarrow>
     (let owns = (ac_checkoutKey a = Some key \<and> ac_pendingPlanCode a = Some (cs_planCode c));
          origin = (m ''flow'' = Some ''reactivation'' \<and> m ''reactivationFromSubscriptionId'' = ac_subscriptionId a \<and>
            m ''reactivationFromPlanCode'' = ac_planCode a \<and> m ''reactivationFromPriceId'' = ac_priceId a \<and>
            ac_subscriptionId a \<noteq> None \<and> ac_planCode a \<noteq> None \<and> ac_priceId a \<noteq> None);
          reactivation = (ac_pendingChangeType a = Some CHANGE_REACTIVATE \<and> owns \<and> origin)
      in ac_status a = ACC_CHECKOUT_PENDING \<and> owns \<and> \<not> truthy (ac_subscriptionId a) \<or>
         ac_status a = ACC_CANCELED \<and> reactivation \<or>
         (ac_status a = ACC_PAUSED \<or> ac_status a = ACC_TRIALING) \<and> reactivation \<and> reached (ac_trialEndsAt a) now \<and>
           \<not> has_paid_history a \<and> truthy (ac_subscriptionId a) \<and> ac_subscriptionId a \<noteq> Some subscriptionId)"

text \<open>The payment of a completed checkout that the provider already shows as paid.\<close>

definition settle_paid_checkout ::
    "gateway \<Rightarrow> webhook_input \<Rightarrow> billing_account \<Rightarrow> string \<Rightarrow> string \<Rightarrow> checkout_session \<Rightarrow> 'p billing_store \<Rightarrow> ('p, unit) billing_op" where
  "settle_paid_checkout g i bound subscriptionId customerId c s =
     (case getCanonicalActiveBoundSubscription g (wi_live i) (Some subscriptionId) customerId bound (Some (cs_priceId c)) of
        None \<Rightarrow> (Inl UNEXPECTED, s)
      | Some None \<Rightarrow> (Inr (), s)
      | Some (Some x) \<Rightarrow> (case gw_latestInvoice g subscriptionId of None \<Rightarrow> (Inl UNEXPECTED, s)
          | Some None \<Rightarrow> (Inr (), s)
          | Some (Some invoice) \<Rightarrow>
              if isVerifiedPaidCheckoutInvoice i invoice bound subscriptionId customerId (cs_priceId c)
              then then_run (processInvoiceEvent g i invoice True s) (\<lambda>_ s. (Inr (), s)) else (Inr (), s)))"

text \<open>The checkout under the request key; \<open>False\<close> is a completion that is not the account's current attempt.\<close>

definition complete_checkout ::
    "gateway \<Rightarrow> webhook_input \<Rightarrow> billing_account \<Rightarrow> string \<Rightarrow> string \<Rightarrow> string \<Rightarrow> 'p billing_store \<Rightarrow> ('p, bool) billing_op" where
  "complete_checkout g i a subscriptionId customerId key s =
     (case findCheckoutSessionByIdempotencyKey (ac_contaId a) (wi_live i) key s of
        None \<Rightarrow> (Inl (FAILED ''PLATFORM_BILLING_CHECKOUT_RECONCILIATION_REQUIRED''), s)
      | Some c \<Rightarrow> (case gw_session g (cs_sessionId c) of None \<Rightarrow> (Inl UNEXPECTED, s)
          | Some r \<Rightarrow> (case resolveKnownPriceId (cs_planCode c) (wi_source i) (Some (cs_priceId c)) of
              Inl e \<Rightarrow> (Inl (FAILED (plan_error_code e)), s)
            | Inr price \<Rightarrow>
                if \<not> completed_checkout_matches i a subscriptionId customerId key price c r then (Inl webhook_invalid, s)
                else let s1 = markCheckoutSessionCompleted (ac_contaId a) (wi_live i) (cs_sessionId c) s;
                         bound = (ac_subscriptionId a = Some subscriptionId)
                  in if \<not> bound_to_checkout a subscriptionId key c \<and> \<not> awaited_checkout a subscriptionId key c (rs_metadata r) (wi_now i)
                     then (Inr False, s1)
                     else then_run (if \<not> bound \<or> ac_checkoutKey a = Some key
                          then bindCheckoutSubscription (ac_id a) (ac_contaId a) (wi_live i) customerId subscriptionId key s1
                          else (Inr (), s1)) (\<lambda>_ s2.
                        case findAccountByStripeSubscriptionId (wi_live i) subscriptionId s2 of None \<Rightarrow> (Inr False, s2)
                        | Some b \<Rightarrow>
                            if ac_id b \<noteq> ac_id a \<or> ac_contaId b \<noteq> ac_contaId a \<or> ac_customerId b \<noteq> Some customerId \<or>
                               truthy (ac_checkoutKey b) \<and> ac_checkoutKey b \<noteq> Some key then (Inr False, s2)
                            else then_run (settle_paid_checkout g i b subscriptionId customerId c s2) (\<lambda>_ s3. (Inr True, s3))))))"

definition processCheckoutCompleted :: "gateway \<Rightarrow> webhook_input \<Rightarrow> 'p billing_store \<Rightarrow> ('p, string option) billing_op" where
  "processCheckoutCompleted g i s =
     (let o1 = ev_object (wi_event i); conta = so_metadata o1 ''contaId''
      in if \<not> truthy (so_customer o1) \<or> \<not> truthy (so_subscription o1) \<or> \<not> truthy conta then (Inr conta, s)
         else (case findAccountByStripeCustomerId (wi_live i) (the (so_customer o1)) s of
             None \<Rightarrow> (Inl (FAILED ''PLATFORM_BILLING_ACCOUNT_NOT_FOUND''), s)
           | Some a \<Rightarrow>
               if Some (ac_contaId a) \<noteq> conta then (Inl webhook_invalid, s)
               else then_run (case readString (so_metadata o1 ''checkoutRequestKey'') of None \<Rightarrow> (Inr True, s)
                   | Some key \<Rightarrow> complete_checkout g i a (the (so_subscription o1)) (the (so_customer o1)) key s) (\<lambda>audit s.
                 (Inr conta, if audit then audited i a ''PLATFORM_BILLING_CHECKOUT_COMPLETED'' (so_id o1) s else s))))"

definition processCheckoutExpired :: "webhook_input \<Rightarrow> 'p billing_store \<Rightarrow> ('p, string option) billing_op" where
  "processCheckoutExpired i s =
     (let o1 = ev_object (wi_event i); conta = so_metadata o1 ''contaId''
      in case readString (so_metadata o1 ''checkoutRequestKey'') of None \<Rightarrow> (Inr conta, s)
         | Some key \<Rightarrow>
             if \<not> truthy conta \<or> \<not> truthy (so_customer o1) then (Inr conta, s)
             else (case findAccountByStripeCustomerId (wi_live i) (the (so_customer o1)) s of
                 None \<Rightarrow> (Inl webhook_invalid, s)
               | Some a \<Rightarrow> if Some (ac_contaId a) \<noteq> conta then (Inl webhook_invalid, s)
                   else (Inr conta, snd (clearCheckoutClaim (the conta) (wi_live i) key s))))"

section \<open>One event of the inbox\<close>

definition SUPPORTED_EVENTS :: "string list" where
  "SUPPORTED_EVENTS = [''checkout.session.completed'', ''checkout.session.expired'', ''customer.subscription.created'',
     ''customer.subscription.updated'', ''customer.subscription.deleted'', ''customer.subscription.paused'',
     ''customer.subscription.resumed'', ''customer.subscription.trial_will_end'',
     ''customer.subscription.pending_update_applied'', ''customer.subscription.pending_update_expired'', ''invoice.created'',
     ''invoice.finalized'', ''invoice.finalization_failed'', ''invoice.updated'', ''invoice.paid'',
     ''invoice.payment_succeeded'', ''invoice.payment_failed'', ''invoice.payment_action_required'',
     ''invoice.marked_uncollectible'', ''invoice.voided'']"

definition setup_checkout :: "stripe_object \<Rightarrow> bool" where
  "setup_checkout o1 \<longleftrightarrow> so_mode o1 = Some ''setup'' \<and> so_metadata o1 ''billingContext'' = Some ''platform'' \<and>
     so_metadata o1 ''checkoutPurpose'' = Some ''optional_trial_payment_method''"

definition dispatch_event :: "gateway \<Rightarrow> string \<Rightarrow> webhook_input \<Rightarrow> 'p billing_store \<Rightarrow> ('p, string option) billing_op" where
  "dispatch_event g fresh i s =
     (let o1 = ev_object (wi_event i); ty = ev_type (wi_event i)
      in if ty = ''checkout.session.completed'' then (if setup_checkout o1 then (Inl IGNORED, s) else processCheckoutCompleted g i s)
         else if ty = ''checkout.session.expired'' then processCheckoutExpired i s
         else if starts_with ''customer.subscription.'' ty then processSubscriptionEvent g fresh i s
         else if starts_with ''invoice.'' ty then processInvoiceEvent g i o1 False s
         else (Inr (so_metadata o1 ''contaId''), s))"

text \<open>The result of processing a stored event; its row of the inbox is settled by the worker.\<close>

definition processPersistedPlatformBillingWebhookEvent ::
    "gateway \<Rightarrow> string \<Rightarrow> webhook_input \<Rightarrow> 'p billing_store \<Rightarrow> processing \<times> 'p billing_store" where
  "processPersistedPlatformBillingWebhookEvent g fresh i s =
     (let conta = so_metadata (ev_object (wi_event i)) ''contaId''
      in if ev_type (wi_event i) \<notin> set SUPPORTED_EVENTS then (OUT_IGNORED conta, s)
         else (case dispatch_event g fresh i s of
             (Inr c, s') \<Rightarrow> (OUT_DONE c, s')
           | (Inl IGNORED, s') \<Rightarrow> (OUT_IGNORED conta, s')
           | (Inl (FAILED code), s') \<Rightarrow> (OUT_THROWN (PLATFORM_ERROR code), s')
           | (Inl UNEXPECTED, s') \<Rightarrow> (OUT_THROWN (PLATFORM_ERROR ''PLATFORM_BILLING_WEBHOOK_PROCESSING_FAILED''), s')))"

end
