(* ===== verification/PlatformRuns.thy ===== *)
theory PlatformRuns
  imports PlatformWebhooks
begin

text \<open>
  The platform billing as it runs: the events the worker takes from the inbox and the operations of the checkout and the
  trial, in any order and with any answers of the provider. Over every such run an account only moves forward in the
  provider's time, and it is paid only by an invoice the store recorded as paid.
\<close>

section \<open>What every operation keeps\<close>

text \<open>A school has paid: one of its invoices is recorded as paid, with a positive amount.\<close>

definition recorded :: "'p billing_store \<Rightarrow> string \<Rightarrow> bool \<Rightarrow> bool" where
  "recorded s conta live \<longleftrightarrow> list_ex (\<lambda>i. pi_contaId i = conta \<and> pi_live i = live \<and> pi_status i = INV_PAID \<and> 0 < pi_amountPaid i)
     (bs_invoices s)"

definition unique_accounts :: "'p billing_store \<Rightarrow> bool" where
  "unique_accounts s \<longleftrightarrow> distinct (map ac_id (bs_accounts s))"

definition same_school :: "billing_account \<Rightarrow> billing_account \<Rightarrow> bool" where
  "same_school a b \<longleftrightarrow> ac_id b = ac_id a \<and> ac_contaId b = ac_contaId a \<and> ac_live b = ac_live a"

text \<open>The newest event an account has seen does not go back.\<close>

definition not_before :: "int option \<Rightarrow> int option \<Rightarrow> bool" where
  "not_before old new = (case old of None \<Rightarrow> True | Some x \<Rightarrow> (case new of None \<Rightarrow> False | Some y \<Rightarrow> x \<le> y))"

definition backed_from :: "'p billing_store \<Rightarrow> 'p billing_store \<Rightarrow> billing_account \<Rightarrow> bool" where
  "backed_from s s' b \<longleftrightarrow> (has_paid_history b \<longrightarrow> recorded s' (ac_contaId b) (ac_live b) \<or>
     (\<exists>a \<in> set (bs_accounts s). has_paid_history a \<and> same_school a b))"

definition progress :: "'p billing_store \<Rightarrow> 'p billing_store \<Rightarrow> bool" where
  "progress s s' \<longleftrightarrow> (\<forall>c l. recorded s c l \<longrightarrow> recorded s' c l) \<and>
     (unique_accounts s \<longrightarrow> unique_accounts s' \<and> (\<forall>b \<in> set (bs_accounts s'). backed_from s s' b) \<and>
       (\<forall>a \<in> set (bs_accounts s). \<exists>b \<in> set (bs_accounts s'). same_school a b \<and>
          not_before (ac_lastEventCreatedAt a) (ac_lastEventCreatedAt b)))"

lemma same_school_refl [simp]: "same_school a a"
  by (simp add: same_school_def)

lemma same_school_trans: "same_school a b \<Longrightarrow> same_school b c \<Longrightarrow> same_school a c"
  by (simp add: same_school_def)

lemma not_before_refl [simp]: "not_before x x"
  by (cases x) (simp_all add: not_before_def)

lemma not_before_trans: "not_before x y \<Longrightarrow> not_before y z \<Longrightarrow> not_before x z"
  by (auto simp: not_before_def split: option.splits)

lemma progress_refl [simp]: "progress s s"
  by (auto simp: progress_def backed_from_def intro: same_school_refl not_before_refl)

lemma progress_trans:
  assumes "progress s t" "progress t u"
  shows "progress s u"
proof -
  have keeps: "recorded t c l \<Longrightarrow> recorded u c l" for c l using assms(2) by (simp add: progress_def)
  have "backed_from s u b" if "unique_accounts s" "b \<in> set (bs_accounts u)" for b
    unfolding backed_from_def
  proof
    assume "has_paid_history b"
    have "unique_accounts t" using assms(1) that(1) by (simp add: progress_def)
    then have "backed_from t u b" using assms(2) that(2) by (simp add: progress_def)
    then consider "recorded u (ac_contaId b) (ac_live b)"
      | a where "a \<in> set (bs_accounts t)" "has_paid_history a" "same_school a b"
      using \<open>has_paid_history b\<close> by (auto simp: backed_from_def)
    then show "recorded u (ac_contaId b) (ac_live b) \<or> (\<exists>a \<in> set (bs_accounts s). has_paid_history a \<and> same_school a b)"
    proof cases
      case 2
      then have "backed_from s t a" using assms(1) that(1) by (simp add: progress_def)
      then show ?thesis using 2 keeps by (auto simp: backed_from_def same_school_def)
    qed simp
  qed
  moreover have "\<exists>b \<in> set (bs_accounts u). same_school a b \<and> not_before (ac_lastEventCreatedAt a) (ac_lastEventCreatedAt b)"
    if "unique_accounts s" "a \<in> set (bs_accounts s)" for a
    using assms that unfolding progress_def by (meson same_school_trans not_before_trans)
  ultimately show ?thesis using assms by (auto simp: progress_def)
qed

lemma progress_and_then:
  assumes "progress s (snd r)" "\<And>x s'. r = (Inr x, s') \<Longrightarrow> progress s' (snd (k x s'))"
  shows "progress s (snd (then_run r k))"
proof (cases r)
  case (Pair e s')
  then show ?thesis using assms by (cases e) (auto intro: progress_trans)
qed

text \<open>A change of other tables, and one of accounts that neither pays nor dates them.\<close>

lemma progress_elsewhere:
  "bs_accounts s' = bs_accounts s \<Longrightarrow> bs_invoices s' = bs_invoices s \<Longrightarrow> progress s s'"
  by (auto simp: progress_def recorded_def unique_accounts_def backed_from_def intro: same_school_refl not_before_refl)

lemma progress_map:
  assumes inv: "bs_invoices s' = bs_invoices s" and acc: "bs_accounts s' = map f (bs_accounts s)"
    and f: "\<And>a. a \<in> set (bs_accounts s) \<Longrightarrow> same_school a (f a) \<and> not_before (ac_lastEventCreatedAt a) (ac_lastEventCreatedAt (f a)) \<and>
      (has_paid_history (f a) \<longrightarrow> has_paid_history a \<or> recorded s (ac_contaId a) (ac_live a))"
  shows "progress s s'"
proof -
  have rec: "recorded s' c l = recorded s c l" for c l by (simp add: recorded_def inv)
  have "map ac_id (bs_accounts s') = map ac_id (bs_accounts s)" unfolding acc using f by (auto simp: same_school_def)
  then have "unique_accounts s' = unique_accounts s" by (simp add: unique_accounts_def)
  moreover have "backed_from s s' b" if "b \<in> set (bs_accounts s')" for b
    using that f unfolding acc backed_from_def rec by (fastforce simp: same_school_def)
  ultimately show ?thesis using f unfolding progress_def rec acc by auto
qed

lemma progress_map_accounts:
  assumes "\<And>a. P a \<Longrightarrow> same_school a (f a) \<and> ac_lastEventCreatedAt (f a) = ac_lastEventCreatedAt a \<and> has_paid_history (f a) = has_paid_history a"
  shows "progress s (map_accounts P f s)"
  using assms by (intro progress_map [of _ _ "\<lambda>a. if P a then f a else a"]) (auto simp: map_accounts_def)

lemma progress_append:
  assumes "bs_invoices s' = bs_invoices s" "bs_accounts s' = bs_accounts s @ [a]"
    "ac_id a \<notin> ac_id ` set (bs_accounts s)" "\<not> has_paid_history a"
  shows "progress s s'"
  using assms by (auto simp: progress_def recorded_def unique_accounts_def backed_from_def intro: same_school_refl not_before_refl)

lemmas account_kept = same_school_def has_paid_history_def free_trial_claim_def free_checkout_claim_def

lemma snd_refetched [simp]: "snd (refetched P s) = s"
  by (simp add: refetched_def)

lemma progress_createAuditLog [simp]: "progress s (createAuditLog e s)"
  by (auto simp: createAuditLog_def intro: progress_elsewhere)

lemma progress_audited [simp]: "progress s (audited i a action entity s)"
  by (simp add: audited_def)

lemma progress_resolve [simp]: "progress s (resolveOpenIssuesForPaidAccount conta account live s)"
  by (auto simp: resolveOpenIssuesForPaidAccount_def Let_def createAuditLog_def intro: progress_elsewhere)

lemma progress_createAccount:
  assumes "fresh \<notin> ac_id ` set (bs_accounts s)"
  shows "progress s (snd (createAccount fresh conta live customer s))"
proof -
  have "progress s (s\<lparr>bs_accounts := bs_accounts s @ [new_account fresh conta live (Some customer)]\<rparr>)"
    by (rule progress_append [of _ _ "new_account fresh conta live (Some customer)"])
      (use assms in \<open>auto simp: new_account_def has_paid_history_def\<close>)
  moreover have "progress s (map_accounts (of_conta conta live) (\<lambda>a. a\<lparr>ac_customerId := Some customer\<rparr>) s)"
    by (rule progress_map_accounts) (simp add: account_kept)
  ultimately show ?thesis by (simp add: createAccount_def)
qed

lemma progress_claims:
  "progress s (snd (attachCustomer account customer s))"
  "progress s (snd (markTrialSubscriptionRequestStarted conta live key now s))"
  "progress s (releaseTrialSubscriptionClaim conta live key s)"
  "progress s (snd (markCheckoutPending account planCode change key now s))"
  "progress s (snd (markCheckoutRequestStarted account key now s))"
  "progress s (snd (bindCheckoutSubscription account conta live customer subscription key s))"
  "progress s (snd (clearCheckoutClaim conta live key s))"
  "progress s (markCheckoutSessionExpired conta live key s)"
  "progress s (markCheckoutSessionCompleted conta live session s)"
  "progress s (createCheckoutSession c s)"
  by (auto simp: attachCustomer_def markTrialSubscriptionRequestStarted_def releaseTrialSubscriptionClaim_def markCheckoutPending_def
      markCheckoutRequestStarted_def bindCheckoutSubscription_def clearCheckoutClaim_def markCheckoutSessionExpired_def
      markCheckoutSessionCompleted_def createCheckoutSession_def map_sessions_def Let_def account_kept
      split: option.splits intro!: progress_map_accounts progress_elsewhere progress_trans [OF progress_map_accounts progress_map_accounts])

lemma progress_reserve:
  assumes "fresh \<notin> ac_id ` set (bs_accounts s)"
  shows "progress s (snd (reserveTrialSubscriptionClaim fresh conta live key now s))"
proof -
  let ?new = "(new_account fresh conta live None)\<lparr>ac_trialKey := Some key, ac_trialPhase := Some CLAIMED, ac_trialClaimedAt := Some now\<rparr>"
  let ?s1 = "if findAccount conta live s = None then s\<lparr>bs_accounts := bs_accounts s @ [?new]\<rparr> else s"
  have "progress s (s\<lparr>bs_accounts := bs_accounts s @ [?new]\<rparr>)"
    by (rule progress_append [of _ _ ?new]) (use assms in \<open>auto simp: new_account_def has_paid_history_def\<close>)
  then have s1: "progress s ?s1" by simp
  have s2: "progress t (map_accounts P (\<lambda>a. a\<lparr>ac_trialKey := Some key, ac_trialPhase := Some CLAIMED, ac_trialClaimedAt := Some now,
            ac_trialExpiresAt := None\<rparr>) t)" for P t
    by (rule progress_map_accounts) (simp add: account_kept)
  show ?thesis unfolding reserveTrialSubscriptionClaim_def Let_def using progress_trans [OF s1 s2] by simp
qed

section \<open>The state of a subscription\<close>

text \<open>An update is sound when it dates the account by the event, if at all, and makes it paid only over a snapshot of a school
  with a recorded payment.\<close>

definition sound_update :: "account_update \<Rightarrow> 'p billing_store \<Rightarrow> bool" where
  "sound_update u s \<longleftrightarrow> up_lastEventCreatedAt u \<noteq> SET None \<and>
     (up_firstPaidAt u = KEEP \<and> up_lastSuccessfulPaymentAt u = KEEP \<or>
      (\<exists>p. up_snapshot u = Some p \<and> recorded s (sp_contaId p) (sp_live p)))"

lemma account_written_kept:
  "same_school a (account_written u a)"
  "ac_lastEventCreatedAt (account_written u a) = patched (up_lastEventCreatedAt u) (ac_lastEventCreatedAt a)"
  "has_paid_history (account_written u a) \<longleftrightarrow> patched (up_firstPaidAt u) (ac_firstPaidAt a) \<noteq> None \<or>
     patched (up_lastSuccessfulPaymentAt u) (ac_lastSuccessfulPaymentAt a) \<noteq> None"
  by (simp_all add: account_written_def Let_def account_kept)

lemma progress_written:
  assumes u: "unique_accounts s" and a: "a \<in> set (bs_accounts s)" "ac_id a = up_accountId u" and new: "\<not> outdated u a"
    and snap: "snapshot_holds u a" and sound: "sound_update u s"
  shows "progress s (map_accounts (\<lambda>a. ac_id a = up_accountId u) (account_written u) s)"
proof (rule progress_map [of _ _ "\<lambda>a. if ac_id a = up_accountId u then account_written u a else a"])
  fix b assume b: "b \<in> set (bs_accounts s)"
  show "same_school b (if ac_id b = up_accountId u then account_written u b else b) \<and>
      not_before (ac_lastEventCreatedAt b) (ac_lastEventCreatedAt (if ac_id b = up_accountId u then account_written u b else b)) \<and>
      (has_paid_history (if ac_id b = up_accountId u then account_written u b else b) \<longrightarrow>
        has_paid_history b \<or> recorded s (ac_contaId b) (ac_live b))"
  proof (cases "ac_id b = up_accountId u")
    case True
    then have ba: "b = a" using a b u by (auto simp: unique_accounts_def distinct_map inj_on_def)
    have "not_before (ac_lastEventCreatedAt a) (patched (up_lastEventCreatedAt u) (ac_lastEventCreatedAt a))"
      using new sound by (cases "up_lastEventCreatedAt u")
        (auto simp: outdated_def sound_update_def not_before_def split: option.splits)
    moreover have "has_paid_history a \<or> recorded s (ac_contaId a) (ac_live a)" if "has_paid_history (account_written u a)"
    proof -
      consider "up_firstPaidAt u = KEEP" "up_lastSuccessfulPaymentAt u = KEEP"
        | p where "up_snapshot u = Some p" "recorded s (sp_contaId p) (sp_live p)" using sound by (auto simp: sound_update_def)
      then show ?thesis
      proof cases
        case 1
        then show ?thesis using that [unfolded account_written_kept(3)] unfolding has_paid_history_def by simp
      next
        case 2
        then show ?thesis using snap by (simp add: snapshot_holds_def)
      qed
    qed
    ultimately show ?thesis using True unfolding ba by (simp add: account_written_kept)
  qed simp
qed (simp_all add: map_accounts_def)

lemma progress_without_cancellation: "progress s (without_cancellation u s)"
proof -
  let ?s = "s\<lparr>bs_changes := set_changes (cancels (up_accountId u)) PC_CANCELED (bs_changes s)\<rparr>"
  have "progress s ?s" by (rule progress_elsewhere) simp_all
  moreover have "progress ?s (map_accounts (\<lambda>a. ac_id a = up_accountId u \<and> ac_pendingChangeType a = Some CHANGE_CANCEL_AT_PERIOD_END)
             (\<lambda>a. a\<lparr>ac_pendingChangeType := None, ac_pendingEffectiveAt := None\<rparr>) ?s)"
    by (rule progress_map_accounts) (simp add: account_kept)
  ultimately show ?thesis unfolding without_cancellation_def by (auto intro: progress_trans)
qed

lemma progress_unless_unique:
  assumes "unique_accounts s \<Longrightarrow> progress s s'" "bs_invoices s' = bs_invoices s"
  shows "progress s s'"
  using assms by (cases "unique_accounts s") (auto simp: progress_def recorded_def)

lemma update_invoices [simp]: "bs_invoices (snd (updateAccountFromStripeSubscription u s)) = bs_invoices s"
  by (simp add: updateAccountFromStripeSubscription_def Let_def without_cancellation_def map_accounts_def split: option.splits)

lemma progress_update:
  assumes "sound_update u s"
  shows "progress s (snd (updateAccountFromStripeSubscription u s))"
proof (rule progress_unless_unique)
  assume uniq: "unique_accounts s"
  let ?own = "\<lambda>a. ac_id a = up_accountId u"
  let ?s1 = "map_accounts ?own (account_written u) s"
  have written: "progress s ?s1" if "find ?own (bs_accounts s) = Some a" "\<not> outdated u a" "snapshot_holds u a" for a
    using find_SomeD [OF that(1)] that(2,3) assms uniq by (intro progress_written) auto
  have changed: "progress ?s1 (without_cancellation u (?s1\<lparr>bs_changes := cs\<rparr>))" for cs
    by (rule progress_trans [OF _ progress_without_cancellation]) (simp add: progress_elsewhere)
  show "progress s (snd (updateAccountFromStripeSubscription u s))"
    using written progress_trans [OF written progress_without_cancellation] progress_trans [OF written changed]
    by (auto simp: updateAccountFromStripeSubscription_def Let_def split: option.splits)
qed simp

lemma kept_update_sound: "sound_update (kept_update i a sub) s"
  by (simp add: sound_update_def kept_update_def)

section \<open>Invoices\<close>

lemma upsert_recorded:
  assumes "recorded s c l"
  shows "recorded (snd (upsertInvoice u s)) c l"
proof -
  have kept: "pi_status i = INV_PAID \<and> 0 < pi_amountPaid i \<Longrightarrow> pi_status (invoice_written u i) = INV_PAID \<and>
      0 < pi_amountPaid (invoice_written u i) \<and> pi_contaId (invoice_written u i) = pi_contaId i \<and> pi_live (invoice_written u i) = pi_live i" for i
    by (auto simp: invoice_written_def Let_def)
  obtain i where i: "i \<in> set (bs_invoices s)" "pi_contaId i = c" "pi_live i = l" "pi_status i = INV_PAID \<and> 0 < pi_amountPaid i"
    using assms unfolding recorded_def list_ex_iff by blast
  let ?i = "if invoice_of u i then invoice_written u i else i"
  have "?i \<in> (\<lambda>i. if invoice_of u i then invoice_written u i else i) ` set (bs_invoices s)" using i(1) by (rule imageI)
  then have "i \<in> set (bs_invoices (snd (upsertInvoice u s))) \<or> ?i \<in> set (bs_invoices (snd (upsertInvoice u s)))"
    using i(1) by (auto simp: upsertInvoice_def simp del: image_iff split: option.splits)
  moreover have "pi_contaId ?i = c \<and> pi_live ?i = l \<and> pi_status ?i = INV_PAID \<and> 0 < pi_amountPaid ?i"
    using kept [OF i(4)] i by simp
  ultimately show ?thesis unfolding recorded_def list_ex_iff using i by blast
qed

lemma upsert_accounts [simp]: "bs_accounts (snd (upsertInvoice u s)) = bs_accounts s"
  by (simp add: upsertInvoice_def split: option.splits)

lemma progress_upsert: "progress s (snd (upsertInvoice u s))"
  using upsert_recorded by (auto simp: progress_def unique_accounts_def backed_from_def intro: same_school_refl not_before_refl)

lemma upsert_records:
  assumes "fst (upsertInvoice u s) = Inr x" "iu_status u = INV_PAID" "0 < iu_amountPaid u"
  shows "recorded (snd (upsertInvoice u s)) (iu_contaId u) (iu_live u)"
proof (cases "find (invoice_of u) (bs_invoices s)")
  case None
  then show ?thesis using assms by (simp add: upsertInvoice_def recorded_def fresh_invoice_def)
next
  case (Some i)
  then have i: "i \<in> set (bs_invoices s)" "invoice_of u i" "pi_contaId i = iu_contaId u"
    using find_SomeD [OF Some] assms(1) by (auto simp: upsertInvoice_def split: if_splits)
  then have "pi_status (invoice_written u i) = INV_PAID" "0 < pi_amountPaid (invoice_written u i)"
    "pi_contaId (invoice_written u i) = iu_contaId u" "pi_live (invoice_written u i) = iu_live u"
    using assms(2,3) by (auto simp: invoice_written_def Let_def invoice_of_def)
  moreover have "invoice_written u i \<in> set (bs_invoices (snd (upsertInvoice u s)))"
    using i Some by (auto simp: upsertInvoice_def intro: image_eqI [of _ _ i])
  ultimately show ?thesis unfolding recorded_def list_ex_iff by blast
qed

section \<open>The handlers\<close>

text \<open>Every event of the provider carries its date.\<close>

definition dated :: "webhook_input \<Rightarrow> bool" where
  "dated i \<longleftrightarrow> ev_created (wi_event i) \<noteq> None"

lemma progress_and_done: "progress s (snd r) \<Longrightarrow> (\<And>x t. progress t (g x t)) \<Longrightarrow> progress s (snd (then_run r (\<lambda>x t. (h x t, g x t))))"
  by (rule progress_and_then) auto

lemma progress_hold_until_paid:
  assumes "dated i"
  shows "progress s (snd (hold_until_paid i sub planCode a s))"
  unfolding hold_until_paid_def Let_def
  by (rule progress_and_done)
    (use assms in \<open>auto simp: sound_update_def kept_update_def dated_def intro!: progress_update\<close>)

lemma progress_sync:
  assumes "dated i"
  shows "progress s (snd (sync_subscription i sub state planCode a s))"
proof -
  have "progress s (snd (then_run (updateAccountFromStripeSubscription u s) (\<lambda>b s. (Inr (Some (ac_contaId b)), audited i b action entity s))))"
    if "sound_update u s" for u action entity
    by (rule progress_and_done [OF progress_update [OF that]]) simp
  then show ?thesis
    using assms by (auto simp: sync_subscription_def Let_def sound_update_def kept_update_def dated_def split: sum.splits)
qed

lemma progress_subscription_event:
  assumes "dated i"
  shows "progress s (snd (subscription_event g i sub a s))"
  by (simp add: subscription_event_def Let_def progress_hold_until_paid [OF assms] progress_sync [OF assms] split: option.splits)

lemma progress_subscription_account:
  assumes "fresh \<notin> ac_id ` set (bs_accounts s)"
  shows "progress s (snd (subscription_account i fresh sub customer s))"
proof -
  have "progress s (snd (then_run (createAccount fresh conta (wi_live i) customer s) (\<lambda>a s. (Inr (Some a), s))))" for conta
    by (rule progress_and_done [OF progress_createAccount [OF assms]]) simp
  then show ?thesis by (simp add: subscription_account_def Let_def split: option.splits)
qed

lemma progress_processSubscriptionEvent:
  assumes "dated i" "fresh \<notin> ac_id ` set (bs_accounts s)"
  shows "progress s (snd (processSubscriptionEvent g fresh i s))"
proof -
  have "progress s (snd (then_run (subscription_account i fresh sub customer s) (\<lambda>account s.
      case account of None \<Rightarrow> (Inr conta, s) | Some a \<Rightarrow> subscription_event g i sub a s)))" for sub customer conta
    by (rule progress_and_then [OF progress_subscription_account [OF assms(2)]])
      (simp add: progress_subscription_event [OF assms(1)] split: option.splits)
  then show ?thesis by (simp add: processSubscriptionEvent_def Let_def)
qed

lemma progress_hold: "progress s (snd (holdReactivationAccountForReconciliation i a sub planCode s))"
  unfolding holdReactivationAccountForReconciliation_def Let_def
  by (rule progress_and_done) (auto simp: sound_update_def kept_update_def intro!: progress_update)

lemma progress_hold_and_fail: "progress s (snd (hold_and_fail i a sub planCode e s))"
  unfolding hold_and_fail_def by (rule progress_and_done [OF progress_hold]) simp

lemma progress_verify: "progress s (snd (verify_activation g i a sub f s))"
  by (simp add: verify_activation_def Let_def progress_hold_and_fail split: option.splits list.splits)

lemma payment_update_sound:
  assumes "dated i" "if_conversion f \<Longrightarrow> recorded s (ac_contaId a) (ac_live a)"
  shows "sound_update (payment_update i invoice a sub f verified) s"
  using assms by (auto simp: sound_update_def payment_update_def Let_def kept_update_def dated_def account_snapshot_of_def)

lemma progress_apply_payment:
  assumes "dated i" "if_conversion f \<Longrightarrow> recorded s (ac_contaId a) (ac_live a)"
  shows "progress s (snd (apply_payment g i invoice a f s))"
proof -
  have "progress s (snd (then_run (if if_conversion f then verify_activation g i a sub f s else (Inr None, s)) (\<lambda>verified s.
           then_run (updateAccountFromStripeSubscription (payment_update i invoice a sub f verified) s) (\<lambda>b s.
             (Inr (), if if_conversion f \<and> ac_lastEventId b = Some (ev_id (wi_event i))
                then resolveOpenIssuesForPaidAccount (ac_contaId a) (ac_id a) (wi_live i) s else s)))))" for sub
  proof (rule progress_and_then)
    show verify: "progress s (snd (if if_conversion f then verify_activation g i a sub f s else (Inr None, s)))"
      by (simp add: progress_verify)
    fix verified t
    assume "(if if_conversion f then verify_activation g i a sub f s else (Inr None, s)) = (Inr verified, t)"
    then have "progress s t" using verify by simp
    then have "if_conversion f \<Longrightarrow> recorded t (ac_contaId a) (ac_live a)" using assms(2) by (simp add: progress_def)
    then show "progress t (snd (then_run (updateAccountFromStripeSubscription (payment_update i invoice a sub f verified) t) (\<lambda>b s.
             (Inr (), if if_conversion f \<and> ac_lastEventId b = Some (ev_id (wi_event i))
                then resolveOpenIssuesForPaidAccount (ac_contaId a) (ac_id a) (wi_live i) s else s))))"
      using assms(1) by (intro progress_and_done progress_update payment_update_sound) simp_all
  qed
  then show ?thesis by (simp add: apply_payment_def Let_def)
qed

lemma find_account_live:
  "findAccountByStripeSubscriptionId live sub s = Some a \<Longrightarrow> ac_live a = live \<and> ac_subscriptionId a = Some sub \<and> a \<in> set (bs_accounts s)"
  "findAccountByStripeCustomerId live customer s = Some a \<Longrightarrow> ac_live a = live \<and> ac_customerId a = Some customer \<and> a \<in> set (bs_accounts s)"
  unfolding findAccountByStripeSubscriptionId_def findAccountByStripeCustomerId_def by (auto dest: find_SomeD)

lemma invoice_account_live: "invoice_account i invoice customer s = Inr a \<Longrightarrow> ac_live a = wi_live i"
  by (auto simp: invoice_account_def dest: find_account_live split: option.splits if_splits)

lemma invoice_conversion:
  assumes "invoice_facts_of i invoice verified n customer a = Inr f" "if_conversion f"
  shows "mapInvoiceStatus (so_status invoice) = INV_PAID" "0 < count_or_zero (so_amountPaid invoice)"
    "so_subscription invoice = ac_subscriptionId a" "so_subscription invoice \<noteq> None"
proof -
  obtain price ambiguous where p: "readInvoicePriceId invoice = (price, ambiguous)" by (cases "readInvoicePriceId invoice")
  let ?bad = "ambiguous \<or> ac_planCode a = Some ''CUSTOM'' \<and> (if price = None then ac_priceId a else price) \<noteq> ac_priceId a"
  note facts = assms(1) [unfolded invoice_facts_of_def Let_def p prod.case]
  have ok: "\<not> ?bad"
  proof
    assume bad: ?bad
    show False using facts unfolding if_P [OF bad] by simp
  qed
  have "if_conversion f = ((ev_type (wi_event i) = ''invoice.paid'' \<or> ev_type (wi_event i) = ''invoice.payment_succeeded'' \<or> verified) \<and>
          0 < count_or_zero (so_amountPaid invoice) \<and> mapInvoiceStatus (so_status invoice) = INV_PAID \<and>
          so_subscription invoice \<noteq> None \<and> so_subscription invoice = ac_subscriptionId a)"
    using facts unfolding if_not_P [OF ok] sum.inject by (drule_tac sym) (simp only: invoice_facts.simps)
  then have "0 < count_or_zero (so_amountPaid invoice) \<and> mapInvoiceStatus (so_status invoice) = INV_PAID \<and>
      so_subscription invoice \<noteq> None \<and> so_subscription invoice = ac_subscriptionId a" using assms(2) by blast
  then show "mapInvoiceStatus (so_status invoice) = INV_PAID" "0 < count_or_zero (so_amountPaid invoice)"
    "so_subscription invoice = ac_subscriptionId a" "so_subscription invoice \<noteq> None" by blast+
qed

lemma progress_processInvoiceEvent:
  assumes "dated i"
  shows "progress s (snd (processInvoiceEvent g i invoice verified s))"
proof (cases "truthy (so_id invoice) \<and> truthy (so_customer invoice)")
  case True
  show ?thesis
  proof (cases "invoice_account i invoice (the (so_customer invoice)) s")
    case (Inr a)
    show ?thesis
    proof (cases "invoice_facts_of i invoice verified (the (so_id invoice)) (the (so_customer invoice)) a")
      case f: (Inr f)
      let ?u = "invoice_update_of i invoice verified a f"
      let ?audit = "\<lambda>s. audited i a (if verified then ''PLATFORM_BILLING_CHECKOUT_PAYMENT_RECONCILED''
                     else resolveInvoiceAuditAction (ev_type (wi_event i))) (Some (if_id f)) s"
      have "progress s (snd (then_run (upsertInvoice ?u s) (\<lambda>_ s. then_run (apply_payment g i invoice a f (?audit s)) (\<lambda>_ s.
                  (Inr (Some (ac_contaId a)), s)))))"
      proof (rule progress_and_then [OF progress_upsert])
        fix x t assume t: "upsertInvoice ?u s = (Inr x, t)"
        have "recorded (?audit t) (ac_contaId a) (ac_live a)" if "if_conversion f"
        proof -
          have "recorded t (ac_contaId a) (wi_live i)"
            using upsert_records [of ?u s x] t invoice_conversion [OF f that] by (simp add: invoice_update_of_def)
          moreover have "progress t (?audit t)" by simp
          ultimately show ?thesis using invoice_account_live [OF Inr] by (simp add: progress_def)
        qed
        then have "progress (?audit t) (snd (apply_payment g i invoice a f (?audit t)))" by (rule progress_apply_payment [OF assms])
        then have "progress t (snd (apply_payment g i invoice a f (?audit t)))" by (rule progress_trans [rotated]) simp
        then show "progress t (snd (then_run (apply_payment g i invoice a f (?audit t)) (\<lambda>_ s. (Inr (Some (ac_contaId a)), s))))"
          by (rule progress_and_done) simp
      qed
      then show ?thesis using True Inr f by (simp add: processInvoiceEvent_def)
    qed (use True Inr in \<open>simp add: processInvoiceEvent_def\<close>)
  qed (use True in \<open>simp add: processInvoiceEvent_def\<close>)
qed (auto simp: processInvoiceEvent_def)

lemma progress_settle_paid_checkout:
  assumes "dated i"
  shows "progress s (snd (settle_paid_checkout g i b sub customer c s))"
proof -
  have "progress s (snd (then_run (processInvoiceEvent g i invoice True s) (\<lambda>_ s. (Inr (), s))))" for invoice
    by (rule progress_and_done [OF progress_processInvoiceEvent [OF assms]]) simp
  then show ?thesis by (simp add: settle_paid_checkout_def split: option.splits)
qed

lemma progress_complete_checkout:
  assumes "dated i"
  shows "progress (s :: 'b billing_store) (snd (complete_checkout g i a sub customer key s))"
proof -
  have settle: "progress t (snd (then_run (settle_paid_checkout g i b sub customer c t) (\<lambda>_ s3. (Inr True, s3))))" for b c t
    by (rule progress_and_done [OF progress_settle_paid_checkout [OF assms]]) simp
  have bind: "progress s (snd (then_run (if P then bindCheckoutSubscription (ac_id a) (ac_contaId a) (wi_live i) customer sub key s1
       else (Inr (), s1)) (\<lambda>_ s2. case findAccountByStripeSubscriptionId (wi_live i) sub s2 of None \<Rightarrow> (Inr False, s2)
        | Some b \<Rightarrow> if ac_id b \<noteq> ac_id a \<or> ac_contaId b \<noteq> ac_contaId a \<or> ac_customerId b \<noteq> Some customer \<or>
                         truthy (ac_checkoutKey b) \<and> ac_checkoutKey b \<noteq> Some key then (Inr False, s2)
            else then_run (settle_paid_checkout g i b sub customer c s2) (\<lambda>_ s3. (Inr True, s3)))))"
    if "s1 = markCheckoutSessionCompleted (ac_contaId a) (wi_live i) (cs_sessionId c) s" for P c s1
  proof (rule progress_and_then)
    have s1: "progress s s1" unfolding that by (rule progress_claims)
    then show "progress s (snd (if P then bindCheckoutSubscription (ac_id a) (ac_contaId a) (wi_live i) customer sub key s1 else (Inr (), s1)))"
      using progress_trans [OF s1 progress_claims(6)] by simp
  qed (simp add: settle split: option.splits)
  have either: "progress s (snd (if A then (Inl e, s) else if B then (Inr False, t) else r))"
    if "progress s t" "progress s (snd r)" for A B e t and r :: "('b, bool) billing_op" using that by simp
  show ?thesis
  proof (cases "findCheckoutSessionByIdempotencyKey (ac_contaId a) (wi_live i) key s")
    case c: (Some c)
    show ?thesis
    proof (cases "gw_session g (cs_sessionId c)")
      case r: (Some r)
      show ?thesis
      proof (cases "resolveKnownPriceId (cs_planCode c) (wi_source i) (Some (cs_priceId c))")
        case (Inr price)
        show ?thesis unfolding complete_checkout_def Let_def c r Inr option.case sum.case
          by (rule either [OF progress_claims(9) bind [OF refl]])
      qed (simp add: complete_checkout_def c r)
    qed (simp add: complete_checkout_def c)
  qed (simp add: complete_checkout_def)
qed

lemma progress_processCheckoutCompleted:
  assumes "dated i"
  shows "progress s (snd (processCheckoutCompleted g i s))"
proof -
  have "progress s (snd (then_run (case key of None \<Rightarrow> (Inr True, s) | Some key \<Rightarrow> complete_checkout g i a sub customer key s)
      (\<lambda>audit s. (Inr conta, if audit then audited i a action entity s else s))))" for key a sub customer conta action entity
    by (rule progress_and_done) (simp_all add: progress_complete_checkout [OF assms] split: option.splits)
  note finish = this
  show ?thesis
  proof (cases "findAccountByStripeCustomerId (wi_live i) (the (so_customer (ev_object (wi_event i)))) s")
    case (Some a)
    show ?thesis unfolding processCheckoutCompleted_def Let_def Some option.case
      by (simp add: finish)
  qed (simp add: processCheckoutCompleted_def Let_def)
qed

lemma progress_processCheckoutExpired: "progress s (snd (processCheckoutExpired i s))"
  by (simp add: processCheckoutExpired_def Let_def progress_claims split: option.splits)

lemma progress_dispatch:
  assumes "dated i" "fresh \<notin> ac_id ` set (bs_accounts s)"
  shows "progress s (snd (dispatch_event g fresh i s))"
  by (simp add: dispatch_event_def Let_def progress_processCheckoutCompleted [OF assms(1)] progress_processCheckoutExpired
      progress_processSubscriptionEvent [OF assms] progress_processInvoiceEvent [OF assms(1)])

lemma snd_process: "snd (processPersistedPlatformBillingWebhookEvent g fresh i s) =
    (if ev_type (wi_event i) \<in> set SUPPORTED_EVENTS then snd (dispatch_event g fresh i s) else s)"
  by (auto simp: processPersistedPlatformBillingWebhookEvent_def Let_def split: prod.splits sum.splits billing_error.splits)

section \<open>Runs\<close>

text \<open>
  The events, with the answers of the provider, and the operations of the store the trial and the checkout of a school
  use. \<open>SYNC\<close> is an update by a use case (the start of a trial, a change of plan), which neither pays the account nor
  dates it; \<open>INBOX\<close> is whatever the workers do to the inbox and the notifications in between.
\<close>

datatype 'p billing_step =
    EVENT gateway string webhook_input
  | NEW_ACCOUNT string string bool string
  | CUSTOMER string string
  | TRIAL_CLAIM string string bool string int
  | TRIAL_REQUEST string bool string int
  | TRIAL_RELEASE string bool string
  | CHECKOUT_CLAIM string string "plan_change_type option" string int
  | CHECKOUT_REQUEST string string int
  | CHECKOUT_CLEAR string bool string
  | CHECKOUT_EXPIRED string bool string
  | NEW_SESSION checkout_session
  | SYNC account_update
  | INBOX "'p inbox_row list" "outbox_row list"

definition unpaying :: "account_update \<Rightarrow> bool" where
  "unpaying u \<longleftrightarrow> up_firstPaidAt u = KEEP \<and> up_lastSuccessfulPaymentAt u = KEEP \<and> up_lastEventCreatedAt u = KEEP"

definition fresh_id :: "string \<Rightarrow> 'p billing_store \<Rightarrow> bool" where
  "fresh_id i s \<longleftrightarrow> i \<notin> set (map ac_id (bs_accounts s))"

fun step_billing :: "'p billing_step \<Rightarrow> 'p billing_store \<Rightarrow> 'p billing_store" where
  "step_billing (EVENT g fresh i) s = (if fresh_id fresh s then snd (processPersistedPlatformBillingWebhookEvent g fresh i s) else s)"
| "step_billing (NEW_ACCOUNT fresh conta live customer) s =
     (if fresh_id fresh s then snd (createAccount fresh conta live customer s) else s)"
| "step_billing (CUSTOMER account customer) s = snd (attachCustomer account customer s)"
| "step_billing (TRIAL_CLAIM fresh conta live key now) s =
     (if fresh_id fresh s then snd (reserveTrialSubscriptionClaim fresh conta live key now s) else s)"
| "step_billing (TRIAL_REQUEST conta live key now) s = snd (markTrialSubscriptionRequestStarted conta live key now s)"
| "step_billing (TRIAL_RELEASE conta live key) s = releaseTrialSubscriptionClaim conta live key s"
| "step_billing (CHECKOUT_CLAIM account plan change key now) s = snd (markCheckoutPending account plan change key now s)"
| "step_billing (CHECKOUT_REQUEST account key now) s = snd (markCheckoutRequestStarted account key now s)"
| "step_billing (CHECKOUT_CLEAR conta live key) s = snd (clearCheckoutClaim conta live key s)"
| "step_billing (CHECKOUT_EXPIRED conta live key) s = markCheckoutSessionExpired conta live key s"
| "step_billing (NEW_SESSION c) s = createCheckoutSession c s"
| "step_billing (SYNC u) s = (if unpaying u then snd (updateAccountFromStripeSubscription u s) else s)"
| "step_billing (INBOX rows notes) s = s\<lparr>bs_inbox := rows, bs_outbox := notes\<rparr>"

definition billing_run :: "'p billing_step list \<Rightarrow> 'p billing_store \<Rightarrow> 'p billing_store" where
  "billing_run steps s = foldl (\<lambda>s x. step_billing x s) s steps"

definition empty_billing :: "string list \<Rightarrow> billing_issue list \<Rightarrow> plan_change list \<Rightarrow> 'p billing_store" where
  "empty_billing contas issues changes = \<lparr>bs_contas = contas, bs_accounts = [], bs_invoices = [], bs_sessions = [],
     bs_changes = changes, bs_issues = issues, bs_audit = [], bs_inbox = [], bs_outbox = []\<rparr>"

fun dated_step :: "'p billing_step \<Rightarrow> bool" where
  "dated_step (EVENT g fresh i) = dated i"
| "dated_step _ = True"

lemma step_progress: "dated_step x \<Longrightarrow> progress s (step_billing x s)"
proof (cases x)
  case (EVENT g fresh i)
  then show "dated_step x \<Longrightarrow> progress s (step_billing x s)"
    by (simp add: snd_process fresh_id_def progress_dispatch)
next
  case (SYNC u)
  then show "progress s (step_billing x s)" by (auto simp: unpaying_def sound_update_def intro!: progress_update)
qed (simp_all add: progress_claims fresh_id_def progress_createAccount progress_reserve progress_elsewhere)

lemma run_progress:
  assumes "list_all dated_step later"
  shows "progress (billing_run steps s) (billing_run (steps @ later) s)"
  using assms
proof (induction later rule: rev_induct)
  case (snoc x later)
  have "billing_run (steps @ later @ [x]) s = step_billing x (billing_run (steps @ later) s)" by (simp add: billing_run_def)
  then show ?case using progress_trans [OF snoc.IH step_progress] snoc.prems by simp
qed simp

lemma empty_progress:
  assumes "list_all dated_step steps"
  shows "progress (empty_billing contas issues changes) (billing_run steps (empty_billing contas issues changes))"
  using run_progress [OF assms, of "[]"] by (simp add: billing_run_def [of "[]"])

lemma empty_unique: "unique_accounts (empty_billing contas issues changes)"
  by (simp add: unique_accounts_def empty_billing_def)

lemma no_unpaid_operation_facts:
  fixes contas issues changes steps
  defines "s \<equiv> billing_run steps (empty_billing contas issues changes)"
  assumes "list_all dated_step steps" "a \<in> set (bs_accounts s)"
  shows "has_paid_history a \<Longrightarrow> recorded s (ac_contaId a) (ac_live a)"
    and "ac_status a = ACC_PAST_DUE \<or> (ac_status a = ACC_ACTIVE \<or> ac_status a = ACC_TRIALING) \<and> reached (ac_trialEndsAt a) now \<Longrightarrow>
      cover_running a now \<Longrightarrow> recorded s (ac_contaId a) (ac_live a)"
proof -
  let ?e = "empty_billing contas issues changes"
  have "backed_from ?e s a"
    using empty_progress [OF assms(2), of contas issues changes] assms(3) unfolding s_def by (simp add: progress_def empty_unique)
  then show paid: "has_paid_history a \<Longrightarrow> recorded s (ac_contaId a) (ac_live a)"
    by (simp add: backed_from_def empty_billing_def)
  show "recorded s (ac_contaId a) (ac_live a)"
    if "ac_status a = ACC_PAST_DUE \<or> (ac_status a = ACC_ACTIVE \<or> ac_status a = ACC_TRIALING) \<and> reached (ac_trialEndsAt a) now"
      "cover_running a now"
    using that by (intro paid) (auto simp: cover_running_def)
qed

text \<open>C15. No school operates unpaid beyond its trial: over every run of events and operations, whatever the provider answers
  and in whatever order, an account is marked as paid only if an invoice of the school is recorded as paid with a
  positive amount; so an account in grace, or active with its trial over, that has operational access is backed by such
  an invoice.\<close>

theorem no_unpaid_operation:
  fixes contas issues changes steps
  defines "s \<equiv> billing_run steps (empty_billing contas issues changes)"
  assumes "list_all dated_step steps" "a \<in> set (bs_accounts s)"
  shows "(has_paid_history a \<longrightarrow> recorded s (ac_contaId a) (ac_live a)) \<and>
    ((ac_status a = ACC_PAST_DUE \<or> (ac_status a = ACC_ACTIVE \<or> ac_status a = ACC_TRIALING) \<and> reached (ac_trialEndsAt a) now) \<and>
      cover_running a now \<longrightarrow> recorded s (ac_contaId a) (ac_live a))"
  using no_unpaid_operation_facts [where contas = contas and issues = issues and changes = changes, OF assms(2)] assms(3) unfolding s_def by blast

text \<open>A school in its trial pays the first invoice of its subscription.\<close>

definition demo_object :: stripe_object where
  "demo_object = \<lparr>so_id = Some ''in'', so_customer = Some ''cus'', so_subscription = Some ''sub'', so_metadata = (\<lambda>k. None), so_mode = None,
     so_status = Some ''paid'', so_currency = Some ''brl'', so_livemode = Some True, so_priceId = None, so_lines = [], so_periodEnd = None,
     so_trialEnd = None, so_canceledAt = None, so_paidAt = None, so_nextPaymentAttempt = None, so_cancelAtPeriodEnd = False,
     so_pendingUpdate = False, so_paymentMethod = METHOD_UNKNOWN, so_amountDue = Some 9900, so_amountPaid = Some 9900,
     so_attemptCount = Some 1\<rparr>"

definition demo_payment :: "int \<Rightarrow> webhook_input" where
  "demo_payment t = \<lparr>wi_event = \<lparr>ev_id = ''evt'', ev_type = ''invoice.paid'', ev_created = Some t, ev_object = demo_object\<rparr>,
     wi_live = True, wi_source = (\<lambda>k. None), wi_worker = None, wi_inbox = None, wi_now = t\<rparr>"

definition demo_gateway :: "string option \<Rightarrow> gateway" where
  "demo_gateway flow = \<lparr>gw_subscription = (\<lambda>i. None),
     gw_snapshot = (\<lambda>i. Some \<lparr>ss_id = i, ss_customerId = Some ''cus'', ss_status = ''active'', ss_livemode = True,
       ss_metadata = (\<lambda>k. if k = ''flow'' then flow else None), ss_priceIds = [], ss_currentPeriodEnd = None,
       ss_cancelAtPeriodEnd = False, ss_trialEndsAt = None\<rparr>),
     gw_session = (\<lambda>i. None), gw_latestInvoice = (\<lambda>i. None), gw_subscriptions = (\<lambda>i. None), gw_cancel = (\<lambda>i k. False)\<rparr>"

definition demo_start :: "unit billing_step list" where
  "demo_start = [NEW_ACCOUNT ''acc'' ''school'' True ''cus'', SYNC ((kept_update (demo_payment 5) (new_account ''acc'' ''school'' True (Some ''cus''))
     ''sub'')\<lparr>up_status := ACC_TRIALING, up_snapshot := None, up_trialEndsAt := Some 1000\<rparr>)]"

definition demo_billing_run :: "unit billing_step list" where
  "demo_billing_run = demo_start @ [EVENT (demo_gateway None) ''other'' (demo_payment 10)]"

lemma demo_dated: "list_all dated_step demo_billing_run"
  by (simp add: demo_billing_run_def demo_start_def dated_def demo_payment_def)

theorem no_unpaid_operation_witness:
  "recorded (billing_run demo_billing_run (empty_billing [''school''] [] [])) ''school'' True"
proof -
  let ?s = "billing_run demo_billing_run (empty_billing [''school''] [] [])"
  have h: "hd (bs_accounts ?s) \<in> set (bs_accounts ?s)" "has_paid_history (hd (bs_accounts ?s))"
    "ac_contaId (hd (bs_accounts ?s)) = ''school''" "ac_live (hd (bs_accounts ?s))" by code_simp+
  show ?thesis using no_unpaid_operation [OF demo_dated h(1)] h(2-4) by simp
qed

lemma find_by_id:
  assumes "unique_accounts s" "a \<in> set (bs_accounts s)"
  shows "find (\<lambda>b. ac_id b = ac_id a) (bs_accounts s) = Some a"
proof -
  have "find (\<lambda>b. ac_id b = ac_id a) (bs_accounts s) \<noteq> None" unfolding find_None_iff using assms(2) by blast
  then obtain b where b: "find (\<lambda>b. ac_id b = ac_id a) (bs_accounts s) = Some b" by blast
  then have "b = a" using find_SomeD [OF b] assms by (auto simp: unique_accounts_def distinct_map inj_on_def)
  then show ?thesis using b by simp
qed

lemma outdated_update:
  assumes "unique_accounts s" "a \<in> set (bs_accounts s)" "up_accountId u = ac_id a" "outdated u a"
  shows "snd (updateAccountFromStripeSubscription u s) = s"
  using find_by_id [OF assms(1,2)] assms(3,4) by (simp add: updateAccountFromStripeSubscription_def Let_def)

text \<open>The accounts and changes of plan are those of another store.\<close>

definition untouched :: "'p billing_store \<Rightarrow> 'p billing_store \<Rightarrow> bool" where
  "untouched s s' \<longleftrightarrow> bs_accounts s' = bs_accounts s \<and> bs_changes s' = bs_changes s"

lemma untouched_refl [simp]: "untouched s s"
  by (simp add: untouched_def)

lemma untouched_audited [simp]: "untouched s (audited i a action entity s)"
  by (simp add: untouched_def audited_def createAuditLog_def)

lemma untouched_and_done:
  assumes "snd r = s" "\<And>x. untouched s (g x s)"
  shows "untouched s (snd (then_run r (\<lambda>x t. (h x t, g x t))))"
proof (cases r)
  case (Pair e t)
  then show ?thesis using assms by (cases e) auto
qed

lemma stale_subscription_event:
  assumes u: "unique_accounts s" "findAccountByStripeSubscriptionId (wi_live i) sub s = Some a" "sub \<noteq> []"
    and e: "so_id (ev_object (wi_event i)) = Some sub" "ev_created (wi_event i) = Some t" "ac_lastEventCreatedAt a = Some seen" "t < seen"
  shows "untouched s (snd (processSubscriptionEvent g fresh i s))"
proof -
  have a: "a \<in> set (bs_accounts s)" using find_account_live(1) [OF u(2)] by simp
  have old: "snd (updateAccountFromStripeSubscription v s) = s"
    if "up_accountId v = ac_id a" "up_lastEventCreatedAt v = SET (Some t)" for v
    using outdated_update [OF u(1) a that(1)] that(2) e(3,4) by (simp add: outdated_def)
  have hold: "untouched s (snd (hold_until_paid i sub planCode a s))" for planCode
    unfolding hold_until_paid_def Let_def
    by (rule untouched_and_done) (use old e(2) in \<open>auto simp: kept_update_def\<close>)
  have "untouched s (snd (then_run (updateAccountFromStripeSubscription v s) (\<lambda>b s. (Inr (Some (ac_contaId b)), audited i b action entity s))))"
    if "up_accountId v = ac_id a" "up_lastEventCreatedAt v = SET (Some t)" for v action entity
    by (rule untouched_and_done [OF old [OF that]]) simp
  then have sync: "untouched s (snd (sync_subscription i sub state planCode a s))" for state planCode
    using e(2) by (auto simp: sync_subscription_def Let_def kept_update_def split: sum.splits)
  have "untouched s (snd (subscription_event g i sub a s))"
    by (simp add: subscription_event_def Let_def hold sync split: option.splits)
  then show ?thesis using u e(1) by (simp add: processSubscriptionEvent_def Let_def subscription_account_def)
qed

lemma events_never_go_back_facts:
  fixes contas issues changes steps
  defines "s \<equiv> billing_run steps (empty_billing contas issues changes)"
  assumes "list_all dated_step (steps @ later)"
  shows "a \<in> set (bs_accounts s) \<Longrightarrow>
      \<exists>b \<in> set (bs_accounts (billing_run (steps @ later) (empty_billing contas issues changes))). same_school a b \<and>
        not_before (ac_lastEventCreatedAt a) (ac_lastEventCreatedAt b)"
    and "findAccountByStripeSubscriptionId (wi_live i) sub s = Some a \<Longrightarrow> so_id (ev_object (wi_event i)) = Some sub \<Longrightarrow> sub \<noteq> [] \<Longrightarrow>
      ev_created (wi_event i) = Some t \<Longrightarrow> ac_lastEventCreatedAt a = Some seen \<Longrightarrow> t < seen \<Longrightarrow>
      untouched s (snd (processSubscriptionEvent g fresh i s))"
proof -
  let ?e = "empty_billing contas issues changes"
  have u: "unique_accounts s" using empty_progress [of steps contas issues changes] assms(2) unfolding s_def by (simp add: progress_def empty_unique)
  then show "\<exists>b \<in> set (bs_accounts (billing_run (steps @ later) ?e)). same_school a b \<and>
        not_before (ac_lastEventCreatedAt a) (ac_lastEventCreatedAt b)" if "a \<in> set (bs_accounts s)"
    using run_progress [of later steps ?e] assms(2) that unfolding s_def by (simp add: progress_def)
  show "untouched s (snd (processSubscriptionEvent g fresh i s))"
    if "findAccountByStripeSubscriptionId (wi_live i) sub s = Some a" "so_id (ev_object (wi_event i)) = Some sub" "sub \<noteq> []"
      "ev_created (wi_event i) = Some t" "ac_lastEventCreatedAt a = Some seen" "t < seen"
    using stale_subscription_event [OF u] that by blast
qed

text \<open>C18. An account only moves forward in the provider's time: over every run an account is never lost and the date of the
  newest event it has seen never falls; and an event of its subscription that is older than that date changes no
  account and no change of plan.\<close>

theorem events_never_go_back:
  fixes contas issues changes steps
  defines "s \<equiv> billing_run steps (empty_billing contas issues changes)"
  assumes "list_all dated_step (steps @ later)"
  shows "(\<forall>a \<in> set (bs_accounts s).
      \<exists>b \<in> set (bs_accounts (billing_run (steps @ later) (empty_billing contas issues changes))). same_school a b \<and>
        not_before (ac_lastEventCreatedAt a) (ac_lastEventCreatedAt b)) \<and>
    (findAccountByStripeSubscriptionId (wi_live i) sub s = Some a \<and> so_id (ev_object (wi_event i)) = Some sub \<and> sub \<noteq> [] \<and>
      ev_created (wi_event i) = Some t \<and> ac_lastEventCreatedAt a = Some seen \<and> t < seen \<longrightarrow>
      untouched s (snd (processSubscriptionEvent g fresh i s)))"
  using events_never_go_back_facts [where contas = contas and issues = issues and changes = changes, OF assms(2)] unfolding s_def by blast

theorem events_never_go_back_witness:
  "(\<exists>b \<in> set (bs_accounts (billing_run (demo_billing_run @ demo_start) (empty_billing [''school''] [] []))).
      ac_id b = ''acc'' \<and> not_before (Some 10) (ac_lastEventCreatedAt b)) \<and>
   (let s = billing_run demo_billing_run (empty_billing [''school''] [] []);
        old = (demo_payment 9)\<lparr>wi_event := (wi_event (demo_payment 9))\<lparr>ev_object := demo_object\<lparr>so_id := Some ''sub''\<rparr>\<rparr>\<rparr>
    in untouched s (snd (processSubscriptionEvent (demo_gateway None) ''new'' old s)))"
proof -
  let ?s = "billing_run demo_billing_run (empty_billing [''school''] [] [])"
  let ?a = "hd (bs_accounts ?s)"
  let ?old = "(demo_payment 9)\<lparr>wi_event := (wi_event (demo_payment 9))\<lparr>ev_object := demo_object\<lparr>so_id := Some ''sub''\<rparr>\<rparr>\<rparr>"
  have d: "list_all dated_step (demo_billing_run @ demo_start)" using demo_dated by (simp add: demo_billing_run_def)
  have h: "?a \<in> set (bs_accounts ?s)" "ac_id ?a = ''acc''" "ac_lastEventCreatedAt ?a = Some 10"
    "findAccountByStripeSubscriptionId (wi_live ?old) ''sub'' ?s = Some ?a" by code_simp+
  have o: "so_id (ev_object (wi_event ?old)) = Some ''sub''" "ev_created (wi_event ?old) = Some 9" by code_simp+
  have "untouched ?s (snd (processSubscriptionEvent (demo_gateway None) ''new'' ?old ?s))"
    using events_never_go_back [where contas = "[''school'']" and issues = "[]" and changes = "[]", OF d, THEN conjunct2, THEN mp,
        OF conjI, OF h(4) conjI, OF o(1) conjI, OF _ conjI, OF _ o(2) conjI, OF _ h(3)] by simp
  then show ?thesis using events_never_go_back [where contas = "[''school'']" and issues = "[]" and changes = "[]", OF d, THEN conjunct1, THEN bspec, OF h(1)] h(2,3) unfolding Let_def same_school_def by auto
qed

end
