(* ===== verification/PlatformPayments.thy ===== *)
theory PlatformPayments
  imports PlatformRuns
begin

text \<open>
  What becomes of a paid invoice of a school. It is always recorded; whether the account becomes a paid one depends on the
  events processed before it.
\<close>

text \<open>The account's row is the one its subscription finds, and the payment is a new one of the school.\<close>

definition paid_invoice :: "webhook_input \<Rightarrow> billing_account \<Rightarrow> string \<Rightarrow> 'p billing_store \<Rightarrow> bool" where
  "paid_invoice i a sub s \<longleftrightarrow>
     (let o1 = ev_object (wi_event i)
      in unique_accounts s \<and> findAccountByStripeSubscriptionId (wi_live i) sub s = Some a \<and> sub \<noteq> [] \<and>
         \<not> subscription_taken (wi_live i) sub (\<lambda>b. ac_id b = ac_id a) s \<and>
         (ev_type (wi_event i) = ''invoice.paid'' \<or> ev_type (wi_event i) = ''invoice.payment_succeeded'') \<and>
         truthy (so_id o1) \<and> truthy (so_customer o1) \<and> so_customer o1 = ac_customerId a \<and> so_subscription o1 = Some sub \<and>
         so_metadata o1 ''contaId'' \<in> {None, Some (ac_contaId a)} \<and> so_status o1 = Some ''paid'' \<and>
         0 < count_or_zero (so_amountPaid o1) \<and> \<not> snd (readInvoicePriceId o1) \<and> ac_planCode a \<noteq> Some ''CUSTOM'' \<and>
         list_all (\<lambda>j. pi_live j = wi_live i \<and> Some (pi_id j) = so_id o1 \<longrightarrow> pi_contaId j = ac_contaId a) (bs_invoices s) \<and>
         (case lease_of i of None \<Rightarrow> True
          | Some (n, w) \<Rightarrow> list_ex (\<lambda>r. ib_id r = n \<and> ib_workerId r = Some w \<and> ib_status r = IN_PROCESSING) (bs_inbox s)))"

text \<open>The store agrees with another on the accounts and on what decides an update, and has the payment.\<close>

definition payment_stored :: "billing_account \<Rightarrow> 'p billing_store \<Rightarrow> 'p billing_store \<Rightarrow> bool" where
  "payment_stored a s t \<longleftrightarrow> bs_accounts t = bs_accounts s \<and> bs_inbox t = bs_inbox s \<and> bs_changes t = bs_changes s \<and>
     recorded t (ac_contaId a) (ac_live a)"

lemma upsert_tables:
  "bs_inbox (snd (upsertInvoice u s)) = bs_inbox s" "bs_changes (snd (upsertInvoice u s)) = bs_changes s"
  by (simp_all add: upsertInvoice_def split: option.splits)

lemma audited_tables [simp]:
  "bs_accounts (audited i a action entity s) = bs_accounts s" "bs_inbox (audited i a action entity s) = bs_inbox s"
  "bs_changes (audited i a action entity s) = bs_changes s" "recorded (audited i a action entity s) c l = recorded s c l"
  by (simp_all add: audited_def createAuditLog_def recorded_def)

lemma paid_invoice_processed:
  assumes "paid_invoice i a sub s"
  obtains f t where "processInvoiceEvent g i (ev_object (wi_event i)) False s =
      then_run (apply_payment g i (ev_object (wi_event i)) a f t) (\<lambda>_ s. (Inr (Some (ac_contaId a)), s))"
    "payment_stored a s t" "if_conversion f" "\<not> if_failure f" "if_subscriptionId f = Some sub" "if_failedAt f = None"
    "Some (if_customerId f) = ac_customerId a"
proof -
  let ?o = "ev_object (wi_event i)"
  note p = assms [unfolded paid_invoice_def Let_def]
  have a: "ac_live a = wi_live i" "ac_subscriptionId a = Some sub" using p find_account_live(1) by blast+
  have acc: "invoice_account i ?o (the (so_customer ?o)) s = Inr a"
    using p by (auto simp: invoice_account_def truthy_def)
  obtain price where price: "readInvoicePriceId ?o = (price, False)" using p by (cases "readInvoicePriceId ?o") simp
  obtain f where f: "invoice_facts_of i ?o False (the (so_id ?o)) (the (so_customer ?o)) a = Inr f" "if_conversion f" "\<not> if_failure f"
    "if_subscriptionId f = Some sub" "if_failedAt f = None" "Some (if_customerId f) = ac_customerId a" "if_id f = the (so_id ?o)"
    using p a by (auto simp: invoice_facts_of_def Let_def price truthy_def)
  let ?u = "invoice_update_of i ?o False a f"
  have upsert: "upsertInvoice ?u s = (Inr (), snd (upsertInvoice ?u s))"
  proof (cases "find (invoice_of ?u) (bs_invoices s)")
    case None
    then show ?thesis by (simp add: upsertInvoice_def)
  next
    case (Some j)
    have "j \<in> set (bs_invoices s) \<and> invoice_of ?u j" by (rule find_SomeD [OF Some])
    moreover have "list_all (\<lambda>j. pi_live j = wi_live i \<and> Some (pi_id j) = so_id ?o \<longrightarrow> pi_contaId j = ac_contaId a) (bs_invoices s)"
      "truthy (so_id ?o)" using p by blast+
    ultimately have "pi_contaId j = ac_contaId a"
      by (auto simp: list_all_iff invoice_of_def invoice_update_of_def f(7) truthy_def)
    then show ?thesis using Some by (simp add: upsertInvoice_def invoice_update_of_def)
  qed
  let ?t = "audited i a (resolveInvoiceAuditAction (ev_type (wi_event i))) (Some (if_id f)) (snd (upsertInvoice ?u s))"
  have "recorded (snd (upsertInvoice ?u s)) (iu_contaId ?u) (iu_live ?u)"
  proof (rule upsert_records)
    show "fst (upsertInvoice ?u s) = Inr ()" using upsert by (metis fst_conv)
    show "iu_status ?u = INV_PAID" "0 < iu_amountPaid ?u"
      using invoice_conversion(1,2) [OF f(1,2)] by (simp_all add: invoice_update_of_def)
  qed
  then have "payment_stored a s ?t" by (simp add: payment_stored_def upsert_tables invoice_update_of_def a(1))
  moreover have "processInvoiceEvent g i ?o False s =
      then_run (apply_payment g i ?o a f ?t) (\<lambda>_ s. (Inr (Some (ac_contaId a)), s))"
  proof -
    have "truthy (so_id ?o)" "truthy (so_customer ?o)" using p by blast+
    then show ?thesis using acc f(1) by (subst processInvoiceEvent_def) (simp, subst upsert, simp)
  qed
  ultimately show thesis using that f by blast
qed

text \<open>An update that is neither out of date nor from another snapshot is written.\<close>

lemma update_written:
  assumes "unique_accounts s" "a \<in> set (bs_accounts s)" "up_accountId u = ac_id a" "lease_holds u s" "\<not> outdated u a" "snapshot_holds u a"
    "\<not> subscription_taken (ac_live a) (up_subscriptionId u) (\<lambda>b. ac_id b = ac_id a) s" "up_finalization u = None"
  obtains b where "fst (updateAccountFromStripeSubscription u s) = Inr b"
    "b \<in> set (bs_accounts (snd (updateAccountFromStripeSubscription u s)))" "same_school a b"
    "ac_status b = up_status u" "has_paid_history b = has_paid_history (account_written u a)"
    "ac_accessStatus b = ac_accessStatus (account_written u a)" "ac_lastEventId b = Some (up_lastEventId u)"
    "ac_subscriptionId b = Some (up_subscriptionId u)"
    "up_pendingChangeType u = SET (Some CHANGE_REACTIVATE) \<Longrightarrow> ac_pendingChangeType b = Some CHANGE_REACTIVATE"
proof -
  let ?own = "\<lambda>b. ac_id b = up_accountId u"
  let ?s1 = "map_accounts ?own (account_written u) s"
  let ?s2 = "without_cancellation u ?s1"
  have f: "find ?own (bs_accounts s) = Some a" using find_by_id [OF assms(1,2)] assms(3) by simp
  then have up: "updateAccountFromStripeSubscription u s = refetched ?own ?s2"
    using assms by (simp add: updateAccountFromStripeSubscription_def Let_def)
  have w: "account_written u a \<in> set (bs_accounts ?s1)"
    using assms(2,3) by (force simp: map_accounts_def)
  define c where "c = (if \<not> up_cancelAtPeriodEnd u \<and> ac_pendingChangeType (account_written u a) = Some CHANGE_CANCEL_AT_PERIOD_END
    then (account_written u a)\<lparr>ac_pendingChangeType := None, ac_pendingEffectiveAt := None\<rparr> else account_written u a)"
  have id: "ac_id (account_written u a) = up_accountId u" using account_written_kept(1) [of a u] assms(3) by (simp add: same_school_def)
  have c: "c \<in> set (bs_accounts ?s2)"
  proof (cases "up_cancelAtPeriodEnd u")
    case False
    let ?P = "\<lambda>a. ac_id a = up_accountId u \<and> ac_pendingChangeType a = Some CHANGE_CANCEL_AT_PERIOD_END"
    let ?f = "\<lambda>a. if ?P a then a\<lparr>ac_pendingChangeType := None, ac_pendingEffectiveAt := None\<rparr> else a"
    have "bs_accounts ?s2 = map ?f (bs_accounts ?s1)" using False by (simp add: without_cancellation_def map_accounts_def)
    moreover have "?f (account_written u a) = c" using False id by (simp add: c_def)
    ultimately show ?thesis using imageI [OF w, of ?f] by simp
  qed (use w in \<open>simp add: c_def without_cancellation_def\<close>)
  have "unique_accounts ?s2"
  proof -
    have "unique_accounts ?s1" using assms(1) account_written_kept(1) by (simp add: unique_accounts_def map_accounts_def o_def same_school_def if_distrib cong: if_cong)
    then show ?thesis using progress_without_cancellation [of ?s1 u] by (simp add: progress_def)
  qed
  then have "find (\<lambda>b. ac_id b = ac_id c) (bs_accounts ?s2) = Some c" using c by (rule find_by_id)
  moreover have "ac_id c = up_accountId u" by (simp add: c_def id)
  ultimately have "updateAccountFromStripeSubscription u s = (Inr c, ?s2)" unfolding up refetched_def by simp
  moreover have "same_school a c" "ac_status c = up_status u" "has_paid_history c = has_paid_history (account_written u a)"
    "ac_accessStatus c = ac_accessStatus (account_written u a)" "ac_lastEventId c = Some (up_lastEventId u)"
    "ac_subscriptionId c = Some (up_subscriptionId u)"
    "up_pendingChangeType u = SET (Some CHANGE_REACTIVATE) \<Longrightarrow> ac_pendingChangeType c = Some CHANGE_REACTIVATE"
    using account_written_kept(1) [of a u]
    by (auto simp: c_def account_written_def Let_def same_school_def free_trial_claim_def has_paid_history_def)
  ultimately show thesis using c by (intro that [of c]) simp_all
qed

lemma snapshot_of_holds: "up_snapshot u = Some (account_snapshot_of a) \<Longrightarrow> snapshot_holds u a"
  by (simp add: snapshot_holds_def account_snapshot_of_def)

lemma recorded_and_done: "recorded (snd r) c l \<Longrightarrow> (\<And>x t. recorded t c l \<Longrightarrow> recorded (g x t) c l) \<Longrightarrow>
    recorded (snd (then_run r (\<lambda>x t. (h x t, g x t)))) c l"
  by (cases r; cases "fst r") auto

lemma resolve_tables [simp]: "bs_accounts (resolveOpenIssuesForPaidAccount c n l s) = bs_accounts s"
  "bs_changes (resolveOpenIssuesForPaidAccount c n l s) = bs_changes s"
  "recorded (resolveOpenIssuesForPaidAccount c n l s) c' l' = recorded s c' l'"
  by (simp_all add: resolveOpenIssuesForPaidAccount_def Let_def createAuditLog_def recorded_def)

text \<open>The account is not behind the event, or it is.\<close>

definition up_to_date :: "webhook_input \<Rightarrow> billing_account \<Rightarrow> bool" where
  "up_to_date i a \<longleftrightarrow> (case (ev_created (wi_event i), ac_lastEventCreatedAt a) of (Some t, Some seen) \<Rightarrow> seen \<le> t | _ \<Rightarrow> True)"

lemma payment_update_fields:
  "up_accountId (payment_update i o1 a sub f v) = ac_id a" "up_lease (payment_update i o1 a sub f v) = lease_of i"
  "up_snapshot (payment_update i o1 a sub f v) = Some (account_snapshot_of a)"
  "up_finalization (payment_update i o1 a sub f v) = None" "up_subscriptionId (payment_update i o1 a sub f v) = sub"
  "up_lastEventCreatedAt (payment_update i o1 a sub f v) = SET (ev_created (wi_event i))"
  "up_lastEventId (payment_update i o1 a sub f v) = ev_id (wi_event i)"
  "if_conversion f \<Longrightarrow> up_lastSuccessfulPaymentAt (payment_update i o1 a sub f v) \<noteq> KEEP \<and>
     up_lastSuccessfulPaymentAt (payment_update i o1 a sub f v) \<noteq> SET None"
  by (simp_all add: payment_update_def Let_def kept_update_def)

lemma direct_payment:
  assumes "if_conversion f" "if_subscriptionId f = Some sub" "sub \<noteq> []" "\<not> must_verify a sub"
  shows "apply_payment g i o1 a f t = then_run (updateAccountFromStripeSubscription (payment_update i o1 a sub f None) t) (\<lambda>b s.
             (Inr (), if ac_lastEventId b = Some (ev_id (wi_event i))
                then resolveOpenIssuesForPaidAccount (ac_contaId a) (ac_id a) (wi_live i) s else s))"
  using assms by (simp add: apply_payment_def Let_def verify_activation_def)

lemma fst_and_done: "fst r = Inr b \<Longrightarrow> then_run r (\<lambda>x t. (Inr (h x t), g x t)) = (Inr (h b (snd r)), g b (snd r))"
  by (cases r) simp

lemma untouched_payment: "payment_stored a s t \<Longrightarrow> untouched t t' \<Longrightarrow> untouched s t'"
  by (simp add: payment_stored_def untouched_def)

lemma up_to_date_not_outdated:
  "up_lastEventCreatedAt u = SET (ev_created (wi_event i)) \<Longrightarrow> ac_id b = ac_id a \<Longrightarrow> outdated u a = (\<not> up_to_date i a)"
  by (auto simp: outdated_def up_to_date_def split: option.splits)

lemma paid_written:
  assumes "up_lastSuccessfulPaymentAt u \<noteq> KEEP" "up_lastSuccessfulPaymentAt u \<noteq> SET None"
  shows "has_paid_history (account_written u a)"
  using assms by (cases "up_lastSuccessfulPaymentAt u") (auto simp: account_written_kept(3))

lemma outdated_result:
  assumes "unique_accounts s" "a \<in> set (bs_accounts s)" "up_accountId u = ac_id a" "outdated u a" "lease_holds u s"
  shows "updateAccountFromStripeSubscription u s = (Inr a, s)"
  using find_by_id [OF assms(1,2)] assms(3-5) by (simp add: updateAccountFromStripeSubscription_def Let_def)

lemma update_recorded: "recorded (snd (updateAccountFromStripeSubscription u s)) c l = recorded s c l"
  by (simp add: recorded_def)

lemma payment_update_result:
  assumes p: "paid_invoice i a sub s" and t: "payment_stored a s t" and f: "if_conversion f"
  defines "u \<equiv> payment_update i (ev_object (wi_event i)) a sub f None"
  obtains b where "fst (updateAccountFromStripeSubscription u t) = Inr b"
    "up_to_date i a \<Longrightarrow> \<exists>b \<in> set (bs_accounts (snd (updateAccountFromStripeSubscription u t))). same_school a b \<and> has_paid_history b"
    "\<not> up_to_date i a \<Longrightarrow> snd (updateAccountFromStripeSubscription u t) = t"
proof -
  note q = p [unfolded paid_invoice_def Let_def]
  have found: "findAccountByStripeSubscriptionId (wi_live i) sub s = Some a" using q by blast
  have a: "a \<in> set (bs_accounts t)" "ac_live a = wi_live i" "unique_accounts t"
    using q find_account_live(1) [OF found] t by (auto simp: payment_stored_def unique_accounts_def)
  have own: "up_accountId u = ac_id a" by (simp add: u_def payment_update_fields)
  have out: "outdated u a = (\<not> up_to_date i a)"
    by (rule up_to_date_not_outdated) (simp_all add: u_def payment_update_fields)
  have "case lease_of i of None \<Rightarrow> True
          | Some (n, w) \<Rightarrow> list_ex (\<lambda>r. ib_id r = n \<and> ib_workerId r = Some w \<and> ib_status r = IN_PROCESSING) (bs_inbox s)"
    using q by blast
  moreover have "bs_inbox t = bs_inbox s" using t by (simp add: payment_stored_def)
  ultimately have lease: "lease_holds u t" by (simp add: lease_holds_def u_def payment_update_fields split: option.splits prod.splits)
  show thesis
  proof (cases "up_to_date i a")
    case True
    have "\<not> subscription_taken (wi_live i) sub (\<lambda>b. ac_id b = ac_id a) s" using q by blast
    then have "\<not> subscription_taken (ac_live a) (up_subscriptionId u) (\<lambda>b. ac_id b = ac_id a) t"
      using t a(2) by (simp add: u_def payment_update_fields payment_stored_def subscription_taken_def)
    moreover have "snapshot_holds u a" by (rule snapshot_of_holds) (simp add: u_def payment_update_fields)
    ultimately obtain b where "fst (updateAccountFromStripeSubscription u t) = Inr b"
      "b \<in> set (bs_accounts (snd (updateAccountFromStripeSubscription u t)))" "same_school a b"
      "has_paid_history b = has_paid_history (account_written u a)"
      using update_written [OF a(3,1) own lease] True out by (auto simp: u_def payment_update_fields)
    moreover have "has_paid_history (account_written u a)"
      using payment_update_fields(8) [OF f] by (intro paid_written) (simp_all add: u_def)
    ultimately show thesis using True that by blast
  next
    case False
    then show thesis using outdated_result [OF a(3,1) own _ lease] out that by auto
  qed
qed

lemma payment_effect_facts:
  fixes g i s a sub
  defines "r \<equiv> processInvoiceEvent g i (ev_object (wi_event i)) False s"
  assumes p: "paid_invoice i a sub s" and v: "\<not> must_verify a sub"
  shows "fst r = Inr (Some (ac_contaId a)) \<and> recorded (snd r) (ac_contaId a) (ac_live a)"
    and "up_to_date i a \<Longrightarrow> \<exists>b \<in> set (bs_accounts (snd r)). same_school a b \<and> has_paid_history b"
    and "\<not> up_to_date i a \<Longrightarrow> untouched s (snd r)"
proof -
  let ?o = "ev_object (wi_event i)"
  obtain f t where ft: "r = then_run (apply_payment g i ?o a f t) (\<lambda>_ s. (Inr (Some (ac_contaId a)), s))"
    "payment_stored a s t" "if_conversion f" "\<not> if_failure f" "if_subscriptionId f = Some sub"
    unfolding r_def by (rule paid_invoice_processed [OF p, of g]) blast
  note q = p [unfolded paid_invoice_def Let_def]
  let ?u = "payment_update i ?o a sub f None"
  have f: "findAccountByStripeSubscriptionId (wi_live i) sub s = Some a" using q by blast
  have a: "a \<in> set (bs_accounts t)" "ac_live a = wi_live i" "unique_accounts t"
    using q find_account_live(1) [OF f] ft(2) by (auto simp: payment_stored_def unique_accounts_def)
  have pay: "apply_payment g i ?o a f t = then_run (updateAccountFromStripeSubscription ?u t) (\<lambda>b s.
             (Inr (), if ac_lastEventId b = Some (ev_id (wi_event i))
                then resolveOpenIssuesForPaidAccount (ac_contaId a) (ac_id a) (wi_live i) s else s))"
    using direct_payment [OF ft(3,5) _ v] q by blast
  have rec: "recorded t (ac_contaId a) (ac_live a)" using ft(2) by (simp add: payment_stored_def)
  have out: "outdated ?u a = (\<not> up_to_date i a)"
    by (rule up_to_date_not_outdated) (simp_all add: payment_update_fields)
  let ?done = "\<lambda>b s. if ac_lastEventId b = Some (ev_id (wi_event i))
      then resolveOpenIssuesForPaidAccount (ac_contaId a) (ac_id a) (wi_live i) s else s"
  obtain b where b: "fst (updateAccountFromStripeSubscription ?u t) = Inr b"
    "up_to_date i a \<Longrightarrow> \<exists>b \<in> set (bs_accounts (snd (updateAccountFromStripeSubscription ?u t))). same_school a b \<and> has_paid_history b"
    "\<not> up_to_date i a \<Longrightarrow> snd (updateAccountFromStripeSubscription ?u t) = t"
    using payment_update_result [OF p ft(2,3)] by blast
  let ?t = "snd (updateAccountFromStripeSubscription ?u t)"
  have r: "r = (Inr (Some (ac_contaId a)), ?done b ?t)"
    unfolding ft(1) pay by (subst fst_and_done [OF b(1)]) simp
  have "recorded ?t (ac_contaId a) (ac_live a)"
    using rec by (simp add: update_recorded)
  then show "fst r = Inr (Some (ac_contaId a)) \<and> recorded (snd r) (ac_contaId a) (ac_live a)" by (simp add: r)
  show "\<exists>b \<in> set (bs_accounts (snd r)). same_school a b \<and> has_paid_history b" if "up_to_date i a"
    using b(2) [OF that] by (simp add: r)
  show "untouched s (snd r)" if "\<not> up_to_date i a"
    by (rule untouched_payment [OF ft(2)]) (simp add: r b(3) [OF that] untouched_def)
qed

text \<open>C16. A paid invoice that needs no verification is always recorded, and its event is answered as processed. It makes the
  account a paid one if the account has seen no newer event; if it has, the payment leaves every account as it is,
  although nothing will deliver it again.\<close>

theorem payment_effect:
  fixes g i s a sub
  defines "r \<equiv> processInvoiceEvent g i (ev_object (wi_event i)) False s"
  assumes "paid_invoice i a sub s" "\<not> must_verify a sub"
  shows "fst r = Inr (Some (ac_contaId a)) \<and> recorded (snd r) (ac_contaId a) (ac_live a) \<and>
    (up_to_date i a \<longrightarrow> (\<exists>b \<in> set (bs_accounts (snd r)). same_school a b \<and> has_paid_history b)) \<and>
    (\<not> up_to_date i a \<longrightarrow> untouched s (snd r))"
  using payment_effect_facts [OF assms(2,3)] unfolding r_def by blast

text \<open>The subscription carries no flow of a checkout, as those of the trials do.\<close>

definition without_flow :: "gateway \<Rightarrow> string \<Rightarrow> bool" where
  "without_flow g sub \<longleftrightarrow> (case gw_snapshot g sub of None \<Rightarrow> False
     | Some x \<Rightarrow> ss_metadata x ''flow'' \<noteq> Some ''subscription'' \<and> ss_metadata x ''flow'' \<noteq> Some ''reactivation'')"

lemma unlinked_held:
  assumes "must_verify a sub" "without_flow g sub"
  shows "verify_activation g i a sub f t = hold_and_fail i a sub (if_planCode f) processing_failed t"
proof -
  obtain x where x: "gw_snapshot g sub = Some x" "ss_metadata x ''flow'' \<noteq> Some ''subscription''"
    "ss_metadata x ''flow'' \<noteq> Some ''reactivation''" using assms(2) by (auto simp: without_flow_def split: option.splits)
  then have "getCanonicalActiveBoundSubscription g (wi_live i) (Some sub) (if_customerId f) a (if_priceId f) \<in> {Some None, Some (Some x)}"
    by (simp add: getCanonicalActiveBoundSubscription_def)
  moreover have "readReactivationOrigin (ss_metadata x) = None" using x(3) by (simp add: readReactivationOrigin_def Let_def split: option.splits)
  ultimately show ?thesis using assms(1) x(2,3) by (auto simp: verify_activation_def Let_def)
qed

lemma hold_effect:
  assumes "unique_accounts t" "a \<in> set (bs_accounts t)" "ac_subscriptionId a = Some sub"
    "\<not> subscription_taken (ac_live a) sub (\<lambda>b. ac_id b = ac_id a) t"
  obtains b where "fst (holdReactivationAccountForReconciliation i a sub planCode t) = Inr ()"
    "b \<in> set (bs_accounts (snd (holdReactivationAccountForReconciliation i a sub planCode t)))" "same_school a b"
    "ac_status b = held_status a" "ac_accessStatus b = held_access (held_status a) a" "ac_subscriptionId b = Some sub"
    "ac_pendingChangeType b = Some CHANGE_REACTIVATE" "has_paid_history b = has_paid_history a"
    "\<And>c l. recorded (snd (holdReactivationAccountForReconciliation i a sub planCode t)) c l = recorded t c l"
proof -
  define writes where "writes \<longleftrightarrow> held_status a \<noteq> ac_status a \<or> held_access (held_status a) a \<noteq> ac_accessStatus a \<or>
    ac_pendingChangeType a \<noteq> Some CHANGE_REACTIVATE \<or> truthy planCode \<and> ac_pendingPlanCode a \<noteq> planCode"
  define u where "u = (kept_update i a sub)\<lparr>up_status := held_status a, up_accessStatus := Some (held_access (held_status a) a),
            up_restrictedAt := SET (if held_status a = ACC_PAUSED \<and> ac_restrictedAt a = None then Some (wi_now i) else ac_restrictedAt a),
            up_pendingPlanCode := (if planCode = None then KEEP else SET planCode),
            up_pendingChangeType := SET (Some CHANGE_REACTIVATE)\<rparr>"
  note hold = holdReactivationAccountForReconciliation_def [of i a sub planCode t, unfolded Let_def, folded writes_def u_def]
  have u: "up_accountId u = ac_id a" "lease_holds u t" "\<not> outdated u a" "snapshot_holds u a"
    "\<not> subscription_taken (ac_live a) (up_subscriptionId u) (\<lambda>b. ac_id b = ac_id a) t" "up_finalization u = None"
    using assms(4) by (simp_all add: u_def kept_update_def lease_holds_def outdated_def snapshot_of_holds)
  show thesis
  proof (cases writes)
    case True
    obtain b where b: "fst (updateAccountFromStripeSubscription u t) = Inr b"
      "b \<in> set (bs_accounts (snd (updateAccountFromStripeSubscription u t)))" "same_school a b"
      "ac_status b = up_status u" "has_paid_history b = has_paid_history (account_written u a)"
      "ac_accessStatus b = ac_accessStatus (account_written u a)" "ac_subscriptionId b = Some (up_subscriptionId u)"
      "up_pendingChangeType u = SET (Some CHANGE_REACTIVATE) \<Longrightarrow> ac_pendingChangeType b = Some CHANGE_REACTIVATE"
      by (rule update_written [OF assms(1,2) u]) blast
    have "has_paid_history (account_written u a) = has_paid_history a"
      unfolding account_written_kept(3) by (simp add: u_def kept_update_def has_paid_history_def)
    moreover have "ac_accessStatus (account_written u a) = held_access (held_status a) a"
      by (simp add: account_written_def Let_def u_def kept_update_def free_trial_claim_def)
    moreover have "holdReactivationAccountForReconciliation i a sub planCode t = (Inr (),
        audited i a ''PLATFORM_BILLING_REACTIVATION_RECONCILIATION_REQUIRED'' (Some sub) (snd (updateAccountFromStripeSubscription u t)))"
      unfolding hold if_P [OF True] by (rule fst_and_done [OF b(1)])
    ultimately show thesis using b by (intro that [of b]) (simp_all add: u_def kept_update_def update_recorded)
  next
    case False
    then have "holdReactivationAccountForReconciliation i a sub planCode t =
        (Inr (), audited i a ''PLATFORM_BILLING_REACTIVATION_RECONCILIATION_REQUIRED'' (Some sub) t)"
      unfolding hold by simp
    then show thesis using False assms(2,3) by (intro that [of a]) (auto simp: writes_def)
  qed
qed

text \<open>C17. A first paid invoice that must be verified, of a subscription without the flow of a checkout, is refused although it
  is recorded: the account is held for a reactivation, restricted if it was active, and stays in the state that has the
  next payment refused as well.\<close>

theorem unlinked_payment_refused:
  fixes g i s a sub
  defines "r \<equiv> processInvoiceEvent g i (ev_object (wi_event i)) False s"
  assumes p: "paid_invoice i a sub s" and v: "must_verify a sub" and w: "without_flow g sub"
  shows "fst r = Inl processing_failed \<and> recorded (snd r) (ac_contaId a) (ac_live a) \<and>
    (\<exists>b \<in> set (bs_accounts (snd r)). same_school a b \<and> ac_pendingChangeType b = Some CHANGE_REACTIVATE \<and>
       ac_status b = held_status a \<and> (ac_status a = ACC_ACTIVE \<longrightarrow> ac_accessStatus b = ACCESS_RESTRICTED) \<and>
       has_paid_history b = has_paid_history a \<and> must_verify b sub)"
proof -
  let ?o = "ev_object (wi_event i)"
  obtain f t where ft: "r = then_run (apply_payment g i ?o a f t) (\<lambda>_ s. (Inr (Some (ac_contaId a)), s))"
    "payment_stored a s t" "if_conversion f" "\<not> if_failure f" "if_subscriptionId f = Some sub"
    unfolding r_def by (rule paid_invoice_processed [OF p, of g]) blast
  note q = p [unfolded paid_invoice_def Let_def]
  have found: "findAccountByStripeSubscriptionId (wi_live i) sub s = Some a" using q by blast
  have a: "a \<in> set (bs_accounts t)" "ac_live a = wi_live i" "ac_subscriptionId a = Some sub" "unique_accounts t" "sub \<noteq> []"
    using q find_account_live(1) [OF found] ft(2) by (auto simp: payment_stored_def unique_accounts_def)
  have "\<not> subscription_taken (wi_live i) sub (\<lambda>b. ac_id b = ac_id a) s" using q by blast
  then have free: "\<not> subscription_taken (ac_live a) sub (\<lambda>b. ac_id b = ac_id a) t"
    using ft(2) a(2) by (simp add: payment_stored_def subscription_taken_def)
  define plan where "plan = (if ac_pendingPlanCode a = None then if_planCode f else ac_pendingPlanCode a)"
  obtain b where b: "fst (holdReactivationAccountForReconciliation i a sub plan t) = Inr ()"
    "b \<in> set (bs_accounts (snd (holdReactivationAccountForReconciliation i a sub plan t)))" "same_school a b"
    "ac_status b = held_status a" "ac_accessStatus b = held_access (held_status a) a" "ac_subscriptionId b = Some sub"
    "ac_pendingChangeType b = Some CHANGE_REACTIVATE" "has_paid_history b = has_paid_history a"
    "\<And>c l. recorded (snd (holdReactivationAccountForReconciliation i a sub plan t)) c l = recorded t c l"
    by (rule hold_effect [OF a(4,1,3) free]) blast
  let ?t = "snd (holdReactivationAccountForReconciliation i a sub plan t)"
  have "verify_activation g i a sub f t = (Inl processing_failed, ?t)"
    unfolding unlinked_held [OF v w] hold_and_fail_def plan_def [symmetric]
    using b(1) by (cases "holdReactivationAccountForReconciliation i a sub plan t") simp
  then have "apply_payment g i ?o a f t = (Inl processing_failed, ?t)"
    using ft(3,5) a(5) by (simp add: apply_payment_def Let_def)
  then have r: "r = (Inl processing_failed, ?t)" by (simp add: ft(1))
  have "held_access (held_status a) a = ACCESS_RESTRICTED" if "ac_status a = ACC_ACTIVE"
    using that by (simp add: held_status_def held_access_def)
  moreover have "must_verify b sub" using b(6,7) by (simp add: must_verify_def)
  moreover have "recorded t (ac_contaId a) (ac_live a)" using ft(2) by (simp add: payment_stored_def)
  ultimately show ?thesis using b by (auto simp: r)
qed

text \<open>The trial of the run before pays with nothing newer seen, after a newer event, and when the provider's subscription was
  reported as active first.\<close>

definition demo_trialing :: "unit billing_store" where
  "demo_trialing = billing_run demo_start (empty_billing [''school''] [] [])"

definition demo_with :: "(billing_account \<Rightarrow> billing_account) \<Rightarrow> unit billing_store" where
  "demo_with f = demo_trialing\<lparr>bs_accounts := map f (bs_accounts demo_trialing)\<rparr>"

theorem payment_effect_witness:
  "(\<exists>b \<in> set (bs_accounts (snd (processInvoiceEvent (demo_gateway None) (demo_payment 10) demo_object False demo_trialing))).
      has_paid_history b) \<and>
   (let s = demo_with (\<lambda>a. a\<lparr>ac_lastEventCreatedAt := Some 11\<rparr>);
        r = processInvoiceEvent (demo_gateway None) (demo_payment 10) demo_object False s
    in fst r = Inr (Some ''school'') \<and> recorded (snd r) ''school'' True \<and> untouched s (snd r) \<and>
       \<not> has_paid_history (hd (bs_accounts (snd r))))"
proof -
  have o: "ev_object (wi_event (demo_payment 10)) = demo_object" by (simp add: demo_payment_def)
  let ?a = "hd (bs_accounts demo_trialing)"
  let ?s = "demo_with (\<lambda>a. a\<lparr>ac_lastEventCreatedAt := Some 11\<rparr>)"
  let ?b = "hd (bs_accounts ?s)"
  have now: "paid_invoice (demo_payment 10) ?a ''sub'' demo_trialing" "\<not> must_verify ?a ''sub''" "up_to_date (demo_payment 10) ?a"
    by code_simp+
  have late: "paid_invoice (demo_payment 10) ?b ''sub'' ?s" "\<not> must_verify ?b ''sub''" "\<not> up_to_date (demo_payment 10) ?b"
    "ac_contaId ?b = ''school''" "ac_live ?b" "\<not> has_paid_history ?b" by code_simp+
  show ?thesis
    using payment_effect [OF now(1,2), of "demo_gateway None"] now(3) payment_effect [OF late(1,2), of "demo_gateway None"] late(3-6)
    unfolding o Let_def by (auto simp: untouched_def)
qed

theorem unlinked_payment_refused_witness:
  "(let s = demo_with (\<lambda>a. a\<lparr>ac_status := ACC_ACTIVE\<rparr>);
        r = processInvoiceEvent (demo_gateway None) (demo_payment 10) demo_object False s
    in fst r = Inl processing_failed \<and> recorded (snd r) ''school'' True \<and>
       (\<exists>b \<in> set (bs_accounts (snd r)). ac_status b = ACC_PAUSED \<and> ac_accessStatus b = ACCESS_RESTRICTED \<and> \<not> has_paid_history b))"
proof -
  have o: "ev_object (wi_event (demo_payment 10)) = demo_object" by (simp add: demo_payment_def)
  let ?s = "demo_with (\<lambda>a. a\<lparr>ac_status := ACC_ACTIVE\<rparr>)"
  let ?a = "hd (bs_accounts ?s)"
  have h: "paid_invoice (demo_payment 10) ?a ''sub'' ?s" "must_verify ?a ''sub''" "without_flow (demo_gateway None) ''sub''"
    "ac_contaId ?a = ''school''" "ac_live ?a" "held_status ?a = ACC_PAUSED" "ac_status ?a = ACC_ACTIVE" "\<not> has_paid_history ?a" by code_simp+
  show ?thesis using unlinked_payment_refused [OF h(1-3)] h(4-8) unfolding o Let_def by auto
qed

end
