(* ===== verification/Spec2Isabelle.thy ===== *)
theory Spec2Isabelle
  imports BillingEngine ChargeMachine PaymentTrail WebhookRegistry Enrollment Renewal ExternalReference PaymentPolicy EventMetrics
    StoreCosts StoreRaces StoreRefunds StoreReplays PlatformPayments
begin

text \<open>
  Verification library of the alusa school management platform: the business rules of its
  TypeScript packages \<^verbatim>\<open>packages/domain\<close> (enrolments, renewals, billing agreements, school events),
  \<^verbatim>\<open>packages/finance\<close> (payment states, webhooks of the payment provider Asaas, policies, the school's store) and
  \<^verbatim>\<open>packages/platform-billing\<close> (what the schools pay for the platform, through the provider Stripe), translated
  function by function.

  \<^bold>\<open>Parts of the program and how they interact.\<close> A school keeps enrolments (\<^verbatim>\<open>matricula\<close>) that a renewal
  process carries into the next period. A payer's enrolments are billed under one billing agreement:
  the engine recomputes, from the stored allocations, the recurring amount and the adjustment of the
  current cycle, with proration by days and the split of totals by weight. The provider reports payments
  by webhooks: the registry says how each event is handled, the status mapping and precedence compute a
  candidate status, and two state machines (the academic charge, \<^verbatim>\<open>Cobranca\<close>, and the provider charge,
  \<^verbatim>\<open>Charge\<close>) decide whether it is applied; applied decisions go to an append-only trail. External references
  tie provider payments to local entities, and the action policy says what a user may do with a payment.
  Events of a school have their own ledger, charges, seats and metrics. The school's store keeps the stock of
  its products: every change of a balance is booked as a movement, and sales reserve, ship, return and release
  stock as their charges are paid, refunded or cancelled. A school itself has a billing account with the platform: the
  access policy derives from it what the school may do, the number of its students gives its price, and the events of
  the provider, kept in an inbox that workers claim, retry and settle, carry checkouts, subscriptions and invoices into
  the account.

  \<^bold>\<open>Theories and sources.\<close>
  \<^item> \<^verbatim>\<open>Prelude\<close>: the interfaces shared by the components: \<open>progression\<close> and \<open>strict_progression\<close> (a status
    moves along a precedence), \<open>transition_table\<close> (a table of allowed transitions with its final statuses).
  \<^item> \<^verbatim>\<open>JSNumber\<close>, \<^verbatim>\<open>JSString\<close>, \<^verbatim>\<open>JSText\<close>, \<^verbatim>\<open>CivilDate\<close>: what the code uses of the language: IEEE doubles as exact
    rationals with rounding to nearest even, infinities and not-a-number; strings as lists of characters;
    printing of numbers, dates and JSON; calendar arithmetic of \<^verbatim>\<open>Date\<close>.
  \<^item> \<^verbatim>\<open>BillingMoney\<close>, \<^verbatim>\<open>Proration\<close>, \<^verbatim>\<open>BillingEngine\<close>: \<^verbatim>\<open>domain/src/billing-agreement/\<close> (\<^verbatim>\<open>money.ts\<close>,
    \<^verbatim>\<open>proration.ts\<close>, \<^verbatim>\<open>engine.ts\<close>, \<^verbatim>\<open>types.ts\<close>) and \<^verbatim>\<open>finance/src/billing-agreements/money.ts\<close>.
  \<^item> \<^verbatim>\<open>PaymentStatus\<close>, \<^verbatim>\<open>PaymentMachine\<close>, \<^verbatim>\<open>ChargeMachine\<close>, \<^verbatim>\<open>PaymentTrail\<close>: \<^verbatim>\<open>finance/src/mappers/\<close>
    (\<^verbatim>\<open>status-mapper.ts\<close>, \<^verbatim>\<open>status-precedence.ts\<close>, \<^verbatim>\<open>asaas-snapshot-monotonicity.ts\<close>), \<^verbatim>\<open>core/status-mapping.ts\<close>
    and \<^verbatim>\<open>finance/src/state-machine/\<close>.
  \<^item> \<^verbatim>\<open>WebhookRegistry\<close>: \<^verbatim>\<open>finance/src/webhooks/asaas-event-registry.ts\<close>.
  \<^item> \<^verbatim>\<open>ExternalReference\<close>: \<^verbatim>\<open>finance/src/core/external-reference.ts\<close>; \<^verbatim>\<open>PaymentPolicy\<close>:
    \<^verbatim>\<open>finance/src/policies/payment-action-policy.ts\<close>.
  \<^item> \<^verbatim>\<open>Enrollment\<close> and \<^verbatim>\<open>Renewal\<close>: the files of \<^verbatim>\<open>domain/src/rules/\<close>.
  \<^item> \<^verbatim>\<open>DecimalMoney\<close>: amounts kept in decimal currency units and their rounding; \<^verbatim>\<open>EventFinance\<close>:
    \<^verbatim>\<open>domain/src/events/financial.ts\<close>; \<^verbatim>\<open>EventPayments\<close>, \<^verbatim>\<open>EventMetrics\<close>: \<^verbatim>\<open>events/index.ts\<close>; \<^verbatim>\<open>EventLifecycle\<close>:
    the machines of \<^verbatim>\<open>events/index.ts\<close>, \<^verbatim>\<open>events/map/map-rules.ts\<close>, \<^verbatim>\<open>map/ticket-sale-access.ts\<close> and
    \<^verbatim>\<open>ticket-payment-eligibility.ts\<close>.
  \<^item> \<^verbatim>\<open>Errors\<close>: sequencing of operations that may fail. \<^verbatim>\<open>StoreStock\<close>, \<^verbatim>\<open>StoreOperations\<close>, \<^verbatim>\<open>StoreReturns\<close>:
    \<^verbatim>\<open>finance/src/use-cases/store-inventory.ts\<close> with \<^verbatim>\<open>inventory-cost.ts\<close> and the parts of \<^verbatim>\<open>store-sales.ts\<close> that
    create, link and cancel a sale; the tables are lists of rows in one record \<open>stock_db\<close>, an operation is a function
    from it to an error or a new one. \<^verbatim>\<open>StoreLedger\<close> (movements and balances), \<^verbatim>\<open>StoreDocuments\<close> (sales and orders),
    \<^verbatim>\<open>StoreSteps\<close>, \<^verbatim>\<open>StoreSales\<close>, \<^verbatim>\<open>StoreOrders\<close> (each operation keeps both), \<^verbatim>\<open>StoreRuns\<close> (histories of operations),
    \<^verbatim>\<open>StoreHistories\<close> (the interface \<open>safe_stock\<close> of what every operation keeps, and its instances: the ledger, the
    opening stock of an item and, in \<^verbatim>\<open>StoreSafety\<close>, the cover of what is reserved),
    \<^verbatim>\<open>StoreAccounts\<close>, \<^verbatim>\<open>StoreSafety\<close>, \<^verbatim>\<open>StoreRaces\<close>, \<^verbatim>\<open>StoreRefunds\<close>, \<^verbatim>\<open>StoreReplays\<close>, \<^verbatim>\<open>StoreCosts\<close>: what holds in them.
  \<^item> \<^verbatim>\<open>PlatformAccess\<close>: the account and \<^verbatim>\<open>platform-billing/src/access-policy.ts\<close>; \<^verbatim>\<open>PlatformPlans\<close>:
    \<^verbatim>\<open>commercial-model.ts\<close>, \<^verbatim>\<open>plans.ts\<close>, \<^verbatim>\<open>price-mapping.ts\<close>, \<^verbatim>\<open>student-capacity.ts\<close> and
    \<^verbatim>\<open>checkout-commercial-resolution.ts\<close>; \<^verbatim>\<open>PlatformInbox\<close>: \<^verbatim>\<open>webhook-retry.ts\<close>, the inbox of \<^verbatim>\<open>prisma-store.ts\<close> and
    \<^verbatim>\<open>apps/web/src/server/platform-billing/webhook-worker.ts\<close>; \<^verbatim>\<open>PlatformStore\<close>: the tables and transactions of
    \<^verbatim>\<open>prisma-store.ts\<close> (one record \<open>billing_store\<close>); \<^verbatim>\<open>PlatformWebhooks\<close>: the handlers of \<^verbatim>\<open>webhooks.ts\<close>.
    \<^verbatim>\<open>PlatformRuns\<close> (runs of events and operations) and \<^verbatim>\<open>PlatformPayments\<close> (the effect of one payment): what holds
    in them.
  \<^item> This theory: what the registry and the state machine promise each other.

  Definitions keep the names of the functions of the source; an object is a record, a union of string
  literals a datatype, \<^verbatim>\<open>null\<close> and \<^verbatim>\<open>undefined\<close> are \<open>None\<close>, a thrown error is the left of a sum, a loop over an
  array a fold of a named step.

  \<^bold>\<open>What the lemmas show.\<close> Money: the floating-point code computes the integer arithmetic of cents
  (conservation of totals, exact shares, ledgers and positions, order independence of sums), or refuses.
  Billing: the engine accepts exactly the well-formed agreements, refines an abstract sum over the active
  allocations, does not depend on the order of the rows, prorated cycles included, and converges. Payments: decisions never regress along
  the precedence, redelivery does nothing, the order of deliveries does not matter, closed charges stay
  closed and the two machines move in lockstep. References: what is built is parsed back, and ownership is
  decided by whole segments. Enrolments, renewals, events: lifecycles and final statuses, conflict detection as
  overlap of intervals, the blockers that decide a preview, exclusive seats. Store: over every history of operations,
  failed ones included, movements replay to the balances and nothing is oversold while no one adjusts by hand; while
  deliveries name an item once, the balances are accounted for by the sales and orders and reservations can be honoured;
  returns are registered once and refund a line to the cent; and what the code does in the two cases in which it loses
  count: a payment read before its transaction takes twice the units of its sale, and the second line of a delivery
  that names an item twice is booked only if its quantity differs. Platform billing: what is granted follows the cover of the account, prices follow
  three agreeing monthly closes, an event of the inbox is settled once and tried at most ten times unless its worker
  crashes, an account only moves forward in the provider's time, and over every run it is paid only by a recorded
  invoice with a positive amount; and two ways in which a payment is recorded without reaching the account, a newer
  event applied first and a trial's subscription that names no checkout.

  \<^bold>\<open>Bounds and fuel.\<close> Printing a double searches its decimal exponent in \<open>400\<close> steps, and doubles lie
  between \<open>10 ^ (- 324)\<close> and \<open>10 ^ 309\<close>; it tries at most \<open>17\<close> digits, which suffice for every double. The decimal
  amounts are exact up to \<open>2 ^ 45\<close> cents; sums are exact for \<open>5000\<close> operations and totals of \<open>10 ^ 11\<close> cents (a
  billion currency units). Cents in safe integers are exact up to \<open>2 ^ 53\<close>, and the code refuses beyond. No other
  recursion has fuel: loops follow their lists. Stock counters are 32-bit columns and costs decimal columns; a value
  outside is the error \<open>DATABASE_RANGE\<close>. A database transaction is atomic and a failed one changes nothing; the two
  halves of \<^verbatim>\<open>fulfillReservedSaleOnPayment\<close>, which reads before its transaction, are separate steps. What is stated of
  balances and movements - they replay, stay well formed, and nothing is oversold without adjustments - holds for
  histories with any deliveries; what ties them to the sales and orders is stated for histories in which sold quantities
  are positive, which the callers validate, and a delivery names an item at most once, which nobody validates: the route
  of the receipts admits an item twice, and \<^verbatim>\<open>StoreRaces\<close> shows what comes of it. An edit of the catalogue leaves no
  negative stock. Proration is exact while the amount in cents times the days of the cycle is below \<open>2 ^ 53\<close>.

  \<^bold>\<open>Parameters.\<close> Code outside the sources is an argument of the definitions that use it: the collation of
  \<^verbatim>\<open>localeCompare\<close>, the hash \<^verbatim>\<open>sha256\<close>, the time-zone offset \<open>tz\<close> and the start of the local day \<open>midnight\<close> of an
  instant, the current time, and Unicode decomposition with removal of the marks (\<open>unmark\<close>). The answers of the provider
  Stripe are the functions of the record \<open>gateway\<close>, where \<open>None\<close> is a query that fails; the ids the database gives are
  arguments that must be new.

  \<^bold>\<open>Not modelled.\<close> The user interfaces, HTTP routes, database access and calls of providers (their effects
  are outside the process), the message texts, generated code. Strings are sequences of characters: lower and upper case and white
  space are those of ASCII. The two zeros of IEEE arithmetic are one, and dates are not clipped at
  \<open>8.64 * 10 ^ 15\<close> milliseconds. Of the store, the pricing of a cart, the creation of its charges with the provider and the formatting of lists are
  left out. Of the platform billing, the readers of the provider's JSON, the card setup of a trial, the
  reconciliation and the monthly jobs are left out. The Asaas webhook handlers and the other services of \<^verbatim>\<open>packages/finance\<close> and
  \<^verbatim>\<open>packages/lib\<close>, which interleave these rules with the database, are left to later extensions.
\<close>

section \<open>The registry provisions what the state machine needs\<close>

definition unregistered_payment_events :: "string list" where
  "unregistered_payment_events = [''PAYMENT_RECEIVED_IN_CASH'', ''PAYMENT_REFUND_REQUESTED'', ''PAYMENT_CANCELED'']"

lemma event_table_policies:
  "list_all (\<lambda>(n, _). ep_handlingMode (getWebhookEventPolicy n) =
      (if n \<in> set unregistered_payment_events then UNKNOWN_ALERT else STATE_CHANGE)) event_table"
  by code_simp

lemma moving_event_known:
  assumes "isAllowedCobrancaTransition c d e p" "c \<noteq> d"
  shows "\<exists>v. e = Some v \<and> (\<forall>s. v \<noteq> EV_Other s)"
proof (cases e)
  case None
  then show ?thesis using assms by (simp add: isAllowedCobrancaTransition_def)
next
  case (Some v)
  then show ?thesis using assms
    by (cases v) (auto simp: isAllowedCobrancaTransition_def refund_events_def confirmation_events_def open_events_def)
qed

text \<open>
  An event that changes the status of a charge is provisioned. Whatever the stored charge and
  the payload, a delivery moves the local status only under an event name that the registry knows
  as a handled state change (so it is subscribed to and never alerts as unknown), with three
  exceptions the registry lacks: \<^verbatim>\<open>PAYMENT_RECEIVED_IN_CASH\<close>,
  \<^verbatim>\<open>PAYMENT_REFUND_REQUESTED\<close> and \<^verbatim>\<open>PAYMENT_CANCELED\<close>, which alert as unknown.
\<close>

theorem moving_events_provisioned:
  assumes "sd_nextLocalStatus (decideCobrancaPaymentTransition i) \<noteq> ti_currentLocalStatus i"
  shows "\<exists>n. trim_upper (ti_eventName i) = Some n \<and>
    (if n \<in> set unregistered_payment_events
     then shouldAlertUnknownWebhookEvent n \<and> ep_handlingMode (getWebhookEventPolicy n) = UNKNOWN_ALERT
     else isHandledEvent n \<and> ep_handlingMode (getWebhookEventPolicy n) = STATE_CHANGE)"
proof -
  obtain d where "isAllowedCobrancaTransition (ti_currentLocalStatus i) d (normalize_event (ti_eventName i)) (normalize_provider (ti_currentProviderStatus i))"
    "ti_currentLocalStatus i \<noteq> d"
    using assms by (auto simp: decideCobrancaPaymentTransition_def Let_def split: if_splits)
  then obtain v where v: "normalize_event (ti_eventName i) = Some v" "\<forall>s. v \<noteq> EV_Other s"
    using moving_event_known by blast
  then obtain n where n: "trim_upper (ti_eventName i) = Some n" "event_of n = v"
    by (auto simp: normalize_event_def)
  then have "(n, v) \<in> set event_table" using v(2)
    by (auto simp: event_of_def dest: map_of_SomeD split: option.splits)
  then have mode: "ep_handlingMode (getWebhookEventPolicy n) =
      (if n \<in> set unregistered_payment_events then UNKNOWN_ALERT else STATE_CHANGE)"
    using event_table_policies by (auto simp: list_all_iff)
  show ?thesis
  proof (intro exI conjI)
    show "trim_upper (ti_eventName i) = Some n" by (fact n)
    have "isHandledEvent n" if "n \<notin> set unregistered_payment_events"
      using mode that by (auto simp: getWebhookEventPolicy_def isHandledEvent_def Let_def split: option.splits if_splits)
    moreover have "shouldAlertUnknownWebhookEvent n" if "n \<in> set unregistered_payment_events"
      using mode that by (auto simp: getWebhookEventPolicy_def shouldAlertUnknownWebhookEvent_def Let_def split: option.splits if_splits)
    ultimately show "if n \<in> set unregistered_payment_events
     then shouldAlertUnknownWebhookEvent n \<and> ep_handlingMode (getWebhookEventPolicy n) = UNKNOWN_ALERT
     else isHandledEvent n \<and> ep_handlingMode (getWebhookEventPolicy n) = STATE_CHANGE"
      using mode by simp
  qed
qed
lemma moving_events_provisioned_witness:
  "\<exists>n. trim_upper (Some ''payment_confirmed '') = Some n \<and>
    (if n \<in> set unregistered_payment_events
     then shouldAlertUnknownWebhookEvent n \<and> ep_handlingMode (getWebhookEventPolicy n) = UNKNOWN_ALERT
     else isHandledEvent n \<and> ep_handlingMode (getWebhookEventPolicy n) = STATE_CHANGE)"
proof -
  let ?i = "\<lparr>ti_currentLocalStatus = A_VENCER, ti_currentProviderStatus = None, ti_incomingProviderStatus = Some ''CONFIRMED'',
     ti_eventName = Some ''payment_confirmed '', ti_billingType = None, ti_dueDate = Some (Some 10), ti_now = Some 5,
     ti_source = WEBHOOK\<rparr>"
  have "sd_nextLocalStatus (decideCobrancaPaymentTransition ?i) = PAGO" by code_simp
  then show ?thesis using moving_events_provisioned [of ?i] by simp
qed
end
